(* ===== verification/Prelude.thy ===== *)
theory Prelude
  imports Main "HOL-Library.Word" "HOL-Library.Multiset" "HOL-Library.List_Lexorder" "HOL-Library.Char_ord"
begin

text \<open>
  What the components share: the result monad of the fallible operations (Rust's
  \<open>Result\<close> and the question-mark operator, with a weakest-precondition style predicate
  that also rules panics out), ordered maps and ordered sets (Rust's \<open>BTreeMap\<close> and
  \<open>BTreeSet\<close>, which the code iterates in key order), checked 128-bit arithmetic
  (Rust's \<open>i128::checked_*\<close>), and generic lemmas on lists.

  Strings are the bytes of a Rust \<open>String\<close>; a 64-bit float is its bit pattern.
\<close>

unbundle bit_operations_syntax

type_synonym f64 = "64 word"

named_theorems wp_intro \<open>introduction rules of the triples on fallible operations\<close>
named_theorems wp_simp \<open>simplification rules of the triples on fallible operations\<close>

section \<open>Fallible operations\<close>

text \<open>An operation fails with an error of its own, or panics.\<close>

datatype 'e failure = Fail 'e | Panic

type_synonym ('e, 'a) res = "'e failure + 'a"

definition bindE :: "('e, 'a) res \<Rightarrow> ('a \<Rightarrow> ('e, 'b) res) \<Rightarrow> ('e, 'b) res" where
  "bindE m f = (case m of Inl e \<Rightarrow> Inl e | Inr x \<Rightarrow> f x)"

lemma bindE_simps [simp]:
  "bindE (Inl e) f = Inl e"
  "bindE (Inr x) f = f x"
  by (simp_all add: bindE_def)

lemma bindE_cong [fundef_cong]:
  "m = m' \<Longrightarrow> (\<And>x. m' = Inr x \<Longrightarrow> f x = f' x) \<Longrightarrow> bindE m f = bindE m' f'"
  by (auto simp: bindE_def split: sum.splits)

lemma bindE_Inr_iff: "bindE m f = Inr y \<longleftrightarrow> (\<exists>x. m = Inr x \<and> f x = Inr y)"
  by (cases m) auto

lemma bindE_assoc: "bindE (bindE m f) g = bindE m (\<lambda>x. bindE (f x) g)"
  by (cases m) auto

text \<open>Rust's \<open>expect\<close> and vector indexing: a missing value is a panic.\<close>

definition expectE :: "'a option \<Rightarrow> ('e, 'a) res" where
  "expectE x = (case x of None \<Rightarrow> Inl Panic | Some v \<Rightarrow> Inr v)"

definition nthE :: "'a list \<Rightarrow> nat \<Rightarrow> ('e, 'a) res" where
  "nthE xs i = (if i < length xs then Inr (xs ! i) else Inl Panic)"

definition updE :: "'a list \<Rightarrow> nat \<Rightarrow> 'a \<Rightarrow> ('e, 'a list) res" where
  "updE xs i x = (if i < length xs then Inr (xs[i := x]) else Inl Panic)"

text \<open>\<open>okE m Q\<close>: the operation does not panic, and where it returns, \<open>Q\<close> holds.\<close>

definition okE :: "('e, 'a) res \<Rightarrow> ('a \<Rightarrow> bool) \<Rightarrow> bool" where
  "okE m Q = (case m of Inl Panic \<Rightarrow> False | Inl (Fail e) \<Rightarrow> True | Inr x \<Rightarrow> Q x)"

lemma okE_simps [simp, wp_simp]:
  "okE (Inr x) Q = Q x"
  "okE (Inl (Fail e)) Q"
  "\<not> okE (Inl Panic) Q"
  by (simp_all add: okE_def)

lemma okE_bind [wp_simp]: "okE (bindE m f) Q = okE m (\<lambda>x. okE (f x) Q)"
  by (auto simp: okE_def split: sum.splits failure.splits)

lemma okE_mono: "okE m P \<Longrightarrow> (\<And>x. m = Inr x \<Longrightarrow> P x \<Longrightarrow> Q x) \<Longrightarrow> okE m Q"
  by (auto simp: okE_def split: sum.splits failure.splits)

lemma okE_conj: "okE m P \<Longrightarrow> okE m Q \<Longrightarrow> okE m (\<lambda>x. P x \<and> Q x)"
  by (auto simp: okE_def split: sum.splits failure.splits)

lemma okE_not_panic: "okE m Q \<Longrightarrow> m \<noteq> Inl Panic"
  by (auto simp: okE_def)

lemma okE_returns: "okE m Q \<Longrightarrow> m = Inr x \<Longrightarrow> Q x"
  by (auto simp: okE_def)

lemma okE_expect [wp_simp]: "okE (expectE x) Q \<longleftrightarrow> (\<exists>v. x = Some v \<and> Q v)"
  by (auto simp: expectE_def split: option.splits)

lemma okE_nth [wp_simp]: "okE (nthE xs i) Q \<longleftrightarrow> i < length xs \<and> Q (xs ! i)"
  by (auto simp: nthE_def)

lemma okE_upd [wp_simp]: "okE (updE xs i x) Q \<longleftrightarrow> i < length xs \<and> Q (xs[i := x])"
  by (auto simp: updE_def)

text \<open>\<open>iter().map(..).collect::<Result<Vec<_>, _>>()\<close>: left to right, first error wins.\<close>

fun mapE :: "('a \<Rightarrow> ('e, 'b) res) \<Rightarrow> 'a list \<Rightarrow> ('e, 'b list) res" where
  "mapE f [] = Inr []"
| "mapE f (x # xs) = bindE (f x) (\<lambda>y. bindE (mapE f xs) (\<lambda>ys. Inr (y # ys)))"

lemma mapE_cong [fundef_cong]:
  "xs = ys \<Longrightarrow> (\<And>x. x \<in> set ys \<Longrightarrow> f x = g x) \<Longrightarrow> mapE f xs = mapE g ys"
  by (induction xs arbitrary: ys) auto

lemma okE_mapE:
  "(\<And>x. x \<in> set xs \<Longrightarrow> okE (f x) (\<lambda>y. R x y)) \<Longrightarrow> okE (mapE f xs) (\<lambda>ys. list_all2 R xs ys)"
proof (induction xs)
  case Nil
  then show ?case by simp
next
  case (Cons x xs)
  have "okE (f x) (R x)" and "okE (mapE f xs) (\<lambda>ys. list_all2 R xs ys)"
    using Cons by simp_all
  then show ?case by (auto simp: okE_bind elim!: okE_mono)
qed

section \<open>Ordered maps and sets\<close>

text \<open>
  A \<open>BTreeMap\<close> as its entries in key order, without duplicates; \<open>insert\<close> overwrites.
\<close>

type_synonym ('k, 'v) btmap = "('k \<times> 'v) list"

fun bt_insert :: "'k::linorder \<Rightarrow> 'v \<Rightarrow> ('k, 'v) btmap \<Rightarrow> ('k, 'v) btmap" where
  "bt_insert k v [] = [(k, v)]"
| "bt_insert k v ((k', v') # m) =
     (if k < k' then (k, v) # (k', v') # m
      else if k = k' then (k, v) # m
      else (k', v') # bt_insert k v m)"

abbreviation bt_get :: "('k, 'v) btmap \<Rightarrow> 'k \<Rightarrow> 'v option" where
  "bt_get m k \<equiv> map_of m k"

abbreviation bt_keys :: "('k, 'v) btmap \<Rightarrow> 'k list" where
  "bt_keys m \<equiv> map fst m"

definition bt_inv :: "('k::linorder, 'v) btmap \<Rightarrow> bool" where
  "bt_inv m \<longleftrightarrow> sorted_wrt (<) (bt_keys m)"

fun bt_insert_all :: "('k::linorder \<times> 'v) list \<Rightarrow> ('k, 'v) btmap \<Rightarrow> ('k, 'v) btmap" where
  "bt_insert_all [] m = m"
| "bt_insert_all ((k, v) # kvs) m = bt_insert_all kvs (bt_insert k v m)"

text \<open>
  The contract of a map as the components use it: what a lookup finds after an insert,
  which keys there are, that inserting keeps the representation in order. The lemmas
  about a batch of inserts are proved once, from the contract.
\<close>

locale ordered_map =
  fixes emp :: "'m" and ins :: "'k::linorder \<Rightarrow> 'v \<Rightarrow> 'm \<Rightarrow> 'm"
    and get :: "'m \<Rightarrow> 'k \<Rightarrow> 'v option" and keys :: "'m \<Rightarrow> 'k list"
    and inv :: "'m \<Rightarrow> bool"
  assumes get_emp: "get emp k = None"
    and get_ins: "get (ins k v m) k' = (if k' = k then Some v else get m k')"
    and inv_emp: "inv emp"
    and inv_ins: "inv m \<Longrightarrow> inv (ins k v m)"
    and keys_get: "set (keys m) = {k. get m k \<noteq> None}"
    and keys_sorted: "inv m \<Longrightarrow> sorted_wrt (<) (keys m)"
begin

definition ins_all :: "('k \<times> 'v) list \<Rightarrow> 'm \<Rightarrow> 'm" where
  "ins_all kvs m = foldl (\<lambda>m (k, v). ins k v m) m kvs"

lemma keys_ins: "set (keys (ins k v m)) = insert k (set (keys m))"
  by (auto simp: keys_get get_ins)

lemma get_ins_all: "get (ins_all kvs m) k = (case map_of (rev kvs) k of None \<Rightarrow> get m k | Some v \<Rightarrow> Some v)"
  unfolding ins_all_def
  by (induction kvs arbitrary: m) (auto simp: get_ins map_add_def split: option.splits)

lemma keys_ins_all: "set (keys (ins_all kvs m)) = fst ` set kvs \<union> set (keys m)"
  unfolding ins_all_def
  by (induction kvs arbitrary: m) (auto simp: keys_ins)

lemma inv_ins_all: "inv m \<Longrightarrow> inv (ins_all kvs m)"
  unfolding ins_all_def
  by (induction kvs arbitrary: m) (auto simp: inv_ins)

lemma ins_all_values:
  assumes "\<And>k v. get m k = Some v \<Longrightarrow> P v" and "\<And>k v. (k, v) \<in> set kvs \<Longrightarrow> P v"
    and "get (ins_all kvs m) k = Some v"
  shows "P v"
  using assms by (auto simp: get_ins_all split: option.splits dest: map_of_SomeD)

lemma keys_distinct: "inv m \<Longrightarrow> distinct (keys m)"
  using keys_sorted strict_sorted_iff by blast

end

lemma bt_get_insert [simp]: "bt_get (bt_insert k v m) k' = (if k' = k then Some v else bt_get m k')"
  by (induction k v m rule: bt_insert.induct) auto

lemma bt_keys_insert [simp]: "fst ` set (bt_insert k v m) = insert k (fst ` set m)"
  by (induction k v m rule: bt_insert.induct) auto

lemma bt_inv_insert: "bt_inv m \<Longrightarrow> bt_inv (bt_insert k v m)"
proof (induction k v m rule: bt_insert.induct)
  case (1 k v)
  then show ?case by (simp add: bt_inv_def)
next
  case (2 k v k' v' m)
  have tl: "bt_inv m" and k': "\<forall>x\<in>fst ` set m. k' < x"
    using 2(2) by (auto simp: bt_inv_def)
  consider "k < k'" | "k = k'" | "k' < k" by (rule linorder_cases)
  then show ?case
  proof cases
    case 1
    with 2(2) k' show ?thesis by (fastforce simp: bt_inv_def)
  next
    case 2
    with \<open>bt_inv ((k', v') # m)\<close> show ?thesis by (simp add: bt_inv_def)
  next
    case 3
    have s: "sorted_wrt (<) (map fst (bt_insert k v m))"
      using 2(1)[OF _ _ tl] 3 by (auto simp: bt_inv_def)
    have "\<forall>x\<in>fst ` set (bt_insert k v m). k' < x" using 3 k' by simp
    then have "\<forall>x\<in>set (map fst (bt_insert k v m)). k' < x" by simp
    with s 3 show ?thesis by (auto simp: bt_inv_def)
  qed
qed

interpretation btm: ordered_map "[]" bt_insert map_of "map fst" bt_inv
  by unfold_locales
    (auto simp: bt_inv_insert[unfolded bt_inv_def] bt_inv_def map_of_eq_None_iff image_iff
      intro: rev_image_eqI)

lemma bt_insert_all_eq: "bt_insert_all kvs m = btm.ins_all kvs m"
  unfolding btm.ins_all_def
  by (induction kvs m rule: bt_insert_all.induct) auto

lemma bt_keys_insert_all [simp]: "fst ` set (bt_insert_all kvs m) = fst ` set kvs \<union> fst ` set m"
  using btm.keys_ins_all[of kvs m] by (simp add: bt_insert_all_eq)

text \<open>A \<open>BTreeSet\<close> as its elements in order.\<close>

fun bs_insert :: "'a::linorder \<Rightarrow> 'a list \<Rightarrow> 'a list" where
  "bs_insert x [] = [x]"
| "bs_insert x (y # ys) =
     (if x < y then x # y # ys else if x = y then y # ys else y # bs_insert x ys)"

lemma set_bs_insert [simp]: "set (bs_insert x ys) = insert x (set ys)"
  by (induction x ys rule: bs_insert.induct) auto

lemma sorted_bs_insert: "sorted_wrt (<) ys \<Longrightarrow> sorted_wrt (<) (bs_insert x ys)"
  by (induction x ys rule: bs_insert.induct) (auto simp: not_less le_less)

section \<open>Checked 128-bit arithmetic\<close>

definition i128_min :: int where "i128_min = - (2 ^ 127)"
definition i128_max :: int where "i128_max = 2 ^ 127 - 1"

definition i128_fits :: "int \<Rightarrow> bool" where
  "i128_fits v \<longleftrightarrow> i128_min \<le> v \<and> v \<le> i128_max"

text \<open>\<open>checked_add\<close>, \<open>checked_sub\<close>, \<open>checked_mul\<close>, \<open>checked_neg\<close>: \<open>None\<close> on overflow.\<close>

definition i128_checked :: "int \<Rightarrow> int option" where
  "i128_checked v = (if i128_fits v then Some v else None)"

text \<open>Rust's integer division truncates towards zero.\<close>

definition trunc_div :: "int \<Rightarrow> int \<Rightarrow> int" where
  "trunc_div a b = sgn a * sgn b * (\<bar>a\<bar> div \<bar>b\<bar>)"

definition trunc_rem :: "int \<Rightarrow> int \<Rightarrow> int" where
  "trunc_rem a b = a - b * trunc_div a b"

text \<open>\<open>checked_shl\<close> and \<open>checked_shr\<close> only check the shift count; bits shifted out are lost.\<close>

definition i128_wrap :: "int \<Rightarrow> int" where
  "i128_wrap v = (v + 2 ^ 127) mod 2 ^ 128 - 2 ^ 127"

definition i128_shl :: "int \<Rightarrow> nat \<Rightarrow> int option" where
  "i128_shl a s = (if s < 128 then Some (i128_wrap (a * 2 ^ s)) else None)"

definition i128_shr :: "int \<Rightarrow> nat \<Rightarrow> int option" where
  "i128_shr a s = (if s < 128 then Some (a div 2 ^ s) else None)"

text \<open>\<open>u32::try_from\<close>.\<close>

definition u32_of_int :: "int \<Rightarrow> nat option" where
  "u32_of_int v = (if 0 \<le> v \<and> v < 2 ^ 32 then Some (nat v) else None)"

text \<open>\<open>v as u64\<close>: the low 64 bits.\<close>

definition as_u64 :: "int \<Rightarrow> nat" where
  "as_u64 v = nat (v mod 2 ^ 64)"

section \<open>Decimal numerals\<close>

definition digit_char :: "nat \<Rightarrow> char" where
  "digit_char d = char_of (48 + d)"

fun show_nat :: "nat \<Rightarrow> string" where
  "show_nat n = (if n < 10 then [digit_char n] else show_nat (n div 10) @ [digit_char (n mod 10)])"

declare show_nat.simps [simp del]

definition show_int :: "int \<Rightarrow> string" where
  "show_int v = (if v < 0 then CHR ''-'' # show_nat (nat (- v)) else show_nat (nat v))"

fun join_with :: "string \<Rightarrow> string list \<Rightarrow> string" where
  "join_with sep [] = []"
| "join_with sep [x] = x"
| "join_with sep (x # y # xs) = x @ sep @ join_with sep (y # xs)"

section \<open>Lists\<close>

lemma mset_concat_update:
  "i < length xs \<Longrightarrow>
   mset (concat (map f (xs[i := y]))) + mset (f (xs ! i)) = mset (concat (map f xs)) + mset (f y)"
proof (induction xs arbitrary: i)
  case Nil
  then show ?case by simp
next
  case (Cons x xs)
  then show ?case by (cases i) (auto simp: ac_simps)
qed

lemma map_of_filter_key: "map_of (filter (\<lambda>(k, v). P k) m) k = (if P k then map_of m k else None)"
  by (induction m) auto

end
