(* ===== verification/Ast.thy ===== *)
theory Ast
  imports Prelude
begin

text \<open>
  The parts of \<open>src/ast.rs\<close> and \<open>src/span.rs\<close> that the middle end works on: spans, the
  language's types with their predicates and their printed form, and the operators. The
  thread-local registries of \<open>ast.rs\<close> (which structs and enums own heap storage) are the
  fields of the record \<open>registries\<close>, an argument of the functions that consult them.
\<close>

section \<open>Spans\<close>

record span =
  s_start :: nat
  s_end :: nat

definition span_new :: "nat \<Rightarrow> nat \<Rightarrow> span" where
  "span_new s e = \<lparr>s_start = s, s_end = e\<rparr>"

definition span_default :: span where
  "span_default = \<lparr>s_start = 0, s_end = 0\<rparr>"

definition span_merge :: "span \<Rightarrow> span \<Rightarrow> span" where
  "span_merge a b = \<lparr>s_start = min (s_start a) (s_start b), s_end = max (s_end a) (s_end b)\<rparr>"

definition span_covers :: "span \<Rightarrow> span \<Rightarrow> bool" where
  "span_covers a b \<longleftrightarrow> s_start a \<le> s_start b \<and> s_end b \<le> s_end a"

text \<open>Merging is the least span that covers both.\<close>

lemma span_merge_covers: "span_covers (span_merge a b) a \<and> span_covers (span_merge a b) b"
  by (auto simp: span_covers_def span_merge_def)

lemma span_merge_least:
  "span_covers c a \<Longrightarrow> span_covers c b \<Longrightarrow> span_covers c (span_merge a b)"
  by (auto simp: span_covers_def span_merge_def)

section \<open>Types\<close>

datatype ty =
    TI8 | TI16 | TI32 | TI64 | TU8 | TU16 | TU32 | TU64
  | TF32 | TF64
  | TBool
  | TStr
  | TOwnedStr
  | TArray (ty_element: ty) (ty_length: nat)
  | TVec ty
  | TTuple "ty list"
  | TStruct string
  | TEnum string
  | TApply string "ty list"
  | TParam string
  | TRef ty
  | TRefMut ty
  | TTask
  | TAtomic ty
  | TChannel ty nat
  | TMutex ty
  | TGuard ty
  | TFnPtr "ty list" ty
  | TObject string
  | TCondvar
  | TDeque ty
  | THashSet ty
  | THashMap ty ty
  | TBTreeSet ty
  | TBTreeMap ty ty
  | TUnionFind
  | TBinaryHeap ty
  | TBloomFilter
  | TBst ty
  | TGraph
  | TTrie
  | TSkipList

text \<open>The registries the checker fills before any of these predicates is asked.\<close>

record registries =
  non_copy_structs :: "string list"
  non_copy_enums :: "string list"

definition set_non_copy_structs :: "string list \<Rightarrow> registries \<Rightarrow> registries" where
  "set_non_copy_structs names r = r\<lparr>non_copy_structs := names\<rparr>"

definition struct_has_non_copy_field :: "registries \<Rightarrow> string \<Rightarrow> bool" where
  "struct_has_non_copy_field r name \<longleftrightarrow> name \<in> set (non_copy_structs r)"

definition set_non_copy_enums :: "string list \<Rightarrow> registries \<Rightarrow> registries" where
  "set_non_copy_enums names r = r\<lparr>non_copy_enums := names\<rparr>"

definition enum_has_non_copy_payload :: "registries \<Rightarrow> string \<Rightarrow> bool" where
  "enum_has_non_copy_payload r name \<longleftrightarrow> name \<in> set (non_copy_enums r)"

definition is_integer :: "ty \<Rightarrow> bool" where
  "is_integer t \<longleftrightarrow> t \<in> {TI8, TI16, TI32, TI64, TU8, TU16, TU32, TU64}"

definition is_signed_integer :: "ty \<Rightarrow> bool" where
  "is_signed_integer t \<longleftrightarrow> t \<in> {TI8, TI16, TI32, TI64}"

definition is_unsigned_integer :: "ty \<Rightarrow> bool" where
  "is_unsigned_integer t \<longleftrightarrow> t \<in> {TU8, TU16, TU32, TU64}"

definition is_float :: "ty \<Rightarrow> bool" where
  "is_float t \<longleftrightarrow> t \<in> {TF32, TF64}"

definition is_numeric :: "ty \<Rightarrow> bool" where
  "is_numeric t \<longleftrightarrow> is_integer t \<or> is_float t"

fun is_array :: "ty \<Rightarrow> bool" where
  "is_array (TArray _ _) = True"
| "is_array _ = False"

fun is_vec :: "ty \<Rightarrow> bool" where
  "is_vec (TVec _) = True"
| "is_vec _ = False"

fun is_ref :: "ty \<Rightarrow> bool" where
  "is_ref (TRef _) = True"
| "is_ref _ = False"

fun is_ref_mut :: "ty \<Rightarrow> bool" where
  "is_ref_mut (TRefMut _) = True"
| "is_ref_mut _ = False"

definition is_any_ref :: "ty \<Rightarrow> bool" where
  "is_any_ref t \<longleftrightarrow> is_ref t \<or> is_ref_mut t"

fun deref :: "ty \<Rightarrow> ty" where
  "deref (TRef t) = deref t"
| "deref (TRefMut t) = deref t"
| "deref t = t"

fun is_copy :: "registries \<Rightarrow> ty \<Rightarrow> bool" where
  "is_copy r t = (case t of
     TArray _ _ \<Rightarrow> False | TVec _ \<Rightarrow> False | TOwnedStr \<Rightarrow> False | TTask \<Rightarrow> False
   | TAtomic _ \<Rightarrow> False | TChannel _ _ \<Rightarrow> False | TMutex _ \<Rightarrow> False | TGuard _ \<Rightarrow> False
   | TCondvar \<Rightarrow> False | TDeque _ \<Rightarrow> False | THashSet _ \<Rightarrow> False | THashMap _ _ \<Rightarrow> False
   | TBTreeSet _ \<Rightarrow> False | TBTreeMap _ _ \<Rightarrow> False | TUnionFind \<Rightarrow> False
   | TBinaryHeap _ \<Rightarrow> False | TBloomFilter \<Rightarrow> False | TBst _ \<Rightarrow> False | TGraph \<Rightarrow> False
   | TTrie \<Rightarrow> False | TSkipList \<Rightarrow> False
   | TRef _ \<Rightarrow> True | TRefMut _ \<Rightarrow> True
   | TStruct name \<Rightarrow> \<not> struct_has_non_copy_field r name
   | TEnum name \<Rightarrow> \<not> enum_has_non_copy_payload r name
   | _ \<Rightarrow> True)"

fun bits :: "ty \<Rightarrow> nat option" where
  "bits TI8 = Some 8" | "bits TU8 = Some 8"
| "bits TI16 = Some 16" | "bits TU16 = Some 16"
| "bits TI32 = Some 32" | "bits TU32 = Some 32"
| "bits TI64 = Some 64" | "bits TU64 = Some 64"
| "bits _ = None"

fun min_value :: "ty \<Rightarrow> int option" where
  "min_value TI8 = Some (-128)"
| "min_value TI16 = Some (-32768)"
| "min_value TI32 = Some (-2147483648)"
| "min_value TI64 = Some (-9223372036854775808)"
| "min_value TU8 = Some 0" | "min_value TU16 = Some 0"
| "min_value TU32 = Some 0" | "min_value TU64 = Some 0"
| "min_value _ = None"

fun max_value :: "ty \<Rightarrow> int option" where
  "max_value TI8 = Some 127"
| "max_value TI16 = Some 32767"
| "max_value TI32 = Some 2147483647"
| "max_value TI64 = Some 9223372036854775807"
| "max_value TU8 = Some 255"
| "max_value TU16 = Some 65535"
| "max_value TU32 = Some 4294967295"
| "max_value TU64 = Some 18446744073709551615"
| "max_value _ = None"

fun float_rank :: "ty \<Rightarrow> nat option" where
  "float_rank TF32 = Some 32"
| "float_rank TF64 = Some 64"
| "float_rank _ = None"

section \<open>Printing types\<close>

fun show_ty :: "ty \<Rightarrow> string" where
  "show_ty TI8 = ''i8''" | "show_ty TI16 = ''i16''" | "show_ty TI32 = ''i32''"
| "show_ty TI64 = ''i64''" | "show_ty TU8 = ''u8''" | "show_ty TU16 = ''u16''"
| "show_ty TU32 = ''u32''" | "show_ty TU64 = ''u64''" | "show_ty TF32 = ''f32''"
| "show_ty TF64 = ''f64''" | "show_ty TBool = ''bool''" | "show_ty TStr = ''Str''"
| "show_ty TOwnedStr = ''OwnedStr''"
| "show_ty (TArray e n) = ''['' @ show_ty e @ ''; '' @ show_nat n @ '']''"
| "show_ty (TVec e) = ''Vec<'' @ show_ty e @ ''>''"
| "show_ty (TRef t) = ''ref '' @ show_ty t"
| "show_ty (TRefMut t) = ''mut ref '' @ show_ty t"
| "show_ty TTask = ''Task''"
| "show_ty (TAtomic t) = ''Atomic<'' @ show_ty t @ ''>''"
| "show_ty (TChannel t c) =
     (if c = 16 then ''Channel<'' @ show_ty t @ ''>''
      else ''Channel<'' @ show_ty t @ '', '' @ show_nat c @ ''>'')"
| "show_ty (TMutex t) = ''Mutex<'' @ show_ty t @ ''>''"
| "show_ty (TGuard t) = ''Guard<'' @ show_ty t @ ''>''"
| "show_ty TCondvar = ''Condvar''"
| "show_ty (TDeque t) = ''Deque<'' @ show_ty t @ ''>''"
| "show_ty (THashSet t) = ''HashSet<'' @ show_ty t @ ''>''"
| "show_ty (THashMap k v) = ''HashMap<'' @ show_ty k @ '', '' @ show_ty v @ ''>''"
| "show_ty (TBTreeSet t) = ''BTreeSet<'' @ show_ty t @ ''>''"
| "show_ty (TBTreeMap k v) = ''BTreeMap<'' @ show_ty k @ '', '' @ show_ty v @ ''>''"
| "show_ty TUnionFind = ''UnionFind''"
| "show_ty (TBinaryHeap t) = ''BinaryHeap<'' @ show_ty t @ ''>''"
| "show_ty TBloomFilter = ''BloomFilter''"
| "show_ty (TBst t) = ''Bst<'' @ show_ty t @ ''>''"
| "show_ty TGraph = ''Graph''"
| "show_ty TTrie = ''Trie''"
| "show_ty TSkipList = ''SkipList''"
| "show_ty (TFnPtr ps r) = ''fn('' @ join_with '', '' (map show_ty ps) @ '') -> '' @ show_ty r"
| "show_ty (TTuple ts) = ''('' @ join_with '', '' (map show_ty ts) @ '')''"
| "show_ty (TStruct n) = n"
| "show_ty (TEnum n) = n"
| "show_ty (TApply n ts) = n @ ''<'' @ join_with '', '' (map show_ty ts) @ ''>''"
| "show_ty (TParam n) = n"
| "show_ty (TObject n) = ''dyn '' @ n"

section \<open>Operators\<close>

datatype unary_op = UNeg | UNot

datatype binary_op =
    Add | Sub | Mul | Div | Rem | Shl | Shr | BitAnd | BitOr | BitXor
  | Eq | Ne | Lt | Le | Gt | Ge | And | Or

datatype reduction_op = RAdd | RMul | RAnd | ROr | RBitAnd | RBitOr | RBitXor | RMin | RMax

fun binop_symbol :: "binary_op \<Rightarrow> string" where
  "binop_symbol Add = ''+''" | "binop_symbol Sub = ''-''" | "binop_symbol Mul = ''*''"
| "binop_symbol Div = ''/''" | "binop_symbol Rem = ''%''" | "binop_symbol Shl = ''<<''"
| "binop_symbol Shr = ''>>''" | "binop_symbol BitAnd = ''&''" | "binop_symbol BitOr = ''|''"
| "binop_symbol BitXor = ''^''" | "binop_symbol Eq = ''==''" | "binop_symbol Ne = ''!=''"
| "binop_symbol Lt = ''<''" | "binop_symbol Le = ''<=''" | "binop_symbol Gt = ''>''"
| "binop_symbol Ge = ''>=''" | "binop_symbol And = ''&&''" | "binop_symbol Or = ''||''"

fun redop_symbol :: "reduction_op \<Rightarrow> string" where
  "redop_symbol RAdd = ''+''" | "redop_symbol RMul = ''*''" | "redop_symbol RAnd = ''&&''"
| "redop_symbol ROr = ''||''" | "redop_symbol RBitAnd = ''&''" | "redop_symbol RBitOr = ''|''"
| "redop_symbol RBitXor = ''^''" | "redop_symbol RMin = ''min''" | "redop_symbol RMax = ''max''"

section \<open>Integer ranges\<close>

text \<open>
  What an integer type holds. \<open>wrap_ty\<close> is the two's complement reduction to the type,
  the specification the machine arithmetic of the back ends follows.
\<close>

definition fits :: "ty \<Rightarrow> int \<Rightarrow> bool" where
  "fits t v \<longleftrightarrow> (case (min_value t, max_value t) of (Some lo, Some hi) \<Rightarrow> lo \<le> v \<and> v \<le> hi | _ \<Rightarrow> False)"

definition wrap_ty :: "ty \<Rightarrow> int \<Rightarrow> int" where
  "wrap_ty t v = (case (bits t, min_value t) of
     (Some w, Some lo) \<Rightarrow> (v - lo) mod 2 ^ w + lo
   | _ \<Rightarrow> v)"

lemma is_integer_cases:
  assumes "is_integer t"
  obtains "t = TI8" | "t = TI16" | "t = TI32" | "t = TI64"
    | "t = TU8" | "t = TU16" | "t = TU32" | "t = TU64"
  using assms by (auto simp: is_integer_def)

lemma wrap_ty_fits: "is_integer t \<Longrightarrow> fits t (wrap_ty t v)"
  by (erule is_integer_cases) (simp_all add: fits_def wrap_ty_def)

lemma wrap_ty_id: "fits t v \<Longrightarrow> wrap_ty t v = v"
  by (cases t) (simp_all add: fits_def wrap_ty_def)

lemma fits_integer: "fits t v \<Longrightarrow> is_integer t"
  by (cases t) (simp_all add: fits_def is_integer_def)

lemma wrap_ty_cong:
  assumes "is_integer t" and "bits t = Some w"
  shows "wrap_ty t v mod 2 ^ w = v mod 2 ^ w"
  using assms by (auto elim!: is_integer_cases simp: wrap_ty_def mod_simps)

lemma fits_i128: "fits t v \<Longrightarrow> i128_fits v"
  by (cases t) (simp_all add: fits_def i128_fits_def i128_min_def i128_max_def)

lemma deref_idem [simp]: "deref (deref t) = deref t"
  by (induction t rule: deref.induct) auto

lemma deref_not_ref: "\<not> is_any_ref (deref t)"
  by (induction t rule: deref.induct) (auto simp: is_any_ref_def)

end
