(* ===== verification/Ir.thy ===== *)
theory Ir
  imports Ast
begin

text \<open>
  The typed tree IR of \<open>src/ir.rs\<close>: what the checker hands to the SSA lowerer and to the
  back ends. Expressions, statements, print items and match arms are one family of
  datatypes, because a block expression holds statements. Each constructor carries the
  fields of its Rust counterpart; \<open>TExpr\<close> is the struct \<open>TypedExpr\<close>.
\<close>

section \<open>Typed expressions and statements\<close>

record typed_reduction =
  tr_var :: string
  tr_op :: reduction_op
  tr_ty :: ty

datatype typed_const = TCInt int | TCFloat f64 | TCBool bool

datatype typed_expr =
  TExpr (e_kind: typed_expr_kind) (e_ty: ty) (e_constant: "typed_const option") (e_span: span)
    (e_decl: "span option")

and typed_expr_kind =
    EInt int
  | EFloat f64
  | EBool bool
  | EStr string
  | EVar string
  | EUnary unary_op typed_expr
  | EBinary binary_op typed_expr typed_expr bool
  | ECall string span "typed_expr list"
  | ECast typed_expr ty
  | EArrayLit "typed_expr list"
  | EIndex typed_expr typed_expr bool
  | ELen typed_expr nat
  | ERef string
  | ERefMut string
  | ERefField string string nat ty
  | ERefMutField string string nat ty
  | EFnRef string span
  | ECallIndirect typed_expr "typed_expr list"
  | ETuple "typed_expr list"
  | ETupleAccess typed_expr nat
  | EStructLit string "(string \<times> typed_expr) list"
  | EFieldAccess typed_expr string nat
  | EEnumVariant string string nat
  | EEnumVariantWithPayload string string nat typed_expr ty
  | EMatch typed_expr "typed_match_arm list"
  | EIfExpr typed_expr typed_expr typed_expr
  | EDynCoerce typed_expr string string ty
  | EDynDispatch typed_expr string string span nat "typed_expr list"
  | EBlock "typed_stmt list" typed_expr

and typed_match_arm =
  TMatchArm string nat bool "int option" "(string \<times> ty) option" (arm_body: typed_expr)

and typed_print_item =
    PIExpr typed_expr
  | PIStr string

and typed_stmt =
    SLet string ty typed_expr
  | SReassign string ty typed_expr bool
  | SDrop string ty "string list"
  | SDiscard typed_expr
  | SReturn typed_expr
  | SAssert typed_expr "string option"
  | SProve typed_expr
  | SPrint "typed_print_item list"
  | SIf typed_expr "typed_stmt list" "typed_stmt list"
  | SWhile typed_expr "typed_stmt list"
  | SBreak
  | SContinue
  | SIndexAssign string ty typed_expr "(string \<times> nat) list" typed_expr bool
  | SFieldAssign typed_expr string nat bool typed_expr
  | SFor string ty typed_expr typed_expr "typed_stmt list" bool "typed_reduction list"
  | SForIter string ty string ty bool "typed_stmt list"
  | STaskSpawn string "typed_stmt list" "(string \<times> ty) list"
  | STaskJoin string

section \<open>Functions and programs\<close>

record typed_param =
  tp_name :: string
  tp_ty :: ty
  tp_name_span :: span

record typed_function =
  tf_name :: string
  tf_params :: "typed_param list"
  tf_return_type :: ty
  tf_requires :: "typed_expr list"
  tf_body :: "typed_stmt list"
  tf_is_pure :: bool
  tf_is_extern :: bool
  tf_recursion_bound :: "nat option"
  tf_span :: span

record typed_struct_decl =
  ts_name :: string
  ts_fields :: "(string \<times> ty) list"

record typed_enum_decl =
  te_name :: string
  te_variants :: "string list"
  te_payload_types :: "ty option list"

record typed_program =
  tpg_intents :: "string list"
  tpg_functions :: "typed_function list"
  tpg_structs :: "typed_struct_decl list"
  tpg_enums :: "typed_enum_decl list"

section \<open>Freshness of heap-owning values\<close>

text \<open>
  Whether an expression yields a heap value no binding owns. The use site of such a value
  frees it; freeing a value some binding owns would free it twice.
\<close>

lemma size_arm_body_less: "a \<in> set arms \<Longrightarrow> size (arm_body a) < size_list size arms"
proof (induction arms)
  case Nil
  then show ?case by simp
next
  case (Cons b arms)
  have "size (arm_body b) < size b" by (cases b) simp
  with Cons show ?case by auto
qed

lemma size_arm_body_termination [termination_simp]:
  "a \<in> set arms \<Longrightarrow> size (arm_body a) < Suc (Suc (size_list size arms + n))"
  using size_arm_body_less[of a arms] by simp

fun is_fresh_non_copy_expr :: "typed_expr \<Rightarrow> bool" where
  "is_fresh_non_copy_expr (TExpr (ECall _ _ _) _ _ _ _) = True"
| "is_fresh_non_copy_expr (TExpr (EBinary _ _ _ _) _ _ _ _) = True"
| "is_fresh_non_copy_expr (TExpr (EIfExpr _ t e) _ _ _ _) =
     (is_fresh_non_copy_expr t \<and> is_fresh_non_copy_expr e)"
| "is_fresh_non_copy_expr (TExpr (EMatch _ arms) _ _ _ _) =
     list_all (\<lambda>a. is_fresh_non_copy_expr (arm_body a)) arms"
| "is_fresh_non_copy_expr (TExpr (EBlock _ tail) _ _ _ _) = is_fresh_non_copy_expr tail"
| "is_fresh_non_copy_expr _ = False"

definition is_fresh_owned_str :: "typed_expr \<Rightarrow> bool" where
  "is_fresh_owned_str e = (if e_ty e \<noteq> TOwnedStr then False else is_fresh_non_copy_expr e)"

definition is_fresh_non_copy :: "typed_expr \<Rightarrow> bool" where
  "is_fresh_non_copy e =
     (if e_ty e \<noteq> TOwnedStr \<and> \<not> is_vec (e_ty e) then False else is_fresh_non_copy_expr e)"

definition owned_str_consumed_at_concat :: "typed_expr \<Rightarrow> bool" where
  "owned_str_consumed_at_concat e =
     (if e_ty e \<noteq> TOwnedStr then False
      else (case e_kind e of EVar _ \<Rightarrow> True | _ \<Rightarrow> False) \<or> is_fresh_non_copy_expr e)"

text \<open>
  The bindings an expression may alias: the places its value can come from without being
  built anew. A fresh expression aliases none, which is what freeing it at its use relies on.
\<close>

fun aliased_bindings :: "typed_expr \<Rightarrow> string set" where
  "aliased_bindings (TExpr (EVar x) _ _ _ _) = {x}"
| "aliased_bindings (TExpr (ERef x) _ _ _ _) = {x}"
| "aliased_bindings (TExpr (ERefMut x) _ _ _ _) = {x}"
| "aliased_bindings (TExpr (ERefField x _ _ _) _ _ _ _) = {x}"
| "aliased_bindings (TExpr (ERefMutField x _ _ _) _ _ _ _) = {x}"
| "aliased_bindings (TExpr (EFieldAccess e _ _) _ _ _ _) = aliased_bindings e"
| "aliased_bindings (TExpr (ETupleAccess e _) _ _ _ _) = aliased_bindings e"
| "aliased_bindings (TExpr (EIfExpr _ t e) _ _ _ _) = aliased_bindings t \<union> aliased_bindings e"
| "aliased_bindings (TExpr (EMatch _ arms) _ _ _ _) = (\<Union>a \<in> set arms. aliased_bindings (arm_body a))"
| "aliased_bindings (TExpr (EBlock _ tail) _ _ _ _) = aliased_bindings tail"
| "aliased_bindings _ = {}"

text \<open>
  A value the lowerer frees right after reading it (\<open>is_fresh_owned_str\<close>,
  \<open>is_fresh_non_copy\<close>) aliases no binding, so the free cannot meet the drop a binding
  performs at the end of its scope: on every branch of an if, match or block expression
  the value is built anew.
\<close>

theorem fresh_aliases_nothing:
  "is_fresh_owned_str e \<or> is_fresh_non_copy e \<Longrightarrow> aliased_bindings e = {}"
proof -
  have "is_fresh_non_copy_expr e \<Longrightarrow> aliased_bindings e = {}"
    by (induction e rule: is_fresh_non_copy_expr.induct) (auto simp: list_all_iff)
  then show "is_fresh_owned_str e \<or> is_fresh_non_copy e \<Longrightarrow> aliased_bindings e = {}"
    by (auto simp: is_fresh_owned_str_def is_fresh_non_copy_def split: if_splits)
qed

lemma fresh_aliases_nothing_witness:
  "aliased_bindings (TExpr (EIfExpr (TExpr (EBool True) TBool None span_default None)
     (TExpr (ECall ''f'' span_default []) TOwnedStr None span_default None)
     (TExpr (ECall ''g'' span_default []) TOwnedStr None span_default None)) TOwnedStr None span_default None) = {}"
  by (rule fresh_aliases_nothing) (simp add: is_fresh_owned_str_def)

end
