(* ===== verification/Ssa.thy ===== *)
theory Ssa
  imports Ir
begin

text \<open>
  The SSA form of \<open>src/ssa.rs\<close>: values, blocks with parameters, instructions and
  terminators, and the operations of \<open>FunctionBuilder\<close>, each with the panics of its vector
  indexing. The last section is what the rest of the development promises about a function:
  \<open>wf_func\<close>, blocks numbered by position, every edge passing as many arguments as its
  target has parameters, every value defined exactly once, every operand defined.
\<close>

section \<open>Values, blocks and instructions\<close>

datatype value_id = ValueId (vid: nat)
datatype block_id = BlockId (bid: nat)

instantiation value_id :: linorder
begin

definition less_eq_value_id :: "value_id \<Rightarrow> value_id \<Rightarrow> bool" where
  "less_eq_value_id v w \<longleftrightarrow> vid v \<le> vid w"

definition less_value_id :: "value_id \<Rightarrow> value_id \<Rightarrow> bool" where
  "less_value_id v w \<longleftrightarrow> vid v < vid w"

instance
  by standard (auto simp: less_eq_value_id_def less_value_id_def intro: value_id.expand)

end

instantiation block_id :: linorder
begin

definition less_eq_block_id :: "block_id \<Rightarrow> block_id \<Rightarrow> bool" where
  "less_eq_block_id v w \<longleftrightarrow> bid v \<le> bid w"

definition less_block_id :: "block_id \<Rightarrow> block_id \<Rightarrow> bool" where
  "less_block_id v w \<longleftrightarrow> bid v < bid w"

instance
  by standard (auto simp: less_eq_block_id_def less_block_id_def intro: block_id.expand)

end

datatype const_val = CInt int | CBool bool | CFloat f64

datatype operand = OVal value_id | OConst const_val

record pf_shape =
  pf_counter_name :: string
  pf_counter_header_value :: value_id
  pf_counter_ty :: ty
  pf_start :: operand
  pf_end :: operand
  pf_header_block :: block_id
  pf_body_block :: block_id
  pf_step_block :: block_id
  pf_exit_block :: block_id

datatype hint_kind =
    ParallelForBegin "(string \<times> reduction_op \<times> ty) list" pf_shape
  | ParallelForEnd
  | TaskBegin string
  | TaskEnd string
  | TaskJoin string

datatype instr_kind =
    IConst const_val
  | IUnary unary_op operand
  | IBinary binary_op operand operand
  | ICall string "operand list"
  | IFnRef string
  | ICallIndirect operand "operand list"
  | ICast operand ty
  | IStrLit string
  | IArrayLit "operand list"
  | IIndex operand operand bool
  | ILen operand nat
  | IRefOf operand bool
  | IIndexAssign operand ty operand operand bool
  | IDrop operand string ty
  | IHint hint_kind

record instruction =
  i_result :: value_id
  i_kind :: instr_kind
  i_ty :: ty
  i_span :: span

datatype terminator =
    Return "operand option"
  | Jump block_id "operand list"
  | Branch operand block_id "operand list" block_id "operand list"
  | Unreachable

record basic_block =
  bb_id :: block_id
  bb_params :: "(value_id \<times> ty) list"
  bb_instrs :: "instruction list"
  bb_term :: terminator

record func =
  fn_name :: string
  fn_params :: "(string \<times> ty \<times> value_id) list"
  fn_return_type :: ty
  fn_entry :: block_id
  fn_blocks :: "basic_block list"
  fn_is_extern :: bool
  fn_recursion_bound :: "nat option"

record ssa_module =
  m_functions :: "func list"

record lower_error =
  le_message :: string
  le_span :: span

type_synonym 'a lres = "(lower_error, 'a) res"

abbreviation lower_fail :: "string \<Rightarrow> span \<Rightarrow> 'a lres" where
  "lower_fail msg sp \<equiv> Inl (Fail \<lparr>le_message = msg, le_span = sp\<rparr>)"

section \<open>The function builder\<close>

record loop_frame =
  lf_header :: block_id
  lf_exit :: block_id
  lf_carry :: "(string \<times> value_id \<times> ty) list"

record builder =
  b_name :: string
  b_return_type :: ty
  b_params :: "(string \<times> ty \<times> value_id) list"
  b_entry :: block_id
  b_blocks :: "basic_block list"
  b_terminators :: "terminator option list"
  b_value_types :: "ty list"
  b_current :: block_id
  b_next_value :: nat
  b_loops :: "loop_frame list"

definition builder_new :: "string \<Rightarrow> ty \<Rightarrow> builder" where
  "builder_new name return_type =
     \<lparr>b_name = name, b_return_type = return_type, b_params = [], b_entry = BlockId 0,
      b_blocks = [], b_terminators = [], b_value_types = [], b_current = BlockId 0,
      b_next_value = 0, b_loops = []\<rparr>"

definition fresh_value :: "builder \<Rightarrow> value_id \<times> builder" where
  "fresh_value b =
     (ValueId (b_next_value b),
      b\<lparr>b_next_value := b_next_value b + 1, b_value_types := b_value_types b @ [TI64]\<rparr>)"

definition value_type :: "builder \<Rightarrow> value_id \<Rightarrow> ty lres" where
  "value_type b v = nthE (b_value_types b) (vid v)"

definition new_block :: "builder \<Rightarrow> block_id \<times> builder" where
  "new_block b =
     (let blk = BlockId (length (b_blocks b))
      in (blk, b\<lparr>b_blocks := b_blocks b @
                  [\<lparr>bb_id = blk, bb_params = [], bb_instrs = [], bb_term = Unreachable\<rparr>],
                b_terminators := b_terminators b @ [None]\<rparr>))"

definition set_current :: "block_id \<Rightarrow> builder \<Rightarrow> builder" where
  "set_current blk b = b\<lparr>b_current := blk\<rparr>"

definition current_block :: "builder \<Rightarrow> block_id" where
  "current_block b = b_current b"

definition current_block_terminator :: "builder \<Rightarrow> terminator option lres" where
  "current_block_terminator b = nthE (b_terminators b) (bid (b_current b))"

definition add_block_param :: "block_id \<Rightarrow> value_id \<Rightarrow> ty \<Rightarrow> builder \<Rightarrow> builder lres" where
  "add_block_param blk v ty b =
     bindE (updE (b_value_types b) (vid v) ty) (\<lambda>vts.
     bindE (nthE (b_blocks b) (bid blk)) (\<lambda>bb.
     Inr (b\<lparr>b_value_types := vts,
            b_blocks := (b_blocks b)[bid blk := bb\<lparr>bb_params := bb_params bb @ [(v, ty)]\<rparr>]\<rparr>)))"

definition emit :: "ty \<Rightarrow> span \<Rightarrow> instr_kind \<Rightarrow> builder \<Rightarrow> (value_id \<times> builder) lres" where
  "emit ty sp kind b =
     (let (v, b) = fresh_value b in
      bindE (updE (b_value_types b) (vid v) ty) (\<lambda>vts.
      bindE (nthE (b_blocks b) (bid (b_current b))) (\<lambda>bb.
      let instr = \<lparr>i_result = v, i_kind = kind, i_ty = ty, i_span = sp\<rparr> in
      Inr (v, b\<lparr>b_value_types := vts,
                b_blocks := (b_blocks b)[bid (b_current b) := bb\<lparr>bb_instrs := bb_instrs bb @ [instr]\<rparr>]\<rparr>))))"

definition terminate :: "terminator \<Rightarrow> builder \<Rightarrow> builder lres" where
  "terminate term b =
     (let idx = bid (b_current b) in
      bindE (nthE (b_terminators b) idx) (\<lambda>t.
      case t of
        Some _ \<Rightarrow> Inr b
      | None \<Rightarrow> Inr (b\<lparr>b_terminators := (b_terminators b)[idx := Some term]\<rparr>)))"

definition push_loop :: "loop_frame \<Rightarrow> builder \<Rightarrow> builder" where
  "push_loop fr b = b\<lparr>b_loops := b_loops b @ [fr]\<rparr>"

definition pop_loop :: "builder \<Rightarrow> builder" where
  "pop_loop b = b\<lparr>b_loops := butlast (b_loops b)\<rparr>"

fun build_blocks :: "basic_block list \<Rightarrow> terminator option list \<Rightarrow> basic_block list lres" where
  "build_blocks bbs [] = Inr bbs"
| "build_blocks [] (t # ts) = Inl Panic"
| "build_blocks (bb # bbs) (t # ts) =
     bindE (build_blocks bbs ts) (\<lambda>rest.
       Inr (bb\<lparr>bb_term := (case t of Some tm \<Rightarrow> tm | None \<Rightarrow> Unreachable)\<rparr> # rest))"

definition build :: "builder \<Rightarrow> func lres" where
  "build b =
     bindE (build_blocks (b_blocks b) (b_terminators b)) (\<lambda>bbs.
     Inr \<lparr>fn_name = b_name b, fn_params = b_params b, fn_return_type = b_return_type b,
          fn_entry = b_entry b, fn_blocks = bbs, fn_is_extern = False,
          fn_recursion_bound = None\<rparr>)"

section \<open>Operands, edges and definitions\<close>

text \<open>The operands of an instruction, as the back end walks them (\<open>instr_operands\<close>).\<close>

fun instr_operands :: "instr_kind \<Rightarrow> operand list" where
  "instr_operands (IConst _) = []"
| "instr_operands (IUnary _ x) = [x]"
| "instr_operands (IBinary _ l r) = [l, r]"
| "instr_operands (ICast x _) = [x]"
| "instr_operands (ICall _ args) = args"
| "instr_operands (IArrayLit elements) = elements"
| "instr_operands (IIndex array index _) = [array, index]"
| "instr_operands (IIndexAssign array _ index val _) = [array, index, val]"
| "instr_operands (ILen array _) = [array]"
| "instr_operands (IDrop source _ _) = [source]"
| "instr_operands (IRefOf source _) = [source]"
| "instr_operands (IStrLit _) = []"
| "instr_operands (IFnRef _) = []"
| "instr_operands (ICallIndirect callee args) = callee # args"
| "instr_operands (IHint _) = []"

fun term_operands :: "terminator \<Rightarrow> operand list" where
  "term_operands (Return (Some x)) = [x]"
| "term_operands (Return None) = []"
| "term_operands (Jump _ args) = args"
| "term_operands (Branch c _ targs _ eargs) = c # targs @ eargs"
| "term_operands Unreachable = []"

text \<open>The edges out of a terminator, with the arguments each passes.\<close>

fun term_edges :: "terminator \<Rightarrow> (block_id \<times> operand list) list" where
  "term_edges (Return _) = []"
| "term_edges (Jump t args) = [(t, args)]"
| "term_edges (Branch _ t targs e eargs) = [(t, targs), (e, eargs)]"
| "term_edges Unreachable = []"

text \<open>\<open>compute_predecessors\<close>: for each target, the blocks that reach it with their arguments.\<close>

fun push_at :: "block_id \<Rightarrow> 'a \<Rightarrow> (block_id, 'a list) btmap \<Rightarrow> (block_id, 'a list) btmap" where
  "push_at k x m = bt_insert k ((case bt_get m k of None \<Rightarrow> [] | Some xs \<Rightarrow> xs) @ [x]) m"

definition compute_predecessors :: "func \<Rightarrow> (block_id, (block_id \<times> operand list) list) btmap" where
  "compute_predecessors f =
     foldl (\<lambda>m bb. foldl (\<lambda>m (t, args). push_at t (bb_id bb, args) m) m (term_edges (bb_term bb)))
       [] (fn_blocks f)"

definition operand_values :: "operand list \<Rightarrow> value_id list" where
  "operand_values ops = concat (map (\<lambda>x. case x of OVal v \<Rightarrow> [v] | OConst _ \<Rightarrow> []) ops)"

lemma operand_values_simps [simp]:
  "operand_values [] = []"
  "operand_values (OVal v # xs) = v # operand_values xs"
  "operand_values (OConst c # xs) = operand_values xs"
  "operand_values (xs @ ys) = operand_values xs @ operand_values ys"
  by (simp_all add: operand_values_def)

lemma set_operand_values: "set (operand_values ops) = {v. OVal v \<in> set ops}"
proof (induction ops)
  case Nil
  then show ?case by simp
next
  case (Cons x ops)
  then show ?case by (cases x) auto
qed

definition block_defs :: "basic_block \<Rightarrow> value_id list" where
  "block_defs bb = map fst (bb_params bb) @ map i_result (bb_instrs bb)"

definition blocks_defs :: "basic_block list \<Rightarrow> value_id list" where
  "blocks_defs bbs = concat (map block_defs bbs)"

definition instr_uses :: "instruction \<Rightarrow> value_id list" where
  "instr_uses i = operand_values (instr_operands (i_kind i))"

definition term_uses :: "terminator \<Rightarrow> value_id list" where
  "term_uses t = operand_values (term_operands t)"

text \<open>
  What a finished function promises to the passes and back ends. \<open>param_count\<close> is the
  number of parameters of a block, by position.
\<close>

definition param_count :: "basic_block list \<Rightarrow> nat \<Rightarrow> nat" where
  "param_count bbs i = length (bb_params (bbs ! i))"

definition edge_ok :: "basic_block list \<Rightarrow> block_id \<times> operand list \<Rightarrow> bool" where
  "edge_ok bbs e \<longleftrightarrow>
     bid (fst e) < length bbs \<and> length (snd e) = param_count bbs (bid (fst e))"

definition wf_func :: "func \<Rightarrow> bool" where
  "wf_func f \<longleftrightarrow>
     map bb_id (fn_blocks f) = map BlockId [0..<length (fn_blocks f)] \<and>
     bid (fn_entry f) < length (fn_blocks f) \<and>
     list_all (\<lambda>bb. list_all (edge_ok (fn_blocks f)) (term_edges (bb_term bb))) (fn_blocks f) \<and>
     distinct (blocks_defs (fn_blocks f)) \<and>
     list_all (\<lambda>bb. list_all (\<lambda>i. set (instr_uses i) \<subseteq> set (blocks_defs (fn_blocks f))) (bb_instrs bb) \<and>
                    set (term_uses (bb_term bb)) \<subseteq> set (blocks_defs (fn_blocks f))) (fn_blocks f)"

end
