(* ===== verification/SsaSem.thy ===== *)
theory SsaSem
  imports Ssa
begin

text \<open>
  A reference semantics of SSA modules, the yardstick of the passes. A function runs block
  by block over an environment of its values; integers are mathematical, wrapped to the
  instruction's type as the back ends' two's complement instructions do
  (\<open>emit_binary\<close>, \<open>emit_cast\<close> of \<open>src/ssa_backend_llvm.rs\<close>); a division by zero or a
  shift beyond the width traps. What the emitted C and LLVM run-time library does (strings,
  arrays, drops, floating point, foreign functions) is the record \<open>runtime\<close>, a parameter.
  \<open>Stuck\<close> is an undefined value or block, which well-formed programs do not reach.
\<close>

datatype val = VInt int | VBool bool | VFloat f64 | VFn string | VObj nat

datatype 'a outcome = Done 'a | Trap | Stuck | OutOfFuel

type_synonym env = "value_id \<Rightarrow> val option"

text \<open>The run-time library: \<open>'w\<close> is the state it works on.\<close>

record 'w runtime =
  rt_prim :: "instr_kind \<Rightarrow> ty \<Rightarrow> val list \<Rightarrow> 'w \<Rightarrow> (val \<times> 'w) outcome"
  rt_call :: "string \<Rightarrow> val list \<Rightarrow> 'w \<Rightarrow> (val \<times> 'w) outcome"

definition bindO :: "'a outcome \<Rightarrow> ('a \<Rightarrow> 'b outcome) \<Rightarrow> 'b outcome" where
  "bindO m f = (case m of Done x \<Rightarrow> f x | Trap \<Rightarrow> Trap | Stuck \<Rightarrow> Stuck | OutOfFuel \<Rightarrow> OutOfFuel)"

lemma bindO_simps [simp]:
  "bindO (Done x) f = f x" "bindO Trap f = Trap" "bindO Stuck f = Stuck" "bindO OutOfFuel f = OutOfFuel"
  by (simp_all add: bindO_def)

lemma bindO_cong [fundef_cong]:
  "m = m' \<Longrightarrow> (\<And>x. m' = Done x \<Longrightarrow> f x = g x) \<Longrightarrow> bindO m f = bindO m' g"
  by (cases m') simp_all

section \<open>Instructions\<close>

fun const_value :: "const_val \<Rightarrow> val" where
  "const_value (CInt v) = VInt v"
| "const_value (CBool b) = VBool b"
| "const_value (CFloat f) = VFloat f"

fun eval_op :: "env \<Rightarrow> operand \<Rightarrow> val option" where
  "eval_op env (OVal v) = env v"
| "eval_op env (OConst c) = Some (const_value c)"

fun eval_ops :: "env \<Rightarrow> operand list \<Rightarrow> val list option" where
  "eval_ops env [] = Some []"
| "eval_ops env (x # xs) =
     (case eval_op env x of None \<Rightarrow> None
      | Some v \<Rightarrow> (case eval_ops env xs of None \<Rightarrow> None | Some vs \<Rightarrow> Some (v # vs)))"

text \<open>An instruction without its operands: what the run-time library is given of it.\<close>

abbreviation no_op :: operand where
  "no_op \<equiv> OConst (CInt 0)"

fun skel :: "instr_kind \<Rightarrow> instr_kind" where
  "skel (IUnary op _) = IUnary op no_op"
| "skel (IBinary op _ _) = IBinary op no_op no_op"
| "skel (ICall n xs) = ICall n (map (\<lambda>_. no_op) xs)"
| "skel (ICallIndirect _ xs) = ICallIndirect no_op (map (\<lambda>_. no_op) xs)"
| "skel (ICast _ t) = ICast no_op t"
| "skel (IArrayLit xs) = IArrayLit (map (\<lambda>_. no_op) xs)"
| "skel (IIndex _ _ c) = IIndex no_op no_op c"
| "skel (ILen _ n) = ILen no_op n"
| "skel (IRefOf _ m) = IRefOf no_op m"
| "skel (IIndexAssign _ t _ _ c) = IIndexAssign no_op t no_op no_op c"
| "skel (IDrop _ n t) = IDrop no_op n t"
| "skel k = k"

definition shift_ok :: "ty \<Rightarrow> int \<Rightarrow> bool" where
  "shift_ok t s \<longleftrightarrow> 0 \<le> s \<and> (case bits t of Some w \<Rightarrow> s < int w | None \<Rightarrow> False)"

fun int_binary :: "binary_op \<Rightarrow> ty \<Rightarrow> int \<Rightarrow> int \<Rightarrow> val outcome" where
  "int_binary Add t a b = Done (VInt (wrap_ty t (a + b)))"
| "int_binary Sub t a b = Done (VInt (wrap_ty t (a - b)))"
| "int_binary Mul t a b = Done (VInt (wrap_ty t (a * b)))"
| "int_binary Div t a b =
     (if b = 0 \<or> \<not> fits t (trunc_div a b) then Trap else Done (VInt (trunc_div a b)))"
| "int_binary Rem t a b =
     (if b = 0 \<or> \<not> fits t (trunc_div a b) then Trap else Done (VInt (wrap_ty t (trunc_rem a b))))"
| "int_binary Shl t a b = (if shift_ok t b then Done (VInt (wrap_ty t (a * 2 ^ nat b))) else Trap)"
| "int_binary Shr t a b = (if shift_ok t b then Done (VInt (wrap_ty t (a div 2 ^ nat b))) else Trap)"
| "int_binary BitAnd t a b = Done (VInt (wrap_ty t (a AND b)))"
| "int_binary BitOr t a b = Done (VInt (wrap_ty t (a OR b)))"
| "int_binary BitXor t a b = Done (VInt (wrap_ty t (a XOR b)))"
| "int_binary Eq t a b = Done (VBool (a = b))"
| "int_binary Ne t a b = Done (VBool (a \<noteq> b))"
| "int_binary Lt t a b = Done (VBool (a < b))"
| "int_binary Le t a b = Done (VBool (a \<le> b))"
| "int_binary Gt t a b = Done (VBool (a > b))"
| "int_binary Ge t a b = Done (VBool (a \<ge> b))"
| "int_binary And t a b = Stuck"
| "int_binary Or t a b = Stuck"

fun bool_binary :: "binary_op \<Rightarrow> bool \<Rightarrow> bool \<Rightarrow> val outcome" where
  "bool_binary And a b = Done (VBool (a \<and> b))"
| "bool_binary Or a b = Done (VBool (a \<or> b))"
| "bool_binary Eq a b = Done (VBool (a = b))"
| "bool_binary Ne a b = Done (VBool (a \<noteq> b))"
| "bool_binary _ a b = Stuck"

definition f64_neg :: "f64 \<Rightarrow> f64" where
  "f64_neg f = f XOR push_bit 63 1"

text \<open>The instructions the machine does itself; \<open>None\<close>: it is up to the library.\<close>

definition exec_unary :: "unary_op \<Rightarrow> ty \<Rightarrow> val list \<Rightarrow> val outcome option" where
  "exec_unary op t vs = (case vs of
     [VInt v] \<Rightarrow> if op = UNeg then Some (Done (VInt (wrap_ty t (- v)))) else None
   | [VFloat f] \<Rightarrow> if op = UNeg then Some (Done (VFloat (f64_neg f))) else None
   | [VBool b] \<Rightarrow> if op = UNot then Some (Done (VBool (\<not> b))) else None
   | _ \<Rightarrow> None)"

definition exec_binary :: "binary_op \<Rightarrow> ty \<Rightarrow> val list \<Rightarrow> val outcome option" where
  "exec_binary op t vs = (case vs of
     [VInt a, VInt b] \<Rightarrow> Some (int_binary op t a b)
   | [VBool a, VBool b] \<Rightarrow> Some (bool_binary op a b)
   | _ \<Rightarrow> None)"

definition exec_cast :: "ty \<Rightarrow> val list \<Rightarrow> val outcome option" where
  "exec_cast to vs = (case vs of
     [VInt v] \<Rightarrow> if is_integer to then Some (Done (VInt (wrap_ty to v))) else None
   | _ \<Rightarrow> None)"

definition exec_scalar :: "instr_kind \<Rightarrow> ty \<Rightarrow> val list \<Rightarrow> val outcome option" where
  "exec_scalar k t vs = (case k of
     IConst c \<Rightarrow> Some (Done (const_value c))
   | IUnary op _ \<Rightarrow> exec_unary op t vs
   | IBinary op _ _ \<Rightarrow> exec_binary op t vs
   | ICast _ to \<Rightarrow> exec_cast to vs
   | IFnRef n \<Rightarrow> Some (Done (VFn n))
   | IHint _ \<Rightarrow> Some (Done (VInt 0))
   | _ \<Rightarrow> None)"

type_synonym 'w callf = "string \<Rightarrow> val list \<Rightarrow> 'w \<Rightarrow> (val \<times> 'w) outcome"

definition exec_kind :: "'w runtime \<Rightarrow> 'w callf \<Rightarrow> instr_kind \<Rightarrow> ty \<Rightarrow> val list \<Rightarrow> 'w \<Rightarrow> (val \<times> 'w) outcome" where
  "exec_kind rt cf k t vs w =
     (case exec_scalar k t vs of
        Some r \<Rightarrow> bindO r (\<lambda>v. Done (v, w))
      | None \<Rightarrow>
          (case k of
             ICall name _ \<Rightarrow> cf name vs w
           | ICallIndirect _ _ \<Rightarrow> (case vs of VFn name # args \<Rightarrow> cf name args w | _ \<Rightarrow> Stuck)
           | _ \<Rightarrow> rt_prim rt (skel k) t vs w))"

definition exec_instr :: "'w runtime \<Rightarrow> 'w callf \<Rightarrow> instruction \<Rightarrow> env \<times> 'w \<Rightarrow> (env \<times> 'w) outcome" where
  "exec_instr rt cf i s =
     (case eval_ops (fst s) (instr_operands (i_kind i)) of
        None \<Rightarrow> Stuck
      | Some vs \<Rightarrow> bindO (exec_kind rt cf (i_kind i) (i_ty i) vs (snd s))
                     (\<lambda>(v, w). Done ((fst s)(i_result i \<mapsto> v), w)))"

fun exec_instrs :: "'w runtime \<Rightarrow> 'w callf \<Rightarrow> instruction list \<Rightarrow> env \<times> 'w \<Rightarrow> (env \<times> 'w) outcome" where
  "exec_instrs rt cf [] s = Done s"
| "exec_instrs rt cf (i # is) s = bindO (exec_instr rt cf i s) (exec_instrs rt cf is)"

section \<open>Blocks and functions\<close>

text \<open>Where a block leaves to: another block with arguments, or out of the function.\<close>

datatype xfer = Goto block_id "val list" | Ret "val option"

definition goto :: "env \<Rightarrow> block_id \<Rightarrow> operand list \<Rightarrow> xfer outcome" where
  "goto env t xs = (case eval_ops env xs of None \<Rightarrow> Stuck | Some vs \<Rightarrow> Done (Goto t vs))"

fun exec_term :: "env \<Rightarrow> terminator \<Rightarrow> xfer outcome" where
  "exec_term env (Return None) = Done (Ret None)"
| "exec_term env (Return (Some x)) = (case eval_op env x of None \<Rightarrow> Stuck | Some v \<Rightarrow> Done (Ret (Some v)))"
| "exec_term env (Jump t xs) = goto env t xs"
| "exec_term env (Branch c t xs e ys) =
     (case eval_op env c of
        Some (VBool True) \<Rightarrow> goto env t xs
      | Some (VBool False) \<Rightarrow> goto env e ys
      | _ \<Rightarrow> Stuck)"
| "exec_term env Unreachable = Trap"

definition get_block :: "func \<Rightarrow> block_id \<Rightarrow> basic_block option" where
  "get_block f b = (if bid b < length (fn_blocks f) then Some (fn_blocks f ! bid b) else None)"

definition bind_params :: "(value_id \<times> ty) list \<Rightarrow> val list \<Rightarrow> env \<Rightarrow> env" where
  "bind_params ps vs env = env ++ map_of (rev (zip (map fst ps) vs))"

definition exec_bb :: "'w runtime \<Rightarrow> 'w callf \<Rightarrow> basic_block \<Rightarrow> val list \<Rightarrow> env \<times> 'w \<Rightarrow> ((env \<times> 'w) \<times> xfer) outcome" where
  "exec_bb rt cf bb vs s =
     (if length vs \<noteq> length (bb_params bb) then Stuck
      else bindO (exec_instrs rt cf (bb_instrs bb) (bind_params (bb_params bb) vs (fst s), snd s)) (\<lambda>s.
           bindO (exec_term (fst s) (bb_term bb)) (\<lambda>x. Done (s, x))))"

definition exec_block :: "'w runtime \<Rightarrow> 'w callf \<Rightarrow> func \<Rightarrow> block_id \<Rightarrow> val list \<Rightarrow> env \<times> 'w \<Rightarrow> ((env \<times> 'w) \<times> xfer) outcome" where
  "exec_block rt cf f b vs s =
     (case get_block f b of None \<Rightarrow> Stuck | Some bb \<Rightarrow> exec_bb rt cf bb vs s)"

definition find_fn :: "ssa_module \<Rightarrow> string \<Rightarrow> func option" where
  "find_fn M name = find (\<lambda>f. fn_name f = name) (m_functions M)"

text \<open>
  A call runs the module's function of that name, a foreign or unknown one goes to the
  library. Fuel counts the blocks entered on a path through the calls.
\<close>

definition call_with :: "ssa_module \<Rightarrow> 'w runtime \<Rightarrow>
    (func \<Rightarrow> val list \<Rightarrow> 'w \<Rightarrow> (val option \<times> 'w) outcome) \<Rightarrow> 'w callf" where
  "call_with M rt runf name vs w =
     (case find_fn M name of
        Some f \<Rightarrow>
          if fn_is_extern f then rt_call rt name vs w
          else bindO (runf f vs w) (\<lambda>(r, w). Done (case r of Some v \<Rightarrow> v | None \<Rightarrow> VInt 0, w))
      | None \<Rightarrow> rt_call rt name vs w)"

primrec run :: "ssa_module \<Rightarrow> 'w runtime \<Rightarrow> nat \<Rightarrow> func \<Rightarrow> block_id \<Rightarrow> val list \<Rightarrow> env \<Rightarrow> 'w \<Rightarrow>
    (val option \<times> 'w) outcome" where
  "run M rt 0 = (\<lambda>f b vs env w. OutOfFuel)"
| "run M rt (Suc n) = (\<lambda>f b vs env w.
     bindO (exec_block rt (call_with M rt (\<lambda>g vs w. run M rt n g (fn_entry g) vs Map.empty w)) f b vs (env, w))
       (\<lambda>((env, w), x). case x of
          Ret r \<Rightarrow> Done (r, w)
        | Goto b vs \<Rightarrow> run M rt n f b vs env w))"

definition run_fn :: "ssa_module \<Rightarrow> 'w runtime \<Rightarrow> nat \<Rightarrow> func \<Rightarrow> val list \<Rightarrow> 'w \<Rightarrow> (val option \<times> 'w) outcome" where
  "run_fn M rt n f vs w = run M rt n f (fn_entry f) vs Map.empty w"

section \<open>Refinement of outcomes\<close>

text \<open>
  \<open>o \<sqsubseteq> o'\<close> up to a relation on results: a stuck run may become anything, every other
  outcome is kept, traps included.
\<close>

definition out_rel :: "('a \<Rightarrow> 'b \<Rightarrow> bool) \<Rightarrow> 'a outcome \<Rightarrow> 'b outcome \<Rightarrow> bool" where
  "out_rel R o1 o2 = (case o1 of
     Stuck \<Rightarrow> True
   | Trap \<Rightarrow> o2 = Trap
   | OutOfFuel \<Rightarrow> o2 = OutOfFuel
   | Done x \<Rightarrow> (case o2 of Done y \<Rightarrow> R x y | _ \<Rightarrow> False))"

abbreviation refines :: "'a outcome \<Rightarrow> 'a outcome \<Rightarrow> bool" where
  "refines \<equiv> out_rel (=)"

lemma out_rel_simps [simp]:
  "out_rel R Stuck o2"
  "out_rel R Trap o2 = (o2 = Trap)"
  "out_rel R OutOfFuel o2 = (o2 = OutOfFuel)"
  "out_rel R (Done x) o2 = (\<exists>y. o2 = Done y \<and> R x y)"
  by (auto simp: out_rel_def split: outcome.splits)

lemma out_rel_bind:
  "out_rel R m m' \<Longrightarrow> (\<And>x y. m = Done x \<Longrightarrow> R x y \<Longrightarrow> out_rel S (f x) (g y)) \<Longrightarrow> out_rel S (bindO m f) (bindO m' g)"
  by (cases m) auto

lemma refines_refl [simp]: "refines x x"
  by (cases x) auto

lemma out_rel_refines: "out_rel R x y \<Longrightarrow> refines y z \<Longrightarrow> (\<forall>a. y \<noteq> Stuck \<or> x = Stuck) \<Longrightarrow> out_rel R x z"
  by (cases x; cases y) auto

lemma refines_trans: "refines x y \<Longrightarrow> refines y z \<Longrightarrow> refines x z"
  by (cases x; cases y) auto

lemma refinesD: "refines x y \<Longrightarrow> x \<noteq> Stuck \<Longrightarrow> y = x"
  by (cases x) auto

lemma refines_iff: "refines x y \<longleftrightarrow> x = Stuck \<or> y = x"
  by (cases x) auto

text \<open>Running with better callees is better.\<close>

lemma exec_kind_mono:
  assumes "\<And>name vs w. refines (cf name vs w) (cf' name vs w)"
  shows "refines (exec_kind rt cf k t vs w) (exec_kind rt cf' k t vs w)"
  using assms unfolding exec_kind_def
  by (auto split: option.split instr_kind.split list.split val.split)

lemma exec_instr_mono:
  assumes "\<And>name vs w. refines (cf name vs w) (cf' name vs w)"
  shows "refines (exec_instr rt cf i s) (exec_instr rt cf' i s)"
  unfolding exec_instr_def
  by (auto split: option.split intro!: out_rel_bind[OF exec_kind_mono[OF assms]])

lemma exec_instrs_mono:
  assumes "\<And>name vs w. refines (cf name vs w) (cf' name vs w)"
  shows "refines (exec_instrs rt cf is s) (exec_instrs rt cf' is s)"
proof (induction "is" arbitrary: s)
  case Nil
  then show ?case by simp
next
  case (Cons i "is")
  show ?case
    unfolding exec_instrs.simps
    by (rule out_rel_bind[OF exec_instr_mono[OF assms]]) (use Cons in simp)
qed

lemma exec_block_mono:
  assumes "\<And>name vs w. refines (cf name vs w) (cf' name vs w)"
  shows "refines (exec_block rt cf f b vs s) (exec_block rt cf' f b vs s)"
  unfolding exec_block_def exec_bb_def
  by (auto split: option.split intro!: out_rel_bind[OF exec_instrs_mono[OF assms]])

text \<open>The kind counts only up to its operands.\<close>

lemma exec_scalar_skel: "exec_scalar (skel k) t vs = exec_scalar k t vs"
  by (cases k) (simp_all add: exec_scalar_def)

lemma skel_idem [simp]: "skel (skel k) = skel k"
  by (cases k) (auto simp: comp_def)

lemma exec_kind_skel: "skel k = skel k' \<Longrightarrow> exec_kind rt cf k t vs w = exec_kind rt cf k' t vs w"
proof -
  have "exec_kind rt cf k t vs w = exec_kind rt cf (skel k) t vs w" for k
    unfolding exec_kind_def exec_scalar_skel by (cases k) (auto split: option.split simp: comp_def)
  then show "skel k = skel k' \<Longrightarrow> exec_kind rt cf k t vs w = exec_kind rt cf k' t vs w" by metis
qed

text \<open>Wrapping to a type looks at the low bits only.\<close>

lemma wrap_ty_shift:
  assumes "bits t = Some w"
  shows "wrap_ty t (v + 2 ^ w * m) = wrap_ty t v"
proof -
  obtain lo where lo: "min_value t = Some lo" using assms by (cases t) auto
  have "(v + 2 ^ w * m - lo) mod 2 ^ w = ((v - lo) + 2 ^ w * m) mod 2 ^ w"
    by (simp add: algebra_simps)
  also have "\<dots> = (v - lo) mod 2 ^ w" by (rule mod_mult_self2)
  finally show ?thesis using assms lo by (simp add: wrap_ty_def)
qed

lemma i128_wrap_add: "i128_wrap v = v + 2 ^ 128 * (- ((v + 2 ^ 127) div 2 ^ 128))"
  unfolding i128_wrap_def by (simp add: minus_div_mult_eq_mod[symmetric])

lemma wrap_ty_i128_wrap:
  assumes "bits t = Some w" and "w \<le> 128"
  shows "wrap_ty t (i128_wrap v) = wrap_ty t v"
proof -
  have "(2 :: int) ^ 128 = 2 ^ w * 2 ^ (128 - w)" using assms(2) by (simp flip: power_add)
  then have "i128_wrap v = v + 2 ^ w * (2 ^ (128 - w) * - ((v + 2 ^ 127) div 2 ^ 128))"
    using i128_wrap_add[of v] by (simp only: mult.assoc)
  then show ?thesis by (simp only: wrap_ty_shift[OF assms(1)])
qed

end
