(* ===== verification/SsaPass.thy ===== *)
theory SsaPass
  imports SsaSem
begin

text \<open>
  The contract of a pass over SSA functions: the interface through which folding, branch
  threading, unreachable-block and dead-instruction removal are used. A pass that maps
  every block of a function to one that does the same, under a relation on where control
  is and on the environments, preserves the runs of a whole module, calls included. The
  theories of the passes interpret the locale on their own definitions.
\<close>

definition map_fns :: "(func \<Rightarrow> func) \<Rightarrow> ssa_module \<Rightarrow> ssa_module" where
  "map_fns pass M = M\<lparr>m_functions := map pass (m_functions M)\<rparr>"

type_synonym point = "block_id \<times> env"

definition xfer_rel :: "(point \<Rightarrow> point \<Rightarrow> bool) \<Rightarrow> (env \<times> 'w) \<times> xfer \<Rightarrow> (env \<times> 'w) \<times> xfer \<Rightarrow> bool" where
  "xfer_rel R r r' \<longleftrightarrow> snd (fst r') = snd (fst r) \<and>
     (case snd r of
        Ret v \<Rightarrow> snd r' = Ret v
      | Goto b vs \<Rightarrow> \<exists>b'. snd r' = Goto b' vs \<and> R (b, fst (fst r)) (b', fst (fst r')))"

section \<open>Simulation between functions\<close>

text \<open>
  \<open>sims ok R f f'\<close>: a block of \<open>f'\<close> started in a point related to one of \<open>f\<close> does the same
  and leaves to a related point, whatever the callees, for run-time libraries in \<open>ok\<close>.
\<close>

definition sims :: "('w runtime \<Rightarrow> bool) \<Rightarrow> (point \<Rightarrow> point \<Rightarrow> bool) \<Rightarrow> func \<Rightarrow> func \<Rightarrow> bool" where
  "sims ok R f f' \<longleftrightarrow> R (fn_entry f, Map.empty) (fn_entry f', Map.empty) \<and>
     (\<forall>rt cf b env b' env' vs w. ok rt \<longrightarrow> R (b, env) (b', env') \<longrightarrow>
        out_rel (xfer_rel R) (exec_block rt cf f b vs (env, w)) (exec_block rt cf f' b' vs (env', w)))"

definition simulates :: "('w runtime \<Rightarrow> bool) \<Rightarrow> func \<Rightarrow> func \<Rightarrow> bool" where
  "simulates ok f f' \<longleftrightarrow> (\<exists>R. sims ok R f f')"

lemma xfer_rel_refl: "xfer_rel (=) r r"
  by (cases r; cases "snd r") (auto simp: xfer_rel_def)

lemma simulates_refl [simp]: "simulates ok f f"
proof -
  have "out_rel (xfer_rel (=)) x x" for x :: "((env \<times> 'a) \<times> xfer) outcome"
    by (cases x) (auto simp: xfer_rel_refl)
  then have "sims ok (=) f f" by (simp add: sims_def)
  then show ?thesis unfolding simulates_def by blast
qed

lemma xfer_rel_comp: "xfer_rel R x y \<Longrightarrow> xfer_rel S y z \<Longrightarrow> xfer_rel (R OO S) x z"
  by (auto simp: xfer_rel_def split: xfer.splits)

lemma out_rel_xfer_comp:
  "out_rel (xfer_rel R) x y \<Longrightarrow> out_rel (xfer_rel S) y z \<Longrightarrow> out_rel (xfer_rel (R OO S)) x z"
proof (cases x)
  case (Done a)
  assume "out_rel (xfer_rel R) x y" and yz: "out_rel (xfer_rel S) y z"
  then obtain b where b: "y = Done b" "xfer_rel R a b" using Done by auto
  with yz obtain c where c: "z = Done c" "xfer_rel S b c" by auto
  show ?thesis using xfer_rel_comp[OF b(2) c(2)] Done c(1) by simp
qed auto

lemma simulates_trans:
  assumes "simulates ok f g" and "simulates ok g h"
  shows "simulates ok f h"
proof -
  from assms obtain R S where R: "sims ok R f g" and S: "sims ok S g h" by (auto simp: simulates_def)
  have "out_rel (xfer_rel (R OO S)) (exec_block rt cf f b vs (env, w)) (exec_block rt cf h b'' vs (env'', w))"
    if ok: "ok rt" and rs: "(R OO S) (b, env) (b'', env'')" for rt cf b env b'' env'' vs w
  proof -
    from rs obtain b' env' where "R (b, env) (b', env')" "S (b', env') (b'', env'')" by auto
    then show ?thesis using R S ok unfolding sims_def by (blast intro: out_rel_xfer_comp)
  qed
  moreover have "(R OO S) (fn_entry f, Map.empty) (fn_entry h, Map.empty)"
    using R S unfolding sims_def by blast
  ultimately have "sims ok (R OO S) f h" unfolding sims_def by blast
  then show ?thesis unfolding simulates_def by blast
qed

lemma xfer_rel_mono: "xfer_rel R x y \<Longrightarrow> (\<And>p q. R p q \<Longrightarrow> S p q) \<Longrightarrow> xfer_rel S x y"
  by (auto simp: xfer_rel_def split: xfer.splits)

lemma out_rel_mono: "out_rel R x y \<Longrightarrow> (\<And>p q. R p q \<Longrightarrow> S p q) \<Longrightarrow> out_rel S x y"
  by (cases x) auto

section \<open>The interface\<close>

locale ssa_pass =
  fixes pass :: "func \<Rightarrow> func" and pre :: "func \<Rightarrow> bool" and rtok :: "'w runtime \<Rightarrow> bool"
    and srel :: "func \<Rightarrow> point \<Rightarrow> point \<Rightarrow> bool"
  assumes name: "fn_name (pass f) = fn_name f"
    and ext: "fn_is_extern (pass f) = fn_is_extern f"
    and start: "pre f \<Longrightarrow> srel f (fn_entry f, Map.empty) (fn_entry (pass f), Map.empty)"
    and block: "pre f \<Longrightarrow> rtok rt \<Longrightarrow> srel f (b, env) (b', env') \<Longrightarrow>
      out_rel (xfer_rel (srel f)) (exec_block rt cf f b vs (env, w)) (exec_block rt cf (pass f) b' vs (env', w))"
begin

lemma find_map: "find_fn (map_fns pass M) n = map_option pass (find_fn M n)"
proof -
  have "find (\<lambda>f. fn_name f = n) (map pass fs) = map_option pass (find (\<lambda>f. fn_name f = n) fs)" for fs
    by (induction fs) (simp_all add: name)
  then show ?thesis by (simp add: find_fn_def map_fns_def)
qed

lemma find_pre: "find_fn M n = Some f \<Longrightarrow> \<forall>g\<in>set (m_functions M). pre g \<Longrightarrow> pre f"
  unfolding find_fn_def by (metis find_Some_iff nth_mem)

lemma call_with_refines:
  assumes pre: "\<forall>g\<in>set (m_functions M). pre g"
    and r: "\<And>g vs w. pre g \<Longrightarrow> refines (R g vs w) (R' (pass g) vs w)"
  shows "refines (call_with M rt R n vs w) (call_with (map_fns pass M) rt R' n vs w)"
proof (cases "find_fn M n")
  case None
  then show ?thesis by (simp add: call_with_def find_map)
next
  case (Some f)
  then have "pre f" using pre by (rule find_pre)
  then show ?thesis
    by (auto simp: call_with_def find_map Some ext intro!: out_rel_bind[OF r])
qed

lemma run_map:
  assumes pre: "\<forall>g\<in>set (m_functions M). pre g" and rt: "rtok rt"
  shows "pre f \<Longrightarrow> srel f (b, env) (b', env') \<Longrightarrow>
    refines (run M rt n f b vs env w) (run (map_fns pass M) rt n (pass f) b' vs env' w)"
proof (induction n arbitrary: f b vs env w b' env')
  case 0
  then show ?case by simp
next
  case (Suc n)
  let ?R = "\<lambda>g vs w. run M rt n g (fn_entry g) vs Map.empty w"
    and ?R' = "\<lambda>g vs w. run (map_fns pass M) rt n g (fn_entry g) vs Map.empty w"
  let ?cf = "call_with M rt ?R" and ?cf' = "call_with (map_fns pass M) rt ?R'"
  have cf: "refines (?cf n vs w) (?cf' n vs w)" for n vs w
    using Suc.IH start by (intro call_with_refines pre) blast
  have "out_rel (xfer_rel (srel f)) (exec_block rt ?cf f b vs (env, w)) (exec_block rt ?cf (pass f) b' vs (env', w))"
    using block[OF Suc.prems(1) rt Suc.prems(2)] .
  moreover have "refines (exec_block rt ?cf (pass f) b' vs (env', w)) (exec_block rt ?cf' (pass f) b' vs (env', w))"
    by (rule exec_block_mono[OF cf])
  ultimately have "out_rel (xfer_rel (srel f)) (exec_block rt ?cf f b vs (env, w)) (exec_block rt ?cf' (pass f) b' vs (env', w))"
    by (auto simp: out_rel_def split: outcome.splits)
  then show ?case
    unfolding run.simps
  proof (rule out_rel_bind, goal_cases)
    case (1 r r')
    then show ?case
      using Suc.IH[OF Suc.prems(1)]
      by (cases r; cases r'; cases "snd r") (auto simp: xfer_rel_def)
  qed
qed

lemma run_fn_map:
  assumes "\<forall>g\<in>set (m_functions M). pre g" and "rtok rt" and "pre f"
  shows "refines (run_fn M rt n f vs w) (run_fn (map_fns pass M) rt n (pass f) vs w)"
  unfolding run_fn_def using run_map[OF assms(1,2,3) start[OF assms(3)]] .

lemma simulated: "pre f \<Longrightarrow> simulates rtok f (pass f)"
  unfolding simulates_def sims_def by (intro exI[of _ "srel f"] conjI allI impI start block)

end

text \<open>A pass under which every function is simulated is one in the sense of the locale.\<close>

definition some_sim :: "('w runtime \<Rightarrow> bool) \<Rightarrow> (func \<Rightarrow> func) \<Rightarrow> func \<Rightarrow> point \<Rightarrow> point \<Rightarrow> bool" where
  "some_sim ok pass f p q \<longleftrightarrow> (\<exists>R. sims ok R f (pass f) \<and> R p q)"

lemma ssa_passI:
  assumes "\<And>f. fn_name (pass f) = fn_name f" and "\<And>f. fn_is_extern (pass f) = fn_is_extern f"
    and sim: "\<And>f. pre f \<Longrightarrow> simulates ok f (pass f)"
  shows "ssa_pass pass pre ok (some_sim ok pass)"
proof
  show "some_sim ok pass f (fn_entry f, Map.empty) (fn_entry (pass f), Map.empty)" if "pre f" for f
    using sim[OF that] unfolding simulates_def some_sim_def sims_def by blast
  show "out_rel (xfer_rel (some_sim ok pass f)) (exec_block rt cf f b vs (env, w)) (exec_block rt cf (pass f) b' vs (env', w))"
    if "pre f" "ok rt" and r: "some_sim ok pass f (b, env) (b', env')" for f rt cf b env b' env' vs w
  proof -
    from r obtain R where R: "sims ok R f (pass f)" "R (b, env) (b', env')" by (auto simp: some_sim_def)
    then have "out_rel (xfer_rel R) (exec_block rt cf f b vs (env, w)) (exec_block rt cf (pass f) b' vs (env', w))"
      using \<open>ok rt\<close> unfolding sims_def by blast
    then show ?thesis
      by (rule out_rel_mono) (use R(1) in \<open>auto elim!: xfer_rel_mono simp: some_sim_def\<close>)
  qed
qed (use assms(1,2) in auto)

section \<open>Passes that keep the shape of a function\<close>

text \<open>
  The block keeps its number, parameters and results, uses no more values, and takes no
  edge (target and number of arguments) it did not take.
\<close>

definition edge_shapes :: "terminator \<Rightarrow> (block_id \<times> nat) set" where
  "edge_shapes t = (\<lambda>(b, xs). (b, length xs)) ` set (term_edges t)"

definition shape_le :: "basic_block \<Rightarrow> basic_block \<Rightarrow> bool" where
  "shape_le bb bb' \<longleftrightarrow> bb_id bb' = bb_id bb \<and> bb_params bb' = bb_params bb \<and>
     map i_result (bb_instrs bb') = map i_result (bb_instrs bb) \<and>
     list_all2 (\<lambda>i i'. set (instr_uses i') \<subseteq> set (instr_uses i)) (bb_instrs bb) (bb_instrs bb') \<and>
     set (term_uses (bb_term bb')) \<subseteq> set (term_uses (bb_term bb)) \<and>
     edge_shapes (bb_term bb') \<subseteq> edge_shapes (bb_term bb)"

lemma edge_ok_shapes:
  "list_all (edge_ok bbs) (term_edges t) \<longleftrightarrow>
   (\<forall>(b, n)\<in>edge_shapes t. bid b < length bbs \<and> n = param_count bbs (bid b))"
  by (auto simp: edge_shapes_def edge_ok_def list_all_iff)

lemma uses_le:
  "list_all2 (\<lambda>i i'. set (instr_uses i') \<subseteq> set (instr_uses i)) xs ys \<Longrightarrow>
   list_all (\<lambda>i. set (instr_uses i) \<subseteq> D) xs \<Longrightarrow> list_all (\<lambda>i. set (instr_uses i) \<subseteq> D) ys"
  by (induction rule: list_all2_induct) auto

lemma shape_le_wf:
  assumes "list_all2 shape_le (fn_blocks f) (fn_blocks f')" and "fn_entry f' = fn_entry f" and wf: "wf_func f"
  shows "wf_func f'"
proof -
  let ?b = "fn_blocks f" and ?b' = "fn_blocks f'"
  have len: "length ?b' = length ?b" using assms(1) by (simp add: list_all2_lengthD)
  have s: "shape_le (?b ! j) (?b' ! j)" if "j < length ?b" for j
    using assms(1) that by (simp add: list_all2_conv_all_nth)
  have ids: "map bb_id ?b' = map bb_id ?b" and defs: "map block_defs ?b' = map block_defs ?b"
    using len s by (auto intro!: nth_equalityI simp: shape_le_def block_defs_def)
  have D: "blocks_defs ?b' = blocks_defs ?b" using defs by (simp add: blocks_defs_def)
  have pc: "param_count ?b' j = param_count ?b j" if "j < length ?b" for j
    using s[OF that] by (simp add: param_count_def shape_le_def)
  have "list_all (edge_ok ?b') (term_edges (bb_term bb')) \<and>
      list_all (\<lambda>i. set (instr_uses i) \<subseteq> set (blocks_defs ?b')) (bb_instrs bb') \<and>
      set (term_uses (bb_term bb')) \<subseteq> set (blocks_defs ?b')" if "bb' \<in> set ?b'" for bb'
  proof -
    from that obtain j where j: "j < length ?b" "bb' = ?b' ! j" using len by (metis in_set_conv_nth)
    let ?bb = "?b ! j"
    have bb: "?bb \<in> set ?b" using j by simp
    have w: "list_all (edge_ok ?b) (term_edges (bb_term ?bb))"
      "list_all (\<lambda>i. set (instr_uses i) \<subseteq> set (blocks_defs ?b)) (bb_instrs ?bb)"
      "set (term_uses (bb_term ?bb)) \<subseteq> set (blocks_defs ?b)"
      using wf bb by (auto simp: wf_func_def list_all_iff)
    note sj = s[OF j(1), folded j(2), unfolded shape_le_def]
    have "bid t < length ?b' \<and> k = param_count ?b' (bid t)" if "(t, k) \<in> edge_shapes (bb_term bb')" for t k
    proof -
      have "(t, k) \<in> edge_shapes (bb_term ?bb)" using that sj by blast
      then have "bid t < length ?b \<and> k = param_count ?b (bid t)" using w(1) unfolding edge_ok_shapes by blast
      then show ?thesis using len pc by simp
    qed
    then have "list_all (edge_ok ?b') (term_edges (bb_term bb'))" unfolding edge_ok_shapes by blast
    moreover have "list_all (\<lambda>i. set (instr_uses i) \<subseteq> set (blocks_defs ?b')) (bb_instrs bb')"
      using uses_le[OF _ w(2)] sj unfolding D by blast
    ultimately show ?thesis using w(3) sj D by auto
  qed
  then show ?thesis
    using wf assms(2) ids len D unfolding wf_func_def by (simp add: list_all_iff)
qed

end
