(* ===== verification/SsaDce.thy ===== *)
theory SsaDce
  imports SsaPass
begin

text \<open>
  Dead-code elimination (\<open>dce_module\<close> of \<open>src/ssa_pass.rs\<close>): threading of branches on
  constants, removal of unreachable blocks with renumbering, removal of unused
  instructions, iterated until nothing changes. \<open>None\<close> is a panic (an index or a map
  lookup that fails). Each step is a pass in the sense of the locale \<open>ssa_pass\<close>.
\<close>

section \<open>Branch threading\<close>

definition thread_block :: "basic_block \<Rightarrow> basic_block \<times> nat" where
  "thread_block bb = (case bb_term bb of
     Branch (OConst (CBool b)) t ts e es \<Rightarrow> (bb\<lparr>bb_term := if b then Jump t ts else Jump e es\<rparr>, 1)
   | _ \<Rightarrow> (bb, 0))"

definition thread_branches :: "func \<Rightarrow> func \<times> nat" where
  "thread_branches f =
     (let rs = map thread_block (fn_blocks f)
      in (f\<lparr>fn_blocks := map fst rs\<rparr>, sum_list (map snd rs)))"

section \<open>Unreachable blocks\<close>

text \<open>The targets of a terminator in the order they are pushed on the work list.\<close>

fun succs :: "terminator \<Rightarrow> block_id list" where
  "succs (Jump t _) = [t]"
| "succs (Branch _ t _ e _) = [t, e]"
| "succs _ = []"

definition unvisited :: "basic_block list \<Rightarrow> block_id list \<Rightarrow> nat" where
  "unvisited bbs V = card {i. i < length bbs \<and> BlockId i \<notin> set V}"

lemma unvisited_less:
  assumes "b \<notin> set V" and "bid b < length bbs"
  shows "unvisited bbs (b # V) < unvisited bbs V"
proof -
  define A where "A = {i. i < length bbs \<and> BlockId i \<notin> set (b # V)}"
  define B where "B = {i. i < length bbs \<and> BlockId i \<notin> set V}"
  have "bid b \<in> B" and "bid b \<notin> A" using assms by (simp_all add: A_def B_def)
  moreover have "A \<subseteq> B" by (auto simp: A_def B_def)
  ultimately have "A \<subset> B" by blast
  moreover have "finite B" by (simp add: B_def)
  ultimately show ?thesis unfolding unvisited_def A_def[symmetric] B_def[symmetric] by (simp add: psubset_card_mono)
qed

text \<open>The work list is a stack: its top is the last pushed.\<close>

function reach :: "basic_block list \<Rightarrow> block_id list \<Rightarrow> block_id list \<Rightarrow> block_id list option" where
  "reach bbs V [] = Some V"
| "reach bbs V (b # work) =
     (if b \<in> set V then reach bbs V work
      else if bid b < length bbs
      then reach bbs (b # V) (rev (succs (bb_term (bbs ! bid b))) @ work)
      else None)"
  by pat_completeness auto

termination
  by (relation "inv_image (less_than <*lex*> less_than) (\<lambda>(bbs, V, work). (unvisited bbs V, length work))")
    (auto dest: unvisited_less)

text \<open>
  The surviving blocks, renumbered in order, and the entries put in the map from old to new
  numbers, the first one first: of two for one number the last counts.
\<close>

fun renumber_blocks :: "block_id list \<Rightarrow> nat \<Rightarrow> basic_block list \<Rightarrow> basic_block list \<times> (block_id \<times> block_id) list" where
  "renumber_blocks V k [] = ([], [])"
| "renumber_blocks V k (bb # bbs) =
     (if bb_id bb \<in> set V
      then (let (bbs', m) = renumber_blocks V (Suc k) bbs
            in (bb\<lparr>bb_id := BlockId k\<rparr> # bbs', (bb_id bb, BlockId k) # m))
      else renumber_blocks V k bbs)"

fun retarget :: "(block_id \<times> block_id) list \<Rightarrow> terminator \<Rightarrow> terminator option" where
  "retarget m (Jump t xs) = map_option (\<lambda>t. Jump t xs) (map_of m t)"
| "retarget m (Branch c t ts e es) =
     Option.bind (map_of m t) (\<lambda>t. map_option (\<lambda>e. Branch c t ts e es) (map_of m e))"
| "retarget m t = Some t"

fun retarget_blocks :: "(block_id \<times> block_id) list \<Rightarrow> basic_block list \<Rightarrow> basic_block list option" where
  "retarget_blocks m [] = Some []"
| "retarget_blocks m (bb # bbs) =
     Option.bind (retarget m (bb_term bb)) (\<lambda>t.
     map_option (\<lambda>bbs. bb\<lparr>bb_term := t\<rparr> # bbs) (retarget_blocks m bbs))"

definition remove_unreachable_blocks :: "func \<Rightarrow> (func \<times> nat) option" where
  "remove_unreachable_blocks f =
     Option.bind (reach (fn_blocks f) [] [fn_entry f]) (\<lambda>V.
     let before = length (fn_blocks f) in
     if length V = before then Some (f, 0)
     else
       let (bbs, inserted) = renumber_blocks V 0 (fn_blocks f); new_id_of = rev inserted in
       Option.bind (retarget_blocks new_id_of bbs) (\<lambda>bbs.
       Option.bind (map_of new_id_of (fn_entry f)) (\<lambda>entry.
       Some (f\<lparr>fn_entry := entry, fn_blocks := bbs\<rparr>, before - length V))))"

section \<open>Dead instructions\<close>

text \<open>The operands the pass looks at: not the sources of \<open>RefOf\<close> and \<open>Drop\<close>, nor the array of
  an index assignment.\<close>

fun collect_used_in_instr :: "instr_kind \<Rightarrow> value_id list" where
  "collect_used_in_instr (IRefOf _ _) = []"
| "collect_used_in_instr (IDrop _ _ _) = []"
| "collect_used_in_instr (IIndexAssign _ _ i v _) = operand_values [i, v]"
| "collect_used_in_instr k = operand_values (instr_operands k)"

definition used_values :: "func \<Rightarrow> value_id list" where
  "used_values f = concat (map (\<lambda>bb.
     concat (map (\<lambda>i. collect_used_in_instr (i_kind i)) (bb_instrs bb)) @ term_uses (bb_term bb)) (fn_blocks f))"

fun is_safe_to_drop :: "instr_kind \<Rightarrow> bool" where
  "is_safe_to_drop (IConst _) = True"
| "is_safe_to_drop (IUnary _ _) = True"
| "is_safe_to_drop (ICast _ _) = True"
| "is_safe_to_drop (ILen _ _) = True"
| "is_safe_to_drop (IRefOf _ _) = True"
| "is_safe_to_drop (IBinary op _ _) \<longleftrightarrow> op \<notin> {Div, Rem, Shl, Shr}"
| "is_safe_to_drop (IFnRef _) = True"
| "is_safe_to_drop _ = False"

definition keep_instr :: "value_id list \<Rightarrow> instruction \<Rightarrow> bool" where
  "keep_instr used i \<longleftrightarrow> i_result i \<in> set used \<or> \<not> is_safe_to_drop (i_kind i)"

definition remove_dead_instructions :: "func \<Rightarrow> func \<times> nat" where
  "remove_dead_instructions f =
     (let used = used_values f in
      (f\<lparr>fn_blocks := map (\<lambda>bb. bb\<lparr>bb_instrs := filter (keep_instr used) (bb_instrs bb)\<rparr>) (fn_blocks f)\<rparr>,
       sum_list (map (\<lambda>bb. length (filter (\<lambda>i. \<not> keep_instr used i) (bb_instrs bb))) (fn_blocks f))))"

section \<open>The fixpoint loop\<close>

record dce_stats =
  branches_threaded :: nat
  blocks_removed :: nat
  instructions_removed :: nat
  iterations :: nat

definition stats_default :: dce_stats where
  "stats_default = \<lparr>branches_threaded = 0, blocks_removed = 0, instructions_removed = 0, iterations = 0\<rparr>"

text \<open>One round, with the numbers of its three steps.\<close>

definition dce_round :: "func \<Rightarrow> (func \<times> nat \<times> nat \<times> nat) option" where
  "dce_round f =
     (let (f1, n1) = thread_branches f in
      Option.bind (remove_unreachable_blocks f1) (\<lambda>(f2, n2).
      let (f3, n3) = remove_dead_instructions f2 in Some (f3, n1, n2, n3)))"

definition add_stats :: "nat \<Rightarrow> nat \<Rightarrow> nat \<Rightarrow> dce_stats \<Rightarrow> dce_stats" where
  "add_stats n1 n2 n3 s =
     \<lparr>branches_threaded = branches_threaded s + n1, blocks_removed = blocks_removed s + n2,
      instructions_removed = instructions_removed s + n3, iterations = iterations s + 1\<rparr>"

text \<open>What every round that changes something makes smaller.\<close>

definition is_branch :: "terminator \<Rightarrow> bool" where
  "is_branch t = (case t of Branch _ _ _ _ _ \<Rightarrow> True | _ \<Rightarrow> False)"

definition block_weight :: "basic_block \<Rightarrow> nat" where
  "block_weight bb = 1 + length (bb_instrs bb) + (if is_branch (bb_term bb) then 1 else 0)"

definition weight :: "func \<Rightarrow> nat" where
  "weight f = sum_list (map block_weight (fn_blocks f))"

lemma thread_weight: "thread_branches f = (f', n) \<Longrightarrow> weight f' + n = weight f"
proof -
  have "block_weight (fst (thread_block bb)) + snd (thread_block bb) = block_weight bb" for bb
    by (auto simp: thread_block_def block_weight_def is_branch_def split: terminator.splits operand.splits const_val.splits)
  then have "sum_list (map (block_weight \<circ> fst \<circ> thread_block) bbs) + sum_list (map (snd \<circ> thread_block) bbs) =
      sum_list (map block_weight bbs)" for bbs
    by (induction bbs) (auto simp: algebra_simps)
  then show "thread_branches f = (f', n) \<Longrightarrow> weight f' + n = weight f"
    by (auto simp: thread_branches_def weight_def Let_def comp_assoc)
qed

lemma dead_weight: "remove_dead_instructions f = (f', n) \<Longrightarrow> weight f' + n = weight f"
proof -
  have "sum_list (map (\<lambda>bb. block_weight (bb\<lparr>bb_instrs := filter P (bb_instrs bb)\<rparr>)) bbs) +
      sum_list (map (\<lambda>bb. length (filter (\<lambda>i. \<not> P i) (bb_instrs bb))) bbs) = sum_list (map block_weight bbs)" for P bbs
  proof (induction bbs)
    case (Cons bb bbs)
    then show ?case using sum_length_filter_compl[of P "bb_instrs bb"] by (simp add: block_weight_def)
  qed simp
  then show "remove_dead_instructions f = (f', n) \<Longrightarrow> weight f' + n = weight f"
    by (auto simp: remove_dead_instructions_def weight_def Let_def comp_def)
qed

text \<open>
  The loop of \<open>dce_module\<close>. That it ends is proved for functions whose blocks are numbered
  by position (\<open>wf_cfg\<close>), which the lowering produces.
\<close>

partial_function (option) dce_function :: "func \<Rightarrow> dce_stats \<Rightarrow> (func \<times> dce_stats) option" where
  "dce_function f s =
     Option.bind (dce_round f) (\<lambda>(f', n1, n2, n3).
     if n1 = 0 \<and> n2 = 0 \<and> n3 = 0 then Some (f', add_stats n1 n2 n3 s)
     else dce_function f' (add_stats n1 n2 n3 s))"

declare dce_function.simps [code]

fun dce_functions :: "func list \<Rightarrow> dce_stats \<Rightarrow> (func list \<times> dce_stats) option" where
  "dce_functions [] s = Some ([], s)"
| "dce_functions (f # fs) s =
     Option.bind (dce_function f s) (\<lambda>(f, s).
     map_option (\<lambda>(fs, s). (f # fs, s)) (dce_functions fs s))"

definition dce_module :: "ssa_module \<Rightarrow> (ssa_module \<times> dce_stats) option" where
  "dce_module M =
     map_option (\<lambda>(fs, s). (M\<lparr>m_functions := fs\<rparr>, s)) (dce_functions (m_functions M) stats_default)"

section \<open>Reachability\<close>

inductive reaches :: "func \<Rightarrow> block_id \<Rightarrow> bool" for f where
  entry: "reaches f (fn_entry f)"
| step: "reaches f b \<Longrightarrow> t \<in> set (succs (bb_term (fn_blocks f ! bid b))) \<Longrightarrow> reaches f t"

definition wf_cfg :: "func \<Rightarrow> bool" where
  "wf_cfg f \<longleftrightarrow>
     map bb_id (fn_blocks f) = map BlockId [0..<length (fn_blocks f)] \<and>
     bid (fn_entry f) < length (fn_blocks f) \<and>
     list_all (\<lambda>bb. list_all (\<lambda>t. bid t < length (fn_blocks f)) (succs (bb_term bb))) (fn_blocks f)"

lemma succs_edges: "set (succs t) = fst ` set (term_edges t)"
  by (cases t) auto

lemma wf_func_cfg: "wf_func f \<Longrightarrow> wf_cfg f"
  by (auto simp: wf_func_def wf_cfg_def list_all_iff succs_edges edge_ok_def)

lemma wf_cfg_succ:
  "wf_cfg f \<Longrightarrow> bid b < length (fn_blocks f) \<Longrightarrow> t \<in> set (succs (bb_term (fn_blocks f ! bid b))) \<Longrightarrow>
   bid t < length (fn_blocks f)"
  using nth_mem by (fastforce simp: wf_cfg_def list_all_iff)

lemma reaches_lt: "reaches f b \<Longrightarrow> wf_cfg f \<Longrightarrow> bid b < length (fn_blocks f)"
  by (induction rule: reaches.induct) (auto simp: wf_cfg_def[of f] intro: wf_cfg_succ[unfolded wf_cfg_def])

lemma reach_spec:
  assumes "wf_cfg f" and "distinct V" and "\<forall>b\<in>set V \<union> set work. reaches f b"
    and "\<forall>b\<in>set V. set (succs (bb_term (fn_blocks f ! bid b))) \<subseteq> set V \<union> set work"
  shows "\<exists>V'. reach (fn_blocks f) V work = Some V' \<and> distinct V' \<and> set V \<union> set work \<subseteq> set V' \<and>
     (\<forall>b\<in>set V'. reaches f b \<and> set (succs (bb_term (fn_blocks f ! bid b))) \<subseteq> set V')"
  using assms(2-4)
proof (induction "fn_blocks f" V work rule: reach.induct)
  case (1 V)
  then show ?case by simp
next
  case (2 V b work)
  show ?case
  proof (cases "b \<in> set V")
    case True
    then show ?thesis using 2 by (auto simp: insert_absorb)
  next
    case False
    have lt: "bid b < length (fn_blocks f)" using 2(4) assms(1) by (simp add: reaches_lt)
    have "\<exists>V'. reach (fn_blocks f) (b # V) (rev (succs (bb_term (fn_blocks f ! bid b))) @ work) = Some V' \<and>
        distinct V' \<and> set (b # V) \<union> set (rev (succs (bb_term (fn_blocks f ! bid b))) @ work) \<subseteq> set V' \<and>
        (\<forall>b\<in>set V'. reaches f b \<and> set (succs (bb_term (fn_blocks f ! bid b))) \<subseteq> set V')"
      using 2(3-5) False lt by (intro 2(2)) (auto intro: reaches.step)
    then show ?thesis using False lt by auto
  qed
qed

lemma reach_entry:
  assumes "wf_cfg f"
  obtains V where "reach (fn_blocks f) [] [fn_entry f] = Some V" and "distinct V" and "set V = {b. reaches f b}"
proof -
  obtain V where V: "reach (fn_blocks f) [] [fn_entry f] = Some V" "distinct V" "fn_entry f \<in> set V"
    "\<forall>b\<in>set V. reaches f b \<and> set (succs (bb_term (fn_blocks f ! bid b))) \<subseteq> set V"
    using reach_spec[OF assms, of "[]" "[fn_entry f]"] by (auto intro: reaches.entry)
  have "b \<in> set V" if "reaches f b" for b
    using that by (induction rule: reaches.induct) (use V(3,4) in auto)
  then show ?thesis using V that by auto
qed

section \<open>What removing unreachable blocks does\<close>

lemma renumber_eq:
  "renumber_blocks V k bbs =
     (let ss = filter (\<lambda>bb. bb_id bb \<in> set V) bbs in
      (map2 (\<lambda>bb j. bb\<lparr>bb_id := BlockId j\<rparr>) ss [k..<k + length ss],
       zip (map bb_id ss) (map BlockId [k..<k + length ss])))"
proof (induction V k bbs rule: renumber_blocks.induct)
  case (1 V k)
  then show ?case by simp
next
  case (2 V k bb bbs)
  have "[k..<k + Suc n] = k # [Suc k..<Suc k + n]" for n
    by (simp add: upt_conv_Cons del: upt_Suc)
  with 2 show ?case by (simp add: Let_def del: upt_Suc)
qed

lemma retarget_some:
  "set (succs t) \<subseteq> dom (map_of m) \<Longrightarrow> \<exists>t'. retarget m t = Some t'"
  by (cases t) auto

lemma retarget_is_branch: "retarget m t = Some t' \<Longrightarrow> is_branch t' = is_branch t"
  by (cases t) (auto simp: is_branch_def split: bind_splits)

lemma retarget_uses: "retarget m t = Some t' \<Longrightarrow> term_uses t' = term_uses t"
  by (cases t) (auto simp: term_uses_def split: bind_splits)

lemma retarget_succs: "retarget m t = Some t' \<Longrightarrow> map (map_of m) (succs t) = map Some (succs t')"
  by (cases t) (auto split: bind_splits)

lemma retarget_blocks_some:
  "\<forall>bb\<in>set bbs. set (succs (bb_term bb)) \<subseteq> dom (map_of m) \<Longrightarrow>
   \<exists>bbs'. retarget_blocks m bbs = Some bbs' \<and>
     list_all2 (\<lambda>bb bb'. \<exists>t'. retarget m (bb_term bb) = Some t' \<and> bb' = bb\<lparr>bb_term := t'\<rparr>) bbs bbs'"
proof (induction bbs)
  case Nil
  then show ?case by simp
next
  case (Cons bb bbs)
  then show ?case using retarget_some[of "bb_term bb" m] by auto
qed

text \<open>
  \<open>renumbers m f f'\<close>: \<open>f'\<close> consists, under the new numbers \<open>m\<close>, of the blocks of \<open>f\<close> that are
  reachable.
\<close>

definition same_block :: "(block_id \<times> block_id) list \<Rightarrow> basic_block \<Rightarrow> basic_block \<Rightarrow> bool" where
  "same_block m bb bb' \<longleftrightarrow> bb_params bb' = bb_params bb \<and> bb_instrs bb' = bb_instrs bb \<and>
     retarget m (bb_term bb) = Some (bb_term bb')"

definition renumbers :: "(block_id \<times> block_id) list \<Rightarrow> func \<Rightarrow> func \<Rightarrow> bool" where
  "renumbers m f f' \<longleftrightarrow>
     fn_name f' = fn_name f \<and> fn_is_extern f' = fn_is_extern f \<and>
     map bb_id (fn_blocks f') = map BlockId [0..<length (fn_blocks f')] \<and>
     map_of m (fn_entry f) = Some (fn_entry f') \<and>
     {b. reaches f b} = dom (map_of m) \<and> {b. bid b < length (fn_blocks f')} = ran (map_of m) \<and>
     (\<forall>b b'. map_of m b = Some b' \<longrightarrow> bid b < length (fn_blocks f) \<and> bid b' < length (fn_blocks f') \<and>
        same_block m (fn_blocks f ! bid b) (fn_blocks f' ! bid b'))"

lemma renumbersD:
  assumes "renumbers m f f'" and "map_of m b = Some b'"
  shows "bid b < length (fn_blocks f)" and "bid b' < length (fn_blocks f')"
    and "same_block m (fn_blocks f ! bid b) (fn_blocks f' ! bid b')"
  using assms unfolding renumbers_def by blast+

lemma renumbers_dom: "renumbers m f f' \<Longrightarrow> reaches f b \<longleftrightarrow> (\<exists>b'. map_of m b = Some b')"
  unfolding renumbers_def by (simp add: set_eq_iff dom_def)

lemma renumbers_ran: "renumbers m f f' \<Longrightarrow> bid b' < length (fn_blocks f') \<longleftrightarrow> (\<exists>b. map_of m b = Some b')"
  unfolding renumbers_def by (simp add: set_eq_iff ran_def)

lemma renumbers_entry: "renumbers m f f' \<Longrightarrow> map_of m (fn_entry f) = Some (fn_entry f')"
  unfolding renumbers_def by blast

lemma renumbers_reaches:
  assumes r: "renumbers m f f'"
  shows "reaches f b \<Longrightarrow> map_of m b = Some b' \<Longrightarrow> reaches f' b'"
proof (induction arbitrary: b' rule: reaches.induct)
  case entry
  then have "b' = fn_entry f'" using renumbers_entry[OF r] by simp
  then show ?case by (simp add: reaches.entry)
next
  case (step b t)
  obtain c where c: "map_of m b = Some c" using renumbers_dom[OF r, of b] step.hyps(1) by blast
  then have "reaches f' c" by (rule step.IH)
  moreover have "map (map_of m) (succs (bb_term (fn_blocks f ! bid b))) = map Some (succs (bb_term (fn_blocks f' ! bid c)))"
    using renumbersD(3)[OF r c] by (auto simp: same_block_def intro: retarget_succs)
  then have "map_of m ` set (succs (bb_term (fn_blocks f ! bid b))) = Some ` set (succs (bb_term (fn_blocks f' ! bid c)))"
    by (metis image_set)
  then have "b' \<in> set (succs (bb_term (fn_blocks f' ! bid c)))"
    using step.hyps(2) step.prems by (metis imageE image_eqI option.inject)
  ultimately show ?case by (rule reaches.step)
qed

lemma renumbers_cfg:
  assumes r: "renumbers m f f'"
  shows "wf_cfg f'" and "bid b < length (fn_blocks f') \<Longrightarrow> reaches f' b"
proof -
  show *: "reaches f' b" if lt: "bid b < length (fn_blocks f')" for b
  proof -
    obtain a where a: "map_of m a = Some b" using renumbers_ran[OF r, of b] lt by blast
    then have "reaches f a" using renumbers_dom[OF r, of a] by blast
    then show ?thesis using a by (rule renumbers_reaches[OF r])
  qed
  have lt: "bid t < length (fn_blocks f')" if "bb \<in> set (fn_blocks f')" "t \<in> set (succs (bb_term bb))" for bb t
  proof -
    from that(1) obtain j where j: "j < length (fn_blocks f')" "bb = fn_blocks f' ! j" by (metis in_set_conv_nth)
    then obtain a where a: "map_of m a = Some (BlockId j)" using renumbers_ran[OF r, of "BlockId j"] by auto
    have "map (map_of m) (succs (bb_term (fn_blocks f ! bid a))) = map Some (succs (bb_term bb))"
      using renumbersD(3)[OF r a] j by (auto simp: same_block_def intro: retarget_succs)
    then have "Some t \<in> map_of m ` set (succs (bb_term (fn_blocks f ! bid a)))"
      using that(2) by (metis image_eqI image_set)
    then obtain c where "map_of m c = Some t" by auto
    then show ?thesis using renumbers_ran[OF r, of t] by blast
  qed
  moreover have "bid (fn_entry f') < length (fn_blocks f')"
    using renumbersD(2)[OF r renumbers_entry[OF r]] .
  moreover have "map bb_id (fn_blocks f') = map BlockId [0..<length (fn_blocks f')]"
    using r unfolding renumbers_def by blast
  ultimately show "wf_cfg f'" unfolding wf_cfg_def list_all_iff by blast
qed

lemma retarget_id:
  assumes "\<forall>b\<in>set (succs t). map_of m b = Some b"
  shows "retarget m t = Some t"
  using assms by (cases t) auto

lemma ids_nth_cfg: "wf_cfg f \<Longrightarrow> j < length (fn_blocks f) \<Longrightarrow> bb_id (fn_blocks f ! j) = BlockId j"
proof -
  assume w: "wf_cfg f" and j: "j < length (fn_blocks f)"
  have "map bb_id (fn_blocks f) ! j = map BlockId [0..<length (fn_blocks f)] ! j"
    using w by (simp only: wf_cfg_def)
  with j show ?thesis by simp
qed

lemma map_of_diag: "map_of (map (\<lambda>b. (b, b)) V) b = (if b \<in> set V then Some b else None)"
  by (induction V) auto

lemma all_reachable:
  assumes w: "wf_cfg f" and V: "distinct V" "set V = {b. reaches f b}" and l: "length V = length (fn_blocks f)"
  shows "reaches f b \<longleftrightarrow> bid b < length (fn_blocks f)"
proof -
  have "{b. reaches f b} \<subseteq> BlockId ` {..<length (fn_blocks f)}"
    using reaches_lt[OF _ w] by (metis block_id.collapse image_eqI lessThan_iff mem_Collect_eq subsetI)
  moreover have "card {b. reaches f b} = length (fn_blocks f)" using V l distinct_card by metis
  moreover have "card (BlockId ` {..<length (fn_blocks f)}) = length (fn_blocks f)"
    by (simp add: card_image inj_on_def)
  ultimately have "{b. reaches f b} = BlockId ` {..<length (fn_blocks f)}"
    by (metis card_subset_eq finite_imageI finite_lessThan)
  then show ?thesis
    by (metis block_id.collapse block_id.sel image_iff lessThan_iff mem_Collect_eq)
qed

lemma all_reachable_id:
  assumes w: "wf_cfg f" and V: "distinct V" "set V = {b. reaches f b}" and l: "length V = length (fn_blocks f)"
  shows "renumbers (map (\<lambda>b. (b, b)) V) f f"
proof -
  let ?m = "map (\<lambda>b. (b, b)) V"
  have m: "map_of ?m b = (if reaches f b then Some b else None)" for b
    using V(2) by (auto simp: map_of_diag)
  have "retarget ?m (bb_term (fn_blocks f ! bid b)) = Some (bb_term (fn_blocks f ! bid b))" if "reaches f b" for b
    by (rule retarget_id) (use m that in \<open>auto intro: reaches.step\<close>)
  then show ?thesis
    using w unfolding renumbers_def same_block_def
    by (auto simp: m wf_cfg_def reaches.entry all_reachable[OF assms] dom_def ran_def split: if_splits)
qed


definition survivors :: "func \<Rightarrow> block_id list \<Rightarrow> basic_block list" where
  "survivors f V = filter (\<lambda>bb. bb_id bb \<in> set V) (fn_blocks f)"

definition new_ids :: "func \<Rightarrow> block_id list \<Rightarrow> (block_id \<times> block_id) list" where
  "new_ids f V = rev (zip (map bb_id (survivors f V)) (map BlockId [0..<length (survivors f V)]))"

lemma survivor:
  assumes "wf_cfg f" and "j < length (survivors f V)"
  shows "survivors f V ! j = fn_blocks f ! bid (bb_id (survivors f V ! j))"
    and "bid (bb_id (survivors f V ! j)) < length (fn_blocks f)" and "bb_id (survivors f V ! j) \<in> set V"
proof -
  have "survivors f V ! j \<in> set (survivors f V)" using assms(2) by simp
  then have "survivors f V ! j \<in> set (fn_blocks f)" and V: "bb_id (survivors f V ! j) \<in> set V"
    by (auto simp: survivors_def)
  then obtain i where "i < length (fn_blocks f)" "survivors f V ! j = fn_blocks f ! i"
    by (metis in_set_conv_nth)
  then show "survivors f V ! j = fn_blocks f ! bid (bb_id (survivors f V ! j))"
    and "bid (bb_id (survivors f V ! j)) < length (fn_blocks f)" and "bb_id (survivors f V ! j) \<in> set V"
    using ids_nth_cfg[OF assms(1)] V by auto
qed

lemma survivor_ids:
  assumes w: "wf_cfg f" and V: "set V = {b. reaches f b}"
  shows "distinct (map bb_id (survivors f V))" and "set (map bb_id (survivors f V)) = set V"
proof -
  have "map bb_id (fn_blocks f) = map BlockId [0..<length (fn_blocks f)]" using w unfolding wf_cfg_def by blast
  then have "distinct (map bb_id (fn_blocks f))" by (simp add: distinct_map inj_on_def)
  then show "distinct (map bb_id (survivors f V))" unfolding survivors_def by (rule distinct_map_filter)
  have "b \<in> bb_id ` set (survivors f V)" if "b \<in> set V" for b
  proof -
    have lt: "bid b < length (fn_blocks f)" using that V w by (auto intro: reaches_lt)
    then have "bb_id (fn_blocks f ! bid b) = b" using ids_nth_cfg[OF w] by simp
    moreover have "fn_blocks f ! bid b \<in> set (fn_blocks f)" using lt by simp
    ultimately have "fn_blocks f ! bid b \<in> set (survivors f V)" using that by (simp add: survivors_def)
    then show ?thesis using \<open>bb_id (fn_blocks f ! bid b) = b\<close> by (metis image_eqI)
  qed
  then show "set (map bb_id (survivors f V)) = set V" by (auto simp: survivors_def)
qed

lemma new_ids_iff:
  assumes "wf_cfg f" and "set V = {b. reaches f b}"
  shows "map_of (new_ids f V) b = Some b' \<longleftrightarrow>
    (\<exists>j<length (survivors f V). b = bb_id (survivors f V ! j) \<and> b' = BlockId j)"
proof -
  have "distinct (map fst (new_ids f V))"
    using survivor_ids(1)[OF assms] by (simp add: new_ids_def rev_map[symmetric])
  then have "map_of (new_ids f V) b = Some b' \<longleftrightarrow> (b, b') \<in> set (new_ids f V)" by simp
  also have "\<dots> \<longleftrightarrow> (\<exists>j<length (survivors f V). b = bb_id (survivors f V ! j) \<and> b' = BlockId j)"
    by (simp add: new_ids_def in_set_zip) (metis add_0 diff_zero length_map length_upt nth_map nth_upt)
  finally show ?thesis .
qed

lemma new_ids_dom:
  assumes "wf_cfg f" and "set V = {b. reaches f b}"
  shows "dom (map_of (new_ids f V)) = set V"
  using survivor_ids[OF assms] by (simp add: new_ids_def dom_map_of_conv_image_fst flip: set_map)

lemma sum_filter_ge:
  "(\<And>x. 1 \<le> w x) \<Longrightarrow> sum_list (map w (filter P xs)) + length xs \<le> sum_list (map w xs) + length (filter P xs)"
  for w :: "'a \<Rightarrow> nat"
proof (induction xs)
  case (Cons x xs)
  have "1 \<le> w x" and "sum_list (map w (filter P xs)) + length xs \<le> sum_list (map w xs) + length (filter P xs)"
    using Cons by blast+
  then show ?case by simp
qed simp

lemma remove_unreachable_some:
  assumes w: "wf_cfg f" and V: "set V = {b. reaches f b}"
  obtains bbs entry where
    "retarget_blocks (new_ids f V) (fst (renumber_blocks V 0 (fn_blocks f))) = Some bbs"
    and "map_of (new_ids f V) (fn_entry f) = Some entry"
    and "renumbers (new_ids f V) f (f\<lparr>fn_entry := entry, fn_blocks := bbs\<rparr>)"
    and "map block_weight bbs = map block_weight (survivors f V)"
proof -
  let ?m = "new_ids f V" and ?ss = "survivors f V"
  let ?bs = "map2 (\<lambda>bb j. bb\<lparr>bb_id := BlockId j\<rparr>) ?ss [0..<length ?ss]"
  have bs: "fst (renumber_blocks V 0 (fn_blocks f)) = ?bs"
    by (simp add: renumber_eq survivors_def Let_def)
  have nth: "?bs ! j = (?ss ! j)\<lparr>bb_id := BlockId j\<rparr>" if "j < length ?ss" for j using that by simp
  have closed: "set (succs (bb_term (?ss ! j))) \<subseteq> dom (map_of ?m)" if "j < length ?ss" for j
    using survivor[OF w that] V unfolding new_ids_dom[OF w V] by (metis mem_Collect_eq reaches.step subsetI)
  have "\<forall>bb\<in>set ?bs. set (succs (bb_term bb)) \<subseteq> dom (map_of ?m)"
  proof
    fix bb assume "bb \<in> set ?bs"
    then obtain j where "j < length ?ss" "bb = ?bs ! j" by (auto simp: in_set_conv_nth)
    then show "set (succs (bb_term bb)) \<subseteq> dom (map_of ?m)" using closed by simp
  qed
  from retarget_blocks_some[OF this] obtain bbs where bbs: "retarget_blocks ?m ?bs = Some bbs"
    "list_all2 (\<lambda>bb bb'. \<exists>t'. retarget ?m (bb_term bb) = Some t' \<and> bb' = bb\<lparr>bb_term := t'\<rparr>) ?bs bbs" by blast
  then have len: "length bbs = length ?ss" by (auto dest: list_all2_lengthD)
  have b: "\<exists>t'. retarget ?m (bb_term (?ss ! j)) = Some t' \<and> bbs ! j = (?ss ! j)\<lparr>bb_id := BlockId j, bb_term := t'\<rparr>"
    if "j < length ?ss" for j
    using bbs(2) that by (auto simp: list_all2_conv_all_nth)
  obtain entry where entry: "map_of ?m (fn_entry f) = Some entry"
    using new_ids_dom[OF w V] V reaches.entry by blast
  let ?f = "f\<lparr>fn_entry := entry, fn_blocks := bbs\<rparr>"
  have ids: "map bb_id bbs = map BlockId [0..<length bbs]"
  proof (rule nth_equalityI)
    fix j assume "j < length (map bb_id bbs)"
    then show "map bb_id bbs ! j = map BlockId [0..<length bbs] ! j" using b[of j] len by auto
  qed simp
  have ran: "{b. bid b < length bbs} = ran (map_of ?m)"
  proof (intro set_eqI)
    fix b
    have "b \<in> ran (map_of ?m) \<longleftrightarrow> (\<exists>j<length ?ss. b = BlockId j)" unfolding ran_def using new_ids_iff[OF w V] by blast
    then show "b \<in> {b. bid b < length bbs} \<longleftrightarrow> b \<in> ran (map_of ?m)" using len by (cases b) auto
  qed
  have same: "bid a < length (fn_blocks f) \<and> bid a' < length bbs \<and> same_block ?m (fn_blocks f ! bid a) (bbs ! bid a')"
    if m: "map_of ?m a = Some a'" for a a'
  proof -
    obtain j where j: "j < length ?ss" "a = bb_id (?ss ! j)" "a' = BlockId j" using m unfolding new_ids_iff[OF w V] by blast
    then show ?thesis using b[OF j(1)] survivor[OF w j(1)] len by (auto simp: same_block_def)
  qed
  have "renumbers ?m f ?f"
    unfolding renumbers_def using entry ids ran same new_ids_dom[OF w V] V by simp
  moreover have "map block_weight bbs = map block_weight ?ss"
  proof (rule nth_equalityI)
    fix j assume "j < length (map block_weight bbs)"
    then show "map block_weight bbs ! j = map block_weight ?ss ! j"
      using b[of j] len by (auto simp: block_weight_def dest: retarget_is_branch)
  qed (simp add: len)
  ultimately show thesis using that bbs(1) entry unfolding bs by blast
qed


section \<open>Each round, and the loop, return\<close>

definition all_instrs :: "func \<Rightarrow> instruction list" where
  "all_instrs f = concat (map bb_instrs (fn_blocks f))"

lemma thread_block_same [simp]:
  "bb_id (fst (thread_block bb)) = bb_id bb" "bb_params (fst (thread_block bb)) = bb_params bb"
  "bb_instrs (fst (thread_block bb)) = bb_instrs bb"
  "set (succs (bb_term (fst (thread_block bb)))) \<subseteq> set (succs (bb_term bb))"
  by (auto simp: thread_block_def split: terminator.splits operand.splits const_val.splits)

lemma thread_cfg: "wf_cfg f \<Longrightarrow> wf_cfg (fst (thread_branches f))"
  unfolding wf_cfg_def thread_branches_def
  by (auto simp: Let_def list_all_iff comp_def) (use thread_block_same(4) in blast)

lemma thread_instrs: "all_instrs (fst (thread_branches f)) = all_instrs f"
  by (simp add: all_instrs_def thread_branches_def Let_def comp_def)

lemma thread_same: "thread_branches f = (f', 0) \<Longrightarrow> f' = f"
proof -
  have "fst (thread_block bb) = bb" if "snd (thread_block bb) = 0" for bb
    using that by (auto simp: thread_block_def split: terminator.splits operand.splits const_val.splits)
  then have "map (fst \<circ> thread_block) bbs = bbs" if "\<forall>bb\<in>set bbs. snd (thread_block bb) = 0" for bbs
    using that by (induction bbs) auto
  then show "thread_branches f = (f', 0) \<Longrightarrow> f' = f" by (auto simp: thread_branches_def Let_def)
qed

lemma dead_cfg: "wf_cfg f \<Longrightarrow> wf_cfg (fst (remove_dead_instructions f))"
  by (auto simp: wf_cfg_def remove_dead_instructions_def Let_def list_all_iff comp_def)

lemma dead_instrs: "set (all_instrs (fst (remove_dead_instructions f))) \<subseteq> set (all_instrs f)"
  by (auto simp: all_instrs_def remove_dead_instructions_def Let_def)

lemma dead_same: "remove_dead_instructions f = (f', 0) \<Longrightarrow> f' = f"
proof -
  have *: "map (\<lambda>bb. bb\<lparr>bb_instrs := filter P (bb_instrs bb)\<rparr>) bbs = bbs"
    if "\<forall>bb\<in>set bbs. filter (\<lambda>i. \<not> P i) (bb_instrs bb) = []" for bbs P
    using that by (induction bbs) (auto simp: filter_empty_conv filter_id_conv)
  then show "remove_dead_instructions f = (f', 0) \<Longrightarrow> f' = f"
    unfolding remove_dead_instructions_def Let_def using *[of "fn_blocks f" "keep_instr (used_values f)"] by simp
qed

lemma renumbers_instrs: "renumbers m f f' \<Longrightarrow> set (all_instrs f') \<subseteq> set (all_instrs f)"
proof
  fix i assume r: "renumbers m f f'" and "i \<in> set (all_instrs f')"
  then obtain bb' where "bb' \<in> set (fn_blocks f')" "i \<in> set (bb_instrs bb')" by (auto simp: all_instrs_def)
  then obtain j where j: "j < length (fn_blocks f')" "i \<in> set (bb_instrs (fn_blocks f' ! j))"
    by (metis in_set_conv_nth)
  then obtain b where b: "map_of m b = Some (BlockId j)" using renumbers_ran[OF r, of "BlockId j"] by auto
  then have "i \<in> set (bb_instrs (fn_blocks f ! bid b))" "bid b < length (fn_blocks f)"
    using renumbersD[OF r b] j by (simp_all add: same_block_def)
  then show "i \<in> set (all_instrs f)" unfolding all_instrs_def by auto
qed

lemma remove_unreachable_spec:
  assumes w: "wf_cfg f"
  obtains f' n m where "remove_unreachable_blocks f = Some (f', n)" and "renumbers m f f'"
    and "n + length (fn_blocks f') = length (fn_blocks f)" and "n = 0 \<longrightarrow> f' = f" and "weight f' + n \<le> weight f"
proof -
  obtain V where V: "reach (fn_blocks f) [] [fn_entry f] = Some V" "distinct V" "set V = {b. reaches f b}"
    using reach_entry[OF w] .
  show thesis
  proof (cases "length V = length (fn_blocks f)")
    case True
    then show thesis
      using that[of f 0] V all_reachable_id[OF w V(2,3) True] by (simp add: remove_unreachable_blocks_def)
  next
    case False
    obtain bbs e where b: "retarget_blocks (new_ids f V) (fst (renumber_blocks V 0 (fn_blocks f))) = Some bbs"
      "map_of (new_ids f V) (fn_entry f) = Some e" "renumbers (new_ids f V) f (f\<lparr>fn_entry := e, fn_blocks := bbs\<rparr>)"
      "map block_weight bbs = map block_weight (survivors f V)"
      using remove_unreachable_some[OF w V(3)] .
    have ids: "rev (snd (renumber_blocks V 0 (fn_blocks f))) = new_ids f V"
      by (simp add: renumber_eq Let_def new_ids_def survivors_def)
    have len: "length bbs = length V"
      using b(4)[THEN arg_cong[of _ _ length]] survivor_ids[OF w V(3)] V(2)
      by (metis distinct_card length_map)
    have le: "length V \<le> length (fn_blocks f)"
      using b(4)[THEN arg_cong[of _ _ length]] len by (simp add: survivors_def)
    have "1 \<le> block_weight bb" for bb by (simp add: block_weight_def)
    from sum_filter_ge[of block_weight "\<lambda>bb. bb_id bb \<in> set V" "fn_blocks f", OF this]
    have "sum_list (map block_weight bbs) + length (fn_blocks f) \<le> weight f + length bbs"
      using map_eq_imp_length_eq[OF b(4)] unfolding b(4) by (simp add: survivors_def weight_def)
    moreover have "remove_unreachable_blocks f =
        Some (f\<lparr>fn_entry := e, fn_blocks := bbs\<rparr>, length (fn_blocks f) - length V)"
      using False V(1) b(1,2) ids by (simp add: remove_unreachable_blocks_def case_prod_unfold Let_def)
    ultimately show thesis using that b(3) le len False by (simp add: weight_def)
  qed
qed

text \<open>What one round does, as one fact about its result.\<close>

lemma dce_round_spec:
  assumes w: "wf_cfg f"
  obtains f1 f2 f' n1 n2 n3 m where "dce_round f = Some (f', n1, n2, n3)"
    and "thread_branches f = (f1, n1)" and "remove_unreachable_blocks f1 = Some (f2, n2)" and "renumbers m f1 f2"
    and "remove_dead_instructions f2 = (f', n3)" and "wf_cfg f1" and "wf_cfg f2" and "wf_cfg f'"
    and "weight f' + (n1 + n2 + n3) \<le> weight f" and "n1 = 0 \<and> n2 = 0 \<and> n3 = 0 \<longrightarrow> f1 = f \<and> f2 = f \<and> f' = f"
proof -
  obtain f1 n1 where t: "thread_branches f = (f1, n1)" by fastforce
  have w1: "wf_cfg f1" using thread_cfg[OF w] t by simp
  obtain f2 n2 m where u: "remove_unreachable_blocks f1 = Some (f2, n2)" "renumbers m f1 f2"
    "n2 = 0 \<longrightarrow> f2 = f1" "weight f2 + n2 \<le> weight f1"
    using remove_unreachable_spec[OF w1] .
  have w2: "wf_cfg f2" using renumbers_cfg(1)[OF u(2)] .
  obtain f' n3 where d: "remove_dead_instructions f2 = (f', n3)" by fastforce
  have w3: "wf_cfg f'" using dead_cfg[OF w2] d by simp
  have "dce_round f = Some (f', n1, n2, n3)" using t u(1) d by (simp add: dce_round_def)
  then show thesis
    using that t u d w1 w2 w3 thread_weight[OF t] dead_weight[OF d] thread_same dead_same by force
qed

section \<open>The steps simulate\<close>

text \<open>Threading: the jump is the branch the machine takes.\<close>

interpretation threading: ssa_pass "\<lambda>f. fst (thread_branches f)" "\<lambda>f. True" "\<lambda>rt. True" "\<lambda>f. (=)"
proof unfold_locales
  show "out_rel (xfer_rel (=)) (exec_block rt cf f b vs (env, w)) (exec_block rt cf (fst (thread_branches f)) b' vs (env', w))"
    if "(b, env) = (b', env')" for rt :: "'a runtime" and cf f b env b' env' vs w
  proof -
    have t: "exec_term e (bb_term (fst (thread_block bb))) = exec_term e (bb_term bb)" for e bb
      by (auto simp: thread_block_def split: terminator.splits operand.splits const_val.splits)
    have "exec_block rt cf (fst (thread_branches f)) b vs (env, w) = exec_block rt cf f b vs (env, w)"
      by (simp add: exec_block_def get_block_def exec_bb_def thread_branches_def Let_def t)
    moreover have "out_rel (xfer_rel (=)) x x" for x :: "((env \<times> 'a) \<times> xfer) outcome"
      by (cases x) (auto simp: xfer_rel_refl)
    ultimately show ?thesis using that by simp
  qed
qed (simp_all add: thread_branches_def Let_def)

text \<open>Renumbering: control is at the block of the new number.\<close>

definition unreachable_pass :: "func \<Rightarrow> func" where
  "unreachable_pass f = (case remove_unreachable_blocks f of Some (f', _) \<Rightarrow> f' | None \<Rightarrow> f)"

definition renumber_rel :: "func \<Rightarrow> point \<Rightarrow> point \<Rightarrow> bool" where
  "renumber_rel f p q \<longleftrightarrow> snd q = snd p \<and>
     (\<exists>m. renumbers m f (unreachable_pass f) \<and> map_of m (fst p) = Some (fst q))"

lemma retarget_exec:
  "retarget m t = Some t' \<Longrightarrow> out_rel (\<lambda>x x'. case x of Ret v \<Rightarrow> x' = Ret v
     | Goto b vs \<Rightarrow> \<exists>b'. x' = Goto b' vs \<and> map_of m b = Some b') (exec_term env t) (exec_term env t')"
proof (cases t)
  case (Return r)
  then show "retarget m t = Some t' \<Longrightarrow> ?thesis" by (cases r) (auto split: option.splits)
next
  case (Branch c t1 xs e ys)
  then show "retarget m t = Some t' \<Longrightarrow> ?thesis"
    by (auto simp: goto_def split: option.splits val.splits bool.splits bind_splits)
qed (auto simp: goto_def split: option.splits)

lemma renumber_block:
  assumes "renumber_rel f (b, env) (b', env')"
  shows "out_rel (xfer_rel (renumber_rel f)) (exec_block rt cf f b vs (env, w))
    (exec_block rt cf (unreachable_pass f) b' vs (env', w))"
proof -
  from assms obtain m where m: "renumbers m f (unreachable_pass f)" "map_of m b = Some b'" and e: "env' = env"
    by (auto simp: renumber_rel_def)
  let ?bb = "fn_blocks f ! bid b" and ?bb' = "fn_blocks (unreachable_pass f) ! bid b'"
  have g: "get_block f b = Some ?bb" "get_block (unreachable_pass f) b' = Some ?bb'"
    using renumbersD(1,2)[OF m] by (simp_all add: get_block_def)
  have s: "bb_params ?bb' = bb_params ?bb" "bb_instrs ?bb' = bb_instrs ?bb" "retarget m (bb_term ?bb) = Some (bb_term ?bb')"
    using renumbersD(3)[OF m] by (simp_all add: same_block_def)
  have "out_rel (xfer_rel (renumber_rel f)) (exec_bb rt cf ?bb vs (env, w)) (exec_bb rt cf ?bb' vs (env, w))"
    unfolding exec_bb_def s(1,2)
    by (auto intro!: out_rel_bind[OF refines_refl] out_rel_bind[OF retarget_exec[OF s(3)]]
        simp: xfer_rel_def renumber_rel_def split: xfer.splits) (use m(1) in blast)
  then show ?thesis by (simp add: exec_block_def g e)
qed

lemma unreachable_name: "fn_name (unreachable_pass f) = fn_name f" "fn_is_extern (unreachable_pass f) = fn_is_extern f"
  by (auto simp: unreachable_pass_def remove_unreachable_blocks_def Let_def case_prod_unfold
      split: option.splits bind_splits if_splits)

lemma unreachable_renumbers:
  assumes "wf_cfg f"
  obtains m where "renumbers m f (unreachable_pass f)"
  using remove_unreachable_spec[OF assms] by (metis (no_types, lifting) case_prod_conv option.case(2) unreachable_pass_def)

interpretation unreachable: ssa_pass unreachable_pass wf_cfg "\<lambda>rt. True" renumber_rel
proof unfold_locales
  show "renumber_rel f (fn_entry f, Map.empty) (fn_entry (unreachable_pass f), Map.empty)" if "wf_cfg f" for f
    using unreachable_renumbers[OF that] by (auto simp: renumber_rel_def dest: renumbers_entry)
qed (auto simp: unreachable_name intro: renumber_block)

text \<open>
  Dead instructions. The pass does not see the operands \<open>hidden_uses\<close>; it is right when none
  of them is the result of a removable instruction (\<open>hidden_ok\<close>), and when the library's
  removable primitives have no effect (\<open>pure_runtime\<close>). The environments then agree outside
  the results of what was removed.
\<close>

fun hidden_uses :: "instr_kind \<Rightarrow> value_id list" where
  "hidden_uses (IRefOf x _) = operand_values [x]"
| "hidden_uses (IDrop x _ _) = operand_values [x]"
| "hidden_uses (IIndexAssign x _ _ _ _) = operand_values [x]"
| "hidden_uses _ = []"

definition hidden_ok :: "func \<Rightarrow> bool" where
  "hidden_ok f \<longleftrightarrow> list_all (\<lambda>i. list_all (\<lambda>j. i_result j \<in> set (hidden_uses (i_kind i)) \<longrightarrow>
     \<not> is_safe_to_drop (i_kind j)) (all_instrs f)) (all_instrs f)"

definition pure_runtime :: "'w runtime \<Rightarrow> bool" where
  "pure_runtime rt \<longleftrightarrow> (\<forall>k t vs w. is_safe_to_drop k \<longrightarrow>
     (case rt_prim rt k t vs w of Done (v, w') \<Rightarrow> w' = w | Stuck \<Rightarrow> True | _ \<Rightarrow> False))"

definition dropped :: "func \<Rightarrow> value_id set" where
  "dropped f = i_result ` {i \<in> set (all_instrs f). \<not> keep_instr (used_values f) i}"

definition agree_off :: "value_id set \<Rightarrow> env \<Rightarrow> env \<Rightarrow> bool" where
  "agree_off D env env' \<longleftrightarrow> (\<forall>v. v \<notin> D \<longrightarrow> env' v = env v)"

lemma hidden_ok_mono: "set (all_instrs f') \<subseteq> set (all_instrs f) \<Longrightarrow> hidden_ok f \<Longrightarrow> hidden_ok f'"
  by (auto simp: hidden_ok_def list_all_iff)

lemma uses_cases: "set (operand_values (instr_operands k)) \<subseteq> set (collect_used_in_instr k) \<union> set (hidden_uses k)"
  by (cases k) (auto simp: set_operand_values)

lemma agree_eval_ops:
  "agree_off D env env' \<Longrightarrow> set (operand_values xs) \<inter> D = {} \<Longrightarrow> eval_ops env' xs = eval_ops env xs"
proof (induction xs)
  case (Cons x xs)
  then show ?case by (cases x) (auto simp: agree_off_def split: option.split)
qed simp

lemma agree_eval_op:
  "agree_off D env env' \<Longrightarrow> set (operand_values [x]) \<inter> D = {} \<Longrightarrow> eval_op env' x = eval_op env x"
  by (cases x) (auto simp: agree_off_def)

lemma used_not_dropped: "v \<in> set (used_values f) \<Longrightarrow> v \<notin> dropped f"
  by (auto simp: dropped_def keep_instr_def)

lemma kept_uses:
  assumes "hidden_ok f" and "bb \<in> set (fn_blocks f)" and "i \<in> set (bb_instrs bb)"
  shows "set (operand_values (instr_operands (i_kind i))) \<inter> dropped f = {}"
proof -
  have i: "i \<in> set (all_instrs f)" using assms(2,3) by (auto simp: all_instrs_def)
  have "set (collect_used_in_instr (i_kind i)) \<subseteq> set (used_values f)"
    using assms(2,3) by (auto simp: used_values_def)
  moreover have "set (hidden_uses (i_kind i)) \<inter> dropped f = {}"
    using assms(1) i by (auto simp: hidden_ok_def list_all_iff dropped_def keep_instr_def)
  ultimately show ?thesis using uses_cases[of "i_kind i"] used_not_dropped by blast
qed

lemma term_not_dropped: "bb \<in> set (fn_blocks f) \<Longrightarrow> set (term_uses (bb_term bb)) \<inter> dropped f = {}"
  using used_not_dropped by (fastforce simp: used_values_def)

lemma safe_skel: "is_safe_to_drop (skel k) = is_safe_to_drop k"
  by (cases k) auto

text \<open>What may be removed has no effect but its result.\<close>

fun quiet :: "val outcome \<Rightarrow> bool" where
  "quiet (Done _) = True"
| "quiet Stuck = True"
| "quiet _ = False"

lemma quiet_int_binary: "op \<notin> {Div, Rem, Shl, Shr} \<Longrightarrow> quiet (int_binary op t a b)"
  by (cases op) auto

lemma quiet_bool_binary: "quiet (bool_binary op a b)"
  by (cases op) auto

lemma safe_exec:
  assumes "is_safe_to_drop k" and "pure_runtime rt"
  shows "exec_kind rt cf k t vs w = Stuck \<or> (\<exists>v. exec_kind rt cf k t vs w = Done (v, w))"
proof (cases "exec_scalar k t vs")
  case None
  have "case rt_prim rt (skel k) t vs w of Done (v, w') \<Rightarrow> w' = w | Stuck \<Rightarrow> True | _ \<Rightarrow> False"
    using assms safe_skel unfolding pure_runtime_def by blast
  then show ?thesis using None assms(1)
    by (cases k) (auto simp: exec_kind_def split: outcome.splits)
next
  case (Some r)
  have "quiet r"
    using Some assms(1) quiet_int_binary quiet_bool_binary
    by (cases k) (auto simp: exec_scalar_def exec_unary_def exec_binary_def exec_cast_def
        split: list.splits val.splits if_splits)
  then have "r = Stuck \<or> (\<exists>v. r = Done v)" by (cases r) auto
  then show ?thesis using Some by (auto simp: exec_kind_def)
qed

lemma dead_instrs_exec:
  assumes rt: "pure_runtime rt" and ok: "hidden_ok f" and bb: "bb \<in> set (fn_blocks f)"
  shows "set is \<subseteq> set (bb_instrs bb) \<Longrightarrow> agree_off (dropped f) (fst s) (fst s') \<Longrightarrow> snd s' = snd s \<Longrightarrow>
    out_rel (\<lambda>s s'. agree_off (dropped f) (fst s) (fst s') \<and> snd s' = snd s)
      (exec_instrs rt cf is s) (exec_instrs rt cf (filter (keep_instr (used_values f)) is) s')"
proof (induction "is" arbitrary: s s')
  case Nil
  then show ?case by simp
next
  case (Cons i "is")
  have i: "i \<in> set (bb_instrs bb)" "i \<in> set (all_instrs f)" using Cons.prems(1) bb by (auto simp: all_instrs_def)
  have e: "eval_ops (fst s') (instr_operands (i_kind i)) = eval_ops (fst s) (instr_operands (i_kind i))"
    using agree_eval_ops[OF Cons.prems(2) kept_uses[OF ok bb i(1)]] .
  show ?case
  proof (cases "keep_instr (used_values f) i")
    case True
    have "out_rel (\<lambda>s s'. agree_off (dropped f) (fst s) (fst s') \<and> snd s' = snd s) (exec_instr rt cf i s) (exec_instr rt cf i s')"
      unfolding exec_instr_def e Cons.prems(3) using Cons.prems(2)
      by (auto split: option.split intro!: out_rel_bind[OF refines_refl] simp: agree_off_def)
    then show ?thesis using True Cons by (auto intro!: out_rel_bind[of "\<lambda>s s'. agree_off (dropped f) (fst s) (fst s') \<and> snd s' = snd s"])
  next
    case False
    then have safe: "is_safe_to_drop (i_kind i)" and d: "i_result i \<in> dropped f"
      using i(2) by (auto simp: keep_instr_def dropped_def)
    show ?thesis
    proof (cases "eval_ops (fst s) (instr_operands (i_kind i))")
      case None
      then show ?thesis by (simp add: exec_instr_def)
    next
      case (Some vs)
      have a: "agree_off (dropped f) ((fst s)(i_result i \<mapsto> v)) (fst s')" for v
        using Cons.prems(2) d by (auto simp: agree_off_def)
      have "out_rel (\<lambda>s s'. agree_off (dropped f) (fst s) (fst s') \<and> snd s' = snd s)
          (exec_instrs rt cf is ((fst s)(i_result i \<mapsto> v), snd s)) (exec_instrs rt cf (filter (keep_instr (used_values f)) is) s')" for v
        by (rule Cons.IH) (use Cons.prems(1,3) in simp, simp only: fst_conv a, use Cons.prems(3) in simp)
      then show ?thesis
        using safe_exec[OF safe rt, of cf "i_ty i" vs "snd s"] Some False by (auto simp: exec_instr_def)
    qed
  qed
qed

lemma dead_term_exec:
  assumes "agree_off D env env'" and "set (term_uses t) \<inter> D = {}"
  shows "exec_term env' t = exec_term env t"
proof (cases t)
  case (Return r)
  then show ?thesis using assms agree_eval_op[OF assms(1)] by (cases r) (simp_all add: term_uses_def)
next
  case (Jump b xs)
  then show ?thesis using assms(2) agree_eval_ops[OF assms(1)] by (simp add: term_uses_def goto_def)
next
  case (Branch c t1 xs e ys)
  have "set (operand_values [c]) \<inter> D = {}" "set (operand_values xs) \<inter> D = {}" "set (operand_values ys) \<inter> D = {}"
    using assms(2) Branch by (auto simp: term_uses_def set_operand_values)
  then have "eval_op env' c = eval_op env c" "goto env' t1 xs = goto env t1 xs" "goto env' e ys = goto env e ys"
    using agree_eval_op[OF assms(1)] agree_eval_ops[OF assms(1)] by (simp_all add: goto_def)
  then show ?thesis using Branch by (simp split: option.split val.split bool.split)
qed simp

lemma dead_block:
  assumes rt: "pure_runtime rt" and ok: "hidden_ok f" and e: "agree_off (dropped f) env env'"
  shows "out_rel (xfer_rel (\<lambda>p q. fst q = fst p \<and> agree_off (dropped f) (snd p) (snd q)))
    (exec_block rt cf f b vs (env, w)) (exec_block rt cf (fst (remove_dead_instructions f)) b vs (env', w))"
proof (cases "bid b < length (fn_blocks f)")
  case False
  then show ?thesis by (simp add: exec_block_def get_block_def)
next
  case True
  let ?A = "agree_off (dropped f)" and ?bb = "fn_blocks f ! bid b"
  have bb: "?bb \<in> set (fn_blocks f)" using True by simp
  let ?bb' = "?bb\<lparr>bb_instrs := filter (keep_instr (used_values f)) (bb_instrs ?bb)\<rparr>"
  have g: "get_block f b = Some ?bb" "get_block (fst (remove_dead_instructions f)) b = Some ?bb'"
    using True by (simp_all add: get_block_def remove_dead_instructions_def Let_def)
  have "?A (bind_params (bb_params ?bb) vs env) (bind_params (bb_params ?bb) vs env')"
    using e by (auto simp: agree_off_def bind_params_def map_add_def split: option.split)
  then have run: "out_rel (\<lambda>s s'. ?A (fst s) (fst s') \<and> snd s' = snd s)
      (exec_instrs rt cf (bb_instrs ?bb) (bind_params (bb_params ?bb) vs env, w))
      (exec_instrs rt cf (bb_instrs ?bb') (bind_params (bb_params ?bb) vs env', w))"
    using dead_instrs_exec[OF rt ok bb, of "bb_instrs ?bb" "(bind_params (bb_params ?bb) vs env, w)"
        "(bind_params (bb_params ?bb) vs env', w)"] by simp
  have t: "exec_term e' (bb_term ?bb) = exec_term e (bb_term ?bb)" if "?A e e'" for e e'
    by (rule dead_term_exec[OF that term_not_dropped[OF bb]])
  have "out_rel (xfer_rel (\<lambda>p q. fst q = fst p \<and> ?A (snd p) (snd q))) (exec_bb rt cf ?bb vs (env, w)) (exec_bb rt cf ?bb' vs (env', w))"
    using t by (auto simp: exec_bb_def xfer_rel_def
        intro!: out_rel_bind[OF run[simplified]] out_rel_bind[OF refines_refl] split: xfer.split)
  then show ?thesis by (simp add: exec_block_def g)
qed

interpretation dead: ssa_pass "\<lambda>f. fst (remove_dead_instructions f)" hidden_ok pure_runtime
  "\<lambda>f p q. fst q = fst p \<and> agree_off (dropped f) (snd p) (snd q)"
  by unfold_locales (auto simp: remove_dead_instructions_def Let_def agree_off_def
      intro!: dead_block[unfolded remove_dead_instructions_def Let_def agree_off_def, simplified])

end
