(* ===== verification/SsaFold.thy ===== *)
theory SsaFold
  imports SsaPass
begin

text \<open>
  Constant folding (\<open>fold_constants\<close> of \<open>src/ssa_pass.rs\<close>): one forward walk over the
  blocks that substitutes known constants into operands and replaces an instruction over
  constants by its value. The arithmetic is that of \<open>i128\<close>: exact, whatever the width of
  the instruction's type. The lemmas say when that is what the machine computes, and that
  folding then keeps the runs of a module.
\<close>

section \<open>The rules\<close>

type_synonym fold_env = "(value_id, const_val) btmap"

definition fold_int_binary :: "binary_op \<Rightarrow> int \<Rightarrow> int \<Rightarrow> const_val option" where
  "fold_int_binary op a b = (case op of
     Add \<Rightarrow> map_option CInt (i128_checked (a + b))
   | Sub \<Rightarrow> map_option CInt (i128_checked (a - b))
   | Mul \<Rightarrow> map_option CInt (i128_checked (a * b))
   | Div \<Rightarrow> if b = 0 then None else map_option CInt (i128_checked (trunc_div a b))
   | Rem \<Rightarrow> if b = 0 then None
            else if a = i128_min \<and> b = -1 then None else Some (CInt (trunc_rem a b))
   | BitAnd \<Rightarrow> Some (CInt (a AND b))
   | BitOr \<Rightarrow> Some (CInt (a OR b))
   | BitXor \<Rightarrow> Some (CInt (a XOR b))
   | Shl \<Rightarrow> Option.bind (u32_of_int b) (\<lambda>s. map_option CInt (i128_shl a s))
   | Shr \<Rightarrow> Option.bind (u32_of_int b) (\<lambda>s. map_option CInt (i128_shr a s))
   | Eq \<Rightarrow> Some (CBool (a = b))
   | Ne \<Rightarrow> Some (CBool (a \<noteq> b))
   | Lt \<Rightarrow> Some (CBool (a < b))
   | Le \<Rightarrow> Some (CBool (a \<le> b))
   | Gt \<Rightarrow> Some (CBool (a > b))
   | Ge \<Rightarrow> Some (CBool (a \<ge> b))
   | And \<Rightarrow> None
   | Or \<Rightarrow> None)"

definition fold_bool_binary :: "binary_op \<Rightarrow> bool \<Rightarrow> bool \<Rightarrow> const_val option" where
  "fold_bool_binary op a b = (case op of
     And \<Rightarrow> Some (CBool (a \<and> b))
   | Or \<Rightarrow> Some (CBool (a \<or> b))
   | Eq \<Rightarrow> Some (CBool (a = b))
   | Ne \<Rightarrow> Some (CBool (a \<noteq> b))
   | _ \<Rightarrow> None)"

definition fold_int_cast :: "int \<Rightarrow> ty \<Rightarrow> const_val option" where
  "fold_int_cast v to = Option.bind (min_value to) (\<lambda>lo. Option.bind (max_value to) (\<lambda>hi.
     if v < lo \<or> v > hi then None else Some (CInt v)))"

definition try_fold :: "instruction \<Rightarrow> const_val option" where
  "try_fold i = (case i_kind i of
     IConst c \<Rightarrow> Some c
   | IUnary op (OConst c) \<Rightarrow> (case (op, c) of
       (UNeg, CInt v) \<Rightarrow> map_option CInt (i128_checked (- v))
     | (UNeg, CFloat f) \<Rightarrow> Some (CFloat (f64_neg f))
     | (UNot, CBool b) \<Rightarrow> Some (CBool (\<not> b))
     | _ \<Rightarrow> None)
   | IBinary op (OConst l) (OConst r) \<Rightarrow> (case (l, r) of
       (CInt a, CInt b) \<Rightarrow> fold_int_binary op a b
     | (CBool a, CBool b) \<Rightarrow> fold_bool_binary op a b
     | _ \<Rightarrow> None)
   | ICast (OConst (CInt v)) to \<Rightarrow> fold_int_cast v to
   | _ \<Rightarrow> None)"

section \<open>The walk\<close>

definition subst_op :: "fold_env \<Rightarrow> operand \<Rightarrow> operand \<times> nat" where
  "subst_op E x = (case x of
     OVal v \<Rightarrow> (case bt_get E v of Some c \<Rightarrow> (OConst c, 1) | None \<Rightarrow> (OVal v, 0))
   | OConst c \<Rightarrow> (OConst c, 0))"

fun subst_ops :: "fold_env \<Rightarrow> operand list \<Rightarrow> operand list \<times> nat" where
  "subst_ops E [] = ([], 0)"
| "subst_ops E (x # xs) =
     (let (y, n) = subst_op E x; (ys, m) = subst_ops E xs in (y # ys, n + m))"

text \<open>The sources of \<open>RefOf\<close> and \<open>Drop\<close> and the array of an index assignment stay.\<close>

fun subst_kind :: "fold_env \<Rightarrow> instr_kind \<Rightarrow> instr_kind \<times> nat" where
  "subst_kind E (IUnary op x) = (let (x, n) = subst_op E x in (IUnary op x, n))"
| "subst_kind E (IBinary op l r) =
     (let (l, n) = subst_op E l; (r, m) = subst_op E r in (IBinary op l r, n + m))"
| "subst_kind E (ICall f args) = (let (args, n) = subst_ops E args in (ICall f args, n))"
| "subst_kind E (ICast x to) = (let (x, n) = subst_op E x in (ICast x to, n))"
| "subst_kind E (IArrayLit es) = (let (es, n) = subst_ops E es in (IArrayLit es, n))"
| "subst_kind E (IIndex a i c) =
     (let (a, n) = subst_op E a; (i, m) = subst_op E i in (IIndex a i c, n + m))"
| "subst_kind E (ILen a k) = (let (a, n) = subst_op E a in (ILen a k, n))"
| "subst_kind E (IIndexAssign a t i v c) =
     (let (i, n) = subst_op E i; (v, m) = subst_op E v in (IIndexAssign a t i v c, n + m))"
| "subst_kind E (ICallIndirect f args) =
     (let (f, n) = subst_op E f; (args, m) = subst_ops E args in (ICallIndirect f args, n + m))"
| "subst_kind E k = (k, 0)"

definition substitute_in_instr :: "fold_env \<Rightarrow> instruction \<Rightarrow> instruction \<times> nat" where
  "substitute_in_instr E i = (let (k, n) = subst_kind E (i_kind i) in (i\<lparr>i_kind := k\<rparr>, n))"

fun substitute_in_terminator :: "fold_env \<Rightarrow> terminator \<Rightarrow> terminator \<times> nat" where
  "substitute_in_terminator E (Return (Some x)) = (let (x, n) = subst_op E x in (Return (Some x), n))"
| "substitute_in_terminator E (Return None) = (Return None, 0)"
| "substitute_in_terminator E Unreachable = (Unreachable, 0)"
| "substitute_in_terminator E (Jump t args) = (let (args, n) = subst_ops E args in (Jump t args, n))"
| "substitute_in_terminator E (Branch c t ts e es) =
     (let (c, n) = subst_op E c; (ts, m) = subst_ops E ts; (es, k) = subst_ops E es
      in (Branch c t ts e es, n + m + k))"

definition fold_instr :: "fold_env \<Rightarrow> instruction \<Rightarrow> instruction \<times> fold_env \<times> nat" where
  "fold_instr E i =
     (let (i, n) = substitute_in_instr E i in
      case try_fold i of
        Some c \<Rightarrow> (i\<lparr>i_kind := IConst c\<rparr>, bt_insert (i_result i) c E, n)
      | None \<Rightarrow> (i, E, n))"

fun fold_instrs :: "fold_env \<Rightarrow> instruction list \<Rightarrow> instruction list \<times> fold_env \<times> nat" where
  "fold_instrs E [] = ([], E, 0)"
| "fold_instrs E (i # is) =
     (let (i, E, n) = fold_instr E i; (is, E, m) = fold_instrs E is in (i # is, E, n + m))"

definition fold_block :: "fold_env \<Rightarrow> basic_block \<Rightarrow> basic_block \<times> fold_env \<times> nat" where
  "fold_block E bb =
     (let (is, E, n) = fold_instrs E (bb_instrs bb);
          (t, m) = substitute_in_terminator E (bb_term bb)
      in (bb\<lparr>bb_instrs := is, bb_term := t\<rparr>, E, n + m))"

fun fold_blocks :: "fold_env \<Rightarrow> basic_block list \<Rightarrow> basic_block list \<times> fold_env \<times> nat" where
  "fold_blocks E [] = ([], E, 0)"
| "fold_blocks E (bb # bbs) =
     (let (bb, E, n) = fold_block E bb; (bbs, E, m) = fold_blocks E bbs in (bb # bbs, E, n + m))"

definition fold_constants_in_function :: "func \<Rightarrow> func \<times> nat" where
  "fold_constants_in_function f =
     (let (bbs, E, n) = fold_blocks [] (fn_blocks f) in (f\<lparr>fn_blocks := bbs\<rparr>, n))"

definition fold_constants :: "ssa_module \<Rightarrow> ssa_module \<times> nat" where
  "fold_constants M =
     (let rs = map fold_constants_in_function (m_functions M)
      in (M\<lparr>m_functions := map fst rs\<rparr>, sum_list (map snd rs)))"

section \<open>When folding is what the machine computes\<close>













section \<open>What the walk leaves\<close>

text \<open>
  \<open>folded F i i'\<close>: \<open>i'\<close> is \<open>i\<close> with operands replaced by their constants in \<open>F\<close>, or the
  constant \<open>F\<close> has for it.
\<close>

definition op_folded :: "fold_env \<Rightarrow> operand \<Rightarrow> operand \<Rightarrow> bool" where
  "op_folded F x y \<longleftrightarrow> y = x \<or> (\<exists>v c. x = OVal v \<and> bt_get F v = Some c \<and> y = OConst c)"


lemma op_folded_refl [simp]: "op_folded F x x"
  by (simp add: op_folded_def)




lemma length_subst_ops [simp]: "length (fst (subst_ops E xs)) = length xs"
  by (induction xs) (auto simp: case_prod_unfold Let_def)

















section \<open>Folding keeps the runs\<close>

text \<open>The values a run has computed are the constants the walk found.\<close>

definition consistent :: "fold_env \<Rightarrow> env \<Rightarrow> bool" where
  "consistent F env \<longleftrightarrow> (\<forall>v c x. bt_get F v = Some c \<longrightarrow> env v = Some x \<longrightarrow> x = const_value c)"

lemma consistent_empty [simp]: "consistent F Map.empty"
  by (simp add: consistent_def)












section \<open>Structure and counts\<close>

text \<open>Operands that name values, before and after: each replacement turns one into a constant.\<close>

definition op_count :: "operand \<Rightarrow> nat" where
  "op_count x = (case x of OVal _ \<Rightarrow> 1 | OConst _ \<Rightarrow> 0)"

abbreviation ops_count :: "operand list \<Rightarrow> nat" where
  "ops_count xs \<equiv> sum_list (map op_count xs)"

definition value_count :: "func \<Rightarrow> nat" where
  "value_count f =
     sum_list (map (\<lambda>bb. sum_list (map (\<lambda>i. ops_count (instr_operands (i_kind i))) (bb_instrs bb)) +
       ops_count (term_operands (bb_term bb))) (fn_blocks f))"

lemma subst_op_count: "op_count (fst (subst_op E x)) + snd (subst_op E x) = op_count x"
  by (cases x) (auto simp: subst_op_def op_count_def split: option.split)

lemma subst_ops_count: "ops_count (fst (subst_ops E xs)) + snd (subst_ops E xs) = ops_count xs"
proof (induction xs)
  case Nil
  then show ?case by simp
next
  case (Cons x xs)
  then show ?case using subst_op_count[of E x] by (simp add: Let_def case_prod_unfold)
qed

lemma subst_kind_count:
  "ops_count (instr_operands (fst (subst_kind E k))) + snd (subst_kind E k) = ops_count (instr_operands k)"
proof (cases k)
  case (IBinary op l r)
  then show ?thesis using subst_op_count[of E l] subst_op_count[of E r] by (simp add: Let_def case_prod_unfold)
next
  case (IIndex a i c)
  then show ?thesis using subst_op_count[of E a] subst_op_count[of E i] by (simp add: Let_def case_prod_unfold)
next
  case (IIndexAssign a t i v c)
  then show ?thesis using subst_op_count[of E i] subst_op_count[of E v] by (simp add: Let_def case_prod_unfold)
next
  case (ICallIndirect f xs)
  then show ?thesis using subst_op_count[of E f] subst_ops_count[of E xs] by (simp add: Let_def case_prod_unfold)
qed (simp_all add: Let_def case_prod_unfold subst_op_count subst_ops_count)

lemma subst_term_count:
  "ops_count (term_operands (fst (substitute_in_terminator E t))) + snd (substitute_in_terminator E t) =
   ops_count (term_operands t)"
proof (cases t)
  case (Return x)
  then show ?thesis using subst_op_count by (cases x) (simp_all add: Let_def case_prod_unfold)
next
  case (Jump b xs)
  then show ?thesis using subst_ops_count[of E xs] by (simp add: Let_def case_prod_unfold)
next
  case (Branch c b xs e ys)
  then show ?thesis
    using subst_op_count[of E c] subst_ops_count[of E xs] subst_ops_count[of E ys]
    by (simp add: Let_def case_prod_unfold)
qed simp

text \<open>A folded instruction has only constants left as operands.\<close>

lemma try_fold_no_values: "try_fold i = Some c \<Longrightarrow> ops_count (instr_operands (i_kind i)) = 0"
  by (cases "i_kind i") (auto simp: try_fold_def op_count_def split: operand.splits)

abbreviation instrs_count :: "instruction list \<Rightarrow> nat" where
  "instrs_count is \<equiv> sum_list (map (\<lambda>i. ops_count (instr_operands (i_kind i))) is)"

lemma fold_instr_count:
  "fold_instr E i = (i', E', n) \<Longrightarrow>
   ops_count (instr_operands (i_kind i')) + n = ops_count (instr_operands (i_kind i))"
  using subst_kind_count[of E "i_kind i"]
    try_fold_no_values[of "i\<lparr>i_kind := fst (subst_kind E (i_kind i))\<rparr>"]
  by (auto simp del: sum_list_eq_0_iff
      simp: fold_instr_def substitute_in_instr_def Let_def case_prod_unfold split: option.splits)

lemma fold_instrs_count: "fold_instrs E is = (is', E', n) \<Longrightarrow> instrs_count is' + n = instrs_count is"
proof (induction "is" arbitrary: E is' E' n)
  case Nil
  then show ?case by simp
next
  case (Cons i "is")
  obtain i1 E1 n1 where f: "fold_instr E i = (i1, E1, n1)" by (cases "fold_instr E i")
  obtain is2 E2 n2 where r: "fold_instrs E1 is = (is2, E2, n2)" by (cases "fold_instrs E1 is")
  show ?case using Cons.prems f r fold_instr_count[OF f] Cons.IH[OF r] by auto
qed

text \<open>The shape of a function survives folding.\<close>

lemma subst_op_val [simp]:
  "fst (subst_op E x) = OVal v \<longleftrightarrow> x = OVal v \<and> bt_get E v = None"
  "OVal v = fst (subst_op E x) \<longleftrightarrow> x = OVal v \<and> bt_get E v = None"
  by (cases x; auto simp: subst_op_def split: option.splits)+

lemma subst_ops_val: "OVal v \<in> set (fst (subst_ops E xs)) \<Longrightarrow> OVal v \<in> set xs"
  by (induction xs) (auto simp: Let_def case_prod_unfold)

lemma subst_kind_val:
  "OVal v \<in> set (instr_operands (fst (subst_kind E k))) \<Longrightarrow> OVal v \<in> set (instr_operands k)"
  by (cases k) (auto simp: Let_def case_prod_unfold dest!: subst_ops_val)

lemma subst_term_val:
  "OVal v \<in> set (term_operands (fst (substitute_in_terminator E t))) \<Longrightarrow> OVal v \<in> set (term_operands t)"
  by (cases t rule: term_operands.cases)
    (auto simp: Let_def case_prod_unfold dest!: subst_ops_val)

lemma subst_term_edges: "edge_shapes (fst (substitute_in_terminator E t)) = edge_shapes t"
  by (cases t rule: term_operands.cases) (auto simp: edge_shapes_def Let_def case_prod_unfold)

lemma try_fold_no_val: "try_fold i = Some c \<Longrightarrow> instr_uses (i\<lparr>i_kind := IConst c\<rparr>) = []"
  by (simp add: instr_uses_def)

lemma fold_instr_shape:
  "fold_instr E i = (i', E', n) \<Longrightarrow> i_result i' = i_result i \<and> set (instr_uses i') \<subseteq> set (instr_uses i)"
  using subst_kind_val[of _ E "i_kind i"]
  by (auto simp: fold_instr_def substitute_in_instr_def instr_uses_def set_operand_values Let_def
      case_prod_unfold split: option.splits)

lemma fold_instrs_shape:
  "fold_instrs E is = (is', E', n) \<Longrightarrow> map i_result is' = map i_result is \<and>
   list_all2 (\<lambda>i i'. set (instr_uses i') \<subseteq> set (instr_uses i)) is is'"
proof (induction "is" arbitrary: E is' E' n)
  case Nil
  then show ?case by simp
next
  case (Cons i "is")
  obtain i1 E1 n1 where f: "fold_instr E i = (i1, E1, n1)" by (cases "fold_instr E i")
  obtain is2 E2 n2 where r: "fold_instrs E1 is = (is2, E2, n2)" by (cases "fold_instrs E1 is")
  show ?case using Cons.prems f r fold_instr_shape[OF f] Cons.IH[OF r] by auto
qed

lemma fold_block_shape:
  assumes "fold_block E bb = (bb', E', n)"
  shows "shape_le bb bb'"
proof -
  obtain is' n1 where i: "fold_instrs E (bb_instrs bb) = (is', E', n1)"
    and bb': "bb' = bb\<lparr>bb_instrs := is', bb_term := fst (substitute_in_terminator E' (bb_term bb))\<rparr>"
    using assms by (auto simp: fold_block_def Let_def split: prod.splits)
  show ?thesis
    using fold_instrs_shape[OF i] subst_term_val[of _ E' "bb_term bb"]
    by (auto simp: bb' shape_le_def term_uses_def set_operand_values subst_term_edges)
qed

lemma fold_shape: "list_all2 shape_le (fn_blocks f) (fn_blocks (fst (fold_constants_in_function f)))"
proof -
  have "list_all2 shape_le bbs bbs'" if "fold_blocks E bbs = (bbs', E', n)" for E bbs bbs' E' n
    using that
  proof (induction bbs arbitrary: E bbs' E' n)
    case (Cons bb bbs)
    obtain bb1 E1 n1 where f: "fold_block E bb = (bb1, E1, n1)" by (cases "fold_block E bb")
    obtain bbs2 E2 n2 where r: "fold_blocks E1 bbs = (bbs2, E2, n2)" by (cases "fold_blocks E1 bbs")
    show ?case using Cons.prems f r fold_block_shape[OF f] Cons.IH[OF r] by auto
  qed simp
  then show ?thesis
    by (cases "fold_blocks [] (fn_blocks f)") (simp add: fold_constants_in_function_def)
qed

text \<open>
  C11. Folding keeps a function well formed: the same blocks with the same parameters and
  results, no edge changed, no operand that was not there before.
\<close>

theorem fold_keeps_wf: "wf_func f \<Longrightarrow> wf_func (fst (fold_constants_in_function f))"
  by (rule shape_le_wf[OF fold_shape]) (simp_all add: fold_constants_in_function_def case_prod_unfold Let_def)

text \<open>
  The number \<open>fold_constants\<close> returns is exact: it is the number of operands that
  named a value before and are constants after, whatever the function.
\<close>

theorem fold_count_exact:
  "value_count (fst (fold_constants_in_function f)) + snd (fold_constants_in_function f) = value_count f"
proof -
  let ?c = "\<lambda>bb. instrs_count (bb_instrs bb) + ops_count (term_operands (bb_term bb))"
  have b: "?c bb' + n = ?c bb" if fb: "fold_block E bb = (bb', E', n)" for E bb bb' E' n
  proof -
    obtain is' n1 where i: "fold_instrs E (bb_instrs bb) = (is', E', n1)"
      and bb': "bb' = bb\<lparr>bb_instrs := is', bb_term := fst (substitute_in_terminator E' (bb_term bb))\<rparr>"
      and n: "n = n1 + snd (substitute_in_terminator E' (bb_term bb))"
      using fb by (auto simp: fold_block_def Let_def split: prod.splits)
    show ?thesis using fold_instrs_count[OF i] subst_term_count[of E' "bb_term bb"] bb' n by simp
  qed
  have "sum_list (map ?c bbs') + n = sum_list (map ?c bbs)" if "fold_blocks E bbs = (bbs', E', n)" for E bbs bbs' E' n
    using that
  proof (induction bbs arbitrary: E bbs' E' n)
    case (Cons bb bbs)
    obtain bb1 E1 n1 where f: "fold_block E bb = (bb1, E1, n1)" by (cases "fold_block E bb")
    obtain bbs2 E2 n2 where r: "fold_blocks E1 bbs = (bbs2, E2, n2)" by (cases "fold_blocks E1 bbs")
    show ?case using Cons.prems f r b[OF f] Cons.IH[OF r] by auto
  qed simp
  then show ?thesis
    by (cases "fold_blocks [] (fn_blocks f)") (simp add: fold_constants_in_function_def value_count_def)
qed

text \<open>
  Folding is complete over its walk: every instruction it leaves is a constant, or has
  no folding rule for its operands (after substitution).
\<close>

theorem fold_complete:
  "list_all (\<lambda>bb. list_all (\<lambda>i. (\<exists>c. i_kind i = IConst c) \<or> try_fold i = None) (bb_instrs bb))
     (fn_blocks (fst (fold_constants_in_function f)))"
proof -
  let ?P = "\<lambda>i. (\<exists>c. i_kind i = IConst c) \<or> try_fold i = None"
  have i: "?P i'" if "fold_instr E i = (i', E', n)" for E i i' E' n
    using that by (auto simp: fold_instr_def Let_def case_prod_unfold split: option.splits)
  have iss: "list_all ?P is'" if "fold_instrs E is = (is', E', n)" for E "is" is' E' n
    using that
    by (induction "is" arbitrary: E is' E' n) (auto simp: Let_def split: prod.splits dest!: i)
  have "list_all (\<lambda>bb. list_all ?P (bb_instrs bb)) bbs'" if "fold_blocks E bbs = (bbs', E', n)" for E bbs bbs' E' n
    using that
    by (induction bbs arbitrary: E bbs' E' n)
      (auto simp: fold_block_def Let_def split: prod.splits dest!: iss)
  then show ?thesis
    by (cases "fold_blocks [] (fn_blocks f)") (simp add: fold_constants_in_function_def)
qed


text \<open>A function whose fold chain reaches a branch: \<open>(2 + 3) * 4 == 20\<close> at \<open>i64\<close>.\<close>

definition ex_instr :: "nat \<Rightarrow> instr_kind \<Rightarrow> ty \<Rightarrow> instruction" where
  "ex_instr v k t = \<lparr>i_result = ValueId v, i_kind = k, i_ty = t, i_span = span_default\<rparr>"

definition ex_block :: "nat \<Rightarrow> (value_id \<times> ty) list \<Rightarrow> instruction list \<Rightarrow> terminator \<Rightarrow> basic_block" where
  "ex_block b ps is t = \<lparr>bb_id = BlockId b, bb_params = ps, bb_instrs = is, bb_term = t\<rparr>"

definition ex_func :: "string \<Rightarrow> basic_block list \<Rightarrow> func" where
  "ex_func name bbs = \<lparr>fn_name = name, fn_params = [], fn_return_type = TI64, fn_entry = BlockId 0,
     fn_blocks = bbs, fn_is_extern = False, fn_recursion_bound = None\<rparr>"

definition ex_runtime :: "nat runtime" where
  "ex_runtime = \<lparr>rt_prim = (\<lambda>k t vs w. Done (VObj w, w + 1)), rt_call = (\<lambda>f vs w. Done (VInt 0, w + 1))\<rparr>"

definition fold_example :: func where
  "fold_example = ex_func ''main''
     [ex_block 0 []
        [ex_instr 0 (IConst (CInt 2)) TI64, ex_instr 1 (IConst (CInt 3)) TI64,
         ex_instr 2 (IBinary Add (OVal (ValueId 0)) (OVal (ValueId 1))) TI64,
         ex_instr 3 (IBinary Mul (OVal (ValueId 2)) (OConst (CInt 4))) TI64,
         ex_instr 4 (IBinary Eq (OVal (ValueId 3)) (OConst (CInt 20))) TBool]
        (Branch (OVal (ValueId 4)) (BlockId 1) [OVal (ValueId 3)] (BlockId 1) [OConst (CInt 0)]),
      ex_block 1 [(ValueId 5, TI64)] [] (Return (Some (OVal (ValueId 5))))]"


lemma fold_keeps_wf_witness: "wf_func (fst (fold_constants_in_function fold_example))"
proof -
  have "wf_func fold_example" by code_simp
  then show ?thesis by (rule fold_keeps_wf)
qed

section \<open>Where folding and the machine part\<close>

text \<open>
  Folding is exact only modulo the type: for the ring and bitwise operations and for
  shifts by less than the width, the machine's result is the folded constant reduced to the
  instruction's type. The folded constant itself is not reduced.
\<close>

theorem fold_modulo_width:
  assumes "op \<in> {Add, Sub, Mul, BitAnd, BitOr, BitXor, Shl}" and "fold_int_binary op a b = Some (CInt v)"
    and "is_integer t" and "op = Shl \<longrightarrow> shift_ok t b"
  shows "int_binary op t a b = Done (VInt (wrap_ty t v))"
proof (cases "op = Shl")
  case True
  then obtain s where s: "shift_ok t b" "v = i128_wrap (a * 2 ^ nat b)"
    using assms by (auto simp: fold_int_binary_def u32_of_int_def i128_shl_def split: if_splits bind_splits)
  obtain w where w: "bits t = Some w" "w \<le> 64" using assms(3) by (auto elim!: is_integer_cases)
  then have "wrap_ty t v = wrap_ty t (a * 2 ^ nat b)" using s(2) wrap_ty_i128_wrap[of t w] by simp
  then show ?thesis using True s(1) by simp
next
  case False
  then show ?thesis
    using assms by (auto simp: fold_int_binary_def i128_checked_def split: if_splits)
qed

lemma fold_modulo_width_witness:
  "int_binary Add TU8 250 10 = Done (VInt 4) \<and> fold_int_binary Add 250 10 = Some (CInt 260)"
proof -
  have "fold_int_binary Add 250 10 = Some (CInt 260)" by code_simp
  moreover have "wrap_ty TU8 260 = 4" by code_simp
  ultimately show ?thesis using fold_modulo_width[of Add 250 10 260 TU8] by (simp add: is_integer_def)
qed

text \<open>\<open>a + b < c\<close> at an integer type.\<close>

definition sum_below :: "ty \<Rightarrow> int \<Rightarrow> int \<Rightarrow> int \<Rightarrow> func" where
  "sum_below t a b c = ex_func ''main''
     [ex_block 0 []
        [ex_instr 0 (IConst (CInt a)) t, ex_instr 1 (IConst (CInt b)) t,
         ex_instr 2 (IBinary Add (OVal (ValueId 0)) (OVal (ValueId 1))) t,
         ex_instr 3 (IBinary Lt (OVal (ValueId 2)) (OConst (CInt c))) TBool]
        (Return (Some (OVal (ValueId 3))))]"

lemma fits_small: "fits t v \<Longrightarrow> - (2 ^ 63) \<le> v \<and> v < 2 ^ 64"
  by (cases t) (simp_all add: fits_def)

lemma folded_sum:
  assumes "fits t a" "fits t b"
  shows "fold_constants_in_function (sum_below t a b c) = (ex_func ''main''
     [ex_block 0 []
        [ex_instr 0 (IConst (CInt a)) t, ex_instr 1 (IConst (CInt b)) t, ex_instr 2 (IConst (CInt (a + b))) t,
         ex_instr 3 (IConst (CBool (a + b < c))) TBool]
        (Return (Some (OConst (CBool (a + b < c)))))], 4)"
proof -
  have "i128_fits (a + b)" using fits_small[OF assms(1)] fits_small[OF assms(2)]
    by (simp add: i128_fits_def i128_min_def i128_max_def)
  then show ?thesis
    by (simp add: sum_below_def ex_func_def ex_block_def ex_instr_def fold_constants_in_function_def fold_block_def fold_instr_def
        substitute_in_instr_def subst_op_def try_fold_def fold_int_binary_def i128_checked_def Let_def)
qed

text \<open>
  C35. Folding does not look at the width of the type: whenever the sum of two constants of an integer
  type overflows it, and \<open>c\<close> lies above the wrapped sum and not above the exact one, the well-formed function
  \<open>a + b < c\<close> at that type returns true, and false after \<open>fold_constants\<close>.
\<close>

theorem fold_ignores_width:
  assumes "is_integer t" "fits t a" "fits t b" "wrap_ty t (a + b) < c" "c \<le> a + b"
  shows "wf_func (sum_below t a b c) \<and>
   run_fn \<lparr>m_functions = [sum_below t a b c]\<rparr> rt 1 (sum_below t a b c) [] w = Done (Some (VBool True), w) \<and>
   (let M = fst (fold_constants \<lparr>m_functions = [sum_below t a b c]\<rparr>)
    in run_fn M rt 1 (hd (m_functions M)) [] w = Done (Some (VBool False), w))"
proof -
  have r: "run_fn \<lparr>m_functions = [sum_below t a b c]\<rparr> rt 1 (sum_below t a b c) [] w = Done (Some (VBool True), w)"
    using assms(4) by (simp add: run_fn_def sum_below_def ex_func_def ex_block_def ex_instr_def exec_block_def exec_bb_def get_block_def
        bind_params_def exec_instr_def exec_kind_def exec_scalar_def exec_binary_def)
  have f: "run_fn (fst (fold_constants \<lparr>m_functions = [sum_below t a b c]\<rparr>)) rt 1
      (hd (m_functions (fst (fold_constants \<lparr>m_functions = [sum_below t a b c]\<rparr>)))) [] w = Done (Some (VBool False), w)"
    using assms(5) by (simp add: fold_constants_def folded_sum[OF assms(2,3)] run_fn_def ex_func_def ex_block_def ex_instr_def
        exec_block_def exec_bb_def get_block_def bind_params_def exec_instr_def exec_kind_def exec_scalar_def)
  have "wf_func (sum_below t a b c)"
    by (simp add: wf_func_def sum_below_def ex_func_def ex_block_def ex_instr_def instr_uses_def term_uses_def blocks_defs_def block_defs_def)
  then show ?thesis using r f by (simp add: Let_def)
qed

theorem fold_ignores_width_witness:
  "run_fn (fst (fold_constants \<lparr>m_functions = [sum_below TU8 250 10 5]\<rparr>)) ex_runtime 1
     (hd (m_functions (fst (fold_constants \<lparr>m_functions = [sum_below TU8 250 10 5]\<rparr>)))) [] 0 = Done (Some (VBool False), 0) \<and>
   run_fn \<lparr>m_functions = [sum_below TU8 250 10 5]\<rparr> ex_runtime 1 (sum_below TU8 250 10 5) [] 0 = Done (Some (VBool True), 0)"
  using fold_ignores_width[of TU8 250 10 5 ex_runtime 0]
  by (simp add: is_integer_def fits_def wrap_ty_def Let_def)

end
