(* ===== verification/SsaDceLoop.thy ===== *)
theory SsaDceLoop
  imports SsaDce SsaFold
begin

text \<open>
  The loop of \<open>dce_module\<close> (\<open>src/ssa_pass.rs\<close>): it returns, at a function none of its three
  steps changes, and the module it returns runs like the one it was given. The last section
  runs it on a function where a value is used only through a reference.
\<close>

section \<open>The loop\<close>

lemma dce_function_step:
  "dce_round f = Some (f', n1, n2, n3) \<Longrightarrow> dce_function f s =
    (if n1 = 0 \<and> n2 = 0 \<and> n3 = 0 then Some (f', add_stats n1 n2 n3 s) else dce_function f' (add_stats n1 n2 n3 s))"
  by (subst dce_function.simps) simp

definition dce_stable :: "func \<Rightarrow> bool" where
  "dce_stable f \<longleftrightarrow> dce_round f = Some (f, 0, 0, 0)"

lemma dce_stable_function: "dce_stable f \<Longrightarrow> dce_function f s = Some (f, add_stats 0 0 0 s)"
  by (simp add: dce_stable_def dce_function_step)

lemma simulates_weaken: "simulates (\<lambda>rt :: 'w runtime. True) f f' \<Longrightarrow> simulates (ok :: 'w runtime \<Rightarrow> bool) f f'"
proof -
  have "sims (\<lambda>rt :: 'w runtime. True) R f f' \<Longrightarrow> sims ok R f f'" for R by (simp add: sims_def)
  then show "simulates (\<lambda>rt :: 'w runtime. True) f f' \<Longrightarrow> simulates ok f f'" unfolding simulates_def by blast
qed

lemma dce_round_simulates:
  assumes w: "wf_cfg f" and h: "hidden_ok f" and d: "dce_round f = Some (f', ns)"
  shows "simulates (pure_runtime :: 'w runtime \<Rightarrow> bool) f f' \<and> hidden_ok f'"
proof -
  obtain f1 f2 g n1 n2 n3 m where r: "dce_round f = Some (g, n1, n2, n3)" "thread_branches f = (f1, n1)"
    "remove_unreachable_blocks f1 = Some (f2, n2)" "renumbers m f1 f2" "remove_dead_instructions f2 = (g, n3)"
    "wf_cfg f1" "wf_cfg f2" "wf_cfg g" "weight g + (n1 + n2 + n3) \<le> weight f"
    "n1 = 0 \<and> n2 = 0 \<and> n3 = 0 \<longrightarrow> f1 = f \<and> f2 = f \<and> g = f"
    by (rule dce_round_spec[OF w])
  have g: "g = f'" using d r(1) by simp
  have i: "set (all_instrs f1) \<subseteq> set (all_instrs f)" "set (all_instrs f2) \<subseteq> set (all_instrs f1)"
    "set (all_instrs f') \<subseteq> set (all_instrs f2)"
    using thread_instrs[of f] r(2) renumbers_instrs[OF r(4)] dead_instrs[of f2] r(5) g by auto
  have h2: "hidden_ok f2" using hidden_ok_mono[of f2 f] i h by blast
  have u: "unreachable_pass f1 = f2" using r(3) by (simp add: unreachable_pass_def)
  have s1: "simulates (\<lambda>rt :: 'w runtime. True) f f1" using threading.simulated[of f] r(2) by simp
  have s2: "simulates (\<lambda>rt :: 'w runtime. True) f1 f2" using unreachable.simulated[OF r(6)] unfolding u .
  have s3: "simulates (pure_runtime :: 'w runtime \<Rightarrow> bool) f2 f'" using dead.simulated[OF h2] r(5) g by simp
  have "simulates (pure_runtime :: 'w runtime \<Rightarrow> bool) f f'"
    by (rule simulates_trans[OF simulates_weaken[OF s1] simulates_trans[OF simulates_weaken[OF s2] s3]])
  moreover have "hidden_ok f'" using hidden_ok_mono[OF i(3) h2] .
  ultimately show ?thesis ..
qed

text \<open>Everything the loop promises, by induction on the weight of the function.\<close>

definition dce_gives :: "func \<Rightarrow> func \<Rightarrow> nat \<Rightarrow> bool" where
  "dce_gives f f' k \<longleftrightarrow> wf_cfg f' \<and> dce_stable f' \<and> k \<le> weight f + 1 \<and>
     (\<forall>s. \<exists>s'. dce_function f s = Some (f', s') \<and> iterations s' = iterations s + k \<and>
        blocks_removed s' + length (fn_blocks f') = blocks_removed s + length (fn_blocks f))"

lemma dce_function_gives: "wf_cfg f \<Longrightarrow> \<exists>f' k. dce_gives f f' k"
proof (induction "weight f" arbitrary: f rule: less_induct)
  case (less f)
  obtain f1 f2 g n1 n2 n3 m where r: "dce_round f = Some (g, n1, n2, n3)" "wf_cfg g"
    "weight g + (n1 + n2 + n3) \<le> weight f" "n1 = 0 \<and> n2 = 0 \<and> n3 = 0 \<longrightarrow> f1 = f \<and> f2 = f \<and> g = f"
    "thread_branches f = (f1, n1)" "remove_unreachable_blocks f1 = Some (f2, n2)" "wf_cfg f1" "remove_dead_instructions f2 = (g, n3)"
    by (rule dce_round_spec[OF less.prems])
  have blocks: "n2 + length (fn_blocks g) = length (fn_blocks f)"
  proof -
    have "length (fn_blocks f1) = length (fn_blocks f)" "length (fn_blocks g) = length (fn_blocks f2)"
      using r(5,8) by (auto simp: thread_branches_def remove_dead_instructions_def Let_def)
    moreover have "n2 + length (fn_blocks f2) = length (fn_blocks f1)"
      by (rule remove_unreachable_spec[OF r(7)]) (use r(6) in simp)
    ultimately show ?thesis by simp
  qed
  show ?case
  proof (cases "n1 = 0 \<and> n2 = 0 \<and> n3 = 0")
    case True
    then have "dce_gives f f 1"
      using r(1,4) less.prems by (simp add: dce_gives_def dce_stable_def dce_function_step add_stats_def)
    then show ?thesis by blast
  next
    case False
    then have lt: "weight g < weight f" using r(3) by linarith
    from less.hyps[OF lt r(2)] obtain f' k where g: "dce_gives g f' k" by blast
    have "\<exists>s'. dce_function f s = Some (f', s') \<and> iterations s' = iterations s + (k + 1) \<and>
        blocks_removed s' + length (fn_blocks f') = blocks_removed s + length (fn_blocks f)" for s
    proof -
      obtain s' where "dce_function g (add_stats n1 n2 n3 s) = Some (f', s')"
        "iterations s' = iterations (add_stats n1 n2 n3 s) + k"
        "blocks_removed s' + length (fn_blocks f') = blocks_removed (add_stats n1 n2 n3 s) + length (fn_blocks g)"
        using g unfolding dce_gives_def by blast
      then show ?thesis using False dce_function_step[OF r(1)] blocks by (auto simp: add_stats_def)
    qed
    then have "dce_gives f f' (k + 1)" using g lt by (auto simp: dce_gives_def)
    then show ?thesis by blast
  qed
qed

lemma dce_function_simulates:
  "dce_function f s = Some (f', s') \<Longrightarrow> wf_cfg f \<Longrightarrow> hidden_ok f \<Longrightarrow> simulates (pure_runtime :: 'w runtime \<Rightarrow> bool) f f'"
proof (induction "weight f" arbitrary: f s rule: less_induct)
  case (less f)
  obtain g n1 n2 n3 where r: "dce_round f = Some (g, n1, n2, n3)" "wf_cfg g" "weight g + (n1 + n2 + n3) \<le> weight f"
    by (rule dce_round_spec[OF less.prems(2)])
  note sim = dce_round_simulates[OF less.prems(2,3) r(1), where 'w = 'w]
  show ?case
  proof (cases "n1 = 0 \<and> n2 = 0 \<and> n3 = 0")
    case True
    then show ?thesis using less.prems(1) sim by (simp add: dce_function_step[OF r(1)])
  next
    case False
    then have d: "dce_function g (add_stats n1 n2 n3 s) = Some (f', s')" and lt: "weight g < weight f"
      using less.prems(1) r(3) by (auto simp: dce_function_step[OF r(1)])
    show ?thesis
      using less.hyps[OF lt d r(2)] sim by (blast intro: simulates_trans)
  qed
qed

lemma dce_round_header: "dce_round f = Some (g, ns) \<Longrightarrow> fn_name g = fn_name f \<and> fn_is_extern g = fn_is_extern f"
  using unreachable_name[of "fst (thread_branches f)"]
  by (auto simp: dce_round_def thread_branches_def remove_dead_instructions_def unreachable_pass_def Let_def split: bind_splits)

lemma dce_function_header:
  assumes "dce_function f s = Some r"
  shows "fn_name (fst r) = fn_name f \<and> fn_is_extern (fst r) = fn_is_extern f"
proof (rule dce_function.raw_induct[OF _ assms], goal_cases)
  case (1 loop f s r)
  from 1(2) obtain g n1 n2 n3 where g: "dce_round f = Some (g, n1, n2, n3)"
    and r: "(if n1 = 0 \<and> n2 = 0 \<and> n3 = 0 then Some (g, add_stats n1 n2 n3 s) else loop g (add_stats n1 n2 n3 s)) = Some r"
    by (auto split: bind_splits)
  show ?case
  proof (cases "n1 = 0 \<and> n2 = 0 \<and> n3 = 0")
    case True
    then show ?thesis using r dce_round_header[OF g] by auto
  next
    case False
    have "loop g (add_stats n1 n2 n3 s) = Some r" using r unfolding if_not_P[OF False] .
    then show ?thesis using dce_round_header[OF g] 1(1)[of g "add_stats n1 n2 n3 s" r] by simp
  qed
qed

section \<open>The whole module\<close>

definition dce_pass :: "func \<Rightarrow> func" where
  "dce_pass f = (case dce_function f stats_default of Some (f', _) \<Rightarrow> f' | None \<Rightarrow> f)"

interpretation dce: ssa_pass dce_pass "\<lambda>f. wf_cfg f \<and> hidden_ok f"
  "pure_runtime :: 'w runtime \<Rightarrow> bool" "some_sim (pure_runtime :: 'w runtime \<Rightarrow> bool) dce_pass"
proof (rule ssa_passI)
  show "fn_name (dce_pass f) = fn_name f" "fn_is_extern (dce_pass f) = fn_is_extern f" for f
    by (auto simp: dce_pass_def split: option.split dest: dce_function_header)
  show "simulates (pure_runtime :: 'w runtime \<Rightarrow> bool) f (dce_pass f)" if "wf_cfg f \<and> hidden_ok f" for f
    using that by (auto simp: dce_pass_def split: option.split intro: dce_function_simulates)
qed

lemma dce_function_pass: "wf_cfg f \<Longrightarrow> \<exists>s'. dce_function f s = Some (dce_pass f, s')"
proof -
  assume "wf_cfg f"
  then obtain f' k where g: "dce_gives f f' k" using dce_function_gives by blast
  then have "dce_pass f = f'" by (auto simp: dce_gives_def dce_pass_def dest: spec[of _ stats_default])
  then show ?thesis using g unfolding dce_gives_def by blast
qed

lemma dce_functions_pass: "\<forall>f\<in>set fs. wf_cfg f \<Longrightarrow> \<exists>s'. dce_functions fs s = Some (map dce_pass fs, s')"
proof (induction fs arbitrary: s)
  case (Cons f fs)
  then obtain s1 where "dce_function f s = Some (dce_pass f, s1)" using dce_function_pass[of f s] by auto
  moreover obtain s2 where "dce_functions fs s1 = Some (map dce_pass fs, s2)" using Cons by fastforce
  ultimately show ?case by simp
qed simp

lemma dce_module_pass: "\<forall>f\<in>set (m_functions M). wf_cfg f \<Longrightarrow> \<exists>s. dce_module M = Some (map_fns dce_pass M, s)"
  using dce_functions_pass[of "m_functions M" stats_default] by (auto simp: dce_module_def map_fns_def)

section \<open>What a stable function looks like\<close>

lemma dce_stable_parts:
  assumes w: "wf_cfg f" and s: "dce_stable f"
  shows "thread_branches f = (f, 0)" and "remove_unreachable_blocks f = Some (f, 0)"
    and "remove_dead_instructions f = (f, 0)"
proof -
  obtain f1 f2 g n1 n2 n3 m where r: "dce_round f = Some (g, n1, n2, n3)" "thread_branches f = (f1, n1)"
    "remove_unreachable_blocks f1 = Some (f2, n2)" "renumbers m f1 f2" "remove_dead_instructions f2 = (g, n3)"
    "wf_cfg f1" "wf_cfg f2" "wf_cfg g" "weight g + (n1 + n2 + n3) \<le> weight f"
    "n1 = 0 \<and> n2 = 0 \<and> n3 = 0 \<longrightarrow> f1 = f \<and> f2 = f \<and> g = f"
    by (rule dce_round_spec[OF w])
  then show "thread_branches f = (f, 0)" "remove_unreachable_blocks f = Some (f, 0)" "remove_dead_instructions f = (f, 0)"
    using s by (simp_all add: dce_stable_def)
qed

lemma stable_reachable:
  assumes "wf_cfg f" and "remove_unreachable_blocks f = Some (f, 0)"
  shows "reaches f b \<longleftrightarrow> bid b < length (fn_blocks f)"
proof -
  obtain f' n m where r: "remove_unreachable_blocks f = Some (f', n)" "renumbers m f f'"
    "n + length (fn_blocks f') = length (fn_blocks f)" "n = 0 \<longrightarrow> f' = f" "weight f' + n \<le> weight f"
    by (rule remove_unreachable_spec[OF assms(1)])
  have "f' = f" using r(1) assms(2) by simp
  then show ?thesis using renumbers_cfg(2)[OF r(2), of b] reaches_lt[OF _ assms(1), of b] by blast
qed

lemma stable_threaded: "thread_branches f = (f, 0) \<Longrightarrow> bb \<in> set (fn_blocks f) \<Longrightarrow> bb_term bb \<noteq> Branch (OConst (CBool c)) t ts e es"
proof
  assume "thread_branches f = (f, 0)" and bb: "bb \<in> set (fn_blocks f)" and t: "bb_term bb = Branch (OConst (CBool c)) t ts e es"
  then have "snd (thread_block bb) = 0" by (auto simp: thread_branches_def Let_def)
  then show False using t by (simp add: thread_block_def)
qed

lemma stable_used:
  "remove_dead_instructions f = (f, 0) \<Longrightarrow> i \<in> set (all_instrs f) \<Longrightarrow> is_safe_to_drop (i_kind i) \<Longrightarrow> i_result i \<in> set (used_values f)"
proof -
  assume "remove_dead_instructions f = (f, 0)" and i: "i \<in> set (all_instrs f)" "is_safe_to_drop (i_kind i)"
  then have "\<forall>bb\<in>set (fn_blocks f). filter (\<lambda>i. \<not> keep_instr (used_values f) i) (bb_instrs bb) = []"
    by (simp add: remove_dead_instructions_def Let_def)
  then have "keep_instr (used_values f) i" using i(1) by (auto simp: all_instrs_def filter_empty_conv)
  then show ?thesis using i(2) by (simp add: keep_instr_def)
qed

section \<open>Two functions to run it on\<close>

text \<open>A branch on \<open>true\<close> with a dead arm and a dead constant.\<close>

definition dce_example :: func where
  "dce_example = ex_func ''main'' [
     ex_block 0 [] [ex_instr 0 (IConst (CInt 5)) TI64, ex_instr 1 (IConst (CInt 7)) TI64]
       (Branch (OConst (CBool True)) (BlockId 2) [OVal (ValueId 0)] (BlockId 1) []),
     ex_block 1 [] [] (Return (Some (OVal (ValueId 1)))),
     ex_block 2 [(ValueId 2, TI64)] [] (Return (Some (OVal (ValueId 2))))]"

definition dce_result :: func where
  "dce_result = ex_func ''main'' [
     ex_block 0 [] [ex_instr 0 (IConst (CInt 5)) TI64] (Jump (BlockId 1) [OVal (ValueId 0)]),
     ex_block 1 [(ValueId 2, TI64)] [] (Return (Some (OVal (ValueId 2))))]"


definition quiet_runtime :: "nat runtime" where
  "quiet_runtime = \<lparr>rt_prim = (\<lambda>k t vs w. Done (VObj w, w)), rt_call = (\<lambda>f vs w. Done (VInt 0, w + 1))\<rparr>"

definition module_of :: "func \<Rightarrow> ssa_module" where
  "module_of f = \<lparr>m_functions = [f]\<rparr>"

lemma quiet_runtime_pure: "pure_runtime quiet_runtime"
  by (simp add: pure_runtime_def quiet_runtime_def)

lemma dce_example_ok: "wf_cfg dce_example" "hidden_ok dce_example"
  by code_simp+

lemma dce_example_run:
  "dce_function dce_example stats_default =
     Some (dce_result, \<lparr>branches_threaded = 1, blocks_removed = 1, instructions_removed = 1, iterations = 2\<rparr>)"
  by code_simp

section \<open>Properties\<close>

text \<open>
  The work list of the unreachable-block search ends, without an index out of bounds, with
  each reachable block exactly once and no other: breadth of the search and the stack order do
  not matter.
\<close>

theorem reach_finds_reachable:
  assumes "wf_cfg f"
  shows "\<exists>V. reach (fn_blocks f) [] [fn_entry f] = Some V \<and> distinct V \<and> set V = {b. reaches f b}"
  using reach_entry[OF assms] by metis

lemma reach_finds_reachable_witness:
  "\<exists>V. reach (fn_blocks dce_example) [] [fn_entry dce_example] = Some V \<and> distinct V \<and> set V = {b. reaches dce_example b}"
  using reach_finds_reachable[OF dce_example_ok(1)] .

text \<open>
  The number a block that stays gets: how many reachable blocks come before it. A terminator under
  new numbers: the same values, in the same places.
\<close>

definition rank :: "func \<Rightarrow> block_id \<Rightarrow> block_id" where
  "rank f b = BlockId (card {c. reaches f c \<and> bid c < bid b})"

fun jumps_to :: "(block_id \<Rightarrow> block_id) \<Rightarrow> terminator \<Rightarrow> terminator" where
  "jumps_to g (Return x) = Return x"
| "jumps_to g (Jump t xs) = Jump (g t) xs"
| "jumps_to g (Branch c t xs e ys) = Branch c (g t) xs (g e) ys"
| "jumps_to g Unreachable = Unreachable"

definition ordered :: "(block_id \<times> block_id) list \<Rightarrow> bool" where
  "ordered m \<longleftrightarrow> (\<forall>a b a' b'. map_of m a = Some a' \<longrightarrow> map_of m b = Some b' \<longrightarrow> bid a < bid b \<longrightarrow> bid a' < bid b')"

lemma new_ids_ordered:
  assumes w: "wf_cfg f" and V: "set V = {b. reaches f b}"
  shows "ordered (new_ids f V)"
proof -
  let ?xs = "map bb_id (survivors f V)"
  have "sorted_wrt (\<lambda>x y. bid x < bid y) (map bb_id (fn_blocks f))"
    using w by (simp add: wf_cfg_def sorted_wrt_map)
  then have s: "sorted_wrt (\<lambda>x y. bid x < bid y) ?xs"
    unfolding survivors_def sorted_wrt_map by (rule sorted_wrt_filter)
  have m: "\<exists>i. i < length ?xs \<and> a = ?xs ! i \<and> a' = BlockId i" if "map_of (new_ids f V) a = Some a'" for a a'
    using map_of_SomeD[OF that] by (auto simp: new_ids_def set_zip)
  have "bid a' < bid b'" if ab: "map_of (new_ids f V) a = Some a'" "map_of (new_ids f V) b = Some b'" "bid a < bid b" for a b a' b'
  proof -
    obtain i where i: "i < length ?xs" "a = ?xs ! i" "a' = BlockId i" using m[OF ab(1)] by blast
    obtain k where k: "k < length ?xs" "b = ?xs ! k" "b' = BlockId k" using m[OF ab(2)] by blast
    have "\<not> k \<le> i"
    proof
      assume "k \<le> i"
      then have "k = i \<or> bid b < bid a" using sorted_wrt_nth_less[OF s, of k i] i k by (cases "k = i") auto
      then show False using ab(3) i k by auto
    qed
    then show ?thesis using i k by simp
  qed
  then show ?thesis unfolding ordered_def by blast
qed

lemma remove_unreachable_ordered:
  assumes w: "wf_cfg f"
  obtains f' n m where "remove_unreachable_blocks f = Some (f', n)" and "renumbers m f f'" and "ordered m"
    and "f' = f\<lparr>fn_entry := fn_entry f', fn_blocks := fn_blocks f'\<rparr>"
proof -
  obtain V where V: "reach (fn_blocks f) [] [fn_entry f] = Some V" "distinct V" "set V = {b. reaches f b}"
    using reach_entry[OF w] .
  show thesis
  proof (cases "length V = length (fn_blocks f)")
    case True
    have "ordered (map (\<lambda>b. (b, b)) V)" by (simp add: ordered_def map_of_diag)
    then show thesis
      using that[of f 0] V all_reachable_id[OF w V(2,3) True] True by (simp add: remove_unreachable_blocks_def)
  next
    case False
    obtain bbs e where b: "retarget_blocks (new_ids f V) (fst (renumber_blocks V 0 (fn_blocks f))) = Some bbs"
      "map_of (new_ids f V) (fn_entry f) = Some e" "renumbers (new_ids f V) f (f\<lparr>fn_entry := e, fn_blocks := bbs\<rparr>)"
      using remove_unreachable_some[OF w V(3)] .
    have ids: "rev (snd (renumber_blocks V 0 (fn_blocks f))) = new_ids f V"
      by (simp add: renumber_eq Let_def new_ids_def survivors_def)
    have "remove_unreachable_blocks f = Some (f\<lparr>fn_entry := e, fn_blocks := bbs\<rparr>, length (fn_blocks f) - length V)"
      using V(1) False b(1,2) ids by (simp add: remove_unreachable_blocks_def Let_def case_prod_unfold)
    then show thesis using that b(3) new_ids_ordered[OF w V(3)] by simp
  qed
qed

lemma ordered_rank:
  assumes r: "renumbers m f f'" and o: "ordered m" and b: "map_of m b = Some b'"
  shows "b' = rank f b"
proof -
  let ?C = "{c. reaches f c \<and> bid c < bid b}"
  have d: "reaches f c \<longleftrightarrow> (\<exists>c'. map_of m c = Some c')" for c using renumbers_dom[OF r] .
  have lt: "bid c' < bid b' \<longleftrightarrow> bid c < bid b" if "map_of m c = Some c'" for c c'
    using o b that unfolding ordered_def by (metis block_id.expand linorder_neqE_nat not_less_iff_gr_or_eq option.inject)
  have inj: "inj_on (\<lambda>c. bid (the (map_of m c))) ?C"
  proof (rule inj_onI)
    fix x y assume x: "x \<in> ?C" and y: "y \<in> ?C" and e: "bid (the (map_of m x)) = bid (the (map_of m y))"
    obtain x' y' where "map_of m x = Some x'" "map_of m y = Some y'" using x y d by blast
    then show "x = y" using e o unfolding ordered_def
      by (metis block_id.expand less_irrefl linorder_neqE_nat option.sel)
  qed
  have "(\<lambda>c. bid (the (map_of m c))) ` ?C = {..<bid b'}"
  proof (intro equalityI subsetI)
    fix j assume "j \<in> (\<lambda>c. bid (the (map_of m c))) ` ?C"
    then show "j \<in> {..<bid b'}" using d lt by fastforce
  next
    fix j assume j: "j \<in> {..<bid b'}"
    then have "bid (BlockId j) < length (fn_blocks f')" using renumbersD(2)[OF r b] by simp
    then obtain c where c: "map_of m c = Some (BlockId j)" using renumbers_ran[OF r, of "BlockId j"] by blast
    then have "c \<in> ?C" using d lt[OF c] j by auto
    then show "j \<in> (\<lambda>c. bid (the (map_of m c))) ` ?C" using c by force
  qed
  then have "card ?C = bid b'" using card_image[OF inj] by simp
  then show ?thesis by (simp add: rank_def)
qed

lemma retarget_jumps:
  "retarget m t = Some t' \<Longrightarrow> (\<And>b b'. map_of m b = Some b' \<Longrightarrow> b' = g b) \<Longrightarrow> t' = jumps_to g t"
  by (cases t) (auto split: bind_splits)

text \<open>
  C10. Removing unreachable blocks never panics on a function with blocks numbered by position. It
  reports the number of unreachable blocks; what stays are the reachable ones, in their order, each at the
  position that is its rank, with its parameters, instructions and terminator, whose targets are
  the ranks of those before; nothing else of the function changes, and all its blocks are reachable.
\<close>

theorem remove_unreachable_exact:
  assumes "wf_cfg f"
  shows "\<exists>f' n. remove_unreachable_blocks f = Some (f', n) \<and> wf_cfg f' \<and>
    n + card {b. reaches f b} = length (fn_blocks f) \<and> length (fn_blocks f') = card {b. reaches f b} \<and>
    f' = f\<lparr>fn_entry := rank f (fn_entry f), fn_blocks := fn_blocks f'\<rparr> \<and>
    (\<forall>b. reaches f b \<longrightarrow> bid (rank f b) < length (fn_blocks f') \<and>
       bb_params (fn_blocks f' ! bid (rank f b)) = bb_params (fn_blocks f ! bid b) \<and>
       bb_instrs (fn_blocks f' ! bid (rank f b)) = bb_instrs (fn_blocks f ! bid b) \<and>
       bb_term (fn_blocks f' ! bid (rank f b)) = jumps_to (rank f) (bb_term (fn_blocks f ! bid b))) \<and>
    (\<forall>b. bid b < length (fn_blocks f') \<longrightarrow> reaches f' b)"
proof -
  obtain f' n m where r: "remove_unreachable_blocks f = Some (f', n)" "renumbers m f f'" "ordered m"
    "f' = f\<lparr>fn_entry := fn_entry f', fn_blocks := fn_blocks f'\<rparr>"
    by (rule remove_unreachable_ordered[OF assms])
  have len: "n + length (fn_blocks f') = length (fn_blocks f)"
    by (rule remove_unreachable_spec[OF assms]) (use r(1) in simp)
  have m: "b' = rank f b" if "map_of m b = Some b'" for b b' using ordered_rank[OF r(2,3) that] .
  have block: "bid (rank f b) < length (fn_blocks f') \<and>
       bb_params (fn_blocks f' ! bid (rank f b)) = bb_params (fn_blocks f ! bid b) \<and>
       bb_instrs (fn_blocks f' ! bid (rank f b)) = bb_instrs (fn_blocks f ! bid b) \<and>
       bb_term (fn_blocks f' ! bid (rank f b)) = jumps_to (rank f) (bb_term (fn_blocks f ! bid b))" if rb: "reaches f b" for b
  proof -
    obtain b' where b: "map_of m b = Some b'" using renumbers_dom[OF r(2), of b] rb by blast
    have e: "b' = rank f b" using m[OF b] .
    have s: "same_block m (fn_blocks f ! bid b) (fn_blocks f' ! bid (rank f b))" using renumbersD(3)[OF r(2) b] unfolding e .
    then have "bb_term (fn_blocks f' ! bid (rank f b)) = jumps_to (rank f) (bb_term (fn_blocks f ! bid b))"
      unfolding same_block_def by (intro retarget_jumps[of m]) (use m in blast)+
    then show ?thesis using renumbersD(2)[OF r(2) b] s unfolding same_block_def e by simp
  qed
  obtain V where V: "reach (fn_blocks f) [] [fn_entry f] = Some V" "distinct V" "set V = {b. reaches f b}"
    using reach_entry[OF assms] .
  have "n = length (fn_blocks f) - length V"
    using r(1) V(1) by (auto simp: remove_unreachable_blocks_def Let_def case_prod_unfold split: if_splits bind_splits)
  moreover have "length V = card {b. reaches f b}" using V(2,3) distinct_card by metis
  moreover have "card {b. reaches f b} \<le> length (fn_blocks f)"
  proof -
    have "{b. reaches f b} \<subseteq> BlockId ` {..<length (fn_blocks f)}"
      using reaches_lt[OF _ assms] by (metis block_id.collapse image_eqI lessThan_iff mem_Collect_eq subsetI)
    then show ?thesis using surj_card_le[of "{..<length (fn_blocks f)}" _ BlockId] by simp
  qed
  ultimately have "n + card {b. reaches f b} = length (fn_blocks f)" "length (fn_blocks f') = card {b. reaches f b}"
    using len by simp_all
  moreover have "f' = f\<lparr>fn_entry := rank f (fn_entry f), fn_blocks := fn_blocks f'\<rparr>"
    using r(4) m[OF renumbers_entry[OF r(2)]] by simp
  ultimately show ?thesis using r(1) renumbers_cfg[OF r(2)] block by blast
qed

lemma remove_unreachable_exact_witness:
  "\<exists>f' n. remove_unreachable_blocks (fst (thread_branches dce_example)) = Some (f', n) \<and> wf_cfg f' \<and>
    n + card {b. reaches (fst (thread_branches dce_example)) b} = 3 \<and> length (fn_blocks f') = 2"
proof -
  have "wf_cfg (fst (thread_branches dce_example))" by code_simp
  moreover have "length (fn_blocks (fst (thread_branches dce_example))) = 3" by code_simp
  moreover have "map_option (\<lambda>(f, n). length (fn_blocks f)) (remove_unreachable_blocks (fst (thread_branches dce_example))) = Some 2"
    by code_simp
  ultimately show ?thesis using remove_unreachable_exact by fastforce
qed

text \<open>
  C8. The fixpoint loop of \<open>dce_module\<close> always ends and never panics on a function with blocks
  numbered by position, within one round more than the number of blocks, instructions and
  branches, and the count of removed blocks is exact.
\<close>

theorem dce_terminates:
  assumes "wf_cfg f"
  shows "\<exists>f' s'. dce_function f s = Some (f', s') \<and> wf_cfg f' \<and> iterations s' \<le> iterations s + weight f + 1 \<and>
    blocks_removed s' + length (fn_blocks f') = blocks_removed s + length (fn_blocks f)"
  using dce_function_gives[OF assms] unfolding dce_gives_def by (metis add.assoc add_le_cancel_left)

lemma dce_terminates_witness:
  "\<exists>f' s'. dce_function dce_example stats_default = Some (f', s') \<and> iterations s' \<le> 7 \<and> blocks_removed s' + length (fn_blocks f') = 3"
proof -
  have "weight dce_example = 6" "length (fn_blocks dce_example) = 3" by code_simp+
  then show ?thesis
    using dce_terminates[OF dce_example_ok(1), of stats_default] by (auto simp: stats_default_def)
qed

text \<open>
  C9. When the loop returns nothing is left to do: no block ends in a branch on a constant,
  every block is reachable from the entry, every removable instruction's result is used, and
  running the loop again changes nothing.
\<close>

theorem dce_reaches_fixpoint:
  assumes "wf_cfg f" and "dce_function f s = Some (f', s')"
  shows "(\<forall>bb\<in>set (fn_blocks f'). \<forall>c t ts e es. bb_term bb \<noteq> Branch (OConst (CBool c)) t ts e es) \<and>
    (\<forall>b. bid b < length (fn_blocks f') \<longrightarrow> reaches f' b) \<and>
    (\<forall>i\<in>set (all_instrs f'). is_safe_to_drop (i_kind i) \<longrightarrow> i_result i \<in> set (used_values f')) \<and>
    (\<forall>s. dce_function f' s = Some (f', add_stats 0 0 0 s))"
proof -
  obtain g k where g: "dce_gives f g k" using dce_function_gives[OF assms(1)] by blast
  then have "g = f'" using assms(2) by (auto simp: dce_gives_def dest: spec[of _ s])
  then have st: "wf_cfg f'" "dce_stable f'" using g by (auto simp: dce_gives_def)
  note p = dce_stable_parts[OF st]
  show ?thesis
    using stable_threaded[OF p(1)] stable_reachable[OF st(1) p(2)] stable_used[OF p(3)] dce_stable_function[OF st(2)] by blast
qed

lemma dce_reaches_fixpoint_witness:
  "\<forall>s. dce_function dce_result s = Some (dce_result, add_stats 0 0 0 s)"
  using dce_reaches_fixpoint[OF dce_example_ok(1) dce_example_run] by blast

text \<open>
  C3. In a module whose functions have blocks numbered by position, and in which no value read only by a
  reference, a drop or as the array of an index assignment is the result of a removable instruction,
  dead-code elimination returns a module in which every run, calls included, has the result, the
  effects and the trap it had in the original, with the same fuel; for libraries whose operations
  that may be removed neither fail nor have effects. A run that is stuck in the original is not constrained.
\<close>

theorem dce_preserves_runs:
  fixes rt :: "'w runtime"
  assumes "\<forall>f\<in>set (m_functions M). wf_cfg f \<and> hidden_ok f" and "pure_runtime rt" and "find_fn M name = Some f"
  shows "\<exists>M' s f'. dce_module M = Some (M', s) \<and> find_fn M' name = Some f' \<and>
    refines (run_fn M rt n f vs w) (run_fn M' rt n f' vs w)"
proof -
  obtain s where s: "dce_module M = Some (map_fns dce_pass M, s)" using dce_module_pass assms(1) by blast
  have "wf_cfg f \<and> hidden_ok f" using dce.find_pre[OF assms(3,1)] .
  then have "refines (run_fn M rt n f vs w) (run_fn (map_fns dce_pass M) rt n (dce_pass f) vs w)"
    by (rule dce.run_fn_map[OF assms(1,2)])
  then show ?thesis using s assms(3) dce.find_map by fastforce
qed

lemma dce_preserves_runs_witness:
  "\<exists>M' s f'. dce_module (module_of dce_example) = Some (M', s) \<and> find_fn M' ''main'' = Some f' \<and>
    run_fn M' quiet_runtime 3 f' [] 0 = Done (Some (VInt 5), 0)"
proof -
  have "find_fn (module_of dce_example) ''main'' = Some dce_example" by code_simp
  moreover have "run_fn (module_of dce_example) quiet_runtime 3 dce_example [] 0 = Done (Some (VInt 5), 0)" by code_simp
  ultimately show ?thesis
    using dce_preserves_runs[of "module_of dce_example" quiet_runtime "''main''" dce_example 3 "[]" 0]
      dce_example_ok quiet_runtime_pure by (auto simp: module_of_def)
qed


end
