(* ===== verification/SsaLowerExpr.thy ===== *)
theory SsaLowerExpr
  imports Ssa
begin

text \<open>
  Lowering of expressions (\<open>lower_expr_to_operand\<close>, \<open>lower_expr_to_value\<close>,
  \<open>materialize\<close> of \<open>src/ssa.rs\<close>). Every arm is an equation, the unsupported ones with
  their error messages; the larger arms are helper functions of their own. The gate
  \<open>expr_ssa_supported\<close> of \<open>src/main.rs\<close> decides which programs take this path.
\<close>

type_synonym locals = "(string, value_id) btmap"

section \<open>Emission helpers\<close>

definition emit_op :: "ty \<Rightarrow> span \<Rightarrow> instr_kind \<Rightarrow> builder \<Rightarrow> (operand \<times> builder) lres" where
  "emit_op ty sp kind b = bindE (emit ty sp kind b) (\<lambda>(v, b). Inr (OVal v, b))"

definition emit_unit :: "ty \<Rightarrow> span \<Rightarrow> instr_kind \<Rightarrow> builder \<Rightarrow> builder lres" where
  "emit_unit ty sp kind b = bindE (emit ty sp kind b) (\<lambda>(v, b). Inr b)"

definition drop_if :: "bool \<Rightarrow> operand \<Rightarrow> ty \<Rightarrow> span \<Rightarrow> builder \<Rightarrow> builder lres" where
  "drop_if needs_drop source ty sp b =
     (if needs_drop then emit_unit TI64 sp (IDrop source ''_'' ty) b else Inr b)"

definition materialize :: "operand \<Rightarrow> ty \<Rightarrow> span \<Rightarrow> builder \<Rightarrow> (value_id \<times> builder) lres" where
  "materialize x ty sp b =
     (case x of OVal v \<Rightarrow> Inr (v, b) | OConst c \<Rightarrow> emit ty sp (IConst c) b)"

section \<open>Binary operators\<close>

definition is_str_ty :: "ty \<Rightarrow> bool" where
  "is_str_ty t \<longleftrightarrow> t \<in> {TStr, TOwnedStr}"

text \<open>String concatenation: a runtime call that frees the operands flagged as owned.\<close>

definition lower_str_concat ::
  "typed_expr \<Rightarrow> typed_expr \<Rightarrow> ty \<Rightarrow> span \<Rightarrow> operand \<Rightarrow> operand \<Rightarrow> builder \<Rightarrow> (operand \<times> builder) lres" where
  "lower_str_concat left right ty sp l r b =
     (let l_owned = if owned_str_consumed_at_concat left then 1 else 0;
          r_owned = if owned_str_consumed_at_concat right then 1 else 0
      in emit_op ty sp
           (ICall ''intent_str_concat'' [l, OConst (CInt l_owned), r, OConst (CInt r_owned)]) b)"

text \<open>String comparison: \<open>intent_str_cmp\<close>, drops of fresh operands, then a comparison with 0.\<close>

definition lower_str_cmp ::
  "binary_op \<Rightarrow> typed_expr \<Rightarrow> typed_expr \<Rightarrow> ty \<Rightarrow> span \<Rightarrow> operand \<Rightarrow> operand \<Rightarrow> builder \<Rightarrow>
   (operand \<times> builder) lres" where
  "lower_str_cmp op left right ty sp l r b =
     bindE (emit TI64 sp (ICall ''intent_str_cmp'' [l, r]) b) (\<lambda>(cmp, b).
     bindE (drop_if (is_fresh_owned_str left) l TOwnedStr sp b) (\<lambda>b.
     bindE (drop_if (is_fresh_owned_str right) r TOwnedStr sp b) (\<lambda>b.
     emit_op ty sp (IBinary op (OVal cmp) (OConst (CInt 0))) b)))"

definition lower_binary ::
  "binary_op \<Rightarrow> typed_expr \<Rightarrow> typed_expr \<Rightarrow> ty \<Rightarrow> span \<Rightarrow> operand \<Rightarrow> operand \<Rightarrow> builder \<Rightarrow>
   (operand \<times> builder) lres" where
  "lower_binary op left right ty sp l r b =
     (if op = Add \<and> is_str_ty (e_ty left) \<and> is_str_ty (e_ty right)
      then lower_str_concat left right ty sp l r b
      else if is_str_ty (e_ty left) \<and> op \<in> {Eq, Ne, Lt, Le, Gt, Ge}
      then lower_str_cmp op left right ty sp l r b
      else emit_op ty sp (IBinary op l r) b)"

section \<open>Calls, indexing and length\<close>

text \<open>Drops of the fresh arguments of \<open>clone\<close>, after the call.\<close>

fun drop_args :: "string \<Rightarrow> span \<Rightarrow> (typed_expr \<times> operand) list \<Rightarrow> builder \<Rightarrow> builder lres" where
  "drop_args name sp [] b = Inr b"
| "drop_args name sp ((a, x) # rest) b =
     bindE (drop_if (name = ''clone'' \<and> is_fresh_non_copy a) x (e_ty a) sp b) (drop_args name sp rest)"

definition lower_call ::
  "string \<Rightarrow> typed_expr list \<Rightarrow> ty \<Rightarrow> span \<Rightarrow> operand list \<Rightarrow> builder \<Rightarrow> (operand \<times> builder) lres" where
  "lower_call name args ty sp xs b =
     bindE (emit ty sp (ICall name xs) b) (\<lambda>(v, b).
     bindE (drop_args name sp (zip args xs) b) (\<lambda>b. Inr (OVal v, b)))"

definition lower_index ::
  "typed_expr \<Rightarrow> bool \<Rightarrow> ty \<Rightarrow> span \<Rightarrow> operand \<Rightarrow> operand \<Rightarrow> builder \<Rightarrow> (operand \<times> builder) lres" where
  "lower_index array checked ty sp a i b =
     bindE (emit ty sp (IIndex a i checked) b) (\<lambda>(v, b).
     bindE (drop_if (is_fresh_non_copy array \<and> is_vec (e_ty array)) a (e_ty array) sp b) (\<lambda>b.
     Inr (OVal v, b)))"

definition lower_len ::
  "typed_expr \<Rightarrow> nat \<Rightarrow> ty \<Rightarrow> span \<Rightarrow> operand \<Rightarrow> builder \<Rightarrow> (operand \<times> builder) lres" where
  "lower_len array n ty sp a b =
     (if is_str_ty (deref (e_ty array))
      then bindE (emit ty sp (ICall ''intent_str_len'' [a]) b) (\<lambda>(v, b).
           bindE (drop_if (is_fresh_owned_str array) a TOwnedStr sp b) (\<lambda>b. Inr (OVal v, b)))
      else bindE (emit ty sp (ILen a n) b) (\<lambda>(v, b).
           bindE (drop_if (is_fresh_non_copy array \<and> is_vec (e_ty array)) a (e_ty array) sp b) (\<lambda>b.
           Inr (OVal v, b))))"

definition lower_ref ::
  "locals \<Rightarrow> bool \<Rightarrow> string \<Rightarrow> ty \<Rightarrow> span \<Rightarrow> builder \<Rightarrow> (operand \<times> builder) lres" where
  "lower_ref L is_mut name ty sp b =
     (case bt_get L name of
        Some v \<Rightarrow> emit_op ty sp (IRefOf (OVal v) is_mut) b
      | None \<Rightarrow> lower_fail ((if is_mut then ''RefMut target '' else ''Ref target '') @
                  [CHR 0x27] @ name @ [CHR 0x27] @ '' has no SSA value (unknown binding)'') sp)"

section \<open>Expressions\<close>

fun lower_operand :: "locals \<Rightarrow> typed_expr \<Rightarrow> builder \<Rightarrow> (operand \<times> builder) lres"
  and lower_operands :: "locals \<Rightarrow> typed_expr list \<Rightarrow> builder \<Rightarrow> (operand list \<times> builder) lres" where
  "lower_operand L (TExpr (EInt v) ty c sp d) b = Inr (OConst (CInt v), b)"
| "lower_operand L (TExpr (EBool v) ty c sp d) b = Inr (OConst (CBool v), b)"
| "lower_operand L (TExpr (EFloat v) ty c sp d) b = Inr (OConst (CFloat v), b)"
| "lower_operand L (TExpr (EVar name) ty c sp d) b =
     (case bt_get L name of
        Some v \<Rightarrow> Inr (OVal v, b)
      | None \<Rightarrow> lower_fail (''undeclared binding '' @ [CHR 0x27] @ name @ [CHR 0x27]) sp)"
| "lower_operand L (TExpr (EUnary op x) ty c sp d) b =
     bindE (lower_operand L x b) (\<lambda>(x, b). emit_op ty sp (IUnary op x) b)"
| "lower_operand L (TExpr (EBinary op left right chk) ty c sp d) b =
     bindE (lower_operand L left b) (\<lambda>(l, b).
     bindE (lower_operand L right b) (\<lambda>(r, b).
     lower_binary op left right ty sp l r b))"
| "lower_operand L (TExpr (ECall name nsp args) ty c sp d) b =
     bindE (lower_operands L args b) (\<lambda>(xs, b). lower_call name args ty sp xs b)"
| "lower_operand L (TExpr (ECast x to) ty c sp d) b =
     bindE (lower_operand L x b) (\<lambda>(x, b). emit_op ty sp (ICast x to) b)"
| "lower_operand L (TExpr (EStr s) ty c sp d) b = emit_op ty sp (IStrLit s) b"
| "lower_operand L (TExpr (EArrayLit elements) ty c sp d) b =
     bindE (lower_operands L elements b) (\<lambda>(xs, b). emit_op ty sp (IArrayLit xs) b)"
| "lower_operand L (TExpr (EIndex array index checked) ty c sp d) b =
     bindE (lower_operand L array b) (\<lambda>(a, b).
     bindE (lower_operand L index b) (\<lambda>(i, b).
     lower_index array checked ty sp a i b))"
| "lower_operand L (TExpr (ELen array n) ty c sp d) b =
     bindE (lower_operand L array b) (\<lambda>(a, b). lower_len array n ty sp a b)"
| "lower_operand L (TExpr (ERef name) ty c sp d) b = lower_ref L False name ty sp b"
| "lower_operand L (TExpr (ERefMut name) ty c sp d) b = lower_ref L True name ty sp b"
| "lower_operand L (TExpr (ERefField ob f i oty) ty c sp d) b =
     lower_fail ''SSA lowering of struct field-borrows (`ref t.x` / `mut ref t.x`) is not yet implemented; routing to the tree backend'' sp"
| "lower_operand L (TExpr (ERefMutField ob f i oty) ty c sp d) b =
     lower_fail ''SSA lowering of struct field-borrows (`ref t.x` / `mut ref t.x`) is not yet implemented; routing to the tree backend'' sp"
| "lower_operand L (TExpr (EFnRef name nsp) ty c sp d) b = emit_op ty sp (IFnRef name) b"
| "lower_operand L (TExpr (ECallIndirect callee args) ty c sp d) b =
     bindE (lower_operand L callee b) (\<lambda>(f, b).
     bindE (lower_operands L args b) (\<lambda>(xs, b).
     emit_op ty sp (ICallIndirect f xs) b))"
| "lower_operand L (TExpr (ETuple es) ty c sp d) b =
     lower_fail ''SSA lowering of tuples is not yet supported'' sp"
| "lower_operand L (TExpr (ETupleAccess e i) ty c sp d) b =
     lower_fail ''SSA lowering of tuples is not yet supported'' sp"
| "lower_operand L (TExpr (EStructLit n fs) ty c sp d) b =
     lower_fail ''SSA lowering of structs is not yet supported'' sp"
| "lower_operand L (TExpr (EFieldAccess e f i) ty c sp d) b =
     lower_fail ''SSA lowering of structs is not yet supported'' sp"
| "lower_operand L (TExpr (EEnumVariant n v t) ty c sp d) b =
     lower_fail ''SSA lowering of enums / match is not yet supported'' sp"
| "lower_operand L (TExpr (EEnumVariantWithPayload n v t p pty) ty c sp d) b =
     lower_fail ''SSA lowering of enums / match is not yet supported'' sp"
| "lower_operand L (TExpr (EMatch e arms) ty c sp d) b =
     lower_fail ''SSA lowering of enums / match is not yet supported'' sp"
| "lower_operand L (TExpr (EIfExpr e t f) ty c sp d) b =
     lower_fail ''SSA lowering of if-expressions is not yet supported'' sp"
| "lower_operand L (TExpr (EBlock ss e) ty c sp d) b =
     lower_fail ''SSA lowering of block expressions is not yet supported'' sp"
| "lower_operand L (TExpr (EDynDispatch e i m msp n args) ty c sp d) b =
     lower_fail (''SSA lowering of dyn-interface dispatch is not yet supported (vtables Phase 3 '' @
       [CHR 0xE2, CHR 0x80, CHR 0x94] @ '' route through tree backend)'') sp"
| "lower_operand L (TExpr (EDynCoerce e i n fty) ty c sp d) b =
     lower_fail (''SSA lowering of dyn-interface coercion is not yet supported (vtables Phase 3 '' @
       [CHR 0xE2, CHR 0x80, CHR 0x94] @ '' route through tree backend)'') sp"
| "lower_operands L [] b = Inr ([], b)"
| "lower_operands L (e # es) b =
     bindE (lower_operand L e b) (\<lambda>(x, b).
     bindE (lower_operands L es b) (\<lambda>(xs, b). Inr (x # xs, b)))"

definition lower_value :: "locals \<Rightarrow> typed_expr \<Rightarrow> builder \<Rightarrow> (value_id \<times> builder) lres" where
  "lower_value L e b =
     bindE (lower_operand L e b) (\<lambda>(x, b). materialize x (e_ty e) (e_span e) b)"

end
