(* ===== verification/SsaLower.thy ===== *)
theory SsaLower
  imports SsaLowerExpr
begin

text \<open>
  Lowering of statements, functions and programs (\<open>lower_stmts\<close>, \<open>lower_stmt\<close>,
  \<open>lower_if\<close>, \<open>lower_while\<close>, \<open>lower_integer_for\<close>, \<open>lower_for_iter\<close>,
  \<open>lower_function\<close>, \<open>lower_program\<close> of \<open>src/ssa.rs\<close>). The structured statements are cut
  where the code lowers a body: a head that opens blocks and the loop frame, the recursive
  call on the body, and a tail that closes them; the text of each names the Rust function.
\<close>

section \<open>Bindings a loop body modifies\<close>

text \<open>
  \<open>modified_in_body\<close>: the names reassigned or index-assigned in a body and not introduced
  by a \<open>let\<close> seen before. The set \<open>inner\<close> of introduced names is one accumulator for the
  whole walk: it is passed into the branches and keeps what they add.
\<close>

fun walk_stmt :: "typed_stmt \<Rightarrow> string list \<times> string list \<Rightarrow> string list \<times> string list"
  and walk_stmts :: "typed_stmt list \<Rightarrow> string list \<times> string list \<Rightarrow> string list \<times> string list" where
  "walk_stmt (SLet name ty e) (inner, out) = (bs_insert name inner, out)"
| "walk_stmt (SReassign name ty e d) (inner, out) =
     (inner, if name \<in> set inner then out else bs_insert name out)"
| "walk_stmt (SIndexAssign name bty i fp v c) (inner, out) =
     (inner, if name \<in> set inner then out else bs_insert name out)"
| "walk_stmt (SIf c tb eb) io = walk_stmts eb (walk_stmts tb io)"
| "walk_stmt (SWhile c body) io = walk_stmts body io"
| "walk_stmt (SFor v ty s e body p rs) io = walk_stmts body io"
| "walk_stmt (SForIter v ety c cty cons body) io = walk_stmts body io"
| "walk_stmt (STaskSpawn n body caps) io = walk_stmts body io"
| "walk_stmt _ io = io"
| "walk_stmts [] io = io"
| "walk_stmts (s # ss) io = walk_stmts ss (walk_stmt s io)"

definition modified_in_body :: "typed_stmt list \<Rightarrow> string list" where
  "modified_in_body body = snd (walk_stmts body ([], []))"

section \<open>Loop-carried bindings\<close>

type_synonym carry = "(string \<times> value_id \<times> ty) list"

text \<open>The block arguments for a carry list under the current bindings (\<open>loop_carry_args\<close>).\<close>

fun carry_args :: "locals \<Rightarrow> carry \<Rightarrow> operand list lres" where
  "carry_args L [] = Inr []"
| "carry_args L ((name, v, ty) # cs) =
     bindE (expectE (bt_get L name)) (\<lambda>w.
     bindE (carry_args L cs) (\<lambda>ws. Inr (OVal w # ws)))"

definition loop_carry_args :: "loop_frame \<Rightarrow> locals \<Rightarrow> operand list lres" where
  "loop_carry_args fr L = carry_args L (lf_carry fr)"

definition carry_params :: "carry \<Rightarrow> operand list" where
  "carry_params cs = map (\<lambda>(_, v, _). OVal v) cs"

fun carry_locals :: "carry \<Rightarrow> locals \<Rightarrow> locals" where
  "carry_locals [] L = L"
| "carry_locals ((name, v, ty) # cs) L = carry_locals cs (bt_insert name v L)"

text \<open>A fresh value as the next parameter of a block.\<close>

definition fresh_param :: "block_id \<Rightarrow> ty \<Rightarrow> builder \<Rightarrow> (value_id \<times> builder) lres" where
  "fresh_param blk ty b =
     (let (v, b) = fresh_value b in bindE (add_block_param blk v ty b) (\<lambda>b. Inr (v, b)))"

fun while_carry :: "block_id \<Rightarrow> block_id \<Rightarrow> locals \<Rightarrow> string list \<Rightarrow> builder \<Rightarrow> (carry \<times> builder) lres" where
  "while_carry header exit L [] b = Inr ([], b)"
| "while_carry header exit L (name # names) b =
     (case bt_get L name of
        None \<Rightarrow> while_carry header exit L names b
      | Some entry_v \<Rightarrow>
          bindE (value_type b entry_v) (\<lambda>ty.
          bindE (fresh_param header ty b) (\<lambda>(hp, b).
          bindE (fresh_param exit ty b) (\<lambda>(ep, b).
          bindE (while_carry header exit L names b) (\<lambda>(cs, b).
          Inr ((name, hp, ty) # cs, b))))))"

text \<open>The same for the counted loops, whose step block takes the carried values too.\<close>

fun for_carry :: "string \<Rightarrow> block_id \<Rightarrow> block_id \<Rightarrow> block_id \<Rightarrow> locals \<Rightarrow> string list \<Rightarrow> builder \<Rightarrow>
    (carry \<times> carry \<times> builder) lres" where
  "for_carry var header step exit L [] b = Inr ([], [], b)"
| "for_carry var header step exit L (name # names) b =
     (if name = var then for_carry var header step exit L names b
      else case bt_get L name of
        None \<Rightarrow> for_carry var header step exit L names b
      | Some entry_v \<Rightarrow>
          bindE (value_type b entry_v) (\<lambda>cty.
          bindE (fresh_param header cty b) (\<lambda>(hp, b).
          bindE (fresh_param exit cty b) (\<lambda>(ep, b).
          bindE (fresh_param step cty b) (\<lambda>(sp, b).
          bindE (for_carry var header step exit L names b) (\<lambda>(cs, scs, b).
          Inr ((name, hp, cty) # cs, (name, sp, cty) # scs, b)))))))"

text \<open>After a loop the carried names are rebound to the parameters of the exit block.\<close>

fun rebind_exit :: "(string \<Rightarrow> bool) \<Rightarrow> carry \<Rightarrow> (value_id \<times> ty) list \<Rightarrow> locals \<Rightarrow> locals" where
  "rebind_exit skip ((name, _, _) # cs) ((exit_v, _) # ps) L =
     rebind_exit skip cs ps (if skip name then L else bt_insert name exit_v L)"
| "rebind_exit skip _ _ L = L"

definition jump_if_open :: "(unit \<Rightarrow> (operand list) lres) \<Rightarrow> block_id \<Rightarrow> builder \<Rightarrow> builder lres" where
  "jump_if_open args target b =
     bindE (current_block_terminator b) (\<lambda>t.
     case t of
       Some _ \<Rightarrow> Inr b
     | None \<Rightarrow> bindE (args ()) (\<lambda>xs. terminate (Jump target xs) b))"

section \<open>While loops\<close>

definition lower_while_head ::
  "typed_expr \<Rightarrow> typed_stmt list \<Rightarrow> builder \<Rightarrow> locals \<Rightarrow>
   (block_id \<times> block_id \<times> carry \<times> locals \<times> builder) lres" where
  "lower_while_head cond body b L =
     (let (header, b) = new_block b; (body_bb, b) = new_block b; (exit, b) = new_block b in
      bindE (while_carry header exit L (modified_in_body body) b) (\<lambda>(cs, b).
      bindE (carry_args L cs) (\<lambda>entry_args.
      bindE (terminate (Jump header entry_args) b) (\<lambda>b.
      let loop_locals = carry_locals cs L; b = set_current header b in
      bindE (lower_operand loop_locals cond b) (\<lambda>(c, b).
      bindE (terminate (Branch c body_bb [] exit (carry_params cs)) b) (\<lambda>b.
      let b = set_current body_bb b;
          b = push_loop \<lparr>lf_header = header, lf_exit = exit, lf_carry = cs\<rparr> b in
      Inr (header, exit, cs, loop_locals, b)))))))"

definition lower_while_tail ::
  "block_id \<Rightarrow> block_id \<Rightarrow> carry \<Rightarrow> locals \<Rightarrow> builder \<Rightarrow> locals \<Rightarrow> (builder \<times> locals) lres" where
  "lower_while_tail header exit cs body_locals b L =
     bindE (jump_if_open (\<lambda>_. carry_args body_locals cs) header b) (\<lambda>b.
     let b = set_current exit (pop_loop b) in
     bindE (nthE (b_blocks b) (bid exit)) (\<lambda>bb.
     Inr (b, rebind_exit (\<lambda>_. False) cs (bb_params bb) L)))"

section \<open>Integer for loops\<close>

record integer_for_shape =
  ifs_counter_name :: string
  ifs_counter_header_value :: value_id
  ifs_counter_ty :: ty
  ifs_start :: operand
  ifs_end :: operand
  ifs_header :: block_id
  ifs_body :: block_id
  ifs_step :: block_id
  ifs_exit :: block_id

definition lower_integer_for_head ::
  "string \<Rightarrow> ty \<Rightarrow> typed_expr \<Rightarrow> typed_expr \<Rightarrow> typed_stmt list \<Rightarrow> builder \<Rightarrow> locals \<Rightarrow>
   (integer_for_shape \<times> value_id \<times> carry \<times> carry \<times> locals \<times> builder) lres" where
  "lower_integer_for_head var ty start end body b L =
     bindE (lower_value L start b) (\<lambda>(start_v, b).
     bindE (lower_operand L end b) (\<lambda>(end_op, b).
     let (header, b) = new_block b; (body_bb, b) = new_block b;
         (step, b) = new_block b; (exit, b) = new_block b in
     bindE (fresh_param header ty b) (\<lambda>(i_header, b).
     bindE (fresh_param exit ty b) (\<lambda>(i_exit, b).
     bindE (fresh_param step ty b) (\<lambda>(i_step, b).
     bindE (for_carry var header step exit L (modified_in_body body) b) (\<lambda>(cs, scs, b).
     bindE (carry_args L cs) (\<lambda>entry_rest.
     bindE (terminate (Jump header (OVal start_v # entry_rest)) b) (\<lambda>b.
     let cs = (var, i_header, ty) # cs; scs = (var, i_step, ty) # scs;
         loop_locals = carry_locals cs L; b = set_current header b in
     bindE (emit TBool (e_span start) (IBinary Lt (OVal i_header) end_op) b) (\<lambda>(cmp_v, b).
     bindE (terminate (Branch (OVal cmp_v) body_bb [] exit (carry_params cs)) b) (\<lambda>b.
     let b = push_loop \<lparr>lf_header = step, lf_exit = exit, lf_carry = scs\<rparr> (set_current body_bb b);
         shape = \<lparr>ifs_counter_name = var, ifs_counter_header_value = i_header,
                  ifs_counter_ty = ty, ifs_start = OVal start_v, ifs_end = end_op,
                  ifs_header = header, ifs_body = body_bb, ifs_step = step, ifs_exit = exit\<rparr> in
     Inr (shape, i_step, cs, scs, loop_locals, b)))))))))))"

definition step_to_header ::
  "ty \<Rightarrow> span \<Rightarrow> block_id \<Rightarrow> block_id \<Rightarrow> value_id \<Rightarrow> carry \<Rightarrow> builder \<Rightarrow> builder lres" where
  "step_to_header ty sp step header i_step scs b =
     (let b = set_current step b in
      bindE (emit ty sp (IBinary Add (OVal i_step) (OConst (CInt 1))) b) (\<lambda>(inc, b).
      terminate (Jump header (OVal inc # carry_params (tl scs))) b))"

definition lower_integer_for_tail ::
  "integer_for_shape \<Rightarrow> span \<Rightarrow> value_id \<Rightarrow> carry \<Rightarrow> carry \<Rightarrow> locals \<Rightarrow> builder \<Rightarrow> locals \<Rightarrow>
   (builder \<times> locals) lres" where
  "lower_integer_for_tail shape sp i_step cs scs body_locals b L =
     bindE (jump_if_open (\<lambda>_. carry_args body_locals scs) (ifs_step shape) b) (\<lambda>b.
     let b = pop_loop b in
     bindE (step_to_header (ifs_counter_ty shape) sp (ifs_step shape) (ifs_header shape) i_step scs b) (\<lambda>b.
     let b = set_current (ifs_exit shape) b in
     bindE (nthE (b_blocks b) (bid (ifs_exit shape))) (\<lambda>bb.
     Inr (b, rebind_exit (\<lambda>name. name = ifs_counter_name shape) cs (bb_params bb) L))))"

section \<open>Parallel for: the hint and its shape\<close>

definition shape_of :: "integer_for_shape \<Rightarrow> pf_shape" where
  "shape_of s =
     \<lparr>pf_counter_name = ifs_counter_name s, pf_counter_header_value = ifs_counter_header_value s,
      pf_counter_ty = ifs_counter_ty s, pf_start = ifs_start s, pf_end = ifs_end s,
      pf_header_block = ifs_header s, pf_body_block = ifs_body s,
      pf_step_block = ifs_step s, pf_exit_block = ifs_exit s\<rparr>"

definition placeholder_shape :: "string \<Rightarrow> ty \<Rightarrow> pf_shape" where
  "placeholder_shape var ty =
     \<lparr>pf_counter_name = var, pf_counter_header_value = ValueId 0, pf_counter_ty = ty,
      pf_start = OConst (CInt 0), pf_end = OConst (CInt 0), pf_header_block = BlockId 0,
      pf_body_block = BlockId 0, pf_step_block = BlockId 0, pf_exit_block = BlockId 0\<rparr>"

definition begin_parallel ::
  "string \<Rightarrow> ty \<Rightarrow> span \<Rightarrow> typed_reduction list \<Rightarrow> builder \<Rightarrow> (block_id \<times> nat \<times> builder) lres" where
  "begin_parallel var ty sp reductions b =
     (let red_meta = map (\<lambda>r. (tr_var r, tr_op r, tr_ty r)) reductions;
          pre_block = b_current b in
      bindE (nthE (b_blocks b) (bid pre_block)) (\<lambda>bb.
      let begin_idx = length (bb_instrs bb) in
      bindE (emit_unit TI64 sp (IHint (ParallelForBegin red_meta (placeholder_shape var ty))) b) (\<lambda>b.
      Inr (pre_block, begin_idx, b))))"

text \<open>The placeholder is replaced in place; anything else at that position is \<open>unreachable!\<close>.\<close>

definition patch_parallel :: "block_id \<Rightarrow> nat \<Rightarrow> pf_shape \<Rightarrow> builder \<Rightarrow> builder lres" where
  "patch_parallel pre_block begin_idx shape b =
     bindE (nthE (b_blocks b) (bid pre_block)) (\<lambda>bb.
     bindE (nthE (bb_instrs bb) begin_idx) (\<lambda>instr.
     case i_kind instr of
       IHint (ParallelForBegin reds _) \<Rightarrow>
         (let instr = instr\<lparr>i_kind := IHint (ParallelForBegin reds shape)\<rparr>;
              bb = bb\<lparr>bb_instrs := (bb_instrs bb)[begin_idx := instr]\<rparr>
          in Inr (b\<lparr>b_blocks := (b_blocks b)[bid pre_block := bb]\<rparr>))
     | _ \<Rightarrow> Inl Panic))"

section \<open>For loops over a collection\<close>

definition iter_idx_name :: "string \<Rightarrow> string" where
  "iter_idx_name var = ''__intent_iter_idx_'' @ var"

definition is_iter_idx_name :: "string \<Rightarrow> bool" where
  "is_iter_idx_name name \<longleftrightarrow> take 18 name = ''__intent_iter_idx_''"

definition array_length_const :: "ty \<Rightarrow> nat" where
  "array_length_const t = (case deref t of TArray _ n \<Rightarrow> n | _ \<Rightarrow> 0)"

definition lower_for_iter_head ::
  "string \<Rightarrow> ty \<Rightarrow> string \<Rightarrow> typed_stmt list \<Rightarrow> builder \<Rightarrow> locals \<Rightarrow>
   (value_id \<times> ty \<times> block_id \<times> block_id \<times> block_id \<times> value_id \<times> value_id \<times> carry \<times> carry \<times> locals \<times> builder) lres" where
  "lower_for_iter_head var element_ty collection body b L =
     (case bt_get L collection of
        None \<Rightarrow> lower_fail (''for-iter over undeclared binding '' @ [CHR 0x27] @ collection @ [CHR 0x27]) span_default
      | Some coll_v \<Rightarrow>
     bindE (value_type b coll_v) (\<lambda>coll_ty.
     bindE (emit TI64 span_default (ILen (OVal coll_v) (array_length_const coll_ty)) b) (\<lambda>(len_v, b).
     let (header, b) = new_block b; (body_bb, b) = new_block b;
         (step, b) = new_block b; (exit, b) = new_block b in
     bindE (fresh_param header TI64 b) (\<lambda>(i_header, b).
     bindE (fresh_param exit TI64 b) (\<lambda>(i_exit, b).
     bindE (fresh_param step TI64 b) (\<lambda>(i_step, b).
     bindE (for_carry var header step exit L (modified_in_body body) b) (\<lambda>(cs, scs, b).
     bindE (carry_args L cs) (\<lambda>entry_rest.
     bindE (terminate (Jump header (OConst (CInt 0) # entry_rest)) b) (\<lambda>b.
     let cs = (iter_idx_name var, i_header, TI64) # cs;
         scs = (iter_idx_name var, i_step, TI64) # scs; b = set_current header b in
     bindE (emit TBool span_default (IBinary Lt (OVal i_header) (OVal len_v)) b) (\<lambda>(cmp, b).
     bindE (terminate (Branch (OVal cmp) body_bb [] exit (carry_params cs)) b) (\<lambda>b.
     let b = set_current body_bb b in
     bindE (emit element_ty span_default (IIndex (OVal coll_v) (OVal i_header) False) b) (\<lambda>(element_v, b).
     let body_locals = bt_insert var element_v (carry_locals cs L);
         b = push_loop \<lparr>lf_header = step, lf_exit = exit, lf_carry = scs\<rparr> b in
     Inr (coll_v, coll_ty, header, step, exit, i_header, i_step, cs, scs, body_locals, b)))))))))))))"

definition lower_for_iter_tail ::
  "string \<Rightarrow> bool \<Rightarrow> value_id \<Rightarrow> ty \<Rightarrow> block_id \<Rightarrow> block_id \<Rightarrow> block_id \<Rightarrow> value_id \<Rightarrow> value_id \<Rightarrow>
   carry \<Rightarrow> carry \<Rightarrow> locals \<Rightarrow> builder \<Rightarrow> locals \<Rightarrow> (builder \<times> locals) lres" where
  "lower_for_iter_tail collection consumes coll_v coll_ty header step exit i_header i_step cs scs body_locals b L =
     bindE (jump_if_open
       (\<lambda>_. bindE (carry_args body_locals (tl scs)) (\<lambda>rest. Inr (OVal i_header # rest))) step b) (\<lambda>b.
     let b = pop_loop b in
     bindE (step_to_header TI64 span_default step header i_step scs b) (\<lambda>b.
     let b = set_current exit b in
     bindE (nthE (b_blocks b) (bid exit)) (\<lambda>bb.
     let L = rebind_exit is_iter_idx_name cs (bb_params bb) L in
     if consumes \<and> is_vec (deref coll_ty)
     then bindE (emit_unit (TTuple []) span_default (IDrop (OVal coll_v) collection (deref coll_ty)) b) (\<lambda>b.
          Inr (b, L))
     else Inr (b, L))))"

section \<open>If statements\<close>

text \<open>
  Names a branch introduced with \<open>let\<close> and that exist outside are pinned back to their
  value at entry, so that the shadowing value does not leave the branch.
\<close>

fun restore_shadowed :: "string list \<Rightarrow> locals \<Rightarrow> locals \<Rightarrow> locals" where
  "restore_shadowed [] entry L = L"
| "restore_shadowed (name # names) entry L =
     restore_shadowed names entry
       (case bt_get entry name of Some v \<Rightarrow> bt_insert name v L | None \<Rightarrow> L)"

definition branch_value :: "locals \<Rightarrow> locals \<Rightarrow> string \<Rightarrow> value_id option" where
  "branch_value entry L name = (case bt_get L name of Some v \<Rightarrow> Some v | None \<Rightarrow> bt_get entry name)"

text \<open>The bindings that get a merge parameter: those on which the two branches disagree.\<close>

definition merged_names :: "locals \<Rightarrow> locals \<Rightarrow> locals \<Rightarrow> string list" where
  "merged_names entry then_locals else_locals =
     sort (map fst (filter (\<lambda>(name, entry_v).
       (case bt_get then_locals name of Some t \<Rightarrow> t | None \<Rightarrow> entry_v) \<noteq>
       (case bt_get else_locals name of Some e \<Rightarrow> e | None \<Rightarrow> entry_v)) entry))"

fun merge_params :: "block_id \<Rightarrow> locals \<Rightarrow> string list \<Rightarrow> builder \<Rightarrow> ((string \<times> value_id) list \<times> builder) lres" where
  "merge_params merge_bb entry [] b = Inr ([], b)"
| "merge_params merge_bb entry (name # names) b =
     bindE (expectE (bt_get entry name)) (\<lambda>entry_v.
     bindE (value_type b entry_v) (\<lambda>ty.
     bindE (fresh_param merge_bb ty b) (\<lambda>(v, b).
     bindE (merge_params merge_bb entry names b) (\<lambda>(ps, b).
     Inr ((name, v) # ps, b)))))"

fun merge_args :: "locals \<Rightarrow> locals \<Rightarrow> string list \<Rightarrow> operand list lres" where
  "merge_args entry L [] = Inr []"
| "merge_args entry L (name # names) =
     bindE (expectE (branch_value entry L name)) (\<lambda>v.
     bindE (merge_args entry L names) (\<lambda>vs. Inr (OVal v # vs)))"

definition merge_jump ::
  "bool \<Rightarrow> block_id \<Rightarrow> block_id \<Rightarrow> locals \<Rightarrow> locals \<Rightarrow> string list \<Rightarrow> builder \<Rightarrow> builder lres" where
  "merge_jump terminated tail_bb merge_bb entry L merged b =
     (if terminated then Inr b
      else bindE (merge_args entry L merged) (\<lambda>args.
           terminate (Jump merge_bb args) (set_current tail_bb b)))"

definition lower_if_head ::
  "typed_expr \<Rightarrow> builder \<Rightarrow> locals \<Rightarrow> (block_id \<times> block_id \<times> builder) lres" where
  "lower_if_head cond b L =
     bindE (lower_operand L cond b) (\<lambda>(c, b).
     let (then_bb, b) = new_block b; (else_bb, b) = new_block b in
     bindE (terminate (Branch c then_bb [] else_bb []) b) (\<lambda>b.
     Inr (then_bb, else_bb, b)))"

definition lower_if_tail ::
  "locals \<Rightarrow> locals \<Rightarrow> block_id \<Rightarrow> bool \<Rightarrow> locals \<Rightarrow> block_id \<Rightarrow> bool \<Rightarrow> builder \<Rightarrow> (builder \<times> locals) lres" where
  "lower_if_tail entry then_locals then_tail then_terminated else_locals else_tail else_terminated b =
     (if then_terminated \<and> else_terminated then Inr (b, entry)
      else
        let (merge_bb, b) = new_block b;
            merged = merged_names entry then_locals else_locals in
        bindE (merge_params merge_bb entry merged b) (\<lambda>(ps, b).
        bindE (merge_jump then_terminated then_tail merge_bb entry then_locals merged b) (\<lambda>b.
        bindE (merge_jump else_terminated else_tail merge_bb entry else_locals merged b) (\<lambda>b.
        Inr (set_current merge_bb b, bt_insert_all ps entry)))))"

section \<open>The simple statements\<close>

definition reassign_drop_supported :: "registries \<Rightarrow> ty \<Rightarrow> bool" where
  "reassign_drop_supported R ty = (case ty of
     TOwnedStr \<Rightarrow> True | TVec _ \<Rightarrow> True
   | TStruct _ \<Rightarrow> \<not> is_copy R ty | TEnum _ \<Rightarrow> \<not> is_copy R ty | _ \<Rightarrow> False)"

definition lower_reassign ::
  "registries \<Rightarrow> string \<Rightarrow> ty \<Rightarrow> typed_expr \<Rightarrow> bool \<Rightarrow> builder \<Rightarrow> locals \<Rightarrow> (builder \<times> locals) lres" where
  "lower_reassign R name ty e drop_old b L =
     (if drop_old \<and> \<not> reassign_drop_supported R ty
      then lower_fail (''reassign of '' @ [CHR 0x27] @ name @ [CHR 0x27] @
             '' over a non-Copy value is not in the v1 SSA subset'') (e_span e)
      else
        bindE (lower_value L e b) (\<lambda>(new_v, b).
        bindE (if drop_old then
                 (case bt_get L name of
                    Some old \<Rightarrow> emit_unit TI64 (e_span e) (IDrop (OVal old) name ty) b
                  | None \<Rightarrow> Inr b)
               else Inr b) (\<lambda>b.
        Inr (b, bt_insert name new_v L))))"

definition lower_assert ::
  "typed_expr \<Rightarrow> string option \<Rightarrow> builder \<Rightarrow> locals \<Rightarrow> (builder \<times> locals) lres" where
  "lower_assert e message b L =
     bindE (lower_operand L e b) (\<lambda>(cond, b).
     let (ok, b) = new_block b; (fail, b) = new_block b in
     bindE (terminate (Branch cond ok [] fail []) b) (\<lambda>b.
     let b = set_current fail b in
     bindE (case message of
              Some msg \<Rightarrow>
                bindE (emit TStr (e_span e) (IStrLit msg) b) (\<lambda>(msg_v, b).
                emit_unit TI64 (e_span e) (ICall ''intent_assert_fail'' [OVal msg_v]) b)
            | None \<Rightarrow> Inr b) (\<lambda>b.
     bindE (terminate Unreachable b) (\<lambda>b.
     Inr (set_current ok b, L)))))"

definition lower_break :: "builder \<Rightarrow> locals \<Rightarrow> (builder \<times> locals) lres" where
  "lower_break b L =
     (if b_loops b = [] then lower_fail ''break outside any loop reached the SSA lowerer'' span_default
      else let frame = last (b_loops b) in
        bindE (loop_carry_args frame L) (\<lambda>args.
        bindE (terminate (Jump (lf_exit frame) args) b) (\<lambda>b. Inr (b, L))))"

definition lower_continue :: "builder \<Rightarrow> locals \<Rightarrow> (builder \<times> locals) lres" where
  "lower_continue b L =
     (if b_loops b = [] then lower_fail ''continue outside any loop reached the SSA lowerer'' span_default
      else let frame = last (b_loops b) in
        bindE (loop_carry_args frame L) (\<lambda>args.
        bindE (terminate (Jump (lf_header frame) args) b) (\<lambda>b. Inr (b, L))))"

definition discard_needs_drop :: "registries \<Rightarrow> ty \<Rightarrow> bool" where
  "discard_needs_drop R ty = (case ty of
     TOwnedStr \<Rightarrow> True | TVec _ \<Rightarrow> True
   | TStruct _ \<Rightarrow> \<not> is_copy R ty | TEnum _ \<Rightarrow> \<not> is_copy R ty | _ \<Rightarrow> False)"

definition lower_discard :: "registries \<Rightarrow> typed_expr \<Rightarrow> builder \<Rightarrow> locals \<Rightarrow> (builder \<times> locals) lres" where
  "lower_discard R e b L =
     bindE (lower_value L e b) (\<lambda>(v, b).
     bindE (drop_if (discard_needs_drop R (e_ty e)) (OVal v) (e_ty e) (e_span e) b) (\<lambda>b. Inr (b, L)))"

definition lower_drop :: "string \<Rightarrow> ty \<Rightarrow> builder \<Rightarrow> locals \<Rightarrow> (builder \<times> locals) lres" where
  "lower_drop name ty b L =
     (let source = (case bt_get L name of Some v \<Rightarrow> OVal v | None \<Rightarrow> OConst (CInt 0)) in
      bindE (emit_unit TI64 span_default (IDrop source name ty) b) (\<lambda>b. Inr (b, L)))"

definition lower_index_assign ::
  "string \<Rightarrow> ty \<Rightarrow> typed_expr \<Rightarrow> (string \<times> nat) list \<Rightarrow> typed_expr \<Rightarrow> bool \<Rightarrow> builder \<Rightarrow> locals \<Rightarrow>
   (builder \<times> locals) lres" where
  "lower_index_assign name base_ty index field_path val checked b L =
     (if field_path \<noteq> [] then
        lower_fail (''SSA lowering of `xs[i].field = '' @ [CHR 0xE2, CHR 0x80, CHR 0xA6] @
          ''` is not yet implemented; routing to the tree backend'') (e_span index)
      else case bt_get L name of
        None \<Rightarrow> lower_fail (''IndexAssign target '' @ [CHR 0x27] @ name @ [CHR 0x27] @
                  '' has no SSA value (unknown binding)'') (e_span index)
      | Some a \<Rightarrow>
          bindE (lower_operand L index b) (\<lambda>(i, b).
          bindE (lower_operand L val b) (\<lambda>(v, b).
          bindE (emit_unit TI64 (e_span index) (IIndexAssign (OVal a) base_ty i v checked) b) (\<lambda>b.
          Inr (b, L)))))"

section \<open>Print\<close>

fun first_expr_span :: "typed_print_item list \<Rightarrow> span" where
  "first_expr_span [] = span_default"
| "first_expr_span (PIExpr e # its) = e_span e"
| "first_expr_span (PIStr s # its) = first_expr_span its"

definition lower_print_item :: "span \<Rightarrow> locals \<Rightarrow> typed_print_item \<Rightarrow> builder \<Rightarrow> builder lres" where
  "lower_print_item sp L item b =
     bindE (case item of
              PIExpr e \<Rightarrow> lower_operand L e b
            | PIStr text \<Rightarrow> emit_op TStr sp (IStrLit text) b) (\<lambda>(x, b).
     bindE (emit_unit TI64 sp (ICall ''intent_print_item'' [x]) b) (\<lambda>b.
     drop_if (case item of PIExpr e \<Rightarrow> is_fresh_owned_str e | PIStr _ \<Rightarrow> False) x TOwnedStr sp b))"

definition print_putc :: "span \<Rightarrow> int \<Rightarrow> builder \<Rightarrow> builder lres" where
  "print_putc sp c b = emit_unit TI64 sp (ICall ''intent_print_putc'' [OConst (CInt c)]) b"

fun lower_print_items :: "span \<Rightarrow> locals \<Rightarrow> typed_print_item list \<Rightarrow> builder \<Rightarrow> builder lres" where
  "lower_print_items sp L [] b = Inr b"
| "lower_print_items sp L [it] b = lower_print_item sp L it b"
| "lower_print_items sp L (it # it' # its) b =
     bindE (lower_print_item sp L it b) (\<lambda>b.
     bindE (print_putc sp 32 b) (\<lambda>b.
     lower_print_items sp L (it' # its) b))"

definition lower_print :: "typed_print_item list \<Rightarrow> builder \<Rightarrow> locals \<Rightarrow> (builder \<times> locals) lres" where
  "lower_print items b L =
     (let sp = first_expr_span items in
      bindE (lower_print_items sp L items b) (\<lambda>b.
      bindE (print_putc sp 10 b) (\<lambda>b. Inr (b, L))))"

section \<open>Statements\<close>

fun let_name :: "typed_stmt \<Rightarrow> string list" where
  "let_name (SLet name _ _) = [name]"
| "let_name _ = []"

fun lower_stmt :: "registries \<Rightarrow> typed_stmt \<Rightarrow> builder \<Rightarrow> locals \<Rightarrow> (builder \<times> locals) lres"
  and lower_stmts :: "registries \<Rightarrow> typed_stmt list \<Rightarrow> builder \<Rightarrow> locals \<Rightarrow> (string list \<times> builder \<times> locals) lres" where
  "lower_stmt R (SLet name ty e) b L =
     bindE (lower_value L e b) (\<lambda>(v, b). Inr (b, bt_insert name v L))"
| "lower_stmt R (SReassign name ty e drop_old) b L = lower_reassign R name ty e drop_old b L"
| "lower_stmt R (SReturn e) b L =
     bindE (lower_operand L e b) (\<lambda>(v, b).
     bindE (terminate (Return (Some v)) b) (\<lambda>b. Inr (b, L)))"
| "lower_stmt R (SAssert e message) b L = lower_assert e message b L"
| "lower_stmt R (SIf cond then_body else_body) b L =
     bindE (lower_if_head cond b L) (\<lambda>(then_bb, else_bb, b).
     bindE (lower_stmts R then_body (set_current then_bb b) L) (\<lambda>(then_names, b, then_locals).
     let then_tail = current_block b in
     bindE (current_block_terminator b) (\<lambda>then_term.
     let then_locals = restore_shadowed then_names L then_locals in
     bindE (lower_stmts R else_body (set_current else_bb b) L) (\<lambda>(else_names, b, else_locals).
     let else_tail = current_block b in
     bindE (current_block_terminator b) (\<lambda>else_term.
     let else_locals = restore_shadowed else_names L else_locals in
     lower_if_tail L then_locals then_tail (then_term \<noteq> None) else_locals else_tail (else_term \<noteq> None) b)))))"
| "lower_stmt R (SWhile cond body) b L =
     bindE (lower_while_head cond body b L) (\<lambda>(header, exit, cs, loop_locals, b).
     bindE (lower_stmts R body b loop_locals) (\<lambda>(_, b, body_locals).
     lower_while_tail header exit cs body_locals b L))"
| "lower_stmt R (SFor var ty start end body parallel reductions) b L =
     (if parallel then
        bindE (begin_parallel var ty (e_span start) reductions b) (\<lambda>(pre_block, begin_idx, b).
        bindE (lower_integer_for_head var ty start end body b L) (\<lambda>(shape, i_step, cs, scs, loop_locals, b).
        bindE (lower_stmts R body b loop_locals) (\<lambda>(_, b, body_locals).
        bindE (lower_integer_for_tail shape (e_span end) i_step cs scs body_locals b L) (\<lambda>(b, L).
        bindE (patch_parallel pre_block begin_idx (shape_of shape) b) (\<lambda>b.
        bindE (emit_unit TI64 (e_span end) (IHint ParallelForEnd) b) (\<lambda>b. Inr (b, L)))))))
      else
        bindE (lower_integer_for_head var ty start end body b L) (\<lambda>(shape, i_step, cs, scs, loop_locals, b).
        bindE (lower_stmts R body b loop_locals) (\<lambda>(_, b, body_locals).
        lower_integer_for_tail shape (e_span end) i_step cs scs body_locals b L)))"
| "lower_stmt R (STaskSpawn name body captures) b L =
     bindE (emit_unit TI64 span_default (IHint (TaskBegin name)) b) (\<lambda>b.
     bindE (lower_stmts R body b L) (\<lambda>(_, b, body_locals).
     bindE (emit_unit TI64 span_default (IHint (TaskEnd name)) b) (\<lambda>b.
     bindE (emit TI64 span_default (IConst (CInt 0)) b) (\<lambda>(dummy, b).
     Inr (b, bt_insert name dummy L)))))"
| "lower_stmt R (STaskJoin name) b L =
     bindE (emit_unit TI64 span_default (IHint (TaskJoin name)) b) (\<lambda>b. Inr (b, L))"
| "lower_stmt R SBreak b L = lower_break b L"
| "lower_stmt R SContinue b L = lower_continue b L"
| "lower_stmt R (SDiscard e) b L = lower_discard R e b L"
| "lower_stmt R (SDrop name ty moved_fields) b L = lower_drop name ty b L"
| "lower_stmt R (SFieldAssign ob f i m v) b L =
     lower_fail ''SSA lowering of field assignment is not yet supported'' span_default"
| "lower_stmt R (SIndexAssign name base_ty index field_path val checked) b L =
     lower_index_assign name base_ty index field_path val checked b L"
| "lower_stmt R (SPrint items) b L = lower_print items b L"
| "lower_stmt R (SProve e) b L = Inr (b, L)"
| "lower_stmt R (SForIter var element_ty collection collection_ty consumes body) b L =
     bindE (lower_for_iter_head var element_ty collection body b L)
       (\<lambda>(coll_v, coll_ty, header, step, exit, i_header, i_step, cs, scs, loop_locals, b).
     bindE (lower_stmts R body b loop_locals) (\<lambda>(_, b, body_locals).
     lower_for_iter_tail collection consumes coll_v coll_ty header step exit i_header i_step
       cs scs body_locals b L))"
| "lower_stmts R [] b L = Inr ([], b, L)"
| "lower_stmts R (s # ss) b L =
     bindE (current_block_terminator b) (\<lambda>t.
     case t of
       Some _ \<Rightarrow> Inr ([], b, L)
     | None \<Rightarrow>
         bindE (lower_stmt R s b L) (\<lambda>(b, L).
         bindE (lower_stmts R ss b L) (\<lambda>(names, b, L).
         Inr (let_name s @ names, b, L))))"

section \<open>Functions and programs\<close>

fun lower_params :: "block_id \<Rightarrow> typed_param list \<Rightarrow> builder \<Rightarrow> locals \<Rightarrow>
    ((string \<times> ty \<times> value_id) list \<times> builder \<times> locals) lres" where
  "lower_params entry [] b L = Inr ([], b, L)"
| "lower_params entry (p # ps) b L =
     bindE (fresh_param entry (tp_ty p) b) (\<lambda>(v, b).
     bindE (lower_params entry ps b (bt_insert (tp_name p) v L)) (\<lambda>(recs, b, L).
     Inr ((tp_name p, tp_ty p, v) # recs, b, L)))"

definition lower_extern :: "typed_function \<Rightarrow> func lres" where
  "lower_extern f =
     (let b = builder_new (tf_name f) (tf_return_type f); (entry, b) = new_block b in
      bindE (lower_params entry (tf_params f) b []) (\<lambda>(recs, b, _).
      bindE (terminate Unreachable (b\<lparr>b_params := recs, b_entry := entry\<rparr>)) (\<lambda>b.
      bindE (build b) (\<lambda>fn. Inr (fn\<lparr>fn_is_extern := True\<rparr>)))))"

definition lower_function :: "registries \<Rightarrow> typed_function \<Rightarrow> func lres" where
  "lower_function R f =
     (if tf_is_extern f then lower_extern f
      else
        let b = builder_new (tf_name f) (tf_return_type f); (entry, b) = new_block b;
            b = set_current entry b in
        bindE (lower_params entry (tf_params f) b []) (\<lambda>(recs, b, L).
        bindE (lower_stmts R (tf_body f) (b\<lparr>b_params := recs, b_entry := entry\<rparr>) L) (\<lambda>(_, b, L).
        bindE (current_block_terminator b) (\<lambda>t.
        bindE (case t of None \<Rightarrow> terminate Unreachable b | Some _ \<Rightarrow> Inr b) (\<lambda>b.
        bindE (build b) (\<lambda>fn. Inr (fn\<lparr>fn_recursion_bound := tf_recursion_bound f\<rparr>)))))))"

fun lower_functions :: "registries \<Rightarrow> typed_function list \<Rightarrow> (func list \<times> lower_error list) option" where
  "lower_functions R [] = Some ([], [])"
| "lower_functions R (f # fs) =
     (case lower_function R f of
        Inl Panic \<Rightarrow> None
      | Inl (Fail e) \<Rightarrow> map_option (\<lambda>(fns, errs). (fns, e # errs)) (lower_functions R fs)
      | Inr fn \<Rightarrow> map_option (\<lambda>(fns, errs). (fn # fns, errs)) (lower_functions R fs))"

text \<open>Functions outside the subset are skipped and reported; \<open>None\<close> would be a panic.\<close>

definition lower_program :: "registries \<Rightarrow> typed_program \<Rightarrow> (ssa_module \<times> lower_error list) option" where
  "lower_program R p =
     map_option (\<lambda>(fns, errs). (\<lparr>m_functions = fns\<rparr>, errs)) (lower_functions R (tpg_functions p))"

end
