(* ===== verification/SsaInv.thy ===== *)
theory SsaInv
  imports SsaLower
begin

text \<open>
  The builder invariant and what each builder operation does to it. \<open>binv n b\<close> is the
  invariant with all edges and loop frames below block \<open>n\<close>: the blocks from \<open>n\<close> on are
  open, they may still be given parameters. \<open>ble n b b'\<close> says \<open>b'\<close> is a later state of
  \<open>b\<close>: blocks below \<open>n\<close> keep their parameters and terminators and only grow in
  instructions. \<open>keep\<close> adds that control stays where it is.
\<close>

section \<open>The invariant\<close>

definition values_ok :: "nat \<Rightarrow> value_id list \<Rightarrow> bool" where
  "values_ok k vs \<longleftrightarrow> (\<forall>v\<in>set vs. vid v < k)"

definition op_ok :: "builder \<Rightarrow> operand \<Rightarrow> bool" where
  "op_ok b x \<longleftrightarrow> values_ok (b_next_value b) (operand_values [x])"

definition term_ok :: "nat \<Rightarrow> nat \<Rightarrow> basic_block list \<Rightarrow> terminator \<Rightarrow> bool" where
  "term_ok n k bbs t \<longleftrightarrow>
     values_ok k (term_uses t) \<and> (\<forall>e\<in>set (term_edges t). bid (fst e) < n \<and> edge_ok bbs e)"

definition frame_ok :: "nat \<Rightarrow> basic_block list \<Rightarrow> loop_frame \<Rightarrow> bool" where
  "frame_ok n bbs fr \<longleftrightarrow>
     bid (lf_header fr) < n \<and> bid (lf_exit fr) < n \<and>
     param_count bbs (bid (lf_header fr)) = length (lf_carry fr) \<and>
     param_count bbs (bid (lf_exit fr)) = length (lf_carry fr)"

definition binv :: "nat \<Rightarrow> builder \<Rightarrow> bool" where
  "binv n b \<longleftrightarrow>
     n \<le> length (b_blocks b) \<and>
     length (b_terminators b) = length (b_blocks b) \<and>
     map bb_id (b_blocks b) = map BlockId [0..<length (b_blocks b)] \<and>
     length (b_value_types b) = b_next_value b \<and>
     mset (blocks_defs (b_blocks b)) = mset (map ValueId [0..<b_next_value b]) \<and>
     bid (b_current b) < length (b_blocks b) \<and>
     (\<forall>bb\<in>set (b_blocks b). \<forall>i\<in>set (bb_instrs bb). values_ok (b_next_value b) (instr_uses i)) \<and>
     (\<forall>t. Some t \<in> set (b_terminators b) \<longrightarrow> term_ok n (b_next_value b) (b_blocks b) t) \<and>
     (\<forall>fr\<in>set (b_loops b). frame_ok n (b_blocks b) fr)"

lemma binvI:
  assumes "n \<le> length (b_blocks b)" and "length (b_terminators b) = length (b_blocks b)"
    and "map bb_id (b_blocks b) = map BlockId [0..<length (b_blocks b)]"
    and "length (b_value_types b) = b_next_value b"
    and "mset (blocks_defs (b_blocks b)) = mset (map ValueId [0..<b_next_value b])"
    and "bid (b_current b) < length (b_blocks b)"
    and "\<And>bb i. bb \<in> set (b_blocks b) \<Longrightarrow> i \<in> set (bb_instrs bb) \<Longrightarrow> values_ok (b_next_value b) (instr_uses i)"
    and "\<And>t. Some t \<in> set (b_terminators b) \<Longrightarrow> term_ok n (b_next_value b) (b_blocks b) t"
    and "\<And>fr. fr \<in> set (b_loops b) \<Longrightarrow> frame_ok n (b_blocks b) fr"
  shows "binv n b"
  using assms unfolding binv_def by blast

lemma binvD:
  assumes "binv n b"
  shows "n \<le> length (b_blocks b)" and "length (b_terminators b) = length (b_blocks b)"
    and "map bb_id (b_blocks b) = map BlockId [0..<length (b_blocks b)]"
    and "length (b_value_types b) = b_next_value b"
    and "mset (blocks_defs (b_blocks b)) = mset (map ValueId [0..<b_next_value b])"
    and "bid (b_current b) < length (b_blocks b)"
    and "\<And>bb i. bb \<in> set (b_blocks b) \<Longrightarrow> i \<in> set (bb_instrs bb) \<Longrightarrow> values_ok (b_next_value b) (instr_uses i)"
    and "\<And>t. Some t \<in> set (b_terminators b) \<Longrightarrow> term_ok n (b_next_value b) (b_blocks b) t"
    and "\<And>fr. fr \<in> set (b_loops b) \<Longrightarrow> frame_ok n (b_blocks b) fr"
  using assms unfolding binv_def by blast+

definition is_pf_begin :: "instr_kind \<Rightarrow> bool" where
  "is_pf_begin k \<longleftrightarrow> (case k of IHint (ParallelForBegin _ _) \<Rightarrow> True | _ \<Rightarrow> False)"

text \<open>Two instructions agree up to the recorded shape of a parallel for.\<close>

definition instr_sim :: "instruction \<Rightarrow> instruction \<Rightarrow> bool" where
  "instr_sim i j \<longleftrightarrow> i_result i = i_result j \<and> i_ty i = i_ty j \<and>
     (i_kind i = i_kind j \<or> is_pf_begin (i_kind i) \<and> is_pf_begin (i_kind j))"

definition instrs_le :: "instruction list \<Rightarrow> instruction list \<Rightarrow> bool" where
  "instrs_le xs ys \<longleftrightarrow> length xs \<le> length ys \<and> (\<forall>j<length xs. instr_sim (xs ! j) (ys ! j))"

definition ble :: "nat \<Rightarrow> builder \<Rightarrow> builder \<Rightarrow> bool" where
  "ble n b b' \<longleftrightarrow>
     n \<le> length (b_blocks b) \<and> length (b_blocks b) \<le> length (b_blocks b') \<and>
     b_next_value b \<le> b_next_value b' \<and>
     b_name b' = b_name b \<and> b_return_type b' = b_return_type b \<and>
     b_params b' = b_params b \<and> b_entry b' = b_entry b \<and>
     (\<forall>i<n. bb_params (b_blocks b' ! i) = bb_params (b_blocks b ! i) \<and>
            (\<forall>t. b_terminators b ! i = Some t \<longrightarrow> b_terminators b' ! i = Some t) \<and>
            instrs_le (bb_instrs (b_blocks b ! i)) (bb_instrs (b_blocks b' ! i)))"

definition keep :: "builder \<Rightarrow> builder \<Rightarrow> bool" where
  "keep b b' \<longleftrightarrow> ble (length (b_blocks b)) b b' \<and> length (b_blocks b') = length (b_blocks b) \<and>
     b_loops b' = b_loops b \<and> b_current b' = b_current b \<and> b_terminators b' = b_terminators b"

lemma values_ok_mono: "values_ok k vs \<Longrightarrow> k \<le> k' \<Longrightarrow> values_ok k' vs"
  by (auto simp: values_ok_def)

lemma values_ok_simps [simp]:
  "values_ok k []"
  "values_ok k (v # vs) \<longleftrightarrow> vid v < k \<and> values_ok k vs"
  "values_ok k (vs @ ws) \<longleftrightarrow> values_ok k vs \<and> values_ok k ws"
  by (auto simp: values_ok_def)

lemma op_ok_simps [simp]:
  "op_ok b (OConst c)"
  "op_ok b (OVal v) \<longleftrightarrow> vid v < b_next_value b"
  by (simp_all add: op_ok_def)

lemma values_ok_operands:
  "values_ok k (operand_values xs) \<longleftrightarrow> (\<forall>x\<in>set xs. values_ok k (operand_values [x]))"
proof (induction xs)
  case Nil
  then show ?case by simp
next
  case (Cons x xs)
  then show ?case by (cases x) auto
qed

lemma instr_sim_refl [simp]: "instr_sim i i"
  by (simp add: instr_sim_def)

lemma instr_sim_trans: "instr_sim i j \<Longrightarrow> instr_sim j k \<Longrightarrow> instr_sim i k"
  by (auto simp: instr_sim_def)

lemma instrs_le_refl [simp]: "instrs_le xs xs"
  by (simp add: instrs_le_def)

lemma instrs_le_append [simp]: "instrs_le xs (xs @ ys)"
  by (simp add: instrs_le_def nth_append)

lemma instrs_le_trans: "instrs_le xs ys \<Longrightarrow> instrs_le ys zs \<Longrightarrow> instrs_le xs zs"
  unfolding instrs_le_def by (meson instr_sim_trans order_trans less_le_trans)

lemma ble_refl: "n \<le> length (b_blocks b) \<Longrightarrow> ble n b b"
  by (simp add: ble_def)

lemma ble_trans: "ble n b b' \<Longrightarrow> ble m b' b'' \<Longrightarrow> n \<le> m \<Longrightarrow> ble n b b''"
  unfolding ble_def by (auto intro: instrs_le_trans order_trans)

lemma ble_weaken: "ble m b b' \<Longrightarrow> n \<le> m \<Longrightarrow> ble n b b'"
  unfolding ble_def by auto

lemma ble_next: "ble n b b' \<Longrightarrow> b_next_value b \<le> b_next_value b'"
  by (simp add: ble_def)

lemma ble_blocks: "ble n b b' \<Longrightarrow> length (b_blocks b) \<le> length (b_blocks b')"
  by (simp add: ble_def)

lemma ble_param_count: "ble n b b' \<Longrightarrow> i < n \<Longrightarrow> param_count (b_blocks b') i = param_count (b_blocks b) i"
  by (simp add: ble_def param_count_def)

lemma keep_refl [simp]: "keep b b"
  by (simp add: keep_def ble_refl)

lemma keep_trans: "keep b b' \<Longrightarrow> keep b' b'' \<Longrightarrow> keep b b''"
  unfolding keep_def by (auto intro: ble_trans)

lemma keep_ble: "keep b b' \<Longrightarrow> n \<le> length (b_blocks b) \<Longrightarrow> ble n b b'"
  unfolding keep_def by (auto intro: ble_weaken)

lemma keep_next: "keep b b' \<Longrightarrow> b_next_value b \<le> b_next_value b'"
  unfolding keep_def by (auto dest: ble_next)

lemma op_ok_mono: "op_ok b x \<Longrightarrow> b_next_value b \<le> b_next_value b' \<Longrightarrow> op_ok b' x"
  by (auto simp: op_ok_def intro: values_ok_mono)

lemma term_ok_mono:
  "term_ok n k bbs t \<Longrightarrow> n \<le> m \<Longrightarrow> k \<le> k' \<Longrightarrow> term_ok m k' bbs t"
  unfolding term_ok_def by (auto intro: values_ok_mono)

lemma term_ok_blocks:
  assumes "term_ok n k bbs t" and "length bbs \<le> length bbs'"
    and "\<And>i. i < n \<Longrightarrow> param_count bbs' i = param_count bbs i"
  shows "term_ok n k bbs' t"
  using assms unfolding term_ok_def edge_ok_def by fastforce

lemma frame_ok_blocks:
  "frame_ok n bbs fr \<Longrightarrow> (\<And>i. i < n \<Longrightarrow> param_count bbs' i = param_count bbs i) \<Longrightarrow> frame_ok n bbs' fr"
  unfolding frame_ok_def by simp

lemma frame_ok_mono: "frame_ok n bbs fr \<Longrightarrow> n \<le> m \<Longrightarrow> frame_ok m bbs fr"
  unfolding frame_ok_def by simp

text \<open>Closing the open blocks up to \<open>m\<close>.\<close>

lemma binv_raise: "binv n b \<Longrightarrow> n \<le> m \<Longrightarrow> m \<le> length (b_blocks b) \<Longrightarrow> binv m b"
  unfolding binv_def by (auto intro: term_ok_mono frame_ok_mono)

lemma binv_set_current: "binv n b \<Longrightarrow> bid blk < length (b_blocks b) \<Longrightarrow> binv n (set_current blk b)"
  by (simp add: binv_def set_current_def)

lemma set_current_simps [simp]:
  "b_blocks (set_current blk b) = b_blocks b"
  "b_next_value (set_current blk b) = b_next_value b"
  "b_loops (set_current blk b) = b_loops b"
  "b_terminators (set_current blk b) = b_terminators b"
  "b_current (set_current blk b) = blk"
  "ble n b (set_current blk b') = ble n b b'"
  "ble n (set_current blk b) b' = ble n b b'"
  by (simp_all add: set_current_def ble_def)

lemma push_pop_simps [simp]:
  "b_blocks (push_loop fr b) = b_blocks b"
  "b_next_value (push_loop fr b) = b_next_value b"
  "b_loops (push_loop fr b) = b_loops b @ [fr]"
  "b_current (push_loop fr b) = b_current b"
  "b_terminators (push_loop fr b) = b_terminators b"
  "ble n b (push_loop fr b') = ble n b b'"
  "ble n (push_loop fr b) b' = ble n b b'"
  "b_blocks (pop_loop b) = b_blocks b"
  "b_next_value (pop_loop b) = b_next_value b"
  "b_loops (pop_loop b) = butlast (b_loops b)"
  "b_current (pop_loop b) = b_current b"
  "b_terminators (pop_loop b) = b_terminators b"
  "ble n b (pop_loop b') = ble n b b'"
  by (simp_all add: push_loop_def pop_loop_def ble_def)

lemma binv_push_loop: "binv n b \<Longrightarrow> frame_ok n (b_blocks b) fr \<Longrightarrow> binv n (push_loop fr b)"
  by (auto simp: binv_def push_loop_def)

lemma binv_pop_loop: "binv n b \<Longrightarrow> binv n (pop_loop b)"
  by (auto simp: binv_def pop_loop_def dest: in_set_butlastD)

lemma op_ok_set_current [simp]:
  "op_ok (set_current blk b) x = op_ok b x" "op_ok (push_loop fr b) x = op_ok b x"
  "op_ok (pop_loop b) x = op_ok b x"
  by (simp_all add: op_ok_def)

section \<open>Definitions of blocks\<close>

lemma blocks_defs_update:
  assumes "i < length bbs"
  shows "mset (blocks_defs (bbs[i := bb])) + mset (block_defs (bbs ! i)) =
         mset (blocks_defs bbs) + mset (block_defs bb)"
  using mset_concat_update[OF assms, of block_defs bb] by (simp add: blocks_defs_def)

lemma blocks_defs_append_param:
  assumes "i < length bbs"
  shows "mset (blocks_defs (bbs[i := (bbs ! i)\<lparr>bb_params := bb_params (bbs ! i) @ [(v, ty)]\<rparr>])) =
         mset (blocks_defs bbs) + {#v#}"
  using blocks_defs_update[OF assms, of "(bbs ! i)\<lparr>bb_params := bb_params (bbs ! i) @ [(v, ty)]\<rparr>"]
  by (simp add: block_defs_def)

lemma blocks_defs_append_instr:
  assumes "i < length bbs"
  shows "mset (blocks_defs (bbs[i := (bbs ! i)\<lparr>bb_instrs := bb_instrs (bbs ! i) @ [ins]\<rparr>])) =
         mset (blocks_defs bbs) + {#i_result ins#}"
  using blocks_defs_update[OF assms, of "(bbs ! i)\<lparr>bb_instrs := bb_instrs (bbs ! i) @ [ins]\<rparr>"]
  by (simp add: block_defs_def)

lemma binv_defs_set: "binv n b \<Longrightarrow> set (blocks_defs (b_blocks b)) = ValueId ` {..<b_next_value b}"
proof -
  assume "binv n b"
  then have "set_mset (mset (blocks_defs (b_blocks b))) = set_mset (mset (map ValueId [0..<b_next_value b]))"
    by (simp only: binv_def)
  then show ?thesis by (simp add: lessThan_atLeast0)
qed

lemma binv_defs_distinct: "binv n b \<Longrightarrow> distinct (blocks_defs (b_blocks b))"
proof -
  assume "binv n b"
  then have "mset (blocks_defs (b_blocks b)) = mset (map ValueId [0..<b_next_value b])"
    by (simp only: binv_def)
  moreover have "distinct (map ValueId [0..<b_next_value b])"
    by (simp add: distinct_map inj_on_def)
  ultimately show ?thesis by (rule mset_eq_imp_distinct_iff[THEN iffD2])
qed

lemma binv_param_value:
  assumes "binv n b" and "i < length (b_blocks b)" and "(v, t) \<in> set (bb_params (b_blocks b ! i))"
  shows "vid v < b_next_value b"
proof -
  have "v \<in> set (blocks_defs (b_blocks b))"
    using assms(2,3) by (force simp: blocks_defs_def block_defs_def)
  then show ?thesis using binv_defs_set[OF assms(1)] by auto
qed

section \<open>The builder operations\<close>

lemma okE_bindI: "okE m P \<Longrightarrow> (\<And>x. P x \<Longrightarrow> okE (f x) Q) \<Longrightarrow> okE (bindE m f) Q"
  by (auto simp: okE_bind elim: okE_mono)

lemma okE_bind2I:
  "okE m (\<lambda>(x, y). P x y) \<Longrightarrow> (\<And>x y. P x y \<Longrightarrow> okE (f x y) Q) \<Longrightarrow> okE (bindE m (\<lambda>(x, y). f x y)) Q"
  by (auto simp: okE_bind elim!: okE_mono)

lemma okE_bind3I:
  "okE m (\<lambda>(x, y, z). P x y z) \<Longrightarrow> (\<And>x y z. P x y z \<Longrightarrow> okE (f x y z) Q) \<Longrightarrow>
   okE (bindE m (\<lambda>(x, y, z). f x y z)) Q"
  by (auto simp: okE_bind elim!: okE_mono)

lemma ids_nth: "map bb_id bbs = map BlockId [0..<length bbs] \<Longrightarrow> i < length bbs \<Longrightarrow> bb_id (bbs ! i) = BlockId i"
proof -
  assume h: "map bb_id bbs = map BlockId [0..<length bbs]" and i: "i < length bbs"
  have "map bb_id bbs ! i = map BlockId [0..<length bbs] ! i" by (simp only: h)
  with i show ?thesis by simp
qed

lemma ids_update:
  "map bb_id bbs = map BlockId [0..<length bbs] \<Longrightarrow> i < length bbs \<Longrightarrow> bb_id bb = bb_id (bbs ! i) \<Longrightarrow>
   map bb_id (bbs[i := bb]) = map BlockId [0..<length bbs]"
  by (simp add: map_update list_update_same_conv[symmetric] ids_nth) (metis ids_nth length_map list_update_id map_nth nth_map)

lemma param_count_update [simp]:
  "i < length bbs \<Longrightarrow> param_count (bbs[i := bb]) j = (if i = j then length (bb_params bb) else param_count bbs j)"
  by (auto simp: param_count_def nth_list_update)

lemma param_count_append:
  "i < length bbs \<Longrightarrow> param_count (bbs @ ys) i = param_count bbs i"
  by (simp add: param_count_def nth_append)

text \<open>A new block: open, without parameters.\<close>

lemma binv_new_block:
  assumes "binv n b" and "new_block b = (blk, b')"
  shows "binv n b' \<and> ble (length (b_blocks b)) b b' \<and> blk = BlockId (length (b_blocks b)) \<and>
         length (b_blocks b') = Suc (length (b_blocks b)) \<and> b_next_value b' = b_next_value b \<and>
         b_loops b' = b_loops b \<and> b_current b' = b_current b \<and>
         param_count (b_blocks b') (length (b_blocks b)) = 0 \<and>
         (\<forall>i<length (b_blocks b). param_count (b_blocks b') i = param_count (b_blocks b) i) \<and>
         (\<forall>i<length (b_blocks b). b_terminators b' ! i = b_terminators b ! i)"
proof -
  let ?n = "length (b_blocks b)"
  let ?bb = "\<lparr>bb_id = BlockId ?n, bb_params = [], bb_instrs = [], bb_term = Unreachable\<rparr>"
  have b': "b' = b\<lparr>b_blocks := b_blocks b @ [?bb], b_terminators := b_terminators b @ [None]\<rparr>"
    and blk: "blk = BlockId ?n"
    using assms(2) by (auto simp: new_block_def Let_def)
  have pc: "param_count (b_blocks b @ [?bb]) i = param_count (b_blocks b) i" if "i < ?n" for i
    using that by (rule param_count_append)
  have n: "n \<le> ?n" using assms(1) by (simp add: binv_def)
  have t: "term_ok n (b_next_value b) (b_blocks b @ [?bb]) t" if "Some t \<in> set (b_terminators b)" for t
    by (rule term_ok_blocks[OF binvD(8)[OF assms(1) that]]) (use n pc in auto)
  have fr: "frame_ok n (b_blocks b @ [?bb]) fr" if "fr \<in> set (b_loops b)" for fr
    by (rule frame_ok_blocks[OF binvD(9)[OF assms(1) that]]) (use n pc in auto)
  note inv = binvD[OF assms(1)]
  have "binv n b'"
  proof (rule binvI)
    show "map bb_id (b_blocks b') = map BlockId [0..<length (b_blocks b')]"
      using inv(3) by (simp add: b')
    show "mset (blocks_defs (b_blocks b')) = mset (map ValueId [0..<b_next_value b'])"
      using inv(5) by (simp add: b' blocks_defs_def block_defs_def)
    show "values_ok (b_next_value b') (instr_uses i)"
      if "bb \<in> set (b_blocks b')" "i \<in> set (bb_instrs bb)" for bb i
      using inv(7) that by (auto simp: b')
    show "n \<le> length (b_blocks b')" using n by (simp add: b')
    show "length (b_terminators b') = length (b_blocks b')" using inv(2) by (simp add: b')
    show "length (b_value_types b') = b_next_value b'" using inv(4) by (simp add: b')
    show "bid (b_current b') < length (b_blocks b')" using inv(6) by (simp add: b')
    show "term_ok n (b_next_value b') (b_blocks b') t" if "Some t \<in> set (b_terminators b')" for t
      using t[of t] that by (simp add: b')
    show "frame_ok n (b_blocks b') fr" if "fr \<in> set (b_loops b')" for fr
      using fr[of fr] that by (simp add: b')
  qed
  moreover have "ble ?n b b'"
    using inv(2) by (simp add: ble_def b' nth_append)
  ultimately show ?thesis
    using pc inv(2) by (simp add: b' blk param_count_def nth_append)
qed

text \<open>A fresh parameter of an open block.\<close>

lemma fresh_param_ok:
  assumes "binv n b" and "n \<le> bid blk" and "bid blk < length (b_blocks b)"
  shows "okE (fresh_param blk ty b) (\<lambda>(v, b'). binv n b' \<and> ble n b b' \<and>
           v = ValueId (b_next_value b) \<and> b_next_value b' = Suc (b_next_value b) \<and>
           length (b_blocks b') = length (b_blocks b) \<and> b_loops b' = b_loops b \<and>
           b_current b' = b_current b \<and>
           bb_params (b_blocks b' ! bid blk) = bb_params (b_blocks b ! bid blk) @ [(v, ty)] \<and>
           (\<forall>i. param_count (b_blocks b') i =
                 param_count (b_blocks b) i + (if i = bid blk then 1 else 0)))"
proof -
  let ?i = "bid blk" and ?v = "ValueId (b_next_value b)"
  let ?bb = "(b_blocks b ! ?i)\<lparr>bb_params := bb_params (b_blocks b ! ?i) @ [(?v, ty)]\<rparr>"
  let ?bbs = "(b_blocks b)[?i := ?bb]"
  define b' where "b' = b\<lparr>b_next_value := b_next_value b + 1,
    b_value_types := (b_value_types b @ [TI64])[b_next_value b := ty], b_blocks := ?bbs\<rparr>"
  have inv: "length (b_value_types b) = b_next_value b"
    using assms(1) by (simp add: binv_def)
  have eq: "fresh_param blk ty b = Inr (?v, b')"
    using assms(3) inv
    by (simp add: fresh_param_def fresh_value_def add_block_param_def updE_def nthE_def b'_def)
  have pc: "param_count ?bbs i = param_count (b_blocks b) i + (if i = ?i then 1 else 0)" for i
    using assms(3) by (cases "i = ?i") (simp_all add: param_count_def)
  have pcn: "param_count ?bbs i = param_count (b_blocks b) i" if "i < n" for i
    using that assms(2) pc by simp
  have t: "term_ok n (Suc (b_next_value b)) ?bbs t" if "Some t \<in> set (b_terminators b)" for t
    by (rule term_ok_blocks[OF term_ok_mono[OF binvD(8)[OF assms(1) that] order_refl le_SucI[OF order_refl]]])
      (use pcn in auto)
  have fr: "frame_ok n ?bbs fr" if "fr \<in> set (b_loops b)" for fr
    by (rule frame_ok_blocks[OF binvD(9)[OF assms(1) that]]) (use pcn in auto)
  have ids: "map bb_id ?bbs = map BlockId [0..<length (b_blocks b)]"
    using assms(1,3) by (intro ids_update) (auto simp: binv_def)
  have uses: "values_ok (Suc (b_next_value b)) (instr_uses i)"
    if "bb \<in> set ?bbs" "i \<in> set (bb_instrs bb)" for bb i
  proof -
    from that(1) have "bb = ?bb \<or> bb \<in> set (b_blocks b)" by (meson set_update_subset_insert subsetD insertE)
    then have "\<exists>bb'\<in>set (b_blocks b). i \<in> set (bb_instrs bb')"
      using that(2) assms(3) nth_mem by fastforce
    then obtain bb' where "bb' \<in> set (b_blocks b)" "i \<in> set (bb_instrs bb')" by blast
    then show ?thesis using binvD(7)[OF assms(1)] by (meson values_ok_mono le_SucI order_refl)
  qed
  have defs: "mset (blocks_defs ?bbs) = mset (map ValueId [0..<Suc (b_next_value b)])"
    using assms(1) blocks_defs_append_param[OF assms(3), of ?v ty] by (simp add: binv_def)
  have bs: "b_blocks b' = ?bbs" and nv: "b_next_value b' = Suc (b_next_value b)"
    by (simp_all add: b'_def)
  have "binv n b'"
  proof (rule binvI)
    show "values_ok (b_next_value b') (instr_uses i)"
      if "bb \<in> set (b_blocks b')" "i \<in> set (bb_instrs bb)" for bb i
      using uses that by (simp add: b'_def)
    show "n \<le> length (b_blocks b')" using binvD(1)[OF assms(1)] by (simp add: b'_def)
    show "length (b_terminators b') = length (b_blocks b')"
      using binvD(2)[OF assms(1)] by (simp add: b'_def)
    show "map bb_id (b_blocks b') = map BlockId [0..<length (b_blocks b')]"
      unfolding bs length_list_update by (rule ids)
    show "length (b_value_types b') = b_next_value b'" using inv by (simp add: b'_def)
    show "mset (blocks_defs (b_blocks b')) = mset (map ValueId [0..<b_next_value b'])"
      unfolding bs nv by (rule defs)
    show "bid (b_current b') < length (b_blocks b')" using binvD(6)[OF assms(1)] by (simp add: b'_def)
    show "term_ok n (b_next_value b') (b_blocks b') t" if "Some t \<in> set (b_terminators b')" for t
      using t[of t] that by (simp add: b'_def)
    show "frame_ok n (b_blocks b') fr" if "fr \<in> set (b_loops b')" for fr
      using fr[of fr] that by (simp add: b'_def)
  qed
  moreover have "ble n b b'"
    using binvD(1)[OF assms(1)] assms(2) by (simp add: ble_def b'_def)
  ultimately show ?thesis using pc assms(3) by (simp add: eq b'_def)
qed

text \<open>Emitting an instruction into the current block.\<close>

lemma emit_ok:
  assumes "binv n b" and "values_ok (b_next_value b) (operand_values (instr_operands kind))"
  shows "okE (emit ty sp kind b) (\<lambda>(v, b'). binv n b' \<and> keep b b' \<and> vid v < b_next_value b')"
proof -
  let ?i = "bid (b_current b)" and ?v = "ValueId (b_next_value b)"
  let ?ins = "\<lparr>i_result = ?v, i_kind = kind, i_ty = ty, i_span = sp\<rparr>"
  let ?bb = "(b_blocks b ! ?i)\<lparr>bb_instrs := bb_instrs (b_blocks b ! ?i) @ [?ins]\<rparr>"
  let ?bbs = "(b_blocks b)[?i := ?bb]"
  define b' where "b' = b\<lparr>b_next_value := b_next_value b + 1,
    b_value_types := (b_value_types b @ [TI64])[b_next_value b := ty], b_blocks := ?bbs\<rparr>"
  have inv: "length (b_value_types b) = b_next_value b" and cur: "?i < length (b_blocks b)"
    using assms(1) by (simp_all add: binv_def)
  have eq: "emit ty sp kind b = Inr (?v, b')"
    using cur inv by (simp add: emit_def fresh_value_def updE_def nthE_def b'_def Let_def)
  have pc: "param_count ?bbs i = param_count (b_blocks b) i" for i
    using cur by (cases "i = ?i") (simp_all add: param_count_def)
  have t: "term_ok n (Suc (b_next_value b)) ?bbs t" if "Some t \<in> set (b_terminators b)" for t
    by (rule term_ok_blocks[OF term_ok_mono[OF binvD(8)[OF assms(1) that] order_refl le_SucI[OF order_refl]]])
      (use pc in auto)
  have fr: "frame_ok n ?bbs fr" if "fr \<in> set (b_loops b)" for fr
    by (rule frame_ok_blocks[OF binvD(9)[OF assms(1) that]]) (use pc in auto)
  have ids: "map bb_id ?bbs = map BlockId [0..<length (b_blocks b)]"
    using assms(1) cur by (intro ids_update) (auto simp: binv_def)
  have uses: "values_ok (Suc (b_next_value b)) (instr_uses i)"
    if "bb \<in> set ?bbs" "i \<in> set (bb_instrs bb)" for bb i
  proof -
    from that(1) have "bb = ?bb \<or> bb \<in> set (b_blocks b)" by (meson set_update_subset_insert subsetD insertE)
    then have "i = ?ins \<or> (\<exists>bb'\<in>set (b_blocks b). i \<in> set (bb_instrs bb'))"
      using that(2) nth_mem[OF cur] by (elim disjE) auto
    then consider "i = ?ins" | bb' where "bb' \<in> set (b_blocks b)" "i \<in> set (bb_instrs bb')"
      by blast
    then show ?thesis
    proof cases
      case 1
      then show ?thesis
        using assms(2) values_ok_mono[OF _ le_SucI[OF order_refl]] by (simp add: instr_uses_def)
    next
      case 2
      then show ?thesis using binvD(7)[OF assms(1)] by (meson values_ok_mono le_SucI order_refl)
    qed
  qed
  have defs: "mset (blocks_defs ?bbs) = mset (map ValueId [0..<Suc (b_next_value b)])"
    using assms(1) blocks_defs_append_instr[OF cur, of ?ins] by (simp add: binv_def)
  have bs: "b_blocks b' = ?bbs" and nv: "b_next_value b' = Suc (b_next_value b)"
    by (simp_all add: b'_def)
  have "binv n b'"
  proof (rule binvI)
    show "values_ok (b_next_value b') (instr_uses i)"
      if "bb \<in> set (b_blocks b')" "i \<in> set (bb_instrs bb)" for bb i
      using uses that by (simp add: b'_def)
    show "n \<le> length (b_blocks b')" using binvD(1)[OF assms(1)] by (simp add: b'_def)
    show "length (b_terminators b') = length (b_blocks b')"
      using binvD(2)[OF assms(1)] by (simp add: b'_def)
    show "map bb_id (b_blocks b') = map BlockId [0..<length (b_blocks b')]"
      unfolding bs length_list_update by (rule ids)
    show "length (b_value_types b') = b_next_value b'" using inv by (simp add: b'_def)
    show "mset (blocks_defs (b_blocks b')) = mset (map ValueId [0..<b_next_value b'])"
      unfolding bs nv by (rule defs)
    show "bid (b_current b') < length (b_blocks b')" using binvD(6)[OF assms(1)] by (simp add: b'_def)
    show "term_ok n (b_next_value b') (b_blocks b') t" if "Some t \<in> set (b_terminators b')" for t
      using t[of t] that by (simp add: b'_def)
    show "frame_ok n (b_blocks b') fr" if "fr \<in> set (b_loops b')" for fr
      using fr[of fr] that by (simp add: b'_def)
  qed
  moreover have "keep b b'"
    using cur by (auto simp: keep_def ble_def b'_def nth_list_update)
  ultimately show ?thesis by (simp add: eq b'_def)
qed

text \<open>Terminating the current block: the first terminator stays.\<close>

lemma terminate_ok:
  assumes "binv n b" and "term_ok n (b_next_value b) (b_blocks b) t"
  shows "okE (terminate t b) (\<lambda>b'. binv n b' \<and> ble (length (b_blocks b)) b b' \<and>
           b_blocks b' = b_blocks b \<and> b_next_value b' = b_next_value b \<and>
           b_loops b' = b_loops b \<and> b_current b' = b_current b)"
proof -
  have c: "bid (b_current b) < length (b_terminators b)"
    using assms(1) by (simp add: binv_def)
  show ?thesis
  proof (cases "b_terminators b ! bid (b_current b)")
    case None
    have "b_terminators (b\<lparr>b_terminators := (b_terminators b)[bid (b_current b) := Some t]\<rparr>) ! i = Some t'"
      if "b_terminators b ! i = Some t'" for i t'
      using that None c by (cases "i = bid (b_current b)") auto
    moreover have "Some t' \<in> set ((b_terminators b)[bid (b_current b) := Some t]) \<Longrightarrow>
        t' = t \<or> Some t' \<in> set (b_terminators b)" for t'
      by (meson set_update_subset_insert subsetD insertE option.inject)
    ultimately show ?thesis
      using None c assms by (fastforce simp: terminate_def nthE_def binv_def ble_def Let_def)
  next
    case (Some t')
    then show ?thesis using c assms by (simp add: terminate_def nthE_def Let_def ble_refl)
  qed
qed

lemma value_type_ok: "binv n b \<Longrightarrow> vid v < b_next_value b \<Longrightarrow> okE (value_type b v) (\<lambda>_. True)"
  by (simp add: value_type_def okE_nth binv_def)

lemma current_block_terminator_ok:
  "binv n b \<Longrightarrow> okE (current_block_terminator b) (\<lambda>t. t = b_terminators b ! bid (b_current b))"
  by (simp add: current_block_terminator_def okE_nth binv_def)

end
