(* ===== verification/SsaStmtWf.thy ===== *)
theory SsaStmtWf
  imports SsaLowerWf
begin

text \<open>
  The statements keep the builder invariant. \<open>sinv b L\<close> is the state between two
  statements: the invariant with every block closed, bindings of defined values, and the
  innermost loop's carried names bound. Each structured statement has a lemma for its
  head and one for its tail; the induction over the program joins them.
\<close>

section \<open>Block parameters\<close>

abbreviation pc :: "builder \<Rightarrow> block_id \<Rightarrow> nat" where
  "pc b blk \<equiv> param_count (b_blocks b) (bid blk)"

text \<open>A step that only adds parameters to open blocks or instructions to the current one.\<close>

definition grow :: "nat \<Rightarrow> builder \<Rightarrow> builder \<Rightarrow> bool" where
  "grow n b b' \<longleftrightarrow> ble n b b' \<and> length (b_blocks b') = length (b_blocks b) \<and>
     b_loops b' = b_loops b \<and> b_current b' = b_current b"

lemma grow_trans: "grow n b b' \<Longrightarrow> grow n b' b'' \<Longrightarrow> grow n b b''"
  unfolding grow_def by (auto intro: ble_trans)

lemma grow_refl: "n \<le> length (b_blocks b) \<Longrightarrow> grow n b b"
  by (simp add: grow_def ble_refl)

lemma grow_next: "grow n b b' \<Longrightarrow> b_next_value b \<le> b_next_value b'"
  unfolding grow_def by (auto dest: ble_next)

lemma lvals_grow: "lvals b L \<Longrightarrow> grow n b b' \<Longrightarrow> lvals b' L"
  by (rule lvals_mono[OF _ grow_next])

lemma param_step:
  assumes "binv n b" and "n \<le> bid blk" and "bid blk < length (b_blocks b)"
  shows "okE (fresh_param blk ty b) (\<lambda>(v, b'). binv n b' \<and> grow n b b' \<and> vid v < b_next_value b' \<and>
           (\<forall>i. param_count (b_blocks b') i = param_count (b_blocks b) i + (if i = bid blk then 1 else 0)))"
  by (rule okE_mono[OF fresh_param_ok[OF assms, of ty]])
    (auto simp: grow_def)

lemma keep_pc: "keep b b' \<Longrightarrow> bid blk < length (b_blocks b) \<Longrightarrow> pc b' blk = pc b blk"
  unfolding keep_def by (auto dest: ble_param_count)

text \<open>The parameters a carry list stands for: bound names, defined values.\<close>

definition carry_ok :: "nat \<Rightarrow> string set \<Rightarrow> carry \<Rightarrow> bool" where
  "carry_ok k D cs \<longleftrightarrow> (\<forall>(x, v, t)\<in>set cs. x \<in> D \<and> vid v < k)"

lemma carry_ok_Nil [simp]: "carry_ok k D []"
  by (simp add: carry_ok_def)

lemma carry_ok_Cons [simp]: "carry_ok k D ((x, v, t) # cs) \<longleftrightarrow> x \<in> D \<and> vid v < k \<and> carry_ok k D cs"
  by (simp add: carry_ok_def)

lemma carry_ok_mono: "carry_ok k D cs \<Longrightarrow> k \<le> k' \<Longrightarrow> D \<subseteq> D' \<Longrightarrow> carry_ok k' D' cs"
  by (fastforce simp: carry_ok_def)

lemma while_carry_ok:
  assumes "binv n b" and "lvals b L" and "bid header \<noteq> bid exit"
    and "n \<le> bid header" and "bid header < length (b_blocks b)"
    and "n \<le> bid exit" and "bid exit < length (b_blocks b)"
  shows "okE (while_carry header exit L names b) (\<lambda>(cs, b').
           binv n b' \<and> grow n b b' \<and> carry_ok (b_next_value b') (dom (bt_get L)) cs \<and>
           (\<forall>i. param_count (b_blocks b') i = param_count (b_blocks b) i +
                  (if i \<in> {bid header, bid exit} then length cs else 0)))"
  using assms
proof (induction names arbitrary: b)
  case Nil
  then show ?case by (simp add: grow_refl binvD(1))
next
  case (Cons name names)
  show ?case
  proof (cases "bt_get L name")
    case None
    then show ?thesis using Cons by simp
  next
    case (Some w)
    have w: "vid w < b_next_value b" using Cons.prems(2) Some by (rule lvals_get)
    show ?thesis
      unfolding while_carry.simps Some option.case
    proof (rule okE_bindI[OF value_type_ok[OF Cons.prems(1) w]],
        rule okE_bind2I[OF param_step[OF Cons.prems(1,4,5)]], goal_cases hp)
      case (hp ty v b1)
      then have g1: "grow n b b1" and i1: "binv n b1" by simp_all
      have l1: "length (b_blocks b1) = length (b_blocks b)" using g1 by (simp add: grow_def)
      have e1: "bid exit < length (b_blocks b1)" using l1 Cons.prems(7) by simp
      show ?case
      proof (rule okE_bind2I[OF param_step[OF i1 Cons.prems(6) e1]], goal_cases ep)
        case (ep w b2)
        then have g2: "grow n b1 b2" and i2: "binv n b2" by simp_all
        have l2: "length (b_blocks b2) = length (b_blocks b)" using g2 l1 by (simp add: grow_def)
        have L2: "lvals b2 L"
          using Cons.prems(2) grow_next[OF g1] grow_next[OF g2] by (meson lvals_mono order_trans)
        show ?case
        proof (rule okE_bind2I[OF Cons.IH[OF i2 L2 Cons.prems(3)]], goal_cases _ _ _ _ rest)
          case (rest cs b3)
          then show ?case
            using hp ep g1 g2 Cons.prems(3) Some grow_next[OF g2] grow_next[of n b2 b3]
            by (auto intro: grow_trans)
        qed (use Cons.prems l2 in auto)
      qed
    qed
  qed
qed

lemma for_carry_ok:
  assumes "binv n b" and "lvals b L" and "distinct [bid header, bid step, bid exit]"
    and "n \<le> bid header" and "bid header < length (b_blocks b)"
    and "n \<le> bid exit" and "bid exit < length (b_blocks b)"
    and "n \<le> bid step" and "bid step < length (b_blocks b)"
  shows "okE (for_carry var header step exit L names b) (\<lambda>(cs, scs, b').
           binv n b' \<and> grow n b b' \<and> carry_ok (b_next_value b') (dom (bt_get L)) cs \<and>
           carry_ok (b_next_value b') (dom (bt_get L)) scs \<and> map fst scs = map fst cs \<and>
           (\<forall>i. param_count (b_blocks b') i = param_count (b_blocks b) i +
                  (if i \<in> {bid header, bid step, bid exit} then length cs else 0)))"
  using assms
proof (induction names arbitrary: b)
  case Nil
  then show ?case by (simp add: grow_refl binvD(1))
next
  case (Cons name names)
  show ?case
  proof (cases "name = var \<or> bt_get L name = None")
    case True
    then have "for_carry var header step exit L (name # names) b = for_carry var header step exit L names b"
      by auto
    then show ?thesis using Cons.IH[OF Cons.prems] by (simp only:)
  next
    case False
    then obtain w where nv: "name \<noteq> var" and Some: "bt_get L name = Some w" by auto
    have w: "vid w < b_next_value b" using Cons.prems(2) Some by (rule lvals_get)
    show ?thesis
      unfolding for_carry.simps Some option.case if_not_P[OF nv]
    proof (rule okE_bindI[OF value_type_ok[OF Cons.prems(1) w]],
        rule okE_bind2I[OF param_step[OF Cons.prems(1,4,5)]], goal_cases hp)
      case (hp ty v b1)
      then have g1: "grow n b b1" and i1: "binv n b1" by simp_all
      then have l1: "bid exit < length (b_blocks b1)" "length (b_blocks b1) = length (b_blocks b)"
        using Cons.prems(7) by (simp_all add: grow_def)
      show ?case
      proof (rule okE_bind2I[OF param_step[OF i1 Cons.prems(6) l1(1)]], goal_cases ep)
        case (ep w b2)
        then have g2: "grow n b1 b2" and i2: "binv n b2" by simp_all
        then have l2: "bid step < length (b_blocks b2)" "length (b_blocks b2) = length (b_blocks b)"
          using Cons.prems(9) l1 by (simp_all add: grow_def)
        show ?case
        proof (rule okE_bind2I[OF param_step[OF i2 Cons.prems(8) l2(1)]], goal_cases sp)
          case (sp u b3)
          then have g3: "grow n b2 b3" and i3: "binv n b3" by simp_all
          note gn = grow_next[OF g1] grow_next[OF g2] grow_next[OF g3]
          have l3: "length (b_blocks b3) = length (b_blocks b)" using g3 l2 by (simp add: grow_def)
          have L3: "lvals b3 L" using Cons.prems(2) gn by (meson lvals_mono order_trans)
          have IH: "okE (for_carry var header step exit L names b3) (\<lambda>(cs, scs, b').
             binv n b' \<and> grow n b3 b' \<and> carry_ok (b_next_value b') (dom (bt_get L)) cs \<and>
             carry_ok (b_next_value b') (dom (bt_get L)) scs \<and> map fst scs = map fst cs \<and>
             (\<forall>i. param_count (b_blocks b') i = param_count (b_blocks b3) i +
                  (if i \<in> {bid header, bid step, bid exit} then length cs else 0)))"
            using Cons.prems(3-) l3 by (intro Cons.IH[OF i3 L3]) simp_all
          have g03: "grow n b b3" using g1 g2 g3 by (meson grow_trans)
          show ?case
          proof (rule okE_bind3I[OF IH], goal_cases rest)
            case (rest cs scs b4)
            then have "b_next_value b3 \<le> b_next_value b4" "grow n b b4"
              using g03 grow_next grow_trans by blast+
            with rest gn hp ep sp Cons.prems(3) Some show ?case by auto
          qed
        qed
      qed
    qed
  qed
qed

lemma carry_ok_names: "carry_ok k D cs \<Longrightarrow> fst ` set cs \<subseteq> D"
  by (fastforce simp: carry_ok_def)

lemma carry_args_ok:
  "fst ` set cs \<subseteq> dom (bt_get L) \<Longrightarrow> lvals b L \<Longrightarrow>
   okE (carry_args L cs) (\<lambda>xs. length xs = length cs \<and> below_ops (b_next_value b) xs)"
proof (induction cs)
  case Nil
  then show ?case by simp
next
  case (Cons c cs)
  obtain x v t where c: "c = (x, v, t)" by (cases c)
  with Cons.prems(1) obtain w where w: "bt_get L x = Some w" by auto
  have "okE (carry_args L cs) (\<lambda>xs. length xs = length cs \<and> below_ops (b_next_value b) xs)"
    using Cons c by simp
  then show ?case
    using w lvals_get[OF Cons.prems(2) w] by (auto simp: c expectE_def okE_bind elim!: okE_mono)
qed

lemma carry_params_ok: "carry_ok k D cs \<Longrightarrow> length (carry_params cs) = length cs \<and> below_ops k (carry_params cs)"
  by (fastforce simp: carry_ok_def carry_params_def)

lemma carry_locals_ok: "carry_ok (b_next_value b) D cs \<Longrightarrow> lvals b L \<Longrightarrow> lvals b (carry_locals cs L)"
  by (induction cs L rule: carry_locals.induct) (auto intro: lvals_insert)

lemma dom_bt_insert [simp]: "dom (bt_get (bt_insert k v m)) = insert k (dom (bt_get m))"
  by (auto simp: dom_def)

lemma carry_locals_dom [simp]: "dom (bt_get (carry_locals cs L)) = fst ` set cs \<union> dom (bt_get L)"
  by (induction cs L rule: carry_locals.induct) auto

lemma rebind_exit_ok:
  "lvals b L \<Longrightarrow> \<forall>(v, t)\<in>set ps. vid v < b_next_value b \<Longrightarrow>
   lvals b (rebind_exit skip cs ps L) \<and> dom (bt_get L) \<subseteq> dom (bt_get (rebind_exit skip cs ps L))"
proof (induction skip cs ps L rule: rebind_exit.induct)
  case (1 skip name u t cs exit_v t' ps L)
  have "lvals b (if skip name then L else bt_insert name exit_v L)"
    using 1(2,3) by (auto intro: lvals_insert)
  from 1(1)[OF this] 1(3) show ?case by (auto split: if_splits)
qed auto

section \<open>Control\<close>

text \<open>A new block, by its counts.\<close>

lemma new_block_step:
  assumes "binv n b"
  obtains b' where "new_block b = (BlockId (length (b_blocks b)), b')" and "binv n b'"
    and "ble (length (b_blocks b)) b b'" and "length (b_blocks b') = Suc (length (b_blocks b))"
    and "b_next_value b' = b_next_value b" and "b_loops b' = b_loops b" and "b_current b' = b_current b"
    and "\<And>i. i \<le> length (b_blocks b) \<Longrightarrow>
      param_count (b_blocks b') i = (if i = length (b_blocks b) then 0 else param_count (b_blocks b) i)"
proof -
  obtain blk b' where nb: "new_block b = (blk, b')" by (cases "new_block b")
  show ?thesis using binv_new_block[OF assms nb] that nb by auto
qed

lemma jump_step:
  assumes "binv n b" and "values_ok (b_next_value b) (term_uses t)"
    and "\<forall>e\<in>set (term_edges t). bid (fst e) < n \<and> length (snd e) = pc b (fst e)"
  shows "okE (terminate t b) (\<lambda>b'. binv n b' \<and> ble (length (b_blocks b)) b b' \<and>
           b_blocks b' = b_blocks b \<and> b_next_value b' = b_next_value b \<and>
           b_loops b' = b_loops b \<and> b_current b' = b_current b)"
  using assms(2,3) binvD(1)[OF assms(1)]
  by (intro terminate_ok[OF assms(1)]) (fastforce simp: term_ok_def edge_ok_def)

lemma term_uses_ok [simp]:
  "values_ok k (term_uses (Jump t xs)) \<longleftrightarrow> below_ops k xs"
  "values_ok k (term_uses (Branch c t ts e es)) \<longleftrightarrow> below_op k c \<and> below_ops k ts \<and> below_ops k es"
  "values_ok k (term_uses (Return (Some c))) \<longleftrightarrow> below_op k c"
  "values_ok k (term_uses Unreachable)"
  unfolding term_uses_def by (simp_all only: values_ok_opb term_operands.simps) auto

section \<open>Statements\<close>

definition frames_bound :: "builder \<Rightarrow> locals \<Rightarrow> bool" where
  "frames_bound b L \<longleftrightarrow> (b_loops b \<noteq> [] \<longrightarrow> fst ` set (lf_carry (last (b_loops b))) \<subseteq> dom (bt_get L))"

definition sinv :: "builder \<Rightarrow> locals \<Rightarrow> bool" where
  "sinv b L \<longleftrightarrow> binv (length (b_blocks b)) b \<and> lvals b L \<and> frames_bound b L"

text \<open>What a statement does to the state, and the triple of a statement.\<close>

definition sle :: "builder \<Rightarrow> builder \<Rightarrow> bool" where
  "sle b b' \<longleftrightarrow> ble (length (b_blocks b)) b b' \<and> b_loops b' = b_loops b"

definition st :: "builder \<Rightarrow> locals \<Rightarrow> (builder \<times> locals) lres \<Rightarrow> bool" where
  "st b L m \<longleftrightarrow> okE m (\<lambda>(b', L'). sinv b' L' \<and> sle b b' \<and> dom (bt_get L) \<subseteq> dom (bt_get L'))"

lemma sle_refl [simp]: "sle b b"
  by (simp add: sle_def ble_refl)

lemma sle_trans: "sle b b' \<Longrightarrow> sle b' b'' \<Longrightarrow> sle b b''"
  unfolding sle_def by (auto intro: ble_trans dest: ble_blocks)

lemma sle_next: "sle b b' \<Longrightarrow> b_next_value b \<le> b_next_value b'"
  unfolding sle_def by (auto dest: ble_next)

lemma sle_blocks: "sle b b' \<Longrightarrow> length (b_blocks b) \<le> length (b_blocks b')"
  unfolding sle_def by (auto dest: ble_blocks)

lemma sle_pc: "sle b b' \<Longrightarrow> bid blk < length (b_blocks b) \<Longrightarrow> pc b' blk = pc b blk"
  unfolding sle_def by (auto intro: ble_param_count)

lemma keep_sle: "keep b b' \<Longrightarrow> sle b b'"
  by (simp add: keep_def sle_def)

lemma keep_len: "keep b b' \<Longrightarrow> length (b_blocks b') = length (b_blocks b)"
  by (simp add: keep_def)

lemma sinv_keep:
  "sinv b L \<Longrightarrow> keep b b' \<Longrightarrow> binv (length (b_blocks b)) b' \<Longrightarrow> sinv b' L"
  by (auto simp: sinv_def frames_bound_def keep_def intro: lvals_mono dest: ble_next)

lemma sinv_insert: "sinv b L \<Longrightarrow> vid v < b_next_value b \<Longrightarrow> sinv b (bt_insert k v L)"
  by (auto simp: sinv_def frames_bound_def intro: lvals_insert)

lemma sinvD: "sinv b L \<Longrightarrow> binv (length (b_blocks b)) b" "sinv b L \<Longrightarrow> lvals b L"
  by (simp_all add: sinv_def)

lemma sinv_get: "sinv b L \<Longrightarrow> bt_get L k = Some v \<Longrightarrow> vid v < b_next_value b"
  by (auto dest: sinvD(2) lvals_get)

lemma st_ret: "sinv b L' \<Longrightarrow> dom (bt_get L) \<subseteq> dom (bt_get L') \<Longrightarrow> st b L (Inr (b, L'))"
  by (simp add: st_def)

lemma st_fail [simp]: "st b L (Inl (Fail e))"
  by (simp add: st_def)

text \<open>Sequencing after an operation that keeps control.\<close>

lemma st_bind_et:
  assumes "sinv b L" and "et (length (b_blocks b)) b m P"
    and "\<And>x b'. sinv b' L \<Longrightarrow> keep b b' \<Longrightarrow> b_next_value b \<le> b_next_value b' \<Longrightarrow>
           P (b_next_value b') x \<Longrightarrow> st b' L (f x b')"
  shows "st b L (bindE m (\<lambda>(x, b). f x b))"
  using assms(2,3) unfolding et_def st_def okE_bind
  by (fastforce elim!: okE_mono intro: sinv_keep[OF assms(1)] sle_trans[OF keep_sle] simp: keep_next)

lemma st_bind_eu:
  assumes "sinv b L" and "eu (length (b_blocks b)) b m"
    and "\<And>b'. sinv b' L \<Longrightarrow> keep b b' \<Longrightarrow> b_next_value b \<le> b_next_value b' \<Longrightarrow> st b' L (f b')"
  shows "st b L (bindE m f)"
  using assms(2,3) unfolding eu_def st_def okE_bind
  by (fastforce elim!: okE_mono intro: sinv_keep[OF assms(1)] sle_trans[OF keep_sle] simp: keep_next)

lemma lower_value_st: "sinv b L \<Longrightarrow> et (length (b_blocks b)) b (lower_value L e b) below_val"
  by (rule lower_value_et) (auto dest: sinvD)

lemma lower_operand_st: "sinv b L \<Longrightarrow> et (length (b_blocks b)) b (lower_operand L e b) below_op"
  by (rule lower_operand_et) (auto dest: sinvD)

lemma emit_unit_st:
  "sinv b L \<Longrightarrow> below_ops (b_next_value b) (instr_operands kind) \<Longrightarrow>
   eu (length (b_blocks b)) b (emit_unit ty sp kind b)"
  by (rule emit_unit_eu) (auto dest: sinvD)

lemma drop_if_st:
  "sinv b L \<Longrightarrow> below_op (b_next_value b) x \<Longrightarrow> eu (length (b_blocks b)) b (drop_if c x ty sp b)"
  by (rule drop_if_eu) (auto dest: sinvD)

lemma lower_reassign_st: "sinv b L \<Longrightarrow> st b L (lower_reassign R name ty e drop_old b L)"
proof -
  assume s: "sinv b L"
  have "eu (length (b_blocks b')) b'
      (if drop_old then (case bt_get L name of
         Some old \<Rightarrow> emit_unit TI64 (e_span e) (IDrop (OVal old) name ty) b' | None \<Rightarrow> Inr b')
       else Inr b')" if "sinv b' L" for b'
    using that by (auto split: option.split intro!: emit_unit_st eu_ret dest: sinvD sinv_get simp: Suc_le_eq)
  then show ?thesis
    using s unfolding lower_reassign_def
    by (auto intro!: st_bind_et[OF _ lower_value_st] st_bind_eu st_ret sinv_insert)
qed

lemma lower_discard_st: "sinv b L \<Longrightarrow> st b L (lower_discard R e b L)"
  unfolding lower_discard_def
  by (auto intro!: st_bind_et[OF _ lower_value_st] st_bind_eu[OF _ drop_if_st] st_ret)

lemma lower_drop_st: "sinv b L \<Longrightarrow> st b L (lower_drop name ty b L)"
  unfolding lower_drop_def Let_def
  by (auto intro!: st_bind_eu[OF _ emit_unit_st] st_ret split: option.split dest: sinv_get simp: Suc_le_eq)

lemma lower_index_assign_st: "sinv b L \<Longrightarrow> st b L (lower_index_assign name bty i fp v c b L)"
proof -
  assume s: "sinv b L"
  show ?thesis
    using s unfolding lower_index_assign_def
    by (auto split: option.split simp: Suc_le_eq
        intro!: st_bind_et[OF _ lower_operand_st] st_bind_eu[OF _ emit_unit_st] st_ret)
      (metis sinv_get)
qed

text \<open>Ending the current block.\<close>

lemma terminate_st:
  assumes "sinv b L" and "values_ok (b_next_value b) (term_uses t)"
    and "\<forall>e\<in>set (term_edges t). bid (fst e) < length (b_blocks b) \<and> length (snd e) = pc b (fst e)"
  shows "okE (terminate t b) (\<lambda>b'. sinv b' L \<and> sle b b' \<and> b_blocks b' = b_blocks b \<and>
           b_next_value b' = b_next_value b \<and> b_current b' = b_current b \<and> b_loops b' = b_loops b)"
  using jump_step[OF sinvD(1)[OF assms(1)] assms(2,3)] assms(1)
  by (elim okE_mono) (simp add: sinv_def sle_def frames_bound_def lvals_def)

lemma lower_return_st:
  "sinv b L \<Longrightarrow> below_op (b_next_value b) v \<Longrightarrow>
   st b L (bindE (terminate (Return (Some v)) b) (\<lambda>b. Inr (b, L)))"
  unfolding st_def okE_bind by (rule okE_mono[OF terminate_st]) auto

lemma frame_jump:
  assumes "sinv b L" and "b_loops b \<noteq> []"
    and "t = lf_exit (last (b_loops b)) \<or> t = lf_header (last (b_loops b))"
  shows "st b L (bindE (loop_carry_args (last (b_loops b)) L) (\<lambda>args.
           bindE (terminate (Jump t args) b) (\<lambda>b. Inr (b, L))))"
proof -
  have fr: "frame_ok (length (b_blocks b)) (b_blocks b) (last (b_loops b))"
    using binvD(9)[OF sinvD(1)[OF assms(1)]] assms(2) by simp
  have names: "fst ` set (lf_carry (last (b_loops b))) \<subseteq> dom (bt_get L)"
    using assms(1,2) by (simp add: sinv_def frames_bound_def)
  show ?thesis
    unfolding st_def loop_carry_args_def
  proof (rule okE_bindI[OF carry_args_ok[OF names sinvD(2)[OF assms(1)]]], goal_cases)
    case (1 xs)
    have "okE (terminate (Jump t xs) b) (\<lambda>b'. sinv b' L \<and> sle b b')"
      by (rule okE_mono[OF terminate_st[OF assms(1)]])
        (use 1 fr assms(3) in \<open>auto simp: frame_ok_def\<close>)
    then show ?case by (auto simp: okE_bind elim: okE_mono)
  qed
qed

lemma lower_break_st: "sinv b L \<Longrightarrow> st b L (lower_break b L)"
  unfolding lower_break_def Let_def by (auto intro!: frame_jump)

lemma lower_continue_st: "sinv b L \<Longrightarrow> st b L (lower_continue b L)"
  unfolding lower_continue_def Let_def by (auto intro!: frame_jump)

section \<open>Print\<close>

lemma lower_print_item_eu: "sinv b L \<Longrightarrow> eu (length (b_blocks b)) b (lower_print_item sp L it b)"
proof -
  assume s: "sinv b L"
  have "et (length (b_blocks b)) b (case it of
       PIExpr e \<Rightarrow> lower_operand L e b | PIStr text \<Rightarrow> emit_op TStr sp (IStrLit text) b) below_op"
    using s by (cases it) (auto intro!: lower_operand_st emit_op_et dest: sinvD)
  then show ?thesis
    unfolding lower_print_item_def
    by (rule eu_bind_et) (auto intro!: eu_bind[OF emit_unit_eu] drop_if_eu)
qed

lemma print_putc_eu: "binv n b \<Longrightarrow> eu n b (print_putc sp c b)"
  unfolding print_putc_def by (rule emit_unit_eu) auto

lemma lower_print_items_eu: "sinv b L \<Longrightarrow> eu (length (b_blocks b)) b (lower_print_items sp L its b)"
proof (induction sp L its b rule: lower_print_items.induct)
  case (1 sp L b)
  then show ?case by (simp add: eu_ret sinvD)
next
  case (2 sp L it b)
  then show ?case by (simp add: lower_print_item_eu)
next
  case (3 sp L it it' its b)
  show ?case
    unfolding lower_print_items.simps
  proof (rule eu_bind[OF lower_print_item_eu[OF 3(2)]], rule eu_bind[OF print_putc_eu], goal_cases)
    case (2 b1 b2)
    then have k: "keep b b2" and i: "binv (length (b_blocks b)) b2" by (auto intro: keep_trans)
    have "eu (length (b_blocks b2)) b2 (lower_print_items sp L (it' # its) b2)"
      using 3(1)[OF 2(1) 2(5) sinv_keep[OF 3(2) k i]] .
    then show ?case using keep_len[OF k] by simp
  qed
qed

lemma lower_print_st: "sinv b L \<Longrightarrow> st b L (lower_print its b L)"
  unfolding lower_print_def Let_def
  by (auto intro!: st_bind_eu[OF _ lower_print_items_eu] st_bind_eu[OF _ print_putc_eu] st_ret dest: sinvD)

end
