(* ===== verification/SsaStructWf.thy ===== *)
theory SsaStructWf
  imports SsaStmtWf
begin

text \<open>
  The structured statements and the functions: assertions, conditionals, the three loops,
  tasks, the induction over statements, and the well-formedness of what \<open>lower_function\<close>
  and \<open>lower_program\<close> return.
\<close>

section \<open>Opening blocks between statements\<close>

lemma sinv_sle: "sinv b L \<Longrightarrow> sle b b' \<Longrightarrow> sinv b' L' \<Longrightarrow> sinv b' L"
  by (auto simp: sinv_def sle_def frames_bound_def intro: lvals_mono dest: ble_next)

lemma frames_bound_mono: "frames_bound b L \<Longrightarrow> dom (bt_get L) \<subseteq> dom (bt_get L') \<Longrightarrow> frames_bound b L'"
  unfolding frames_bound_def by blast

lemma sinv_set_current: "sinv b L \<Longrightarrow> bid blk < length (b_blocks b) \<Longrightarrow> sinv (set_current blk b) L"
  by (auto simp: sinv_def frames_bound_def lvals_def intro: binv_set_current)

lemma sle_set_current [simp]:
  "sle b (set_current blk b') = sle b b'" "sle (set_current blk b) b' = sle b b'"
  by (simp_all add: sle_def)

lemma new_block_sinv:
  assumes "sinv b L"
  obtains b' where "new_block b = (BlockId (length (b_blocks b)), b')" and "sinv b' L" and "sle b b'"
    and "length (b_blocks b') = Suc (length (b_blocks b))" and "b_next_value b' = b_next_value b"
    and "b_current b' = b_current b" and "b_loops b' = b_loops b"
    and "param_count (b_blocks b') (length (b_blocks b)) = 0"
proof -
  obtain b' where b': "new_block b = (BlockId (length (b_blocks b)), b')" "binv (length (b_blocks b)) b'"
    "ble (length (b_blocks b)) b b'" "length (b_blocks b') = Suc (length (b_blocks b))"
    "b_next_value b' = b_next_value b" "b_loops b' = b_loops b" "b_current b' = b_current b"
    "param_count (b_blocks b') (length (b_blocks b)) = 0"
    by (rule new_block_step[OF sinvD(1)[OF assms]]) simp
  have "binv (length (b_blocks b')) b'" using b'(4) by (intro binv_raise[OF b'(2)]) simp_all
  then have "sinv b' L" using b' assms by (simp add: sinv_def frames_bound_def lvals_def)
  with b' show ?thesis by (intro that) (simp_all add: sle_def)
qed

lemma st_bind_sb:
  assumes "okE m (\<lambda>b'. sinv b' L \<and> sle b b' \<and> P b')"
    and "\<And>b'. sinv b' L \<Longrightarrow> sle b b' \<Longrightarrow> P b' \<Longrightarrow> st b' L (f b')"
  shows "st b L (bindE m f)"
  using assms unfolding st_def okE_bind by (fastforce elim!: okE_mono intro: sle_trans)

lemma st_bind_st:
  assumes "st b L m"
    and "\<And>b' L'. sinv b' L' \<Longrightarrow> sle b b' \<Longrightarrow> dom (bt_get L) \<subseteq> dom (bt_get L') \<Longrightarrow> st b' L' (f b' L')"
  shows "st b L (bindE m (\<lambda>(b, L). f b L))"
  using assms unfolding st_def okE_bind by (fastforce elim!: okE_mono intro: sle_trans)

lemma st_pre: "sle b b' \<Longrightarrow> st b' L m \<Longrightarrow> st b L m"
  unfolding st_def by (auto elim!: okE_mono intro: sle_trans)

lemma st_ret_le:
  "sinv b' L' \<Longrightarrow> sle b b' \<Longrightarrow> dom (bt_get L) \<subseteq> dom (bt_get L') \<Longrightarrow> st b L (Inr (b', L'))"
  by (simp add: st_def)

lemma st_at:
  "st (set_current blk b) L (f (set_current blk b)) \<Longrightarrow> st b L (let b = set_current blk b in f b)"
  by (simp add: st_def Let_def)

lemma lower_assert_st: "sinv b L \<Longrightarrow> st b L (lower_assert e message b L)"
  unfolding lower_assert_def
proof (rule st_bind_et[OF _ lower_operand_st], assumption, assumption, goal_cases)
  case (1 c b0)
  obtain b1 where b1: "new_block b0 = (BlockId (length (b_blocks b0)), b1)" "sinv b1 L" "sle b0 b1"
    "length (b_blocks b1) = Suc (length (b_blocks b0))" "b_next_value b1 = b_next_value b0"
    "param_count (b_blocks b1) (length (b_blocks b0)) = 0"
    using 1(2) by (rule new_block_sinv)
  obtain b2 where b2: "new_block b1 = (BlockId (length (b_blocks b1)), b2)" "sinv b2 L" "sle b1 b2"
    "length (b_blocks b2) = Suc (length (b_blocks b1))" "b_next_value b2 = b_next_value b1"
    "param_count (b_blocks b2) (length (b_blocks b1)) = 0"
    using b1(2) by (rule new_block_sinv)
  let ?ok = "BlockId (length (b_blocks b0))" and ?fail = "BlockId (length (b_blocks b1))"
  have pc0: "pc b2 ?ok = 0" using sle_pc[OF b2(3), of ?ok] b1 by simp
  have t: "okE (terminate (Branch c ?ok [] ?fail []) b2) (\<lambda>b'. sinv b' L \<and> sle b2 b' \<and>
      length (b_blocks b') = length (b_blocks b2))"
    by (rule okE_mono[OF terminate_st[OF b2(2)]]) (use 1 b1 b2 pc0 in auto)
  have m: "eu (length (b_blocks b')) b' (case message of
        Some msg \<Rightarrow> bindE (emit TStr (e_span e) (IStrLit msg) b') (\<lambda>(msg_v, b).
          emit_unit TI64 (e_span e) (ICall ''intent_assert_fail'' [OVal msg_v]) b)
      | None \<Rightarrow> Inr b')" if "sinv b' L" for b'
    using that by (auto split: option.split intro!: eu_bind_et[OF emit_et] emit_unit_eu eu_ret dest: sinvD)
  have u: "okE (terminate Unreachable b') (\<lambda>b''. sinv b'' L \<and> sle b' b'' \<and>
      length (b_blocks b'') = length (b_blocks b'))" if "sinv b' L" for b'
    by (rule okE_mono[OF terminate_st[OF that]]) auto
  have "st b2 L (bindE (terminate (Branch c ?ok [] ?fail []) b2) (\<lambda>b. let b = set_current ?fail b in
     bindE (case message of
              Some msg \<Rightarrow> bindE (emit TStr (e_span e) (IStrLit msg) b) (\<lambda>(msg_v, b).
                emit_unit TI64 (e_span e) (ICall ''intent_assert_fail'' [OVal msg_v]) b)
            | None \<Rightarrow> Inr b) (\<lambda>b.
     bindE (terminate Unreachable b) (\<lambda>b. Inr (set_current ?ok b, L)))))"
  proof (rule st_bind_sb[OF t], rule st_at, goal_cases)
    case (1 b3)
    then have l3: "length (b_blocks b3) = length (b_blocks b2)" and s3: "sinv (set_current ?fail b3) L"
      using b2 by (auto intro: sinv_set_current)
    show ?case
    proof (rule st_bind_eu[OF s3 m[OF s3]], goal_cases)
      case (1 b4)
      then have l: "length (b_blocks b4) = length (b_blocks b2)"
        using l3 by (simp add: keep_len)
      show ?case
        by (rule st_bind_sb[OF u[OF 1(1)]], rule st_ret_le)
          (use l b1 b2 in \<open>auto intro!: sinv_set_current simp: sle_blocks\<close>)
    qed
  qed
  then show ?case using st_pre[OF sle_trans[OF b1(3) b2(3)]] by (simp add: b1(1) b2(1))
qed

section \<open>Conditionals\<close>

lemma lower_if_head_ok:
  assumes "sinv b L"
  shows "okE (lower_if_head cond b L) (\<lambda>(t, e, b'). sinv b' L \<and> sle b b' \<and>
           bid t < length (b_blocks b') \<and> bid e < length (b_blocks b'))"
  unfolding lower_if_head_def
proof (rule okE_bind2I[OF lower_operand_st[OF assms, unfolded et_def]], goal_cases)
  case (1 c b0)
  then have s0: "sinv b0 L" and k0: "sle b b0"
    using sinv_keep[OF assms] keep_sle by auto
  obtain b1 where b1: "new_block b0 = (BlockId (length (b_blocks b0)), b1)" "sinv b1 L" "sle b0 b1"
    "length (b_blocks b1) = Suc (length (b_blocks b0))" "b_next_value b1 = b_next_value b0"
    "param_count (b_blocks b1) (length (b_blocks b0)) = 0"
    using s0 by (rule new_block_sinv)
  obtain b2 where b2: "new_block b1 = (BlockId (length (b_blocks b1)), b2)" "sinv b2 L" "sle b1 b2"
    "length (b_blocks b2) = Suc (length (b_blocks b1))" "b_next_value b2 = b_next_value b1"
    "param_count (b_blocks b2) (length (b_blocks b1)) = 0"
    using b1(2) by (rule new_block_sinv)
  have pc0: "pc b2 (BlockId (length (b_blocks b0))) = 0"
    using sle_pc[OF b2(3), of "BlockId (length (b_blocks b0))"] b1 by simp
  have "sle b b2" using k0 b1(3) b2(3) by (meson sle_trans)
  then show ?case
    using 1 b1 b2 pc0
    by (auto simp: okE_bind intro: sle_trans intro!: okE_mono[OF terminate_st[OF b2(2)]])
qed

lemma merge_params_ok:
  assumes "binv n b" and "lvals b entry" and "set names \<subseteq> dom (bt_get entry)"
    and "n \<le> bid blk" and "bid blk < length (b_blocks b)"
  shows "okE (merge_params blk entry names b) (\<lambda>(ps, b'). binv n b' \<and> grow n b b' \<and>
           pc b' blk = pc b blk + length names \<and> (\<forall>(k, v)\<in>set ps. vid v < b_next_value b'))"
  using assms
proof (induction names arbitrary: b)
  case Nil
  then show ?case by (simp add: grow_refl binvD(1))
next
  case (Cons name names)
  then obtain w where w: "bt_get entry name = Some w" by auto
  have lt: "vid w < b_next_value b" using Cons.prems(2) w by (rule lvals_get)
  show ?case
    unfolding merge_params.simps w expectE_def option.case bindE_simps
  proof (rule okE_bindI[OF value_type_ok[OF Cons.prems(1) lt]],
      rule okE_bind2I[OF param_step[OF Cons.prems(1,4,5)]], goal_cases)
    case (1 ty v b1)
    then have i1: "binv n b1" and g1: "grow n b b1" by simp_all
    have l1: "lvals b1 entry" using Cons.prems(2) g1 by (rule lvals_grow)
    have "okE (merge_params blk entry names b1) (\<lambda>(ps, b'). binv n b' \<and> grow n b1 b' \<and>
        pc b' blk = pc b1 blk + length names \<and> (\<forall>(k, v)\<in>set ps. vid v < b_next_value b'))"
      using Cons.prems g1 by (intro Cons.IH[OF i1 l1]) (simp_all add: grow_def)
    then show ?case
    proof (rule okE_bind2I, goal_cases)
      case (1 ps b2)
      then have "grow n b b2" "b_next_value b1 \<le> b_next_value b2"
        using g1 grow_trans grow_next by blast+
      with 1 \<open>binv n b1 \<and> _\<close> show ?case by auto
    qed
  qed
qed

lemma merge_args_ok:
  "set names \<subseteq> dom (bt_get entry) \<Longrightarrow> lvals b entry \<Longrightarrow> lvals b L \<Longrightarrow>
   okE (merge_args entry L names) (\<lambda>xs. length xs = length names \<and> below_ops (b_next_value b) xs)"
proof (induction names)
  case Nil
  then show ?case by simp
next
  case (Cons name names)
  obtain v where v: "branch_value entry L name = Some v" "vid v < b_next_value b"
    using Cons.prems
    by (cases "bt_get L name") (auto simp: branch_value_def intro: lvals_get)
  have "okE (merge_args entry L names) (\<lambda>xs. length xs = length names \<and> below_ops (b_next_value b) xs)"
    using Cons by simp
  then show ?case using v by (auto simp: expectE_def okE_bind elim!: okE_mono)
qed

lemma merge_jump_ok:
  assumes "sinv b entry" and "lvals b L" and "set names \<subseteq> dom (bt_get entry)"
    and "bid tail_bb < length (b_blocks b)" and "bid blk < length (b_blocks b)" and "pc b blk = length names"
  shows "okE (merge_jump term tail_bb blk entry L names b) (\<lambda>b'. sinv b' entry \<and> sle b b' \<and>
           b_blocks b' = b_blocks b \<and> b_next_value b' = b_next_value b)"
proof (cases "term")
  case False
  have s: "sinv (set_current tail_bb b) entry" using assms(1,4) by (rule sinv_set_current)
  show ?thesis
    unfolding merge_jump_def if_not_P[OF False]
  proof (rule okE_bindI[OF merge_args_ok[OF assms(3) sinvD(2)[OF assms(1)] assms(2)]], goal_cases)
    case (1 xs)
    then show ?case using assms by (intro okE_mono[OF terminate_st[OF s]]) auto
  qed
qed (simp add: merge_jump_def assms)

lemma lvals_insert_all:
  "lvals b L \<Longrightarrow> \<forall>(k, v)\<in>set kvs. vid v < b_next_value b \<Longrightarrow> lvals b (bt_insert_all kvs L)"
  by (induction kvs L rule: bt_insert_all.induct) (auto intro: lvals_insert)

lemma dom_insert_all: "dom (bt_get L) \<subseteq> dom (bt_get (bt_insert_all kvs L))"
proof (induction kvs L rule: bt_insert_all.induct)
  case (2 k v kvs m)
  then show ?case unfolding bt_insert_all.simps dom_bt_insert by blast
qed simp

lemma merged_names_dom: "set (merged_names entry t e) \<subseteq> dom (bt_get entry)"
  by (auto simp: merged_names_def dom_map_of_conv_image_fst image_iff)

lemma lower_if_tail_ok:
  assumes "sinv b entry" and "lvals b tL" and "lvals b eL"
    and "bid tb < length (b_blocks b)" and "bid eb < length (b_blocks b)"
  shows "st b entry (lower_if_tail entry tL tb tT eL eb eT b)"
proof (cases "tT \<and> eT")
  case True
  then show ?thesis using assms by (simp add: lower_if_tail_def st_ret)
next
  case False
  let ?n = "length (b_blocks b)" and ?merged = "merged_names entry tL eL"
  obtain b1 where b1: "new_block b = (BlockId ?n, b1)" "binv ?n b1" "ble ?n b b1"
    "length (b_blocks b1) = Suc ?n" "b_next_value b1 = b_next_value b" "b_loops b1 = b_loops b"
    "pc b1 (BlockId ?n) = 0"
    by (rule new_block_step[OF sinvD(1)[OF assms(1)]]) simp
  have l1: "lvals b1 entry" using sinvD(2)[OF assms(1)] b1(5) by (simp add: lvals_def)
  have mp: "okE (merge_params (BlockId ?n) entry ?merged b1) (\<lambda>(ps, b'). binv ?n b' \<and> grow ?n b1 b' \<and>
      pc b' (BlockId ?n) = pc b1 (BlockId ?n) + length ?merged \<and> (\<forall>(k, v)\<in>set ps. vid v < b_next_value b'))"
    using b1 by (intro merge_params_ok[OF b1(2) l1 merged_names_dom]) simp_all
  have "st b entry (bindE (merge_params (BlockId ?n) entry ?merged b1) (\<lambda>(ps, b).
      bindE (merge_jump tT tb (BlockId ?n) entry tL ?merged b) (\<lambda>b.
      bindE (merge_jump eT eb (BlockId ?n) entry eL ?merged b) (\<lambda>b.
      Inr (set_current (BlockId ?n) b, bt_insert_all ps entry)))))"
    unfolding st_def
  proof (rule okE_bind2I[OF mp], goal_cases)
    case (1 ps b2)
    then have g: "ble ?n b1 b2" "length (b_blocks b2) = Suc ?n" "b_loops b2 = b_loops b"
      using b1 by (simp_all add: grow_def)
    have sl: "sle b b2" using b1(3) g by (auto simp: sle_def intro: ble_trans)
    have "binv (length (b_blocks b2)) b2" using 1 g(2) by (auto intro: binv_raise[of ?n b2])
    then have s2: "sinv b2 entry"
      using assms(1) sl by (auto simp: sinv_def sle_def frames_bound_def intro: lvals_mono dest: ble_next)
    have l2: "lvals b2 tL" "lvals b2 eL" using assms(2,3) sle_next[OF sl] by (auto intro: lvals_mono)
    have pcm: "pc b2 (BlockId ?n) = length ?merged" and v2: "\<forall>(k, v)\<in>set ps. vid v < b_next_value b2"
      using 1 b1(7) by simp_all
    have j1: "okE (merge_jump tT tb (BlockId ?n) entry tL ?merged b2) (\<lambda>b'. sinv b' entry \<and> sle b2 b' \<and>
        b_blocks b' = b_blocks b2 \<and> b_next_value b' = b_next_value b2)"
      using assms(4) g(2) pcm by (intro merge_jump_ok[OF s2 l2(1) merged_names_dom]) simp_all
    show ?case
    proof (rule okE_bindI[OF j1], goal_cases)
      case (1 b3)
      then have s3: "sinv b3 entry" and l3: "lvals b3 eL" and sl3: "sle b2 b3"
        and q3: "b_blocks b3 = b_blocks b2" "b_next_value b3 = b_next_value b2"
        using l2(2) by (simp_all add: lvals_def)
      have j2: "okE (merge_jump eT eb (BlockId ?n) entry eL ?merged b3) (\<lambda>b'. sinv b' entry \<and> sle b3 b' \<and>
          b_blocks b' = b_blocks b3 \<and> b_next_value b' = b_next_value b3)"
        using assms(5) g(2) pcm q3
        by (intro merge_jump_ok[OF s3 l3 merged_names_dom]) simp_all
      show ?case
      proof (rule okE_bindI[OF j2], goal_cases)
        case (1 b4)
        then have s4: "sinv b4 entry" and sl4: "sle b3 b4" and q4: "b_blocks b4 = b_blocks b2"
          "b_next_value b4 = b_next_value b2" using q3 by simp_all
        have "lvals b4 (bt_insert_all ps entry)"
          using s4 v2 q4(2) by (intro lvals_insert_all) (auto dest: sinvD)
        moreover have "frames_bound b4 (bt_insert_all ps entry)"
          using s4 dom_insert_all[of entry ps] by (auto simp: sinv_def intro: frames_bound_mono)
        ultimately have "sinv b4 (bt_insert_all ps entry)" using s4 by (simp add: sinv_def)
        moreover have "sle b b4" using sl sl3 sl4 by (meson sle_trans)
        ultimately show ?case
          using g(2) q4 dom_insert_all[of entry ps] by (simp add: sinv_set_current)
      qed
    qed
  qed
  then show ?thesis unfolding lower_if_tail_def if_not_P[OF False] b1(1) Let_def by simp
qed

section \<open>Loops\<close>

lemma jump_if_open_ok:
  assumes "sinv b L" and "okE (args ()) (\<lambda>xs. length xs = pc b t \<and> below_ops (b_next_value b) xs)"
    and "bid t < length (b_blocks b)"
  shows "okE (jump_if_open args t b) (\<lambda>b'. sinv b' L \<and> sle b b' \<and> b_blocks b' = b_blocks b \<and>
           b_next_value b' = b_next_value b \<and> b_loops b' = b_loops b)"
  unfolding jump_if_open_def
proof (rule okE_bindI[OF current_block_terminator_ok[OF sinvD(1)[OF assms(1)]]], goal_cases)
  case (1 x)
  show ?case
  proof (cases x)
    case None
    have "okE (terminate (Jump t xs) b) (\<lambda>b'. sinv b' L \<and> sle b b' \<and> b_blocks b' = b_blocks b \<and>
           b_next_value b' = b_next_value b \<and> b_loops b' = b_loops b)"
      if "length xs = pc b t" "below_ops (b_next_value b) xs" for xs
      by (rule okE_mono[OF terminate_st[OF assms(1)]]) (use that assms(3) in auto)
    then show ?thesis
      using None assms(2) by (auto simp: okE_bind elim!: okE_mono)
  qed (simp add: assms(1))
qed

text \<open>
  A loop head opens the loop: control is in the body, the frame is on the stack, and the
  blocks the carried values are passed to have a parameter for each.
\<close>

definition opened :: "builder \<Rightarrow> locals \<Rightarrow> builder \<Rightarrow> locals \<Rightarrow> loop_frame \<Rightarrow> bool" where
  "opened b L b' L' fr \<longleftrightarrow> sinv b' L' \<and> ble (length (b_blocks b)) b b' \<and>
     b_loops b' = b_loops b @ [fr] \<and> dom (bt_get L) \<subseteq> dom (bt_get L')"

lemma openedI:
  assumes "binv n b'" and "n \<le> length (b_blocks b')" and "frame_ok n (b_blocks b') fr"
    and "lvals b' L'" and "fst ` set (lf_carry fr) \<subseteq> dom (bt_get L')"
    and "ble (length (b_blocks b)) b b'" and "b_loops b' = b_loops b" and "dom (bt_get L) \<subseteq> dom (bt_get L')"
  shows "opened b L (push_loop fr b') L' fr"
proof -
  have "binv n (push_loop fr b')" using assms(1,3) by (rule binv_push_loop)
  then have "binv (length (b_blocks b')) (push_loop fr b')" by (rule binv_raise) (use assms(2) in auto)
  then show ?thesis
    using assms by (auto simp: opened_def sinv_def frames_bound_def lvals_def)
qed

lemma opened_frame:
  assumes "opened b L b' L' fr" and "sle b' b2"
  shows "b_loops b2 = b_loops b @ [fr]" and "bid (lf_header fr) < length (b_blocks b2)"
    and "bid (lf_exit fr) < length (b_blocks b2)" and "pc b2 (lf_header fr) = length (lf_carry fr)"
    and "pc b2 (lf_exit fr) = length (lf_carry fr)"
    and "fst ` set (lf_carry fr) \<subseteq> dom (bt_get L')"
proof -
  have l: "b_loops b' = b_loops b @ [fr]" and i: "binv (length (b_blocks b')) b'"
    using assms(1) by (simp_all add: opened_def sinv_def)
  have "frame_ok (length (b_blocks b')) (b_blocks b') fr" using binvD(9)[OF i] l by simp
  then show "bid (lf_header fr) < length (b_blocks b2)" "bid (lf_exit fr) < length (b_blocks b2)"
    "pc b2 (lf_header fr) = length (lf_carry fr)" "pc b2 (lf_exit fr) = length (lf_carry fr)"
    using sle_blocks[OF assms(2)] sle_pc[OF assms(2)] by (auto simp: frame_ok_def)
  show "b_loops b2 = b_loops b @ [fr]" using l assms(2) by (simp add: sle_def)
  show "fst ` set (lf_carry fr) \<subseteq> dom (bt_get L')"
    using assms(1) l by (simp add: opened_def sinv_def frames_bound_def)
qed

text \<open>Leaving the loop: the frame is popped and the old bindings hold again.\<close>

lemma close_loop:
  assumes "sinv b L" and "opened b L b1 L1 fr" and "sle b1 b2" and "sinv b2 L2"
  shows "sinv (pop_loop b2) L" and "sle b (pop_loop b2)"
proof -
  have lo: "b_loops b2 = b_loops b @ [fr]" using opened_frame(1)[OF assms(2,3)] .
  have "ble (length (b_blocks b)) b b2"
    using assms(2,3) by (auto simp: opened_def sle_def intro: ble_trans dest: ble_blocks)
  then show "sle b (pop_loop b2)" using lo by (simp add: sle_def)
  have "lvals b2 L" using assms(1) \<open>ble _ b b2\<close> by (auto simp: sinv_def intro: lvals_mono dest: ble_next)
  then show "sinv (pop_loop b2) L"
    using assms(1,4) lo by (auto simp: sinv_def frames_bound_def lvals_def intro: binv_pop_loop)
qed

lemma rebind_st:
  assumes "sinv b0 L" and "sinv b L" and "sle b0 b" and "bid blk < length (b_blocks b)"
  shows "okE (nthE (b_blocks b) (bid blk)) (\<lambda>bb.
           sinv b (rebind_exit skip cs (bb_params bb) L) \<and>
           dom (bt_get L) \<subseteq> dom (bt_get (rebind_exit skip cs (bb_params bb) L)))"
proof -
  have "\<forall>(v, t)\<in>set (bb_params (b_blocks b ! bid blk)). vid v < b_next_value b"
    using binv_param_value[OF sinvD(1)[OF assms(2)] assms(4)] by blast
  from rebind_exit_ok[OF sinvD(2)[OF assms(2)] this, of skip cs]
  show ?thesis
    using assms(2,4) by (auto simp: okE_nth sinv_def intro: frames_bound_mono)
qed

text \<open>Opening the blocks of a loop: new blocks on top of those below \<open>b0\<close>, no parameters yet.\<close>

definition blank :: "builder \<Rightarrow> builder \<Rightarrow> bool" where
  "blank b0 b \<longleftrightarrow> binv (length (b_blocks b0)) b \<and> ble (length (b_blocks b0)) b0 b \<and>
     b_next_value b = b_next_value b0 \<and> b_loops b = b_loops b0 \<and>
     (\<forall>i. length (b_blocks b0) \<le> i \<longrightarrow> i < length (b_blocks b) \<longrightarrow> param_count (b_blocks b) i = 0)"

lemma blank_refl: "sinv b L \<Longrightarrow> blank b b"
  by (simp add: blank_def sinvD ble_refl)

lemma blank_new:
  assumes "blank b0 b"
  obtains b' where "new_block b = (BlockId (length (b_blocks b)), b')" and "blank b0 b'"
    and "length (b_blocks b') = Suc (length (b_blocks b))"
proof -
  let ?n = "length (b_blocks b)"
  have n0: "length (b_blocks b0) \<le> ?n" using assms by (auto simp: blank_def dest: ble_blocks)
  obtain b' where b': "new_block b = (BlockId ?n, b')" "binv (length (b_blocks b0)) b'"
    "ble ?n b b'" "length (b_blocks b') = Suc ?n" "b_next_value b' = b_next_value b"
    "b_loops b' = b_loops b" and p: "\<And>i. i \<le> ?n \<Longrightarrow>
      param_count (b_blocks b') i = (if i = ?n then 0 else param_count (b_blocks b) i)"
    using new_block_step assms unfolding blank_def by metis
  have "ble (length (b_blocks b0)) b0 b'" using assms b'(3) n0 by (auto simp: blank_def intro: ble_trans)
  then have "blank b0 b'" using assms b' p by (simp add: blank_def)
  with b' show ?thesis by (intro that) simp_all
qed

text \<open>Inside a head: all blocks are closed at \<open>m\<close>, and the state is a later one of \<open>b\<close>.\<close>

definition mid :: "builder \<Rightarrow> nat \<Rightarrow> builder \<Rightarrow> bool" where
  "mid b m b' \<longleftrightarrow> binv m b' \<and> length (b_blocks b') = m \<and> ble (length (b_blocks b)) b b' \<and>
     b_loops b' = b_loops b"

lemma mid_set_current: "mid b m b' \<Longrightarrow> bid blk < m \<Longrightarrow> mid b m (set_current blk b')"
  by (auto simp: mid_def intro: binv_set_current)

lemma mid_keep: "mid b m b' \<Longrightarrow> binv m b'' \<Longrightarrow> keep b' b'' \<Longrightarrow> mid b m b''"
  unfolding mid_def keep_def by (auto intro: ble_trans dest: ble_blocks)

lemma mid_terminate:
  assumes "mid b m b'" and "values_ok (b_next_value b') (term_uses t)"
    and "\<forall>e\<in>set (term_edges t). bid (fst e) < m \<and> length (snd e) = pc b' (fst e)"
  shows "okE (terminate t b') (\<lambda>b''. mid b m b'' \<and> b_blocks b'' = b_blocks b' \<and> b_next_value b'' = b_next_value b')"
proof -
  have "binv m b'" using assms(1) by (simp add: mid_def)
  then show ?thesis
    by (rule okE_mono[OF jump_step[OF _ assms(2,3)]])
      (use assms(1) in \<open>auto simp: mid_def intro: ble_trans dest: ble_blocks\<close>)
qed

lemma mid_opened:
  assumes "mid b m b'" and "bid (lf_header fr) < m" and "bid (lf_exit fr) < m"
    and "pc b' (lf_header fr) = length (lf_carry fr)" and "pc b' (lf_exit fr) = length (lf_carry fr)"
    and "lvals b' L'" and "dom (bt_get L) \<subseteq> dom (bt_get L')" and "fst ` set (lf_carry fr) \<subseteq> dom (bt_get L')"
  shows "opened b L (push_loop fr b') L' fr"
  using assms by (intro openedI[of m]) (auto simp: mid_def frame_ok_def)

lemma into_header:
  assumes "mid b m b4" and "fst ` set cs \<subseteq> dom (bt_get L)" and "lvals b4 L"
    and "below_ops (b_next_value b4) pre" and "bid h < m" and "pc b4 h = length pre + length cs"
    and "\<And>b5. mid b m (set_current h b5) \<Longrightarrow> b_blocks b5 = b_blocks b4 \<Longrightarrow>
           b_next_value b5 = b_next_value b4 \<Longrightarrow> okE (k b5) Q"
  shows "okE (bindE (carry_args L cs) (\<lambda>r. bindE (terminate (Jump h (pre @ r)) b4) k)) Q"
proof (rule okE_bindI[OF carry_args_ok[OF assms(2,3)]], goal_cases)
  case (1 r)
  have "okE (terminate (Jump h (pre @ r)) b4) (\<lambda>b5. mid b m b5 \<and> b_blocks b5 = b_blocks b4 \<and>
      b_next_value b5 = b_next_value b4)"
    using 1 assms(4-6) by (intro mid_terminate[OF assms(1)]) auto
  then show ?case
    by (rule okE_bindI) (use assms(5) in \<open>auto intro!: assms(7) mid_set_current\<close>)
qed

lemma into_body:
  assumes "mid b m b6" and "below_op (b_next_value b6) c" and "carry_ok (b_next_value b6) D cs"
    and "bid bd < m" and "bid x < m" and "pc b6 x = length cs" and "pc b6 bd = 0"
    and "\<And>b7. mid b m (set_current bd b7) \<Longrightarrow> b_blocks b7 = b_blocks b6 \<Longrightarrow>
           b_next_value b7 = b_next_value b6 \<Longrightarrow> okE (k b7) Q"
  shows "okE (bindE (terminate (Branch c bd [] x (carry_params cs)) b6) k) Q"
proof -
  have "okE (terminate (Branch c bd [] x (carry_params cs)) b6) (\<lambda>b7. mid b m b7 \<and>
      b_blocks b7 = b_blocks b6 \<and> b_next_value b7 = b_next_value b6)"
    using assms(2-7) carry_params_ok[OF assms(3)] by (intro mid_terminate[OF assms(1)]) auto
  then show ?thesis
    by (rule okE_bindI) (use assms(4) in \<open>auto intro!: assms(8) mid_set_current\<close>)
qed

lemma lower_while_head_ok:
  assumes "sinv b L"
  shows "okE (lower_while_head cond body b L) (\<lambda>(header, exit, cs, L', b').
           opened b L b' L' \<lparr>lf_header = header, lf_exit = exit, lf_carry = cs\<rparr>)"
proof -
  let ?n = "length (b_blocks b)"
  obtain b1 where b1: "new_block b = (BlockId ?n, b1)" "blank b b1" "length (b_blocks b1) = Suc ?n"
    by (rule blank_new[OF blank_refl[OF assms]])
  obtain b2 where b2: "new_block b1 = (BlockId (Suc ?n), b2)" "blank b b2" "length (b_blocks b2) = ?n + 2"
    by (rule blank_new[OF b1(2)]) (simp add: b1(3))
  obtain b3 where b3: "new_block b2 = (BlockId (?n + 2), b3)" "blank b b3" "length (b_blocks b3) = ?n + 3"
    by (rule blank_new[OF b2(2)]) (simp add: b2(3))
  let ?h = "BlockId ?n" and ?bd = "BlockId (Suc ?n)" and ?x = "BlockId (?n + 2)"
  have l3: "lvals b3 L" and i3: "binv ?n b3" and b03: "ble ?n b b3" "b_loops b3 = b_loops b"
    and pc3: "pc b3 ?h = 0" "pc b3 ?bd = 0" "pc b3 ?x = 0"
    using assms b3(2,3) by (simp_all add: sinv_def lvals_def blank_def)
  have wc: "okE (while_carry ?h ?x L (modified_in_body body) b3) (\<lambda>(cs, b').
      binv ?n b' \<and> grow ?n b3 b' \<and> carry_ok (b_next_value b') (dom (bt_get L)) cs \<and>
      (\<forall>i. param_count (b_blocks b') i = param_count (b_blocks b3) i +
        (if i \<in> {bid ?h, bid ?x} then length cs else 0)))"
    by (rule while_carry_ok[OF i3 l3]) (simp_all add: b3(3))
  show ?thesis
    unfolding lower_while_head_def Let_def b1(1) b2(1) b3(1) prod.case
  proof (rule okE_bind2I[OF wc], goal_cases)
    case (1 cs b4)
    then have c4: "carry_ok (b_next_value b4) (dom (bt_get L)) cs" and l4: "lvals b4 L"
      and pc4: "pc b4 ?h = length cs" "pc b4 ?x = length cs" "pc b4 ?bd = 0" and g4: "grow ?n b3 b4"
      using l3 b03 b3(3) pc3 by (auto intro: lvals_grow)
    have m4: "mid b (?n + 3) b4"
      using 1 b03 b3(3) by (auto simp: mid_def grow_def intro: ble_trans binv_raise[of ?n b4])
    let ?L = "carry_locals cs L"
    show ?case
    proof (rule into_header[OF m4 carry_ok_names[OF c4] l4, of "[]", simplified append_Nil], goal_cases _ _ _ jump)
      case (jump b5)
      let ?b5 = "set_current ?h b5"
      have i5: "binv (?n + 3) ?b5" using jump(1) by (simp add: mid_def)
      have l5: "lvals ?b5 ?L" using jump(3) carry_locals_ok[OF c4 l4] by (simp add: lvals_def)
      show ?case
      proof (rule okE_bind2I[OF lower_operand_et(1)[OF i5 l5, unfolded et_def]], goal_cases)
        case (1 c b6)
        then have m6: "mid b (?n + 3) b6" and k6: "keep ?b5 b6" using mid_keep[OF jump(1)] by auto
        have pc6: "pc b6 ?h = length cs" "pc b6 ?x = length cs" "pc b6 ?bd = 0"
          using keep_pc[OF k6, of ?h] keep_pc[OF k6, of ?x] keep_pc[OF k6, of ?bd] pc4 jump(2) m4
          by (simp_all add: mid_def)
        have c6: "carry_ok (b_next_value b6) (dom (bt_get L)) cs" and l6: "lvals b6 ?L"
          using carry_ok_mono[OF c4] keep_next[OF k6] jump(3) lvals_keep[OF l5 k6] by simp_all
        show ?case
        proof (rule into_body[OF m6 _ c6], goal_cases _ _ _ _ _ branch)
          case (branch b7)
          then show ?case
            unfolding okE_simps(1) prod.case
            using pc6 l6 by (intro mid_opened) (auto simp: lvals_def)
        qed (use 1 pc6 in auto)
      qed
    qed (use pc4 in auto)
  qed
qed

lemma four_blocks:
  assumes "sinv b L" and "n = length (b_blocks b)"
  obtains b1 b2 b3 b4 where "new_block b = (BlockId n, b1)" and "new_block b1 = (BlockId (n + 1), b2)"
    and "new_block b2 = (BlockId (n + 2), b3)" and "new_block b3 = (BlockId (n + 3), b4)"
    and "blank b b4" and "length (b_blocks b4) = n + 4"
proof -
  obtain b1 where b1: "new_block b = (BlockId n, b1)" "blank b b1" "length (b_blocks b1) = n + 1"
    by (rule blank_new[OF blank_refl[OF assms(1)]]) (simp add: assms(2))
  obtain b2 where b2: "new_block b1 = (BlockId (n + 1), b2)" "blank b b2" "length (b_blocks b2) = n + 2"
    by (rule blank_new[OF b1(2)]) (simp add: b1(3))
  obtain b3 where b3: "new_block b2 = (BlockId (n + 2), b3)" "blank b b3" "length (b_blocks b3) = n + 3"
    by (rule blank_new[OF b2(2)]) (simp add: b2(3))
  obtain b4 where b4: "new_block b3 = (BlockId (n + 3), b4)" "blank b b4" "length (b_blocks b4) = n + 4"
    by (rule blank_new[OF b3(2)]) (simp add: b3(3))
  show ?thesis using that[OF b1(1) b2(1) b3(1) b4] .
qed

text \<open>The blocks of a counted loop, each with the counter and the carried values.\<close>

definition counted :: "builder \<Rightarrow> locals \<Rightarrow> builder \<Rightarrow> value_id \<Rightarrow> value_id \<Rightarrow> carry \<Rightarrow> carry \<Rightarrow> bool" where
  "counted b L b' ih is cs scs \<longleftrightarrow>
     (let n = length (b_blocks b) in
      mid b (n + 4) b' \<and> lvals b' L \<and> vid ih < b_next_value b' \<and> vid is < b_next_value b' \<and>
      carry_ok (b_next_value b') (dom (bt_get L)) cs \<and> carry_ok (b_next_value b') (dom (bt_get L)) scs \<and>
      map fst scs = map fst cs \<and> b_next_value b \<le> b_next_value b' \<and>
      param_count (b_blocks b') n = Suc (length cs) \<and> param_count (b_blocks b') (n + 1) = 0 \<and>
      param_count (b_blocks b') (n + 2) = Suc (length cs) \<and>
      param_count (b_blocks b') (n + 3) = Suc (length cs))"

lemma counted_params:
  assumes "sinv b L" and "blank b b4" and n: "n = length (b_blocks b)" and "length (b_blocks b4) = n + 4"
    and k: "\<And>ih is cs scs b8. counted b L b8 ih is cs scs \<Longrightarrow> okE (k ih is cs scs b8) Q"
  shows "okE (bindE (fresh_param (BlockId n) ty b4) (\<lambda>(ih, b).
           bindE (fresh_param (BlockId (n + 3)) ty b) (\<lambda>(ix, b).
           bindE (fresh_param (BlockId (n + 2)) ty b) (\<lambda>(is, b).
           bindE (for_carry var (BlockId n) (BlockId (n + 2)) (BlockId (n + 3)) L names b)
             (\<lambda>(cs, scs, b). k ih is cs scs b))))) Q"
proof -
  have i4: "binv n b4" and g4: "ble n b b4" "b_loops b4 = b_loops b" "b_next_value b4 = b_next_value b"
    and p4: "\<And>i. n \<le> i \<Longrightarrow> i < n + 4 \<Longrightarrow> param_count (b_blocks b4) i = 0"
    using assms(2,4) by (simp_all add: blank_def n)
  have l4: "lvals b4 L" using assms(1) g4(3) by (simp add: sinv_def lvals_def)
  show ?thesis
  proof (rule okE_bind2I[OF param_step[OF i4]], goal_cases _ _ h)
    case (h ih b5)
    then have g5: "grow n b4 b5" and i5: "binv n b5" by simp_all
    from g5 assms(4) have n5: "length (b_blocks b5) = n + 4" by (simp add: grow_def)
    show ?case
    proof (rule okE_bind2I[OF param_step[OF i5]], goal_cases _ _ x)
      case (x ix b6)
      then have g6: "grow n b5 b6" and i6: "binv n b6" by simp_all
      from g6 n5 have n6: "length (b_blocks b6) = n + 4" by (simp add: grow_def)
      show ?case
      proof (rule okE_bind2I[OF param_step[OF i6]], goal_cases _ _ s)
        case (s "is" b7)
        then have g7: "grow n b6 b7" and i7: "binv n b7" by simp_all
        from g7 n6 have n7: "length (b_blocks b7) = n + 4" by (simp add: grow_def)
        have l7: "lvals b7 L" using l4 g5 g6 g7 by (meson lvals_grow)
        show ?case
        proof (rule okE_bind3I[OF for_carry_ok[OF i7 l7]], goal_cases _ _ _ _ _ _ _ c)
          case (c cs scs b8)
          then have g8: "grow n b7 b8" by simp
          have g: "grow n b4 b8" and l8: "lvals b8 L" and v: "b_next_value b5 \<le> b_next_value b8"
            "b_next_value b7 \<le> b_next_value b8"
            using g5 g6 g7 g8 l7 grow_next by (blast intro: grow_trans lvals_grow order_trans)+
          have "binv (n + 4) b8" using c n7 by (auto simp: grow_def intro: binv_raise[of n b8])
          then have m: "mid b (n + 4) b8"
            using g g4 assms(4) by (auto simp: mid_def grow_def n intro: ble_trans)
          show ?case
            using c h x s p4 m l8 v grow_next[OF g] g4(3)
            by (intro k) (auto simp: counted_def n)
        qed (simp_all add: n7)
      qed (simp_all add: n6)
    qed (simp_all add: n5)
  qed (simp_all add: assms(4))
qed

text \<open>An open counted loop: the step block leads back to the header with all its values.\<close>

definition fopened :: "builder \<Rightarrow> locals \<Rightarrow> builder \<Rightarrow> locals \<Rightarrow> block_id \<Rightarrow> block_id \<Rightarrow> block_id \<Rightarrow>
    value_id \<Rightarrow> value_id \<Rightarrow> carry \<Rightarrow> bool" where
  "fopened b L b' L' header step exit ih is scs \<longleftrightarrow>
     opened b L b' L' \<lparr>lf_header = step, lf_exit = exit, lf_carry = scs\<rparr> \<and>
     bid header < length (b_blocks b') \<and> pc b' header = length scs \<and> scs \<noteq> [] \<and>
     carry_ok (b_next_value b') UNIV scs \<and> vid is < b_next_value b' \<and> vid ih < b_next_value b'"

lemma opened_pre: "sle b b0 \<Longrightarrow> opened b0 L b' L' fr \<Longrightarrow> opened b L b' L' fr"
  unfolding opened_def sle_def by (auto intro: ble_trans dest: ble_blocks)

lemma fopened_pre: "sle b b0 \<Longrightarrow> fopened b0 L b' L' h s x ih is scs \<Longrightarrow> fopened b L b' L' h s x ih is scs"
  unfolding fopened_def by (auto intro: opened_pre)

lemma fopened_close:
  assumes "counted b L b8 ih is cs scs" and n: "n = length (b_blocks b)"
    and scs': "scs' = (y, is, ty) # scs" and "mid b (n + 4) b'" and "lvals b' L'"
    and "b_next_value b8 \<le> b_next_value b'"
    and "\<And>j. j < n + 4 \<Longrightarrow> param_count (b_blocks b') j = param_count (b_blocks b8) j"
    and "insert y (fst ` set cs \<union> dom (bt_get L)) \<subseteq> dom (bt_get L')"
  shows "fopened b L (push_loop \<lparr>lf_header = BlockId (n + 2), lf_exit = BlockId (n + 3), lf_carry = scs'\<rparr> b') L'
           (BlockId n) (BlockId (n + 2)) (BlockId (n + 3)) ih is scs'"
proof -
  note c = assms(1)[unfolded counted_def Let_def, folded n]
  have f: "fst ` set scs = fst ` set cs" using c by (metis list.set_map)
  have len: "length scs = length cs" using c by (metis length_map)
  have co: "carry_ok (b_next_value b') UNIV scs'"
    using c assms(6) carry_ok_mono[of _ _ scs] by (auto simp: scs')
  have "opened b L (push_loop \<lparr>lf_header = BlockId (n + 2), lf_exit = BlockId (n + 3), lf_carry = scs'\<rparr> b') L'
          \<lparr>lf_header = BlockId (n + 2), lf_exit = BlockId (n + 3), lf_carry = scs'\<rparr>"
    using c assms(5,7,8) f len by (intro mid_opened[OF assms(4)]) (auto simp: scs')
  then show ?thesis
    using c co assms(4,6,7) len by (auto simp: fopened_def mid_def scs')
qed

text \<open>The common end of the heads: the comparison in the header and the branch into the body.\<close>

lemma counted_branch:
  assumes "counted b L b8 ih is cs scs" and n: "n = length (b_blocks b)"
    and cs': "cs' = (y, ih, ty) # cs"
    and m5: "mid b (n + 4) (set_current (BlockId n) b5)" and bl: "b_blocks b5 = b_blocks b8"
    and nv: "b_next_value b5 = b_next_value b8" and "below_op (b_next_value b5) e"
    and k: "\<And>b7. mid b (n + 4) (set_current (BlockId (n + 1)) b7) \<Longrightarrow> lvals b7 (carry_locals cs' L) \<Longrightarrow>
       b_next_value b8 \<le> b_next_value b7 \<Longrightarrow>
       (\<And>j. j < n + 4 \<Longrightarrow> param_count (b_blocks b7) j = param_count (b_blocks b8) j) \<Longrightarrow> okE (k b7) Q"
  shows "okE (bindE (emit TBool sp (IBinary Lt (OVal ih) e) (set_current (BlockId n) b5)) (\<lambda>(c, b).
           bindE (terminate (Branch (OVal c) (BlockId (n + 1)) [] (BlockId (n + 3)) (carry_params cs')) b) k)) Q"
proof -
  let ?b5 = "set_current (BlockId n) b5"
  note c = assms(1)[unfolded counted_def Let_def, folded n]
  have i5: "binv (n + 4) ?b5" and len: "length (b_blocks b8) = n + 4"
    using m5 c by (simp_all add: mid_def)
  have co: "carry_ok (b_next_value b8) (insert y (dom (bt_get L))) cs'"
    using c carry_ok_mono[OF _ order_refl subset_insertI[of "dom (bt_get L)" y], of _ cs] by (auto simp: cs')
  have e: "et (n + 4) ?b5 (emit TBool sp (IBinary Lt (OVal ih) e) ?b5) below_val"
    using i5 c nv assms(7) by (intro emit_et) auto
  show ?thesis
  proof (rule okE_bind2I[OF e[unfolded et_def]], goal_cases)
    case (1 v b6)
    then have k6: "keep ?b5 b6" and m6: "mid b (n + 4) b6" using mid_keep[OF m5] by auto
    have nv6: "b_next_value b8 \<le> b_next_value b6" using keep_next[OF k6] nv by simp
    have pc6: "param_count (b_blocks b6) j = param_count (b_blocks b8) j" if "j < n + 4" for j
      using keep_pc[OF k6, of "BlockId j"] that bl len by simp
    have co6: "carry_ok (b_next_value b6) (insert y (dom (bt_get L))) cs'"
      using co nv6 by (rule carry_ok_mono) simp
    show ?case
    proof (rule into_body[OF m6 _ co6], goal_cases _ _ _ _ _ b)
      case (b b7)
      have "lvals b7 L" using c nv6 b(3) lvals_mono[of b8 L b7] by simp
      then have "lvals b7 (carry_locals cs' L)"
        using co6 b(3) by (intro carry_locals_ok[of _ "insert y (dom (bt_get L))"]) simp_all
      then show ?case using b nv6 pc6 by (intro k) auto
    qed (use 1 c pc6 cs' in auto)
  qed
qed

lemma lower_integer_for_head_ok:
  assumes s: "sinv b L"
  shows "okE (lower_integer_for_head var ty start end body b L) (\<lambda>(shape, i_step, cs, scs, L', b').
           fopened b L b' L' (ifs_header shape) (ifs_step shape) (ifs_exit shape)
             (ifs_counter_header_value shape) i_step scs)"
  unfolding lower_integer_for_head_def
proof (rule okE_bind2I[OF lower_value_st[OF s, unfolded et_def]],
    rule okE_bind2I[OF lower_operand_st[unfolded et_def, OF sinv_keep[OF s]]], goal_cases _ _ e)
  case (e sv b0 ev b1)
  then have s1: "sinv b1 L" and sv: "vid sv < b_next_value b1" and sl: "sle b b1"
    using sinv_keep[OF s, of b0] sinv_keep[of b0 L b1] keep_next[of b0 b1]
    by (auto intro: sle_trans keep_sle)
  define n where n: "n = length (b_blocks b1)"
  obtain b2 b3 b4 b5 where nb: "new_block b1 = (BlockId n, b2)" "new_block b2 = (BlockId (n + 1), b3)"
    "new_block b3 = (BlockId (n + 2), b4)" "new_block b4 = (BlockId (n + 3), b5)"
    and bk: "blank b1 b5" "length (b_blocks b5) = n + 4"
    by (rule four_blocks[OF s1 n])
  show ?case
    unfolding Let_def nb prod.case
  proof (rule counted_params[OF s1 bk(1) n bk(2)], goal_cases)
    case (1 ih "is" cs scs b8)
    note c = 1[unfolded counted_def Let_def, folded n]
    show ?case
    proof (rule into_header[of b1 "n + 4" b8 cs L "[OVal sv]", simplified append_Cons append_Nil], goal_cases _ _ _ _ _ _ h)
      case (h b9)
      show ?case
      proof (rule counted_branch[OF 1 n refl h(1) h(2) h(3)], goal_cases _ b)
        case (b b10)
        have "mid b1 (n + 4) (set_current (BlockId (n + 1)) b10)" using b by simp
        then show ?case
          unfolding okE_simps(1) prod.case integer_for_shape.simps
          by (intro fopened_pre[OF sl] fopened_close[OF 1 n refl])
            (use b in \<open>auto simp: lvals_def\<close>)
      qed (use e sv h(3) c bk in \<open>auto simp: blank_def\<close>)
    qed (use c sv carry_ok_names[of "b_next_value b8" "dom (bt_get L)" cs] in simp_all)
  qed
qed auto

lemma lower_for_iter_head_ok:
  assumes s: "sinv b L"
  shows "okE (lower_for_iter_head var ety coll body b L)
           (\<lambda>(coll_v, coll_ty, header, step, exit, ih, is, cs, scs, L', b').
             fopened b L b' L' header step exit ih is scs \<and> bt_get L coll = Some coll_v)"
proof (cases "bt_get L coll")
  case (Some cv)
  have cv: "vid cv < b_next_value b" using sinv_get[OF s Some] .
  show ?thesis
    unfolding lower_for_iter_head_def Some option.case
  proof (rule okE_bindI[OF value_type_ok[OF sinvD(1)[OF s] cv]],
      rule okE_bind2I[OF emit_et[OF sinvD(1)[OF s], unfolded et_def]], goal_cases _ e)
    case (e cty len_v b1)
    then have s1: "sinv b1 L" and sl: "sle b b1" and lv: "vid len_v < b_next_value b1"
      and cv1: "vid cv < b_next_value b1"
      using sinv_keep[OF s] keep_sle keep_next[of b b1] cv by auto
    define n where n: "n = length (b_blocks b1)"
    obtain b2 b3 b4 b5 where nb: "new_block b1 = (BlockId n, b2)" "new_block b2 = (BlockId (n + 1), b3)"
      "new_block b3 = (BlockId (n + 2), b4)" "new_block b4 = (BlockId (n + 3), b5)"
      and bk: "blank b1 b5" "length (b_blocks b5) = n + 4"
      by (rule four_blocks[OF s1 n])
    show ?case
      unfolding Let_def nb prod.case
    proof (rule counted_params[OF s1 bk(1) n bk(2)], goal_cases)
      case (1 ih "is" cs scs b8)
      note c = 1[unfolded counted_def Let_def, folded n]
      show ?case
      proof (rule into_header[of b1 "n + 4" b8 cs L "[OConst (CInt 0)]", simplified append_Cons append_Nil],
          goal_cases _ _ _ _ _ _ h)
        case (h b9)
        show ?case
        proof (rule counted_branch[OF 1 n refl h(1) h(2) h(3)], goal_cases _ b)
          case (b b10)
          let ?b10 = "set_current (BlockId (n + 1)) b10" and ?cs = "(iter_idx_name var, ih, TI64) # cs"
          have i10: "binv (n + 4) ?b10" and len: "length (b_blocks b10) = n + 4"
            using b(1) by (simp_all add: mid_def)
          have ops: "below_ops (b_next_value ?b10) (instr_operands (IIndex (OVal cv) (OVal ih) False))"
            using c cv1 b(3) by auto
          show ?case
          proof (rule okE_bind2I[OF emit_et[OF i10 ops, unfolded et_def]], goal_cases)
            case (1 el b11)
            have m11: "mid b1 (n + 4) b11" using mid_keep[OF b(1)] 1 by auto
            have nx: "b_next_value b10 \<le> b_next_value b11" using 1 keep_next[of ?b10 b11] by simp
            have pc11: "param_count (b_blocks b11) j = param_count (b_blocks b8) j" if "j < n + 4" for j
              using 1 keep_pc[of ?b10 b11 "BlockId j"] that b(4)[OF that] len by simp
            have "lvals b11 (bt_insert var el (carry_locals ?cs L))"
              using 1 lvals_mono[OF b(2) nx] by (intro lvals_insert) simp_all
            moreover have "insert (iter_idx_name var) (fst ` set cs \<union> dom (bt_get L)) \<subseteq>
                dom (bt_get (bt_insert var el (carry_locals ?cs L)))"
              by (simp only: dom_bt_insert carry_locals_dom) auto
            ultimately show ?case
              unfolding okE_simps(1) prod.case
              using m11 pc11 nx b(3)
              by (intro conjI Some fopened_pre[OF sl] fopened_close[OF \<open>counted _ _ _ _ _ _ _\<close> n refl]) simp_all
          qed
        qed (use lv h(3) c bk in \<open>auto simp: blank_def\<close>)
      qed (use c carry_ok_names[of "b_next_value b8" "dom (bt_get L)" cs] in simp_all)
    qed
  qed (use cv in auto)
qed (simp add: lower_for_iter_head_def)

section \<open>Loop tails\<close>

text \<open>The step block: the incremented counter goes back to the header.\<close>

lemma step_to_header_ok:
  assumes "sinv b L" and "bid step < length (b_blocks b)" and "bid header < length (b_blocks b)"
    and "pc b header = length scs" and "scs \<noteq> []" and "vid is < b_next_value b"
    and "carry_ok (b_next_value b) UNIV scs"
  shows "okE (step_to_header ty sp step header is scs b) (\<lambda>b'. sinv b' L \<and> sle b b')"
proof -
  have s: "sinv (set_current step b) L" using assms(1,2) by (rule sinv_set_current)
  have e: "et (length (b_blocks b)) (set_current step b)
      (emit ty sp (IBinary Add (OVal is) (OConst (CInt 1))) (set_current step b)) below_val"
    using emit_et[OF sinvD(1)[OF s]] assms(6) by simp
  show ?thesis
    unfolding step_to_header_def Let_def
  proof (rule okE_bind2I[OF e[unfolded et_def]], goal_cases)
    case (1 v b1)
    then have s1: "sinv b1 L" and sl: "sle b b1" and k: "keep (set_current step b) b1"
      using sinv_keep[OF s] keep_sle[of "set_current step b" b1] by auto
    have co: "carry_ok (b_next_value b1) UNIV scs"
      using carry_ok_mono[OF assms(7)] keep_next[OF k] by simp
    then have "carry_ok (b_next_value b1) UNIV (tl scs)" using assms(5) by (cases scs) auto
    then have "okE (terminate (Jump header (OVal v # carry_params (tl scs))) b1) (\<lambda>b'. sinv b' L \<and> sle b1 b')"
      using 1 assms(3-5) keep_pc[OF k, of header] keep_len[OF k] carry_params_ok[of "b_next_value b1" UNIV "tl scs"]
      by (intro okE_mono[OF terminate_st[OF s1]]) (auto simp: carry_params_def)
    then show ?case by (elim okE_mono) (use sl in \<open>auto intro: sle_trans\<close>)
  qed
qed

lemma opened_sle:
  assumes "opened b L b1 L1 fr" and "sle b1 b2"
  shows "opened b L b1 L1 fr" and "b_next_value b1 \<le> b_next_value b2"
  using assms sle_next by blast+

lemma finish_loop:
  assumes "sinv b0 L" and "sinv b L" and "sle b0 b" and "bid exit < length (b_blocks b)"
  shows "okE (nthE (b_blocks (set_current exit b)) (bid exit)) (\<lambda>bb.
           sinv (set_current exit b) (rebind_exit skip cs (bb_params bb) L) \<and>
           dom (bt_get L) \<subseteq> dom (bt_get (rebind_exit skip cs (bb_params bb) L)))"
  using assms by (intro rebind_st[OF assms(1)] sinv_set_current) simp_all

lemma lower_while_tail_ok:
  assumes "sinv b L" and "opened b L b1 L1 \<lparr>lf_header = header, lf_exit = exit, lf_carry = cs\<rparr>"
    and "sle b1 b2" and "sinv b2 L2" and "dom (bt_get L1) \<subseteq> dom (bt_get L2)"
  shows "st b L (lower_while_tail header exit cs L2 b2 L)"
proof -
  note fr = opened_frame[OF assms(2,3), simplified]
  have "okE (carry_args L2 cs) (\<lambda>xs. length xs = pc b2 header \<and> below_ops (b_next_value b2) xs)"
    using carry_args_ok[of cs L2 b2] fr(4,6) assms(5) sinvD(2)[OF assms(4)] by simp
  from jump_if_open_ok[OF assms(4), of "\<lambda>_. carry_args L2 cs", OF this fr(2)] show ?thesis
    unfolding st_def lower_while_tail_def
  proof (rule okE_bindI, unfold Let_def, goal_cases)
    case (1 b3)
    then have s3: "sinv b3 L2" and sl: "sle b1 b3" using assms(3) by (auto intro: sle_trans)
    note cl = close_loop[OF assms(1,2) sl s3]
    have "bid exit < length (b_blocks (pop_loop b3))" using 1 fr(3) by simp
    from finish_loop[OF assms(1) cl this] show ?case
      by (rule okE_bindI) (use cl in simp)
  qed
qed

text \<open>The part the two counted loops share: the jump to the step block, the pop, the step.\<close>

lemma counted_tail:
  assumes "sinv b L" and "fopened b L b1 L1 header step exit ih is scs"
    and "sle b1 b2" and "sinv b2 L2"
    and "okE (args ()) (\<lambda>xs. length xs = length scs \<and> below_ops (b_next_value b2) xs)"
    and k: "\<And>b4. sinv b4 L \<Longrightarrow> sle b b4 \<Longrightarrow> bid exit < length (b_blocks b4) \<Longrightarrow> okE (k b4) Q"
  shows "okE (bindE (jump_if_open args step b2) (\<lambda>b.
           bindE (step_to_header ty sp step header is scs (pop_loop b)) k)) Q"
proof -
  note fo = assms(2)[unfolded fopened_def]
  note fr = opened_frame[OF fo[THEN conjunct1] assms(3), simplified]
  have a: "okE (args ()) (\<lambda>xs. length xs = pc b2 step \<and> below_ops (b_next_value b2) xs)"
    using assms(5) fr(4) by simp
  show ?thesis
  proof (rule okE_bindI[OF jump_if_open_ok[where args = args, OF assms(4) a fr(2)]], goal_cases)
    case (1 b3)
    then have s3: "sinv b3 L2" and sl: "sle b1 b3" using assms(3) by (auto intro: sle_trans)
    note cl = close_loop[OF assms(1) fo[THEN conjunct1] sl s3]
    have h: "okE (step_to_header ty sp step header is scs (pop_loop b3)) (\<lambda>b'. sinv b' L \<and> sle (pop_loop b3) b')"
    proof (rule step_to_header_ok[OF cl(1)])
      show "bid step < length (b_blocks (pop_loop b3))" using 1 fr(2) by simp
      show "bid header < length (b_blocks (pop_loop b3))" "pc (pop_loop b3) header = length scs"
        using fo sle_blocks[OF sl] sle_pc[OF sl, of header] by simp_all
      show "scs \<noteq> []" "vid is < b_next_value (pop_loop b3)"
        "carry_ok (b_next_value (pop_loop b3)) UNIV scs"
        using fo sle_next[OF sl] carry_ok_mono[of _ UNIV scs] by auto
    qed
    show ?case
    proof (rule okE_bindI[OF h], goal_cases)
      case (1 b4)
      moreover have "bid exit < length (b_blocks b4)"
        using 1 fr(3) sle_blocks[of "pop_loop b3" b4] \<open>sinv b3 L2 \<and> _\<close> by simp
      ultimately show ?case using cl(2) by (intro k) (auto intro: sle_trans)
    qed
  qed
qed

lemma lower_integer_for_tail_ok:
  assumes "sinv b L" and "fopened b L b1 L1 (ifs_header sh) (ifs_step sh) (ifs_exit sh) ih is scs"
    and "sle b1 b2" and "sinv b2 L2" and "dom (bt_get L1) \<subseteq> dom (bt_get L2)"
  shows "st b L (lower_integer_for_tail sh sp is cs scs L2 b2 L)"
proof -
  have names: "fst ` set scs \<subseteq> dom (bt_get L2)"
    using opened_frame(6)[OF assms(2)[unfolded fopened_def, THEN conjunct1] assms(3)] assms(5) by simp
  have "okE (carry_args L2 scs) (\<lambda>xs. length xs = length scs \<and> below_ops (b_next_value b2) xs)"
    using carry_args_ok[OF names sinvD(2)[OF assms(4)]] .
  then show ?thesis
    unfolding st_def lower_integer_for_tail_def Let_def
  proof (intro counted_tail[OF assms(1-4), of "\<lambda>_. carry_args L2 scs"], goal_cases)
    case (2 b4)
    from finish_loop[OF assms(1) 2(2-4)] show ?case by (rule okE_bindI) (use 2 in simp)
  qed
qed

lemma lower_for_iter_tail_ok:
  assumes "sinv b L" and "fopened b L b1 L1 header step exit ih is scs" and "bt_get L coll = Some cv"
    and "sle b1 b2" and "sinv b2 L2" and "dom (bt_get L1) \<subseteq> dom (bt_get L2)"
  shows "st b L (lower_for_iter_tail coll consumes cv cty header step exit ih is cs scs L2 b2 L)"
proof -
  note fo = assms(2)[unfolded fopened_def]
  have "fst ` set scs \<subseteq> dom (bt_get L2)"
    using opened_frame(6)[OF fo[THEN conjunct1] assms(4)] assms(6) by simp
  then have names: "fst ` set (tl scs) \<subseteq> dom (bt_get L2)" using fo by (cases scs) auto
  have "okE (bindE (carry_args L2 (tl scs)) (\<lambda>rest. Inr (OVal ih # rest)))
      (\<lambda>xs. length xs = length scs \<and> below_ops (b_next_value b2) xs)"
    using fo sle_next[OF assms(4)]
    by (intro okE_bindI[OF carry_args_ok[OF names sinvD(2)[OF assms(5)]]]) auto
  then show ?thesis
    unfolding st_def lower_for_iter_tail_def Let_def
  proof (intro counted_tail[OF assms(1,2,4,5)], goal_cases)
    case (2 b4)
    from finish_loop[OF assms(1) 2(2-4), of is_iter_idx_name cs] show ?case
    proof (rule okE_bindI, goal_cases)
      case (1 bb)
      let ?L = "rebind_exit is_iter_idx_name cs (bb_params bb) L"
      have "st (set_current exit b4) ?L (bindE (emit_unit (TTuple []) span_default
          (IDrop (OVal cv) coll (deref cty)) (set_current exit b4)) (\<lambda>b. Inr (b, ?L)))"
        using 1 sinv_get[OF 2(2) assms(3)]
        by (intro st_bind_eu[OF _ emit_unit_st[where L = ?L]] st_ret) simp_all
      then show ?case
        using 1 2(3) unfolding st_def by (auto elim!: okE_mono intro: sle_trans)
    qed
  qed
qed

section \<open>Parallel loops\<close>

text \<open>The hint stays where it was emitted until its shape is filled in.\<close>

definition pf_at :: "builder \<Rightarrow> block_id \<Rightarrow> nat \<Rightarrow> bool" where
  "pf_at b blk j \<longleftrightarrow> bid blk < length (b_blocks b) \<and> j < length (bb_instrs (b_blocks b ! bid blk)) \<and>
     is_pf_begin (i_kind (bb_instrs (b_blocks b ! bid blk) ! j))"

lemma pf_at_sle: "pf_at b blk j \<Longrightarrow> sle b b' \<Longrightarrow> pf_at b' blk j"
  unfolding pf_at_def sle_def ble_def instrs_le_def instr_sim_def by fastforce

lemma begin_parallel_ok:
  assumes "sinv b L"
  shows "okE (begin_parallel var ty sp rs b) (\<lambda>(blk, j, b'). sinv b' L \<and> sle b b' \<and> pf_at b' blk j)"
proof -
  let ?k = "IHint (ParallelForBegin (map (\<lambda>r. (tr_var r, tr_op r, tr_ty r)) rs) (placeholder_shape var ty))"
  have cur: "bid (b_current b) < length (b_blocks b)" using binvD(6)[OF sinvD(1)[OF assms]] .
  have "eu (length (b_blocks b)) b (emit_unit TI64 sp ?k b)" by (rule emit_unit_st[OF assms]) simp
  moreover have "okE (emit_unit TI64 sp ?k b) (\<lambda>b'. pf_at b' (b_current b) (length (bb_instrs (b_blocks b ! bid (b_current b)))))"
    using cur binvD(4)[OF sinvD(1)[OF assms]]
    by (simp add: emit_unit_def emit_def fresh_value_def updE_def nthE_def Let_def pf_at_def is_pf_begin_def)
  ultimately have "okE (emit_unit TI64 sp ?k b) (\<lambda>b'. sinv b' L \<and> sle b b' \<and>
      pf_at b' (b_current b) (length (bb_instrs (b_blocks b ! bid (b_current b)))))"
    unfolding eu_def by (rule okE_mono[OF okE_conj]) (auto intro: sinv_keep[OF assms] keep_sle)
  then show ?thesis
    using cur by (auto simp: begin_parallel_def okE_bind okE_nth Let_def elim!: okE_mono)
qed

lemma patch_binv:
  assumes "binv n b" and "bid blk < length (b_blocks b)"
    and "bb' = (b_blocks b ! bid blk)\<lparr>bb_instrs := is'\<rparr>"
    and "map i_result is' = map i_result (bb_instrs (b_blocks b ! bid blk))"
    and "\<And>i. i \<in> set is' \<Longrightarrow> values_ok (b_next_value b) (instr_uses i)"
  shows "binv n (b\<lparr>b_blocks := (b_blocks b)[bid blk := bb']\<rparr>)"
proof -
  let ?bbs = "(b_blocks b)[bid blk := bb']"
  have pc: "param_count ?bbs i = param_count (b_blocks b) i" for i
    using assms(2,3) by (cases "i = bid blk") (simp_all add: param_count_def)
  have "mset (blocks_defs ?bbs) = mset (blocks_defs (b_blocks b))"
    using blocks_defs_update[OF assms(2), of bb'] assms(3,4) by (simp add: block_defs_def)
  then have d: "mset (blocks_defs ?bbs) = mset (map ValueId [0..<b_next_value b])"
    using binvD(5)[OF assms(1)] by simp
  show ?thesis
  proof (rule binvI)
    show "map bb_id (b_blocks (b\<lparr>b_blocks := ?bbs\<rparr>)) = map BlockId [0..<length (b_blocks (b\<lparr>b_blocks := ?bbs\<rparr>))]"
      using ids_update[OF binvD(3)[OF assms(1)] assms(2), of bb'] assms(3) by simp
    show "mset (blocks_defs (b_blocks (b\<lparr>b_blocks := ?bbs\<rparr>))) =
        mset (map ValueId [0..<b_next_value (b\<lparr>b_blocks := ?bbs\<rparr>)])"
      using d by simp
    fix bb i assume bb: "bb \<in> set (b_blocks (b\<lparr>b_blocks := ?bbs\<rparr>))" and i: "i \<in> set (bb_instrs bb)"
    from bb have "bb = bb' \<or> bb \<in> set (b_blocks b)"
      by simp (meson set_update_subset_insert subsetD insertE)
    then show "values_ok (b_next_value (b\<lparr>b_blocks := ?bbs\<rparr>)) (instr_uses i)"
      using i assms(3,5) binvD(7)[OF assms(1)] by auto
  next
    fix t assume "Some t \<in> set (b_terminators (b\<lparr>b_blocks := ?bbs\<rparr>))"
    then have "term_ok n (b_next_value b) (b_blocks b) t" using binvD(8)[OF assms(1)] by simp
    then show "term_ok n (b_next_value (b\<lparr>b_blocks := ?bbs\<rparr>)) (b_blocks (b\<lparr>b_blocks := ?bbs\<rparr>)) t"
      using term_ok_blocks[of n "b_next_value b" "b_blocks b" t ?bbs] pc by simp
  next
    fix fr assume "fr \<in> set (b_loops (b\<lparr>b_blocks := ?bbs\<rparr>))"
    then have "frame_ok n (b_blocks b) fr" using binvD(9)[OF assms(1)] by simp
    then show "frame_ok n (b_blocks (b\<lparr>b_blocks := ?bbs\<rparr>)) fr"
      using frame_ok_blocks[of n "b_blocks b" fr ?bbs] pc by simp
  qed (use binvD(1,2,4,6)[OF assms(1)] in simp_all)
qed

lemma instrs_le_update:
  "is_pf_begin (i_kind (xs ! j)) \<Longrightarrow> is_pf_begin k \<Longrightarrow> instrs_le xs (xs[j := (xs ! j)\<lparr>i_kind := k\<rparr>])"
proof -
  assume p: "is_pf_begin (i_kind (xs ! j))" "is_pf_begin k"
  have "instr_sim (xs ! m) (xs[j := (xs ! j)\<lparr>i_kind := k\<rparr>] ! m)" if "m < length xs" for m
    using p that by (cases "m = j") (auto simp: instr_sim_def)
  then show ?thesis by (simp add: instrs_le_def)
qed

lemma patch_parallel_ok:
  assumes "sinv b L" and "pf_at b blk j"
  shows "okE (patch_parallel blk j sh b) (\<lambda>b'. sinv b' L \<and> sle b b')"
proof -
  let ?bb = "b_blocks b ! bid blk"
  let ?is = "bb_instrs ?bb"
  from assms(2) obtain rs s0 where k: "i_kind (?is ! j) = IHint (ParallelForBegin rs s0)"
    by (auto simp: pf_at_def is_pf_begin_def split: instr_kind.splits hint_kind.splits)
  let ?i = "(?is ! j)\<lparr>i_kind := IHint (ParallelForBegin rs sh)\<rparr>"
  let ?bb' = "?bb\<lparr>bb_instrs := ?is[j := ?i]\<rparr>"
  let ?b' = "b\<lparr>b_blocks := (b_blocks b)[bid blk := ?bb']\<rparr>"
  have lt: "bid blk < length (b_blocks b)" "j < length ?is" using assms(2) by (simp_all add: pf_at_def)
  have "binv (length (b_blocks b)) ?b'"
  proof (rule patch_binv[OF sinvD(1)[OF assms(1)] lt(1) refl])
    show "map i_result (?is[j := ?i]) = map i_result ?is"
      using lt(2) by (simp add: map_update list_update_same_conv)
    show "values_ok (b_next_value b) (instr_uses i)" if "i \<in> set (?is[j := ?i])" for i
    proof -
      from that have "i = ?i \<or> i \<in> set ?is" by (meson set_update_subset_insert subsetD insertE)
      then show ?thesis
        using binvD(7)[OF sinvD(1)[OF assms(1)] nth_mem[OF lt(1)]] by (auto simp: instr_uses_def)
    qed
  qed
  then have "sinv ?b' L" using assms(1) by (simp add: sinv_def lvals_def frames_bound_def)
  moreover have "instrs_le ?is (?is[j := ?i])"
    using k by (intro instrs_le_update) (simp_all add: is_pf_begin_def)
  then have "sle b ?b'" by (auto simp: sle_def ble_def nth_list_update lt(1))
  ultimately show ?thesis
    using lt k by (simp add: patch_parallel_def okE_bind okE_nth)
qed

section \<open>The induction over statements\<close>

lemma restore_shadowed_lvals:
  "lvals b entry \<Longrightarrow> lvals b L \<Longrightarrow> lvals b (restore_shadowed names entry L)"
proof (induction names entry L rule: restore_shadowed.induct)
  case (2 name names entry L)
  have "lvals b (case bt_get entry name of Some v \<Rightarrow> bt_insert name v L | None \<Rightarrow> L)"
    using 2(2,3) by (auto split: option.split intro: lvals_insert lvals_get)
  with 2 show ?case by simp
qed simp

abbreviation stn :: "builder \<Rightarrow> locals \<Rightarrow> (string list \<times> builder \<times> locals) lres \<Rightarrow> bool" where
  "stn b L m \<equiv> okE m (\<lambda>(_, b', L'). sinv b' L' \<and> sle b b' \<and> dom (bt_get L) \<subseteq> dom (bt_get L'))"

lemma lower_if_st:
  assumes s: "sinv b L"
    and th: "\<And>b'. sinv b' L \<Longrightarrow> stn b' L (T b')" and el: "\<And>b'. sinv b' L \<Longrightarrow> stn b' L (E b')"
  shows "st b L (bindE (lower_if_head cond b L) (\<lambda>(then_bb, else_bb, b).
     bindE (T (set_current then_bb b)) (\<lambda>(then_names, b, then_locals).
     let then_tail = current_block b in
     bindE (current_block_terminator b) (\<lambda>then_term.
     let then_locals = restore_shadowed then_names L then_locals in
     bindE (E (set_current else_bb b)) (\<lambda>(else_names, b, else_locals).
     let else_tail = current_block b in
     bindE (current_block_terminator b) (\<lambda>else_term.
     let else_locals = restore_shadowed else_names L else_locals in
     lower_if_tail L then_locals then_tail (then_term \<noteq> None) else_locals else_tail (else_term \<noteq> None) b))))))"
  unfolding st_def Let_def current_block_def
proof (rule okE_bind3I[OF lower_if_head_ok[OF s]], goal_cases)
  case (1 tb eb b1)
  then have s1: "sinv (set_current tb b1) L" and sl1: "sle b b1" by (auto intro: sinv_set_current)
  show ?case
  proof (rule okE_bind3I[OF th[OF s1]], goal_cases)
    case (1 tn b2 tL)
    then have s2: "sinv b2 tL" and sl2: "sle b1 b2" by auto
    have s2L: "sinv b2 L" using sinv_sle[of "set_current tb b1" L b2 tL] s1 s2 sl2 by simp
    have r2: "lvals b2 (restore_shadowed tn L tL)"
      using s2 s2L by (auto intro: restore_shadowed_lvals dest: sinvD)
    have eb: "bid eb < length (b_blocks b2)" using sle_blocks[OF sl2] \<open>sinv b1 L \<and> _\<close> by simp
    have s2e: "sinv (set_current eb b2) L" using s2L eb by (rule sinv_set_current)
    have c2: "bid (b_current b2) < length (b_blocks b2)" using binvD(6)[OF sinvD(1)[OF s2]] .
    show ?case
    proof (rule okE_bindI[OF current_block_terminator_ok[OF sinvD(1)[OF s2]]],
        rule okE_bind3I[OF el[OF s2e]], goal_cases)
      case (1 tt en b3 eL)
      then have s3: "sinv b3 eL" and sl3: "sle b2 b3" by auto
      have s3L: "sinv b3 L" using sinv_sle[of "set_current eb b2" L b3 eL] s2e s3 sl3 by simp
      have r3: "lvals b3 (restore_shadowed en L eL)"
        using s3 s3L by (auto intro: restore_shadowed_lvals dest: sinvD)
      have r2': "lvals b3 (restore_shadowed tn L tL)" using r2 sle_next[OF sl3] by (rule lvals_mono)
      have c3: "bid (b_current b3) < length (b_blocks b3)" "bid (b_current b2) < length (b_blocks b3)"
        using binvD(6)[OF sinvD(1)[OF s3]] c2 sle_blocks[OF sl3] by simp_all
      have "sle b b3" using sl1 sl2 sl3 by (meson sle_trans)
      then show ?case
        using st_pre[OF _ lower_if_tail_ok[OF s3L r2' r3 c3(2,1)]]
        by (intro okE_bindI[OF current_block_terminator_ok[OF sinvD(1)[OF s3]]]) (simp add: st_def)
    qed
  qed
qed

lemma lower_while_st:
  assumes s: "sinv b L" and B: "\<And>b' L'. sinv b' L' \<Longrightarrow> stn b' L' (B b' L')"
  shows "st b L (bindE (lower_while_head cond body b L) (\<lambda>(header, exit, cs, loop_locals, b).
     bindE (B b loop_locals) (\<lambda>(_, b, body_locals). lower_while_tail header exit cs body_locals b L)))"
  unfolding st_def
proof (rule okE_bindI[OF lower_while_head_ok[OF s]], goal_cases)
  case (1 r)
  obtain h x cs L1 b1 where r: "r = (h, x, cs, L1, b1)" by (cases r)
  have o: "opened b L b1 L1 \<lparr>lf_header = h, lf_exit = x, lf_carry = cs\<rparr>" using 1 r by simp
  then have s1: "sinv b1 L1" by (simp add: opened_def)
  show ?case
    unfolding r prod.case
    by (rule okE_bind3I[OF B[OF s1]]) (auto intro!: lower_while_tail_ok[OF s o, unfolded st_def])
qed

lemma lower_for_st:
  assumes s: "sinv b L" and B: "\<And>b' L'. sinv b' L' \<Longrightarrow> stn b' L' (B b' L')"
    and k: "\<And>sh b2 L2. sinv b2 L2 \<Longrightarrow> sle b b2 \<Longrightarrow> dom (bt_get L) \<subseteq> dom (bt_get L2) \<Longrightarrow> okE (K sh (b2, L2)) Q"
  shows "okE (bindE (lower_integer_for_head var ty start end body b L) (\<lambda>(shape, i_step, cs, scs, loop_locals, b).
     bindE (B b loop_locals) (\<lambda>(_, b, body_locals).
     bindE (lower_integer_for_tail shape (e_span end) i_step cs scs body_locals b L) (K shape)))) Q"
proof (rule okE_bindI[OF lower_integer_for_head_ok[OF s]], goal_cases)
  case (1 r)
  obtain sh "is" cs scs L1 b1 where r: "r = (sh, is, cs, scs, L1, b1)" by (cases r)
  have o: "fopened b L b1 L1 (ifs_header sh) (ifs_step sh) (ifs_exit sh) (ifs_counter_header_value sh) is scs"
    using 1 r by simp
  then have s1: "sinv b1 L1" by (simp add: fopened_def opened_def)
  show ?case
    unfolding r prod.case
  proof (rule okE_bind3I[OF B[OF s1]], goal_cases)
    case (1 n b2 L2)
    then have "st b L (lower_integer_for_tail sh (e_span end) is cs scs L2 b2 L)"
      by (intro lower_integer_for_tail_ok[OF s o]) simp_all
    then show ?case unfolding st_def by (rule okE_bindI) (auto intro: k)
  qed
qed

lemma lower_serial_st:
  assumes s: "sinv b L" and B: "\<And>b' L'. sinv b' L' \<Longrightarrow> stn b' L' (B b' L')"
  shows "st b L (bindE (lower_integer_for_head var ty start end body b L) (\<lambda>(shape, i_step, cs, scs, loop_locals, b).
     bindE (B b loop_locals) (\<lambda>(_, b, body_locals).
     lower_integer_for_tail shape (e_span end) i_step cs scs body_locals b L)))"
proof -
  have "bindE m Inr = m" for m :: "(builder \<times> locals) lres" by (cases m) simp_all
  then show ?thesis
    using lower_for_st[OF s B, of "\<lambda>_. Inr" "\<lambda>(b', L'). sinv b' L' \<and> sle b b' \<and> dom (bt_get L) \<subseteq> dom (bt_get L')"]
    by (simp add: st_def)
qed

lemma lower_for_iter_st:
  assumes s: "sinv b L" and B: "\<And>b' L'. sinv b' L' \<Longrightarrow> stn b' L' (B b' L')"
  shows "st b L (bindE (lower_for_iter_head var ety coll body b L)
       (\<lambda>(coll_v, coll_ty, header, step, exit, i_header, i_step, cs, scs, loop_locals, b).
     bindE (B b loop_locals) (\<lambda>(_, b, body_locals).
     lower_for_iter_tail coll consumes coll_v coll_ty header step exit i_header i_step
       cs scs body_locals b L)))"
  unfolding st_def
proof (rule okE_bindI[OF lower_for_iter_head_ok[OF s]], goal_cases)
  case (1 r)
  obtain cv cty h stp x ih q where q: "r = (cv, cty, h, stp, x, ih, q)" by (cases r)
  obtain "is" cs scs L1 b1 where "q = (is, cs, scs, L1, b1)" by (cases q)
  with q have r: "r = (cv, cty, h, stp, x, ih, is, cs, scs, L1, b1)" by simp
  have o: "fopened b L b1 L1 h stp x ih is scs" "bt_get L coll = Some cv" using 1 r by simp_all
  then have s1: "sinv b1 L1" by (simp add: fopened_def opened_def)
  show ?case
    unfolding r prod.case
    by (rule okE_bind3I[OF B[OF s1]]) (auto intro!: lower_for_iter_tail_ok[OF s o, unfolded st_def])
qed

lemma lower_parallel_st:
  assumes s: "sinv b L" and B: "\<And>b' L'. sinv b' L' \<Longrightarrow> stn b' L' (B b' L')"
  shows "st b L (bindE (begin_parallel var ty sp rs b) (\<lambda>(pre_block, begin_idx, b).
        bindE (lower_integer_for_head var ty start end body b L) (\<lambda>(shape, i_step, cs, scs, loop_locals, b).
        bindE (B b loop_locals) (\<lambda>(_, b, body_locals).
        bindE (lower_integer_for_tail shape (e_span end) i_step cs scs body_locals b L) (\<lambda>(b, L).
        bindE (patch_parallel pre_block begin_idx (shape_of shape) b) (\<lambda>b.
        bindE (emit_unit TI64 (e_span end) (IHint ParallelForEnd) b) (\<lambda>b. Inr (b, L))))))))"
  unfolding st_def
proof (rule okE_bind3I[OF begin_parallel_ok[OF s]], goal_cases)
  case (1 blk j b0)
  then have s0: "sinv b0 L" and sl0: "sle b b0" and pf: "pf_at b0 blk j" by simp_all
  show ?case
  proof (rule lower_for_st[OF s0 B], assumption, goal_cases)
    case (1 sh b2 L2)
    have "st b2 L2 (bindE (patch_parallel blk j (shape_of sh) b2) (\<lambda>b.
        bindE (emit_unit TI64 (e_span end) (IHint ParallelForEnd) b) (\<lambda>b. Inr (b, L2))))"
      using patch_parallel_ok[OF 1(1) pf_at_sle[OF pf 1(2)], of "shape_of sh"]
      by (intro st_bind_sb[where P = "\<lambda>_. True"] st_bind_eu[OF _ emit_unit_st] st_ret) simp_all
    then show ?case
      using 1 sl0 unfolding st_def prod.case by (auto elim!: okE_mono intro: sle_trans)
  qed
qed

lemma lower_task_st:
  assumes s: "sinv b L" and B: "\<And>b' L'. sinv b' L' \<Longrightarrow> stn b' L' (B b' L')"
  shows "st b L (bindE (emit_unit TI64 span_default (IHint (TaskBegin name)) b) (\<lambda>b.
     bindE (B b L) (\<lambda>(_, b, body_locals).
     bindE (emit_unit TI64 span_default (IHint (TaskEnd name)) b) (\<lambda>b.
     bindE (emit TI64 span_default (IConst (CInt 0)) b) (\<lambda>(dummy, b).
     Inr (b, bt_insert name dummy L))))))"
proof (rule st_bind_eu[OF s emit_unit_st[OF s]], goal_cases)
  case (2 b1)
  show ?case
    unfolding st_def
  proof (rule okE_bind3I[OF B[OF 2(1)]], goal_cases)
    case (1 n b2 L2)
    then have "sinv b2 L" using sinv_sle[OF 2(1)] by blast
    then have "st b2 L (bindE (emit_unit TI64 span_default (IHint (TaskEnd name)) b2) (\<lambda>b.
        bindE (emit TI64 span_default (IConst (CInt 0)) b) (\<lambda>(dummy, b). Inr (b, bt_insert name dummy L))))"
      by (intro st_bind_eu[OF _ emit_unit_st] st_bind_et[OF _ emit_et] st_ret sinv_insert)
        (auto dest: sinvD)
    then show ?case
      using 1 unfolding st_def by (auto elim!: okE_mono intro: sle_trans)
  qed
qed simp

lemma lower_cons_st:
  assumes s: "sinv b L" and S: "st b L m" and SS: "\<And>b' L'. sinv b' L' \<Longrightarrow> stn b' L' (SS b' L')"
  shows "stn b L (bindE (current_block_terminator b) (\<lambda>t. case t of
       Some _ \<Rightarrow> Inr ([], b, L)
     | None \<Rightarrow> bindE m (\<lambda>(b, L). bindE (SS b L) (\<lambda>(names, b, L). Inr (ns @ names, b, L)))))"
proof (rule okE_bindI[OF current_block_terminator_ok[OF sinvD(1)[OF s]]], goal_cases)
  case (1 t)
  have "stn b L (bindE m (\<lambda>(b, L). bindE (SS b L) (\<lambda>(names, b, L). Inr (ns @ names, b, L))))"
  proof (rule okE_bind2I[OF S[unfolded st_def]], goal_cases)
    case (1 b1 L1)
    then have s1: "sinv b1 L1" by simp
    show ?case
    proof (rule okE_bind3I[OF SS[OF s1]], goal_cases)
      case (1 n b2 L2)
      with \<open>sinv b1 L1 \<and> _\<close> show ?case by simp (meson sle_trans subset_trans)
    qed
  qed
  then show ?case using s by (cases t) simp_all
qed

lemma lower_stmt_st:
  shows "sinv b L \<Longrightarrow> st b L (lower_stmt R s b L)"
    and "sinv b L \<Longrightarrow> stn b L (lower_stmts R ss b L)"
proof (induction s "io :: string list \<times> string list" and ss "io' :: string list \<times> string list"
    arbitrary: b L and b L rule: walk_stmt_walk_stmts.induct)
  case (1 name ty e inner out)
  then show ?case
    by (auto intro!: st_bind_et[OF _ lower_value_st] st_ret sinv_insert)
next
  case (4 c tb eb io)
  show ?case
    unfolding lower_stmt.simps by (rule lower_if_st[OF 4(3) 4(1,2)])
next
  case (5 c body io)
  show ?case
    unfolding lower_stmt.simps by (rule lower_while_st[OF 5(2) 5(1)])
next
  case (6 v ty s e body p rs io)
  show ?case
  proof (cases p)
    case True
    then show ?thesis
      unfolding lower_stmt.simps by simp (rule lower_parallel_st[OF 6(2) 6(1)])
  next
    case False
    then show ?thesis
      unfolding lower_stmt.simps by simp (rule lower_serial_st[OF 6(2) 6(1)])
  qed
next
  case (7 v ety c cty cons body io)
  show ?case
    unfolding lower_stmt.simps by (rule lower_for_iter_st[OF 7(2) 7(1)])
next
  case (8 n body caps io)
  show ?case
    unfolding lower_stmt.simps by (rule lower_task_st[OF 8(2) 8(1)])
next
  case (11 s ss io)
  show ?case
    unfolding lower_stmts.simps by (rule lower_cons_st[OF 11(3) 11(1)[OF 11(3)] 11(2)])
qed (auto intro!: lower_reassign_st lower_index_assign_st lower_assert_st lower_break_st lower_continue_st
    lower_discard_st lower_drop_st lower_print_st st_bind_et[OF _ lower_operand_st] lower_return_st
    st_bind_eu[OF _ emit_unit_st] st_ret)

section \<open>Functions\<close>

lemma start_ok:
  assumes "new_block (builder_new name t) = (entry, b)"
  shows "entry = BlockId 0 \<and> binv 0 b \<and> length (b_blocks b) = 1 \<and> b_next_value b = 0 \<and>
         b_loops b = [] \<and> b_current b = BlockId 0"
  using assms unfolding new_block_def builder_new_def Let_def
  by (auto simp: binv_def blocks_defs_def block_defs_def)

lemma lower_params_ok:
  assumes "binv 0 b" and "length (b_blocks b) = 1" and "b_loops b = []" and "b_current b = BlockId 0"
    and "lvals b L"
  shows "okE (lower_params (BlockId 0) ps b L) (\<lambda>(recs, b', L'). binv 0 b' \<and> length (b_blocks b') = 1 \<and>
           b_loops b' = [] \<and> b_current b' = BlockId 0 \<and> lvals b' L' \<and>
           b_name b' = b_name b \<and> b_return_type b' = b_return_type b \<and>
           map (\<lambda>(n, t, v). (n, t)) recs = map (\<lambda>p. (tp_name p, tp_ty p)) ps \<and>
           bb_params (b_blocks b' ! 0) = bb_params (b_blocks b ! 0) @ map (\<lambda>(n, t, v). (v, t)) recs)"
  using assms
proof (induction ps arbitrary: b L)
  case Nil
  then show ?case by simp
next
  case (Cons p ps)
  have "okE (fresh_param (BlockId 0) (tp_ty p) b) (\<lambda>(v, b'). binv 0 b' \<and> grow 0 b b' \<and> vid v < b_next_value b' \<and>
      bb_params (b_blocks b' ! 0) = bb_params (b_blocks b ! 0) @ [(v, tp_ty p)])"
    by (rule okE_mono[OF fresh_param_ok[OF Cons.prems(1)]]) (use Cons.prems in \<open>auto simp: grow_def\<close>)
  then show ?case
    unfolding lower_params.simps
  proof (rule okE_bind2I, goal_cases)
    case (1 v b1)
    then have "okE (lower_params (BlockId 0) ps b1 (bt_insert (tp_name p) v L)) (\<lambda>(recs, b', L').
        binv 0 b' \<and> length (b_blocks b') = 1 \<and> b_loops b' = [] \<and> b_current b' = BlockId 0 \<and>
        lvals b' L' \<and> b_name b' = b_name b1 \<and> b_return_type b' = b_return_type b1 \<and> map (\<lambda>(n, t, v). (n, t)) recs = map (\<lambda>p. (tp_name p, tp_ty p)) ps \<and>
        bb_params (b_blocks b' ! 0) = bb_params (b_blocks b1 ! 0) @ map (\<lambda>(n, t, v). (v, t)) recs)"
      using Cons.prems
      by (intro Cons.IH lvals_insert) (auto simp: grow_def intro: lvals_mono dest: ble_next)
    then show ?case by (rule okE_bind3I) (use 1 in \<open>auto simp: grow_def ble_def\<close>)
  qed
qed

lemma build_blocks_ok:
  "length ts = length bbs \<Longrightarrow> build_blocks bbs ts =
   Inr (map2 (\<lambda>bb t. bb\<lparr>bb_term := (case t of Some tm \<Rightarrow> tm | None \<Rightarrow> Unreachable)\<rparr>) bbs ts)"
proof (induction bbs ts rule: build_blocks.induct)
  case (1 bbs)
  then show ?case by simp
qed auto

end
