(* ===== verification/SsaFuncWf.thy ===== *)
theory SsaFuncWf
  imports SsaStructWf
begin

text \<open>
  What the lowering of a whole function promises: it never panics, and the function it
  returns is well formed, has the parameters of the source function as those of its entry
  block, and, for an extern, is a declaration without a body. \<open>lower_program\<close> splits the
  functions of a program into the lowered ones and the reported ones.
\<close>

section \<open>Building\<close>

abbreviation close_block :: "basic_block \<Rightarrow> terminator option \<Rightarrow> basic_block" where
  "close_block bb t \<equiv> bb\<lparr>bb_term := (case t of Some tm \<Rightarrow> tm | None \<Rightarrow> Unreachable)\<rparr>"

lemma build_wf:
  assumes i: "binv (length (b_blocks b)) b" and e: "bid (b_entry b) < length (b_blocks b)"
  shows "okE (build b) (\<lambda>fn. wf_func fn \<and> fn_name fn = b_name b \<and> fn_params fn = b_params b \<and>
           fn_return_type fn = b_return_type b \<and> fn_entry fn = b_entry b \<and> fn_is_extern fn = False \<and>
           fn_recursion_bound fn = None \<and> length (fn_blocks fn) = length (b_blocks b) \<and>
           (\<forall>i<length (b_blocks b). fn_blocks fn ! i = close_block (b_blocks b ! i) (b_terminators b ! i)))"
proof -
  define bbs where "bbs = map2 close_block (b_blocks b) (b_terminators b)"
  note d = binvD[OF i]
  have len: "length bbs = length (b_blocks b)" using d(2) by (simp add: bbs_def)
  have nth: "bbs ! j = close_block (b_blocks b ! j) (b_terminators b ! j)" if "j < length (b_blocks b)" for j
    using that d(2) by (simp add: bbs_def)
  have ids: "map bb_id bbs = map bb_id (b_blocks b)" and bd: "map block_defs bbs = map block_defs (b_blocks b)"
    using len by (auto intro!: nth_equalityI simp: nth block_defs_def)
  have defs: "blocks_defs bbs = blocks_defs (b_blocks b)" using bd by (simp add: blocks_defs_def)
  have pc: "param_count bbs j = param_count (b_blocks b) j" if "j < length (b_blocks b)" for j
    using that by (simp add: param_count_def nth)
  have sub: "set vs \<subseteq> set (blocks_defs bbs)" if "values_ok (b_next_value b) vs" for vs
  proof
    fix v assume "v \<in> set vs"
    then have "vid v < b_next_value b" using that by (simp add: values_ok_def)
    then show "v \<in> set (blocks_defs bbs)"
      using binv_defs_set[OF i] defs by (metis imageI lessThan_iff value_id.collapse)
  qed
  have blk: "list_all (edge_ok bbs) (term_edges (bb_term bb)) \<and>
      list_all (\<lambda>i. set (instr_uses i) \<subseteq> set (blocks_defs bbs)) (bb_instrs bb) \<and>
      set (term_uses (bb_term bb)) \<subseteq> set (blocks_defs bbs)" if "bb \<in> set bbs" for bb
  proof -
    from that obtain j where j: "j < length (b_blocks b)" "bb = bbs ! j" using len by (metis in_set_conv_nth)
    have t: "term_ok (length (b_blocks b)) (b_next_value b) (b_blocks b) (bb_term bb)"
      using d(8) d(2) j nth_mem[of j "b_terminators b"]
      by (cases "b_terminators b ! j") (auto simp: nth term_ok_def)
    have "list_all (edge_ok bbs) (term_edges (bb_term bb))"
      using t pc len by (auto simp: term_ok_def edge_ok_def list_all_iff)
    moreover have "set (term_uses (bb_term bb)) \<subseteq> set (blocks_defs bbs)"
      using t by (intro sub) (simp add: term_ok_def)
    moreover have "list_all (\<lambda>i. set (instr_uses i) \<subseteq> set (blocks_defs bbs)) (bb_instrs bb)"
      unfolding list_all_iff using d(7)[of "b_blocks b ! j"] j nth[OF j(1)] by (auto intro!: sub[THEN subsetD])
    ultimately show ?thesis by blast
  qed
  have "distinct (blocks_defs bbs)" using binv_defs_distinct[OF i] defs by simp
  then have "wf_func \<lparr>fn_name = b_name b, fn_params = b_params b, fn_return_type = b_return_type b,
      fn_entry = b_entry b, fn_blocks = bbs, fn_is_extern = False, fn_recursion_bound = None\<rparr>"
    using blk ids d(3) e len by (auto simp: wf_func_def list_all_iff)
  then show ?thesis
    using build_blocks_ok[OF d(2)] len nth by (simp add: build_def bbs_def)
qed

section \<open>Functions\<close>

text \<open>What a function returned by the lowering satisfies.\<close>

definition lowered_ok :: "typed_function \<Rightarrow> func \<Rightarrow> bool" where
  "lowered_ok f fn \<longleftrightarrow>
     wf_func fn \<and> fn_name fn = tf_name f \<and> fn_return_type fn = tf_return_type f \<and>
     fn_is_extern fn = tf_is_extern f \<and> fn_entry fn = BlockId 0 \<and>
     map (\<lambda>(n, t, v). (n, t)) (fn_params fn) = map (\<lambda>p. (tp_name p, tp_ty p)) (tf_params f) \<and>
     bb_params (fn_blocks fn ! 0) = map (\<lambda>(n, t, v). (v, t)) (fn_params fn)"

lemma new_block_name:
  "new_block (builder_new name t) = (entry, b) \<Longrightarrow> b_name b = name \<and> b_return_type b = t"
  by (auto simp: new_block_def builder_new_def Let_def)

lemma params_start:
  assumes "new_block (builder_new name t) = (entry, b)"
  shows "okE (lower_params entry ps b []) (\<lambda>(recs, b', L). sinv b' L \<and> length (b_blocks b') = 1 \<and>
           b_name b' = name \<and> b_return_type b' = t \<and>
           map (\<lambda>(n, t, v). (n, t)) recs = map (\<lambda>p. (tp_name p, tp_ty p)) ps \<and>
           bb_params (b_blocks b' ! 0) = map (\<lambda>(n, t, v). (v, t)) recs)"
proof -
  have b: "entry = BlockId 0" "binv 0 b" "length (b_blocks b) = 1" "b_loops b = []" "b_current b = BlockId 0"
    using start_ok[OF assms] by simp_all
  have p0: "bb_params (b_blocks b ! 0) = []"
    using assms by (auto simp: new_block_def builder_new_def Let_def)
  have "lvals b []" by (simp add: lvals_def)
  from lower_params_ok[OF b(2-5) this, of ps] show ?thesis
    unfolding b(1)
  proof (rule okE_mono, goal_cases)
    case (1 x)
    then show ?case
      using p0 new_block_name[OF assms] by (auto simp: sinv_def frames_bound_def intro: binv_raise[of 0])
  qed
qed

lemma sinv_update_header [simp]: "sinv (b\<lparr>b_params := ps, b_entry := e\<rparr>) L = sinv b L"
  by (simp add: sinv_def binv_def lvals_def frames_bound_def)

text \<open>The end of both paths: the header is filled in, the last block closed, the function built.\<close>

lemma build_ok:
  assumes "sinv b L" and "b_entry b = BlockId 0" and "bb_params (b_blocks b ! 0) = map (\<lambda>(n, t, v). (v, t)) (b_params b)"
  shows "okE (build b) (\<lambda>fn. wf_func fn \<and> fn_name fn = b_name b \<and> fn_return_type fn = b_return_type b \<and>
           fn_is_extern fn = False \<and> fn_entry fn = BlockId 0 \<and> fn_params fn = b_params b \<and>
           bb_params (fn_blocks fn ! 0) = map (\<lambda>(n, t, v). (v, t)) (fn_params fn))"
proof -
  have "0 < length (b_blocks b)" by (rule le_less_trans[OF le0 binvD(6)[OF sinvD(1)[OF assms(1)]]])
  then show ?thesis
    using build_wf[OF sinvD(1)[OF assms(1)]] assms(2,3) by (auto elim!: okE_mono)
qed

lemma wf_func_flags [simp]:
  "wf_func (fn\<lparr>fn_is_extern := x\<rparr>) = wf_func fn"
  "wf_func (fn\<lparr>fn_recursion_bound := r\<rparr>) = wf_func fn"
  by (simp_all add: wf_func_def)

lemma lower_extern_ok:
  assumes "tf_is_extern f"
  shows "okE (lower_extern f) (lowered_ok f)"
proof -
  obtain entry b where nb: "new_block (builder_new (tf_name f) (tf_return_type f)) = (entry, b)" by fastforce
  have e: "entry = BlockId 0" using start_ok[OF nb] by simp
  show ?thesis
    unfolding lower_extern_def Let_def nb prod.case
  proof (rule okE_bind3I[OF params_start[OF nb]], goal_cases)
    case (1 recs b1 L)
    let ?b = "b1\<lparr>b_params := recs, b_entry := entry\<rparr>"
    have s: "sinv ?b L" using 1 by simp
    have "okE (terminate Unreachable ?b) (\<lambda>b'. sinv b' L \<and> ble (length (b_blocks ?b)) ?b b')"
      by (rule okE_mono[OF terminate_st[OF s]]) (auto simp: sle_def)
    then show ?case
    proof (rule okE_bindI, goal_cases)
      case (1 b2)
      then have "okE (build b2) (\<lambda>fn. wf_func fn \<and> fn_name fn = b_name b2 \<and> fn_return_type fn = b_return_type b2 \<and>
           fn_is_extern fn = False \<and> fn_entry fn = BlockId 0 \<and> fn_params fn = b_params b2 \<and>
           bb_params (fn_blocks fn ! 0) = map (\<lambda>(n, t, v). (v, t)) (fn_params fn))"
        using \<open>sinv b1 L \<and> _\<close> by (intro build_ok[of b2 L]) (auto simp: ble_def e)
      then show ?case
        using 1 \<open>sinv b1 L \<and> _\<close> assms
        by (auto simp: okE_bind lowered_ok_def ble_def elim!: okE_mono)
    qed
  qed
qed

lemma lower_body_ok:
  assumes "\<not> tf_is_extern f"
  shows "okE (lower_function R f) (\<lambda>fn. lowered_ok f fn \<and> fn_recursion_bound fn = tf_recursion_bound f)"
proof -
  obtain entry b where nb: "new_block (builder_new (tf_name f) (tf_return_type f)) = (entry, b)" by fastforce
  have e: "entry = BlockId 0" "b_current b = BlockId 0" using start_ok[OF nb] by simp_all
  then have cur: "set_current entry b = b" by (simp add: set_current_def)
  show ?thesis
    unfolding lower_function_def Let_def nb prod.case if_not_P[OF assms] cur
  proof (rule okE_bind3I[OF params_start[OF nb]], goal_cases)
    case (1 recs b1 L)
    let ?b = "b1\<lparr>b_params := recs, b_entry := entry\<rparr>"
    have "sinv ?b L" using 1 by simp
    then show ?case
    proof (rule okE_bind3I[OF lower_stmt_st(2)], goal_cases)
      case (1 n b2 L2)
      then have s2: "sinv b2 L2" and bl: "ble (length (b_blocks ?b)) ?b b2" by (simp_all add: sle_def)
      show ?case
      proof (rule okE_bindI[OF current_block_terminator_ok[OF sinvD(1)[OF s2]]], goal_cases)
        case (1 t)
        have "okE (case t of None \<Rightarrow> terminate Unreachable b2 | Some _ \<Rightarrow> Inr b2)
            (\<lambda>b'. sinv b' L2 \<and> ble (length (b_blocks ?b)) ?b b')"
        proof (cases t)
          case None
          have "ble (length (b_blocks ?b)) ?b b'" if "sle b2 b'" for b'
            by (rule ble_trans[OF bl _ ble_blocks[OF bl]]) (use that in \<open>simp add: sle_def\<close>)
          then show ?thesis
            unfolding None option.case by (intro okE_mono[OF terminate_st[OF s2]]) auto
        qed (use s2 bl in simp)
        then show ?case
        proof (rule okE_bindI, goal_cases)
          case (1 b3)
          then have "okE (build b3) (\<lambda>fn. wf_func fn \<and> fn_name fn = b_name b3 \<and> fn_return_type fn = b_return_type b3 \<and>
              fn_is_extern fn = False \<and> fn_entry fn = BlockId 0 \<and> fn_params fn = b_params b3 \<and>
              bb_params (fn_blocks fn ! 0) = map (\<lambda>(n, t, v). (v, t)) (fn_params fn))"
            using \<open>sinv b1 L \<and> _\<close> by (intro build_ok[of b3 L2]) (auto simp: ble_def e)
          then show ?case
            using 1 \<open>sinv b1 L \<and> _\<close> assms
            by (auto simp: okE_bind lowered_ok_def ble_def elim!: okE_mono)
        qed
      qed
    qed
  qed
qed

section \<open>Programs\<close>

definition lowering_error :: "registries \<Rightarrow> typed_function \<Rightarrow> lower_error option" where
  "lowering_error R f = (case lower_function R f of Inl (Fail e) \<Rightarrow> Some e | _ \<Rightarrow> None)"

lemma lower_function_okE: "okE (lower_function R f) (lowered_ok f)"
proof (cases "tf_is_extern f")
  case True
  then show ?thesis using lower_extern_ok by (simp add: lower_function_def)
next
  case False
  then show ?thesis by (rule okE_mono[OF lower_body_ok]) simp
qed

lemma lower_functions_split:
  "lower_functions R fs =
     Some (concat (map (\<lambda>f. case lower_function R f of Inr fn \<Rightarrow> [fn] | _ \<Rightarrow> []) fs),
           List.map_filter (lowering_error R) fs)"
proof (induction fs)
  case Nil
  then show ?case by simp
next
  case (Cons f fs)
  have "lower_function R f \<noteq> Inl Panic" using lower_function_okE by (rule okE_not_panic)
  then show ?case
    using Cons by (auto simp: lowering_error_def map_filter_simps split: sum.split failure.split)
qed

end
