(* ===== verification/SsaLowerProps.thy ===== *)
theory SsaLowerProps
  imports SsaFuncWf SsaSem
begin

text \<open>
  The properties of the lowering to SSA (\<open>src/ssa.rs\<close>): it never panics, what it returns is
  well formed, a program is split into lowered and reported functions, an extern becomes a
  declaration, and how the bindings are merged after an \<open>if\<close>.
\<close>

section \<open>Examples\<close>

definition ex_reg :: registries where
  "ex_reg = \<lparr>non_copy_structs = [], non_copy_enums = []\<rparr>"

definition ex_var :: "string \<Rightarrow> ty \<Rightarrow> typed_expr" where
  "ex_var n t = TExpr (EVar n) t None span_default None"

definition ex_param :: "string \<Rightarrow> ty \<Rightarrow> typed_param" where
  "ex_param n t = \<lparr>tp_name = n, tp_ty = t, tp_name_span = span_default\<rparr>"

definition ex_function :: "string \<Rightarrow> typed_param list \<Rightarrow> ty \<Rightarrow> typed_stmt list \<Rightarrow> bool \<Rightarrow> typed_function" where
  "ex_function n ps t body ext = \<lparr>tf_name = n, tf_params = ps, tf_return_type = t, tf_requires = [],
     tf_body = body, tf_is_pure = False, tf_is_extern = ext, tf_recursion_bound = Some 3, tf_span = span_default\<rparr>"

text \<open>\<open>fn f(c, x, y) { while c { x = y; c = y2; } return x; }\<close>, with a carried binding.\<close>

definition ex_while :: typed_function where
  "ex_while = ex_function ''f'' [ex_param ''c'' TBool, ex_param ''x'' TI64, ex_param ''y'' TI64] TI64
     [SWhile (ex_var ''c'' TBool) [SReassign ''x'' TI64 (ex_var ''y'' TI64) False], SReturn (ex_var ''x'' TI64)] False"


definition ex_extern :: typed_function where
  "ex_extern = ex_function ''ext'' [ex_param ''a'' TI64] TI64 [] True"

section \<open>Merging after an if\<close>

lemma fresh_param_fresh:
  "fresh_param blk ty b = Inr (v, b') \<Longrightarrow> vid v = b_next_value b \<and> b_next_value b' = b_next_value b + 1"
  by (auto simp: fresh_param_def fresh_value_def add_block_param_def bindE_Inr_iff nthE_def updE_def Let_def split: if_splits)

lemma merge_params_fresh:
  "merge_params blk entry names b = Inr (ps, b') \<Longrightarrow>
     map fst ps = names \<and> (\<forall>(n, v)\<in>set ps. b_next_value b \<le> vid v)"
proof (induction names arbitrary: b ps b')
  case (Cons n names)
  then obtain v b1 qs where v: "fresh_param blk (b_value_types b ! vid (the (bt_get entry n))) b = Inr (v, b1)"
    "merge_params blk entry names b1 = Inr (qs, b')" "ps = (n, v) # qs"
    by (auto simp: bindE_Inr_iff expectE_def value_type_def nthE_def split: option.splits if_splits)
  then show ?case using Cons.IH[OF v(2)] fresh_param_fresh[OF v(1)] by fastforce
qed simp

lemma merged_names_iff:
  assumes "bt_inv entry" and "bt_get entry n = Some v"
  shows "n \<in> set (merged_names entry t e) \<longleftrightarrow> branch_value entry t n \<noteq> branch_value entry e n"
proof -
  have d: "distinct (map fst entry)" using assms(1) btm.keys_distinct by blast
  then have "(n, u) \<in> set entry \<longleftrightarrow> u = v" for u using assms(2) by (metis map_of_eq_Some_iff option.inject)
  then show ?thesis
    unfolding merged_names_def branch_value_def assms(2)
    by (auto simp: image_iff split: option.splits)
qed

section \<open>Externs\<close>

lemma fresh_param_entry:
  assumes "b_blocks b = [bb]" and "length (b_value_types b) = b_next_value b"
  shows "\<exists>v b'. fresh_param (BlockId 0) ty b = Inr (v, b') \<and>
    b_blocks b' = [bb\<lparr>bb_params := bb_params bb @ [(v, ty)]\<rparr>] \<and> length (b_value_types b') = b_next_value b' \<and>
    b_terminators b' = b_terminators b \<and> b_current b' = b_current b"
  using assms by (simp add: fresh_param_def fresh_value_def add_block_param_def nthE_def updE_def Let_def)

lemma lower_params_entry:
  "b_blocks b = [bb] \<Longrightarrow> length (b_value_types b) = b_next_value b \<Longrightarrow>
   \<exists>recs b' L'. lower_params (BlockId 0) ps b L = Inr (recs, b', L') \<and> (\<exists>qs. b_blocks b' = [bb\<lparr>bb_params := qs\<rparr>]) \<and>
     b_terminators b' = b_terminators b \<and> b_current b' = b_current b"
proof (induction ps arbitrary: b bb L)
  case Nil
  then show ?case by (cases bb) auto
next
  case (Cons p ps)
  obtain v b1 where 1: "fresh_param (BlockId 0) (tp_ty p) b = Inr (v, b1)"
    "b_blocks b1 = [bb\<lparr>bb_params := bb_params bb @ [(v, tp_ty p)]\<rparr>]" "length (b_value_types b1) = b_next_value b1"
    "b_terminators b1 = b_terminators b" "b_current b1 = b_current b"
    using fresh_param_entry[OF Cons.prems] by blast
  obtain recs b2 L2 qs where "lower_params (BlockId 0) ps b1 (bt_insert (tp_name p) v L) = Inr (recs, b2, L2)"
    "b_blocks b2 = [bb\<lparr>bb_params := qs\<rparr>]" "b_terminators b2 = b_terminators b1" "b_current b2 = b_current b1"
    using Cons.IH[OF 1(2,3), of "bt_insert (tp_name p) v L"] by auto
  then show ?case using 1 by auto
qed

section \<open>Properties\<close>

text \<open>
  C2. The lowering of a function never panics: no \<open>unwrap\<close>, index or \<open>expect\<close> of the builder
  fails, for any typed function, in or out of the supported subset.
\<close>

theorem lowering_never_panics: "lower_function R f \<noteq> Inl Panic"
  using lower_function_okE by (rule okE_not_panic)

text \<open>
  C1. A lowered function is well formed SSA: every value is defined exactly once, every
  operand names a defined value, every edge goes to a block of the function with as many
  arguments as it has parameters, blocks are numbered by position; and its name, types,
  parameters and recursion bound are those of the source.
\<close>

theorem lowering_well_formed:
  assumes "lower_function R f = Inr fn"
  shows "wf_func fn \<and> fn_name fn = tf_name f \<and> fn_return_type fn = tf_return_type f \<and>
    fn_is_extern fn = tf_is_extern f \<and> fn_entry fn = BlockId 0 \<and>
    map (\<lambda>(n, t, v). (n, t)) (fn_params fn) = map (\<lambda>p. (tp_name p, tp_ty p)) (tf_params f) \<and>
    bb_params (fn_blocks fn ! 0) = map (\<lambda>(n, t, v). (v, t)) (fn_params fn) \<and>
    (\<not> tf_is_extern f \<longrightarrow> fn_recursion_bound fn = tf_recursion_bound f)"
  using okE_returns[OF lower_function_okE assms] okE_returns[OF lower_body_ok assms]
  by (auto simp: lowered_ok_def)

lemma lowering_well_formed_witness:
  "\<exists>fn. lower_function ex_reg ex_while = Inr fn \<and> wf_func fn \<and> fn_recursion_bound fn = Some 3"
proof -
  have "case lower_function ex_reg ex_while of Inr fn \<Rightarrow> True | Inl _ \<Rightarrow> False" by code_simp
  then obtain fn where fn: "lower_function ex_reg ex_while = Inr fn" by (auto split: sum.splits)
  have "tf_recursion_bound ex_while = Some 3" "\<not> tf_is_extern ex_while" by code_simp+
  then show ?thesis using lowering_well_formed[OF fn] fn by simp
qed

text \<open>
  \<open>lower_program\<close> neither panics nor loses a function: the module holds the lowered
  functions, the error list one entry for each function that was not, both in source order,
  and every function of the module is well formed.
\<close>

theorem lower_program_partitions:
  "\<exists>M errs. lower_program R p = Some (M, errs) \<and>
     m_functions M = concat (map (\<lambda>f. case lower_function R f of Inr fn \<Rightarrow> [fn] | _ \<Rightarrow> []) (tpg_functions p)) \<and>
     errs = List.map_filter (lowering_error R) (tpg_functions p) \<and>
     length (m_functions M) + length errs = length (tpg_functions p) \<and> list_all wf_func (m_functions M)"
proof -
  have len: "length (concat (map (\<lambda>f. case lower_function R f of Inr fn \<Rightarrow> [fn] | _ \<Rightarrow> []) fs)) +
      length (List.map_filter (lowering_error R) fs) = length fs" for fs
  proof (induction fs)
    case (Cons f fs)
    have "lower_function R f \<noteq> Inl Panic" using lower_function_okE by (rule okE_not_panic)
    then show ?case using Cons by (auto simp: lowering_error_def map_filter_simps split: sum.split failure.split)
  qed (simp add: map_filter_simps)
  have wf: "wf_func fn" if "lower_function R f = Inr fn" for f fn
    using okE_returns[OF lower_function_okE that] by (simp add: lowered_ok_def)
  show ?thesis
    using lower_functions_split[of R "tpg_functions p"] len[of "tpg_functions p"]
    by (auto simp: lower_program_def list_all_iff split: sum.splits dest: wf[OF sym])
qed

text \<open>
  After an \<open>if\<close> a name bound before it gets a new value, the merge block's parameter, when
  the two branches leave different values for it, and keeps the value it had before the \<open>if\<close>
  when they agree: also when both gave it the same new one.
\<close>

theorem if_merges_disagreements:
  assumes "lower_if_tail entry tL tb tT eL eb eT b = Inr (b', L')" and "\<not> (tT \<and> eT)"
    and "bt_inv entry" and "bt_get entry n = Some v"
  shows "if branch_value entry tL n = branch_value entry eL n then bt_get L' n = Some v
    else \<exists>p. bt_get L' n = Some p \<and> b_next_value b \<le> vid p"
proof -
  obtain blk b0 where nb: "new_block b = (blk, b0)" by fastforce
  have n0: "b_next_value b0 = b_next_value b" using nb by (auto simp: new_block_def Let_def)
  obtain ps b1 where mp: "merge_params blk entry (merged_names entry tL eL) b0 = Inr (ps, b1)"
    and L': "L' = bt_insert_all ps entry"
    using assms(1,2) nb unfolding lower_if_tail_def by (auto simp: Let_def bindE_Inr_iff)
  have ps: "map fst ps = merged_names entry tL eL" "\<forall>(n, p)\<in>set ps. b_next_value b \<le> vid p"
    using merge_params_fresh[OF mp] n0 by auto
  have get: "bt_get L' n = (case map_of (rev ps) n of None \<Rightarrow> Some v | Some p \<Rightarrow> Some p)"
    using assms(4) by (simp add: L' bt_insert_all_eq btm.get_ins_all split: option.split)
  show ?thesis
  proof (cases "branch_value entry tL n = branch_value entry eL n")
    case True
    then have "n \<notin> fst ` set ps" using merged_names_iff[OF assms(3,4)] ps(1) by (metis list.set_map)
    then have "map_of (rev ps) n = None" by (simp add: map_of_eq_None_iff)
    then show ?thesis using True get by simp
  next
    case False
    then have "n \<in> fst ` set ps" using merged_names_iff[OF assms(3,4)] ps(1) by (metis list.set_map)
    then obtain p where "map_of (rev ps) n = Some p" by (metis map_of_eq_None_iff not_None_eq rev_map set_rev list.set_map)
    then show ?thesis using False get ps(2) by (auto dest!: map_of_SomeD)
  qed
qed

lemma if_merges_disagreements_witness:
  "\<exists>b' L'. lower_if_tail [(''x'', ValueId 0)] [(''x'', ValueId 1)] (BlockId 0) False
       [(''x'', ValueId 1)] (BlockId 0) False (snd (new_block (builder_new ''f'' TI64))) = Inr (b', L') \<and>
     bt_get L' ''x'' = Some (ValueId 0)"
proof -
  let ?r = "lower_if_tail [(''x'', ValueId 0)] [(''x'', ValueId 1)] (BlockId 0) False
       [(''x'', ValueId 1)] (BlockId 0) False (snd (new_block (builder_new ''f'' TI64)))"
  have "case ?r of Inr _ \<Rightarrow> True | Inl _ \<Rightarrow> False" by code_simp
  then obtain b' L' where r: "?r = Inr (b', L')" by (auto split: sum.splits)
  have "bt_inv [(''x'', ValueId 0)]" by code_simp
  from if_merges_disagreements[OF r _ this, of "''x''" "ValueId 0"] show ?thesis
    using r by (simp add: branch_value_def)
qed


text \<open>
  An extern function always lowers, to a declaration: one block, its parameters those of
  the source, no instruction, and no way to run it.
\<close>

theorem extern_is_declaration:
  assumes "tf_is_extern f"
  shows "\<exists>fn bb. lower_function R f = Inr fn \<and> fn_is_extern fn \<and> fn_blocks fn = [bb] \<and> bb_instrs bb = [] \<and>
    bb_term bb = Unreachable \<and> map snd (bb_params bb) = map tp_ty (tf_params f)"
proof -
  let ?bb = "\<lparr>bb_id = BlockId 0, bb_params = [], bb_instrs = [], bb_term = Unreachable\<rparr>"
  obtain b where nb: "new_block (builder_new (tf_name f) (tf_return_type f)) = (BlockId 0, b)"
    and b: "b_blocks b = [?bb]" "length (b_value_types b) = b_next_value b" "b_terminators b = [None]" "b_current b = BlockId 0"
    by (simp add: new_block_def builder_new_def Let_def)
  obtain recs b' L' qs where lp: "lower_params (BlockId 0) (tf_params f) b [] = Inr (recs, b', L')"
    "b_blocks b' = [?bb\<lparr>bb_params := qs\<rparr>]" "b_terminators b' = [None]" "b_current b' = BlockId 0"
    using lower_params_entry[OF b(1,2), of "tf_params f" "[]"] b(3,4) by auto
  then have ok: "\<exists>fn. lower_function R f = Inr fn \<and> fn_is_extern fn \<and> fn_blocks fn = [?bb\<lparr>bb_params := qs\<rparr>]"
    using assms nb by (simp add: lower_function_def lower_extern_def Let_def terminate_def build_def nthE_def)
  then obtain fn where fn: "lower_function R f = Inr fn" "fn_is_extern fn" "fn_blocks fn = [?bb\<lparr>bb_params := qs\<rparr>]" by blast
  have l: "lowered_ok f fn" using okE_returns[OF lower_function_okE fn(1)] .
  have "map (\<lambda>(n, t, v). (n, t)) (fn_params fn) = map (\<lambda>p. (tp_name p, tp_ty p)) (tf_params f)"
    and q: "qs = map (\<lambda>(n, t, v). (v, t)) (fn_params fn)"
    using l fn(3) by (simp_all add: lowered_ok_def)
  then have "map snd (map (\<lambda>(n, t, v). (n, t)) (fn_params fn)) = map tp_ty (tf_params f)" by simp
  then have "map snd qs = map tp_ty (tf_params f)" unfolding q by (simp add: comp_def case_prod_unfold)
  then show ?thesis using fn by auto
qed

lemma extern_is_declaration_witness:
  "\<exists>fn bb. lower_function ex_reg ex_extern = Inr fn \<and> fn_blocks fn = [bb] \<and> map snd (bb_params bb) = [TI64]"
proof -
  have "tf_is_extern ex_extern" and "map tp_ty (tf_params ex_extern) = [TI64]" by code_simp+
  then show ?thesis using extern_is_declaration[of ex_extern ex_reg] by auto
qed

end
