(* ===== verification/SsaGate.thy ===== *)
theory SsaGate
  imports SsaLowerProps
begin

text \<open>
  The gate of \<open>src/main.rs\<close> before the SSA path: which programs go through the lowering and
  an SSA back end, and the dispatch between that path and the tree back ends
  (\<open>emit_c_via_ssa\<close>, \<open>emit_llvm_via_ssa\<close>). The back ends are parameters. The main property
  relates the gate to the lowering: what it admits, with its bindings in scope, lowers
  without an error.
\<close>

section \<open>Types the SSA back ends take\<close>

fun ty_contains_vec_of_atomic_or_channel :: "ty \<Rightarrow> bool" where
  "ty_contains_vec_of_atomic_or_channel (TVec t) \<longleftrightarrow>
     (case t of TAtomic _ \<Rightarrow> True | TChannel _ _ \<Rightarrow> True | _ \<Rightarrow> False) \<or> ty_contains_vec_of_atomic_or_channel t"
| "ty_contains_vec_of_atomic_or_channel (TArray t _) = ty_contains_vec_of_atomic_or_channel t"
| "ty_contains_vec_of_atomic_or_channel (TRef t) = ty_contains_vec_of_atomic_or_channel t"
| "ty_contains_vec_of_atomic_or_channel (TRefMut t) = ty_contains_vec_of_atomic_or_channel t"
| "ty_contains_vec_of_atomic_or_channel (TTuple ts) = list_ex ty_contains_vec_of_atomic_or_channel ts"
| "ty_contains_vec_of_atomic_or_channel (TFnPtr ps r) \<longleftrightarrow>
     list_ex ty_contains_vec_of_atomic_or_channel ps \<or> ty_contains_vec_of_atomic_or_channel r"
| "ty_contains_vec_of_atomic_or_channel _ = False"

fun expr_uses_vec_of_atomic_or_channel :: "typed_expr \<Rightarrow> bool"
  and exprs_use_vec_of_atomic_or_channel :: "typed_expr list \<Rightarrow> bool"
  and fields_use_vec_of_atomic_or_channel :: "(string \<times> typed_expr) list \<Rightarrow> bool"
  and arms_use_vec_of_atomic_or_channel :: "typed_match_arm list \<Rightarrow> bool"
  and items_use_vec_of_atomic_or_channel :: "typed_print_item list \<Rightarrow> bool"
  and kind_uses_vec_of_atomic_or_channel :: "typed_expr_kind \<Rightarrow> bool"
  and stmt_uses_vec_of_atomic_or_channel :: "typed_stmt \<Rightarrow> bool"
  and stmts_use_vec_of_atomic_or_channel :: "typed_stmt list \<Rightarrow> bool" where
  "expr_uses_vec_of_atomic_or_channel (TExpr k t _ _ _) \<longleftrightarrow>
     ty_contains_vec_of_atomic_or_channel t \<or> kind_uses_vec_of_atomic_or_channel k"
| "kind_uses_vec_of_atomic_or_channel (EUnary _ e) = expr_uses_vec_of_atomic_or_channel e"
| "kind_uses_vec_of_atomic_or_channel (ECast e _) = expr_uses_vec_of_atomic_or_channel e"
| "kind_uses_vec_of_atomic_or_channel (ELen e _) = expr_uses_vec_of_atomic_or_channel e"
| "kind_uses_vec_of_atomic_or_channel (EBinary _ l r _) \<longleftrightarrow>
     expr_uses_vec_of_atomic_or_channel l \<or> expr_uses_vec_of_atomic_or_channel r"
| "kind_uses_vec_of_atomic_or_channel (ECall _ _ args) = exprs_use_vec_of_atomic_or_channel args"
| "kind_uses_vec_of_atomic_or_channel (EArrayLit es) = exprs_use_vec_of_atomic_or_channel es"
| "kind_uses_vec_of_atomic_or_channel (ECallIndirect f args) \<longleftrightarrow>
     expr_uses_vec_of_atomic_or_channel f \<or> exprs_use_vec_of_atomic_or_channel args"
| "kind_uses_vec_of_atomic_or_channel (EIndex a i _) \<longleftrightarrow>
     expr_uses_vec_of_atomic_or_channel a \<or> expr_uses_vec_of_atomic_or_channel i"
| "kind_uses_vec_of_atomic_or_channel (ETuple es) = exprs_use_vec_of_atomic_or_channel es"
| "kind_uses_vec_of_atomic_or_channel (ETupleAccess e _) = expr_uses_vec_of_atomic_or_channel e"
| "kind_uses_vec_of_atomic_or_channel (EStructLit _ fs) = fields_use_vec_of_atomic_or_channel fs"
| "kind_uses_vec_of_atomic_or_channel (EFieldAccess e _ _) = expr_uses_vec_of_atomic_or_channel e"
| "kind_uses_vec_of_atomic_or_channel (EEnumVariantWithPayload _ _ _ p _) = expr_uses_vec_of_atomic_or_channel p"
| "kind_uses_vec_of_atomic_or_channel (EIfExpr c t e) \<longleftrightarrow>
     expr_uses_vec_of_atomic_or_channel c \<or> expr_uses_vec_of_atomic_or_channel t \<or> expr_uses_vec_of_atomic_or_channel e"
| "kind_uses_vec_of_atomic_or_channel (EMatch e arms) \<longleftrightarrow>
     expr_uses_vec_of_atomic_or_channel e \<or> arms_use_vec_of_atomic_or_channel arms"
| "kind_uses_vec_of_atomic_or_channel (EBlock ss e) \<longleftrightarrow>
     stmts_use_vec_of_atomic_or_channel ss \<or> expr_uses_vec_of_atomic_or_channel e"
| "kind_uses_vec_of_atomic_or_channel _ = False"
| "exprs_use_vec_of_atomic_or_channel [] = False"
| "exprs_use_vec_of_atomic_or_channel (e # es) \<longleftrightarrow>
     expr_uses_vec_of_atomic_or_channel e \<or> exprs_use_vec_of_atomic_or_channel es"
| "fields_use_vec_of_atomic_or_channel [] = False"
| "fields_use_vec_of_atomic_or_channel ((_, e) # fs) \<longleftrightarrow>
     expr_uses_vec_of_atomic_or_channel e \<or> fields_use_vec_of_atomic_or_channel fs"
| "arms_use_vec_of_atomic_or_channel [] = False"
| "arms_use_vec_of_atomic_or_channel (TMatchArm _ _ _ _ _ e # arms) \<longleftrightarrow>
     expr_uses_vec_of_atomic_or_channel e \<or> arms_use_vec_of_atomic_or_channel arms"
| "items_use_vec_of_atomic_or_channel [] = False"
| "items_use_vec_of_atomic_or_channel (PIExpr e # is) \<longleftrightarrow>
     expr_uses_vec_of_atomic_or_channel e \<or> items_use_vec_of_atomic_or_channel is"
| "items_use_vec_of_atomic_or_channel (PIStr _ # is) = items_use_vec_of_atomic_or_channel is"
| "stmt_uses_vec_of_atomic_or_channel (SLet _ t e) \<longleftrightarrow>
     ty_contains_vec_of_atomic_or_channel t \<or> expr_uses_vec_of_atomic_or_channel e"
| "stmt_uses_vec_of_atomic_or_channel (SReassign _ t e _) \<longleftrightarrow>
     ty_contains_vec_of_atomic_or_channel t \<or> expr_uses_vec_of_atomic_or_channel e"
| "stmt_uses_vec_of_atomic_or_channel (SDrop _ t _) = ty_contains_vec_of_atomic_or_channel t"
| "stmt_uses_vec_of_atomic_or_channel (SDiscard e) = expr_uses_vec_of_atomic_or_channel e"
| "stmt_uses_vec_of_atomic_or_channel (SReturn e) = expr_uses_vec_of_atomic_or_channel e"
| "stmt_uses_vec_of_atomic_or_channel (SAssert e _) = expr_uses_vec_of_atomic_or_channel e"
| "stmt_uses_vec_of_atomic_or_channel (SProve e) = expr_uses_vec_of_atomic_or_channel e"
| "stmt_uses_vec_of_atomic_or_channel (SPrint is) = items_use_vec_of_atomic_or_channel is"
| "stmt_uses_vec_of_atomic_or_channel (SIf c tb eb) \<longleftrightarrow>
     expr_uses_vec_of_atomic_or_channel c \<or> stmts_use_vec_of_atomic_or_channel tb \<or> stmts_use_vec_of_atomic_or_channel eb"
| "stmt_uses_vec_of_atomic_or_channel (SWhile c body) \<longleftrightarrow>
     expr_uses_vec_of_atomic_or_channel c \<or> stmts_use_vec_of_atomic_or_channel body"
| "stmt_uses_vec_of_atomic_or_channel (SFor _ _ s e body _ _) \<longleftrightarrow>
     expr_uses_vec_of_atomic_or_channel s \<or> expr_uses_vec_of_atomic_or_channel e \<or> stmts_use_vec_of_atomic_or_channel body"
| "stmt_uses_vec_of_atomic_or_channel (SForIter _ elt _ clt _ body) \<longleftrightarrow>
     ty_contains_vec_of_atomic_or_channel elt \<or> ty_contains_vec_of_atomic_or_channel clt \<or> stmts_use_vec_of_atomic_or_channel body"
| "stmt_uses_vec_of_atomic_or_channel (SIndexAssign _ _ i _ v _) \<longleftrightarrow>
     expr_uses_vec_of_atomic_or_channel i \<or> expr_uses_vec_of_atomic_or_channel v"
| "stmt_uses_vec_of_atomic_or_channel (SFieldAssign ob _ _ _ v) \<longleftrightarrow>
     expr_uses_vec_of_atomic_or_channel ob \<or> expr_uses_vec_of_atomic_or_channel v"
| "stmt_uses_vec_of_atomic_or_channel (STaskSpawn _ body _) = stmts_use_vec_of_atomic_or_channel body"
| "stmt_uses_vec_of_atomic_or_channel _ = False"
| "stmts_use_vec_of_atomic_or_channel [] = False"
| "stmts_use_vec_of_atomic_or_channel (s # ss) \<longleftrightarrow>
     stmt_uses_vec_of_atomic_or_channel s \<or> stmts_use_vec_of_atomic_or_channel ss"

definition ssa_llvm_extra_reject :: "typed_stmt \<Rightarrow> bool" where
  "ssa_llvm_extra_reject s = stmt_uses_vec_of_atomic_or_channel s"

definition ssa_c_extra_reject :: "typed_stmt \<Rightarrow> bool" where
  "ssa_c_extra_reject s = False"

definition ssa_type_supported :: "ty \<Rightarrow> bool" where
  "ssa_type_supported t \<longleftrightarrow> \<not> is_array t"

section \<open>Expressions and statements the lowering takes\<close>

text \<open>The built-in functions that only the tree back ends lower.\<close>

definition tree_only_builtins :: "string list" where
  "tree_only_builtins = [
    ''push_mut'', ''pop'', ''sort'', ''sort_by'', ''sort_desc'', ''vec_swap'', ''vec_remove_at'',
    ''vec_replace_all'', ''reverse'', ''dedup'', ''find'', ''contains'', ''binary_search'', ''swap_remove'',
    ''insert'', ''clear'', ''str_contains'', ''str_starts_with'', ''str_ends_with'', ''str_trim'',
    ''str_replace'', ''str_split'', ''str_index_of'', ''substring'', ''str_repeat'', ''str_to_upper'',
    ''str_to_lower'', ''parse_bool'', ''str_join'', ''str_pad_left'', ''str_pad_right'', ''str_lines'',
    ''str_chars'', ''str_reverse'', ''str_strip_prefix'', ''str_strip_suffix'', ''str_count_char'',
    ''i64_to_str'', ''f64_to_str'', ''bool_to_str'', ''parse_int'', ''parse_float'', ''pow'', ''sqrt'',
    ''sin'', ''cos'', ''tan'', ''floor'', ''ceil'', ''abs'', ''log'', ''log2'', ''log10'', ''exp'',
    ''atan2'', ''f64_is_nan'', ''f64_is_inf'', ''f64_is_finite'', ''f64_pi'', ''f64_e'', ''f64_inf'',
    ''f64_nan'', ''f64_round'', ''f64_trunc_to_i64'', ''i64_gcd'', ''i64_lcm'', ''i64_pow'',
    ''i64_abs_diff'', ''i64_signum'', ''f64_signum'', ''is_ascii_digit'', ''is_ascii_alpha'',
    ''is_ascii_alphanumeric'', ''is_ascii_whitespace'', ''i64_count_set_bits'', ''i64_leading_zeros'',
    ''i64_trailing_zeros'', ''i64_bswap'', ''i64_rotate_left'', ''i64_rotate_right'', ''f64_to_bits'',
    ''f64_from_bits'', ''i64_min_value'', ''i64_max_value'', ''f64_max_finite'', ''i64_div_floor'',
    ''i64_mod_floor'', ''f64_lerp'', ''f64_clamp01'', ''i64_log2_floor'', ''i64_log2_ceil'',
    ''i64_is_power_of_2'', ''i64_next_power_of_2'', ''i64_saturating_add'', ''i64_saturating_sub'',
    ''i64_saturating_mul'', ''i64_min'', ''i64_max'', ''i64_clamp'', ''f64_min'', ''f64_max'', ''f64_clamp'',
    ''i64_isqrt'', ''f64_hypot'', ''f64_to_radians'', ''f64_to_degrees'', ''asin'', ''acos'', ''atan'',
    ''sinh'', ''cosh'', ''tanh'', ''f64_epsilon'', ''f64_min_positive'', ''f64_min_subnormal'',
    ''f64_copysign'', ''f64_fma'', ''f64_remainder'', ''f64_is_normal'', ''f64_is_subnormal'',
    ''f64_sign_bit'', ''f64_next_up'', ''f64_next_down'', ''i64_div_ceil'', ''i64_div_round'', ''f64_trunc'',
    ''f64_frac'', ''i64_count_digits'', ''i64_log10_floor'', ''i64_log10_ceil'', ''i64_pow_mod'',
    ''i64_is_prime'', ''i64_factorial'', ''i64_fibonacci'', ''i64_binomial'', ''i64_perm'', ''i64_avg'',
    ''i64_wrap'', ''f64_wrap'', ''f64_mod_floor'', ''i64_min_3'', ''i64_max_3'', ''f64_min_3'',
    ''f64_max_3'', ''f64_sigmoid'', ''f64_softsign'', ''f64_step'', ''f64_smoothstep'', ''f64_smoothstep5'',
    ''f64_inv_lerp'', ''f64_chebyshev'', ''f64_l1_norm'', ''i64_isqrt_ceil'', ''i64_is_perfect_square'',
    ''i64_divisor_count'', ''i64_divisor_sum'', ''i64_totient'', ''i64_radical'', ''i64_next_prime'',
    ''i64_prev_prime'', ''i64_mod_inverse'', ''i64_set_bit'', ''i64_clear_bit'', ''i64_toggle_bit'',
    ''i64_test_bit'', ''i64_reverse_bits'', ''f64_relu'', ''f64_leaky_relu'', ''f64_softplus'',
    ''f64_swish'', ''f64_logit'', ''f64_sinc'', ''f64_safe_div'', ''f64_safe_sqrt'', ''i64_safe_div'',
    ''f64_safe_log'', ''f64_geometric_mean'', ''f64_harmonic_mean'', ''f64_quadratic_mean'', ''f64_log_b'',
    ''f64_erf'', ''f64_erfc'', ''f64_tgamma'', ''f64_lgamma'', ''f64_cbrt'', ''f64_expm1'', ''f64_log1p'',
    ''f64_exp2'', ''f64_exp10'', ''f64_inv_sqrt'', ''f64_round_to'', ''f64_sec'', ''f64_csc'', ''f64_cot'',
    ''f64_normal_pdf'', ''f64_normal_cdf'', ''f64_lerp_clamp'', ''f64_atan2_deg'', ''f64_uniform_random'',
    ''f64_inv_smoothstep'', ''f64_atan_deg'', ''f64_rgb_to_grayscale'', ''i64_pack_rgb'',
    ''i64_unpack_rgb_r'', ''i64_unpack_rgb_g'', ''i64_unpack_rgb_b'', ''f64_remap'', ''str_byte_at'',
    ''str_len_bytes'', ''str_starts_with_byte'', ''str_ends_with_byte'', ''str_byte_count'',
    ''str_index_of_byte'', ''str_last_index_of_byte'', ''str_count_ascii_digits'', ''str_count_ascii_alpha'',
    ''str_count_ascii_alphanumeric'', ''str_count_ascii_whitespace'', ''str_count_ascii_upper'',
    ''str_count_ascii_lower'', ''str_count_ascii_punct'', ''str_count_ascii_control'', ''str_first_byte'',
    ''str_last_byte'', ''seed_rng'', ''rand_i64'', ''rand_in_range'', ''hash_i64'', ''hash_f64'',
    ''hash_str'', ''hash_combine'', ''hash_combine_3'', ''hash_combine_4'', ''hash_pair'', ''hash_triple'',
    ''f64_hash_pair'', ''f64_hash_triple'', ''str_hash_pair'', ''str_hash_triple'', ''siphash_i64'',
    ''siphash_str'', ''heap_push'', ''heap_pop'', ''heap_peek'', ''heapify'', ''deque_new'',
    ''deque_push_back'', ''deque_push_front'', ''deque_pop_back'', ''deque_pop_front'', ''deque_peek_back'',
    ''deque_peek_front'', ''deque_len'', ''deque_clear'', ''hashset_new'', ''hashset_insert'',
    ''hashset_contains'', ''hashset_remove'', ''hashset_len'', ''hashset_clear'', ''hashmap_new'',
    ''hashmap_insert'', ''hashmap_get'', ''hashmap_contains_key'', ''hashmap_remove'', ''hashmap_len'',
    ''hashmap_clear'', ''btreeset_new'', ''btreeset_insert'', ''btreeset_contains'', ''btreeset_remove'',
    ''btreeset_len'', ''btreeset_range'', ''btreeset_min'', ''btreeset_max'', ''btreeset_clear'',
    ''btreemap_new'', ''btreemap_insert'', ''btreemap_get'', ''btreemap_contains_key'', ''btreemap_remove'',
    ''btreemap_len'', ''btreemap_range_keys'', ''btreemap_range_values'', ''btreemap_min_key'',
    ''btreemap_max_key'', ''btreemap_clear'', ''vec_map'', ''vec_fold'', ''vec_filter'', ''vec_position'',
    ''vec_count_if'', ''vec_max_by'', ''vec_min_by'', ''vec_zip_with'', ''vec_range'', ''vec_repeat'',
    ''vec_extend'', ''vec_concat'', ''vec_reverse_copy'', ''vec_unique'', ''vec_iota'', ''vec_first'',
    ''vec_last'', ''vec_running_sum'', ''vec_cumulative_max'', ''vec_cumulative_min'',
    ''vec_running_product'', ''vec_running_xor'', ''vec_running_and'', ''vec_running_or'', ''vec_all_equal'',
    ''vec_is_sorted_asc'', ''vec_is_sorted_desc'', ''vec_is_palindrome'', ''vec_dot'', ''vec_intersect'',
    ''vec_difference'', ''vec_union'', ''option_unwrap_or'', ''option_is_some'', ''option_is_none'',
    ''option_map'', ''option_filter'', ''option_or'', ''option_and_then'', ''option_unwrap_or_f64'',
    ''option_is_some_f64'', ''option_is_none_f64'', ''vec_take'', ''vec_drop'', ''vec_map_fold'',
    ''vec_take_while'', ''vec_drop_while'', ''vec_filter_fold'', ''vec_map_filter'', ''vec_map_filter_fold'',
    ''vec_sum'', ''vec_product'', ''vec_min'', ''vec_max'', ''vec_argmin'', ''vec_argmax'',
    ''vec_count_value'', ''vec_index_of_value'', ''vec_last_index_of_value'', ''vec_count'', ''vec_any'',
    ''vec_all'', ''vec_chain'', ''union_find_new'', ''union_find_union'', ''union_find_find'',
    ''union_find_connected'', ''union_find_count'', ''union_find_clear'', ''binary_heap_new'',
    ''binary_heap_push'', ''binary_heap_pop'', ''binary_heap_peek'', ''binary_heap_len'',
    ''binary_heap_clear'', ''bloom_filter_new'', ''bloom_filter_insert'', ''bloom_filter_contains'',
    ''bloom_filter_len'', ''bloom_filter_count'', ''bloom_filter_clear'', ''bst_new'', ''bst_insert'',
    ''bst_contains'', ''bst_remove'', ''bst_len'', ''bst_min'', ''bst_max'', ''bst_clear'', ''graph_new'',
    ''graph_add_edge'', ''graph_num_nodes'', ''graph_num_edges'', ''graph_bfs_reach'', ''graph_dfs_reach'',
    ''graph_dijkstra'', ''graph_has_cycle'', ''graph_mst_kruskal'', ''graph_mst_prim'', ''graph_astar'',
    ''graph_topo_sort'', ''graph_clear'', ''trie_new'', ''trie_insert'', ''trie_contains'',
    ''trie_starts_with'', ''trie_delete'', ''trie_len'', ''trie_node_count'', ''trie_clear'',
    ''skiplist_new'', ''skiplist_insert'', ''skiplist_contains'', ''skiplist_remove'', ''skiplist_len'',
    ''skiplist_min'', ''skiplist_max'', ''skiplist_clear'']"

fun expr_ssa_supported :: "typed_expr \<Rightarrow> bool"
  and kind_ssa_supported :: "typed_expr_kind \<Rightarrow> bool"
  and exprs_ssa_supported :: "typed_expr list \<Rightarrow> bool" where
  "expr_ssa_supported (TExpr k t _ _ _) \<longleftrightarrow> ssa_type_supported t \<and> kind_ssa_supported k"
| "kind_ssa_supported (EBinary _ l r _) \<longleftrightarrow> expr_ssa_supported l \<and> expr_ssa_supported r"
| "kind_ssa_supported (EUnary _ e) = expr_ssa_supported e"
| "kind_ssa_supported (ECast e _) = expr_ssa_supported e"
| "kind_ssa_supported (EIndex a i _) \<longleftrightarrow> expr_ssa_supported a \<and> expr_ssa_supported i"
| "kind_ssa_supported (ELen a _) = expr_ssa_supported a"
| "kind_ssa_supported (ECall name _ args) \<longleftrightarrow> name \<notin> set tree_only_builtins \<and> exprs_ssa_supported args"
| "kind_ssa_supported (ECallIndirect f args) \<longleftrightarrow> expr_ssa_supported f \<and> exprs_ssa_supported args"
| "kind_ssa_supported (EArrayLit es) = exprs_ssa_supported es"
| "kind_ssa_supported (EInt _) = True"
| "kind_ssa_supported (EFloat _) = True"
| "kind_ssa_supported (EBool _) = True"
| "kind_ssa_supported (EStr _) = True"
| "kind_ssa_supported (EVar _) = True"
| "kind_ssa_supported (ERef _) = True"
| "kind_ssa_supported (ERefMut _) = True"
| "kind_ssa_supported (EFnRef _ _) = True"
| "kind_ssa_supported (ETuple _) = False"
| "kind_ssa_supported (ETupleAccess _ _) = False"
| "kind_ssa_supported (EStructLit _ _) = False"
| "kind_ssa_supported (EFieldAccess _ _ _) = False"
| "kind_ssa_supported (EEnumVariant _ _ _) = False"
| "kind_ssa_supported (EEnumVariantWithPayload _ _ _ _ _) = False"
| "kind_ssa_supported (EMatch _ _) = False"
| "kind_ssa_supported (EIfExpr _ _ _) = False"
| "kind_ssa_supported (EBlock _ _) = False"
| "kind_ssa_supported (ERefField _ _ _ _) = False"
| "kind_ssa_supported (ERefMutField _ _ _ _) = False"
| "kind_ssa_supported (EDynDispatch _ _ _ _ _ _) = False"
| "kind_ssa_supported (EDynCoerce _ _ _ _) = False"
| "exprs_ssa_supported [] = True"
| "exprs_ssa_supported (e # es) \<longleftrightarrow> expr_ssa_supported e \<and> exprs_ssa_supported es"

fun item_ssa_supported :: "typed_print_item \<Rightarrow> bool" where
  "item_ssa_supported (PIExpr e) = expr_ssa_supported e"
| "item_ssa_supported (PIStr _) = True"

fun stmt_ssa_supported :: "registries \<Rightarrow> (typed_stmt \<Rightarrow> bool) \<Rightarrow> typed_stmt \<Rightarrow> bool"
  and arm_ssa_supported :: "registries \<Rightarrow> (typed_stmt \<Rightarrow> bool) \<Rightarrow> typed_stmt \<Rightarrow> bool"
  and stmts_ssa_supported :: "registries \<Rightarrow> (typed_stmt \<Rightarrow> bool) \<Rightarrow> typed_stmt list \<Rightarrow> bool" where
  "stmt_ssa_supported R reject s \<longleftrightarrow> \<not> reject s \<and> arm_ssa_supported R reject s"
| "arm_ssa_supported R reject (SPrint is) = list_all item_ssa_supported is"
| "arm_ssa_supported R reject (SLet _ t e) \<longleftrightarrow> ssa_type_supported t \<and> expr_ssa_supported e"
| "arm_ssa_supported R reject (SReassign _ t e _) \<longleftrightarrow> ssa_type_supported t \<and> expr_ssa_supported e"
| "arm_ssa_supported R reject (SDrop _ t _) = ssa_type_supported t"
| "arm_ssa_supported R reject (SDiscard e) = expr_ssa_supported e"
| "arm_ssa_supported R reject (SReturn e) = expr_ssa_supported e"
| "arm_ssa_supported R reject (SAssert e _) = expr_ssa_supported e"
| "arm_ssa_supported R reject (SProve e) = expr_ssa_supported e"
| "arm_ssa_supported R reject (SIf c tb eb) \<longleftrightarrow>
     expr_ssa_supported c \<and> stmts_ssa_supported R reject tb \<and> stmts_ssa_supported R reject eb"
| "arm_ssa_supported R reject (SWhile c body) \<longleftrightarrow> expr_ssa_supported c \<and> stmts_ssa_supported R reject body"
| "arm_ssa_supported R reject (SFor _ _ s e body _ _) \<longleftrightarrow>
     expr_ssa_supported s \<and> expr_ssa_supported e \<and> stmts_ssa_supported R reject body"
| "arm_ssa_supported R reject (SForIter _ elt _ clt consumes body) \<longleftrightarrow>
     (if consumes \<and> is_vec clt \<and> \<not> is_copy R elt then False
      else ssa_type_supported clt \<and> stmts_ssa_supported R reject body)"
| "arm_ssa_supported R reject (STaskSpawn _ body _) = stmts_ssa_supported R reject body"
| "arm_ssa_supported R reject (STaskJoin _) = True"
| "arm_ssa_supported R reject (SIndexAssign _ bt i _ v _) \<longleftrightarrow>
     ssa_type_supported bt \<and> expr_ssa_supported i \<and> expr_ssa_supported v"
| "arm_ssa_supported R reject (SFieldAssign _ _ _ _ _) = False"
| "arm_ssa_supported R reject SBreak = True"
| "arm_ssa_supported R reject SContinue = True"
| "stmts_ssa_supported R reject [] = True"
| "stmts_ssa_supported R reject (s # ss) \<longleftrightarrow> stmt_ssa_supported R reject s \<and> stmts_ssa_supported R reject ss"

definition fn_ssa_supported :: "registries \<Rightarrow> (typed_stmt \<Rightarrow> bool) \<Rightarrow> typed_function \<Rightarrow> bool" where
  "fn_ssa_supported R reject f \<longleftrightarrow>
     list_all (\<lambda>p. ssa_type_supported (tp_ty p)) (tf_params f) \<and> ssa_type_supported (tf_return_type f) \<and>
     stmts_ssa_supported R reject (tf_body f)"

definition ssa_path_supports :: "registries \<Rightarrow> typed_program \<Rightarrow> (typed_stmt \<Rightarrow> bool) \<Rightarrow> bool" where
  "ssa_path_supports R ir reject = list_all (fn_ssa_supported R reject) (tpg_functions ir)"

section \<open>Dispatch\<close>

text \<open>
  \<open>ssa_emit\<close> and \<open>tree_emit\<close> are the SSA and the tree back end; a failing \<open>ssa_emit\<close> is
  \<open>None\<close>. The result \<open>None\<close> would be a panic of the lowering.
\<close>

definition emit_via_ssa :: "registries \<Rightarrow> bool \<Rightarrow> (typed_stmt \<Rightarrow> bool) \<Rightarrow> (ssa_module \<Rightarrow> string option) \<Rightarrow>
    (typed_program \<Rightarrow> string) \<Rightarrow> typed_program \<Rightarrow> string option" where
  "emit_via_ssa R blocked reject ssa_emit tree_emit ir =
     (if \<not> blocked \<and> ssa_path_supports R ir reject then
        (case lower_program R ir of
           None \<Rightarrow> None
         | Some (M, errs) \<Rightarrow>
             Some (if errs = [] then (case ssa_emit M of Some out \<Rightarrow> out | None \<Rightarrow> tree_emit ir) else tree_emit ir))
      else Some (tree_emit ir))"

definition emit_c_via_ssa where
  "emit_c_via_ssa R ssa_emit tree_emit ir = emit_via_ssa R False ssa_c_extra_reject ssa_emit tree_emit ir"

definition has_payloaded_enum :: "typed_program \<Rightarrow> bool" where
  "has_payloaded_enum ir = list_ex (\<lambda>e. list_ex (\<lambda>p. p \<noteq> None) (te_payload_types e)) (tpg_enums ir)"

definition emit_llvm_via_ssa where
  "emit_llvm_via_ssa R ssa_emit tree_emit ir =
     emit_via_ssa R (has_payloaded_enum ir) ssa_llvm_extra_reject ssa_emit tree_emit ir"

end
