(* ===== verification/SsaGateLower.thy ===== *)
theory SsaGateLower
  imports SsaGate SsaLowerProps
begin

text \<open>
  What the gate admits lowers without an error, when its bindings are in scope. The scoping
  rules the checker enforces, and the two conditions the gate leaves to the lowering, are
  \<open>scoped_stmt\<close>. \<open>noF\<close> is the absence of a reported error; panics are excluded by the
  lowering's invariant.
\<close>

section \<open>Scopes\<close>

fun scoped_expr :: "string set \<Rightarrow> typed_expr \<Rightarrow> bool"
  and scoped_kind :: "string set \<Rightarrow> typed_expr_kind \<Rightarrow> bool"
  and scoped_exprs :: "string set \<Rightarrow> typed_expr list \<Rightarrow> bool" where
  "scoped_expr V (TExpr k _ _ _ _) = scoped_kind V k"
| "scoped_kind V (EVar x) = (x \<in> V)"
| "scoped_kind V (ERef x) = (x \<in> V)"
| "scoped_kind V (ERefMut x) = (x \<in> V)"
| "scoped_kind V (EUnary _ e) = scoped_expr V e"
| "scoped_kind V (EBinary _ l r _) \<longleftrightarrow> scoped_expr V l \<and> scoped_expr V r"
| "scoped_kind V (ECast e _) = scoped_expr V e"
| "scoped_kind V (ECall _ _ args) = scoped_exprs V args"
| "scoped_kind V (ECallIndirect f args) \<longleftrightarrow> scoped_expr V f \<and> scoped_exprs V args"
| "scoped_kind V (EArrayLit es) = scoped_exprs V es"
| "scoped_kind V (EIndex a i _) \<longleftrightarrow> scoped_expr V a \<and> scoped_expr V i"
| "scoped_kind V (ELen a _) = scoped_expr V a"
| "scoped_kind V _ = True"
| "scoped_exprs V [] = True"
| "scoped_exprs V (e # es) \<longleftrightarrow> scoped_expr V e \<and> scoped_exprs V es"

fun scoped_item :: "string set \<Rightarrow> typed_print_item \<Rightarrow> bool" where
  "scoped_item V (PIExpr e) = scoped_expr V e"
| "scoped_item V (PIStr _) = True"

fun binds :: "typed_stmt \<Rightarrow> string set" where
  "binds (SLet x _ _) = {x}"
| "binds (STaskSpawn x _ _) = {x}"
| "binds _ = {}"

text \<open>
  \<open>l\<close>: inside a loop. The lowering itself rejects a reassignment that must drop a value of a
  type it cannot drop, and an assignment to a field of an element.
\<close>

fun scoped_stmt :: "registries \<Rightarrow> bool \<Rightarrow> string set \<Rightarrow> typed_stmt \<Rightarrow> bool"
  and scoped_stmts :: "registries \<Rightarrow> bool \<Rightarrow> string set \<Rightarrow> typed_stmt list \<Rightarrow> bool" where
  "scoped_stmt R l V (SLet _ _ e) = scoped_expr V e"
| "scoped_stmt R l V (SReassign _ t e d) \<longleftrightarrow> scoped_expr V e \<and> (d \<longrightarrow> reassign_drop_supported R t)"
| "scoped_stmt R l V (SReturn e) = scoped_expr V e"
| "scoped_stmt R l V (SAssert e _) = scoped_expr V e"
| "scoped_stmt R l V (SDiscard e) = scoped_expr V e"
| "scoped_stmt R l V (SPrint is) = list_all (scoped_item V) is"
| "scoped_stmt R l V (SIf c tb eb) \<longleftrightarrow> scoped_expr V c \<and> scoped_stmts R l V tb \<and> scoped_stmts R l V eb"
| "scoped_stmt R l V (SWhile c body) \<longleftrightarrow> scoped_expr V c \<and> scoped_stmts R True V body"
| "scoped_stmt R l V (SFor x _ s e body _ _) \<longleftrightarrow>
     scoped_expr V s \<and> scoped_expr V e \<and> scoped_stmts R True (insert x V) body"
| "scoped_stmt R l V (SForIter x _ c _ _ body) \<longleftrightarrow> c \<in> V \<and> scoped_stmts R True (insert x V) body"
| "scoped_stmt R l V (SIndexAssign x _ i fp v _) \<longleftrightarrow> x \<in> V \<and> fp = [] \<and> scoped_expr V i \<and> scoped_expr V v"
| "scoped_stmt R l V SBreak = l"
| "scoped_stmt R l V SContinue = l"
| "scoped_stmt R l V (STaskSpawn _ body _) = scoped_stmts R l V body"
| "scoped_stmt R l V _ = True"
| "scoped_stmts R l V [] = True"
| "scoped_stmts R l V (s # ss) \<longleftrightarrow> scoped_stmt R l V s \<and> scoped_stmts R l (binds s \<union> V) ss"

definition scoped_function :: "registries \<Rightarrow> typed_function \<Rightarrow> bool" where
  "scoped_function R f = scoped_stmts R False (tp_name ` set (tf_params f)) (tf_body f)"

section \<open>Operations that report no error\<close>

definition noF :: "('e, 'a) res \<Rightarrow> bool" where
  "noF m = (case m of Inl (Fail _) \<Rightarrow> False | _ \<Rightarrow> True)"

lemma noF_simps [simp]: "noF (Inr x)" "noF (Inl Panic)" "\<not> noF (Inl (Fail e))"
  by (simp_all add: noF_def)

lemma noF_bind: "noF m \<Longrightarrow> (\<And>x. m = Inr x \<Longrightarrow> noF (f x)) \<Longrightarrow> noF (bindE m f)"
  by (auto simp: noF_def split: sum.splits failure.splits)

lemma noF_bind_ok: "noF m \<Longrightarrow> okE m P \<Longrightarrow> (\<And>x. m = Inr x \<Longrightarrow> P x \<Longrightarrow> noF (f x)) \<Longrightarrow> noF (bindE m f)"
  by (auto intro!: noF_bind dest: okE_returns)

lemma noF_prim [simp]: "noF (expectE x)" "noF (nthE xs i)" "noF (updE xs i y)"
  by (simp_all add: expectE_def nthE_def updE_def split: option.split)

lemma noF_returns: "noF m \<Longrightarrow> okE m P \<Longrightarrow> \<exists>x. m = Inr x \<and> P x"
  by (auto simp: noF_def okE_def split: sum.splits failure.splits)

named_theorems noF \<open>operations that report no error\<close>

lemma noF_builder [noF, simp]:
  "noF (value_type b v)" "noF (current_block_terminator b)" "noF (add_block_param blk v t b)"
  "noF (fresh_param blk t b)" "noF (emit t sp k b)" "noF (terminate tm b)" "noF (emit_op t sp k b)"
  "noF (emit_unit t sp k b)" "noF (drop_if d x t sp b)" "noF (materialize x t sp b)"
  unfolding value_type_def current_block_terminator_def add_block_param_def fresh_param_def emit_def
    terminate_def emit_op_def emit_unit_def drop_if_def materialize_def fresh_value_def Let_def case_prod_unfold
  by (auto intro!: noF_bind split: operand.split option.split)

lemma noF_carry_args [noF, simp]: "noF (carry_args L cs)"
  by (induction L cs rule: carry_args.induct) (auto intro!: noF_bind)

lemma noF_while_carry [noF, simp]: "noF (while_carry h x L ns b)"
  by (induction h x L ns b rule: while_carry.induct) (auto intro!: noF_bind split: option.split)

lemma noF_for_carry [noF, simp]: "noF (for_carry v h s x L ns b)"
  by (induction v h s x L ns b rule: for_carry.induct) (auto intro!: noF_bind split: option.split)

lemma noF_merge [noF, simp]: "noF (merge_params blk entry ns b)" "noF (merge_args entry L ns)"
  by (induction ns arbitrary: b) (auto intro!: noF_bind)

lemma noF_jump [noF, simp]: "noF (args ()) \<Longrightarrow> noF (jump_if_open args t b)"
  by (auto simp: jump_if_open_def intro!: noF_bind split: option.split)

lemma noF_tails [noF, simp]:
  "noF (merge_jump tt tb mb entry L ns b)" "noF (step_to_header t sp stp h i scs b)"
  "noF (lower_if_tail entry tL tb tT eL eb eT b)" "noF (lower_while_tail h x cs L1 b L)"
  "noF (lower_integer_for_tail sh sp i cs scs L1 b L)"
  by (auto simp: merge_jump_def step_to_header_def lower_if_tail_def lower_while_tail_def lower_integer_for_tail_def
      Let_def intro!: noF_bind split: prod.split)

lemma noF_iter_tail [noF, simp]:
  "noF (lower_for_iter_tail coll cns cv cty h stp x ih i cs scs L1 b L)"
  by (auto simp: lower_for_iter_tail_def Let_def intro!: noF_bind noF_jump)

lemma noF_parallel [noF, simp]: "noF (begin_parallel v t sp rs b)" "noF (patch_parallel blk i sh b)"
  by (auto simp: begin_parallel_def patch_parallel_def Let_def intro!: noF_bind split: instr_kind.split hint_kind.split)

section \<open>Expressions\<close>

lemma noF_drop_args [noF, simp]: "noF (drop_args n sp xs b)"
  by (induction n sp xs b rule: drop_args.induct) (auto intro!: noF_bind)

lemma noF_calls [noF, simp]:
  "noF (lower_binary op l r t sp x y b)" "noF (lower_call n args t sp xs b)" "noF (lower_index a c t sp x i b)"
  "noF (lower_len a k t sp x b)"
  by (auto simp: lower_binary_def lower_str_concat_def lower_str_cmp_def lower_call_def lower_index_def lower_len_def
      Let_def intro!: noF_bind)

lemma noF_lower_ref: "x \<in> dom (bt_get L) \<Longrightarrow> noF (lower_ref L m x t sp b)"
  by (auto simp: lower_ref_def)

lemma noF_operand:
  "expr_ssa_supported e \<Longrightarrow> scoped_expr (dom (bt_get L)) e \<Longrightarrow> noF (lower_operand L e b)"
  "exprs_ssa_supported es \<Longrightarrow> scoped_exprs (dom (bt_get L)) es \<Longrightarrow> noF (lower_operands L es b)"
  by (induction L e b and L es b rule: lower_operand_lower_operands.induct)
    (auto intro!: noF_bind noF_lower_ref split: option.split)

lemma noF_value: "expr_ssa_supported e \<Longrightarrow> scoped_expr (dom (bt_get L)) e \<Longrightarrow> noF (lower_value L e b)"
  by (auto simp: lower_value_def intro!: noF_bind noF_operand)

lemma scoped_expr_mono:
  "V \<subseteq> W \<Longrightarrow> scoped_expr V e \<Longrightarrow> scoped_expr W e"
  "V \<subseteq> W \<Longrightarrow> scoped_kind V k \<Longrightarrow> scoped_kind W k"
  "V \<subseteq> W \<Longrightarrow> scoped_exprs V es \<Longrightarrow> scoped_exprs W es"
  by (induction V e and V k and V es rule: scoped_expr_scoped_kind_scoped_exprs.induct) auto

section \<open>Statements\<close>

lemma scoped_item_mono: "V \<subseteq> W \<Longrightarrow> scoped_item V it \<Longrightarrow> scoped_item W it"
  by (cases it) (auto intro: scoped_expr_mono)

lemma scoped_stmt_mono:
  "V \<subseteq> W \<Longrightarrow> scoped_stmt R l V s \<Longrightarrow> scoped_stmt R l W s"
  "V \<subseteq> W \<Longrightarrow> scoped_stmts R l V ss \<Longrightarrow> scoped_stmts R l W ss"
proof (induction R l V s and R l V ss arbitrary: W and W rule: scoped_stmt_scoped_stmts.induct)
  case (6 R l V "is")
  then show ?case by (auto simp: list_all_iff intro: scoped_item_mono)
next
  case (9 R l V x uu s e body uv uw)
  then have "scoped_stmts R True (insert x W) body" using 9(1)[of "insert x W"] by auto
  then show ?case using 9 by (auto intro: scoped_expr_mono)
next
  case (10 R l V x uu c uv uw body)
  then have "scoped_stmts R True (insert x W) body" using 10(1)[of "insert x W"] by auto
  then show ?case using 10 by auto
next
  case (17 R l V s ss)
  have "scoped_stmts R l (binds s \<union> W) ss" by (rule 17(2)) (use 17(3,4) in auto)
  then show ?case using 17 by simp
qed (auto intro: scoped_expr_mono)

lemma lower_stmt_binds:
  assumes "sinv b L" and "lower_stmt R s b L = Inr (b', L')"
  shows "sinv b' L' \<and> sle b b' \<and> binds s \<union> dom (bt_get L) \<subseteq> dom (bt_get L')"
proof -
  have "sinv b' L' \<and> sle b b' \<and> dom (bt_get L) \<subseteq> dom (bt_get L')"
    using okE_returns[OF lower_stmt_st(1)[OF assms(1), unfolded st_def] assms(2)] by simp
  moreover have "binds s \<subseteq> dom (bt_get L')"
    using assms(2) by (cases s) (auto simp: bindE_Inr_iff)
  ultimately show ?thesis by blast
qed

lemma for_head_dom:
  assumes "lower_integer_for_head x t s e body b L = Inr (sh, i, cs, scs, L', b')"
  shows "insert x (dom (bt_get L)) \<subseteq> dom (bt_get L')"
proof -
  have "\<exists>cs v. L' = carry_locals cs (bt_insert x v L)"
    using assms unfolding lower_integer_for_head_def Let_def by (auto simp: bindE_Inr_iff case_prod_unfold)
  then obtain cs v where L': "L' = carry_locals cs (bt_insert x v L)" by blast
  show ?thesis unfolding L' carry_locals_dom dom_bt_insert by blast
qed

lemma iter_head_dom:
  assumes "lower_for_iter_head x t c body b L = Inr (cv, cty, h, stp, ex, ih, i, cs, scs, L', b')"
  shows "insert x (dom (bt_get L)) \<subseteq> dom (bt_get L')"
proof -
  have "\<exists>cs v. L' = bt_insert x v (carry_locals cs L)"
    using assms unfolding lower_for_iter_head_def Let_def
    by (auto simp: bindE_Inr_iff case_prod_unfold simp del: carry_locals.simps split: option.splits)
  then obtain cs v where L': "L' = bt_insert x v (carry_locals cs L)" by blast
  show ?thesis unfolding L' carry_locals_dom dom_bt_insert by blast
qed

lemma noF_for_head:
  "expr_ssa_supported s \<Longrightarrow> expr_ssa_supported e \<Longrightarrow> scoped_expr (dom (bt_get L)) s \<Longrightarrow> scoped_expr (dom (bt_get L)) e \<Longrightarrow>
   noF (lower_integer_for_head x t s e body b L)"
  unfolding lower_integer_for_head_def Let_def
  by (auto intro!: noF_bind noF_value noF_operand split: prod.split)

lemma noF_iter_head: "c \<in> dom (bt_get L) \<Longrightarrow> noF (lower_for_iter_head x t c body b L)"
  unfolding lower_for_iter_head_def Let_def by (auto intro!: noF_bind split: prod.split option.split)

lemma noF_while_head:
  assumes "expr_ssa_supported c" and "scoped_expr (dom (bt_get L)) c"
  shows "noF (lower_while_head c body b L)"
proof -
  have "scoped_expr (dom (bt_get (carry_locals cs L))) c" for cs
    by (rule scoped_expr_mono(1)[OF _ assms(2)]) simp
  then show ?thesis
    unfolding lower_while_head_def Let_def using assms(1)
    by (auto intro!: noF_bind noF_operand split: prod.split)
qed

lemma noF_if_head:
  "expr_ssa_supported c \<Longrightarrow> scoped_expr (dom (bt_get L)) c \<Longrightarrow> noF (lower_if_head c b L)"
  unfolding lower_if_head_def Let_def by (auto intro!: noF_bind noF_operand split: prod.split)

lemma noF_print_items:
  "list_all item_ssa_supported its \<Longrightarrow> list_all (scoped_item (dom (bt_get L))) its \<Longrightarrow> noF (lower_print_items sp L its b)"
proof (induction sp L its b rule: lower_print_items.induct)
  case (2 sp L it b)
  then show ?case by (cases it) (auto simp: lower_print_item_def intro!: noF_bind noF_operand)
next
  case (3 sp L it it' its b)
  have "noF (lower_print_item sp L it b)"
    using 3(2,3) by (cases it) (auto simp: lower_print_item_def intro!: noF_bind noF_operand)
  then show ?case using 3 by (auto simp: print_putc_def intro!: noF_bind)
qed simp

lemma noF_simple:
  assumes "arm_ssa_supported R reject s" and "scoped_stmt R l (dom (bt_get L)) s" and "l \<longrightarrow> b_loops b \<noteq> []"
    and "(case s of SIf _ _ _ \<Rightarrow> False | SWhile _ _ \<Rightarrow> False | SFor _ _ _ _ _ _ _ \<Rightarrow> False
          | SForIter _ _ _ _ _ _ \<Rightarrow> False | STaskSpawn _ _ _ \<Rightarrow> False | _ \<Rightarrow> True)"
  shows "noF (lower_stmt R s b L)"
  using assms
  by (cases s) (auto simp: lower_reassign_def lower_assert_def lower_break_def lower_continue_def lower_discard_def
      lower_drop_def lower_index_assign_def lower_print_def print_putc_def loop_carry_args_def Let_def
      intro!: noF_bind noF_value noF_operand noF_print_items split: option.split prod.split)

text \<open>Each structured statement, given that its bodies report no error.\<close>

abbreviation bodyF :: "registries \<Rightarrow> typed_stmt list \<Rightarrow> bool \<Rightarrow> string set \<Rightarrow> bool" where
  "bodyF R body l V \<equiv> \<forall>b L. sinv b L \<longrightarrow> V \<subseteq> dom (bt_get L) \<longrightarrow> (l \<longrightarrow> b_loops b \<noteq> []) \<longrightarrow> noF (lower_stmts R body b L)"

lemma noF_while:
  assumes s: "sinv b L" and c: "expr_ssa_supported c" "scoped_expr (dom (bt_get L)) c" and B: "bodyF R body True (dom (bt_get L))"
  shows "noF (lower_stmt R (SWhile c body) b L)"
  unfolding lower_stmt.simps
proof (rule noF_bind_ok[OF noF_while_head[OF c] lower_while_head_ok[OF s]], goal_cases)
  case (1 r)
  obtain h x cs L1 b1 where r: "r = (h, x, cs, L1, b1)" by (cases r)
  have "sinv b1 L1" "dom (bt_get L) \<subseteq> dom (bt_get L1)" "b_loops b1 \<noteq> []" using 1(2) r by (auto simp: opened_def)
  then have "noF (lower_stmts R body b1 L1)" using B by blast
  then show ?case unfolding r prod.case by (auto intro!: noF_bind)
qed

lemma noF_for_body:
  assumes s: "sinv b L" and c: "expr_ssa_supported s0" "expr_ssa_supported e" "scoped_expr (dom (bt_get L)) s0" "scoped_expr (dom (bt_get L)) e"
    and B: "bodyF R body True (insert x (dom (bt_get L)))" and K: "\<And>sh y. noF (K sh y)"
  shows "noF (bindE (lower_integer_for_head x t s0 e body b L) (\<lambda>(shape, i_step, cs, scs, loop_locals, b).
     bindE (lower_stmts R body b loop_locals) (\<lambda>(_, b, body_locals).
     bindE (lower_integer_for_tail shape (e_span e) i_step cs scs body_locals b L) (K shape))))"
proof (rule noF_bind_ok[OF noF_for_head[OF c] lower_integer_for_head_ok[OF s]], goal_cases)
  case (1 r)
  obtain sh i cs scs L1 b1 where r: "r = (sh, i, cs, scs, L1, b1)" by (cases r)
  have "sinv b1 L1" "b_loops b1 \<noteq> []" using 1(2) r by (auto simp: fopened_def opened_def)
  moreover have "insert x (dom (bt_get L)) \<subseteq> dom (bt_get L1)" using for_head_dom 1(1) r by blast
  ultimately have "noF (lower_stmts R body b1 L1)" using B by blast
  then show ?case unfolding r prod.case using K by (auto intro!: noF_bind)
qed

lemma noF_for:
  assumes s: "sinv b L" and c: "expr_ssa_supported s0" "expr_ssa_supported e" "scoped_expr (dom (bt_get L)) s0" "scoped_expr (dom (bt_get L)) e"
    and B: "bodyF R body True (insert x (dom (bt_get L)))"
  shows "noF (lower_stmt R (SFor x t s0 e body p rs) b L)"
proof (cases p)
  case False
  have "bindE m Inr = m" for m :: "(builder \<times> locals) lres" by (cases m) simp_all
  then show ?thesis using noF_for_body[OF s c B, of "\<lambda>_. Inr"] False by simp
next
  case True
  show ?thesis
    unfolding lower_stmt.simps if_P[OF True]
  proof (rule noF_bind_ok[OF noF_parallel(1) begin_parallel_ok[OF s]], goal_cases)
    case (1 r)
    obtain blk j b0 where r: "r = (blk, j, b0)" by (cases r)
    have "sinv b0 L" using 1 r by simp
    have K: "noF ((\<lambda>(b, L). bindE (patch_parallel blk j (shape_of shape) b) (\<lambda>b.
        bindE (emit_unit TI64 (e_span e) (IHint ParallelForEnd) b) (\<lambda>b. Inr (b, L)))) y)"
      for shape and y :: "builder \<times> locals"
      by (cases y) (auto intro!: noF_bind)
    show ?case unfolding r prod.case by (rule noF_for_body[OF \<open>sinv b0 L\<close> c B K])
  qed
qed

lemma noF_for_iter:
  assumes s: "sinv b L" and c: "c \<in> dom (bt_get L)" and B: "bodyF R body True (insert x (dom (bt_get L)))"
  shows "noF (lower_stmt R (SForIter x et' c ct' cons body) b L)"
  unfolding lower_stmt.simps
proof (rule noF_bind_ok[OF noF_iter_head[OF c] lower_for_iter_head_ok[OF s]], goal_cases)
  case (1 r)
  obtain cv cty h stp ex ih q where q: "r = (cv, cty, h, stp, ex, ih, q)" by (cases r)
  obtain i cs scs L1 b1 where "q = (i, cs, scs, L1, b1)" by (cases q)
  with q have r: "r = (cv, cty, h, stp, ex, ih, i, cs, scs, L1, b1)" by simp
  have "sinv b1 L1" "b_loops b1 \<noteq> []" using 1(2) r by (auto simp: fopened_def opened_def)
  moreover have "insert x (dom (bt_get L)) \<subseteq> dom (bt_get L1)" using iter_head_dom 1(1) r by blast
  ultimately have "noF (lower_stmts R body b1 L1)" using B by blast
  then show ?case unfolding r prod.case by (auto intro!: noF_bind)
qed

lemma noF_if:
  assumes s: "sinv b L" and c: "expr_ssa_supported c" "scoped_expr (dom (bt_get L)) c"
    and T: "bodyF R tb l (dom (bt_get L))" and E: "bodyF R eb l (dom (bt_get L))" and l: "l \<longrightarrow> b_loops b \<noteq> []"
  shows "noF (lower_stmt R (SIf c tb eb) b L)"
  unfolding lower_stmt.simps Let_def
proof (rule noF_bind_ok[OF noF_if_head[OF c] lower_if_head_ok[OF s]], goal_cases)
  case (1 r)
  obtain t e b1 where r: "r = (t, e, b1)" by (cases r)
  have s1: "sinv b1 L" "sle b b1" "bid t < length (b_blocks b1)" "bid e < length (b_blocks b1)" using 1(2) r by auto
  have st1: "sinv (set_current t b1) L" using s1(1,3) by (rule sinv_set_current)
  have l1: "b_loops b1 = b_loops b" using s1(2) by (simp add: sle_def)
  have nT: "noF (lower_stmts R tb (set_current t b1) L)" using T st1 l l1 by simp
  show ?case
    unfolding r prod.case
  proof (rule noF_bind_ok[OF nT lower_stmt_st(2)[OF st1]], goal_cases)
    case (1 q)
    obtain tn b2 tL where q: "q = (tn, b2, tL)" by (cases q)
    have s2: "sinv b2 tL" "sle b1 b2" using 1(2) q by auto
    have s2L: "sinv b2 L" using sinv_sle[of "set_current t b1" L b2 tL] st1 s2 by simp
    have e: "bid e < length (b_blocks b2)" using sle_blocks[OF s2(2)] s1(4) by simp
    have "sinv (set_current e b2) L" using s2L e by (rule sinv_set_current)
    moreover have "b_loops (set_current e b2) = b_loops b" using s2(2) l1 by (simp add: sle_def)
    ultimately have "noF (lower_stmts R eb (set_current e b2) L)" using E l by simp
    then show ?case unfolding q prod.case by (auto intro!: noF_bind)
  qed
qed

lemma noF_task:
  assumes s: "sinv b L" and B: "bodyF R body l (dom (bt_get L))" and l: "l \<longrightarrow> b_loops b \<noteq> []"
  shows "noF (lower_stmt R (STaskSpawn n body caps) b L)"
  unfolding lower_stmt.simps
proof (rule noF_bind_ok[OF noF_builder(8) emit_unit_st[OF s, unfolded eu_def]], simp, goal_cases)
  case (1 b1)
  then have "sinv b1 L" "b_loops b1 = b_loops b" using sinv_keep[OF s] keep_sle by (auto simp: sle_def)
  then have "noF (lower_stmts R body b1 L)" using B l by simp
  then show ?case by (auto intro!: noF_bind)
qed

section \<open>All statements\<close>

lemma noF_cons:
  assumes s: "sinv b L" and h: "noF (lower_stmt R s b L)" and l: "l \<longrightarrow> b_loops b \<noteq> []"
    and B: "bodyF R ss l (binds s \<union> dom (bt_get L))"
  shows "noF (lower_stmts R (s # ss) b L)"
proof -
  have "noF (bindE (lower_stmt R s b L) (\<lambda>(b, L). bindE (lower_stmts R ss b L) (\<lambda>(names, b, L). Inr (let_name s @ names, b, L))))"
  proof (rule noF_bind[OF h], goal_cases)
    case (1 r)
    obtain b1 L1 where r: "r = (b1, L1)" by (cases r)
    have "sinv b1 L1" "sle b b1" "binds s \<union> dom (bt_get L) \<subseteq> dom (bt_get L1)"
      using lower_stmt_binds[OF s] 1 r by auto
    moreover have "b_loops b1 = b_loops b" using \<open>sle b b1\<close> by (simp add: sle_def)
    ultimately have "noF (lower_stmts R ss b1 L1)" using B l by simp
    then show ?case unfolding r prod.case by (auto intro!: noF_bind)
  qed
  then show ?thesis unfolding lower_stmts.simps by (auto intro!: noF_bind split: option.split)
qed

lemma bodyF_I:
  assumes "\<And>b L. sinv b L \<Longrightarrow> scoped_stmts R l (dom (bt_get L)) ss \<Longrightarrow> (l \<longrightarrow> b_loops b \<noteq> []) \<Longrightarrow> noF (lower_stmts R ss b L)"
    and "scoped_stmts R l V ss"
  shows "bodyF R ss l V"
  using assms(1) scoped_stmt_mono(2)[OF _ assms(2)] by blast

lemma stmt_arm: "stmt_ssa_supported R reject s \<Longrightarrow> arm_ssa_supported R reject s"
  by simp

lemma noF_stmt:
  shows "sinv b L \<Longrightarrow> stmt_ssa_supported R reject s \<Longrightarrow> scoped_stmt R l (dom (bt_get L)) s \<Longrightarrow> (l \<longrightarrow> b_loops b \<noteq> []) \<Longrightarrow>
      noF (lower_stmt R s b L)"
    and "sinv b L \<Longrightarrow> stmts_ssa_supported R reject ss \<Longrightarrow> scoped_stmts R l (dom (bt_get L)) ss \<Longrightarrow> (l \<longrightarrow> b_loops b \<noteq> []) \<Longrightarrow>
      noF (lower_stmts R ss b L)"
proof (induction s "io :: string list \<times> string list" and ss "io' :: string list \<times> string list"
    arbitrary: b L l and b L l rule: walk_stmt_walk_stmts.induct)
  case (4 c tb eb io)
  show ?case
    by (rule noF_if[OF 4(3) _ _ bodyF_I[OF 4(1)] bodyF_I[OF 4(2)] 4(6)]) (use 4(4,5) in auto)
next
  case (5 c body io)
  show ?case
    by (rule noF_while[OF 5(2) _ _ bodyF_I[OF 5(1)]]) (use 5(3,4) in auto)
next
  case (6 v ty s e body p rs io)
  show ?case
    by (rule noF_for[OF 6(2) _ _ _ _ bodyF_I[OF 6(1)]]) (use 6(3,4) in auto)
next
  case (7 v ety c cty cons body io)
  show ?case
    by (rule noF_for_iter[OF 7(2) _ bodyF_I[OF 7(1)]]) (use 7(3,4) in \<open>auto split: if_splits\<close>)
next
  case (8 n body caps io)
  show ?case
    by (rule noF_task[OF 8(2) bodyF_I[OF 8(1)] 8(5)]) (use 8(3,4) in auto)
next
  case (11 s ss io)
  show ?case
    by (rule noF_cons[OF 11(3) 11(1)[OF 11(3)] 11(6) bodyF_I[OF 11(2)]]) (use 11(4,5,6) in auto)
qed ((rule noF_simple[OF stmt_arm], assumption, assumption, assumption, simp) | simp)+

section \<open>Functions and programs\<close>

lemma noF_params [simp]: "noF (lower_params entry ps b L)"
  by (induction ps arbitrary: b L) (auto intro!: noF_bind)

lemma noF_build [simp]: "noF (build b)"
proof -
  have "noF (build_blocks bbs ts)" for bbs ts
    by (induction bbs ts rule: build_blocks.induct) (auto intro!: noF_bind)
  then show ?thesis by (auto simp: build_def intro!: noF_bind)
qed

lemma lower_params_dom:
  "lower_params entry ps b L = Inr (recs, b', L') \<Longrightarrow> tp_name ` set ps \<union> dom (bt_get L) \<subseteq> dom (bt_get L')"
proof (induction ps arbitrary: b L recs b' L')
  case (Cons p ps)
  then obtain v b1 recs1 where "lower_params entry ps b1 (bt_insert (tp_name p) v L) = Inr (recs1, b', L')"
    by (auto simp: bindE_Inr_iff)
  from Cons.IH[OF this] show ?case unfolding dom_bt_insert list.set image_insert by blast
qed (simp add: bindE_Inr_iff)

lemma noF_extern: "noF (lower_extern f)"
  by (auto simp: lower_extern_def Let_def intro!: noF_bind split: prod.split)

lemma noF_function:
  assumes g: "fn_ssa_supported R reject f" and s: "scoped_function R f"
  shows "noF (lower_function R f)"
proof (cases "tf_is_extern f")
  case True
  then show ?thesis using noF_extern by (simp add: lower_function_def)
next
  case False
  obtain entry b where nb: "new_block (builder_new (tf_name f) (tf_return_type f)) = (entry, b)" by fastforce
  then have cur: "set_current entry b = b" using start_ok[OF nb] by (simp add: set_current_def)
  show ?thesis
    unfolding lower_function_def Let_def nb prod.case if_not_P[OF False] cur
  proof (rule noF_bind_ok[OF noF_params params_start[OF nb]], goal_cases)
    case (1 r)
    obtain recs b1 L where r: "r = (recs, b1, L)" by (cases r)
    have i: "sinv (b1\<lparr>b_params := recs, b_entry := entry\<rparr>) L" using 1(2) r by simp
    have "scoped_stmts R False (dom (bt_get L)) (tf_body f)"
      using s lower_params_dom[of entry "tf_params f" b "[]" recs b1 L] 1(1) r
      by (auto simp: scoped_function_def elim!: scoped_stmt_mono(2)[rotated])
    then have "noF (lower_stmts R (tf_body f) (b1\<lparr>b_params := recs, b_entry := entry\<rparr>) L)"
      using g by (intro noF_stmt(2)[OF i, where l = False]) (auto simp: fn_ssa_supported_def)
    then show ?case
      unfolding r prod.case by (auto intro!: noF_bind split: prod.split option.split)
  qed
qed

lemma lower_gated:
  assumes "ssa_path_supports R ir reject" and "list_all (scoped_function R) (tpg_functions ir)"
  shows "\<exists>fns. lower_program R ir = Some (\<lparr>m_functions = fns\<rparr>, []) \<and>
           list_all2 (\<lambda>f fn. lower_function R f = Inr fn \<and> lowered_ok f fn) (tpg_functions ir) fns"
proof -
  have "list_all (fn_ssa_supported R reject) fs \<Longrightarrow> list_all (scoped_function R) fs \<Longrightarrow>
      \<exists>fns. lower_functions R fs = Some (fns, []) \<and>
            list_all2 (\<lambda>f fn. lower_function R f = Inr fn \<and> lowered_ok f fn) fs fns" for fs
  proof (induction fs)
    case (Cons f fs)
    then obtain fn where "lower_function R f = Inr fn" "lowered_ok f fn"
      using noF_returns[OF noF_function lower_function_okE] by fastforce
    then show ?case using Cons by auto
  qed simp
  then show ?thesis using assms by (fastforce simp: ssa_path_supports_def lower_program_def)
qed

section \<open>Properties\<close>

text \<open>
  C12. Every function of a program the gate admits is lowered, none is reported, and each result is a
  well-formed function with the source's name; given that its names are in scope, its \<open>break\<close>s are in
  loops, a reassignment drops the old value only of a type the lowering can drop, and no assignment to
  an element has a field path. The gate admits the last, \<open>xs[i].f = v\<close>, too; the lowering refuses it by
  design, and the driver then takes the tree back end.
\<close>

theorem gate_admits_only_lowerable:
  assumes "ssa_path_supports R ir reject" and "list_all (scoped_function R) (tpg_functions ir)"
  shows "\<exists>M. lower_program R ir = Some (M, []) \<and>
     list_all2 (\<lambda>f fn. lower_function R f = Inr fn \<and> wf_func fn \<and> fn_name fn = tf_name f) (tpg_functions ir) (m_functions M)"
proof -
  obtain fns where f: "lower_program R ir = Some (\<lparr>m_functions = fns\<rparr>, [])"
      "list_all2 (\<lambda>f fn. lower_function R f = Inr fn \<and> lowered_ok f fn) (tpg_functions ir) fns"
    using lower_gated[OF assms] by blast
  have "list_all2 (\<lambda>f fn. lower_function R f = Inr fn \<and> wf_func fn \<and> fn_name fn = tf_name f) (tpg_functions ir) fns"
    using f(2) by (rule list_all2_mono) (auto simp: lowered_ok_def)
  then show ?thesis using f(1) by auto
qed

text \<open>\<open>ex_while\<close> and \<open>ex_extern\<close> as a program.\<close>

definition ex_program :: typed_program where
  "ex_program = \<lparr>tpg_intents = [], tpg_functions = [ex_while, ex_extern], tpg_structs = [], tpg_enums = []\<rparr>"

theorem gate_admits_only_lowerable_witness:
  "\<exists>M. lower_program ex_reg ex_program = Some (M, []) \<and> length (m_functions M) = 2"
proof -
  have "ssa_path_supports ex_reg ex_program ssa_llvm_extra_reject" "list_all (scoped_function ex_reg) (tpg_functions ex_program)"
    by code_simp+
  from gate_admits_only_lowerable[OF this] show ?thesis
    by (auto simp: ex_program_def dest: list_all2_lengthD)
qed

text \<open>
  C32. The driver is total and never mixes the two back ends: the text it emits is either the
  whole program by the tree back end, or the SSA back end's text of a module that holds every
  function of the program, each well formed.
\<close>

theorem emit_all_or_nothing:
  "\<exists>out. emit_via_ssa R blocked reject ssa_emit tree_emit ir = Some out \<and>
     (out = tree_emit ir \<or>
      (\<exists>M. ssa_emit M = Some out \<and> lower_program R ir = Some (M, []) \<and>
           length (m_functions M) = length (tpg_functions ir) \<and> list_all wf_func (m_functions M)))"
proof -
  define M where "M = \<lparr>m_functions = concat (map (\<lambda>f. case lower_function R f of Inr fn \<Rightarrow> [fn] | _ \<Rightarrow> []) (tpg_functions ir))\<rparr>"
  define errs where "errs = List.map_filter (lowering_error R) (tpg_functions ir)"
  have l: "lower_program R ir = Some (M, errs)"
    by (simp add: lower_program_def lower_functions_split M_def errs_def)
  have "List.map_filter (lowering_error R) fs = [] \<Longrightarrow>
      length (concat (map (\<lambda>f. case lower_function R f of Inr fn \<Rightarrow> [fn] | _ \<Rightarrow> []) fs)) = length fs" for fs
  proof (induction fs)
    case (Cons f fs)
    have "lower_function R f \<noteq> Inl Panic" using lower_function_okE by (rule okE_not_panic)
    then show ?case
      using Cons by (auto simp: lowering_error_def map_filter_simps split: sum.splits failure.splits option.splits)
  qed (simp add: map_filter_simps)
  from this[of "tpg_functions ir"] have "errs = [] \<Longrightarrow> length (m_functions M) = length (tpg_functions ir)"
    by (simp only: M_def errs_def ssa_module.simps)
  moreover have "wf_func fn" if "lower_function R f = Inr fn" for f fn
    using okE_returns[OF lower_function_okE that] by (simp add: lowered_ok_def)
  then have "list_all wf_func (m_functions M)"
    by (auto simp: M_def list_all_iff split: sum.splits dest: sym)
  ultimately show ?thesis
    by (auto simp: emit_via_ssa_def l split: option.split)
qed

text \<open>
  What the gate admits for C is emitted by the SSA back end whenever that back end
  succeeds on the lowered module.
\<close>

theorem gated_c_uses_ssa:
  assumes "ssa_path_supports R ir ssa_c_extra_reject" and "list_all (scoped_function R) (tpg_functions ir)"
    and "\<And>M. list_all wf_func (m_functions M) \<Longrightarrow> ssa_emit M \<noteq> None"
  shows "\<exists>M. lower_program R ir = Some (M, []) \<and> emit_c_via_ssa R ssa_emit tree_emit ir = ssa_emit M \<and> ssa_emit M \<noteq> None"
proof -
  obtain fns where l: "lower_program R ir = Some (\<lparr>m_functions = fns\<rparr>, [])"
      and f: "list_all2 (\<lambda>f fn. lower_function R f = Inr fn \<and> lowered_ok f fn) (tpg_functions ir) fns"
    using lower_gated[OF assms(1,2)] by blast
  have "list_all wf_func fns"
    using f by (auto simp: list_all2_conv_all_nth list_all_length lowered_ok_def)
  then have "ssa_emit \<lparr>m_functions = fns\<rparr> \<noteq> None" using assms(3) by simp
  then show ?thesis using l assms(1) by (auto simp: emit_c_via_ssa_def emit_via_ssa_def)
qed

definition count_emit :: "ssa_module \<Rightarrow> string option" where
  "count_emit M = Some (concat (map fn_name (m_functions M)))"

theorem gated_c_uses_ssa_witness:
  "\<exists>M. emit_c_via_ssa ex_reg count_emit (\<lambda>_. ''tree'') ex_program = count_emit M"
proof -
  have "ssa_path_supports ex_reg ex_program ssa_c_extra_reject" "list_all (scoped_function ex_reg) (tpg_functions ex_program)"
    by code_simp+
  from gated_c_uses_ssa[OF this, of count_emit "\<lambda>_. ''tree''"] show ?thesis
    by (auto simp: count_emit_def)
qed

end
