(* ===== verification/SsaElide.thy ===== *)
theory SsaElide
  imports SsaPass
begin

text \<open>
  Bounds-check elision (\<open>elide_bounds\<close> of \<open>src/ssa_pass.rs\<close>): an access whose index is a
  constant within the static length of the array loses its \<open>checked\<close> flag. The lengths are
  collected per function, from the types of its parameters and results. The properties say
  which flags go, that nothing else changes, and that what loses its check is in bounds as
  long as the constant fits 64 bits; the cast of the 128-bit constant drops the rest.
\<close>

record elide_stats =
  indexed_loads_elided :: nat
  index_stores_elided :: nat

definition elide_stats_default :: elide_stats where
  "elide_stats_default = \<lparr>indexed_loads_elided = 0, index_stores_elided = 0\<rparr>"

fun array_extent :: "ty \<Rightarrow> nat option" where
  "array_extent (TArray _ n) = Some n"
| "array_extent (TRef t) = array_extent t"
| "array_extent (TRefMut t) = array_extent t"
| "array_extent _ = None"

text \<open>One entry of the map: every instruction contributes by its type, a literal by its size.\<close>

definition insert_extent :: "value_id \<Rightarrow> nat option \<Rightarrow> (value_id, nat) btmap \<Rightarrow> (value_id, nat) btmap" where
  "insert_extent v n m = (case n of Some n \<Rightarrow> bt_insert v n m | None \<Rightarrow> m)"

definition instr_extent :: "instruction \<Rightarrow> nat option" where
  "instr_extent i = (case i_kind i of IArrayLit es \<Rightarrow> Some (length es) | _ \<Rightarrow> array_extent (i_ty i))"

definition fn_instrs :: "func \<Rightarrow> instruction list" where
  "fn_instrs f = concat (map bb_instrs (fn_blocks f))"

definition collect_array_lengths :: "func \<Rightarrow> (value_id, nat) btmap" where
  "collect_array_lengths f =
     foldl (\<lambda>m i. insert_extent (i_result i) (instr_extent i) m)
       (foldl (\<lambda>m (_, t, v). insert_extent v (array_extent t) m) [] (fn_params f))
       (fn_instrs f)"

fun const_in_bounds :: "nat \<Rightarrow> operand \<Rightarrow> bool" where
  "const_in_bounds n (OConst (CInt i)) \<longleftrightarrow> 0 \<le> i \<and> as_u64 i < n"
| "const_in_bounds n _ = False"

definition index_is_in_bounds :: "operand \<Rightarrow> operand \<Rightarrow> (value_id, nat) btmap \<Rightarrow> bool" where
  "index_is_in_bounds array index lengths =
     (case (case array of OVal v \<Rightarrow> bt_get lengths v | OConst _ \<Rightarrow> None) of
        None \<Rightarrow> False
      | Some n \<Rightarrow> const_in_bounds n index)"

definition index_is_in_bounds_for_base :: "ty \<Rightarrow> operand \<Rightarrow> bool" where
  "index_is_in_bounds_for_base base index =
     (case array_extent base of None \<Rightarrow> False | Some n \<Rightarrow> const_in_bounds n index)"

fun elide_instr :: "(value_id, nat) btmap \<Rightarrow> instr_kind \<Rightarrow> elide_stats \<Rightarrow> instr_kind \<times> elide_stats" where
  "elide_instr lengths (IIndex array index checked) st =
     (if checked \<and> index_is_in_bounds array index lengths
      then (IIndex array index False, st\<lparr>indexed_loads_elided := indexed_loads_elided st + 1\<rparr>)
      else (IIndex array index checked, st))"
| "elide_instr lengths (IIndexAssign array base index val checked) st =
     (if checked \<and> index_is_in_bounds_for_base base index
      then (IIndexAssign array base index val False, st\<lparr>index_stores_elided := index_stores_elided st + 1\<rparr>)
      else (IIndexAssign array base index val checked, st))"
| "elide_instr lengths k st = (k, st)"

fun elide_instrs :: "(value_id, nat) btmap \<Rightarrow> instruction list \<Rightarrow> elide_stats \<Rightarrow> instruction list \<times> elide_stats" where
  "elide_instrs lengths [] st = ([], st)"
| "elide_instrs lengths (i # is) st =
     (let (k, st) = elide_instr lengths (i_kind i) st; (is, st) = elide_instrs lengths is st in
      (i\<lparr>i_kind := k\<rparr> # is, st))"

fun elide_blocks :: "(value_id, nat) btmap \<Rightarrow> basic_block list \<Rightarrow> elide_stats \<Rightarrow> basic_block list \<times> elide_stats" where
  "elide_blocks lengths [] st = ([], st)"
| "elide_blocks lengths (bb # bbs) st =
     (let (is, st) = elide_instrs lengths (bb_instrs bb) st; (bbs, st) = elide_blocks lengths bbs st in
      (bb\<lparr>bb_instrs := is\<rparr> # bbs, st))"

definition elide_bounds_in_function :: "func \<Rightarrow> elide_stats \<Rightarrow> func \<times> elide_stats" where
  "elide_bounds_in_function f st =
     (let (bbs, st) = elide_blocks (collect_array_lengths f) (fn_blocks f) st in (f\<lparr>fn_blocks := bbs\<rparr>, st))"

fun elide_functions :: "func list \<Rightarrow> elide_stats \<Rightarrow> func list \<times> elide_stats" where
  "elide_functions [] st = ([], st)"
| "elide_functions (f # fs) st =
     (let (f, st) = elide_bounds_in_function f st; (fs, st) = elide_functions fs st in (f # fs, st))"

definition elide_bounds :: "ssa_module \<Rightarrow> ssa_module \<times> elide_stats" where
  "elide_bounds M =
     (let (fs, st) = elide_functions (m_functions M) elide_stats_default in (M\<lparr>m_functions := fs\<rparr>, st))"

section \<open>The state threaded through is a count\<close>

text \<open>What the pass makes of an instruction, a block and a function, without the statistics.\<close>

definition elided :: "(value_id, nat) btmap \<Rightarrow> instr_kind \<Rightarrow> instr_kind" where
  "elided lengths k = fst (elide_instr lengths k elide_stats_default)"

definition elided_block :: "(value_id, nat) btmap \<Rightarrow> basic_block \<Rightarrow> basic_block" where
  "elided_block lengths bb = bb\<lparr>bb_instrs := map (\<lambda>i. i\<lparr>i_kind := elided lengths (i_kind i)\<rparr>) (bb_instrs bb)\<rparr>"

definition elided_fn :: "func \<Rightarrow> func" where
  "elided_fn f = f\<lparr>fn_blocks := map (elided_block (collect_array_lengths f)) (fn_blocks f)\<rparr>"

fun checked_load :: "instr_kind \<Rightarrow> bool" where
  "checked_load (IIndex _ _ c) = c"
| "checked_load _ = False"

fun checked_store :: "instr_kind \<Rightarrow> bool" where
  "checked_store (IIndexAssign _ _ _ _ c) = c"
| "checked_store _ = False"

definition loads :: "func \<Rightarrow> nat" where
  "loads f = length (filter (\<lambda>i. checked_load (i_kind i)) (fn_instrs f))"

definition stores :: "func \<Rightarrow> nat" where
  "stores f = length (filter (\<lambda>i. checked_store (i_kind i)) (fn_instrs f))"

definition total_loads :: "ssa_module \<Rightarrow> nat" where
  "total_loads M = sum_list (map loads (m_functions M))"

definition total_stores :: "ssa_module \<Rightarrow> nat" where
  "total_stores M = sum_list (map stores (m_functions M))"

definition bump :: "nat \<Rightarrow> nat \<Rightarrow> elide_stats \<Rightarrow> elide_stats" where
  "bump l s st = \<lparr>indexed_loads_elided = indexed_loads_elided st + l, index_stores_elided = index_stores_elided st + s\<rparr>"

lemma bump_bump [simp]: "bump l s (bump l' s' st) = bump (l' + l) (s' + s) st"
  by (simp add: bump_def)

abbreviation flag :: "bool \<Rightarrow> nat" where
  "flag b \<equiv> (if b then 1 else 0)"

lemma elide_instr_elided:
  "elide_instr lengths k st =
   (elided lengths k, bump (flag (checked_load k \<and> \<not> checked_load (elided lengths k)))
                           (flag (checked_store k \<and> \<not> checked_store (elided lengths k))) st)"
  by (cases k) (auto simp: elided_def bump_def)

lemma checked_elided: "checked_load (elided lengths k) \<Longrightarrow> checked_load k" "checked_store (elided lengths k) \<Longrightarrow> checked_store k"
  by (cases k; auto simp: elided_def split: if_splits)+

definition dropped_flags :: "(instr_kind \<Rightarrow> bool) \<Rightarrow> (value_id, nat) btmap \<Rightarrow> instruction list \<Rightarrow> nat" where
  "dropped_flags p lengths is = length (filter (\<lambda>i. p (i_kind i) \<and> \<not> p (elided lengths (i_kind i))) is)"

lemma elide_instrs_elided:
  "elide_instrs lengths is st = (map (\<lambda>i. i\<lparr>i_kind := elided lengths (i_kind i)\<rparr>) is,
     bump (dropped_flags checked_load lengths is) (dropped_flags checked_store lengths is) st)"
  by (induction "is" arbitrary: st) (auto simp: elide_instr_elided dropped_flags_def Let_def, simp_all add: bump_def)

lemma elide_blocks_elided:
  "elide_blocks lengths bbs st = (map (elided_block lengths) bbs,
     bump (dropped_flags checked_load lengths (concat (map bb_instrs bbs)))
          (dropped_flags checked_store lengths (concat (map bb_instrs bbs))) st)"
  by (induction bbs arbitrary: st)
    (auto simp: elide_instrs_elided elided_block_def Let_def, simp_all add: dropped_flags_def bump_def)

lemma elide_function_elided:
  "elide_bounds_in_function f st = (elided_fn f,
     bump (dropped_flags checked_load (collect_array_lengths f) (fn_instrs f))
          (dropped_flags checked_store (collect_array_lengths f) (fn_instrs f)) st)"
  by (simp add: elide_bounds_in_function_def elide_blocks_elided elided_fn_def fn_instrs_def)

lemma elided_fn_instrs:
  "fn_instrs (elided_fn f) = map (\<lambda>i. i\<lparr>i_kind := elided (collect_array_lengths f) (i_kind i)\<rparr>) (fn_instrs f)"
  by (simp add: fn_instrs_def elided_fn_def elided_block_def map_concat comp_def)

lemma dropped_flags_count:
  assumes "\<And>k. p (elided lengths k) \<Longrightarrow> p k"
  shows "length (filter (\<lambda>i. p (elided lengths (i_kind i))) is) + dropped_flags p lengths is =
         length (filter (\<lambda>i. p (i_kind i)) is)"
  using assms by (induction "is") (auto simp: dropped_flags_def)

lemma loads_elided: "loads (elided_fn f) + dropped_flags checked_load (collect_array_lengths f) (fn_instrs f) = loads f"
  using dropped_flags_count[of checked_load, OF checked_elided(1)]
  by (simp add: loads_def elided_fn_instrs filter_map comp_def)

lemma stores_elided: "stores (elided_fn f) + dropped_flags checked_store (collect_array_lengths f) (fn_instrs f) = stores f"
  using dropped_flags_count[of checked_store, OF checked_elided(2)]
  by (simp add: stores_def elided_fn_instrs filter_map comp_def)

lemma elide_functions_elided:
  "\<exists>l s. elide_functions fs st = (map elided_fn fs, bump l s st) \<and>
     sum_list (map loads (map elided_fn fs)) + l = sum_list (map loads fs) \<and>
     sum_list (map stores (map elided_fn fs)) + s = sum_list (map stores fs)"
proof (induction fs arbitrary: st)
  case Nil
  then show ?case by (auto simp: bump_def intro!: exI[of _ 0])
next
  case (Cons f fs)
  let ?l = "dropped_flags checked_load (collect_array_lengths f) (fn_instrs f)"
    and ?s = "dropped_flags checked_store (collect_array_lengths f) (fn_instrs f)"
  obtain l s where "elide_functions fs (bump ?l ?s st) = (map elided_fn fs, bump l s (bump ?l ?s st))"
    "sum_list (map loads (map elided_fn fs)) + l = sum_list (map loads fs)"
    "sum_list (map stores (map elided_fn fs)) + s = sum_list (map stores fs)"
    using Cons by blast
  then show ?case
    using loads_elided[of f] stores_elided[of f]
    by (intro exI[of _ "?l + l"] exI[of _ "?s + s"]) (simp add: elide_function_elided Let_def)
qed

lemma collect_lengths_elided [simp]: "collect_array_lengths (elided_fn f) = collect_array_lengths f"
proof -
  have "instr_extent (i\<lparr>i_kind := elided lengths (i_kind i)\<rparr>) = instr_extent i" for i lengths
    by (cases "i_kind i") (auto simp: instr_extent_def elided_def)
  then have "foldl (\<lambda>m i. insert_extent (i_result i) (instr_extent i) m) m (map (\<lambda>i. i\<lparr>i_kind := elided lengths (i_kind i)\<rparr>) is) =
      foldl (\<lambda>m i. insert_extent (i_result i) (instr_extent i) m) m is" for m lengths "is"
    by (induction "is" arbitrary: m) simp_all
  moreover have "fn_params (elided_fn f) = fn_params f" by (simp add: elided_fn_def)
  ultimately show ?thesis unfolding collect_array_lengths_def elided_fn_instrs by simp
qed

lemma elided_idem: "elided lengths (elided lengths k) = elided lengths k"
  by (cases k) (auto simp: elided_def)

lemma elided_fn_idem [simp]: "elided_fn (elided_fn f) = elided_fn f"
proof -
  have "fn_blocks (elided_fn (elided_fn f)) = map (elided_block (collect_array_lengths f)) (fn_blocks (elided_fn f))"
    unfolding elided_fn_def[of "elided_fn f"] collect_lengths_elided by simp
  also have "\<dots> = fn_blocks (elided_fn f)"
    by (simp add: elided_fn_def elided_block_def elided_idem comp_def)
  finally show ?thesis by (simp add: elided_fn_def)
qed

section \<open>Lengths the run time agrees with\<close>

definition value_types :: "func \<Rightarrow> (value_id \<times> ty) list" where
  "value_types f = concat (map (\<lambda>bb. bb_params bb @ map (\<lambda>i. (i_result i, i_ty i)) (bb_instrs bb)) (fn_blocks f))"

text \<open>\<open>alen\<close>: how many elements a run-time value has, arrays and references to them.\<close>

definition typed_env :: "(val \<Rightarrow> nat option) \<Rightarrow> func \<Rightarrow> env \<Rightarrow> bool" where
  "typed_env alen f env \<longleftrightarrow>
     (\<forall>(v, t)\<in>set (value_types f). \<forall>n x. array_extent t = Some n \<longrightarrow> env v = Some x \<longrightarrow> alen x = Some n)"

text \<open>What an instruction the machine does itself returns is no array; the others may make one.\<close>

fun array_kind :: "instr_kind \<Rightarrow> bool" where
  "array_kind (IConst _) = False"
| "array_kind (IUnary _ _) = False"
| "array_kind (IBinary _ _ _) = False"
| "array_kind (IFnRef _) = False"
| "array_kind (IHint _) = False"
| "array_kind _ = True"

text \<open>
  The types written in a function are coherent: a literal has as many elements as its type
  says, a cast the type it casts to, a store goes through a value of its base type, and no scalar
  operation has the type of an array.
\<close>

definition typed_instr :: "func \<Rightarrow> instruction \<Rightarrow> bool" where
  "typed_instr f i \<longleftrightarrow>
     (array_extent (i_ty i) \<noteq> None \<longrightarrow> array_kind (i_kind i)) \<and>
     (case i_kind i of
        IArrayLit es \<Rightarrow> array_extent (i_ty i) = Some (length es)
      | ICast _ t \<Rightarrow> t = i_ty i
      | IIndexAssign array base _ _ _ \<Rightarrow>
          (case array of OVal a \<Rightarrow> list_ex (\<lambda>(v, t). v = a \<and> array_extent t = array_extent base) (value_types f) | _ \<Rightarrow> False)
      | _ \<Rightarrow> True)"

definition typed_fn :: "func \<Rightarrow> bool" where
  "typed_fn f \<longleftrightarrow> distinct (map fst (value_types f)) \<and>
     list_all (\<lambda>(_, t, v). (v, t) \<in> set (value_types f)) (fn_params f) \<and> list_all (typed_instr f) (fn_instrs f)"

text \<open>The constants of indices fit the 64-bit word the pass casts them to.\<close>

fun small_index :: "instr_kind \<Rightarrow> bool" where
  "small_index (IIndex _ (OConst (CInt i)) _) \<longleftrightarrow> i < 2 ^ 64"
| "small_index (IIndexAssign _ _ (OConst (CInt i)) _ _) \<longleftrightarrow> i < 2 ^ 64"
| "small_index _ = True"

text \<open>The library: results have the length of their type, a check in bounds changes nothing.\<close>

definition bounds_rt :: "(val \<Rightarrow> nat option) \<Rightarrow> 'w runtime \<Rightarrow> bool" where
  "bounds_rt alen rt \<longleftrightarrow>
     (\<forall>k t vs w v w' n. rt_prim rt k t vs w = Done (v, w') \<longrightarrow> array_extent t = Some n \<longrightarrow> alen v = Some n) \<and>
     (\<forall>t x j w n. alen x = Some n \<longrightarrow> 0 \<le> j \<longrightarrow> j < int n \<longrightarrow>
        rt_prim rt (IIndex no_op no_op False) t [x, VInt j] w = rt_prim rt (IIndex no_op no_op True) t [x, VInt j] w) \<and>
     (\<forall>t b x j y w n. alen x = Some n \<longrightarrow> 0 \<le> j \<longrightarrow> j < int n \<longrightarrow>
        rt_prim rt (IIndexAssign no_op b no_op no_op False) t [x, VInt j, y] w =
        rt_prim rt (IIndexAssign no_op b no_op no_op True) t [x, VInt j, y] w)"

text \<open>A call whose result has the type of an array returns one of that length.\<close>

fun may_call :: "instr_kind \<Rightarrow> string \<Rightarrow> bool" where
  "may_call (ICall n _) m \<longleftrightarrow> m = n"
| "may_call (ICallIndirect _ _) m = True"
| "may_call _ m = False"

definition typed_calls :: "(val \<Rightarrow> nat option) \<Rightarrow> 'w callf \<Rightarrow> func \<Rightarrow> bool" where
  "typed_calls alen cf f \<longleftrightarrow>
     (\<forall>i\<in>set (fn_instrs f). \<forall>n name vs w v w'. array_extent (i_ty i) = Some n \<longrightarrow> may_call (i_kind i) name \<longrightarrow>
        cf name vs w = Done (v, w') \<longrightarrow> alen v = Some n)"

lemma bounds_rt_typed: "bounds_rt alen rt \<Longrightarrow> rt_prim rt k t vs w = Done (v, w') \<Longrightarrow> array_extent t = Some n \<Longrightarrow> alen v = Some n"
  unfolding bounds_rt_def by blast

lemma lengths_from:
  "bt_get (foldl (\<lambda>m e. insert_extent (key e) (ext e) m) m es) v = Some n \<Longrightarrow>
   (\<exists>e\<in>set es. key e = v \<and> ext e = Some n) \<or> bt_get m v = Some n"
  by (induction es arbitrary: m) (fastforce simp: insert_extent_def split: option.splits if_splits)+

lemma collected_length:
  assumes t: "typed_fn f" and l: "bt_get (collect_array_lengths f) v = Some n"
  shows "\<exists>t. (v, t) \<in> set (value_types f) \<and> array_extent t = Some n"
proof -
  let ?ps = "foldl (\<lambda>m (_, t, v). insert_extent v (array_extent t) m) [] (fn_params f)"
  have ps: "?ps = foldl (\<lambda>m e. insert_extent (snd (snd e)) (array_extent (fst (snd e))) m) [] (fn_params f)"
    by (simp add: case_prod_unfold)
  from lengths_from[of i_result instr_extent ?ps "fn_instrs f" v n] l
  consider i where "i \<in> set (fn_instrs f)" "i_result i = v" "instr_extent i = Some n" | "bt_get ?ps v = Some n"
    unfolding collect_array_lengths_def by blast
  then show ?thesis
  proof cases
    case 1
    then have "array_extent (i_ty i) = Some n"
      using t by (auto simp: typed_fn_def list_all_iff typed_instr_def instr_extent_def split: instr_kind.splits)
    moreover have "(v, i_ty i) \<in> set (value_types f)" using 1 by (force simp: value_types_def fn_instrs_def)
    ultimately show ?thesis by blast
  next
    case 2
    then obtain p t' where p: "(p, t', v) \<in> set (fn_params f)" "array_extent t' = Some n"
      using lengths_from[of "\<lambda>e. snd (snd e)" "\<lambda>e. array_extent (fst (snd e))" "[]" "fn_params f" v n] ps by auto
    have "list_all (\<lambda>(_, t, v). (v, t) \<in> set (value_types f)) (fn_params f)" using t by (simp add: typed_fn_def)
    then have "(v, t') \<in> set (value_types f)" using p(1) by (auto simp: list_all_iff)
    then show ?thesis using p(2) by blast
  qed
qed

section \<open>Elision preserves execution\<close>

lemma typed_envD:
  "typed_env alen f env \<Longrightarrow> (v, t) \<in> set (value_types f) \<Longrightarrow> array_extent t = Some n \<Longrightarrow> env v = Some x \<Longrightarrow> alen x = Some n"
  by (auto simp: typed_env_def)

lemma as_u64_small: "0 \<le> j \<Longrightarrow> j < 2 ^ 64 \<Longrightarrow> as_u64 j = nat j"
  by (simp add: as_u64_def)

text \<open>A constant index that passes the test and fits 64 bits is an index of the array.\<close>

lemma const_in_boundsD:
  assumes "const_in_bounds n idx"
  obtains j where "idx = OConst (CInt j)" "0 \<le> j" "j < 2 ^ 64 \<longrightarrow> j < int n"
proof -
  from assms obtain j where j: "idx = OConst (CInt j)" "0 \<le> j" "as_u64 j < n"
    by (cases "(n, idx)" rule: const_in_bounds.cases) auto
  have "j < 2 ^ 64 \<longrightarrow> j < int n" using as_u64_small[OF j(2)] j(2,3) by (auto simp: nat_less_iff)
  then show ?thesis by (rule that[OF j(1,2)])
qed

lemma elided_exec:
  assumes t: "typed_fn f" and e: "typed_env alen f env" and rt: "bounds_rt alen rt"
    and i: "i \<in> set (fn_instrs f)" and small: "small_index (i_kind i)"
  shows "exec_instr rt cf (i\<lparr>i_kind := elided (collect_array_lengths f) (i_kind i)\<rparr>) (env, w) = exec_instr rt cf i (env, w)"
proof (cases "elided (collect_array_lengths f) (i_kind i) = i_kind i")
  case True
  then show ?thesis by simp
next
  case False
  then consider
      (load) a v n where "i_kind i = IIndex (OVal a) v True" "bt_get (collect_array_lengths f) a = Some n" "const_in_bounds n v"
    | (store) a b v y n where "i_kind i = IIndexAssign a b v y True" "array_extent b = Some n" "const_in_bounds n v"
    by (cases "i_kind i") (auto simp: elided_def index_is_in_bounds_def index_is_in_bounds_for_base_def
        split: if_splits option.splits operand.splits)
  then show ?thesis
  proof cases
    case load
    obtain j where j: "v = OConst (CInt j)" "0 \<le> j" "j < 2 ^ 64 \<longrightarrow> j < int n" by (rule const_in_boundsD[OF load(3)])
    then have "j < int n" using small load(1) by simp
    moreover obtain ty where "(a, ty) \<in> set (value_types f)" "array_extent ty = Some n"
      using collected_length[OF t load(2)] by blast
    then have "alen x = Some n" if "env a = Some x" for x using typed_envD[OF e] that by blast
    ultimately show ?thesis
      using rt load j by (auto simp: exec_instr_def exec_kind_def exec_scalar_def elided_def index_is_in_bounds_def
          bounds_rt_def split: option.split)
  next
    case store
    obtain j where j: "v = OConst (CInt j)" "0 \<le> j" "j < 2 ^ 64 \<longrightarrow> j < int n" by (rule const_in_boundsD[OF store(3)])
    then have "j < int n" using small store(1) by simp
    moreover have "typed_instr f i" using t i by (simp add: typed_fn_def list_all_iff)
    then obtain r ty where a: "a = OVal r" "(r, ty) \<in> set (value_types f)" "array_extent ty = Some n"
      using store(1,2) by (auto simp: typed_instr_def list_ex_iff split: operand.splits)
    then have "alen x = Some n" if "env r = Some x" for x using typed_envD[OF e] that by blast
    ultimately show ?thesis
      using rt store(1-3) j a(1) by (auto simp: exec_instr_def exec_kind_def exec_scalar_def elided_def
          index_is_in_bounds_for_base_def bounds_rt_def split: option.split)
  qed
qed

lemma made_array:
  assumes "typed_instr f i" "i \<in> set (fn_instrs f)" "bounds_rt alen rt" "typed_calls alen cf f"
    and "array_extent (i_ty i) = Some n" and x: "exec_kind rt cf (i_kind i) (i_ty i) vs w = Done (v, w')"
  shows "alen v = Some n"
proof -
  have a: "array_kind (i_kind i)" using assms(1,5) by (simp add: typed_instr_def)
  have calls: "cf name vs w = Done (v, w') \<Longrightarrow> may_call (i_kind i) name \<Longrightarrow> alen v = Some n" for name vs
    using assms(2,4,5) unfolding typed_calls_def by blast
  have ni: "\<not> is_integer (i_ty i)" using assms(5) by (cases "i_ty i") (simp_all add: is_integer_def)
  have c: "exec_cast t vs = None" if "i_kind i = ICast y t" for y t
    using assms(1) that ni by (auto simp: typed_instr_def exec_cast_def split: list.split val.split)
  consider name ys where "i_kind i = ICall name ys" | g ys where "i_kind i = ICallIndirect g ys"
    | "rt_prim rt (skel (i_kind i)) (i_ty i) vs w = Done (v, w')"
    using a x c by (cases "i_kind i") (auto simp: exec_kind_def exec_scalar_def)
  then show ?thesis
  proof cases
    case 1
    then show ?thesis using x calls[of name vs] by (simp add: exec_kind_def exec_scalar_def)
  next
    case 2
    then obtain name args where "cf name args w = Done (v, w')"
      using x by (auto simp: exec_kind_def exec_scalar_def split: list.splits val.splits)
    then show ?thesis using calls 2 by simp
  next
    case 3
    then show ?thesis using bounds_rt_typed[OF assms(3) _ assms(5)] by metis
  qed
qed

lemma typed_env_exec:
  assumes t: "typed_fn f" and e: "typed_env alen f env" and rt: "bounds_rt alen rt" and cf: "typed_calls alen cf f"
    and i: "i \<in> set (fn_instrs f)" and x: "exec_instr rt cf i (env, w) = Done (env', w')"
  shows "typed_env alen f env'"
proof -
  obtain vs v where v: "exec_kind rt cf (i_kind i) (i_ty i) vs w = Done (v, w')" "env' = env(i_result i \<mapsto> v)"
    using x by (auto simp: exec_instr_def bindO_def split: option.splits outcome.splits)
  have "(i_result i, i_ty i) \<in> set (value_types f)" using i by (force simp: value_types_def fn_instrs_def)
  then have u: "ty = i_ty i" if "(i_result i, ty) \<in> set (value_types f)" for ty
    using t that unfolding typed_fn_def by (metis eq_key_imp_eq_value)
  have "typed_instr f i" using t i by (simp add: typed_fn_def list_all_iff)
  then have "alen v = Some n" if "array_extent (i_ty i) = Some n" for n
    using made_array[OF _ i rt cf that v(1)] by blast
  then have "alen x = Some n" if "(r, ty) \<in> set (value_types f)" "array_extent ty = Some n" "env' r = Some x" for r ty n x
    using that u typed_envD[OF e that(1,2)] v(2) by (cases "r = i_result i") auto
  then show ?thesis unfolding typed_env_def by blast
qed

lemma elided_exec_instrs:
  assumes t: "typed_fn f" and rt: "bounds_rt alen rt" and cf: "typed_calls alen cf f"
  shows "typed_env alen f env \<Longrightarrow> set is \<subseteq> set (fn_instrs f) \<Longrightarrow> list_all (\<lambda>i. small_index (i_kind i)) is \<Longrightarrow>
    exec_instrs rt cf (map (\<lambda>i. i\<lparr>i_kind := elided (collect_array_lengths f) (i_kind i)\<rparr>) is) (env, w) =
    exec_instrs rt cf is (env, w)"
proof (induction "is" arbitrary: env w)
  case (Cons i "is")
  have "exec_instrs rt cf (map (\<lambda>i. i\<lparr>i_kind := elided (collect_array_lengths f) (i_kind i)\<rparr>) is) s =
      exec_instrs rt cf is s" if "exec_instr rt cf i (env, w) = Done s" for s
    using Cons.IH[of "fst s" "snd s"] Cons.prems that typed_env_exec[OF t Cons.prems(1) rt cf, of i w "fst s" "snd s"] by auto
  then show ?case
    using elided_exec[OF t Cons.prems(1) rt, of i cf w] Cons.prems by (auto intro: bindO_cong)
qed simp

section \<open>Well-formedness\<close>

lemma elided_operands [simp]: "instr_operands (elided lengths k) = instr_operands k"
  by (cases k) (auto simp: elided_def)

lemma elided_shape: "shape_le bb (elided_block lengths bb)"
  by (auto simp: shape_le_def elided_block_def list_all2_conv_all_nth instr_uses_def comp_def)

lemma elided_fn_wf: "wf_func f \<Longrightarrow> wf_func (elided_fn f)"
  by (rule shape_le_wf[of f]) (auto simp: elided_fn_def list_all2_conv_all_nth elided_shape)

section \<open>Properties\<close>

text \<open>
  The statistics are exact: the checked loads and stores of the module the pass returns
  and the ones it reports as elided add up to those of the module it was given.
\<close>

theorem elide_count_exact:
  "total_loads (fst (elide_bounds M)) + indexed_loads_elided (snd (elide_bounds M)) = total_loads M \<and>
   total_stores (fst (elide_bounds M)) + index_stores_elided (snd (elide_bounds M)) = total_stores M"
  using elide_functions_elided[of "m_functions M" elide_stats_default]
  by (auto simp: elide_bounds_def total_loads_def total_stores_def bump_def elide_stats_default_def Let_def)

lemma elide_bounds_map: "fst (elide_bounds M) = map_fns elided_fn M"
  using elide_functions_elided[of "m_functions M" elide_stats_default]
  by (auto simp: elide_bounds_def map_fns_def Let_def)

text \<open>
  A second run of the pass finds nothing to do: the module is returned as it is, with
  statistics of zero.
\<close>

theorem elide_idempotent:
  "elide_bounds (fst (elide_bounds M)) = (fst (elide_bounds M), elide_stats_default)"
proof -
  let ?M = "map_fns elided_fn M"
  obtain l s where e: "elide_functions (m_functions ?M) elide_stats_default = (map elided_fn (m_functions ?M), bump l s elide_stats_default)"
    "sum_list (map loads (map elided_fn (m_functions ?M))) + l = sum_list (map loads (m_functions ?M))"
    "sum_list (map stores (map elided_fn (m_functions ?M))) + s = sum_list (map stores (m_functions ?M))"
    using elide_functions_elided by blast
  have m: "map elided_fn (m_functions ?M) = m_functions ?M" by (simp add: map_fns_def)
  then have "l = 0" "s = 0" using e(2,3) by simp_all
  then show ?thesis
    unfolding elide_bounds_map using e(1) m by (simp add: elide_bounds_def bump_def elide_stats_default_def)
qed

text \<open>
  C36. Elision preserves execution: in a coherently typed function whose constant indices fit
  64 bits, from an environment whose arrays have the lengths of their types, the instructions
  of a block of the rewritten function do what those of the original do, result, memory and
  traps, for every library whose results have the lengths of their types and whose bounds check only
  matters out of bounds, and for callees that return arrays of the lengths the calls are typed with.
\<close>

theorem elide_preserves_execution:
  assumes "typed_fn f" and "bounds_rt alen rt" and "typed_calls alen cf f" and "typed_env alen f env"
    and "f \<in> set (m_functions M)" and "bb \<in> set (fn_blocks f)"
    and "list_all (\<lambda>i. small_index (i_kind i)) (bb_instrs bb)"
  shows "\<exists>f'\<in>set (m_functions (fst (elide_bounds M))). \<exists>bb'\<in>set (fn_blocks f').
     fn_name f' = fn_name f \<and> bb_id bb' = bb_id bb \<and>
     exec_instrs rt cf (bb_instrs bb') (env, w) = exec_instrs rt cf (bb_instrs bb) (env, w)"
proof -
  let ?bb = "elided_block (collect_array_lengths f) bb"
  have "elided_fn f \<in> set (m_functions (fst (elide_bounds M)))"
    using assms(5) by (simp add: elide_bounds_map map_fns_def)
  moreover have "?bb \<in> set (fn_blocks (elided_fn f))" using assms(6) by (simp add: elided_fn_def)
  moreover have "fn_name (elided_fn f) = fn_name f" "bb_id ?bb = bb_id bb"
    by (simp_all add: elided_fn_def elided_block_def)
  moreover have "set (bb_instrs bb) \<subseteq> set (fn_instrs f)" using assms(6) by (auto simp: fn_instrs_def)
  then have "exec_instrs rt cf (bb_instrs ?bb) (env, w) = exec_instrs rt cf (bb_instrs bb) (env, w)"
    using elided_exec_instrs[OF assms(1-4) _ assms(7)] by (simp add: elided_block_def)
  ultimately show ?thesis by blast
qed


fun obj_len :: "val \<Rightarrow> nat option" where
  "obj_len (VObj n) = Some n"
| "obj_len _ = None"

fun array_prim :: "instr_kind \<Rightarrow> ty \<Rightarrow> val list \<Rightarrow> unit \<Rightarrow> (val \<times> unit) outcome" where
  "array_prim (IIndex _ _ c) t [VObj n, VInt j] w =
     (if c \<and> \<not> (0 \<le> j \<and> j < int n) then Trap
      else Done (case array_extent t of Some n \<Rightarrow> VObj n | None \<Rightarrow> VInt 0, w))"
| "array_prim (IIndexAssign _ _ _ _ c) t [VObj n, VInt j, v] w =
     (if c \<and> \<not> (0 \<le> j \<and> j < int n) then Trap
      else Done (case array_extent t of Some n \<Rightarrow> VObj n | None \<Rightarrow> VInt 0, w))"
| "array_prim _ _ _ w = Trap"

definition array_rt :: "unit runtime" where
  "array_rt = \<lparr>rt_prim = array_prim, rt_call = \<lambda>_ _ w. Trap\<rparr>"

lemma array_rt_bounds: "bounds_rt obj_len array_rt"
proof -
  have "obj_len v = Some n" if "array_prim k t vs w = Done (v, w')" "array_extent t = Some n" for k t vs w v w' n
    using that by (cases "(k, t, vs, w)" rule: array_prim.cases) (auto split: if_splits)
  moreover have "obj_len x = Some n \<longleftrightarrow> x = VObj n" for x n by (cases x) auto
  ultimately show ?thesis by (auto simp: bounds_rt_def array_rt_def)
qed

text \<open>\<open>fn f() { let a: [i64; 1] = g(); return a[0]; }\<close>.\<close>

definition ex_called :: func where
  "ex_called = \<lparr>fn_name = ''f'', fn_params = [], fn_return_type = TI64, fn_entry = BlockId 0,
     fn_blocks = [\<lparr>bb_id = BlockId 0, bb_params = [],
       bb_instrs = [\<lparr>i_result = ValueId 0, i_kind = ICall ''g'' [], i_ty = TArray TI64 1, i_span = span_default\<rparr>,
         \<lparr>i_result = ValueId 1, i_kind = IIndex (OVal (ValueId 0)) (OConst (CInt 0)) True, i_ty = TI64, i_span = span_default\<rparr>],
       bb_term = Return (Some (OVal (ValueId 1)))\<rparr>],
     fn_is_extern = False, fn_recursion_bound = None\<rparr>"

theorem elide_preserves_execution_witness:
  "\<exists>f'\<in>set (m_functions (fst (elide_bounds \<lparr>m_functions = [ex_called]\<rparr>))). \<exists>bb'\<in>set (fn_blocks f').
     exec_instrs array_rt (\<lambda>_ _ w. Done (VObj 1, w)) (bb_instrs bb') (Map.empty, ()) =
     Done ([ValueId 0 \<mapsto> VObj 1, ValueId 1 \<mapsto> VInt 0], ())"
proof -
  let ?f = "ex_called" and ?cf = "(\<lambda>_ _ w. Done (VObj 1, w)) :: unit callf"
  have t: "typed_fn ?f" by code_simp
  have c: "typed_calls obj_len ?cf ?f" by (auto simp: typed_calls_def fn_instrs_def ex_called_def)
  have e: "typed_env obj_len ?f Map.empty" by (simp add: typed_env_def)
  have s: "list_all (\<lambda>i. small_index (i_kind i)) (bb_instrs (hd (fn_blocks ?f)))" by code_simp
  have x: "exec_instrs array_rt ?cf (bb_instrs (hd (fn_blocks ?f))) (Map.empty, ()) =
      Done ([ValueId 0 \<mapsto> VObj 1, ValueId 1 \<mapsto> VInt 0], ())"
    by (simp add: ex_called_def exec_instr_def exec_kind_def exec_scalar_def array_rt_def)
  have "?f \<in> set (m_functions \<lparr>m_functions = [?f]\<rparr>)" "hd (fn_blocks ?f) \<in> set (fn_blocks ?f)"
    by (simp_all add: ex_called_def)
  from elide_preserves_execution[OF t array_rt_bounds c e this s, of "()"] show ?thesis
    unfolding x by blast
qed


end
