(* ===== verification/Decimal.thy ===== *)
theory Decimal
  imports Prelude
begin

text \<open>
  Decimal numerals: reading back what \<open>show_nat\<close> and \<open>show_int\<close> print. The printers of the
  compiler (\<open>SsaText\<close>, \<open>show_ty\<close>) and the number scanner of the lexer rest on these lemmas.
\<close>

definition is_digit_char :: "char \<Rightarrow> bool" where
  "is_digit_char c \<longleftrightarrow> 48 \<le> (of_char c :: nat) \<and> (of_char c :: nat) \<le> 57"

definition digit_value :: "char \<Rightarrow> nat" where
  "digit_value c = of_char c - 48"

definition read_dec :: "string \<Rightarrow> nat" where
  "read_dec = foldl (\<lambda>n c. n * 10 + digit_value c) 0"

lemma digit_char_digit [simp]: "d < 10 \<Longrightarrow> is_digit_char (digit_char d)"
  by (simp add: is_digit_char_def digit_char_def of_char_of)

lemma digit_value_char [simp]: "d < 10 \<Longrightarrow> digit_value (digit_char d) = d"
  by (simp add: digit_value_def digit_char_def of_char_of)

lemma read_dec_snoc: "read_dec (xs @ [c]) = read_dec xs * 10 + digit_value c"
  by (simp add: read_dec_def)

lemma read_show_nat [simp]: "read_dec (show_nat n) = n"
proof (induction n rule: show_nat.induct)
  case (1 n)
  then show ?case
    by (subst show_nat.simps) (auto simp: read_dec_snoc, simp add: read_dec_def)
qed

lemma show_nat_digits: "list_all is_digit_char (show_nat n)"
proof (induction n rule: show_nat.induct)
  case (1 n)
  then show ?case by (subst show_nat.simps) auto
qed

lemma show_nat_nonempty [simp]: "show_nat n \<noteq> []"
  by (subst show_nat.simps) simp

lemma show_nat_inject [simp]: "show_nat m = show_nat n \<longleftrightarrow> m = n"
  by (metis read_show_nat)

lemma show_nat_hd: "\<exists>c cs. show_nat n = c # cs \<and> is_digit_char c"
proof -
  obtain c cs where "show_nat n = c # cs" by (cases "show_nat n") auto
  then show ?thesis using show_nat_digits[of n] by simp
qed

lemma not_digit_simps [simp]:
  "\<not> is_digit_char CHR ''-''" "\<not> is_digit_char CHR ''%''" "\<not> is_digit_char CHR ''t''" "\<not> is_digit_char CHR ''f''"
  by (simp_all add: is_digit_char_def)

lemma show_int_inject [simp]: "show_int a = show_int b \<longleftrightarrow> a = b"
proof -
  have "CHR ''-'' # xs \<noteq> show_nat n" "show_nat n \<noteq> CHR ''-'' # xs" for xs n
    using show_nat_hd[of n] by (metis list.inject not_digit_simps(1))+
  then show ?thesis by (auto simp: show_int_def)
qed

lemma show_int_hd: "\<exists>c cs. show_int a = c # cs \<and> (c = CHR ''-'' \<or> is_digit_char c)"
  using show_nat_hd[of "nat a"] by (auto simp: show_int_def)

end
