(* ===== verification/SsaText.thy ===== *)
theory SsaText
  imports Ssa Decimal
begin

text \<open>
  The printed form of SSA (the \<open>Display\<close> implementations of \<open>src/ssa.rs\<close>). How the standard
  library prints a floating-point number and quotes a string is the record \<open>std_fmt\<close>, an
  argument of the printers.
\<close>

record std_fmt =
  fmt_float :: "f64 \<Rightarrow> string"
  fmt_debug :: "string \<Rightarrow> string"

fun show_const :: "std_fmt \<Rightarrow> const_val \<Rightarrow> string" where
  "show_const F (CInt v) = show_int v"
| "show_const F (CBool True) = ''true''"
| "show_const F (CBool False) = ''false''"
| "show_const F (CFloat v) = fmt_float F v"

fun show_operand :: "std_fmt \<Rightarrow> operand \<Rightarrow> string" where
  "show_operand F (OVal v) = ''%'' @ show_nat (vid v)"
| "show_operand F (OConst c) = show_const F c"

fun op_unary_symbol :: "unary_op \<Rightarrow> string" where
  "op_unary_symbol UNeg = ''-''"
| "op_unary_symbol UNot = ''!''"

definition show_operands :: "std_fmt \<Rightarrow> operand list \<Rightarrow> string" where
  "show_operands F xs = join_with '', '' (map (show_operand F) xs)"

fun show_hint :: "hint_kind \<Rightarrow> string" where
  "show_hint (ParallelForBegin reductions _) = ''hint parallel_for_begin'' @
     (if reductions = [] then []
      else '' reduce['' @ join_with '', '' (map (\<lambda>(name, op, _). name @ '' with '' @ redop_symbol op) reductions) @ '']'')"
| "show_hint ParallelForEnd = ''hint parallel_for_end''"
| "show_hint (TaskBegin handle) = ''hint task_begin '' @ handle"
| "show_hint (TaskEnd handle) = ''hint task_end '' @ handle"
| "show_hint (TaskJoin handle) = ''hint task_join '' @ handle"

fun show_kind :: "std_fmt \<Rightarrow> instr_kind \<Rightarrow> string" where
  "show_kind F (IConst c) = ''const '' @ show_const F c"
| "show_kind F (IUnary op x) = op_unary_symbol op @ '' '' @ show_operand F x"
| "show_kind F (IBinary op l r) = show_operand F l @ '' '' @ binop_symbol op @ '' '' @ show_operand F r"
| "show_kind F (ICall name args) = ''call @'' @ name @ ''('' @ show_operands F args @ '')''"
| "show_kind F (IFnRef name) = ''fn_ref @'' @ name"
| "show_kind F (ICallIndirect callee args) =
     ''call_indirect '' @ show_operand F callee @ ''('' @ show_operands F args @ '')''"
| "show_kind F (ICast x to) = ''cast '' @ show_operand F x @ '' to '' @ show_ty to"
| "show_kind F (IStrLit s) = ''str_lit '' @ fmt_debug F s"
| "show_kind F (IArrayLit es) = ''array_lit ['' @ show_operands F es @ '']''"
| "show_kind F (IIndex array index checked) =
     ''index'' @ (if checked then '' checked'' else []) @ '' '' @ show_operand F array @ '', '' @ show_operand F index"
| "show_kind F (ILen array n) = ''len '' @ show_operand F array @ '' /* '' @ show_nat n @ '' */''"
| "show_kind F (IRefOf source m) = ''ref'' @ (if m then ''_mut'' else []) @ '' '' @ show_operand F source"
| "show_kind F (IIndexAssign array _ index val checked) =
     ''index_assign'' @ (if checked then '' checked'' else []) @ '' '' @ show_operand F array @ '', '' @
     show_operand F index @ '', '' @ show_operand F val"
| "show_kind F (IDrop _ name t) = ''drop '' @ name @ '' : '' @ show_ty t"
| "show_kind F (IHint k) = show_hint k"

definition show_instruction :: "std_fmt \<Rightarrow> instruction \<Rightarrow> string" where
  "show_instruction F i = ''%'' @ show_nat (vid (i_result i)) @ '' : '' @ show_ty (i_ty i) @ '' = '' @ show_kind F (i_kind i)"

definition fmt_args :: "std_fmt \<Rightarrow> operand list \<Rightarrow> string" where
  "fmt_args F args = (if args = [] then [] else ''('' @ show_operands F args @ '')'')"

definition show_block_id :: "block_id \<Rightarrow> string" where
  "show_block_id b = ''bb'' @ show_nat (bid b)"

fun show_terminator :: "std_fmt \<Rightarrow> terminator \<Rightarrow> string" where
  "show_terminator F (Return None) = ''return''"
| "show_terminator F (Return (Some v)) = ''return '' @ show_operand F v"
| "show_terminator F (Jump t args) = ''jump '' @ show_block_id t @ fmt_args F args"
| "show_terminator F (Branch c t targs e eargs) =
     ''br '' @ show_operand F c @ '', '' @ show_block_id t @ fmt_args F targs @ '', '' @ show_block_id e @ fmt_args F eargs"
| "show_terminator F Unreachable = ''unreachable''"

abbreviation newline :: string where
  "newline \<equiv> [CHR 0x0A]"

definition show_basic_block :: "std_fmt \<Rightarrow> basic_block \<Rightarrow> string" where
  "show_basic_block F bb = show_block_id (bb_id bb) @
     (if bb_params bb = [] then []
      else ''('' @ join_with '', '' (map (\<lambda>(v, t). ''%'' @ show_nat (vid v) @ '' : '' @ show_ty t) (bb_params bb)) @ '')'') @
     '':'' @ newline @
     concat (map (\<lambda>i. ''  '' @ show_instruction F i @ newline) (bb_instrs bb)) @
     ''  '' @ show_terminator F (bb_term bb) @ newline"

definition show_func :: "std_fmt \<Rightarrow> func \<Rightarrow> string" where
  "show_func F f = ''fn @'' @ fn_name f @ ''('' @
     join_with '', '' (map (\<lambda>(n, t, v). ''%'' @ show_nat (vid v) @ '' : '' @ show_ty t @ '' /* '' @ n @ '' */'') (fn_params f)) @
     '') -> '' @ show_ty (fn_return_type f) @ '' {'' @ newline @ concat (map (show_basic_block F) (fn_blocks f)) @
     ''}'' @ newline"

definition show_module :: "std_fmt \<Rightarrow> ssa_module \<Rightarrow> string" where
  "show_module F M = concat (map (\<lambda>f. show_func F f @ newline) (m_functions M))"

definition show_lower_error :: "lower_error \<Rightarrow> string" where
  "show_lower_error e = ''ssa lower: '' @ le_message e @ '' (at byte '' @ show_nat (s_start (le_span e)) @ ''..'' @
     show_nat (s_end (le_span e)) @ '')''"

section \<open>Reading operands back\<close>

fun is_float_const :: "operand \<Rightarrow> bool" where
  "is_float_const (OConst (CFloat _)) = True"
| "is_float_const _ = False"

lemma show_int_not [simp]:
  "show_int a \<noteq> CHR ''%'' # xs" "show_int a \<noteq> CHR ''t'' # xs" "show_int a \<noteq> CHR ''f'' # xs"
  "CHR ''%'' # xs \<noteq> show_int a" "CHR ''t'' # xs \<noteq> show_int a" "CHR ''f'' # xs \<noteq> show_int a"
  using show_int_hd[of a] by fastforce+

lemma operand_cases:
  "(\<exists>v. x = OVal v) \<or> (\<exists>i. x = OConst (CInt i)) \<or> x = OConst (CBool True) \<or> x = OConst (CBool False) \<or> is_float_const x"
proof (cases x)
  case (OConst c)
  then show ?thesis by (cases c) auto
qed simp

text \<open>
  The printed form of an operand decides it, floating-point constants apart: values,
  integers and booleans never print alike.
\<close>

theorem operand_text_unambiguous:
  assumes "\<not> is_float_const x" and "\<not> is_float_const y" and "show_operand F x = show_operand F y"
  shows "x = y"
  using operand_cases[of x] operand_cases[of y] assms by (auto intro: value_id.expand)

theorem operand_text_unambiguous_witness:
  "OVal (ValueId (vid (ValueId 12))) = OVal (ValueId 12)"
  by (rule operand_text_unambiguous[of _ _ "\<lparr>fmt_float = \<lambda>_. [], fmt_debug = id\<rparr>"]) simp_all

end
