(* ===== verification/Brackets.thy ===== *)
theory Brackets
  imports Main
begin

text \<open>
  Matching of begin and end markers by a stack, and the nesting it should agree with: the
  generic part of the analyses of parallel regions (\<open>SsaAudit\<close>).
\<close>

datatype ('b, 'e) mark = Opn 'b | Cls 'e

section \<open>Nesting\<close>

inductive nested :: "('b, 'e) mark list \<Rightarrow> bool" where
  empty: "nested []"
| wrap: "nested m \<Longrightarrow> nested r \<Longrightarrow> nested (Opn b # m @ Cls e # r)"

lemma nested_append: "nested m \<Longrightarrow> nested r \<Longrightarrow> nested (m @ r)"
proof (induction rule: nested.induct)
  case (wrap m r' b e)
  then have "nested (Opn b # m @ Cls e # (r' @ r))" by (intro nested.wrap)
  then show ?case by simp
qed simp

lemma nested_pair: "nested m \<Longrightarrow> nested r \<Longrightarrow> nested (m @ Opn b # r @ [Cls e])"
  using nested_append[of m "Opn b # r @ [Cls e]"] nested.wrap[of r "[]"] by (simp add: nested.empty)

section \<open>The stack machine\<close>

text \<open>The open begins, innermost first, the pairs found, and the ends without a begin.\<close>

fun match :: "('b, 'e) mark \<Rightarrow> 'b list \<times> ('b \<times> 'e) list \<times> 'e list \<Rightarrow> 'b list \<times> ('b \<times> 'e) list \<times> 'e list" where
  "match (Opn b) (st, ps, us) = (b # st, ps, us)"
| "match (Cls e) ([], ps, us) = ([], ps, us @ [e])"
| "match (Cls e) (b # st, ps, us) = (st, ps @ [(b, e)], us)"

definition matches :: "('b, 'e) mark list \<Rightarrow> 'b list \<times> ('b \<times> 'e) list \<times> 'e list" where
  "matches ms = foldl (\<lambda>s m. match m s) ([], [], []) ms"

lemma matches_snoc: "matches (ms @ [m]) = match m (matches ms)"
  by (simp add: matches_def)

text \<open>
  Each open begin is followed by nested markers up to the next open one, or the end.
\<close>

fun open_at :: "('b, 'e) mark list \<Rightarrow> 'b list \<Rightarrow> bool" where
  "open_at pre [] = True"
| "open_at pre (b # st) \<longleftrightarrow> (\<exists>p m. pre = p @ Opn b # m \<and> nested m \<and> open_at p st)"

lemma open_at_nested: "open_at pre st \<Longrightarrow> nested m \<Longrightarrow> open_at (pre @ m) st"
proof (cases st)
  case (Cons b st')
  assume "open_at pre st" "nested m"
  then obtain p k where "pre = p @ Opn b # k" "nested k" "open_at p st'" using Cons by auto
  then have "pre @ m = p @ Opn b # (k @ m)" "nested (k @ m)" using nested_append \<open>nested m\<close> by auto
  then show ?thesis unfolding Cons open_at.simps using \<open>open_at p st'\<close> by blast
qed simp

definition pair_in :: "('b, 'e) mark list \<Rightarrow> 'b \<times> 'e \<Rightarrow> bool" where
  "pair_in ms p \<longleftrightarrow> (\<exists>pre mid post. ms = pre @ Opn (fst p) # mid @ Cls (snd p) # post \<and> nested mid)"

lemma pair_in_snoc: "pair_in ms p \<Longrightarrow> pair_in (ms @ [m]) p"
  unfolding pair_in_def by (metis append_Cons append_assoc)

lemma matches_sound: "case matches ms of (st, ps, us) \<Rightarrow> open_at ms st \<and> list_all (pair_in ms) ps"
proof (induction ms rule: rev_induct)
  case Nil
  then show ?case by (simp add: matches_def)
next
  case (snoc m ms)
  obtain st ps us where r: "matches ms = (st, ps, us)" by (cases "matches ms")
  then have i: "open_at ms st" "list_all (pair_in ms) ps" using snoc by auto
  have ps: "list_all (pair_in (ms @ [m])) ps" using i(2) by (auto simp: list_all_iff intro: pair_in_snoc)
  show ?case
  proof (cases m)
    case (Opn b)
    then have "open_at (ms @ [m]) (b # st)" unfolding open_at.simps using i(1) nested.empty by blast
    then show ?thesis using ps Opn by (simp add: matches_snoc r)
  next
    case (Cls e)
    show ?thesis
    proof (cases st)
      case Nil
      then show ?thesis using ps Cls by (simp add: matches_snoc r)
    next
      case st: (Cons b st')
      then obtain p k where k: "ms = p @ Opn b # k" "nested k" "open_at p st'" using i(1) by auto
      have "nested (Opn b # k @ [Cls e])" using nested.wrap[OF k(2) nested.empty] by simp
      then have "open_at (p @ Opn b # k @ [Cls e]) st'" using open_at_nested[OF k(3)] by blast
      then have o: "open_at (ms @ [m]) st'" using k(1) Cls by simp
      have "ms @ [m] = p @ Opn b # k @ Cls e # []" using k Cls by simp
      then have "pair_in (ms @ [m]) (b, e)" unfolding pair_in_def fst_conv snd_conv using k(2) by blast
      then show ?thesis using ps o Cls st by (simp add: matches_snoc r)
    qed
  qed
qed

lemma foldl_nested:
  "nested ms \<Longrightarrow> \<exists>qs. foldl (\<lambda>s m. match m s) (st, ps, us) ms = (st, ps @ qs, us)"
proof (induction arbitrary: st ps us rule: nested.induct)
  case (wrap m r b e)
  obtain qs where m: "foldl (\<lambda>s m. match m s) (b # st, ps, us) m = (b # st, ps @ qs, us)" using wrap.IH(1) by blast
  obtain rs where "foldl (\<lambda>s m. match m s) (st, ps @ qs @ [(b, e)], us) r = (st, (ps @ qs @ [(b, e)]) @ rs, us)"
    using wrap.IH(2) by blast
  then show ?case using m by auto
qed simp

lemma match_keeps: "set (fst (snd s)) \<subseteq> set (fst (snd (match m s)))"
  by (cases "(m, s)" rule: match.cases) auto

lemma foldl_keeps: "set (fst (snd s)) \<subseteq> set (fst (snd (foldl (\<lambda>s m. match m s) s ms)))"
proof (induction ms arbitrary: s)
  case (Cons m ms)
  show ?case using match_keeps[of s m] Cons[of "match m s"] by auto
qed simp

lemma matches_pairs: "p \<in> set (fst (snd (matches ms))) \<longleftrightarrow> pair_in ms p"
proof
  assume "p \<in> set (fst (snd (matches ms)))"
  then show "pair_in ms p" using matches_sound[of ms] by (auto simp: list_all_iff split: prod.splits)
next
  assume "pair_in ms p"
  then obtain pre mid post where d: "ms = pre @ Opn (fst p) # mid @ Cls (snd p) # post" "nested mid"
    unfolding pair_in_def by blast
  obtain st ps us where pre: "foldl (\<lambda>s m. match m s) ([], [], []) pre = (st, ps, us)"
    by (cases "foldl (\<lambda>s m. match m s) ([], [], []) pre")
  obtain qs where "foldl (\<lambda>s m. match m s) (fst p # st, ps, us) mid = (fst p # st, ps @ qs, us)"
    using foldl_nested[OF d(2)] by blast
  then have "matches ms = foldl (\<lambda>s m. match m s) (st, (ps @ qs) @ [p], us) post"
    by (simp add: matches_def d(1) pre)
  then show "p \<in> set (fst (snd (matches ms)))"
    using foldl_keeps[of "(st, (ps @ qs) @ [p], us)" post] by auto
qed

text \<open>Nothing is left over exactly when the markers are nested.\<close>

fun balanced :: "nat \<Rightarrow> ('b, 'e) mark list \<Rightarrow> bool" where
  "balanced n [] = (n = 0)"
| "balanced n (Opn b # ms) = balanced (n + 1) ms"
| "balanced 0 (Cls e # ms) = False"
| "balanced (Suc n) (Cls e # ms) = balanced n ms"

lemma foldl_unmatched: "snd (snd (foldl (\<lambda>s m. match m s) (st, ps, us) ms)) = [] \<Longrightarrow> us = []"
proof (induction ms arbitrary: st ps us)
  case (Cons m ms)
  then show ?case by (cases "(m, (st, ps, us))" rule: match.cases) auto
qed simp

lemma foldl_balanced:
  "(\<exists>qs. foldl (\<lambda>s m. match m s) (st, ps, []) ms = ([], qs, [])) \<longleftrightarrow> balanced (length st) ms"
proof (induction ms arbitrary: st ps)
  case (Cons m ms)
  show ?case
  proof (cases m)
    case (Cls e)
    show ?thesis
    proof (cases st)
      case Nil
      then show ?thesis using Cls foldl_unmatched[of "[]" ps "[e]" ms] by auto
    next
      case (Cons b st')
      then show ?thesis using Cls Cons.IH by simp
    qed
  qed (simp add: Cons)
qed simp

lemma balanced_nested_split:
  "balanced n ms \<Longrightarrow> \<exists>m r. nested m \<and> (case n of 0 \<Rightarrow> ms = m | Suc k \<Rightarrow> \<exists>e. ms = m @ Cls e # r \<and> balanced k r)"
proof (induction "length ms" arbitrary: n ms rule: less_induct)
  case less
  show ?case
  proof (cases ms)
    case Nil
    then show ?thesis using less.prems nested.empty by auto
  next
    case ms: (Cons a ms')
    show ?thesis
    proof (cases a)
      case (Cls e)
      then obtain k where "n = Suc k" "balanced k ms'" using less.prems ms by (cases n) auto
      then show ?thesis using ms Cls by (intro exI[of _ "[]"] exI[of _ ms']) (simp add: nested.empty)
    next
      case (Opn b)
      then have "balanced (Suc n) ms'" using less.prems ms by simp
      then obtain m r e where m: "nested m" "ms' = m @ Cls e # r" "balanced n r" using less.hyps[of ms' "Suc n"] ms by auto
      then have l: "length r < length ms" using ms by simp
      obtain m2 r2 where r: "nested m2" "case n of 0 \<Rightarrow> r = m2 | Suc k \<Rightarrow> \<exists>e. r = m2 @ Cls e # r2 \<and> balanced k r2"
        using less.hyps[OF l m(3)] by (elim exE conjE) (rule that)
      have n: "nested (Opn b # m @ Cls e # m2)" by (rule nested.wrap[OF m(1) r(1)])
      have "case n of 0 \<Rightarrow> ms = Opn b # m @ Cls e # m2
          | Suc k \<Rightarrow> \<exists>e'. ms = (Opn b # m @ Cls e # m2) @ Cls e' # r2 \<and> balanced k r2"
        using r(2) ms m(2) Opn by (cases n) auto
      then show ?thesis using n by blast
    qed
  qed
qed

lemma nested_balanced: "nested ms \<longleftrightarrow> balanced 0 ms"
proof
  assume "nested ms"
  from foldl_nested[OF this, of "[]" "[]" "[]"] show "balanced 0 ms" using foldl_balanced[of "[]" "[]" ms] by auto
next
  assume "balanced 0 ms"
  from balanced_nested_split[OF this] show "nested ms" by simp
qed

lemma matches_nested: "fst (matches ms) = [] \<and> snd (snd (matches ms)) = [] \<longleftrightarrow> nested ms"
  using foldl_balanced[of "[]" "[]" ms] by (cases "matches ms") (auto simp: nested_balanced matches_def)

end
