(* ===== verification/SsaAudit.thy ===== *)
theory SsaAudit
  imports SsaText Brackets SsaLowerProps
begin

text \<open>
  The read-only analyses of \<open>src/ssa_pass.rs\<close>: \<open>recognize_reduction_shapes\<close> pairs the
  markers of parallel loops, \<open>audit_pure_regions\<close> reports effects inside parallel loops and
  tasks, \<open>audit_drops\<close> compares constructions of owned values with drops. All three walk the
  blocks of a function in the order of their numbers.
\<close>

definition located :: "func \<Rightarrow> (block_id \<times> instruction) list" where
  "located f = concat (map (\<lambda>bb. map (Pair (bb_id bb)) (bb_instrs bb)) (fn_blocks f))"

section \<open>Reduction shapes\<close>

type_synonym reductions = "(string \<times> reduction_op \<times> ty) list"

record reduction_shape =
  rs_function :: nat
  rs_begin_block :: block_id
  rs_end_block :: block_id
  rs_reductions :: reductions

record open_region =
  or_begin_block :: block_id
  or_reductions :: reductions

datatype unmatched_kind = BeginWithoutEnd | EndWithoutBegin

record unmatched_hint =
  um_function :: nat
  um_block :: block_id
  um_kind :: unmatched_kind

type_synonym regions = "open_region list \<times> reduction_shape list \<times> unmatched_hint list"

text \<open>The stack of open regions is kept innermost first.\<close>

fun region_step :: "nat \<Rightarrow> block_id \<times> instruction \<Rightarrow> regions \<Rightarrow> regions" where
  "region_step fn_idx (blk, i) (opn, shapes, unmatched) =
     (case i_kind i of
        IHint (ParallelForBegin reds _) \<Rightarrow>
          (\<lparr>or_begin_block = blk, or_reductions = reds\<rparr> # opn, shapes, unmatched)
      | IHint ParallelForEnd \<Rightarrow>
          (case opn of
             b # opn \<Rightarrow>
               (opn, shapes @ [\<lparr>rs_function = fn_idx, rs_begin_block = or_begin_block b, rs_end_block = blk,
                                 rs_reductions = or_reductions b\<rparr>], unmatched)
           | [] \<Rightarrow> ([], shapes, unmatched @ [\<lparr>um_function = fn_idx, um_block = blk, um_kind = EndWithoutBegin\<rparr>]))
      | _ \<Rightarrow> (opn, shapes, unmatched))"

definition begin_unmatched :: "nat \<Rightarrow> open_region \<Rightarrow> unmatched_hint" where
  "begin_unmatched fn_idx r = \<lparr>um_function = fn_idx, um_block = or_begin_block r, um_kind = BeginWithoutEnd\<rparr>"

definition recognize_in_function :: "nat \<Rightarrow> func \<Rightarrow> reduction_shape list \<times> unmatched_hint list \<Rightarrow>
    reduction_shape list \<times> unmatched_hint list" where
  "recognize_in_function fn_idx f acc =
     (let (opn, shapes, unmatched) =
            foldl (\<lambda>s x. region_step fn_idx x s) ([], fst acc, snd acc) (located f)
      in (shapes, unmatched @ map (begin_unmatched fn_idx) (rev opn)))"

definition recognize_reduction_shapes :: "ssa_module \<Rightarrow> reduction_shape list \<times> unmatched_hint list" where
  "recognize_reduction_shapes M =
     foldl (\<lambda>acc (fn_idx, f). recognize_in_function fn_idx f acc) ([], []) (List.enumerate 0 (m_functions M))"

section \<open>Pure regions\<close>

datatype pure_violation_kind =
    PVIndexAssign string
  | PVDropNonCopy string ty
  | PVVecBuiltinCall string
  | PVIndirectCall

record pure_violation =
  pv_function :: string
  pv_kind :: pure_violation_kind
  pv_span :: span

fun kind_violation :: "registries \<Rightarrow> std_fmt \<Rightarrow> instr_kind \<Rightarrow> pure_violation_kind option" where
  "kind_violation R F (IIndexAssign array _ _ _ _) = Some (PVIndexAssign (show_operand F array))"
| "kind_violation R F (IDrop _ name t) = (if is_copy R t then None else Some (PVDropNonCopy name t))"
| "kind_violation R F (ICall name _) =
     (if name \<in> set [''vec'', ''push'', ''pop'', ''set'', ''clone''] then Some (PVVecBuiltinCall name) else None)"
| "kind_violation R F (ICallIndirect _ _) = Some PVIndirectCall"
| "kind_violation R F _ = None"

definition violation :: "registries \<Rightarrow> std_fmt \<Rightarrow> func \<Rightarrow> instruction \<Rightarrow> pure_violation list" where
  "violation R F f i = (case kind_violation R F (i_kind i) of
     Some k \<Rightarrow> [\<lparr>pv_function = fn_name f, pv_kind = k, pv_span = i_span i\<rparr>] | None \<Rightarrow> [])"

fun opens_pure :: "instr_kind \<Rightarrow> bool" where
  "opens_pure (IHint (ParallelForBegin _ _)) = True"
| "opens_pure (IHint (TaskBegin _)) = True"
| "opens_pure _ = False"

fun closes_pure :: "instr_kind \<Rightarrow> bool" where
  "closes_pure (IHint ParallelForEnd) = True"
| "closes_pure (IHint (TaskEnd _)) = True"
| "closes_pure _ = False"

fun pure_step :: "registries \<Rightarrow> std_fmt \<Rightarrow> func \<Rightarrow> instruction \<Rightarrow> nat \<times> pure_violation list \<Rightarrow> nat \<times> pure_violation list" where
  "pure_step R F f i (depth, out) =
     (if opens_pure (i_kind i) then (depth + 1, out)
      else if closes_pure (i_kind i) then (if depth > 0 then (depth - 1, out) else (depth, out))
      else if depth > 0 then (depth, out @ violation R F f i)
      else (depth, out))"

definition audit_pure_regions_in_function :: "registries \<Rightarrow> std_fmt \<Rightarrow> func \<Rightarrow> pure_violation list \<Rightarrow> pure_violation list" where
  "audit_pure_regions_in_function R F f out =
     snd (foldl (\<lambda>s x. pure_step R F f (snd x) s) (0, out) (located f))"

definition audit_pure_regions :: "registries \<Rightarrow> std_fmt \<Rightarrow> ssa_module \<Rightarrow> pure_violation list" where
  "audit_pure_regions R F M = foldl (\<lambda>out f. audit_pure_regions_in_function R F f out) [] (m_functions M)"

section \<open>Drops\<close>

record missing_drop =
  md_function :: string
  md_name :: string
  md_ty :: ty

record drop_audit =
  affine_constructed :: nat
  drops_emitted :: nat
  missing_drops :: "missing_drop list"

definition drop_audit_default :: drop_audit where
  "drop_audit_default = \<lparr>affine_constructed = 0, drops_emitted = 0, missing_drops = []\<rparr>"

fun is_affine_type :: "ty \<Rightarrow> bool" where
  "is_affine_type (TVec _) = True"
| "is_affine_type TOwnedStr = True"
| "is_affine_type (TAtomic _) = True"
| "is_affine_type (TChannel _ _) = True"
| "is_affine_type (TMutex _) = True"
| "is_affine_type (TGuard _) = True"
| "is_affine_type TTask = True"
| "is_affine_type _ = False"

text \<open>The constructions counted so far, the names dropped, and the audit.\<close>

fun drop_step :: "instruction \<Rightarrow> nat \<times> string list \<times> drop_audit \<Rightarrow> nat \<times> string list \<times> drop_audit" where
  "drop_step i (constructions, dropped, audit) =
     (case i_kind i of
        IDrop _ name _ \<Rightarrow> (constructions, List.insert name dropped, audit\<lparr>drops_emitted := drops_emitted audit + 1\<rparr>)
      | _ \<Rightarrow> (if is_affine_type (i_ty i) then (constructions + 1, dropped, audit) else (constructions, dropped, audit)))"

definition audit_drops_in_function :: "func \<Rightarrow> drop_audit \<Rightarrow> drop_audit" where
  "audit_drops_in_function f audit =
     (let (constructions, dropped, audit) = foldl (\<lambda>s x. drop_step (snd x) s) (0, [], audit) (located f);
          audit = audit\<lparr>affine_constructed := affine_constructed audit + constructions\<rparr>
      in if constructions > length dropped
         then audit\<lparr>missing_drops := missing_drops audit @
                [\<lparr>md_function = fn_name f,
                  md_name = ''<unresolved: '' @ show_nat (constructions - length dropped) @
                            '' affine construction(s) without a named Drop>'',
                  md_ty = TI64\<rparr>]\<rparr>
         else audit)"

definition audit_drops :: "ssa_module \<Rightarrow> drop_audit" where
  "audit_drops M = foldl (\<lambda>audit f. audit_drops_in_function f audit) drop_audit_default (m_functions M)"

section \<open>Regions are matched pairs\<close>

type_synonym region_mark = "(block_id \<times> reductions, block_id) mark"

fun mark_of :: "block_id \<times> instruction \<Rightarrow> region_mark list" where
  "mark_of (blk, i) = (case i_kind i of
     IHint (ParallelForBegin reds _) \<Rightarrow> [Opn (blk, reds)] | IHint ParallelForEnd \<Rightarrow> [Cls blk] | _ \<Rightarrow> [])"

definition markers :: "func \<Rightarrow> region_mark list" where
  "markers f = concat (map mark_of (located f))"

definition region_of :: "block_id \<times> reductions \<Rightarrow> open_region" where
  "region_of b = \<lparr>or_begin_block = fst b, or_reductions = snd b\<rparr>"

definition shape_for :: "nat \<Rightarrow> (block_id \<times> reductions) \<times> block_id \<Rightarrow> reduction_shape" where
  "shape_for fn_idx p = \<lparr>rs_function = fn_idx, rs_begin_block = fst (fst p), rs_end_block = snd p, rs_reductions = snd (fst p)\<rparr>"

definition end_unmatched :: "nat \<Rightarrow> block_id \<Rightarrow> unmatched_hint" where
  "end_unmatched fn_idx blk = \<lparr>um_function = fn_idx, um_block = blk, um_kind = EndWithoutBegin\<rparr>"

lemma regions_match:
  "foldl (\<lambda>s x. region_step n x s) (map region_of op, sh @ map (shape_for n) ps, um @ map (end_unmatched n) us) xs =
   (case foldl (\<lambda>s m. match m s) (op, ps, us) (concat (map mark_of xs)) of
      (op, ps, us) \<Rightarrow> (map region_of op, sh @ map (shape_for n) ps, um @ map (end_unmatched n) us))"
proof (induction xs arbitrary: op ps us)
  case (Cons x xs)
  obtain blk i where x: "x = (blk, i)" by (cases x)
  consider (beg) reds pf where "i_kind i = IHint (ParallelForBegin reds pf)" | (fin) "i_kind i = IHint ParallelForEnd"
    | (other) "mark_of x = []" "\<And>s. region_step n x s = s"
    by (cases "i_kind i"; (cases "case i_kind i of IHint h \<Rightarrow> h | _ \<Rightarrow> ParallelForEnd")?) (auto simp: x)
  then show ?case
  proof cases
    case beg
    then show ?thesis using Cons[of "(blk, reds) # op"] by (simp add: x region_of_def)
  next
    case fin
    then show ?thesis
      using Cons[of "[]" _ "us @ [blk]"] Cons[of "tl op" "ps @ [(hd op, blk)]"]
      by (cases op) (simp_all add: x end_unmatched_def shape_for_def region_of_def)
  qed (simp add: Cons)
qed simp

lemma recognize_function:
  "recognize_in_function n f acc =
   (case matches (markers f) of (op, ps, us) \<Rightarrow>
      (fst acc @ map (shape_for n) ps,
       snd acc @ map (end_unmatched n) us @ map (begin_unmatched n) (rev (map region_of op))))"
  using regions_match[of n "[]" "fst acc" "[]" "snd acc" "[]" "located f"]
  by (auto simp: recognize_in_function_def matches_def markers_def split: prod.splits)

lemma recognize_acc:
  "recognize_in_function n f acc =
   (fst acc @ fst (recognize_in_function n f ([], [])), snd acc @ snd (recognize_in_function n f ([], [])))"
  by (simp add: recognize_function split: prod.split)

lemma recognize_fold:
  "foldl (\<lambda>acc (n, f). recognize_in_function n f acc) acc fs =
   (fst acc @ concat (map (\<lambda>(n, f). fst (recognize_in_function n f ([], []))) fs),
    snd acc @ concat (map (\<lambda>(n, f). snd (recognize_in_function n f ([], []))) fs))"
proof (induction fs arbitrary: acc)
  case (Cons f fs)
  obtain n g where f: "f = (n, g)" by (cases f)
  show ?case by (simp add: f Cons recognize_acc[of n g acc])
qed simp

text \<open>
  The recognized parallel regions are exactly the matching pairs: a begin marker and the
  end marker after it with only properly nested markers between the two, in the order the
  blocks are numbered.
\<close>

theorem shapes_are_matching_pairs:
  "sh \<in> set (fst (recognize_reduction_shapes M)) \<longleftrightarrow>
   (\<exists>f. (rs_function sh, f) \<in> set (List.enumerate 0 (m_functions M)) \<and>
        pair_in (markers f) ((rs_begin_block sh, rs_reductions sh), rs_end_block sh))"
proof -
  have s: "fst (recognize_in_function n f ([], [])) = map (shape_for n) (fst (snd (matches (markers f))))" for n f
    by (simp add: recognize_function split: prod.split)
  have u: "sh = shape_for n p \<longleftrightarrow> n = rs_function sh \<and> p = ((rs_begin_block sh, rs_reductions sh), rs_end_block sh)" for n p
    by (cases sh; cases p) (auto simp: shape_for_def)
  have e: "sh \<in> shape_for n ` A \<longleftrightarrow> n = rs_function sh \<and> ((rs_begin_block sh, rs_reductions sh), rs_end_block sh) \<in> A" for n A
    unfolding image_iff u by blast
  let ?fs = "List.enumerate 0 (m_functions M)"
  have "sh \<in> set (fst (recognize_reduction_shapes M)) \<longleftrightarrow>
      (\<exists>x\<in>set ?fs. sh \<in> shape_for (fst x) ` set (fst (snd (matches (markers (snd x))))))"
    unfolding recognize_reduction_shapes_def recognize_fold by (simp add: s case_prod_unfold)
  also have "\<dots> \<longleftrightarrow> (\<exists>x\<in>set ?fs. fst x = rs_function sh \<and>
      pair_in (markers (snd x)) ((rs_begin_block sh, rs_reductions sh), rs_end_block sh))"
    unfolding e matches_pairs ..
  finally show ?thesis by force
qed

text \<open>
  No marker is left unmatched exactly when in every function they are properly nested.\<close>

theorem unmatched_iff_not_nested:
  "snd (recognize_reduction_shapes M) = [] \<longleftrightarrow> list_all (\<lambda>f. nested (markers f)) (m_functions M)"
proof -
  have "snd (recognize_in_function n f ([], [])) = [] \<longleftrightarrow> nested (markers f)" for n f
    using matches_nested[of "markers f"] by (auto simp: recognize_function split: prod.splits)
  then have "snd (recognize_reduction_shapes M) = [] \<longleftrightarrow> (\<forall>x\<in>set (List.enumerate 0 (m_functions M)). nested (markers (snd x)))"
    unfolding recognize_reduction_shapes_def recognize_fold by auto
  also have "\<dots> \<longleftrightarrow> (\<forall>f\<in>snd ` set (List.enumerate 0 (m_functions M)). nested (markers f))" by blast
  also have "snd ` set (List.enumerate 0 (m_functions M)) = set (m_functions M)"
    using map_snd_enumerate[of 0 "m_functions M"] by (metis list.set_map)
  finally show ?thesis by (simp add: list_all_iff)
qed

section \<open>What is inside a pure region\<close>

text \<open>
  An instruction is inside when some run of instructions right before it opens more regions
  than it closes.
\<close>

definition net_open :: "nat \<Rightarrow> instruction list \<Rightarrow> bool" where
  "net_open n is \<longleftrightarrow> n + length (filter (\<lambda>i. closes_pure (i_kind i)) is) \<le> length (filter (\<lambda>i. opens_pure (i_kind i)) is)"

definition inside :: "instruction list \<Rightarrow> bool" where
  "inside pre \<longleftrightarrow> (\<exists>a m. pre = a @ m \<and> net_open 1 m)"

definition deep :: "nat \<Rightarrow> instruction list \<Rightarrow> bool" where
  "deep n pre \<longleftrightarrow> (\<exists>a m. pre = a @ m \<and> net_open n m)"

definition depth_after :: "nat \<Rightarrow> instruction \<Rightarrow> nat" where
  "depth_after d i = (if opens_pure (i_kind i) then d + 1 else if closes_pure (i_kind i) then d - 1 else d)"

lemma depth_after_eq:
  "opens_pure (i_kind i) \<Longrightarrow> depth_after d i = d + 1"
  "\<not> opens_pure (i_kind i) \<Longrightarrow> closes_pure (i_kind i) \<Longrightarrow> depth_after d i = d - 1"
  "\<not> opens_pure (i_kind i) \<Longrightarrow> \<not> closes_pure (i_kind i) \<Longrightarrow> depth_after d i = d"
  by (simp_all add: depth_after_def)

lemma not_both: "opens_pure k \<Longrightarrow> \<not> closes_pure k"
  by (cases k rule: opens_pure.cases) auto

lemma deep_0 [simp]: "deep 0 pre"
  unfolding deep_def net_open_def by (rule exI[of _ pre], rule exI[of _ "[]"]) simp

lemma deep_snoc:
  assumes "0 < n"
  shows "deep n (pre @ [i]) \<longleftrightarrow>
    (if opens_pure (i_kind i) then deep (n - 1) pre else if closes_pure (i_kind i) then deep (n + 1) pre else deep n pre)"
proof -
  have "deep n (pre @ [i]) \<longleftrightarrow> (\<exists>a m. pre = a @ m \<and> net_open n (m @ [i]))"
  proof
    assume "deep n (pre @ [i])"
    then obtain a m where m: "pre @ [i] = a @ m" "net_open n m" by (auto simp: deep_def)
    then have "m \<noteq> []" using assms by (auto simp: net_open_def)
    then obtain m' where "m = m' @ [i]" using m(1) by (metis append_butlast_last_id last_appendR last_snoc)
    then show "\<exists>a m. pre = a @ m \<and> net_open n (m @ [i])" using m by auto
  next
    assume "\<exists>a m. pre = a @ m \<and> net_open n (m @ [i])"
    then show "deep n (pre @ [i])" unfolding deep_def by (metis append_assoc)
  qed
  moreover have "net_open n (m @ [i]) = net_open (if opens_pure (i_kind i) then n - 1 else if closes_pure (i_kind i) then n + 1 else n) m" for m
    using assms not_both[of "i_kind i"] by (auto simp: net_open_def)
  ultimately show ?thesis by (simp add: deep_def)
qed

lemma depth_deep: "n \<le> foldl depth_after 0 pre \<longleftrightarrow> deep n pre"
proof (induction pre arbitrary: n rule: rev_induct)
  case Nil
  have "deep n [] \<longleftrightarrow> n = 0" by (auto simp: deep_def net_open_def)
  then show ?case by simp
next
  case (snoc i pre)
  show ?case
  proof (cases n)
    case (Suc k)
    have "n \<le> foldl depth_after 0 (pre @ [i]) \<longleftrightarrow>
        (if opens_pure (i_kind i) then n - 1 \<le> foldl depth_after 0 pre
         else if closes_pure (i_kind i) then n + 1 \<le> foldl depth_after 0 pre else n \<le> foldl depth_after 0 pre)"
      using Suc by (cases "opens_pure (i_kind i)"; cases "closes_pure (i_kind i)") (auto simp: depth_after_eq)
    then show ?thesis unfolding snoc using deep_snoc[of n pre i] Suc by simp
  qed simp
qed

lemma inside_depth: "0 < foldl depth_after 0 pre \<longleftrightarrow> inside pre"
  using depth_deep[of 1 pre] by (simp add: deep_def inside_def Suc_le_eq)

lemma violation_marker: "opens_pure (i_kind i) \<or> closes_pure (i_kind i) \<Longrightarrow> violation R F f i = []"
  by (cases "i_kind i") (auto simp: violation_def)

definition reported :: "registries \<Rightarrow> std_fmt \<Rightarrow> func \<Rightarrow> instruction list \<Rightarrow> pure_violation list" where
  "reported R F f is = concat (map (\<lambda>k. if inside (take k is) then violation R F f (is ! k) else []) [0..<length is])"

lemma reported_snoc: "reported R F f (is @ [i]) = reported R F f is @ (if inside is then violation R F f i else [])"
proof -
  have "map (\<lambda>k. if inside (take k (is @ [i])) then violation R F f ((is @ [i]) ! k) else []) [0..<length is] =
        map (\<lambda>k. if inside (take k is) then violation R F f (is ! k) else []) [0..<length is]"
    by (rule map_cong) (auto simp: nth_append)
  then have "concat (map (\<lambda>k. if inside (take k (is @ [i])) then violation R F f ((is @ [i]) ! k) else []) [0..<length is]) =
        reported R F f is" unfolding reported_def by (rule arg_cong)
  then show ?thesis unfolding reported_def[of R F f "is @ [i]"] by simp
qed

lemma pure_fold:
  "foldl (\<lambda>s x. pure_step R F f x s) (0, out) is = (foldl depth_after 0 is, out @ reported R F f is)"
proof (induction "is" rule: rev_induct)
  case (snoc i "is")
  then show ?case
    using snoc violation_marker[of i R F f] not_both[of "i_kind i"] inside_depth[of "is"]
    by (auto simp: reported_snoc depth_after_eq)
qed (simp add: reported_def)

lemma located_instrs: "map snd (located f) = concat (map bb_instrs (fn_blocks f))"
  by (simp add: located_def map_concat comp_def)

lemma foldl_map_snd: "foldl (\<lambda>s x. g (snd x) s) s xs = foldl (\<lambda>s x. g x s) s (map snd xs)"
  by (induction xs arbitrary: s) simp_all

definition region_violations :: "registries \<Rightarrow> std_fmt \<Rightarrow> func \<Rightarrow> pure_violation list" where
  "region_violations R F f = reported R F f (concat (map bb_instrs (fn_blocks f)))"

lemma audit_function: "audit_pure_regions_in_function R F f out = out @ region_violations R F f"
  by (simp add: audit_pure_regions_in_function_def foldl_map_snd located_instrs pure_fold region_violations_def)

lemma audit_regions: "audit_pure_regions R F M = concat (map (region_violations R F) (m_functions M))"
proof -
  have "foldl (\<lambda>out f. audit_pure_regions_in_function R F f out) out fs = out @ concat (map (region_violations R F) fs)" for out fs
    by (induction fs arbitrary: out) (simp_all add: audit_function)
  then show ?thesis by (simp add: audit_pure_regions_def)
qed

section \<open>What the audit is to report\<close>

text \<open>
  Stated apart from the code: the hints that begin and end a pure region, the effects that have
  no place in one, and when a position is within one: some instructions right before it
  begin more regions than they end.
\<close>

inductive begins_region :: "instr_kind \<Rightarrow> bool" where
  parallel: "begins_region (IHint (ParallelForBegin reds pf))"
| task: "begins_region (IHint (TaskBegin n))"

inductive ends_region :: "instr_kind \<Rightarrow> bool" where
  parallel: "ends_region (IHint ParallelForEnd)"
| task: "ends_region (IHint (TaskEnd n))"

inductive effect :: "registries \<Rightarrow> std_fmt \<Rightarrow> instr_kind \<Rightarrow> pure_violation_kind \<Rightarrow> bool" for R F where
  store: "effect R F (IIndexAssign a b i v c) (PVIndexAssign (show_operand F a))"
| release: "\<not> is_copy R t \<Longrightarrow> effect R F (IDrop x n t) (PVDropNonCopy n t)"
| builtin: "f = ''vec'' \<or> f = ''push'' \<or> f = ''pop'' \<or> f = ''set'' \<or> f = ''clone'' \<Longrightarrow> effect R F (ICall f xs) (PVVecBuiltinCall f)"
| unknown: "effect R F (ICallIndirect g xs) PVIndirectCall"

inductive_simps begins_region_simps: "begins_region k"
inductive_simps ends_region_simps: "ends_region k"
inductive_simps effect_simps: "effect R F k v"

definition within :: "instruction list \<Rightarrow> bool" where
  "within pre \<longleftrightarrow> (\<exists>a m. pre = a @ m \<and>
     length (filter (\<lambda>i. ends_region (i_kind i)) m) < length (filter (\<lambda>i. begins_region (i_kind i)) m))"

definition region_effects :: "registries \<Rightarrow> std_fmt \<Rightarrow> func \<Rightarrow> (func \<times> instruction) list" where
  "region_effects R F f =
     (let is = concat (map bb_instrs (fn_blocks f)) in
      map (\<lambda>k. (f, is ! k)) (filter (\<lambda>k. within (take k is) \<and> (\<exists>v. effect R F (i_kind (is ! k)) v)) [0..<length is]))"

lemma opens_begins: "opens_pure k = begins_region k"
  by (cases k rule: opens_pure.cases) (simp_all add: begins_region_simps)

lemma closes_ends: "closes_pure k = ends_region k"
  by (cases k rule: closes_pure.cases) (simp_all add: ends_region_simps)

lemma inside_within: "inside pre = within pre"
  unfolding inside_def net_open_def within_def opens_begins closes_ends by (simp add: Suc_le_eq)

lemma violation_effect: "kind_violation R F k = Some v \<longleftrightarrow> effect R F k v"
  by (cases k) (auto simp: effect_simps)

abbreviation reports :: "registries \<Rightarrow> std_fmt \<Rightarrow> func \<times> instruction \<Rightarrow> pure_violation \<Rightarrow> bool" where
  "reports R F x v \<equiv> pv_function v = fn_name (fst x) \<and> pv_span v = i_span (snd x) \<and> effect R F (i_kind (snd x)) (pv_kind v)"

lemma violation_list:
  "violation R F f i = (if \<exists>v. effect R F (i_kind i) v
     then [\<lparr>pv_function = fn_name f, pv_kind = the (kind_violation R F (i_kind i)), pv_span = i_span i\<rparr>] else [])"
  unfolding violation_def violation_effect[symmetric] by (auto split: option.split)

lemma violation_reports:
  "\<exists>v. effect R F (i_kind i) v \<Longrightarrow> list_all2 (reports R F) [(f, i)] (violation R F f i)"
  unfolding violation_list violation_effect[symmetric] by auto

lemma list_all2_selected:
  "(\<And>k. k \<in> set ks \<Longrightarrow> P k \<Longrightarrow> list_all2 Q [g k] (h k)) \<Longrightarrow> (\<And>k. k \<in> set ks \<Longrightarrow> \<not> P k \<Longrightarrow> h k = []) \<Longrightarrow>
    list_all2 Q (map g (filter P ks)) (concat (map h ks))"
proof (induction ks)
  case (Cons k ks)
  then have "list_all2 Q (map g (filter P ks)) (concat (map h ks))" by simp
  then show ?case
    using Cons.prems(1)[of k] Cons.prems(2)[of k] list_all2_appendI[of Q "[g k]" "h k"] by (cases "P k") auto
qed simp

lemma function_reports: "list_all2 (reports R F) (region_effects R F f) (region_violations R F f)"
  unfolding region_effects_def region_violations_def reported_def Let_def inside_within
  by (rule list_all2_selected) (use violation_reports in \<open>auto simp: violation_list\<close>)

text \<open>
  C38. The purity audit reports, once each and in the order of the blocks and of the instructions in
  them, the stores through an index, the drops of owned values, the calls of the vector built-ins and
  the indirect calls that stand within a parallel loop or a task, and nothing else; within means
  that the instructions listed before it begin more regions than they end.
\<close>

theorem audit_reports_inside:
  "list_all2 (\<lambda>(f, i) v. pv_function v = fn_name f \<and> pv_span v = i_span i \<and> effect R F (i_kind i) (pv_kind v))
     (concat (map (region_effects R F) (m_functions M))) (audit_pure_regions R F M)"
proof -
  have "list_all2 (reports R F) (concat (map (region_effects R F) fs)) (concat (map (region_violations R F) fs))" for fs
    by (induction fs) (auto intro: list_all2_appendI function_reports)
  then show ?thesis by (simp add: audit_regions case_prod_unfold)
qed

section \<open>Where the order of blocks misleads the analyses\<close>

text \<open>
  \<open>fn f(c: bool, x: [i64; 4]) { parallel for i from 0 to 4 { .. } }\<close>, its module, and what the
  markers themselves record: the block a loop begins in and the block it exits to.
\<close>

definition ex_int :: "int \<Rightarrow> typed_expr" where
  "ex_int n = TExpr (EInt n) TI64 None span_default None"

definition ex_parallel :: "typed_stmt list \<Rightarrow> typed_function" where
  "ex_parallel body = ex_function ''f'' [ex_param ''c'' TBool, ex_param ''x'' (TArray TI64 4)] TI64
     [SFor ''i'' TI64 (ex_int 0) (ex_int 4) body True []] False"

definition ex_store :: typed_stmt where
  "ex_store = SIndexAssign ''x'' (TArray TI64 4) (ex_var ''i'' TI64) [] (ex_var ''i'' TI64) True"

definition ex_inner :: typed_stmt where
  "ex_inner = SFor ''j'' TI64 (ex_int 0) (ex_int 4) [] True [\<lparr>tr_var = ''s'', tr_op = RAdd, tr_ty = TI64\<rparr>]"

definition ex_lowered :: "typed_stmt list \<Rightarrow> ssa_module" where
  "ex_lowered body = (case lower_function ex_reg (ex_parallel body) of
     Inr fn \<Rightarrow> \<lparr>m_functions = [fn]\<rparr> | Inl _ \<Rightarrow> \<lparr>m_functions = []\<rparr>)"

definition ex_fmt :: std_fmt where
  "ex_fmt = \<lparr>fmt_float = \<lambda>_. ''1.5'', fmt_debug = id\<rparr>"

definition loop_exits :: "ssa_module \<Rightarrow> (block_id \<times> block_id) list" where
  "loop_exits M = concat (map (\<lambda>(blk, i). case i_kind i of
     IHint (ParallelForBegin _ pf) \<Rightarrow> [(blk, pf_exit_block pf)] | _ \<Rightarrow> []) (concat (map located (m_functions M))))"

definition empty_block :: "basic_block \<Rightarrow> basic_block" where
  "empty_block bb = bb\<lparr>bb_instrs := []\<rparr>"

lemma outside_unseen:
  "list_all (\<lambda>i. \<not> begins_region (i_kind i)) is \<Longrightarrow> foldl (\<lambda>s x. pure_step R F f x s) (0, out) is = (0, out)"
  by (induction "is") (simp_all add: opens_begins)

lemma depth_outside:
  "\<not> within pre \<Longrightarrow> foldl (\<lambda>s x. pure_step R F f x s) (0, out) pre = (0, out @ reported R F f pre)"
  using inside_depth[of pre] by (simp add: pure_fold inside_within)

lemma audit_steps:
  "audit_pure_regions_in_function R F f out =
     snd (foldl (\<lambda>s x. pure_step R F f x s) (0, out) (concat (map bb_instrs (fn_blocks f))))"
  by (simp add: audit_pure_regions_in_function_def foldl_map_snd located_instrs)

lemma pure_step_name: "fn_name g = fn_name f \<Longrightarrow> pure_step R F g = pure_step R F f"
proof (intro ext)
  fix i s assume n: "fn_name g = fn_name f"
  show "pure_step R F g i s = pure_step R F f i s" by (cases s) (simp add: violation_def n split: option.split)
qed

text \<open>
  C39. The purity audit takes blocks in the order of their numbers: when the regions begun in the
  blocks before some block are ended there, whatever that block does is not reported, wherever it
  is run from; the report is that of the function with the block emptied. The blocks of a branch
  inside a parallel loop are numbered after the block of the loop's end marker, so a store in
  such a branch is missed.
\<close>

theorem audit_misses_branches:
  assumes "fn_blocks f = pre @ bb # post" and "\<not> within (concat (map bb_instrs pre))"
    and "list_all (\<lambda>i. \<not> begins_region (i_kind i)) (bb_instrs bb)"
  shows "audit_pure_regions R F \<lparr>m_functions = [f]\<rparr> =
    audit_pure_regions R F \<lparr>m_functions = [f\<lparr>fn_blocks := pre @ empty_block bb # post\<rparr>]\<rparr>"
proof -
  let ?g = "f\<lparr>fn_blocks := pre @ empty_block bb # post\<rparr>"
  have "pure_step R F ?g = pure_step R F f" by (rule pure_step_name) simp
  then have "audit_pure_regions_in_function R F ?g [] = audit_pure_regions_in_function R F f []"
    unfolding audit_steps using assms(1)
    by (simp add: depth_outside[OF assms(2)] outside_unseen[OF assms(3)] empty_block_def)
  then show ?thesis by (simp add: audit_pure_regions_def)
qed

text \<open>The branch of the loop above, with the store, is block 5; the end marker is in block 4.\<close>

definition ex_branching :: func where
  "ex_branching = hd (m_functions (ex_lowered [SIf (ex_var ''c'' TBool) [ex_store] []]))"

theorem audit_misses_branches_witness:
  "ex_lowered [SIf (ex_var ''c'' TBool) [ex_store] []] = \<lparr>m_functions = [ex_branching]\<rparr> \<and>
   bb_term (fn_blocks ex_branching ! 2) = Branch (OVal (ValueId 0)) (BlockId 5) [] (BlockId 6) [] \<and>
   list_ex (\<lambda>i. effect ex_reg ex_fmt (i_kind i) (PVIndexAssign ''%7'')) (bb_instrs (fn_blocks ex_branching ! 5)) \<and>
   audit_pure_regions ex_reg ex_fmt \<lparr>m_functions = [ex_branching]\<rparr> = []"
proof -
  let ?b = "fn_blocks ex_branching"
  have "length ?b = 8" by code_simp
  then have b: "?b = take 5 ?b @ ?b ! 5 # drop 6 ?b" using id_take_nth_drop[of 5 ?b] by simp
  have "\<not> 0 < foldl depth_after 0 (concat (map bb_instrs (take 5 ?b)))" by code_simp
  then have w: "\<not> within (concat (map bb_instrs (take 5 ?b)))" unfolding inside_depth inside_within .
  have "list_all (\<lambda>i. \<not> opens_pure (i_kind i)) (bb_instrs (?b ! 5))" by code_simp
  then have o: "list_all (\<lambda>i. \<not> begins_region (i_kind i)) (bb_instrs (?b ! 5))" by (simp only: opens_begins)
  have "audit_pure_regions ex_reg ex_fmt \<lparr>m_functions = [ex_branching\<lparr>fn_blocks := take 5 ?b @ empty_block (?b ! 5) # drop 6 ?b\<rparr>]\<rparr> = []"
    by code_simp
  then have a: "audit_pure_regions ex_reg ex_fmt \<lparr>m_functions = [ex_branching]\<rparr> = []"
    unfolding audit_misses_branches[OF b w o, of ex_reg ex_fmt] .
  have "list_ex (\<lambda>i. kind_violation ex_reg ex_fmt (i_kind i) = Some (PVIndexAssign ''%7'')) (bb_instrs (?b ! 5))" by code_simp
  then have e: "list_ex (\<lambda>i. effect ex_reg ex_fmt (i_kind i) (PVIndexAssign ''%7'')) (bb_instrs (?b ! 5))"
    by (simp only: violation_effect)
  have l: "ex_lowered [SIf (ex_var ''c'' TBool) [ex_store] []] = \<lparr>m_functions = [ex_branching]\<rparr>" by code_simp
  have t: "bb_term (?b ! 2) = Branch (OVal (ValueId 0)) (BlockId 5) [] (BlockId 6) []" by code_simp
  show ?thesis by (intro conjI l t e a)
qed

text \<open>
  Nested parallel loops are paired across: the outer loop begins in block 0 and exits to
  block 4, the inner one begins in block 2 and exits to block 8, and the recognized regions
  are from 2 to 4, with the inner reduction, and from 0 to 8. Nothing is reported unmatched.
\<close>

theorem nested_regions_mispaired:
  "let r = recognize_reduction_shapes (ex_lowered [ex_inner]) in
     loop_exits (ex_lowered [ex_inner]) = [(BlockId 0, BlockId 4), (BlockId 2, BlockId 8)] \<and>
     map (\<lambda>s. (rs_begin_block s, rs_end_block s, map fst (rs_reductions s))) (fst r) =
       [(BlockId 2, BlockId 4, [''s'']), (BlockId 0, BlockId 8, [])] \<and> snd r = []"
  by code_simp

section \<open>What the drop audit counts\<close>

definition is_drop :: "instr_kind \<Rightarrow> bool" where
  "is_drop k = (case k of IDrop _ _ _ \<Rightarrow> True | _ \<Rightarrow> False)"

definition constructs :: "instruction \<Rightarrow> bool" where
  "constructs i \<longleftrightarrow> \<not> is_drop (i_kind i) \<and> is_affine_type (i_ty i)"

definition dropped_names :: "instruction list \<Rightarrow> string set" where
  "dropped_names is = {n. \<exists>i\<in>set is. \<exists>v t. i_kind i = IDrop v n t}"

definition instrs_of :: "func \<Rightarrow> instruction list" where
  "instrs_of f = concat (map bb_instrs (fn_blocks f))"

definition unbalanced :: "func \<Rightarrow> bool" where
  "unbalanced f \<longleftrightarrow> card (dropped_names (instrs_of f)) < length (filter constructs (instrs_of f))"

definition names_after :: "string list \<Rightarrow> instruction list \<Rightarrow> string list" where
  "names_after ns is = foldl (\<lambda>ns i. case i_kind i of IDrop _ n _ \<Rightarrow> List.insert n ns | _ \<Rightarrow> ns) ns is"

lemma drop_fold:
  "foldl (\<lambda>s x. drop_step x s) (c, ns, a) is =
   (c + length (filter constructs is), names_after ns is,
    a\<lparr>drops_emitted := drops_emitted a + length (filter (\<lambda>i. is_drop (i_kind i)) is)\<rparr>)"
  by (induction "is" arbitrary: c ns a) (auto simp: constructs_def is_drop_def names_after_def split: instr_kind.splits)

lemma names_after_set: "distinct ns \<Longrightarrow> distinct (names_after ns is) \<and> set (names_after ns is) = set ns \<union> dropped_names is"
proof (induction "is" arbitrary: ns)
  case (Cons i "is")
  then show ?case by (cases "i_kind i") (auto simp: names_after_def dropped_names_def)
qed (simp add: names_after_def dropped_names_def)

lemma names_after_length: "length (names_after [] is) = card (dropped_names is)"
  using names_after_set[of "[]" "is"] by (metis distinct.simps(1) distinct_card set_empty2 sup_bot_left)

definition missing_for :: "func \<Rightarrow> missing_drop list" where
  "missing_for f = (if unbalanced f then
     [\<lparr>md_function = fn_name f,
       md_name = ''<unresolved: '' @ show_nat (length (filter constructs (instrs_of f)) - card (dropped_names (instrs_of f))) @
                 '' affine construction(s) without a named Drop>'',
       md_ty = TI64\<rparr>] else [])"

lemma audit_drops_function:
  "audit_drops_in_function f a =
   \<lparr>affine_constructed = affine_constructed a + length (filter constructs (instrs_of f)),
    drops_emitted = drops_emitted a + length (filter (\<lambda>i. is_drop (i_kind i)) (instrs_of f)),
    missing_drops = missing_drops a @ missing_for f\<rparr>"
  by (simp add: audit_drops_in_function_def foldl_map_snd located_instrs drop_fold names_after_length
      missing_for_def unbalanced_def flip: instrs_of_def)

text \<open>
  What the drop audit returns: how many owned values the instructions other than drops
  produce, how many drops there are, and one report for each function in which there are
  fewer distinct dropped names than such values.
\<close>

theorem audit_drops_counts:
  "audit_drops M =
   \<lparr>affine_constructed = length (filter constructs (concat (map instrs_of (m_functions M)))),
    drops_emitted = length (filter (\<lambda>i. is_drop (i_kind i)) (concat (map instrs_of (m_functions M)))),
    missing_drops = concat (map missing_for (m_functions M))\<rparr>"
proof -
  have "foldl (\<lambda>a f. audit_drops_in_function f a) a fs =
     \<lparr>affine_constructed = affine_constructed a + length (filter constructs (concat (map instrs_of fs))),
      drops_emitted = drops_emitted a + length (filter (\<lambda>i. is_drop (i_kind i)) (concat (map instrs_of fs))),
      missing_drops = missing_drops a @ concat (map missing_for fs)\<rparr>" for a fs
    by (induction fs arbitrary: a) (simp_all add: audit_drops_function)
  then show ?thesis by (simp add: audit_drops_def drop_audit_default_def)
qed

text \<open>
  \<open>fn f(p: Vec<i64>) { let q = vec(); drop p; return; }\<close>: the vector made in the body is
  never dropped.
\<close>

definition ex_leak :: func where
  "ex_leak = \<lparr>fn_name = ''f'', fn_params = [(''p'', TVec TI64, ValueId 0)], fn_return_type = TI64, fn_entry = BlockId 0,
     fn_blocks = [\<lparr>bb_id = BlockId 0, bb_params = [(ValueId 0, TVec TI64)],
       bb_instrs = [\<lparr>i_result = ValueId 1, i_kind = ICall ''vec'' [], i_ty = TVec TI64, i_span = span_default\<rparr>,
                    \<lparr>i_result = ValueId 2, i_kind = IDrop (OVal (ValueId 0)) ''p'' (TVec TI64), i_ty = TI64, i_span = span_default\<rparr>],
       bb_term = Return None\<rparr>],
     fn_is_extern = False, fn_recursion_bound = None\<rparr>"

definition append_instrs :: "instruction list \<Rightarrow> basic_block \<Rightarrow> basic_block" where
  "append_instrs is bb = bb\<lparr>bb_instrs := bb_instrs bb @ is\<rparr>"

text \<open>The values the instructions and terminators of a function read.\<close>

definition reads :: "func \<Rightarrow> value_id set" where
  "reads f = (\<Union>bb\<in>set (fn_blocks f). (\<Union>i\<in>set (bb_instrs bb). set (instr_uses i)) \<union> set (term_uses (bb_term bb)))"

lemma dropped_names_append: "dropped_names (xs @ ys) = dropped_names xs \<union> dropped_names ys"
  by (auto simp: dropped_names_def)

lemma finite_dropped: "finite (dropped_names is)"
proof -
  have "dropped_names is \<subseteq> (\<lambda>i. case i_kind i of IDrop v n t \<Rightarrow> n | _ \<Rightarrow> []) ` set is"
    by (force simp: dropped_names_def)
  then show ?thesis by (rule finite_subset) simp
qed

text \<open>
  C40. The drop audit compares two numbers, so any drop makes up for any construction: where it reports
  nothing, it still reports nothing after an owned value \<open>i_result c\<close> is made and, say, a parameter is
  dropped, although no instruction and no terminator of the function reads the value made: it is neither dropped,
  nor returned, nor passed on.
\<close>

theorem audit_hides_leak:
  assumes "fn_blocks f = pre @ bb # post" and "missing_drops (audit_drops \<lparr>m_functions = [f]\<rparr>) = []"
    and "is_affine_type (i_ty c)" and "\<not> is_drop (i_kind c)"
    and "i_kind d = IDrop x p t" and "p \<notin> dropped_names (instrs_of f)"
    and "x \<noteq> OVal (i_result c)" and "i_result c \<notin> reads f" and "i_result c \<notin> set (instr_uses c)"
  shows "let g = f\<lparr>fn_blocks := pre @ append_instrs [c, d] bb # post\<rparr> in
    missing_drops (audit_drops \<lparr>m_functions = [g]\<rparr>) = [] \<and>
    c \<in> set (instrs_of g) \<and> i_result c \<notin> reads g"
proof -
  let ?g = "f\<lparr>fn_blocks := pre @ append_instrs [c, d] bb # post\<rparr>"
  have f: "instrs_of f = concat (map bb_instrs pre) @ bb_instrs bb @ concat (map bb_instrs post)"
    and g: "instrs_of ?g = concat (map bb_instrs pre) @ bb_instrs bb @ [c, d] @ concat (map bb_instrs post)"
    using assms(1) by (simp_all add: instrs_of_def append_instrs_def)
  have "dropped_names [c, d] = {p}" using assms(4,5) by (auto simp: dropped_names_def is_drop_def)
  then have "dropped_names (instrs_of ?g) = insert p (dropped_names (instrs_of f))"
    unfolding f g dropped_names_append by blast
  then have n: "card (dropped_names (instrs_of ?g)) = card (dropped_names (instrs_of f)) + 1"
    using assms(6) by (simp add: finite_dropped)
  have "length (filter constructs (instrs_of ?g)) = length (filter constructs (instrs_of f)) + 1"
    unfolding f g using assms(3-5) by (simp add: constructs_def is_drop_def)
  moreover have "\<not> unbalanced f"
    using assms(2) by (auto simp: audit_drops_def drop_audit_default_def audit_drops_function missing_for_def split: if_splits)
  ultimately have "\<not> unbalanced ?g" using n by (simp add: unbalanced_def)
  then have m: "missing_drops (audit_drops \<lparr>m_functions = [?g]\<rparr>) = []"
    by (simp add: audit_drops_def drop_audit_default_def audit_drops_function missing_for_def)
  have "i_result c \<notin> set (instr_uses d)"
    using assms(5,7) by (cases x) (simp_all add: instr_uses_def)
  then have "i_result c \<notin> reads ?g"
    using assms(1,8,9) by (auto simp: reads_def append_instrs_def)
  then show ?thesis unfolding Let_def using m by (simp add: g)
qed

theorem audit_hides_leak_witness:
  "missing_drops (audit_drops \<lparr>m_functions = [ex_leak]\<rparr>) = [] \<and> ValueId 1 \<notin> reads ex_leak"
proof -
  let ?bb = "\<lparr>bb_id = BlockId 0, bb_params = [(ValueId 0, TVec TI64)], bb_instrs = [], bb_term = Return None\<rparr>"
  let ?f = "ex_leak\<lparr>fn_blocks := [?bb]\<rparr>"
  let ?c = "\<lparr>i_result = ValueId 1, i_kind = ICall ''vec'' [], i_ty = TVec TI64, i_span = span_default\<rparr>"
  let ?d = "\<lparr>i_result = ValueId 2, i_kind = IDrop (OVal (ValueId 0)) ''p'' (TVec TI64), i_ty = TI64, i_span = span_default\<rparr>"
  have n: "instrs_of ?f = []" "reads ?f = {}" by (simp_all add: instrs_of_def reads_def term_uses_def)
  have e: "?f\<lparr>fn_blocks := [] @ append_instrs [?c, ?d] ?bb # []\<rparr> = ex_leak" by (simp add: ex_leak_def append_instrs_def)
  have q: "missing_drops (audit_drops \<lparr>m_functions = [?f]\<rparr>) = []" by code_simp
  show ?thesis
    using audit_hides_leak[of ?f "[]" ?bb "[]" ?c ?d "OVal (ValueId 0)" "''p''" "TVec TI64", unfolded e Let_def] q
    by (simp add: n dropped_names_def is_drop_def instr_uses_def)
qed

end
