(* ===== verification/SourceAst.thy ===== *)
theory SourceAst
  imports Ast
begin

text \<open>
  The syntax tree the parser builds (\<open>src/ast.rs\<close>): declarations, statements, expressions and
  patterns. Statements, expressions, match arms and print items are mutually recursive; the
  declarations are records, except for modules, which nest.
\<close>

section \<open>Statements and expressions\<close>

record param =
  pa_name :: string
  pa_ty :: ty
  pa_name_span :: span
  pa_span :: span

record reduction =
  rd_var :: string
  rd_op :: reduction_op
  rd_span :: span

datatype pattern =
    PatVariant string string
  | PatVariantWithBinding string string string
  | PatInt int
  | PatBool bool
  | PatStr string
  | PatFloat f64
  | PatWildcard

text \<open>
  The arguments of a constructor are the fields of the variant in the order of the source;
  the span of a statement comes last.
\<close>

datatype (plugins del: quickcheck_random quickcheck_exhaustive quickcheck_bounded_forall quickcheck_full_exhaustive quickcheck_narrowing)
  expr = Expr (e_kind: expr_kind) (e_span: span)
and expr_kind =
    KInt int
  | KFloat f64
  | KBool bool
  | KStr string
  | KVar string
  | KUnary unary_op expr
  | KBinary binary_op expr expr
  | KCall string span "expr list"
  | KMethodCall expr string span "expr list"
  | KCast expr ty
  | KArrayLit "expr list"
  | KIndex expr expr
  | KLen expr
  | KRef expr
  | KRefMut expr
  | KTuple "expr list"
  | KTupleAccess expr nat
  | KStructLit string span "(string \<times> expr) list"
  | KFieldAccess expr string
  | KMatch expr "match_arm list"
  | KIfExpr expr expr expr
  | KBlock "stmt list" expr
  | KTry expr
  | KAnonFn "param list" ty "stmt list" span
and match_arm = MatchArm pattern span expr
and print_item =
    PrExpr expr
  | PrStr string
and stmt =
    StLet string "ty option" expr span
  | StLetTuple "string list" "ty option" expr span
  | StReturn expr span
  | StAssert expr "string option" span
  | StProve expr span
  | StPrint "print_item list" span
  | StIf expr "stmt list" "stmt list" span
  | StWhile expr "expr list" "stmt list" span
  | StAssign string expr span
  | StBreak span
  | StContinue span
  | StIndexAssign string expr "string list" expr span
  | StFieldAssign expr string span expr span
  | StFor string expr expr "expr list" "stmt list" span bool "reduction list"
  | StForIter string string bool "stmt list" span
  | StTaskSpawn string "stmt list" span
  | StTaskJoin string span

fun stmt_span :: "stmt \<Rightarrow> span" where
  "stmt_span (StLet _ _ _ sp) = sp"
| "stmt_span (StLetTuple _ _ _ sp) = sp"
| "stmt_span (StReturn _ sp) = sp"
| "stmt_span (StAssert _ _ sp) = sp"
| "stmt_span (StProve _ sp) = sp"
| "stmt_span (StPrint _ sp) = sp"
| "stmt_span (StIf _ _ _ sp) = sp"
| "stmt_span (StWhile _ _ _ sp) = sp"
| "stmt_span (StAssign _ _ sp) = sp"
| "stmt_span (StBreak sp) = sp"
| "stmt_span (StContinue sp) = sp"
| "stmt_span (StIndexAssign _ _ _ _ sp) = sp"
| "stmt_span (StFieldAssign _ _ _ _ sp) = sp"
| "stmt_span (StFor _ _ _ _ _ sp _ _) = sp"
| "stmt_span (StForIter _ _ _ _ sp) = sp"
| "stmt_span (StTaskSpawn _ _ sp) = sp"
| "stmt_span (StTaskJoin _ sp) = sp"

section \<open>Declarations\<close>

record where_clause =
  wc_type_param :: string
  wc_interface_name :: string
  wc_span :: span

record function_decl =
  f_name :: string
  f_type_params :: "string list"
  f_where_clauses :: "where_clause list"
  f_params :: "param list"
  f_return_type :: ty
  f_requires :: "expr list"
  f_ensures :: "expr list"
  f_body :: "stmt list"
  f_span :: span
  f_is_pure :: bool
  f_recursion_bound :: "nat option"
  f_is_extern :: bool

record methods_block =
  mb_for_type :: ty
  mb_for_type_span :: span
  mb_methods :: "function_decl list"
  mb_span :: span

record alias_decl =
  ta_name :: string
  ta_name_span :: span
  ta_target :: ty
  ta_span :: span

record const_decl =
  cd_name :: string
  cd_name_span :: span
  cd_ty :: ty
  cd_value :: expr
  cd_span :: span

record struct_field =
  sf_name :: string
  sf_ty :: ty
  sf_span :: span

record struct_decl =
  sd_name :: string
  sd_name_span :: span
  sd_type_params :: "string list"
  sd_fields :: "struct_field list"
  sd_span :: span

record enum_variant =
  ev_name :: string
  ev_name_span :: span
  ev_payload :: "ty list"

record enum_decl =
  ed_name :: string
  ed_name_span :: span
  ed_type_params :: "string list"
  ed_variants :: "enum_variant list"
  ed_span :: span

record interface_method =
  im_name :: string
  im_name_span :: span
  im_params :: "param list"
  im_return_type :: ty
  im_span :: span

record interface_decl =
  id_name :: string
  id_name_span :: span
  id_methods :: "interface_method list"
  id_span :: span

record impl_decl =
  ip_interface_name :: string
  ip_for_type :: ty
  ip_methods :: "function_decl list"
  ip_span :: span
  ip_home_module :: "string option"

record use_file =
  us_path :: string
  us_span :: span

record use_path =
  up_module :: string
  up_item :: string
  up_alias :: "string option"
  up_is_pub :: bool
  up_span :: span

record intent_decl =
  in_text :: string
  in_span :: span

text \<open>
  The visibility of a module's items: for each kind of item two lists that run in parallel to
  the items, whether each is \<open>pub\<close> and whether it is \<open>pub(kosh)\<close>. Here one list of pairs per kind.
\<close>

record visibility =
  v_functions :: "(bool \<times> bool) list"
  v_structs :: "(bool \<times> bool) list"
  v_enums :: "(bool \<times> bool) list"
  v_interfaces :: "(bool \<times> bool) list"
  v_impls :: "(bool \<times> bool) list"
  v_consts :: "(bool \<times> bool) list"
  v_type_aliases :: "(bool \<times> bool) list"
  v_methods_blocks :: "(bool \<times> bool) list"
  v_modules :: "(bool \<times> bool) list"

record items =
  it_functions :: "function_decl list"
  it_structs :: "struct_decl list"
  it_enums :: "enum_decl list"
  it_interfaces :: "interface_decl list"
  it_impls :: "impl_decl list"
  it_consts :: "const_decl list"
  it_type_aliases :: "alias_decl list"
  it_methods_blocks :: "methods_block list"
  it_use_paths :: "use_path list"

datatype module_decl = ModuleDecl
  (md_name: string)
  (md_name_span: span)
  (md_items: items)
  (md_modules: "module_decl list")
  (md_visibility: visibility)
  (md_span: span)

record prog =
  pg_intents :: "intent_decl list"
  pg_uses :: "use_file list"
  pg_items :: items
  pg_modules :: "module_decl list"

definition no_items :: items where
  "no_items = \<lparr>it_functions = [], it_structs = [], it_enums = [], it_interfaces = [], it_impls = [], it_consts = [],
     it_type_aliases = [], it_methods_blocks = [], it_use_paths = []\<rparr>"

definition no_visibility :: visibility where
  "no_visibility = \<lparr>v_functions = [], v_structs = [], v_enums = [], v_interfaces = [], v_impls = [], v_consts = [],
     v_type_aliases = [], v_methods_blocks = [], v_modules = []\<rparr>"

end
