(* ===== verification/Utf8.thy ===== *)
theory Utf8
  imports Decimal
begin

text \<open>
  Source text as the compiler handles it: a Rust string is a list of bytes (\<open>char\<close> in HOL)
  that is valid UTF-8, offsets count bytes, and slicing off a character boundary panics.
  Validity here is the structure of the encoding, a lead byte and its continuation bytes; it
  does not exclude overlong forms, so what is proved for it holds for every Rust string.
\<close>

section \<open>Bytes and characters\<close>

abbreviation byte :: "char \<Rightarrow> nat" where
  "byte c \<equiv> of_char c"

definition cont_byte :: "char \<Rightarrow> bool" where
  "cont_byte c \<longleftrightarrow> 128 \<le> byte c \<and> byte c < 192"

definition ascii :: "char \<Rightarrow> bool" where
  "ascii c \<longleftrightarrow> byte c < 128"

text \<open>The number of bytes of the character a lead byte starts; 0 for other bytes.\<close>

definition utf8_len :: "char \<Rightarrow> nat" where
  "utf8_len c =
     (if byte c < 128 then 1 else if byte c < 192 then 0 else if byte c < 224 then 2
      else if byte c < 240 then 3 else if byte c < 248 then 4 else 0)"

fun valid_utf8 :: "string \<Rightarrow> bool" where
  "valid_utf8 [] = True"
| "valid_utf8 (c # cs) \<longleftrightarrow>
     (let n = utf8_len c in 0 < n \<and> n - 1 \<le> length cs \<and> list_all cont_byte (take (n - 1) cs) \<and>
        valid_utf8 (drop (n - 1) cs))"

text \<open>The characters of a string; a byte that starts none stands for itself.\<close>

fun chars :: "string \<Rightarrow> string list" where
  "chars [] = []"
| "chars (c # cs) = (c # take (utf8_len c - 1) cs) # chars (drop (utf8_len c - 1) cs)"

definition char_count :: "string \<Rightarrow> nat" where
  "char_count s = length (chars s)"

text \<open>The code point of a character.\<close>

definition code_point :: "string \<Rightarrow> nat" where
  "code_point ch =
     (case map byte ch of
        [a] \<Rightarrow> a
      | [a, b] \<Rightarrow> (a - 192) * 64 + (b - 128)
      | [a, b, c] \<Rightarrow> (a - 224) * 4096 + (b - 128) * 64 + (c - 128)
      | [a, b, c, d] \<Rightarrow> (a - 240) * 262144 + (b - 128) * 4096 + (c - 128) * 64 + (d - 128)
      | _ \<Rightarrow> 0)"

section \<open>Slices\<close>

definition is_char_boundary :: "string \<Rightarrow> nat \<Rightarrow> bool" where
  "is_char_boundary s i \<longleftrightarrow> i = 0 \<or> i = length s \<or> (i < length s \<and> \<not> cont_byte (s ! i))"

definition str_get :: "string \<Rightarrow> nat \<Rightarrow> nat \<Rightarrow> string option" where
  "str_get s i j =
     (if i \<le> j \<and> j \<le> length s \<and> is_char_boundary s i \<and> is_char_boundary s j then Some (take (j - i) (drop i s)) else None)"

text \<open>\<open>&s[i..j]\<close>: panics where \<open>get\<close> returns \<open>None\<close>.\<close>

definition slice :: "string \<Rightarrow> nat \<Rightarrow> nat \<Rightarrow> ('e, string) res" where
  "slice s i j = expectE (str_get s i j)"

section \<open>Valid strings\<close>

lemma utf8_len_ascii [simp]: "ascii c \<Longrightarrow> utf8_len c = 1"
  by (simp add: utf8_len_def ascii_def)

lemma cont_not_ascii: "cont_byte c \<Longrightarrow> \<not> ascii c"
  by (simp add: cont_byte_def ascii_def)

lemma cont_len [simp]: "cont_byte c \<Longrightarrow> utf8_len c = 0"
  by (simp add: cont_byte_def utf8_len_def)

lemma valid_ascii_Cons [simp]: "ascii c \<Longrightarrow> valid_utf8 (c # cs) = valid_utf8 cs"
  by simp

lemma valid_ascii: "list_all ascii s \<Longrightarrow> valid_utf8 s"
  by (induction s) (simp_all del: valid_utf8.simps(2))

lemma valid_append: "valid_utf8 a \<Longrightarrow> valid_utf8 b \<Longrightarrow> valid_utf8 (a @ b)"
proof (induction a rule: valid_utf8.induct)
  case (2 c cs)
  then show ?case by (auto simp: Let_def)
qed simp

lemma valid_append_iff: "valid_utf8 a \<Longrightarrow> valid_utf8 (a @ b) = valid_utf8 b"
proof (induction a rule: valid_utf8.induct)
  case (2 c cs)
  then show ?case by (auto simp: Let_def)
qed simp

lemma valid_boundary: "valid_utf8 (drop i s) \<Longrightarrow> i \<le> length s \<Longrightarrow> is_char_boundary s i"
proof (cases "i < length s")
  case True
  assume "valid_utf8 (drop i s)"
  then show ?thesis using True by (auto simp: is_char_boundary_def Cons_nth_drop_Suc[symmetric] Let_def)
qed (simp add: is_char_boundary_def)

text \<open>In a valid string the suffixes at boundaries are the valid ones.\<close>

lemma boundary_valid: "valid_utf8 s \<Longrightarrow> is_char_boundary s i \<Longrightarrow> valid_utf8 (drop i s)"
proof (induction s arbitrary: i rule: valid_utf8.induct)
  case (2 c cs)
  define n where "n = utf8_len c - 1"
  have n: "n \<le> length cs" "list_all cont_byte (take n cs)" "valid_utf8 (drop n cs)" "utf8_len c = Suc n"
    using 2(2) by (auto simp: n_def Let_def)
  consider "i = 0" | j where "i = Suc j" "j < n" | j where "i = Suc j" "n \<le> j"
    by (metis not0_implies_Suc not_less)
  then show ?case
  proof cases
    case 1
    then show ?thesis using 2(2) by simp
  next
    case 2
    then have "cont_byte (cs ! j)" using n(1,2) by (auto simp: list_all_length)
    then show ?thesis using 2 \<open>is_char_boundary (c # cs) i\<close> n(1) by (auto simp: is_char_boundary_def)
  next
    case 3
    then have "is_char_boundary (drop n cs) (j - n)"
      using \<open>is_char_boundary (c # cs) i\<close> n(1) by (auto simp: is_char_boundary_def)
    then have "valid_utf8 (drop (j - n) (drop n cs))" using 2(1) n(3) by (simp add: n_def)
    then show ?thesis using 3 by simp
  qed
qed simp

lemma valid_prefix: "valid_utf8 s \<Longrightarrow> valid_utf8 (drop i s) \<Longrightarrow> i \<le> length s \<Longrightarrow> valid_utf8 (take i s)"
proof (induction s arbitrary: i rule: valid_utf8.induct)
  case (2 c cs)
  note IH = 2(1)[OF refl] and v = 2(3) and l = 2(4)
  define n where "n = utf8_len c - 1"
  have n: "n \<le> length cs" "list_all cont_byte (take n cs)" "valid_utf8 (drop n cs)" "utf8_len c = Suc n"
    using 2(2) by (auto simp: n_def Let_def)
  consider "i = 0" | j where "i = Suc j" "j < n" | j where "i = Suc j" "n \<le> j"
    by (metis not0_implies_Suc not_less)
  then show ?case
  proof cases
    case 2
    then have "cont_byte (cs ! j)" "drop j cs = cs ! j # drop (Suc j) cs"
      using n(1,2) by (auto simp: list_all_length Cons_nth_drop_Suc)
    then show ?thesis using 2 \<open>valid_utf8 (drop i (c # cs))\<close> by (simp add: Let_def)
  next
    case 3
    have "valid_utf8 (drop (j - n) (drop n cs))" using v 3 by simp
    then have t: "valid_utf8 (take (j - n) (drop n cs))" using IH[folded n_def, OF n(3)] l 3 by simp
    have "take j cs = take n cs @ take (j - n) (drop n cs)" using 3(2) take_add[of n "j - n" cs] by simp
    then have e: "take i (c # cs) = c # take n cs @ take (j - n) (drop n cs)" using 3(1) by simp
    show ?thesis unfolding e using n(1,2,4) t by (simp add: Let_def)
  qed simp
qed simp

lemma slice_ok:
  assumes "valid_utf8 (drop i s)" and "valid_utf8 (drop j s)" and "i \<le> j" and "j \<le> length s"
  shows "slice s i j = Inr (take (j - i) (drop i s))"
  using assms valid_boundary[of i s] valid_boundary[of j s] by (simp add: slice_def str_get_def expectE_def)

lemma slice_valid:
  assumes "valid_utf8 (drop i s)" and "valid_utf8 (drop j s)" and "i \<le> j" and "j \<le> length s"
  shows "valid_utf8 (take (j - i) (drop i s))"
  using assms by (intro valid_prefix) simp_all

text \<open>Skipping over a set of bytes that holds all or none of the bytes above 127.\<close>

lemma valid_dropWhile_all:
  assumes "\<And>c. \<not> ascii c \<Longrightarrow> P c" and "valid_utf8 s"
  shows "valid_utf8 (dropWhile P s)"
  using assms(2)
proof (induction s rule: valid_utf8.induct)
  case (2 c cs)
  show ?case
  proof (cases "P c")
    case False
    then show ?thesis using 2(2) by simp
  next
    case True
    let ?n = "utf8_len c - 1"
    have n: "list_all cont_byte (take ?n cs)" "valid_utf8 (drop ?n cs)" using 2(2) by (auto simp: Let_def)
    have "P x" if "x \<in> set (take ?n cs)" for x
      using n(1) that assms(1)[OF cont_not_ascii] unfolding list_all_iff by blast
    then have "dropWhile P (take ?n cs @ drop ?n cs) = dropWhile P (drop ?n cs)" by (rule dropWhile_append2)
    then have "dropWhile P cs = dropWhile P (drop ?n cs)" by (simp only: append_take_drop_id)
    then show ?thesis using 2(1)[OF refl n(2)] True by (simp only: dropWhile.simps if_True)
  qed
qed simp

lemma valid_dropWhile_ascii:
  assumes "\<And>c. P c \<Longrightarrow> ascii c" and "valid_utf8 s"
  shows "valid_utf8 (dropWhile P s)"
  using assms(2)
proof (induction s)
  case (Cons c cs)
  then show ?case using assms(1)[of c] by (cases "P c") (auto simp del: valid_utf8.simps(2))
qed simp

lemma valid_ascii_step: "i < length s \<Longrightarrow> ascii (s ! i) \<Longrightarrow> valid_utf8 (drop i s) \<Longrightarrow> valid_utf8 (drop (Suc i) s)"
  by (simp add: Cons_nth_drop_Suc[symmetric] del: valid_utf8.simps)

lemma valid_char_step:
  assumes "i < length s" and "valid_utf8 (drop i s)"
  shows "0 < utf8_len (s ! i) \<and> i + utf8_len (s ! i) \<le> length s \<and> valid_utf8 (drop (i + utf8_len (s ! i)) s)"
proof -
  have d: "drop i s = s ! i # drop (Suc i) s" using assms(1) by (simp add: Cons_nth_drop_Suc)
  let ?n = "utf8_len (s ! i)"
  have "0 < ?n" "?n - 1 \<le> length s - Suc i" "valid_utf8 (drop (?n - 1) (drop (Suc i) s))"
    using assms(2) unfolding d by (auto simp: Let_def)
  moreover have "?n - 1 + Suc i = i + ?n" using \<open>0 < ?n\<close> by simp
  ultimately show ?thesis using assms(1) by (auto simp: ac_simps)
qed

end
