(* ===== verification/Diagnostic.thy ===== *)
theory Diagnostic
  imports Ast Utf8
begin

text \<open>
  Diagnostics and their rendering (\<open>src/diagnostic.rs\<close>): positions in a source text, the
  underlined source line, the JSON form, and the map from offsets of a multi-file build back
  to files. A function that slices the source returns \<open>Inl Panic\<close> where Rust panics.
\<close>

type_synonym 'a panicky = "(unit, 'a) res"

record diagnostic =
  d_span :: span
  d_message :: string
  d_related :: "(span \<times> string) list"

definition diagnostic_new :: "span \<Rightarrow> string \<Rightarrow> diagnostic" where
  "diagnostic_new sp msg = \<lparr>d_span = sp, d_message = msg, d_related = []\<rparr>"

definition with_related :: "diagnostic \<Rightarrow> span \<Rightarrow> string \<Rightarrow> diagnostic" where
  "with_related d sp note = d\<lparr>d_related := d_related d @ [(sp, note)]\<rparr>"

abbreviation newline_char :: char where
  "newline_char \<equiv> CHR 0x0A"

section \<open>Positions\<close>

text \<open>The loop over the bytes before the offset: the line number and where the line starts.\<close>

fun scan_lines :: "string \<Rightarrow> nat \<Rightarrow> nat \<Rightarrow> nat \<times> nat \<Rightarrow> nat \<times> nat" where
  "scan_lines [] index clamped acc = acc"
| "scan_lines (b # bs) index clamped (line_number, line_start) =
     (if clamped \<le> index then (line_number, line_start)
      else scan_lines bs (index + 1) clamped
             (if b = newline_char then (line_number + 1, index + 1) else (line_number, line_start)))"

definition find_byte :: "char \<Rightarrow> string \<Rightarrow> nat option" where
  "find_byte c s = (let k = length (takeWhile (\<lambda>b. b \<noteq> c) s) in if k < length s then Some k else None)"

text \<open>Line number, column number, start and end of the line.\<close>

definition line_info :: "string \<Rightarrow> nat \<Rightarrow> (nat \<times> nat \<times> nat \<times> nat) panicky" where
  "line_info source offset =
     (let clamped = min offset (length source);
          (line_number, line_start) = scan_lines source 0 clamped (1, 0) in
      bindE (slice source line_start (length source)) (\<lambda>rest.
      let line_end = (case find_byte newline_char rest of Some r \<Rightarrow> line_start + r | None \<Rightarrow> length source) in
      bindE (slice source line_start clamped) (\<lambda>before.
      Inr (line_number, char_count before + 1, line_start, line_end))))"

section \<open>Underlined source lines\<close>

definition repeat_char :: "char \<Rightarrow> nat \<Rightarrow> string" where
  "repeat_char c n = replicate n c"

text \<open>The part both renderers share: the header, the line, the underline.\<close>

definition render_at :: "string \<Rightarrow> string \<Rightarrow> nat \<Rightarrow> nat \<Rightarrow> string \<Rightarrow> string \<Rightarrow> string panicky" where
  "render_at path source start endp level message =
     bindE (line_info source start) (\<lambda>(line_number, column_number, line_start, line_end).
     bindE (slice source line_start line_end) (\<lambda>line.
     let span_start_byte = max (min start line_end) line_start;
         span_end_byte = max (min endp line_end) span_start_byte in
     bindE (slice source line_start span_start_byte) (\<lambda>before.
     bindE (slice source span_start_byte span_end_byte) (\<lambda>marked.
     Inr (path @ '':'' @ show_nat line_number @ '':'' @ show_nat column_number @ '': '' @ level @ '': '' @ message @
          [newline_char] @ line @ [newline_char] @
          repeat_char CHR '' '' (char_count before) @ repeat_char CHR ''^'' (max (char_count marked) 1) @
          [newline_char])))))"

definition render_one :: "string \<Rightarrow> string \<Rightarrow> span \<Rightarrow> string \<Rightarrow> string \<Rightarrow> string panicky" where
  "render_one path source sp level message = render_at path source (s_start sp) (s_end sp) level message"

fun render_notes :: "string \<Rightarrow> string \<Rightarrow> (span \<times> string) list \<Rightarrow> string panicky" where
  "render_notes path source [] = Inr []"
| "render_notes path source ((sp, note) # rel) =
     bindE (render_one path source sp ''note'' note) (\<lambda>out.
     bindE (render_notes path source rel) (\<lambda>rest. Inr (out @ rest)))"

fun format_diagnostics :: "string \<Rightarrow> string \<Rightarrow> diagnostic list \<Rightarrow> string panicky" where
  "format_diagnostics path source [] = Inr []"
| "format_diagnostics path source (d # ds) =
     bindE (render_one path source (d_span d) ''error'' (d_message d)) (\<lambda>out.
     bindE (render_notes path source (d_related d)) (\<lambda>notes.
     bindE (format_diagnostics path source ds) (\<lambda>rest. Inr (out @ notes @ rest))))"

section \<open>Files of a build\<close>

record file_entry =
  fe_path :: string
  fe_source :: string
  fe_start :: nat

type_synonym file_map = "file_entry list"

definition map_push :: "file_map \<Rightarrow> string \<Rightarrow> string \<Rightarrow> nat \<Rightarrow> file_map" where
  "map_push m path source start = m @ [\<lparr>fe_path = path, fe_source = source, fe_start = start\<rparr>]"

definition covers :: "file_entry \<Rightarrow> nat \<Rightarrow> bool" where
  "covers e off \<longleftrightarrow> fe_start e \<le> off \<and> off \<le> fe_start e + length (fe_source e)"

definition map_lookup :: "file_map \<Rightarrow> nat \<Rightarrow> (file_entry \<times> nat) option" where
  "map_lookup m off = map_option (\<lambda>e. (e, off - fe_start e)) (find (\<lambda>e. covers e off) (rev m))"

definition end_offset :: "file_map \<Rightarrow> nat" where
  "end_offset m = fold max (map (\<lambda>e. fe_start e + length (fe_source e)) m) 0"

definition extend_with :: "file_map \<Rightarrow> file_map \<Rightarrow> file_map \<times> nat" where
  "extend_with m other =
     (let shift = end_offset m + (if m = [] then 0 else 1) in
      (m @ map (\<lambda>e. e\<lparr>fe_start := fe_start e + shift\<rparr>) other, shift))"

definition render_with_filemap :: "file_map \<Rightarrow> span \<Rightarrow> string \<Rightarrow> string \<Rightarrow> string panicky" where
  "render_with_filemap m sp level message =
     (case map_lookup m (s_start sp) of
        None \<Rightarrow> Inr (''?:?:?: '' @ level @ '': '' @ message @ [newline_char])
      | Some (entry, local_start) \<Rightarrow>
          render_at (fe_path entry) (fe_source entry) local_start
            (min (s_end sp - fe_start entry) (length (fe_source entry))) level message)"

fun render_notes_with_files :: "file_map \<Rightarrow> (span \<times> string) list \<Rightarrow> string panicky" where
  "render_notes_with_files m [] = Inr []"
| "render_notes_with_files m ((sp, note) # rel) =
     bindE (render_with_filemap m sp ''note'' note) (\<lambda>out.
     bindE (render_notes_with_files m rel) (\<lambda>rest. Inr (out @ rest)))"

fun format_diagnostics_with_files :: "file_map \<Rightarrow> diagnostic list \<Rightarrow> string panicky" where
  "format_diagnostics_with_files m [] = Inr []"
| "format_diagnostics_with_files m (d # ds) =
     bindE (render_with_filemap m (d_span d) ''error'' (d_message d)) (\<lambda>out.
     bindE (render_notes_with_files m (d_related d)) (\<lambda>notes.
     bindE (format_diagnostics_with_files m ds) (\<lambda>rest. Inr (out @ notes @ rest))))"

section \<open>JSON\<close>

definition hex_digit :: "nat \<Rightarrow> char" where
  "hex_digit d = (if d < 10 then char_of (48 + d) else char_of (87 + d))"

definition hex4 :: "nat \<Rightarrow> string" where
  "hex4 n = [hex_digit (n div 4096 mod 16), hex_digit (n div 256 mod 16), hex_digit (n div 16 mod 16), hex_digit (n mod 16)]"

text \<open>One byte of the output of \<open>push_json_string\<close>; the bytes of longer characters are kept.\<close>

definition json_escape :: "char \<Rightarrow> string" where
  "json_escape c =
     (if c = CHR 0x22 then [CHR 0x5C, CHR 0x22]
      else if c = CHR 0x5C then [CHR 0x5C, CHR 0x5C]
      else if c = CHR 0x0A then [CHR 0x5C, CHR ''n'']
      else if c = CHR 0x0D then [CHR 0x5C, CHR ''r'']
      else if c = CHR 0x09 then [CHR 0x5C, CHR ''t'']
      else if byte c < 32 then CHR 0x5C # CHR ''u'' # hex4 (byte c)
      else [c])"

definition json_string :: "string \<Rightarrow> string" where
  "json_string s = CHR 0x22 # concat (map json_escape s) @ [CHR 0x22]"

abbreviation quoted :: "string \<Rightarrow> string" where
  "quoted s \<equiv> CHR 0x22 # s @ [CHR 0x22]"

definition json_position :: "nat \<Rightarrow> nat \<Rightarrow> nat \<Rightarrow> nat \<Rightarrow> string" where
  "json_position ls cs le ce =
     '','' @ quoted ''line'' @ '':'' @ show_nat ls @ '','' @ quoted ''col'' @ '':'' @ show_nat cs @
     '','' @ quoted ''end_line'' @ '':'' @ show_nat le @ '','' @ quoted ''end_col'' @ '':'' @ show_nat ce"

definition emit_span_json :: "string \<Rightarrow> string \<Rightarrow> span \<Rightarrow> string panicky" where
  "emit_span_json path source sp =
     bindE (line_info source (s_start sp)) (\<lambda>(line_start, col_start, _, _).
     bindE (line_info source (s_end sp)) (\<lambda>(line_end, col_end, _, _).
     Inr (''{'' @ quoted ''file'' @ '':'' @ json_string path @ json_position line_start col_start line_end col_end @ ''}'')))"

definition emit_span_json_with_map :: "file_map \<Rightarrow> span \<Rightarrow> string panicky" where
  "emit_span_json_with_map m sp =
     (case map_lookup m (s_start sp) of
        Some (entry, local_start) \<Rightarrow>
          bindE (line_info (fe_source entry) local_start) (\<lambda>(line_start, col_start, _, _).
          bindE (line_info (fe_source entry) (min (s_end sp - fe_start entry) (length (fe_source entry))))
            (\<lambda>(line_end, col_end, _, _).
          Inr (''{'' @ quoted ''file'' @ '':'' @ json_string (fe_path entry) @
               json_position line_start col_start line_end col_end @ ''}'')))
      | None \<Rightarrow> Inr (''{'' @ quoted ''file'' @ '':null}''))"

text \<open>The two JSON forms differ in how a span is written, the argument \<open>emit\<close>.\<close>

fun emit_related :: "(span \<Rightarrow> string panicky) \<Rightarrow> (span \<times> string) list \<Rightarrow> (string list) panicky" where
  "emit_related emit [] = Inr []"
| "emit_related emit ((sp, note) # rel) =
     bindE (emit sp) (\<lambda>s.
     bindE (emit_related emit rel) (\<lambda>rest.
     Inr ((''{'' @ quoted ''message'' @ '':'' @ json_string note @ '','' @ quoted ''span'' @ '':'' @ s @ ''}'') # rest)))"

definition emit_diagnostic :: "(span \<Rightarrow> string panicky) \<Rightarrow> diagnostic \<Rightarrow> string panicky" where
  "emit_diagnostic emit d =
     bindE (emit (d_span d)) (\<lambda>primary.
     bindE (emit_related emit (d_related d)) (\<lambda>rel.
     Inr (''{'' @ quoted ''level'' @ '':'' @ quoted ''error'' @ '','' @ quoted ''message'' @ '':'' @ json_string (d_message d) @
          '','' @ quoted ''primary'' @ '':'' @ primary @
          (if d_related d = [] then []
           else '','' @ quoted ''related'' @ '':['' @ join_with '','' rel @ '']'') @ ''}'')))"

definition emit_diagnostics :: "(span \<Rightarrow> string panicky) \<Rightarrow> diagnostic list \<Rightarrow> string panicky" where
  "emit_diagnostics emit ds =
     bindE (mapE (emit_diagnostic emit) ds) (\<lambda>outs.
     Inr (''{'' @ quoted ''diagnostics'' @ '':['' @ join_with '','' outs @ '']}'' @ [newline_char]))"

definition emit_diagnostic_json :: "string \<Rightarrow> string \<Rightarrow> diagnostic \<Rightarrow> string panicky" where
  "emit_diagnostic_json path source = emit_diagnostic (emit_span_json path source)"

definition format_diagnostics_json :: "string \<Rightarrow> string \<Rightarrow> diagnostic list \<Rightarrow> string panicky" where
  "format_diagnostics_json path source = emit_diagnostics (emit_span_json path source)"

definition emit_diagnostic_json_with_map :: "file_map \<Rightarrow> diagnostic \<Rightarrow> string panicky" where
  "emit_diagnostic_json_with_map m = emit_diagnostic (emit_span_json_with_map m)"

definition format_diagnostics_json_with_files :: "file_map \<Rightarrow> diagnostic list \<Rightarrow> string panicky" where
  "format_diagnostics_json_with_files m = emit_diagnostics (emit_span_json_with_map m)"

end
