(* ===== verification/Lexer.thy ===== *)
theory Lexer
  imports Diagnostic
begin

text \<open>
  The lexer (\<open>src/lexer.rs\<close>): the byte scanner, the keyword tables in both scripts, the two
  passes that merge words into one keyword, the check that a file keeps to one script, and
  the separate scan for comments. Positions are byte offsets. The parser of floating-point
  literals of the standard library is the argument \<open>pf\<close>.
\<close>

type_synonym 'a lexed = "(diagnostic, 'a) res"

abbreviation lex_fail :: "nat \<Rightarrow> nat \<Rightarrow> string \<Rightarrow> 'a lexed" where
  "lex_fail s e msg \<equiv> Inl (Fail (diagnostic_new (span_new s e) msg))"

section \<open>Tokens\<close>

text \<open>
  \<open>TokenKind\<close>, in groups: the keywords that give a program its structure, the other reserved
  words, punctuation and operators, and the tokens with a payload.
\<close>

datatype keyword =
    KwFn | KwPure | KwExtern | KwParallel | KwReduce | KwWith | KwTask | KwJoin | KwLet | KwReturn
  | KwIf | KwElse | KwWhile | KwBreak | KwContinue | KwMut | KwFor | KwIn | KwRef | KwStruct
  | KwEnum | KwMatch | KwThen | KwInterface | KwImplement | KwWhere | KwIs | KwConst | KwType
  | KwMethods | KwFrom | KwTo | KwIntent | KwUse | KwRequires | KwEnsures | KwInvariant | KwAssert
  | KwProve | KwPrint | KwTry | KwModule | KwPub

datatype word_token =
    WMin | WMax | WLen | WAs | WTrue | WFalse | WI8 | WI16 | WI32 | WI64 | WU8 | WU16 | WU32 | WU64
  | WF32 | WF64 | WBool | WVec

datatype punct =
    PDotDot | PDot | PLParen | PRParen | PLBrace | PRBrace | PLBracket | PRBracket | PColon
  | PColonColon | PSemicolon | PComma | PPlus | PMinus | PStar | PSlash | PPercent | PBang | PEqual
  | PEqEq | PBangEq | PLess | PLessEq | PLessLess | PGreater | PGreaterEq | PGreaterGreater | PAmp
  | PAndAnd | PPipe | POrOr | PCaret | PHash | PArrow

datatype token_kind =
    TkIdent string
  | TkInt int
  | TkFloat f64
  | TkStr string
  | TkKw keyword
  | TkWord word_token
  | TkPunct punct
  | TkEof

record token =
  tk_kind :: token_kind
  tk_span :: span

abbreviation tok :: "token_kind \<Rightarrow> nat \<Rightarrow> nat \<Rightarrow> token" where
  "tok k s e \<equiv> \<lparr>tk_kind = k, tk_span = span_new s e\<rparr>"

text \<open>The characters of the Devanagari block (U+0900 to U+097F), by their offset in it.\<close>

definition deva_char :: "nat \<Rightarrow> string" where
  "deva_char n = [CHR 0xE0, char_of (0xA4 + n div 64), char_of (0x80 + n mod 64)]"

definition deva :: "nat list \<Rightarrow> string" where
  "deva ns = concat (map deva_char ns)"

definition ident_keywords :: "(string \<times> token_kind) list" where
  "ident_keywords = [
    (''fn'', TkKw KwFn), (''pure'', TkKw KwPure), (''extern'', TkKw KwExtern), (''parallel'', TkKw KwParallel),
    (''reduce'', TkKw KwReduce), (''with'', TkKw KwWith), (''task'', TkKw KwTask), (''join'', TkKw KwJoin),
    (''let'', TkKw KwLet),
    (''assign'', TkKw KwLet), (''return'', TkKw KwReturn), (''give'', TkKw KwReturn),
    (''give_back'', TkKw KwReturn),
    (''if'', TkKw KwIf), (''else'', TkKw KwElse), (''while'', TkKw KwWhile), (''break'', TkKw KwBreak),
    (''continue'', TkKw KwContinue), (''mut'', TkKw KwMut), (''for'', TkKw KwFor), (''in'', TkKw KwIn),
    (''ref'', TkKw KwRef),
    (''from'', TkKw KwFrom), (''to'', TkKw KwTo), (''struct'', TkKw KwStruct), (''record'', TkKw KwStruct),
    (''enum'', TkKw KwEnum),
    (''match'', TkKw KwMatch), (''then'', TkKw KwThen), (''interface'', TkKw KwInterface),
    (''trait'', TkKw KwInterface),
    (''implement'', TkKw KwImplement), (''impl'', TkKw KwImplement), (''module'', TkKw KwModule),
    (''mod'', TkKw KwModule),
    (''pub'', TkKw KwPub), (''public'', TkKw KwPub), (''where'', TkKw KwWhere), (''is'', TkKw KwIs),
    (''const'', TkKw KwConst),
    (''type'', TkKw KwType), (''methods'', TkKw KwMethods), (''intent'', TkKw KwIntent), (''use'', TkKw KwUse),
    (''requires'', TkKw KwRequires), (''ensures'', TkKw KwEnsures), (''invariant'', TkKw KwInvariant),
    (''assert'', TkKw KwAssert), (''prove'', TkKw KwProve), (''print'', TkKw KwPrint),
    (''write'', TkKw KwPrint),
    (''try'', TkKw KwTry), (''len'', TkWord WLen), (''as'', TkWord WAs), (''true'', TkWord WTrue),
    (''false'', TkWord WFalse),
    (''returns'', TkPunct PArrow), (''yields'', TkPunct PArrow), (''i8'', TkWord WI8),
    (''i16'', TkWord WI16), (''i32'', TkWord WI32),
    (''i64'', TkWord WI64), (''u8'', TkWord WU8), (''u16'', TkWord WU16), (''u32'', TkWord WU32),
    (''u64'', TkWord WU64),
    (''f32'', TkWord WF32), (''f64'', TkWord WF64), (''bool'', TkWord WBool), (''Vec'', TkWord WVec)]"

definition devanagari_keywords :: "(string \<times> token_kind) list" where
  "devanagari_keywords = [
    (deva [0x2b, 0x32, 0x28], TkKw KwFn), (deva [0x15, 0x3e, 0x30, 0x4d, 0x2f], TkKw KwFn),
    (deva [0x2e, 0x3e, 0x28], TkKw KwLet), (deva [0x2e, 0x3e, 0x28, 0x3e], TkKw KwLet),
    (deva [0x2a, 0x30, 0x24], TkKw KwReturn), (deva [0x32, 0x4c, 0x1f, 0x3e, 0x13], TkKw KwReturn),
    (deva [0x2a, 0x41, 0x28, 0x30, 0x3e, 0x17, 0x2e], TkKw KwReturn), (deva [0x2f, 0x26, 0x3f], TkKw KwIf),
    (deva [0x05, 0x17, 0x30], TkKw KwIf), (deva [0x1c, 0x30], TkKw KwIf),
    (deva [0x05, 0x28, 0x4d, 0x2f, 0x25, 0x3e], TkKw KwElse), (deva [0x35, 0x30, 0x28, 0x3e], TkKw KwElse),
    (deva [0x28, 0x3e, 0x39, 0x40, 0x24, 0x30], TkKw KwElse),
    (deva [0x2f, 0x3e, 0x35, 0x24, 0x4d], TkKw KwWhile),
    (deva [0x1c, 0x2c, 0x24, 0x15], TkKw KwWhile),
    (deva [0x1c, 0x4b, 0x2a, 0x30, 0x4d, 0x2f, 0x02, 0x24], TkKw KwWhile),
    (deva [0x2a, 0x4d, 0x30, 0x24, 0x3f], TkKw KwFor), (deva [0x38, 0x3e, 0x20, 0x40], TkKw KwFor),
    (deva [0x24, 0x26, 0x3e], TkKw KwThen), (deva [0x24, 0x4b], TkKw KwThen), (deva [0x24, 0x30], TkKw KwThen),
    (deva [0x2a, 0x39, 0x3e], TkKw KwRef), (deva [0x26, 0x47, 0x16, 0x4b], TkKw KwRef),
    (deva [0x2c, 0x26, 0x32], TkKw KwMut),
    (deva [0x2a, 0x30, 0x3f, 0x35, 0x30, 0x4d, 0x24, 0x28, 0x40, 0x2f], TkKw KwMut),
    (deva [0x1c, 0x41, 0x33, 0x35, 0x3e], TkKw KwMatch), (deva [0x2e, 0x3f, 0x32, 0x3e, 0x28], TkKw KwMatch),
    (deva [0x2e, 0x47, 0x32], TkKw KwMatch), (deva [0x16, 0x3e, 0x24, 0x4d, 0x30, 0x40], TkKw KwAssert),
    (deva [0x38, 0x41, 0x28, 0x3f, 0x36, 0x4d, 0x1a, 0x3f, 0x24], TkKw KwAssert),
    (deva [0x38, 0x3f, 0x26, 0x4d, 0x27, 0x2e, 0x4d], TkKw KwAssert),
    (deva [0x38, 0x3f, 0x26, 0x4d, 0x27], TkKw KwProve),
    (deva [0x2a, 0x4d, 0x30, 0x2e, 0x3e, 0x23], TkKw KwProve),
    (deva [0x2a, 0x4d, 0x30, 0x2e, 0x3e, 0x23, 0x3f, 0x24], TkKw KwProve),
    (deva [0x26, 0x30, 0x4d, 0x36, 0x3e, 0x13], TkKw KwProve),
    (deva [0x26, 0x3e, 0x16, 0x35, 0x3e], TkKw KwProve),
    (deva [0x05, 0x2a, 0x47, 0x15, 0x4d, 0x37, 0x3f, 0x24], TkKw KwRequires),
    (deva [0x1a, 0x3e, 0x39, 0x3f, 0x0f], TkKw KwRequires),
    (deva [0x2a, 0x3e, 0x39, 0x3f, 0x1c, 0x47], TkKw KwRequires),
    (deva [0x28, 0x3f, 0x36, 0x4d, 0x1a, 0x3f, 0x24], TkKw KwEnsures),
    (deva [0x38, 0x41, 0x28, 0x3f, 0x36, 0x4d, 0x1a, 0x2f, 0x3f, 0x24], TkKw KwEnsures),
    (deva [0x38, 0x24, 0x4d, 0x2f], TkWord WTrue), (deva [0x38, 0x39, 0x40], TkWord WTrue),
    (deva [0x05, 0x38, 0x24, 0x4d, 0x2f], TkWord WFalse),
    (deva [0x05, 0x36, 0x41, 0x26, 0x4d, 0x27], TkWord WFalse),
    (deva [0x32, 0x3f, 0x16], TkKw KwPrint), (deva [0x32, 0x3f, 0x16, 0x4b], TkKw KwPrint),
    (deva [0x36, 0x41, 0x26, 0x4d, 0x27], TkKw KwPure),
    (deva [0x38, 0x02, 0x30, 0x1a, 0x28, 0x3e], TkKw KwStruct),
    (deva [0x35, 0x3f, 0x15, 0x32, 0x4d, 0x2a], TkKw KwEnum), (deva [0x17, 0x23, 0x28], TkKw KwEnum),
    (deva [0x38, 0x4d, 0x25, 0x3f, 0x30], TkKw KwConst), (deva [0x28, 0x3f, 0x2f, 0x24], TkKw KwConst),
    (deva [0x35, 0x3f, 0x30, 0x3e, 0x2e], TkKw KwBreak), (deva [0x30, 0x41, 0x15, 0x4b], TkKw KwBreak),
    (deva [0x25, 0x3e, 0x02, 0x2c], TkKw KwBreak), (deva [0x05, 0x17, 0x4d, 0x30, 0x47], TkKw KwContinue),
    (deva [0x2a, 0x41, 0x22, 0x47], TkKw KwContinue), (deva [0x06, 0x17, 0x47], TkKw KwContinue),
    (deva [0x2e, 0x47, 0x02], TkKw KwIn), (deva [0x38, 0x47], TkKw KwFrom), (deva [0x24, 0x15], TkKw KwTo),
    (deva [0x38, 0x02, 0x15, 0x4d, 0x37, 0x47, 0x2a], TkKw KwReduce), (deva [0x38, 0x39], TkKw KwWith),
    (deva [0x38, 0x2e, 0x3e, 0x28, 0x3e, 0x02, 0x24, 0x30], TkKw KwParallel),
    (deva [0x09, 0x2a, 0x2f, 0x4b, 0x17], TkKw KwUse), (deva [0x16, 0x23, 0x4d, 0x21], TkKw KwModule),
    (deva [0x2e, 0x49, 0x21, 0x4d, 0x2f, 0x42, 0x32], TkKw KwModule),
    (deva [0x38, 0x3e, 0x30, 0x4d, 0x35, 0x1c, 0x28, 0x3f, 0x15], TkKw KwPub),
    (deva [0x2f, 0x25, 0x3e], TkWord WAs),
    (deva [0x38, 0x02, 0x15, 0x47, 0x24], TkKw KwInterface),
    (deva [0x05, 0x02, 0x24, 0x30, 0x3e, 0x2a, 0x43, 0x37, 0x4d, 0x20], TkKw KwInterface),
    (deva [0x15, 0x3e, 0x30, 0x4d, 0x2f, 0x3e, 0x28, 0x4d, 0x35, 0x3f, 0x24], TkKw KwImplement),
    (deva [0x35, 0x3f, 0x27, 0x3f], TkKw KwMethods), (deva [0x1c, 0x39, 0x3e, 0x01], TkKw KwWhere),
    (deva [0x2f, 0x24, 0x4d, 0x30], TkKw KwWhere), (deva [0x1c, 0x3f, 0x25, 0x47], TkKw KwWhere),
    (deva [0x39, 0x48], TkKw KwIs), (deva [0x05, 0x38, 0x4d, 0x24, 0x3f], TkKw KwIs),
    (deva [0x06, 0x39, 0x47], TkKw KwIs), (deva [0x2a, 0x4d, 0x30, 0x2f, 0x3e, 0x38], TkKw KwTry),
    (deva [0x28, 0x3f, 0x2f, 0x4b, 0x17], TkKw KwTask),
    (deva [0x38, 0x02, 0x2f, 0x4b, 0x1c, 0x28], TkKw KwJoin)]"

definition multi_word_keywords :: "(string \<times> token_kind) list" where
  "multi_word_keywords = [
    (deva [0x28, 0x39, 0x40, 0x02] @ '' '' @ deva [0x24, 0x4b], TkKw KwElse),
    (deva [0x15, 0x47] @ '' '' @ deva [0x32, 0x3f, 0x0f], TkKw KwFor),
    (deva [0x38, 0x3f, 0x26, 0x4d, 0x27] @ '' '' @ deva [0x15, 0x30, 0x4b], TkKw KwProve),
    (deva [0x38, 0x3f, 0x26, 0x4d, 0x27] @ '' '' @ deva [0x15, 0x30, 0x3e], TkKw KwProve),
    (deva [0x38, 0x2e, 0x3e, 0x28, 0x4d, 0x24, 0x30] @ '' '' @ deva [0x2a, 0x4d, 0x30, 0x24, 0x3f], TkKw KwParallel)]"
definition devanagari_keyword :: "string \<Rightarrow> token_kind option" where
  "devanagari_keyword text = map_of devanagari_keywords text"

definition multi_word_devanagari_keyword :: "string \<Rightarrow> token_kind option" where
  "multi_word_devanagari_keyword text = map_of multi_word_keywords text"

fun is_structure_keyword_kind :: "token_kind \<Rightarrow> bool" where
  "is_structure_keyword_kind (TkKw _) = True"
| "is_structure_keyword_kind _ = False"

section \<open>Scanning\<close>

definition peek :: "string \<Rightarrow> nat \<Rightarrow> char option" where
  "peek src pos = (if pos < length src then Some (src ! pos) else None)"

text \<open>The loops that advance while the next byte satisfies a test.\<close>

function skip_while :: "(char \<Rightarrow> bool) \<Rightarrow> string \<Rightarrow> nat \<Rightarrow> nat" where
  "skip_while P src pos = (if pos < length src \<and> P (src ! pos) then skip_while P src (pos + 1) else pos)"
  by auto

termination
  by (relation "measure (\<lambda>(P, src, pos). length src - pos)") auto

declare skip_while.simps [simp del]

definition next_is :: "(char \<Rightarrow> bool) \<Rightarrow> string \<Rightarrow> nat \<Rightarrow> bool" where
  "next_is P src pos \<longleftrightarrow> (case peek src pos of Some c \<Rightarrow> P c | None \<Rightarrow> False)"

definition ident_start :: "char \<Rightarrow> bool" where
  "ident_start c \<longleftrightarrow> (97 \<le> byte c \<and> byte c \<le> 122) \<or> (65 \<le> byte c \<and> byte c \<le> 90) \<or> c = CHR ''_''"

definition ident_char :: "char \<Rightarrow> bool" where
  "ident_char c \<longleftrightarrow> ident_start c \<or> is_digit_char c"

definition digit_or_underscore :: "char \<Rightarrow> bool" where
  "digit_or_underscore c \<longleftrightarrow> is_digit_char c \<or> c = CHR ''_''"

definition skip_line_comment :: "string \<Rightarrow> nat \<Rightarrow> nat" where
  "skip_line_comment src pos = skip_while (\<lambda>c. c \<noteq> newline_char) src pos"

section \<open>Numbers\<close>

definition strip_underscores :: "string \<Rightarrow> string" where
  "strip_underscores text = filter (\<lambda>c. c \<noteq> CHR ''_'') text"

definition digit_in :: "nat \<Rightarrow> char \<Rightarrow> nat option" where
  "digit_in radix c =
     (let v = (if is_digit_char c then byte c - 48
               else if 97 \<le> byte c \<and> byte c \<le> 122 then byte c - 87
               else if 65 \<le> byte c \<and> byte c \<le> 90 then byte c - 55 else radix)
      in if v < radix then Some v else None)"

definition is_digit_for_radix :: "char \<Rightarrow> nat \<Rightarrow> bool" where
  "is_digit_for_radix c radix \<longleftrightarrow> digit_in radix c \<noteq> None"

text \<open>\<open>i128::from_str_radix\<close> on unsigned digits: \<open>None\<close> for the empty string and on overflow.\<close>

fun digits_value :: "nat \<Rightarrow> nat \<Rightarrow> string \<Rightarrow> nat option" where
  "digits_value radix acc [] = Some acc"
| "digits_value radix acc (c # cs) =
     (case digit_in radix c of None \<Rightarrow> None | Some d \<Rightarrow> digits_value radix (acc * radix + d) cs)"

definition parse_i128 :: "nat \<Rightarrow> string \<Rightarrow> int option" where
  "parse_i128 radix s =
     (if s = [] then None
      else case digits_value radix 0 s of
             Some n \<Rightarrow> if i128_fits (int n) then Some (int n) else None
           | None \<Rightarrow> None)"

definition f64_is_finite :: "f64 \<Rightarrow> bool" where
  "f64_is_finite v \<longleftrightarrow> v AND 0x7FF0000000000000 \<noteq> 0x7FF0000000000000"

definition lex_radix_int :: "string \<Rightarrow> nat \<Rightarrow> nat \<Rightarrow> (token \<times> nat) lexed" where
  "lex_radix_int src start pos =
     (let prefix = src ! pos; digits_start = pos + 1;
          (radix, name) = (if prefix \<in> {CHR ''x'', CHR ''X''} then (16, ''hex'')
                           else if prefix \<in> {CHR ''b'', CHR ''B''} then (2, ''binary'') else (8, ''octal''));
          pos = skip_while (\<lambda>c. c = CHR ''_'' \<or> is_digit_for_radix c radix) src digits_start in
      if pos = digits_start
      then lex_fail start pos (''expected '' @ name @ '' digits after '' @ [CHR 0x27] @ ''0'' @ [prefix] @ [CHR 0x27] @ '' prefix'')
      else bindE (slice src digits_start pos) (\<lambda>digits.
           case parse_i128 radix (strip_underscores digits) of
             Some v \<Rightarrow> Inr (tok (TkInt v) start pos, pos)
           | None \<Rightarrow> bindE (slice src start pos) (\<lambda>raw.
               lex_fail start pos (name @ '' integer literal '' @ [CHR 0x27] @ raw @ [CHR 0x27] @ '' does not fit in i128''))))"

definition lex_fraction :: "string \<Rightarrow> nat \<Rightarrow> bool \<times> nat" where
  "lex_fraction src pos =
     (if next_is (\<lambda>c. c = CHR ''.'') src pos \<and> next_is is_digit_char src (pos + 1)
      then (True, skip_while digit_or_underscore src (pos + 1)) else (False, pos))"

definition lex_exponent :: "string \<Rightarrow> bool \<times> nat \<Rightarrow> (bool \<times> nat) lexed" where
  "lex_exponent src st = (case st of (float_lit, pos) \<Rightarrow>
     (if next_is (\<lambda>c. c \<in> {CHR ''e'', CHR ''E''}) src pos
      then (let exponent_start = pos;
                pos = (if next_is (\<lambda>c. c \<in> {CHR ''+'', CHR ''-''}) src (pos + 1) then pos + 2 else pos + 1) in
            if next_is is_digit_char src pos then Inr (True, skip_while digit_or_underscore src pos)
            else lex_fail exponent_start pos ''expected digits after float exponent'')
      else Inr (float_lit, pos)))"

definition quote_in :: "string \<Rightarrow> string \<Rightarrow> string \<Rightarrow> string" where
  "quote_in a raw b = a @ [CHR 0x27] @ raw @ [CHR 0x27] @ b"

definition finish_number :: "(string \<Rightarrow> f64 option) \<Rightarrow> string \<Rightarrow> nat \<Rightarrow> bool \<times> nat \<Rightarrow> (token \<times> nat) lexed" where
  "finish_number pf src start st = (case st of (float_lit, pos) \<Rightarrow>
     bindE (slice src start pos) (\<lambda>raw.
     let cleaned = strip_underscores raw in
     if float_lit then
       (case pf cleaned of
          None \<Rightarrow> lex_fail start pos (quote_in ''float literal '' raw '' cannot be parsed'')
        | Some v \<Rightarrow> if f64_is_finite v then Inr (tok (TkFloat v) start pos, pos)
                    else lex_fail start pos (quote_in ''float literal '' raw '' is not finite''))
     else
       (case parse_i128 10 cleaned of
          None \<Rightarrow> lex_fail start pos (quote_in ''integer literal '' raw '' does not fit in i128'')
        | Some v \<Rightarrow> Inr (tok (TkInt v) start pos, pos))))"

definition lex_number :: "(string \<Rightarrow> f64 option) \<Rightarrow> string \<Rightarrow> nat \<Rightarrow> nat \<Rightarrow> (token \<times> nat) lexed" where
  "lex_number pf src start pos =
     (if src ! start = CHR ''0'' \<and>
         next_is (\<lambda>c. c \<in> {CHR ''x'', CHR ''X'', CHR ''b'', CHR ''B'', CHR ''o'', CHR ''O''}) src pos
      then lex_radix_int src start pos
      else bindE (lex_exponent src (lex_fraction src (skip_while digit_or_underscore src pos)))
             (finish_number pf src start))"

text \<open>The digits U+0966 to U+096F: \<open>E0 A5\<close> and a byte from \<open>A6\<close> to \<open>AF\<close>.\<close>

definition deva_digit_byte :: "char \<Rightarrow> bool" where
  "deva_digit_byte c \<longleftrightarrow> 0xA6 \<le> byte c \<and> byte c \<le> 0xAF"

function skip_deva_digits :: "string \<Rightarrow> nat \<Rightarrow> nat" where
  "skip_deva_digits src pos =
     (if next_is (\<lambda>c. c = CHR 0xE0) src pos \<and> next_is (\<lambda>c. c = CHR 0xA5) src (pos + 1) \<and> next_is deva_digit_byte src (pos + 2)
      then skip_deva_digits src (pos + 3) else pos)"
  by auto

termination
  by (relation "measure (\<lambda>(src, pos). length src - pos)") (auto simp: next_is_def peek_def split: if_splits)

declare skip_deva_digits.simps [simp del]

definition deva_to_ascii :: "string \<Rightarrow> char lexed" where
  "deva_to_ascii ch = (if code_point ch < 0x966 then Inl Panic else Inr (char_of (48 + (code_point ch - 0x966))))"

definition lex_devanagari_number :: "string \<Rightarrow> nat \<Rightarrow> nat \<Rightarrow> (token \<times> nat) lexed" where
  "lex_devanagari_number src start pos =
     (let pos = skip_deva_digits src (pos + 2) in
      bindE (slice src start pos) (\<lambda>raw.
      bindE (mapE deva_to_ascii (chars raw)) (\<lambda>ascii_digits.
      case parse_i128 10 ascii_digits of
        None \<Rightarrow> lex_fail start pos (''invalid Devanagari integer '' @ [CHR 0x27] @ raw @ [CHR 0x27])
      | Some v \<Rightarrow> Inr (tok (TkInt v) start pos, pos))))"

section \<open>Identifiers\<close>

definition lex_unicode_ident :: "string \<Rightarrow> nat \<Rightarrow> nat \<Rightarrow> (token \<times> nat) lexed" where
  "lex_unicode_ident src start pos =
     (let pos = skip_while (\<lambda>c. ident_char c \<or> \<not> ascii c) src pos in
      bindE (slice src start pos) (\<lambda>text.
      Inr (tok (case devanagari_keyword text of Some k \<Rightarrow> k | None \<Rightarrow> TkIdent text) start pos, pos)))"

definition ident_kind :: "string \<Rightarrow> token_kind" where
  "ident_kind text = (case map_of ident_keywords text of Some k \<Rightarrow> k | None \<Rightarrow> TkIdent text)"

definition lex_ident :: "string \<Rightarrow> nat \<Rightarrow> nat \<Rightarrow> (token \<times> nat) lexed" where
  "lex_ident src start pos =
     (let pos = skip_while ident_char src pos in
      bindE (slice src start pos) (\<lambda>text. Inr (tok (ident_kind text) start pos, pos)))"

section \<open>Strings\<close>

definition escape_char :: "char \<Rightarrow> char option" where
  "escape_char c = map_of [(CHR 0x22, CHR 0x22), (CHR 0x5C, CHR 0x5C), (CHR ''n'', CHR 0x0A), (CHR ''t'', CHR 0x09),
     (CHR ''r'', CHR 0x0D), (CHR ''0'', CHR 0x00)] c"

text \<open>A byte cast to a character, as the messages print it.\<close>

definition byte_as_char :: "char \<Rightarrow> string" where
  "byte_as_char c = (if ascii c then [c] else [char_of (192 + byte c div 64), char_of (128 + byte c mod 64)])"

text \<open>
  One turn of the loop over the body of a string: \<open>None\<close> at the closing quote, or how many
  bytes it moves on and what it pushes.
\<close>

definition string_step :: "string \<Rightarrow> nat \<Rightarrow> nat \<Rightarrow> (nat \<times> string) option lexed" where
  "string_step src start pos =
     (case peek src pos of
        None \<Rightarrow> lex_fail start pos ''unterminated string literal''
      | Some b \<Rightarrow>
          if b = CHR 0x22 then Inr None
          else if b = CHR 0x5C then
            (case peek src (pos + 1) of
               None \<Rightarrow> lex_fail start (pos + 1) ''unterminated string literal''
             | Some e \<Rightarrow>
                 (case escape_char e of
                    Some c \<Rightarrow> Inr (Some (2, [c]))
                  | None \<Rightarrow> lex_fail (pos + 2 - 2) (pos + 2)
                      (''unknown escape sequence '' @ [CHR 0x27, CHR 0x5C] @ byte_as_char e @ [CHR 0x27])))
          else if b = newline_char then lex_fail start pos ''string literal cannot span lines''
          else if \<not> is_char_boundary src pos then Inl Panic
          else let n = max 1 (utf8_len b) in Inr (Some (n, take n (drop pos src))))"

lemma string_step_moves: "string_step src start pos = Inr (Some (n, s)) \<Longrightarrow> 0 < n \<and> pos < length src"
  by (auto simp: string_step_def peek_def Let_def split: if_splits option.splits)

function lex_string_from :: "string \<Rightarrow> nat \<Rightarrow> nat \<Rightarrow> string \<Rightarrow> (token \<times> nat) lexed" where
  "lex_string_from src start pos val =
     bindE (string_step src start pos) (\<lambda>r. case r of
       None \<Rightarrow> Inr (tok (TkStr val) start (pos + 1), pos + 1)
     | Some (n, s) \<Rightarrow> lex_string_from src start (pos + n) (val @ s))"
  by pat_completeness auto

termination
  by (relation "measure (\<lambda>(src, start, pos, val). length src - pos)") (auto dest: string_step_moves)

declare lex_string_from.simps [simp del]

definition lex_string :: "string \<Rightarrow> nat \<Rightarrow> nat \<Rightarrow> (token \<times> nat) lexed" where
  "lex_string src start pos = lex_string_from src start pos []"

section \<open>Punctuation\<close>

text \<open>The two-byte tokens first, then those of one byte, as the arms of the match are ordered.\<close>

definition two_byte_tokens :: "((char \<times> char) \<times> token_kind) list" where
  "two_byte_tokens = [
    ((CHR '':'', CHR '':''), TkPunct PColonColon), ((CHR ''-'', CHR ''>''), TkPunct PArrow),
    ((CHR ''!'', CHR ''=''), TkPunct PBangEq),
    ((CHR ''='', CHR ''=''), TkPunct PEqEq), ((CHR ''<'', CHR ''<''), TkPunct PLessLess),
    ((CHR ''<'', CHR ''=''), TkPunct PLessEq),
    ((CHR ''>'', CHR ''>''), TkPunct PGreaterGreater), ((CHR ''>'', CHR ''=''), TkPunct PGreaterEq),
    ((CHR ''&'', CHR ''&''), TkPunct PAndAnd), ((CHR ''|'', CHR ''|''), TkPunct POrOr),
    ((CHR ''.'', CHR ''.''), TkPunct PDotDot)]"

definition one_byte_tokens :: "(char \<times> token_kind) list" where
  "one_byte_tokens = [
    (CHR ''('', TkPunct PLParen), (CHR '')'', TkPunct PRParen), (CHR ''{'', TkPunct PLBrace),
    (CHR ''}'', TkPunct PRBrace), (CHR ''['', TkPunct PLBracket), (CHR '']'', TkPunct PRBracket),
    (CHR '':'', TkPunct PColon), (CHR '';'', TkPunct PSemicolon), (CHR '','', TkPunct PComma),
    (CHR ''+'', TkPunct PPlus), (CHR ''-'', TkPunct PMinus), (CHR ''*'', TkPunct PStar),
    (CHR ''/'', TkPunct PSlash), (CHR ''%'', TkPunct PPercent), (CHR ''!'', TkPunct PBang),
    (CHR ''='', TkPunct PEqual), (CHR ''<'', TkPunct PLess), (CHR ''>'', TkPunct PGreater),
    (CHR ''&'', TkPunct PAmp), (CHR ''|'', TkPunct PPipe), (CHR ''^'', TkPunct PCaret),
    (CHR ''.'', TkPunct PDot), (CHR 0x23, TkPunct PHash)]"

definition lex_punct :: "string \<Rightarrow> nat \<Rightarrow> nat \<Rightarrow> (token \<times> nat) lexed" where
  "lex_punct src start pos =
     (case (case peek src pos of Some c \<Rightarrow> map_of two_byte_tokens (src ! start, c) | None \<Rightarrow> None) of
        Some k \<Rightarrow> Inr (tok k start (pos + 1), pos + 1)
      | None \<Rightarrow>
          (case map_of one_byte_tokens (src ! start) of
             Some k \<Rightarrow> Inr (tok k start pos, pos)
           | None \<Rightarrow> lex_fail start (start + 1) (''unexpected character '' @ [CHR 0x27, src ! start, CHR 0x27])))"

section \<open>The lexer\<close>

definition is_space :: "char \<Rightarrow> bool" where
  "is_space c \<longleftrightarrow> c \<in> {CHR '' '', CHR 0x0D, CHR 0x09, CHR 0x0A}"

text \<open>One turn of the main loop: the token it pushes, if any, and the new position.\<close>

definition lex_token :: "(string \<Rightarrow> f64 option) \<Rightarrow> string \<Rightarrow> nat \<Rightarrow> (token list \<times> nat) lexed" where
  "lex_token pf src start =
     (let b = src ! start; pos = start + 1; push = \<lambda>r. bindE r (\<lambda>(t, pos). Inr ([t], pos)) in
      if is_space b then Inr ([], pos)
      else if b = CHR ''/'' \<and> next_is (\<lambda>c. c = CHR ''/'') src pos then Inr ([], skip_line_comment src (pos + 1))
      else if is_digit_char b then push (lex_number pf src start pos)
      else if ident_start b then push (lex_ident src start pos)
      else if \<not> ascii b then
        (if b = CHR 0xE0 \<and> next_is (\<lambda>c. c = CHR 0xA5) src pos \<and> next_is deva_digit_byte src (pos + 1)
         then push (lex_devanagari_number src start pos)
         else push (lex_unicode_ident src start pos))
      else if b = CHR 0x22 then push (lex_string src start pos)
      else push (lex_punct src start pos))"

text \<open>Every turn moves on, so the main loop ends.\<close>

lemma skip_while_ge: "pos \<le> skip_while P src pos"
  by (induction P src pos rule: skip_while.induct) (subst skip_while.simps, auto)

lemmas skip_while_ge' [simp] = skip_while_ge Suc_leD[OF skip_while_ge]

lemma skip_deva_ge: "pos \<le> skip_deva_digits src pos"
  by (induction src pos rule: skip_deva_digits.induct) (subst skip_deva_digits.simps, auto)

lemma lex_string_cases:
  assumes "lex_string_from src start pos val = Inr (t, q)"
  obtains (close) "string_step src start pos = Inr None" "t = tok (TkStr val) start (pos + 1)" "q = pos + 1"
    | (more) n s where "string_step src start pos = Inr (Some (n, s))" "lex_string_from src start (pos + n) (val @ s) = Inr (t, q)"
proof -
  obtain r where r: "string_step src start pos = Inr r"
    "(case r of None \<Rightarrow> Inr (tok (TkStr val) start (pos + 1), pos + 1)
      | Some (n, s) \<Rightarrow> lex_string_from src start (pos + n) (val @ s)) = Inr (t, q)"
    using assms unfolding lex_string_from.simps[of src start pos val] bindE_Inr_iff by (elim exE conjE) (rule that)
  show ?thesis
  proof (cases r)
    case None
    show ?thesis by (rule close) (use r None in auto)
  next
    case (Some x)
    obtain n s where x: "x = (n, s)" by (cases x)
    show ?thesis by (rule more[of n s]) (use r Some x in auto)
  qed
qed

lemma lex_string_ge: "lex_string_from src start pos val = Inr (t, q) \<Longrightarrow> pos \<le> q"
proof (induction src start pos val rule: lex_string_from.induct)
  case (1 src start pos val)
  from 1(2) show ?case
  proof (cases rule: lex_string_cases)
    case (more n s)
    then show ?thesis using 1(1)[OF more(1) refl refl] by simp
  qed simp
qed

lemma lex_exponent_ge: "lex_exponent src (f, pos) = Inr (g, q) \<Longrightarrow> pos \<le> q"
  by (auto simp: lex_exponent_def Let_def split: if_splits intro: order_trans[OF _ skip_while_ge])

lemma lex_number_ge:
  assumes "lex_number pf src start pos = Inr (t, q)"
  shows "pos \<le> q"
proof (cases "src ! start = CHR ''0'' \<and> next_is (\<lambda>c. c \<in> {CHR ''x'', CHR ''X'', CHR ''b'', CHR ''B'', CHR ''o'', CHR ''O''}) src pos")
  case True
  then have "lex_radix_int src start pos = Inr (t, q)" using assms by (simp add: lex_number_def)
  then show ?thesis
    by (auto simp: lex_radix_int_def Let_def bindE_Inr_iff split: if_splits option.splits)
next
  case False
  obtain f r where f: "lex_fraction src (skip_while digit_or_underscore src pos) = (f, r)" by fastforce
  have "pos \<le> r" using f skip_while_ge[of pos digit_or_underscore src]
    by (auto simp: lex_fraction_def split: if_splits intro: order_trans[OF _ skip_while_ge'(2)])
  moreover obtain g r' where "lex_exponent src (f, r) = Inr (g, r')" "finish_number pf src start (g, r') = Inr (t, q)"
    using assms[unfolded lex_number_def if_not_P[OF False] f] by (auto simp: bindE_Inr_iff)
  then have "r \<le> r'" "q = r'"
    by (auto simp: finish_number_def bindE_Inr_iff Let_def split: if_splits option.splits dest: lex_exponent_ge)
  ultimately show ?thesis by simp
qed

lemma lex_token_progress:
  assumes "lex_token pf src start = Inr (ts, q)"
  shows "start < q"
proof -
  have "Suc start \<le> q"
    using assms skip_while_ge[of "start + 2" "\<lambda>c. c \<noteq> newline_char" src] skip_while_ge[of "Suc start" ident_char src]
      skip_while_ge[of "Suc start" "\<lambda>c. ident_char c \<or> \<not> ascii c" src] skip_deva_ge[of "Suc start + 2" src]
    by (auto simp: lex_token_def Let_def skip_line_comment_def lex_ident_def lex_unicode_ident_def bindE_Inr_iff
        lex_punct_def lex_devanagari_number_def lex_string_def
        split: if_splits option.splits dest!: lex_number_ge lex_string_ge)
  then show ?thesis by simp
qed

function lex_from :: "(string \<Rightarrow> f64 option) \<Rightarrow> string \<Rightarrow> nat \<Rightarrow> token list \<Rightarrow> token list lexed" where
  "lex_from pf src pos tokens =
     (if length src \<le> pos then Inr (tokens @ [tok TkEof (length src) (length src)])
      else bindE (lex_token pf src pos) (\<lambda>(ts, pos). lex_from pf src pos (tokens @ ts)))"
  by auto

termination
  by (relation "measure (\<lambda>(pf, src, pos, tokens). length src - pos)") (auto dest: lex_token_progress)

declare lex_from.simps [simp del]

section \<open>Merging words\<close>

text \<open>\<open>source.get(start..end)\<close> with only blanks and tabs in it.\<close>

definition whitespace_only :: "string \<Rightarrow> nat \<Rightarrow> nat \<Rightarrow> bool" where
  "whitespace_only src s e =
     (case str_get src s e of Some t \<Rightarrow> list_all (\<lambda>c. c = CHR '' '' \<or> c = CHR 0x09) t | None \<Rightarrow> False)"

definition token_text :: "string \<Rightarrow> token \<Rightarrow> string option" where
  "token_text src t = str_get src (s_start (tk_span t)) (s_end (tk_span t))"

definition has_non_ascii :: "string \<Rightarrow> bool" where
  "has_non_ascii t = list_ex (\<lambda>c. \<not> ascii c) t"

definition multi_word_merge :: "string \<Rightarrow> token \<Rightarrow> token \<Rightarrow> token option" where
  "multi_word_merge src a b =
     (if \<not> whitespace_only src (s_end (tk_span a)) (s_start (tk_span b)) then None
      else case (token_text src a, token_text src b) of
             (Some x, Some y) \<Rightarrow>
               if has_non_ascii x \<and> has_non_ascii y then
                 map_option (\<lambda>k. \<lparr>tk_kind = k, tk_span = span_merge (tk_span a) (tk_span b)\<rparr>)
                   (multi_word_devanagari_keyword (x @ '' '' @ y))
               else None
           | _ \<Rightarrow> None)"

definition is_ident :: "token_kind \<Rightarrow> bool" where
  "is_ident k = (case k of TkIdent _ \<Rightarrow> True | _ \<Rightarrow> False)"

definition give_back_merge :: "string \<Rightarrow> token \<Rightarrow> token \<Rightarrow> token option" where
  "give_back_merge src a b =
     (if tk_kind a = TkKw KwReturn \<and> is_ident (tk_kind b) \<and>
         whitespace_only src (s_end (tk_span a)) (s_start (tk_span b)) \<and>
         token_text src a = Some ''give'' \<and> token_text src b = Some ''back''
      then Some \<lparr>tk_kind = TkKw KwReturn, tk_span = span_merge (tk_span a) (tk_span b)\<rparr> else None)"

text \<open>The loop of both passes: a merged pair takes the place of its first token and is looked at again.\<close>

fun merge_pairs :: "(token \<Rightarrow> token \<Rightarrow> token option) \<Rightarrow> token list \<Rightarrow> token list" where
  "merge_pairs m (a # b # ts) =
     (case m a b of Some c \<Rightarrow> merge_pairs m (c # ts) | None \<Rightarrow> a # merge_pairs m (b # ts))"
| "merge_pairs m ts = ts"

definition merge_multi_word_devanagari_aliases :: "string \<Rightarrow> token list \<Rightarrow> token list" where
  "merge_multi_word_devanagari_aliases src ts = merge_pairs (multi_word_merge src) ts"

definition merge_give_back_ascii_alias :: "string \<Rightarrow> token list \<Rightarrow> token list" where
  "merge_give_back_ascii_alias src ts = merge_pairs (give_back_merge src) ts"

section \<open>One script per file\<close>

definition is_devanagari_text :: "string \<Rightarrow> bool" where
  "is_devanagari_text text = list_ex (\<lambda>ch. (0x900 \<le> code_point ch \<and> code_point ch \<le> 0x97F) \<or>
     (0xA8E0 \<le> code_point ch \<and> code_point ch \<le> 0xA8FF)) (chars text)"

definition first_span :: "span option \<Rightarrow> span \<Rightarrow> span option" where
  "first_span s sp = (case s of None \<Rightarrow> Some sp | Some x \<Rightarrow> Some x)"

definition mismatch :: "string \<Rightarrow> string \<Rightarrow> span \<Rightarrow> string" where
  "mismatch a b sp = ''language mismatch: file already used '' @ a @ '' structure keyword (see span '' @ show_nat (s_start sp) @
     ''..'' @ show_nat (s_end sp) @ ''), can'' @ [CHR 0x27] @ ''t switch to '' @ b @ '' mid-file. Pick one language per file.''"

fun enforce_from :: "string \<Rightarrow> token list \<Rightarrow> span option \<Rightarrow> span option \<Rightarrow> unit lexed" where
  "enforce_from src [] english devanagari = Inr ()"
| "enforce_from src (t # ts) english devanagari =
     (if \<not> is_structure_keyword_kind (tk_kind t) then enforce_from src ts english devanagari
      else bindE (slice src (s_start (tk_span t)) (s_end (tk_span t))) (\<lambda>text.
        if is_devanagari_text text then
          (case english of
             Some e \<Rightarrow> Inl (Fail (diagnostic_new (tk_span t) (mismatch ''an English'' ''a Devanagari alias'' e)))
           | None \<Rightarrow> enforce_from src ts english (first_span devanagari (tk_span t)))
        else
          (case devanagari of
             Some d \<Rightarrow> Inl (Fail (diagnostic_new (tk_span t) (mismatch ''a Devanagari'' ''an English keyword'' d)))
           | None \<Rightarrow> enforce_from src ts (first_span english (tk_span t)) devanagari)))"

definition enforce_language_purity :: "string \<Rightarrow> token list \<Rightarrow> unit lexed" where
  "enforce_language_purity src ts = enforce_from src ts None None"

definition lex :: "(string \<Rightarrow> f64 option) \<Rightarrow> string \<Rightarrow> token list lexed" where
  "lex pf src =
     bindE (lex_from pf src 0 []) (\<lambda>ts.
     let ts = merge_give_back_ascii_alias src (merge_multi_word_devanagari_aliases src ts) in
     bindE (enforce_language_purity src ts) (\<lambda>_. Inr ts))"

section \<open>Comments\<close>

record comment =
  cm_text :: string
  cm_span :: span

function skip_string :: "string \<Rightarrow> nat \<Rightarrow> nat" where
  "skip_string src i =
     (if length src \<le> i then i
      else if src ! i = CHR 0x5C \<and> i + 1 < length src then skip_string src (i + 2)
      else if src ! i = CHR 0x22 then i + 1
      else if src ! i = newline_char then i
      else skip_string src (i + 1))"
  by auto

termination
  by (relation "measure (\<lambda>(src, i). length src - i)") auto

declare skip_string.simps [simp del]

lemma skip_string_ge: "i \<le> skip_string src i"
  by (induction src i rule: skip_string.induct) (subst skip_string.simps, auto)

text \<open>\<open>from_utf8(..).unwrap_or("")\<close>.\<close>

definition utf8_or_empty :: "string \<Rightarrow> string" where
  "utf8_or_empty t = (if valid_utf8 t then t else [])"

lemma skip_while_gt: "i < length src \<Longrightarrow> P (src ! i) \<Longrightarrow> i < skip_while P src i"
  using Suc_le_lessD[OF skip_while_ge[of "Suc i" P src]] by (subst skip_while.simps) simp

function extract_from :: "string \<Rightarrow> nat \<Rightarrow> comment list" where
  "extract_from src i =
     (if length src \<le> i then []
      else if src ! i = CHR 0x22 then extract_from src (skip_string src (i + 1))
      else if src ! i = CHR ''/'' \<and> i + 1 < length src \<and> src ! (i + 1) = CHR ''/'' then
        let j = skip_while (\<lambda>c. c \<noteq> newline_char) src i in
        \<lparr>cm_text = utf8_or_empty (take (j - i) (drop i src)), cm_span = span_new i j\<rparr> # extract_from src j
      else extract_from src (i + 1))"
  by auto

termination
proof (relation "measure (\<lambda>(src, i). length src - i)", goal_cases)
  case (2 src i)
  then show ?case using skip_string_ge[of "i + 1" src] by auto
next
  case (3 src i j)
  then show ?case using skip_while_gt[of i src "\<lambda>c. c \<noteq> newline_char"] by auto
qed auto

declare extract_from.simps [simp del]

definition extract_comments :: "string \<Rightarrow> comment list" where
  "extract_comments src = extract_from src 0"

end
