(* ===== verification/ParserCore.thy ===== *)
theory ParserCore
  imports SourceAst Lexer
begin

text \<open>
  What the parser is built from (\<open>src/parser.rs\<close>): its state, the operations on the current
  token, and the loops. A parsing function takes the state and returns an outcome and the
  new state: the state changes also when the outcome is an error, for the parser records
  errors and goes on. Recursion through the grammar is bounded by fuel, and so are the loops;
  that the fuel is enough is a theorem on \<open>parse\<close>.
\<close>

section \<open>State and outcomes\<close>

record pstate =
  ps_tokens :: "token list"
  ps_pos :: nat
  ps_errors :: "diagnostic list"
  ps_type_params :: "string list"
  ps_consts :: "string \<rightharpoonup> int"

datatype 'a outcome = Done 'a | Failed diagnostic | Panicked | OutOfFuel

type_synonym 'a parser = "pstate \<Rightarrow> 'a outcome \<times> pstate"

definition ret :: "'a \<Rightarrow> 'a parser" where
  "ret x s = (Done x, s)"

definition failP :: "diagnostic \<Rightarrow> 'a parser" where
  "failP d s = (Failed d, s)"

definition panicP :: "'a parser" where
  "panicP s = (Panicked, s)"

definition no_fuel :: "'a parser" where
  "no_fuel s = (OutOfFuel, s)"

text \<open>The question-mark operator.\<close>

definition bindP :: "'a parser \<Rightarrow> ('a \<Rightarrow> 'b parser) \<Rightarrow> 'b parser" where
  "bindP m f s = (case m s of
     (Done x, s') \<Rightarrow> f x s' | (Failed d, s') \<Rightarrow> (Failed d, s')
   | (Panicked, s') \<Rightarrow> (Panicked, s') | (OutOfFuel, s') \<Rightarrow> (OutOfFuel, s'))"

definition thenP :: "'a parser \<Rightarrow> 'b parser \<Rightarrow> 'b parser" where
  "thenP m n = bindP m (\<lambda>_. n)"

text \<open>A match on the result that handles the error.\<close>

definition handleP :: "'a parser \<Rightarrow> ('a \<Rightarrow> 'b parser) \<Rightarrow> (diagnostic \<Rightarrow> 'b parser) \<Rightarrow> 'b parser" where
  "handleP m f h s = (case m s of
     (Done x, s') \<Rightarrow> f x s' | (Failed d, s') \<Rightarrow> h d s'
   | (Panicked, s') \<Rightarrow> (Panicked, s') | (OutOfFuel, s') \<Rightarrow> (OutOfFuel, s'))"

definition getP :: "(pstate \<Rightarrow> 'a) \<Rightarrow> 'a parser" where
  "getP f s = (Done (f s), s)"

definition modifyP :: "(pstate \<Rightarrow> pstate) \<Rightarrow> unit parser" where
  "modifyP f s = (Done (), f s)"

definition push_error :: "diagnostic \<Rightarrow> unit parser" where
  "push_error d = modifyP (\<lambda>s. s\<lparr>ps_errors := ps_errors s @ [d]\<rparr>)"

definition parser_new :: "token list \<Rightarrow> pstate" where
  "parser_new ts = \<lparr>ps_tokens = ts, ps_pos = 0, ps_errors = [], ps_type_params = [], ps_consts = Map.empty\<rparr>"

section \<open>Tokens\<close>

text \<open>\<open>self.tokens[self.pos]\<close>, and \<open>self.tokens.get(self.pos + k).map(|t| &t.kind)\<close>.\<close>

definition current :: "token parser" where
  "current s = (if ps_pos s < length (ps_tokens s) then (Done (ps_tokens s ! ps_pos s), s) else (Panicked, s))"

definition peek_kind :: "nat \<Rightarrow> pstate \<Rightarrow> token_kind option" where
  "peek_kind k s = (if ps_pos s + k < length (ps_tokens s) then Some (tk_kind (ps_tokens s ! (ps_pos s + k))) else None)"

definition kinds_from :: "nat \<Rightarrow> pstate \<Rightarrow> token_kind list" where
  "kinds_from k s = map tk_kind (drop (ps_pos s + k) (ps_tokens s))"

definition check :: "(token_kind \<Rightarrow> bool) \<Rightarrow> bool parser" where
  "check P = bindP current (\<lambda>t. ret (P (tk_kind t)))"

definition bump :: "token parser" where
  "bump = bindP current (\<lambda>t.
     if tk_kind t = TkEof then ret t
     else bindP (modifyP (\<lambda>s. s\<lparr>ps_pos := ps_pos s + 1\<rparr>)) (\<lambda>_. ret t))"

definition match_token :: "(token_kind \<Rightarrow> bool) \<Rightarrow> token option parser" where
  "match_token P = bindP current (\<lambda>t. if P (tk_kind t) then bindP bump (\<lambda>t. ret (Some t)) else ret None)"

definition error_here :: "string \<Rightarrow> diagnostic parser" where
  "error_here msg = bindP current (\<lambda>t. ret (diagnostic_new (tk_span t) msg))"

definition fail_here :: "string \<Rightarrow> 'a parser" where
  "fail_here msg = bindP (error_here msg) failP"

definition expect_keyword :: "string \<Rightarrow> (token_kind \<Rightarrow> bool) \<Rightarrow> token parser" where
  "expect_keyword expected P =
     bindP current (\<lambda>t. if P (tk_kind t) then bump else fail_here (''expected '' @ expected))"

definition is_str :: "token_kind \<Rightarrow> bool" where
  "is_str k = (case k of TkStr _ \<Rightarrow> True | _ \<Rightarrow> False)"

definition expect_ident :: "token parser" where
  "expect_ident = bindP (check is_ident) (\<lambda>b. if b then bump else fail_here ''expected identifier'')"

definition expect_string :: "token parser" where
  "expect_string = bindP (check is_str) (\<lambda>b. if b then bump else fail_here ''expected string literal'')"

text \<open>\<open>ident_text\<close> and the \<open>let TokenKind::Str(s) = ... else unreachable\<close> of its callers.\<close>

definition ident_text :: "token \<Rightarrow> string parser" where
  "ident_text t = (case tk_kind t of TkIdent n \<Rightarrow> ret n | _ \<Rightarrow> panicP)"

definition string_text :: "token \<Rightarrow> string parser" where
  "string_text t = (case tk_kind t of TkStr x \<Rightarrow> ret x | _ \<Rightarrow> panicP)"

text \<open>An identifier with its span, a string literal with its span.\<close>

definition ident :: "(string \<times> span) parser" where
  "ident = bindP expect_ident (\<lambda>t. bindP (ident_text t) (\<lambda>n. ret (n, tk_span t)))"

definition string_lit :: "(string \<times> span) parser" where
  "string_lit = bindP expect_string (\<lambda>t. bindP (string_text t) (\<lambda>x. ret (x, tk_span t)))"

definition expect_close_angle :: "unit parser" where
  "expect_close_angle = bindP current (\<lambda>t.
     if tk_kind t = TkPunct PGreater then thenP bump (ret ())
     else if tk_kind t = TkPunct PGreaterGreater then
       modifyP (\<lambda>s. s\<lparr>ps_tokens := (ps_tokens s)[ps_pos s :=
         tok (TkPunct PGreater) (s_start (tk_span t) + 1) (s_end (tk_span t))]\<rparr>)
     else fail_here (''expected '' @ [CHR 0x27] @ ''>'' @ [CHR 0x27]))"

section \<open>Loops\<close>

text \<open>
  A loop: the body returns \<open>Inl\<close> to go round again and \<open>Inr\<close> to leave with a result. Every
  loop of the parser consumes a token each time round, so the tokens left bound it.
\<close>

fun loopP :: "nat \<Rightarrow> ('a \<Rightarrow> ('a + 'b) parser) \<Rightarrow> 'a \<Rightarrow> 'b parser" where
  "loopP 0 body a = no_fuel"
| "loopP (Suc n) body a = bindP (body a) (\<lambda>r. case r of Inl a' \<Rightarrow> loopP n body a' | Inr b \<Rightarrow> ret b)"

definition remaining :: "pstate \<Rightarrow> nat" where
  "remaining s = length (ps_tokens s) - ps_pos s"

definition repeatP :: "('a \<Rightarrow> ('a + 'b) parser) \<Rightarrow> 'a \<Rightarrow> 'b parser" where
  "repeatP body a s = loopP (Suc (remaining s)) body a s"

text \<open>
  The list loops: items until \<open>closes\<close> holds or no comma follows; \<open>trailing\<close> says whether a
  comma before the closing token is allowed.
\<close>

definition comma_list :: "bool \<Rightarrow> (token_kind \<Rightarrow> bool) \<Rightarrow> 'a parser \<Rightarrow> 'a list parser" where
  "comma_list trailing closes item = repeatP (\<lambda>xs.
     bindP item (\<lambda>x.
     bindP (match_token ((=) (TkPunct PComma))) (\<lambda>c.
     if c = None then ret (Inr (xs @ [x]))
     else if trailing then bindP (check closes) (\<lambda>b. ret (if b then Inr (xs @ [x]) else Inl (xs @ [x])))
     else ret (Inl (xs @ [x]))))) []"

definition opt_comma_list :: "bool \<Rightarrow> (token_kind \<Rightarrow> bool) \<Rightarrow> 'a parser \<Rightarrow> 'a list parser" where
  "opt_comma_list trailing closes item =
     bindP (check closes) (\<lambda>b. if b then ret [] else comma_list trailing closes item)"

text \<open>Skipping tokens until one stops it; the stopping tokens include the end of the file.\<close>

definition skip_until :: "(token_kind \<Rightarrow> bool) \<Rightarrow> unit parser" where
  "skip_until stops = repeatP (\<lambda>_. bindP (check stops) (\<lambda>b. if b then ret (Inr ()) else thenP bump (ret (Inl ())))) ()"

section \<open>Recovery\<close>

definition sync_to_top_level :: "unit parser" where
  "sync_to_top_level = skip_until (\<lambda>k. k \<in> {TkKw KwFn, TkKw KwPure, TkKw KwIntent, TkKw KwUse, TkEof})"

definition stmt_starts :: "token_kind list" where
  "stmt_starts = [TkKw KwLet, TkKw KwReturn, TkKw KwAssert, TkKw KwProve, TkKw KwPrint, TkKw KwIf, TkKw KwWhile,
     TkKw KwFor, TkKw KwBreak, TkKw KwContinue]"

definition sync_to_stmt :: "unit parser" where
  "sync_to_stmt =
     thenP (skip_until (\<lambda>k. k \<in> set stmt_starts \<or> k \<in> {TkPunct PSemicolon, TkPunct PRBrace, TkEof}))
       (bindP (check ((=) (TkPunct PSemicolon))) (\<lambda>b. if b then thenP bump (ret ()) else ret ()))"

text \<open>Up to, not past, the closing brace of the block the parser is in.\<close>

definition sync_past_brace :: "unit parser" where
  "sync_past_brace = repeatP (\<lambda>depth. bindP current (\<lambda>t.
     let k = tk_kind t in
     if k = TkEof then ret (Inr ())
     else if k = TkPunct PLBrace then thenP bump (ret (Inl (depth + 1)))
     else if k = TkPunct PRBrace then
       (if depth = 0 then ret (Inr ()) else thenP bump (ret (Inl (depth - 1))))
     else thenP bump (ret (Inl depth)))) (0 :: nat)"

end
