(* ===== verification/ParserType.thy ===== *)
theory ParserType
  imports ParserCore
begin

text \<open>
  Types (\<open>parse_type\<close> of \<open>src/parser.rs\<close>). The recursive calls go through the record of parsers
  \<open>p\<close>, which stands for the parser with less fuel; each happens after a token was consumed.
\<close>

section \<open>The recursive parsers\<close>

record parsers =
  p_type :: "ty parser"
  p_expr :: "expr parser"
  p_binary :: "nat \<Rightarrow> expr parser"
  p_unary :: "expr parser"
  p_call :: "expr parser"
  p_primary :: "expr parser"
  p_stmt :: "stmt parser"
  p_let :: "stmt parser"
  p_print :: "stmt parser"
  p_if :: "stmt parser"

abbreviation punct :: "punct \<Rightarrow> token_kind \<Rightarrow> bool" where
  "punct x \<equiv> (=) (TkPunct x)"

abbreviation kw :: "keyword \<Rightarrow> token_kind \<Rightarrow> bool" where
  "kw x \<equiv> (=) (TkKw x)"

definition quoted :: "string \<Rightarrow> string" where
  "quoted s = [CHR 0x27] @ s @ [CHR 0x27]"

text \<open>The characters the messages use outside ASCII.\<close>

definition ellipsis :: string where "ellipsis = [CHR 0xE2, CHR 0x80, CHR 0xA6]"
definition em_dash :: string where "em_dash = [CHR 0xE2, CHR 0x80, CHR 0x94]"
definition backtick :: string where "backtick = [CHR 0x60]"

section \<open>Constructors of generic types\<close>

definition angle_arg :: "parsers \<Rightarrow> ty parser" where
  "angle_arg p =
     thenP (expect_keyword (quoted ''<'') (punct PLess))
       (bindP (p_type p) (\<lambda>element. thenP expect_close_angle (ret element)))"

definition angle_pair :: "parsers \<Rightarrow> (ty \<times> ty) parser" where
  "angle_pair p =
     thenP (expect_keyword (quoted ''<'') (punct PLess))
       (bindP (p_type p) (\<lambda>k.
        thenP (expect_keyword (quoted '','') (punct PComma))
          (bindP (p_type p) (\<lambda>v. thenP expect_close_angle (ret (k, v))))))"

text \<open>The capacity of \<open>Channel<T, N>\<close>: \<open>n as u64\<close> keeps the low 64 bits.\<close>

definition channel_capacity :: "nat parser" where
  "channel_capacity =
     bindP (match_token (punct PComma)) (\<lambda>c. case c of
       None \<Rightarrow> ret 16
     | Some _ \<Rightarrow> bindP current (\<lambda>t. case tk_kind t of
           TkInt n \<Rightarrow>
             if n > 0 then thenP bump (ret (as_u64 n))
             else failP (diagnostic_new (tk_span t)
               (''expected positive integer capacity after '' @ quoted '','' @ '' in Channel<T, N>''))
         | _ \<Rightarrow> failP (diagnostic_new (tk_span t)
               (''expected positive integer capacity after '' @ quoted '','' @ '' in Channel<T, N>''))))"

definition channel_type :: "parsers \<Rightarrow> ty parser" where
  "channel_type p =
     thenP (expect_keyword (quoted ''<'') (punct PLess))
       (bindP (p_type p) (\<lambda>element.
        bindP channel_capacity (\<lambda>capacity.
        thenP expect_close_angle (ret (TChannel element capacity)))))"

definition dyn_type :: "ty parser" where
  "dyn_type = bindP bump (\<lambda>t. case tk_kind t of
     TkIdent n \<Rightarrow> ret (TObject n)
   | _ \<Rightarrow> failP (diagnostic_new (tk_span t) (''expected an interface name after '' @ backtick @ ''dyn'' @ backtick)))"

text \<open>The names the type position treats as keywords, each with what follows it.\<close>

definition named_type :: "parsers \<Rightarrow> string \<Rightarrow> ty parser option" where
  "named_type p name = map_of [
     (''dyn'', dyn_type),
     (''Str'', ret TStr), (''OwnedStr'', ret TOwnedStr), (''Task'', ret TTask), (''Condvar'', ret TCondvar),
     (''Deque'', bindP (angle_arg p) (\<lambda>t. ret (TDeque t))),
     (''HashSet'', bindP (angle_arg p) (\<lambda>t. ret (THashSet t))),
     (''HashMap'', bindP (angle_pair p) (\<lambda>(k, v). ret (THashMap k v))),
     (''BTreeSet'', bindP (angle_arg p) (\<lambda>t. ret (TBTreeSet t))),
     (''BTreeMap'', bindP (angle_pair p) (\<lambda>(k, v). ret (TBTreeMap k v))),
     (''UnionFind'', ret TUnionFind),
     (''BinaryHeap'', bindP (angle_arg p) (\<lambda>t. ret (TBinaryHeap t))),
     (''BloomFilter'', ret TBloomFilter),
     (''Bst'', bindP (angle_arg p) (\<lambda>t. ret (TBst t))),
     (''Graph'', ret TGraph), (''Trie'', ret TTrie), (''SkipList'', ret TSkipList),
     (''Atomic'', bindP (angle_arg p) (\<lambda>t. ret (TAtomic t))),
     (''Channel'', channel_type p),
     (''Mutex'', bindP (angle_arg p) (\<lambda>t. ret (TMutex t))),
     (''Guard'', bindP (angle_arg p) (\<lambda>t. ret (TGuard t)))] name"

section \<open>Paths\<close>

text \<open>\<open>path.rsplit("__").next()\<close>: what follows the last double underscore.\<close>

fun after_sep :: "string \<Rightarrow> string option" where
  "after_sep (a # b # cs) =
     (case after_sep (b # cs) of
        Some r \<Rightarrow> Some r
      | None \<Rightarrow> if a = CHR ''_'' \<and> b = CHR ''_'' then Some cs else None)"
| "after_sep _ = None"

definition last_segment :: "string \<Rightarrow> string" where
  "last_segment path = (case after_sep path of Some r \<Rightarrow> r | None \<Rightarrow> path)"

definition starts_uppercase :: "string \<Rightarrow> bool" where
  "starts_uppercase s = (case s of c # _ \<Rightarrow> 65 \<le> byte c \<and> byte c \<le> 90 | [] \<Rightarrow> False)"

definition join_path :: "string \<Rightarrow> string \<Rightarrow> string" where
  "join_path a b = a @ ''__'' @ b"

definition path_type :: "string \<Rightarrow> ty parser" where
  "path_type name =
     bindP (repeatP (\<lambda>path. thenP bump (bindP ident (\<lambda>(next, _).
       let path = join_path path next in
       bindP (check (punct PColonColon)) (\<lambda>b. ret (if b then Inl path else Inr path))))) name) (\<lambda>path.
     if starts_uppercase (last_segment path) then ret (TStruct path)
     else fail_here (''expected an uppercase type name as the last segment of the path (only types can appear in type position)''))"

section \<open>Types\<close>

definition tuple_type :: "parsers \<Rightarrow> ty parser" where
  "tuple_type p =
     bindP (p_type p) (\<lambda>t.
     thenP (expect_keyword (quoted '','' @ '' (tuple type needs at least two elements)'') (punct PComma))
       (bindP (comma_list True (punct PRParen) (p_type p)) (\<lambda>ts.
        thenP (expect_keyword (quoted '')'') (punct PRParen)) (ret (TTuple (t # ts))))))"

definition fn_ptr_type :: "parsers \<Rightarrow> ty parser" where
  "fn_ptr_type p =
     thenP (expect_keyword (quoted ''('') (punct PLParen))
       (bindP (opt_comma_list False (punct PRParen) (p_type p)) (\<lambda>params.
        thenP (expect_keyword (quoted '')'') (punct PRParen))
        (thenP (expect_keyword (quoted ''->'') (punct PArrow))
        (bindP (p_type p) (\<lambda>r. ret (TFnPtr params r))))))"

text \<open>The length of an array type: a literal, or the name of an integer constant read before.\<close>

definition array_length :: "nat parser" where
  "array_length =
     bindP bump (\<lambda>t.
     bindP (case tk_kind t of
         TkInt v \<Rightarrow> ret v
       | TkIdent name \<Rightarrow> bindP (getP ps_consts) (\<lambda>m. case m name of
           Some v \<Rightarrow> ret v
         | None \<Rightarrow> failP (diagnostic_new (tk_span t)
             (''array length '' @ quoted name @ '' must be a literal integer or a previously-declared '' @
              backtick @ ''const NAME: i64 = <int>;'' @ backtick)))
       | _ \<Rightarrow> failP (diagnostic_new (tk_span t) ''expected integer literal or const identifier for array length'')) (\<lambda>v.
     if v < 0 then failP (diagnostic_new (tk_span t) ''array length must be non-negative'')
     else if v > 2 ^ 64 - 1 then failP (diagnostic_new (tk_span t) ''array length does not fit in u64'')
     else ret (nat v)))"

definition array_type :: "parsers \<Rightarrow> ty parser" where
  "array_type p =
     bindP (p_type p) (\<lambda>element.
     thenP (expect_keyword (quoted '';'') (punct PSemicolon))
       (bindP array_length (\<lambda>n.
        thenP (expect_keyword (quoted '']'') (punct PRBracket)) (ret (TArray element n)))))"

definition apply_type :: "parsers \<Rightarrow> string \<Rightarrow> ty parser" where
  "apply_type p name =
     bindP (match_token (punct PLess)) (\<lambda>c. case c of
       None \<Rightarrow> ret (TStruct name)
     | Some _ \<Rightarrow>
         bindP (comma_list True (\<lambda>k. k \<in> {TkPunct PGreater, TkPunct PGreaterGreater}) (p_type p)) (\<lambda>args.
         thenP expect_close_angle (ret (TApply name args))))"

definition scalar_type :: "token_kind \<Rightarrow> ty option" where
  "scalar_type k = map_of [(TkWord WI8, TI8), (TkWord WI16, TI16), (TkWord WI32, TI32), (TkWord WI64, TI64),
     (TkWord WU8, TU8), (TkWord WU16, TU16), (TkWord WU32, TU32), (TkWord WU64, TU64),
     (TkWord WF32, TF32), (TkWord WF64, TF64), (TkWord WBool, TBool)] k"

definition scalar_or_error :: "token \<Rightarrow> ty parser" where
  "scalar_or_error t = (case scalar_type (tk_kind t) of
     Some ty \<Rightarrow> thenP bump (ret ty)
   | None \<Rightarrow> failP (diagnostic_new (tk_span t) (''expected type like '' @ quoted ''i32'' @ '', '' @ quoted ''u64'' @ '', '' @
       quoted ''f64'' @ '', '' @ quoted ''bool'' @ '', '' @ quoted ''Str'' @ '', or '' @ quoted ''[T; N]'')))"

text \<open>A type that starts with an identifier.\<close>

definition ident_type :: "parsers \<Rightarrow> token \<Rightarrow> string \<Rightarrow> ty parser" where
  "ident_type p t name = (case named_type p name of
     Some rest \<Rightarrow> thenP bump rest
   | None \<Rightarrow>
       bindP (getP (\<lambda>s. (name \<in> set (ps_type_params s), peek_kind 1 s))) (\<lambda>(is_param, next).
       if is_param then thenP bump (ret (TParam name))
       else if next = Some (TkPunct PColonColon) then thenP bump (path_type name)
       else if starts_uppercase name then thenP bump (apply_type p name)
       else scalar_or_error t))"

definition parse_type :: "parsers \<Rightarrow> ty parser" where
  "parse_type p =
     bindP current (\<lambda>t. bindP (getP (peek_kind 1)) (\<lambda>next.
     let k = tk_kind t in
     if k = TkPunct PLParen then thenP bump (tuple_type p)
     else if k = TkKw KwFn then thenP bump (fn_ptr_type p)
     else if k = TkKw KwMut \<and> next = Some (TkKw KwRef) then
       thenP bump (thenP bump (bindP (p_type p) (\<lambda>inner. ret (TRefMut inner))))
     else if k = TkKw KwRef then thenP bump (bindP (p_type p) (\<lambda>inner. ret (TRef inner)))
     else if k \<in> {TkPunct PAmp, TkPunct PAndAnd} then
       failP (diagnostic_new (tk_span t) (''use '' @ backtick @ ''ref T'' @ backtick @ '' / '' @ backtick @ ''mut ref T'' @
         backtick @ '' for reference types (T0.0 syntax sweep)''))
     else if k = TkWord WVec then thenP bump (bindP (angle_arg p) (\<lambda>element. ret (TVec element)))
     else if k = TkPunct PLBracket then thenP bump (array_type p)
     else case k of TkIdent name \<Rightarrow> ident_type p t name | _ \<Rightarrow> scalar_or_error t))"

end
