(* ===== verification/ParserExpr.thy ===== *)
theory ParserExpr
  imports ParserType
begin

text \<open>
  Expressions (\<open>parse_expr\<close> to \<open>parse_primary_expr\<close> of \<open>src/parser.rs\<close>). The argument \<open>dbg\<close> is the
  standard library's \<open>{:?}\<close> of a float, which the parser uses to read \<open>t.0.1\<close>.
\<close>

section \<open>Operators\<close>

definition binary_operators :: "(token_kind \<times> binary_op \<times> nat) list" where
  "binary_operators = [
    (TkPunct POrOr, Or, 1), (TkPunct PAndAnd, And, 2),
    (TkPunct PEqEq, Eq, 3), (TkPunct PBangEq, Ne, 3),
    (TkPunct PLess, Lt, 4), (TkPunct PLessEq, Le, 4), (TkPunct PGreater, Gt, 4), (TkPunct PGreaterEq, Ge, 4),
    (TkPunct PPipe, BitOr, 5), (TkPunct PCaret, BitXor, 6), (TkPunct PAmp, BitAnd, 7),
    (TkPunct PLessLess, Shl, 8), (TkPunct PGreaterGreater, Shr, 8),
    (TkPunct PPlus, Add, 9), (TkPunct PMinus, Sub, 9),
    (TkPunct PStar, Mul, 10), (TkPunct PSlash, Div, 10), (TkPunct PPercent, Rem, 10)]"

definition current_binary_op :: "token_kind \<Rightarrow> (binary_op \<times> nat) option" where
  "current_binary_op k = map_of binary_operators k"

section \<open>Calls and access\<close>

text \<open>The arguments of a call after its opening parenthesis, and the closing one.\<close>

definition call_args :: "parsers \<Rightarrow> (expr list \<times> span) parser" where
  "call_args p =
     bindP (opt_comma_list True (punct PRParen) (p_expr p)) (\<lambda>args.
     bindP (expect_keyword (quoted '')'') (punct PRParen)) (\<lambda>close. ret (args, tk_span close)))"

text \<open>\<open>s.parse::<u32>()\<close>, and the two halves of a text with exactly one dot.\<close>

definition parse_u32 :: "string \<Rightarrow> nat option" where
  "parse_u32 s =
     (let ds = (case s of c # cs \<Rightarrow> if c = CHR ''+'' then cs else s | [] \<Rightarrow> []) in
      if ds = [] then None
      else case digits_value 10 0 ds of Some n \<Rightarrow> if n < 2 ^ 32 then Some n else None | None \<Rightarrow> None)"

definition split_dot :: "string \<Rightarrow> (string \<times> string) option" where
  "split_dot s =
     (let a = takeWhile (\<lambda>c. c \<noteq> CHR ''.'') s; b = drop (length a + 1) s in
      if length a < length s \<and> CHR ''.'' \<notin> set b then Some (a, b) else None)"

definition nested_index :: "(f64 \<Rightarrow> string) \<Rightarrow> f64 \<Rightarrow> (nat \<times> nat) option" where
  "nested_index dbg v =
     Option.bind (split_dot (dbg v)) (\<lambda>(a, b).
     Option.bind (parse_u32 a) (\<lambda>n. map_option (\<lambda>m. (n, m)) (parse_u32 b)))"

definition bad_access :: "span \<Rightarrow> 'a parser" where
  "bad_access sp = failP (diagnostic_new sp
     (''expected integer (tuple index) or identifier (field name) after '' @ quoted ''.''))"

text \<open>\<open>expr.name\<close> and \<open>expr.name(args)\<close>.\<close>

definition member_access :: "parsers \<Rightarrow> expr \<Rightarrow> span \<Rightarrow> token \<Rightarrow> string \<Rightarrow> expr parser" where
  "member_access p e sp next name =
     bindP (match_token (punct PLParen)) (\<lambda>c. case c of
       Some _ \<Rightarrow> bindP (call_args p) (\<lambda>(args, close).
         ret (Expr (KMethodCall e name (tk_span next) args) (span_merge sp close)))
     | None \<Rightarrow> ret (Expr (KFieldAccess e name) sp))"

definition after_dot :: "(f64 \<Rightarrow> string) \<Rightarrow> parsers \<Rightarrow> expr \<Rightarrow> expr parser" where
  "after_dot dbg p e =
     bindP bump (\<lambda>next.
     let sp = span_merge (e_span e) (tk_span next) in
     case tk_kind next of
       TkInt v \<Rightarrow>
         if v < 0 \<or> v > 2 ^ 32 - 1 then failP (diagnostic_new (tk_span next) ''tuple index must fit in u32'')
         else ret (Expr (KTupleAccess e (nat v)) sp)
     | TkFloat v \<Rightarrow> (case nested_index dbg v of
           Some (n, m) \<Rightarrow> ret (Expr (KTupleAccess (Expr (KTupleAccess e n) sp) m) (span_merge sp (tk_span next)))
         | None \<Rightarrow> bad_access (tk_span next))
     | TkIdent name \<Rightarrow> member_access p e sp next name
     | k \<Rightarrow> if k = TkWord WLen then member_access p e sp next ''len'' else bad_access (tk_span next))"

definition call_of :: "parsers \<Rightarrow> expr \<Rightarrow> expr parser" where
  "call_of p e = (case e_kind e of
     KVar name \<Rightarrow> bindP (call_args p) (\<lambda>(args, close).
       ret (Expr (KCall name (e_span e) args) (span_merge (e_span e) close)))
   | _ \<Rightarrow> failP (diagnostic_new (e_span e) ''only named functions can be called''))"

definition index_of :: "parsers \<Rightarrow> expr \<Rightarrow> expr parser" where
  "index_of p e =
     bindP (p_expr p) (\<lambda>index.
     bindP (expect_keyword (quoted '']'') (punct PRBracket)) (\<lambda>close.
     ret (Expr (KIndex e index) (span_merge (e_span e) (tk_span close)))))"

text \<open>One turn of the postfix loop.\<close>

definition postfix_step :: "(f64 \<Rightarrow> string) \<Rightarrow> parsers \<Rightarrow> expr \<Rightarrow> (expr + expr) parser" where
  "postfix_step dbg p e =
     bindP (match_token (\<lambda>k. k \<in> {TkPunct PLParen, TkWord WAs, TkPunct PLBracket, TkPunct PDot})) (\<lambda>c. case c of
       None \<Rightarrow> ret (Inr e)
     | Some t \<Rightarrow>
         bindP (if tk_kind t = TkPunct PLParen then call_of p e
                else if tk_kind t = TkWord WAs then bindP (p_type p) (\<lambda>ty. ret (Expr (KCast e ty) (e_span e)))
                else if tk_kind t = TkPunct PLBracket then index_of p e
                else after_dot dbg p e) (\<lambda>e. ret (Inl e)))"

section \<open>Blocks of statements\<close>

definition block_end :: "token_kind \<Rightarrow> bool" where
  "block_end k \<longleftrightarrow> k = TkPunct PRBrace \<or> k = TkEof"

text \<open>The statements up to the closing brace; a broken one is recorded and skipped.\<close>

definition stmts_until_brace :: "parsers \<Rightarrow> stmt list parser" where
  "stmts_until_brace p = repeatP (\<lambda>body.
     bindP (check block_end) (\<lambda>b.
     if b then ret (Inr body)
     else handleP (p_stmt p) (\<lambda>x. ret (Inl (body @ [x])))
            (\<lambda>e. thenP (push_error e) (thenP sync_to_stmt (ret (Inl body)))))) []"

definition is_return :: "stmt \<Rightarrow> bool" where
  "is_return x = (case x of StReturn _ _ \<Rightarrow> True | _ \<Rightarrow> False)"

text \<open>The synthetic \<open>return 0\<close> of a function without a return type.\<close>

definition unit_body :: "bool \<Rightarrow> stmt list \<Rightarrow> span \<Rightarrow> stmt list" where
  "unit_body unit_return body close =
     (if unit_return \<and> (body = [] \<or> \<not> is_return (last body))
      then body @ [StReturn (Expr (KInt 0) close) close] else body)"

text \<open>A parameter \<open>name: type\<close>, and the return type with its shorthand.\<close>

definition parse_param :: "parsers \<Rightarrow> param parser" where
  "parse_param p =
     bindP ident (\<lambda>(name, sp).
     thenP (expect_keyword (quoted '':'') (punct PColon))
       (bindP (p_type p) (\<lambda>ty. ret \<lparr>pa_name = name, pa_ty = ty, pa_name_span = sp, pa_span = sp\<rparr>)))"

definition return_type :: "parsers \<Rightarrow> (bool \<times> ty) parser" where
  "return_type p =
     bindP (match_token (punct PArrow)) (\<lambda>c. case c of
       None \<Rightarrow> ret (True, TI64)
     | Some _ \<Rightarrow> bindP (p_type p) (\<lambda>ty. ret (False, ty)))"

section \<open>Primary expressions\<close>

text \<open>Each after its first token, whose span is \<open>sp\<close>.\<close>

definition block_expr :: "parsers \<Rightarrow> span \<Rightarrow> expr parser" where
  "block_expr p sp =
     bindP (repeatP (\<lambda>stmts. bindP current (\<lambda>t.
       if tk_kind t = TkKw KwLet then bindP (p_let p) (\<lambda>x. ret (Inl (stmts @ [x])))
       else if tk_kind t = TkKw KwPrint then bindP (p_print p) (\<lambda>x. ret (Inl (stmts @ [x])))
       else ret (Inr stmts))) []) (\<lambda>stmts.
     bindP (p_expr p) (\<lambda>tail.
     bindP (expect_keyword (quoted ''}'' @ '' (block-expression close)'') (punct PRBrace)) (\<lambda>close.
     ret (Expr (KBlock stmts tail) (span_merge sp (tk_span close))))))"

definition try_expr :: "parsers \<Rightarrow> span \<Rightarrow> expr parser" where
  "try_expr p sp = bindP (p_call p) (\<lambda>inner. ret (Expr (KTry inner) (span_merge sp (e_span inner))))"

definition else_value :: "parsers \<Rightarrow> (expr \<times> span) parser" where
  "else_value p =
     bindP (check (kw KwIf)) (\<lambda>b.
     if b then bindP (p_primary p) (\<lambda>nested. ret (nested, e_span nested))
     else thenP (expect_keyword (quoted ''{'' @ '' (if-expression else-branch)'') (punct PLBrace))
       (bindP (p_expr p) (\<lambda>v.
        bindP (expect_keyword (quoted ''}'' @ '' (if-expression else-branch)'') (punct PRBrace)) (\<lambda>close.
        ret (v, tk_span close)))))"

definition if_expr :: "parsers \<Rightarrow> span \<Rightarrow> expr parser" where
  "if_expr p sp =
     bindP (p_expr p) (\<lambda>cond.
     thenP (expect_keyword (quoted ''{'' @ '' (if-expression then-branch)'') (punct PLBrace))
     (bindP (p_expr p) (\<lambda>v.
     thenP (expect_keyword (quoted ''}'' @ '' (if-expression then-branch)'') (punct PRBrace))
     (thenP (expect_keyword (quoted ''else'' @ '' (if-expression)'') (kw KwElse))
     (bindP (else_value p) (\<lambda>(w, close).
     ret (Expr (KIfExpr cond v w) (span_merge sp close)))))))) "

text \<open>The return type of \<open>|x| e\<close>, from the outermost operator of the body.\<close>

definition closure_type :: "expr_kind \<Rightarrow> ty" where
  "closure_type k = (case k of
     KBinary op _ _ \<Rightarrow> if op \<in> {Eq, Ne, Lt, Le, Gt, Ge, And, Or} then TBool else TI64
   | KUnary op _ \<Rightarrow> if op = UNot then TBool else TI64
   | KBool _ \<Rightarrow> TBool
   | _ \<Rightarrow> TI64)"

definition closure_expr :: "parsers \<Rightarrow> span \<Rightarrow> expr parser" where
  "closure_expr p sp =
     bindP (comma_list False (punct PPipe) (bindP ident (\<lambda>(n, nsp).
       ret \<lparr>pa_name = n, pa_ty = TI64, pa_name_span = nsp, pa_span = nsp\<rparr>))) (\<lambda>params.
     thenP (expect_keyword (quoted ''|'') (punct PPipe))
       (bindP (p_expr p) (\<lambda>body.
        ret (Expr (KAnonFn params (closure_type (e_kind body)) [StReturn body (e_span body)] sp)
               (span_merge sp (e_span body))))))"

definition anon_fn :: "parsers \<Rightarrow> span \<Rightarrow> expr parser" where
  "anon_fn p sp =
     thenP (expect_keyword (quoted ''('') (punct PLParen))
     (bindP (opt_comma_list True (punct PRParen) (parse_param p)) (\<lambda>params.
     thenP (expect_keyword (quoted '')'') (punct PRParen))
     (bindP (return_type p) (\<lambda>(unit_return, ty).
     thenP (expect_keyword (quoted ''{'') (punct PLBrace))
     (bindP (stmts_until_brace p) (\<lambda>body.
     bindP (expect_keyword (quoted ''}'') (punct PRBrace)) (\<lambda>close.
     ret (Expr (KAnonFn params ty (unit_body unit_return body (tk_span close)) sp)
            (span_merge sp (tk_span close)))))))))) "

definition literal_pattern :: "(pattern \<times> span) parser" where
  "literal_pattern =
     bindP current (\<lambda>first.
     bindP (match_token (punct PMinus)) (\<lambda>minus.
     bindP bump (\<lambda>lit.
     let sp = span_merge (tk_span first) (tk_span lit); negative = (minus \<noteq> None) in
     case tk_kind lit of
       TkInt v \<Rightarrow>
         if negative then
           (case i128_checked (- v) of
              Some w \<Rightarrow> ret (PatInt w, sp)
            | None \<Rightarrow> failP (diagnostic_new sp ''integer pattern overflow when negating''))
         else ret (PatInt v, sp)
     | TkFloat v \<Rightarrow> ret (PatFloat (if negative then v XOR 0x8000000000000000 else v), sp)
     | _ \<Rightarrow> failP (diagnostic_new (tk_span lit) ''expected integer or float literal in match pattern''))))"

definition variant_pattern :: "(pattern \<times> span) parser" where
  "variant_pattern =
     bindP ident (\<lambda>(first, start).
     if first = ''_'' then ret (PatWildcard, start)
     else
       thenP (expect_keyword (quoted ''.'' @ '' (variant access in match pattern)'') (punct PDot))
       (bindP ident (\<lambda>(variant, vsp).
        bindP (match_token (punct PLParen)) (\<lambda>c. case c of
          None \<Rightarrow> ret (PatVariant first variant, span_merge start vsp)
        | Some _ \<Rightarrow>
            bindP ident (\<lambda>(binding, _).
            bindP (expect_keyword (quoted '')'' @ '' (variant payload binding close)'') (punct PRParen)) (\<lambda>close.
            ret (PatVariantWithBinding first variant binding, span_merge start (tk_span close))))))))"

definition match_pattern :: "(pattern \<times> span) parser" where
  "match_pattern =
     bindP current (\<lambda>t. case tk_kind t of
       TkStr text \<Rightarrow> thenP bump (ret (PatStr text, tk_span t))
     | TkInt _ \<Rightarrow> literal_pattern
     | TkFloat _ \<Rightarrow> literal_pattern
     | k \<Rightarrow>
         if k = TkWord WTrue then thenP bump (ret (PatBool True, tk_span t))
         else if k = TkWord WFalse then thenP bump (ret (PatBool False, tk_span t))
         else if k = TkPunct PMinus then literal_pattern
         else variant_pattern)"

definition match_expr :: "parsers \<Rightarrow> span \<Rightarrow> expr parser" where
  "match_expr p sp =
     bindP (p_expr p) (\<lambda>scrutinee.
     thenP (expect_keyword (quoted ''{'') (punct PLBrace))
     (bindP (repeatP (\<lambda>arms. bindP (check block_end) (\<lambda>b.
       if b then ret (Inr arms)
       else bindP match_pattern (\<lambda>(pat, psp).
         thenP (expect_keyword (quoted ''then'') (kw KwThen))
         (bindP (p_expr p) (\<lambda>body.
          bindP (match_token (punct PComma)) (\<lambda>c.
          let arms = arms @ [MatchArm pat psp body] in ret (if c = None then Inr arms else Inl arms))))))) []) (\<lambda>arms.
     bindP (expect_keyword (quoted ''}'' @ '' (match expression)'') (punct PRBrace)) (\<lambda>close.
     ret (Expr (KMatch scrutinee arms) (span_merge sp (tk_span close)))))))"

definition struct_lit :: "parsers \<Rightarrow> string \<Rightarrow> span \<Rightarrow> expr parser" where
  "struct_lit p name sp =
     bindP (repeatP (\<lambda>fields. bindP (check block_end) (\<lambda>b.
       if b then ret (Inr fields)
       else bindP ident (\<lambda>(f, _).
         thenP (expect_keyword (quoted '':'') (punct PColon))
         (bindP (p_expr p) (\<lambda>v.
          bindP (match_token (punct PComma)) (\<lambda>c.
          let fields = fields @ [(f, v)] in ret (if c = None then Inr fields else Inl fields))))))) []) (\<lambda>fields.
     bindP (expect_keyword (quoted ''}'' @ '' (struct literal)'') (punct PRBrace)) (\<lambda>close.
     ret (Expr (KStructLit name sp fields) (span_merge sp (tk_span close)))))"

definition is_ident_opt :: "token_kind option \<Rightarrow> bool" where
  "is_ident_opt k = (case k of Some k \<Rightarrow> is_ident k | None \<Rightarrow> False)"

text \<open>After a name, does \<open>{ field:\<close> or \<open>{ }\<close> follow?\<close>

definition struct_follows :: "pstate \<Rightarrow> bool" where
  "struct_follows s \<longleftrightarrow> peek_kind 0 s = Some (TkPunct PLBrace) \<and>
     (is_ident_opt (peek_kind 1 s) \<and> peek_kind 2 s = Some (TkPunct PColon) \<or> peek_kind 1 s = Some (TkPunct PRBrace))"

definition ident_expr :: "parsers \<Rightarrow> string \<Rightarrow> span \<Rightarrow> expr parser" where
  "ident_expr p first sp =
     bindP (repeatP (\<lambda>(name, nsp).
       bindP (match_token (punct PColonColon)) (\<lambda>c. case c of
         None \<Rightarrow> ret (Inr (name, nsp))
       | Some _ \<Rightarrow> bindP ident (\<lambda>(next, sp2). ret (Inl (join_path name next, span_merge nsp sp2))))) (first, sp)) (\<lambda>(name, nsp).
     bindP (getP struct_follows) (\<lambda>follows.
     if starts_uppercase (last_segment name) \<and> follows then thenP bump (struct_lit p name nsp)
     else ret (Expr (KVar name) nsp)))"

definition paren_expr :: "parsers \<Rightarrow> span \<Rightarrow> expr parser" where
  "paren_expr p sp =
     bindP (p_expr p) (\<lambda>first.
     bindP (match_token (punct PComma)) (\<lambda>c. case c of
       None \<Rightarrow> thenP (expect_keyword (quoted '')'') (punct PRParen)) (ret first)
     | Some _ \<Rightarrow>
         bindP (repeatP (\<lambda>es. bindP (check (punct PRParen)) (\<lambda>b.
           if b then ret (Inr es)
           else bindP (p_expr p) (\<lambda>e.
             bindP (match_token (punct PComma)) (\<lambda>c.
             ret (if c = None then Inr (es @ [e]) else Inl (es @ [e])))))) [first]) (\<lambda>es.
         bindP (expect_keyword (quoted '')'') (punct PRParen)) (\<lambda>close.
         ret (Expr (KTuple es) (span_merge sp (tk_span close)))))))"

definition array_lit :: "parsers \<Rightarrow> span \<Rightarrow> expr parser" where
  "array_lit p sp =
     bindP (opt_comma_list True (punct PRBracket) (p_expr p)) (\<lambda>es.
     bindP (expect_keyword (quoted '']'') (punct PRBracket)) (\<lambda>close.
     ret (Expr (KArrayLit es) (span_merge sp (tk_span close)))))"

definition len_expr :: "parsers \<Rightarrow> span \<Rightarrow> expr parser" where
  "len_expr p sp =
     thenP (expect_keyword (quoted ''('') (punct PLParen))
     (bindP (p_expr p) (\<lambda>a.
      bindP (expect_keyword (quoted '')'') (punct PRParen)) (\<lambda>close.
      ret (Expr (KLen a) (span_merge sp (tk_span close))))))"

definition primary_of :: "parsers \<Rightarrow> token \<Rightarrow> expr parser" where
  "primary_of p t = (let sp = tk_span t in case tk_kind t of
     TkInt v \<Rightarrow> ret (Expr (KInt v) sp)
   | TkFloat v \<Rightarrow> ret (Expr (KFloat v) sp)
   | TkStr x \<Rightarrow> ret (Expr (KStr x) sp)
   | TkIdent name \<Rightarrow> ident_expr p name sp
   | TkWord w \<Rightarrow>
       if w = WTrue then ret (Expr (KBool True) sp)
       else if w = WFalse then ret (Expr (KBool False) sp)
       else if w = WLen then len_expr p sp
       else failP (diagnostic_new sp ''expected expression'')
   | TkKw w \<Rightarrow>
       if w = KwTry then try_expr p sp
       else if w = KwIf then if_expr p sp
       else if w = KwFn then anon_fn p sp
       else if w = KwMatch then match_expr p sp
       else failP (diagnostic_new sp ''expected expression'')
   | TkPunct x \<Rightarrow>
       if x = PLBrace then block_expr p sp
       else if x = PPipe then closure_expr p sp
       else if x = PLParen then paren_expr p sp
       else if x = PLBracket then array_lit p sp
       else failP (diagnostic_new sp ''expected expression'')
   | TkEof \<Rightarrow> failP (diagnostic_new sp ''expected expression''))"

definition parse_primary_expr :: "parsers \<Rightarrow> expr parser" where
  "parse_primary_expr p = bindP bump (primary_of p)"

section \<open>Postfix, unary and binary expressions\<close>

definition parse_call_expr :: "(f64 \<Rightarrow> string) \<Rightarrow> parsers \<Rightarrow> expr parser" where
  "parse_call_expr dbg p = bindP (parse_primary_expr p) (repeatP (postfix_step dbg p))"

definition prefix_expr :: "parsers \<Rightarrow> (expr \<Rightarrow> expr_kind) \<Rightarrow> span \<Rightarrow> expr parser" where
  "prefix_expr p mk sp = bindP (p_unary p) (\<lambda>e. ret (Expr (mk e) (span_merge sp (e_span e))))"

definition parse_unary_expr :: "(f64 \<Rightarrow> string) \<Rightarrow> parsers \<Rightarrow> expr parser" where
  "parse_unary_expr dbg p =
     bindP current (\<lambda>t. bindP (getP (peek_kind 1)) (\<lambda>next.
     let k = tk_kind t in
     if k = TkKw KwMut \<and> next = Some (TkKw KwRef) then thenP bump (thenP bump (prefix_expr p KRefMut (tk_span t)))
     else if k = TkKw KwRef then thenP bump (prefix_expr p KRef (tk_span t))
     else if k = TkPunct PAmp then thenP bump (failP (diagnostic_new (tk_span t)
       (''use '' @ backtick @ ''ref x'' @ backtick @ '' (or '' @ backtick @ ''mut ref x'' @ backtick @ '') instead of '' @
        backtick @ ''&x'' @ backtick @ '' for borrows (T0.0)'')))
     else if k = TkPunct PMinus then thenP bump (prefix_expr p (KUnary UNeg) (tk_span t))
     else if k = TkPunct PBang then thenP bump (prefix_expr p (KUnary UNot) (tk_span t))
     else parse_call_expr dbg p))"

definition binary_step :: "parsers \<Rightarrow> nat \<Rightarrow> expr \<Rightarrow> (expr + expr) parser" where
  "binary_step p min_precedence left =
     bindP current (\<lambda>t. case current_binary_op (tk_kind t) of
       None \<Rightarrow> ret (Inr left)
     | Some (op, precedence) \<Rightarrow>
         if precedence < min_precedence then ret (Inr left)
         else thenP bump (bindP (p_binary p (precedence + 1)) (\<lambda>right.
           ret (Inl (Expr (KBinary op left right) (span_merge (e_span left) (e_span right)))))))"

definition parse_binary_expr :: "(f64 \<Rightarrow> string) \<Rightarrow> parsers \<Rightarrow> nat \<Rightarrow> expr parser" where
  "parse_binary_expr dbg p min_precedence =
     bindP (parse_unary_expr dbg p) (repeatP (binary_step p min_precedence))"

definition parse_expr :: "(f64 \<Rightarrow> string) \<Rightarrow> parsers \<Rightarrow> expr parser" where
  "parse_expr dbg p = parse_binary_expr dbg p 1"

end
