(* ===== verification/ParserStmt.thy ===== *)
theory ParserStmt
  imports ParserExpr
begin

text \<open>
  Statements (\<open>parse_stmt\<close> to \<open>parse_print_item\<close> of \<open>src/parser.rs\<close>), in both word orders, the
  look-ahead that tells them apart, and the recursive parsers built up by fuel. \<open>pe\<close> is
  \<open>parse_expr dbg p\<close>; statements call it without having consumed a token.
\<close>

section \<open>Look-ahead\<close>

definition looks_like_assignment :: "pstate \<Rightarrow> bool" where
  "looks_like_assignment s \<longleftrightarrow> is_ident_opt (peek_kind 0 s) \<and> peek_kind 1 s = Some (TkPunct PEqual)"

definition looks_like_sov_for :: "pstate \<Rightarrow> bool" where
  "looks_like_sov_for s \<longleftrightarrow> is_ident_opt (peek_kind 0 s) \<and> peek_kind 1 s = Some (TkKw KwFor)"

definition looks_like_sov_parallel_for :: "pstate \<Rightarrow> bool" where
  "looks_like_sov_parallel_for s \<longleftrightarrow>
     peek_kind 0 s = Some (TkKw KwParallel) \<and> is_ident_opt (peek_kind 1 s) \<and> peek_kind 2 s = Some (TkKw KwFor)"

definition verbs :: "token_kind list" where
  "verbs = [TkKw KwReturn, TkKw KwPrint, TkKw KwAssert, TkKw KwProve]"

text \<open>The scan to the next semicolon at depth 0, with the token before it.\<close>

fun sov_scan :: "nat \<Rightarrow> token_kind option \<Rightarrow> token_kind list \<Rightarrow> token_kind option" where
  "sov_scan depth prev [] = None"
| "sov_scan depth prev (k # ks) =
     (if k \<in> {TkPunct PLParen, TkPunct PLBrace, TkPunct PLBracket} then sov_scan (depth + 1) (Some k) ks
      else if k \<in> {TkPunct PRParen, TkPunct PRBrace, TkPunct PRBracket} then
        (if depth = 0 then None else sov_scan (depth - 1) (Some k) ks)
      else if k = TkPunct PSemicolon \<and> depth = 0 then
        (case prev of Some v \<Rightarrow> if v \<in> set verbs then Some v else None | None \<Rightarrow> None)
      else if k = TkEof then None
      else sov_scan depth (Some k) ks)"

definition looks_like_sov_verb_at_end :: "pstate \<Rightarrow> token_kind option" where
  "looks_like_sov_verb_at_end s = sov_scan 0 None (kinds_from 0 s)"

text \<open>What follows the bracket that closes the one before; all of it is skipped when none does.\<close>

fun after_bracket :: "nat \<Rightarrow> token_kind list \<Rightarrow> token_kind list option" where
  "after_bracket depth [] = Some []"
| "after_bracket depth (k # ks) =
     (if k = TkPunct PLBracket then after_bracket (depth + 1) ks
      else if k = TkPunct PRBracket then (if depth = 1 then Some ks else after_bracket (depth - 1) ks)
      else if k = TkEof then None
      else after_bracket depth ks)"

definition after_index :: "pstate \<Rightarrow> token_kind list option" where
  "after_index s =
     (if is_ident_opt (peek_kind 0 s) \<and> peek_kind 1 s = Some (TkPunct PLBracket)
      then after_bracket 1 (kinds_from 2 s) else None)"

definition looks_like_index_assign :: "pstate \<Rightarrow> bool" where
  "looks_like_index_assign s \<longleftrightarrow> (case after_index s of Some (k # _) \<Rightarrow> k = TkPunct PEqual | _ \<Rightarrow> False)"

fun field_path_then_equal :: "token_kind list \<Rightarrow> bool" where
  "field_path_then_equal (i # k # ks) \<longleftrightarrow>
     is_ident i \<and> (k = TkPunct PEqual \<or> (k = TkPunct PDot \<and> field_path_then_equal ks))"
| "field_path_then_equal _ = False"

definition looks_like_index_then_field_assign :: "pstate \<Rightarrow> bool" where
  "looks_like_index_then_field_assign s \<longleftrightarrow>
     (case after_index s of Some (k # ks) \<Rightarrow> k = TkPunct PDot \<and> field_path_then_equal ks | _ \<Rightarrow> False)"

fun fields_then_equal :: "bool \<Rightarrow> token_kind list \<Rightarrow> bool" where
  "fields_then_equal saw_dot (k # ks) \<longleftrightarrow>
     (if k = TkPunct PDot then
        (case ks of i # rest \<Rightarrow> is_ident i \<and> take 1 rest \<noteq> [TkPunct PLParen] \<and> fields_then_equal True rest | [] \<Rightarrow> False)
      else k = TkPunct PEqual \<and> saw_dot)"
| "fields_then_equal saw_dot [] = False"

definition looks_like_field_assign :: "pstate \<Rightarrow> bool" where
  "looks_like_field_assign s \<longleftrightarrow> is_ident_opt (peek_kind 0 s) \<and> fields_then_equal False (kinds_from 1 s)"

section \<open>Statements\<close>

definition semicolon :: "token parser" where
  "semicolon = expect_keyword (quoted '';'') (punct PSemicolon)"

text \<open>\<open>expect_keyword\<close> for the keyword that opens a statement.\<close>

definition keyword_tok :: "string \<Rightarrow> keyword \<Rightarrow> token parser" where
  "keyword_tok name w = expect_keyword (quoted name) (kw w)"

definition parse_block :: "parsers \<Rightarrow> stmt list parser" where
  "parse_block p =
     thenP (expect_keyword (quoted ''{'') (punct PLBrace))
     (bindP (stmts_until_brace p) (\<lambda>body.
      thenP (expect_keyword (quoted ''}'') (punct PRBrace)) (ret body)))"

definition last_span :: "stmt list \<Rightarrow> span \<Rightarrow> span" where
  "last_span body sp = (if body = [] then sp else stmt_span (last body))"

definition annotation :: "parsers \<Rightarrow> ty option parser" where
  "annotation p =
     bindP (match_token (punct PColon)) (\<lambda>c. case c of
       None \<Rightarrow> ret None
     | Some _ \<Rightarrow> bindP (p_type p) (\<lambda>t. ret (Some t)))"

text \<open>\<open>= expr ;\<close> with the span of the semicolon.\<close>

definition init_value :: "expr parser \<Rightarrow> (expr \<times> span) parser" where
  "init_value pe =
     thenP (expect_keyword (quoted ''='') (punct PEqual))
     (bindP pe (\<lambda>e. bindP semicolon (\<lambda>semi. ret (e, tk_span semi))))"

definition parse_let_stmt :: "parsers \<Rightarrow> expr parser \<Rightarrow> stmt parser" where
  "parse_let_stmt p pe =
     bindP (keyword_tok ''let'' KwLet) (\<lambda>start.
     bindP (match_token (punct PLParen)) (\<lambda>c. case c of
       None \<Rightarrow>
         bindP ident (\<lambda>(name, _).
         bindP (annotation p) (\<lambda>ann.
         bindP (init_value pe) (\<lambda>(e, semi).
         ret (StLet name ann e (span_merge (tk_span start) semi)))))
     | Some _ \<Rightarrow>
         bindP (comma_list True (punct PRParen) (bindP ident (\<lambda>(n, _). ret n))) (\<lambda>names.
         thenP (expect_keyword (quoted '')'') (punct PRParen))
         (bindP (annotation p) (\<lambda>ann.
         bindP (init_value pe) (\<lambda>(e, semi).
         let sp = span_merge (tk_span start) semi in
         if length names < 2
         then failP (diagnostic_new sp ''destructure-let needs at least two names; use plain `let` for single bindings'')
         else ret (StLetTuple names ann e sp)))))))"

definition parse_return_stmt :: "expr parser \<Rightarrow> stmt parser" where
  "parse_return_stmt pe =
     bindP (keyword_tok ''return'' KwReturn) (\<lambda>start. bindP pe (\<lambda>e. bindP semicolon (\<lambda>semi.
     ret (StReturn e (span_merge (tk_span start) (tk_span semi))))))"

definition assert_message :: "string option parser" where
  "assert_message =
     bindP (match_token (punct PComma)) (\<lambda>c. case c of
       None \<Rightarrow> ret None
     | Some _ \<Rightarrow> bindP string_lit (\<lambda>(m, _). ret (Some m)))"

definition parse_assert_stmt :: "expr parser \<Rightarrow> stmt parser" where
  "parse_assert_stmt pe =
     bindP (keyword_tok ''assert'' KwAssert) (\<lambda>start. bindP pe (\<lambda>e. bindP assert_message (\<lambda>m. bindP semicolon (\<lambda>semi.
     ret (StAssert e m (span_merge (tk_span start) (tk_span semi)))))))"

definition parse_prove_stmt :: "expr parser \<Rightarrow> stmt parser" where
  "parse_prove_stmt pe =
     bindP (keyword_tok ''prove'' KwProve) (\<lambda>start. bindP pe (\<lambda>e. bindP semicolon (\<lambda>semi.
     ret (StProve e (span_merge (tk_span start) (tk_span semi))))))"

definition parse_print_item :: "expr parser \<Rightarrow> print_item parser" where
  "parse_print_item pe =
     bindP current (\<lambda>t. case tk_kind t of
       TkStr x \<Rightarrow> thenP bump (ret (PrStr x))
     | _ \<Rightarrow> bindP pe (\<lambda>e. ret (PrExpr e)))"

definition parse_print_stmt :: "expr parser \<Rightarrow> stmt parser" where
  "parse_print_stmt pe =
     bindP (keyword_tok ''print'' KwPrint) (\<lambda>start.
     bindP (repeatP (\<lambda>is. bindP (parse_print_item pe) (\<lambda>i.
       bindP (match_token (punct PComma)) (\<lambda>c.
       ret (if c = None then Inr (is @ [i]) else Inl (is @ [i]))))) []) (\<lambda>is.
     bindP semicolon (\<lambda>semi. ret (StPrint is (span_merge (tk_span start) (tk_span semi))))))"

definition parse_if_stmt :: "parsers \<Rightarrow> expr parser \<Rightarrow> stmt parser" where
  "parse_if_stmt p pe =
     bindP (keyword_tok ''if'' KwIf) (\<lambda>start.
     bindP pe (\<lambda>cond.
     bindP (parse_block p) (\<lambda>then_body.
     bindP (match_token (kw KwElse)) (\<lambda>c.
     bindP (case c of
         None \<Rightarrow> ret ([], last_span then_body (tk_span start))
       | Some _ \<Rightarrow> bindP (check (kw KwIf)) (\<lambda>b.
           if b then bindP (p_if p) (\<lambda>inner. ret ([inner], stmt_span inner))
           else bindP (parse_block p) (\<lambda>body. ret (body, last_span body (tk_span start))))) (\<lambda>(else_body, end_span).
     ret (StIf cond then_body else_body (span_merge (tk_span start) end_span)))))))"

text \<open>Loops.\<close>

definition parse_invariants :: "expr parser \<Rightarrow> expr list parser" where
  "parse_invariants pe = repeatP (\<lambda>es.
     bindP (match_token (kw KwInvariant)) (\<lambda>c. case c of
       None \<Rightarrow> ret (Inr es)
     | Some _ \<Rightarrow> bindP pe (\<lambda>e. thenP semicolon (ret (Inl (es @ [e])))))) []"

definition reduction_op_of :: "token_kind \<Rightarrow> reduction_op option" where
  "reduction_op_of k = map_of [(TkPunct PPlus, RAdd), (TkPunct PStar, RMul), (TkPunct PAndAnd, RAnd),
     (TkPunct POrOr, ROr), (TkPunct PAmp, RBitAnd), (TkPunct PPipe, RBitOr), (TkPunct PCaret, RBitXor),
     (TkIdent ''min'', RMin), (TkIdent ''max'', RMax)] k"

definition parse_reductions :: "reduction list parser" where
  "parse_reductions = repeatP (\<lambda>rs.
     bindP (match_token (kw KwReduce)) (\<lambda>c. case c of
       None \<Rightarrow> ret (Inr rs)
     | Some start \<Rightarrow>
         bindP ident (\<lambda>(var, _).
         thenP (expect_keyword (quoted ''with'') (kw KwWith))
         (bindP current (\<lambda>t. case reduction_op_of (tk_kind t) of
            None \<Rightarrow> failP (diagnostic_new (tk_span t)
              ''expected reduction operator (one of `+`, `*`, `&&`, `||`, `&`, `|`, `^`, `min`, `max`)'')
          | Some op \<Rightarrow>
              thenP bump (bindP semicolon (\<lambda>semi.
              ret (Inl (rs @ [\<lparr>rd_var = var, rd_op = op, rd_span = span_merge (tk_span start) (tk_span semi)\<rparr>]))))))))) []"

definition parse_while_stmt :: "parsers \<Rightarrow> expr parser \<Rightarrow> stmt parser" where
  "parse_while_stmt p pe =
     bindP (keyword_tok ''while'' KwWhile) (\<lambda>start.
     bindP pe (\<lambda>cond.
     bindP (parse_invariants pe) (\<lambda>invs.
     bindP (parse_block p) (\<lambda>body.
     ret (StWhile cond invs body (span_merge (tk_span start) (last_span body (tk_span start))))))))"

text \<open>The rest of a range loop after its bounds; \<open>sp\<close> is where its span starts.\<close>

definition range_for_rest ::
  "parsers \<Rightarrow> expr parser \<Rightarrow> bool \<Rightarrow> string \<Rightarrow> expr \<Rightarrow> expr \<Rightarrow> span \<Rightarrow> span \<Rightarrow> stmt parser" where
  "range_for_rest p pe parallel var lo hi sp empty_span =
     bindP (parse_invariants pe) (\<lambda>invs.
     bindP parse_reductions (\<lambda>rs.
     if rs \<noteq> [] \<and> \<not> parallel then
       failP (diagnostic_new (rd_span (hd rs)) (quoted ''reduce'' @ '' clauses are only valid on a `parallel for` loop''))
     else bindP (parse_block p) (\<lambda>body.
       ret (StFor var lo hi invs body (span_merge sp (last_span body empty_span)) parallel rs))))"

definition collection_for :: "parsers \<Rightarrow> bool \<Rightarrow> token \<Rightarrow> string \<Rightarrow> stmt parser" where
  "collection_for p parallel start var =
     bindP current (\<lambda>t.
     if tk_kind t = TkPunct PAmp then
       failP (diagnostic_new (tk_span t) (''use `for VAR in ref XS { '' @ ellipsis @ '' }` to iterate by borrow (T0.0)''))
     else bindP (match_token (kw KwRef)) (\<lambda>r.
       if parallel then
         failP (diagnostic_new (tk_span start) (quoted ''parallel'' @ '' is only valid on a range-form for loop''))
       else bindP ident (\<lambda>(collection, _).
         bindP (parse_block p) (\<lambda>body.
         ret (StForIter var collection (r = None) body (span_merge (tk_span start) (last_span body (tk_span start))))))))"

definition parse_for_stmt_inner :: "parsers \<Rightarrow> expr parser \<Rightarrow> bool \<Rightarrow> stmt parser" where
  "parse_for_stmt_inner p pe parallel =
     bindP (keyword_tok ''for'' KwFor) (\<lambda>start.
     bindP ident (\<lambda>(var, _).
     bindP (match_token (kw KwIn)) (\<lambda>c. case c of
       Some _ \<Rightarrow> collection_for p parallel start var
     | None \<Rightarrow>
         thenP (expect_keyword (quoted ''from'' @ '' (range form) or '' @ quoted ''in'' @ '' (collection-iter)'') (kw KwFrom))
         (bindP pe (\<lambda>lo.
         thenP (keyword_tok ''to'' KwTo)
         (bindP pe (\<lambda>hi. range_for_rest p pe parallel var lo hi (tk_span start) (tk_span start)))))))) "

text \<open>The postposition of the loop, the two words of \<open>for\<close> in Hindi, and those of \<open>from\<close> and \<open>to\<close>.\<close>

definition sov_word :: "string \<Rightarrow> string \<Rightarrow> string \<Rightarrow> string" where
  "sov_word english hindi rest = [CHR 0x27] @ english @ [CHR 0x27] @ '' / '' @ [CHR 0x27] @ hindi @ [CHR 0x27] @ '' postposition after the '' @ rest"

definition parse_sov_for_stmt :: "parsers \<Rightarrow> expr parser \<Rightarrow> bool \<Rightarrow> stmt parser" where
  "parse_sov_for_stmt p pe parallel =
     bindP ident (\<lambda>(var, vsp).
     bindP (expect_keyword (sov_word ''for'' (deva [0x15, 0x47] @ '' '' @ deva [0x32, 0x3F, 0x0F]) ''loop variable'') (kw KwFor)) (\<lambda>for_tok.
     bindP pe (\<lambda>lo.
     thenP (expect_keyword (sov_word ''from'' (deva [0x38, 0x47]) ''start value'') (kw KwFrom))
     (bindP pe (\<lambda>hi.
     thenP (expect_keyword (sov_word ''to'' (deva [0x24, 0x15]) ''end value'') (kw KwTo))
     (range_for_rest p pe parallel var lo hi vsp (tk_span for_tok)))))))"

text \<open>Tasks.\<close>

definition parse_task_spawn_stmt :: "parsers \<Rightarrow> stmt parser" where
  "parse_task_spawn_stmt p =
     bindP (keyword_tok ''task'' KwTask) (\<lambda>start.
     bindP ident (\<lambda>(name, _).
     thenP (expect_keyword (quoted ''{'') (punct PLBrace))
     (bindP (repeatP (\<lambda>body. bindP (check block_end) (\<lambda>b.
        if b then ret (Inr body) else bindP (p_stmt p) (\<lambda>x. ret (Inl (body @ [x]))))) []) (\<lambda>body.
     bindP (expect_keyword (quoted ''}'') (punct PRBrace)) (\<lambda>close.
     ret (StTaskSpawn name body (span_merge (tk_span start) (tk_span close))))))))"

definition parse_task_join_stmt :: "stmt parser" where
  "parse_task_join_stmt =
     bindP (keyword_tok ''join'' KwJoin) (\<lambda>start. bindP ident (\<lambda>(name, _). bindP semicolon (\<lambda>semi.
     ret (StTaskJoin name (span_merge (tk_span start) (tk_span semi))))))"

text \<open>Assignments.\<close>

definition parse_assign_stmt :: "expr parser \<Rightarrow> stmt parser" where
  "parse_assign_stmt pe =
     bindP ident (\<lambda>(name, sp). bindP (init_value pe) (\<lambda>(e, semi). ret (StAssign name e (span_merge sp semi))))"

definition index_place :: "expr parser \<Rightarrow> (string \<times> span \<times> expr) parser" where
  "index_place pe =
     bindP ident (\<lambda>(name, sp).
     thenP (expect_keyword (quoted ''['') (punct PLBracket))
     (bindP pe (\<lambda>index.
      thenP (expect_keyword (quoted '']'') (punct PRBracket)) (ret (name, sp, index)))))"

definition parse_index_assign_stmt :: "expr parser \<Rightarrow> stmt parser" where
  "parse_index_assign_stmt pe =
     bindP (index_place pe) (\<lambda>(name, sp, index).
     bindP (init_value pe) (\<lambda>(e, semi). ret (StIndexAssign name index [] e (span_merge sp semi))))"

definition parse_index_then_field_assign_stmt :: "expr parser \<Rightarrow> stmt parser" where
  "parse_index_then_field_assign_stmt pe =
     bindP (index_place pe) (\<lambda>(name, sp, index).
     bindP (repeatP (\<lambda>path. bindP (match_token (punct PDot)) (\<lambda>c. case c of
         None \<Rightarrow> ret (Inr path)
       | Some _ \<Rightarrow> bindP ident (\<lambda>(f, _). bindP (check (\<lambda>k. k \<in> {TkPunct PDot, TkPunct PEqual})) (\<lambda>b.
           if b then ret (Inl (path @ [f]))
           else fail_here (''expected '' @ quoted ''.<field>'' @ '' or '' @ quoted ''='' @ '' after indexed field-access''))))) []) (\<lambda>path.
     bindP (init_value pe) (\<lambda>(e, semi). ret (StIndexAssign name index path e (span_merge sp semi)))))"

definition parse_field_assign_stmt :: "expr parser \<Rightarrow> stmt parser" where
  "parse_field_assign_stmt pe =
     bindP ident (\<lambda>(head, hsp).
     repeatP (\<lambda>object.
       thenP (expect_keyword (quoted ''.'') (punct PDot))
       (bindP ident (\<lambda>(field, fsp).
        bindP (check (punct PEqual)) (\<lambda>b.
        if b then bindP (init_value pe) (\<lambda>(e, semi). ret (Inr (StFieldAssign object field fsp e (span_merge hsp semi))))
        else ret (Inl (Expr (KFieldAccess object field) (span_merge hsp fsp))))))) (Expr (KVar head) hsp))"

text \<open>Statements whose verb comes last.\<close>

definition sov_print_items :: "expr parser \<Rightarrow> print_item list parser" where
  "sov_print_items pe = repeatP (\<lambda>is. bindP (parse_print_item pe) (\<lambda>i.
     bindP (check (kw KwPrint)) (\<lambda>b.
     if b then ret (Inr (is @ [i]))
     else bindP (match_token (punct PComma)) (\<lambda>c. ret (if c = None then Inr (is @ [i]) else Inl (is @ [i])))))) []"

definition sov_unexpected :: "(token_kind \<Rightarrow> string) \<Rightarrow> token_kind \<Rightarrow> string" where
  "sov_unexpected show verb = ''internal: unexpected SOV verb '' @ show verb @ '' '' @ em_dash @ '' expected Return / Print / Assert / Prove''"

definition parse_sov_verb_stmt :: "expr parser \<Rightarrow> (token_kind \<Rightarrow> string) \<Rightarrow> token_kind \<Rightarrow> stmt parser" where
  "parse_sov_verb_stmt pe show verb =
     bindP current (\<lambda>t. let start = tk_span t in
     if verb = TkKw KwReturn then
       bindP pe (\<lambda>e. thenP bump (bindP semicolon (\<lambda>semi. ret (StReturn e (span_merge start (tk_span semi))))))
     else if verb = TkKw KwProve then
       bindP pe (\<lambda>e. thenP bump (bindP semicolon (\<lambda>semi. ret (StProve e (span_merge start (tk_span semi))))))
     else if verb = TkKw KwAssert then
       bindP pe (\<lambda>e. bindP assert_message (\<lambda>m. thenP bump (bindP semicolon (\<lambda>semi.
         ret (StAssert e m (span_merge start (tk_span semi)))))))
     else if verb = TkKw KwPrint then
       bindP (sov_print_items pe) (\<lambda>is. thenP bump (bindP semicolon (\<lambda>semi.
         ret (StPrint is (span_merge start (tk_span semi))))))
     else failP (diagnostic_new start (sov_unexpected show verb)))"

text \<open>A statement in braces is an \<open>if true\<close>.\<close>

definition block_stmt :: "parsers \<Rightarrow> stmt parser" where
  "block_stmt p =
     bindP current (\<lambda>t. let start = tk_span t in
     bindP (parse_block p) (\<lambda>body.
     ret (StIf (Expr (KBool True) start) body [] (span_merge start (last_span body start)))))"

text \<open>A call followed by a semicolon; anything else is an error at the place it started.\<close>

definition is_call :: "expr \<Rightarrow> bool" where
  "is_call e = (case e_kind e of KCall _ _ _ \<Rightarrow> True | KMethodCall _ _ _ _ \<Rightarrow> True | _ \<Rightarrow> False)"

definition rewind :: "nat \<Rightarrow> 'a parser" where
  "rewind pos = thenP (modifyP (\<lambda>s. s\<lparr>ps_pos := pos\<rparr>)) (fail_here ''expected statement'')"

definition expr_stmt :: "expr parser \<Rightarrow> stmt parser" where
  "expr_stmt pe =
     bindP (getP ps_pos) (\<lambda>pos. bindP current (\<lambda>t.
     handleP pe
       (\<lambda>e. bindP (match_token (punct PSemicolon)) (\<lambda>c. case c of
          None \<Rightarrow> rewind pos
        | Some semi \<Rightarrow>
            if is_call e then ret (StLet ''_'' None e (span_merge (tk_span t) (tk_span semi))) else rewind pos))
       (\<lambda>_. rewind pos)))"

definition keyword_stmt :: "(span \<Rightarrow> stmt) \<Rightarrow> stmt parser" where
  "keyword_stmt mk = bindP bump (\<lambda>t. bindP semicolon (\<lambda>semi. ret (mk (span_merge (tk_span t) (tk_span semi)))))"

text \<open>Statements that do not start with a keyword.\<close>

definition plain_stmt :: "parsers \<Rightarrow> expr parser \<Rightarrow> (token_kind \<Rightarrow> string) \<Rightarrow> stmt parser" where
  "plain_stmt p pe show =
     bindP (getP looks_like_sov_verb_at_end) (\<lambda>v. case v of
       Some verb \<Rightarrow> parse_sov_verb_stmt pe show verb
     | None \<Rightarrow>
         bindP (getP (\<lambda>s. (looks_like_assignment s, looks_like_index_assign s, looks_like_field_assign s,
                           looks_like_index_then_field_assign s, peek_kind 0 s))) (\<lambda>(a, i, f, x, k).
         if a then parse_assign_stmt pe
         else if i then parse_index_assign_stmt pe
         else if f then parse_field_assign_stmt pe
         else if x then parse_index_then_field_assign_stmt pe
         else if k = Some (TkPunct PLBrace) then block_stmt p
         else expr_stmt pe))"

definition parse_stmt :: "parsers \<Rightarrow> expr parser \<Rightarrow> (token_kind \<Rightarrow> string) \<Rightarrow> stmt parser" where
  "parse_stmt p pe show =
     bindP current (\<lambda>t. let k = tk_kind t in
     bindP (getP (\<lambda>s. (looks_like_sov_for s, looks_like_sov_parallel_for s))) (\<lambda>(sov, sov_par).
     if k = TkKw KwLet then parse_let_stmt p pe
     else if k = TkKw KwReturn then parse_return_stmt pe
     else if k = TkKw KwAssert then parse_assert_stmt pe
     else if k = TkKw KwProve then parse_prove_stmt pe
     else if k = TkKw KwPrint then parse_print_stmt pe
     else if k = TkKw KwIf then parse_if_stmt p pe
     else if k = TkKw KwWhile then parse_while_stmt p pe
     else if k = TkKw KwFor then parse_for_stmt_inner p pe False
     else if sov then parse_sov_for_stmt p pe False
     else if sov_par then thenP bump (parse_sov_for_stmt p pe True)
     else if k = TkKw KwParallel then thenP bump (parse_for_stmt_inner p pe True)
     else if k = TkKw KwTask then parse_task_spawn_stmt p
     else if k = TkKw KwJoin then parse_task_join_stmt
     else if k = TkKw KwBreak then keyword_stmt StBreak
     else if k = TkKw KwContinue then keyword_stmt StContinue
     else plain_stmt p pe show))"

section \<open>The recursion\<close>

text \<open>
  What the parser takes from the standard library: \<open>{:?}\<close> of a float and of a token kind (the
  latter only in the text of an internal error).
\<close>

record debug_fmt =
  dbg_float :: "f64 \<Rightarrow> string"
  dbg_kind :: "token_kind \<Rightarrow> string"

text \<open>The recursive parsers with \<open>n\<close> nested calls left.\<close>

primrec parsers_at :: "debug_fmt \<Rightarrow> nat \<Rightarrow> parsers" where
  "parsers_at D 0 = \<lparr>p_type = no_fuel, p_expr = no_fuel, p_binary = (\<lambda>_. no_fuel), p_unary = no_fuel, p_call = no_fuel,
     p_primary = no_fuel, p_stmt = no_fuel, p_let = no_fuel, p_print = no_fuel, p_if = no_fuel\<rparr>"
| "parsers_at D (Suc n) =
     (let p = parsers_at D n; dbg = dbg_float D; pe = parse_expr dbg p in
      \<lparr>p_type = parse_type p, p_expr = pe, p_binary = parse_binary_expr dbg p, p_unary = parse_unary_expr dbg p,
       p_call = parse_call_expr dbg p, p_primary = parse_primary_expr p, p_stmt = parse_stmt p pe (dbg_kind D),
       p_let = parse_let_stmt p pe, p_print = parse_print_stmt pe, p_if = parse_if_stmt p pe\<rparr>)"

end
