(* ===== verification/ParserItem.thy ===== *)
theory ParserItem
  imports ParserStmt
begin

text \<open>
  Declarations, modules and whole programs (\<open>parse_program\<close> to \<open>parse_extern_fn\<close> of
  \<open>src/parser.rs\<close>). \<open>p\<close> are the recursive parsers and \<open>pe\<close> is the parser of expressions, as for
  statements.
\<close>

section \<open>Functions\<close>

text \<open>\<open><T, U>\<close>, when there is one.\<close>

definition type_params :: "string list parser" where
  "type_params =
     bindP (match_token (punct PLess)) (\<lambda>c. case c of
       None \<Rightarrow> ret []
     | Some _ \<Rightarrow>
         bindP (comma_list True (\<lambda>k. k \<in> {TkPunct PGreater, TkPunct PGreaterGreater}) (bindP ident (\<lambda>(n, _). ret n))) (\<lambda>ns.
         thenP expect_close_angle (ret ns)))"

text \<open>
  The type parameters are in scope while the rest is parsed and are dropped at its end. An error
  leaves early, and then they are not dropped.
\<close>

definition scoped :: "string list \<Rightarrow> 'a parser \<Rightarrow> 'a parser" where
  "scoped names m =
     bindP (getP ps_type_params) (\<lambda>saved.
     thenP (modifyP (\<lambda>s. s\<lparr>ps_type_params := names @ saved\<rparr>))
     (bindP m (\<lambda>x. thenP (modifyP (\<lambda>s. s\<lparr>ps_type_params := saved\<rparr>)) (ret x))))"

definition where_bound :: "where_clause parser" where
  "where_bound =
     bindP ident (\<lambda>(tp, sp). thenP (expect_keyword (quoted ''is'') (kw KwIs))
     (bindP ident (\<lambda>(iface, sp2). ret \<lparr>wc_type_param = tp, wc_interface_name = iface, wc_span = span_merge sp sp2\<rparr>)))"

definition where_clauses :: "where_clause list parser" where
  "where_clauses =
     bindP (match_token (kw KwWhere)) (\<lambda>c. case c of
       None \<Rightarrow> ret []
     | Some _ \<Rightarrow> comma_list True (\<lambda>k. k \<in> {TkPunct PLBrace, TkKw KwRequires, TkKw KwEnsures}) where_bound)"

definition contracts :: "expr parser \<Rightarrow> (expr list \<times> expr list) parser" where
  "contracts pe = repeatP (\<lambda>(reqs, enss).
     bindP (match_token (\<lambda>k. k \<in> {TkKw KwRequires, TkKw KwEnsures})) (\<lambda>c. case c of
       None \<Rightarrow> ret (Inr (reqs, enss))
     | Some t \<Rightarrow> bindP pe (\<lambda>e. thenP semicolon
         (ret (Inl (if tk_kind t = TkKw KwRequires then (reqs @ [e], enss) else (reqs, enss @ [e]))))))) ([], [])"

definition function_rest :: "parsers \<Rightarrow> expr parser \<Rightarrow> bool \<Rightarrow> token \<Rightarrow> string \<Rightarrow> span \<Rightarrow> string list \<Rightarrow> function_decl parser" where
  "function_rest p pe is_pure fn_token name name_span tps =
     thenP (expect_keyword (quoted ''('') (punct PLParen))
     (bindP (opt_comma_list True (punct PRParen) (parse_param p)) (\<lambda>params.
     thenP (expect_keyword (quoted '')'') (punct PRParen))
     (bindP (return_type p) (\<lambda>(unit_return, ty).
     bindP where_clauses (\<lambda>wcs.
     bindP (contracts pe) (\<lambda>(reqs, enss).
     thenP (expect_keyword (quoted ''{'') (punct PLBrace))
     (bindP (stmts_until_brace p) (\<lambda>body.
     bindP (expect_keyword (quoted ''}'') (punct PRBrace)) (\<lambda>close.
     ret \<lparr>f_name = name, f_type_params = tps, f_where_clauses = wcs, f_params = params, f_return_type = ty,
          f_requires = reqs, f_ensures = enss, f_body = unit_body unit_return body (tk_span close),
          f_span = span_merge (span_merge (tk_span fn_token) (tk_span close)) name_span,
          f_is_pure = is_pure, f_recursion_bound = None, f_is_extern = False\<rparr>))))))))) "

definition parse_function :: "parsers \<Rightarrow> expr parser \<Rightarrow> function_decl parser" where
  "parse_function p pe =
     bindP (match_token (kw KwPure)) (\<lambda>pure.
     bindP (keyword_tok ''fn'' KwFn) (\<lambda>fn_token.
     bindP ident (\<lambda>(name, name_span).
     bindP type_params (\<lambda>tps.
     scoped tps (function_rest p pe (pure \<noteq> None) fn_token name name_span tps)))))"

text \<open>\<open>#[bounded(N)]\<close>; \<open>v as u64\<close> keeps the low 64 bits.\<close>

definition recursion_bound :: "string \<Rightarrow> nat parser" where
  "recursion_bound attr =
     (if attr = ''bounded'' then
        thenP (expect_keyword (quoted ''('' @ '' after `bounded`'') (punct PLParen))
        (bindP bump (\<lambda>t.
         bindP (case tk_kind t of
             TkInt v \<Rightarrow> if v \<ge> 0 then ret (as_u64 v)
               else failP (diagnostic_new (tk_span t) ''expected a non-negative integer literal as the bound'')
           | _ \<Rightarrow> failP (diagnostic_new (tk_span t) ''expected a non-negative integer literal as the bound'')) (\<lambda>n.
         thenP (expect_keyword (quoted '')'') (punct PRParen)) (ret n))))
      else fail_here (''unknown attribute '' @ quoted (''#['' @ attr @ '']'') @ '' '' @ em_dash @
        '' only `#[bounded(N)]` is recognized in v1''))"

definition parse_attributed_fn :: "parsers \<Rightarrow> expr parser \<Rightarrow> function_decl parser" where
  "parse_attributed_fn p pe =
     thenP (expect_keyword (quoted ''#'') (punct PHash))
     (thenP (expect_keyword (quoted ''['') (punct PLBracket))
     (bindP ident (\<lambda>(attr, _).
     bindP (recursion_bound attr) (\<lambda>n.
     thenP (expect_keyword (quoted '']'') (punct PRBracket))
     (bindP (parse_function p pe) (\<lambda>f. ret (f\<lparr>f_recursion_bound := Some n\<rparr>)))))))"

definition extern_param :: "parsers \<Rightarrow> param parser" where
  "extern_param p =
     bindP ident (\<lambda>(name, sp).
     thenP (expect_keyword (quoted '':'' @ '' after extern param name'') (punct PColon))
     (bindP (p_type p) (\<lambda>ty. bindP current (\<lambda>t.
      ret \<lparr>pa_name = name, pa_ty = ty, pa_name_span = sp, pa_span = span_merge sp (tk_span t)\<rparr>))))"

definition parse_extern_fn :: "parsers \<Rightarrow> function_decl parser" where
  "parse_extern_fn p =
     bindP (keyword_tok ''extern'' KwExtern) (\<lambda>start.
     bindP string_lit (\<lambda>(abi, abi_span).
     if abi \<noteq> ''C'' then
       failP (diagnostic_new abi_span (''only `extern \"C\"` is supported in v1; got `extern \"'' @ abi @ ''\"`''))
     else
       thenP (expect_keyword (quoted ''fn'' @ '' after `extern \"C\"`'') (kw KwFn))
       (bindP ident (\<lambda>(name, _).
       thenP (expect_keyword (quoted ''('' @ '' after extern fn name'') (punct PLParen))
       (bindP (opt_comma_list False (punct PRParen) (extern_param p)) (\<lambda>params.
       thenP (expect_keyword (quoted '')'' @ '' to close extern fn params'') (punct PRParen))
       (thenP (expect_keyword (quoted ''->'' @ '' before extern fn return type'') (punct PArrow))
       (bindP (p_type p) (\<lambda>ty.
       bindP (expect_keyword (quoted '';'' @ '' after extern fn signature'') (punct PSemicolon)) (\<lambda>semi.
       ret \<lparr>f_name = name, f_type_params = [], f_where_clauses = [], f_params = params, f_return_type = ty,
            f_requires = [], f_ensures = [], f_body = [], f_span = span_merge (tk_span start) (tk_span semi),
            f_is_pure = False, f_recursion_bound = None, f_is_extern = True\<rparr>))))))))))"

section \<open>Other declarations\<close>

text \<open>\<open>{ fn ... }\<close> with the span of the closing brace.\<close>

definition fn_block :: "parsers \<Rightarrow> expr parser \<Rightarrow> (function_decl list \<times> span) parser" where
  "fn_block p pe =
     thenP (expect_keyword (quoted ''{'') (punct PLBrace))
     (bindP (repeatP (\<lambda>fs. bindP (check block_end) (\<lambda>b.
        if b then ret (Inr fs) else bindP (parse_function p pe) (\<lambda>f. ret (Inl (fs @ [f]))))) []) (\<lambda>fs.
     bindP (expect_keyword (quoted ''}'') (punct PRBrace)) (\<lambda>close. ret (fs, tk_span close))))"

definition parse_methods_block :: "parsers \<Rightarrow> expr parser \<Rightarrow> methods_block parser" where
  "parse_methods_block p pe =
     bindP (keyword_tok ''methods'' KwMethods) (\<lambda>start.
     bindP ident (\<lambda>(on, on_span).
     if on \<noteq> ''on'' then
       failP (diagnostic_new on_span (''expected '' @ quoted ''on'' @ '' in `methods on <Type> { '' @ ellipsis @ '' }`''))
     else
       bindP current (\<lambda>t.
       bindP (p_type p) (\<lambda>ty.
       bindP (fn_block p pe) (\<lambda>(fs, close).
       ret \<lparr>mb_for_type = ty, mb_for_type_span = tk_span t, mb_methods = fs, mb_span = span_merge (tk_span start) close\<rparr>)))))"

definition parse_type_alias :: "parsers \<Rightarrow> alias_decl parser" where
  "parse_type_alias p =
     bindP (keyword_tok ''type'' KwType) (\<lambda>start.
     bindP ident (\<lambda>(name, sp).
     thenP (expect_keyword (quoted ''='') (punct PEqual))
     (bindP (p_type p) (\<lambda>ty. bindP semicolon (\<lambda>semi.
      ret \<lparr>ta_name = name, ta_name_span = sp, ta_target = ty, ta_span = span_merge (tk_span start) (tk_span semi)\<rparr>)))))"

text \<open>\<open>expr_as_int_literal\<close>: the value of an initializer, for later array lengths.\<close>

fun expr_as_int_literal :: "(string \<rightharpoonup> int) \<Rightarrow> expr \<Rightarrow> int option" where
  "expr_as_int_literal m (Expr (KInt v) _) = Some v"
| "expr_as_int_literal m (Expr (KVar name) _) = m name"
| "expr_as_int_literal m (Expr (KUnary UNeg e) _) = Option.bind (expr_as_int_literal m e) (\<lambda>v. i128_checked (- v))"
| "expr_as_int_literal m (Expr (KBinary op l r) _) =
     Option.bind (expr_as_int_literal m l) (\<lambda>a.
     Option.bind (expr_as_int_literal m r) (\<lambda>b.
     case op of
       Add \<Rightarrow> i128_checked (a + b)
     | Sub \<Rightarrow> i128_checked (a - b)
     | Mul \<Rightarrow> i128_checked (a * b)
     | Div \<Rightarrow> if b \<noteq> 0 then i128_checked (trunc_div a b) else None
     | Rem \<Rightarrow> if b \<noteq> 0 \<and> \<not> (a = i128_min \<and> b = -1) then Some (trunc_rem a b) else None
     | _ \<Rightarrow> None))"
| "expr_as_int_literal m _ = None"

definition parse_const_decl :: "parsers \<Rightarrow> expr parser \<Rightarrow> const_decl parser" where
  "parse_const_decl p pe =
     bindP (keyword_tok ''const'' KwConst) (\<lambda>start.
     bindP ident (\<lambda>(name, sp).
     thenP (expect_keyword (quoted '':'') (punct PColon))
     (bindP (p_type p) (\<lambda>ty.
     bindP (init_value pe) (\<lambda>(e, semi).
     bindP (getP ps_consts) (\<lambda>m.
     thenP (case expr_as_int_literal m e of
         Some v \<Rightarrow> modifyP (\<lambda>s. s\<lparr>ps_consts := m(name \<mapsto> v)\<rparr>)
       | None \<Rightarrow> ret ())
     (ret \<lparr>cd_name = name, cd_name_span = sp, cd_ty = ty, cd_value = e, cd_span = span_merge (tk_span start) semi\<rparr>)))))))"

definition interface_method :: "parsers \<Rightarrow> interface_method parser" where
  "interface_method p =
     bindP (keyword_tok ''fn'' KwFn) (\<lambda>fn_tok.
     bindP ident (\<lambda>(name, sp).
     thenP (expect_keyword (quoted ''('') (punct PLParen))
     (bindP (opt_comma_list True (punct PRParen) (parse_param p)) (\<lambda>params.
     thenP (expect_keyword (quoted '')'') (punct PRParen))
     (thenP (expect_keyword (quoted ''returns'') (punct PArrow))
     (bindP (p_type p) (\<lambda>ty.
     bindP semicolon (\<lambda>semi.
     ret \<lparr>im_name = name, im_name_span = sp, im_params = params, im_return_type = ty,
          im_span = span_merge (tk_span fn_tok) (tk_span semi)\<rparr>))))))))"

definition parse_interface_decl :: "parsers \<Rightarrow> interface_decl parser" where
  "parse_interface_decl p =
     bindP (keyword_tok ''interface'' KwInterface) (\<lambda>start.
     bindP ident (\<lambda>(name, sp).
     thenP (expect_keyword (quoted ''{'') (punct PLBrace))
     (bindP (repeatP (\<lambda>ms. bindP (check block_end) (\<lambda>b.
        if b then ret (Inr ms) else bindP (interface_method p) (\<lambda>m. ret (Inl (ms @ [m]))))) []) (\<lambda>ms.
     bindP (expect_keyword (quoted ''}'') (punct PRBrace)) (\<lambda>close.
     ret \<lparr>id_name = name, id_name_span = sp, id_methods = ms, id_span = span_merge (tk_span start) (tk_span close)\<rparr>)))))"

definition parse_impl_decl :: "parsers \<Rightarrow> expr parser \<Rightarrow> impl_decl parser" where
  "parse_impl_decl p pe =
     bindP (keyword_tok ''implement'' KwImplement) (\<lambda>start.
     bindP ident (\<lambda>(iface, _).
     thenP (expect_keyword (quoted ''for'' @ '' in `implement <Iface> for <Type>`'') (kw KwFor))
     (bindP (p_type p) (\<lambda>ty.
     bindP (fn_block p pe) (\<lambda>(fs, close).
     ret \<lparr>ip_interface_name = iface, ip_for_type = ty, ip_methods = fs, ip_span = span_merge (tk_span start) close,
          ip_home_module = None\<rparr>)))))"

text \<open>The members of a struct or an enum: separated by commas, up to the closing brace.\<close>

definition members :: "string \<Rightarrow> 'a parser \<Rightarrow> 'a list parser" where
  "members what member = repeatP (\<lambda>xs. bindP (check block_end) (\<lambda>b.
     if b then ret (Inr xs)
     else bindP member (\<lambda>x. bindP (match_token (punct PComma)) (\<lambda>c.
       bindP (check (punct PRBrace)) (\<lambda>closes.
       if c = None \<and> \<not> closes
       then fail_here (''expected '' @ quoted '','' @ '' between '' @ what @ '' or '' @ quoted ''}'' @ '' to close'')
       else ret (Inl (xs @ [x]))))))) []"

definition enum_variant :: "parsers \<Rightarrow> enum_variant parser" where
  "enum_variant p =
     bindP ident (\<lambda>(name, sp).
     bindP (match_token (punct PLParen)) (\<lambda>c. case c of
       None \<Rightarrow> ret \<lparr>ev_name = name, ev_name_span = sp, ev_payload = []\<rparr>
     | Some _ \<Rightarrow>
         bindP (opt_comma_list False (punct PRParen) (p_type p)) (\<lambda>tys.
         thenP (expect_keyword (quoted '')'') (punct PRParen))
         (ret \<lparr>ev_name = name, ev_name_span = sp, ev_payload = tys\<rparr>))))"

definition parse_enum_decl :: "parsers \<Rightarrow> enum_decl parser" where
  "parse_enum_decl p =
     bindP (keyword_tok ''enum'' KwEnum) (\<lambda>start.
     bindP ident (\<lambda>(name, sp).
     bindP type_params (\<lambda>tps.
     scoped tps
       (thenP (expect_keyword (quoted ''{'') (punct PLBrace))
       (bindP (members ''enum variants'' (enum_variant p)) (\<lambda>vs.
       bindP (expect_keyword (quoted ''}'') (punct PRBrace)) (\<lambda>close.
       ret \<lparr>ed_name = name, ed_name_span = sp, ed_type_params = tps, ed_variants = vs,
            ed_span = span_merge (tk_span start) (tk_span close)\<rparr>))))))) "

definition struct_field :: "parsers \<Rightarrow> struct_field parser" where
  "struct_field p =
     bindP ident (\<lambda>(name, sp).
     thenP (expect_keyword (quoted '':'') (punct PColon))
     (bindP (p_type p) (\<lambda>ty. ret \<lparr>sf_name = name, sf_ty = ty, sf_span = sp\<rparr>)))"

definition parse_struct_decl :: "parsers \<Rightarrow> struct_decl parser" where
  "parse_struct_decl p =
     bindP (keyword_tok ''struct'' KwStruct) (\<lambda>start.
     bindP ident (\<lambda>(name, sp).
     bindP type_params (\<lambda>tps.
     scoped tps
       (thenP (expect_keyword (quoted ''{'') (punct PLBrace))
       (bindP (members ''struct fields'' (struct_field p)) (\<lambda>fs.
       bindP (expect_keyword (quoted ''}'') (punct PRBrace)) (\<lambda>close.
       ret \<lparr>sd_name = name, sd_name_span = sp, sd_type_params = tps, sd_fields = fs,
            sd_span = span_merge (tk_span start) (tk_span close)\<rparr>))))))) "

section \<open>Imports\<close>

datatype use_decl = UseFile use_file | UsePath use_path | UsePathMulti "use_path list"

definition use_alias :: "(string \<times> span) option parser" where
  "use_alias =
     bindP (match_token ((=) (TkWord WAs))) (\<lambda>c. case c of
       None \<Rightarrow> ret None
     | Some _ \<Rightarrow> bindP ident (\<lambda>a. ret (Some a)))"

text \<open>The segments of the module path, joined with double underscores, up to the last name.\<close>

definition use_module :: "string \<Rightarrow> string parser" where
  "use_module first = repeatP (\<lambda>m.
     bindP (getP (\<lambda>s. (peek_kind 0 s, peek_kind 1 s))) (\<lambda>(k, next).
     if k \<in> {Some (TkPunct PLBrace), Some (TkPunct PStar)} \<or> next \<noteq> Some (TkPunct PColonColon) then ret (Inr m)
     else bindP ident (\<lambda>(seg, _).
       thenP (expect_keyword (quoted ''::'' @ '' in `use` path'') (punct PColonColon)) (ret (Inl (join_path m seg)))))) first"

definition use_item :: "(string \<times> string option \<times> span) parser" where
  "use_item =
     bindP ident (\<lambda>(item, sp). bindP use_alias (\<lambda>a.
     ret (item, map_option fst a, span_merge sp (case a of Some (_, sp2) \<Rightarrow> sp2 | None \<Rightarrow> sp))))"

definition use_list :: "(string \<times> string option \<times> span) list parser" where
  "use_list = repeatP (\<lambda>xs. bindP (check block_end) (\<lambda>b.
     if b then ret (Inr xs)
     else bindP use_item (\<lambda>x. bindP (match_token (punct PComma)) (\<lambda>c.
       bindP (check (punct PRBrace)) (\<lambda>closes.
       ret (if c = None \<or> closes then Inr (xs @ [x]) else Inl (xs @ [x]))))))) []"

definition use_multi :: "bool \<Rightarrow> token \<Rightarrow> string \<Rightarrow> use_decl parser" where
  "use_multi is_pub start m =
     bindP use_list (\<lambda>xs.
     thenP (expect_keyword (quoted ''}'' @ '' in `use { '' @ ellipsis @ '' }` list'') (punct PRBrace))
     (bindP semicolon (\<lambda>semi.
      if xs = [] then
        failP (diagnostic_new (span_merge (tk_span start) (tk_span semi)) ''`use foo::{}` must list at least one item'')
      else ret (UsePathMulti (map (\<lambda>(item, alias, sp).
        \<lparr>up_module = m, up_item = item, up_alias = alias, up_is_pub = is_pub, up_span = span_merge (tk_span start) sp\<rparr>) xs)))))"

definition use_path_decl :: "bool \<Rightarrow> token \<Rightarrow> use_decl parser" where
  "use_path_decl is_pub start =
     bindP ident (\<lambda>(first, _).
     thenP (expect_keyword (quoted ''::'' @ '' in `use` path'') (punct PColonColon))
     (bindP (use_module first) (\<lambda>m.
     bindP (match_token (\<lambda>k. k \<in> {TkPunct PStar, TkPunct PLBrace})) (\<lambda>c. case c of
       Some t \<Rightarrow>
         if tk_kind t = TkPunct PStar then
           bindP semicolon (\<lambda>semi. ret (UsePath \<lparr>up_module = m, up_item = ''*'', up_alias = None, up_is_pub = is_pub,
             up_span = span_merge (tk_span start) (span_merge (tk_span semi) (tk_span t))\<rparr>))
         else use_multi is_pub start m
     | None \<Rightarrow>
         bindP ident (\<lambda>(item, _). bindP use_alias (\<lambda>a. bindP semicolon (\<lambda>semi.
         ret (UsePath \<lparr>up_module = m, up_item = item, up_alias = map_option fst a, up_is_pub = is_pub,
           up_span = span_merge (tk_span start) (tk_span semi)\<rparr>))))))))"

definition parse_use :: "bool \<Rightarrow> use_decl parser" where
  "parse_use is_pub =
     bindP (keyword_tok ''use'' KwUse) (\<lambda>start.
     bindP (check is_str) (\<lambda>b.
     if b then
       bindP string_lit (\<lambda>(path, _). bindP semicolon (\<lambda>semi.
       ret (UseFile \<lparr>us_path = path, us_span = span_merge (tk_span start) (tk_span semi)\<rparr>)))
     else use_path_decl is_pub start))"

definition parse_intent :: "intent_decl parser" where
  "parse_intent =
     bindP (expect_keyword ''intent'' (kw KwIntent)) (\<lambda>start. bindP string_lit (\<lambda>(text, _). bindP semicolon (\<lambda>semi.
     ret \<lparr>in_text = text, in_span = span_merge (tk_span start) (tk_span semi)\<rparr>)))"

section \<open>Modules\<close>

type_synonym module_body = "items \<times> module_decl list \<times> visibility"

text \<open>A parsed item goes to its list, and its visibility to the list that runs in parallel.\<close>

definition add_fn :: "bool \<times> bool \<Rightarrow> module_body \<Rightarrow> function_decl \<Rightarrow> module_body" where
  "add_fn v b x = (case b of (it, ms, vis) \<Rightarrow>
     (it\<lparr>it_functions := it_functions it @ [x]\<rparr>, ms, vis\<lparr>v_functions := v_functions vis @ [v]\<rparr>))"
definition add_struct :: "bool \<times> bool \<Rightarrow> module_body \<Rightarrow> struct_decl \<Rightarrow> module_body" where
  "add_struct v b x = (case b of (it, ms, vis) \<Rightarrow>
     (it\<lparr>it_structs := it_structs it @ [x]\<rparr>, ms, vis\<lparr>v_structs := v_structs vis @ [v]\<rparr>))"
definition add_enum :: "bool \<times> bool \<Rightarrow> module_body \<Rightarrow> enum_decl \<Rightarrow> module_body" where
  "add_enum v b x = (case b of (it, ms, vis) \<Rightarrow>
     (it\<lparr>it_enums := it_enums it @ [x]\<rparr>, ms, vis\<lparr>v_enums := v_enums vis @ [v]\<rparr>))"
definition add_interface :: "bool \<times> bool \<Rightarrow> module_body \<Rightarrow> interface_decl \<Rightarrow> module_body" where
  "add_interface v b x = (case b of (it, ms, vis) \<Rightarrow>
     (it\<lparr>it_interfaces := it_interfaces it @ [x]\<rparr>, ms, vis\<lparr>v_interfaces := v_interfaces vis @ [v]\<rparr>))"
definition add_impl :: "bool \<times> bool \<Rightarrow> module_body \<Rightarrow> impl_decl \<Rightarrow> module_body" where
  "add_impl v b x = (case b of (it, ms, vis) \<Rightarrow>
     (it\<lparr>it_impls := it_impls it @ [x]\<rparr>, ms, vis\<lparr>v_impls := v_impls vis @ [v]\<rparr>))"
definition add_const :: "bool \<times> bool \<Rightarrow> module_body \<Rightarrow> const_decl \<Rightarrow> module_body" where
  "add_const v b x = (case b of (it, ms, vis) \<Rightarrow>
     (it\<lparr>it_consts := it_consts it @ [x]\<rparr>, ms, vis\<lparr>v_consts := v_consts vis @ [v]\<rparr>))"
definition add_alias :: "bool \<times> bool \<Rightarrow> module_body \<Rightarrow> alias_decl \<Rightarrow> module_body" where
  "add_alias v b x = (case b of (it, ms, vis) \<Rightarrow>
     (it\<lparr>it_type_aliases := it_type_aliases it @ [x]\<rparr>, ms, vis\<lparr>v_type_aliases := v_type_aliases vis @ [v]\<rparr>))"
definition add_methods :: "bool \<times> bool \<Rightarrow> module_body \<Rightarrow> methods_block \<Rightarrow> module_body" where
  "add_methods v b x = (case b of (it, ms, vis) \<Rightarrow>
     (it\<lparr>it_methods_blocks := it_methods_blocks it @ [x]\<rparr>, ms, vis\<lparr>v_methods_blocks := v_methods_blocks vis @ [v]\<rparr>))"
definition add_module :: "bool \<times> bool \<Rightarrow> module_body \<Rightarrow> module_decl \<Rightarrow> module_body" where
  "add_module v b x = (case b of (it, ms, vis) \<Rightarrow> (it, ms @ [x], vis\<lparr>v_modules := v_modules vis @ [v]\<rparr>))"
definition add_paths :: "module_body \<Rightarrow> use_path list \<Rightarrow> module_body" where
  "add_paths b ps = (case b of (it, ms, vis) \<Rightarrow> (it\<lparr>it_use_paths := it_use_paths it @ ps\<rparr>, ms, vis))"

text \<open>Parse an item; a broken one is recorded and skipped to the next closing brace.\<close>

definition item_or_skip :: "'a parser \<Rightarrow> ('a \<Rightarrow> module_body) \<Rightarrow> module_body \<Rightarrow> (module_body + module_body) parser" where
  "item_or_skip m add b =
     handleP m (\<lambda>x. ret (Inl (add x))) (\<lambda>e. thenP (push_error e) (thenP sync_past_brace (ret (Inl b))))"

text \<open>\<open>(kosh)\<close> after \<open>pub\<close>; any other qualifier is recorded as an error and skipped.\<close>

definition bad_qualifier :: string where
  "bad_qualifier = ''only `pub(kosh)` is supported as a `pub('' @ ellipsis @ '')` qualifier in v1 '' @ em_dash @
     '' write `pub` for kosh-wide visibility or `pub(kosh)` to mark an item as internal to this kosh''"

definition kosh_qualifier :: "bool \<Rightarrow> bool parser" where
  "kosh_qualifier is_pub =
     bindP (getP (\<lambda>s. (peek_kind 1 s = Some (TkIdent ''kosh'') \<and> peek_kind 2 s = Some (TkPunct PRParen)))) (\<lambda>kosh.
     bindP current (\<lambda>t.
     if is_pub \<and> tk_kind t = TkPunct PLParen then
       (if kosh then thenP bump (thenP bump (thenP bump (ret True)))
        else
          thenP (push_error (diagnostic_new (tk_span t) bad_qualifier))
          (thenP bump
          (thenP (skip_until (\<lambda>k. k \<in> {TkPunct PRParen, TkPunct PRBrace, TkEof}))
          (bindP (match_token (punct PRParen)) (\<lambda>_. ret False)))))
     else ret False))"

definition module_use :: "bool \<Rightarrow> module_body \<Rightarrow> (module_body + module_body) parser" where
  "module_use is_pub b =
     handleP (parse_use is_pub)
       (\<lambda>u. case u of
          UsePath x \<Rightarrow> ret (Inl (add_paths b [x]))
        | UsePathMulti xs \<Rightarrow> ret (Inl (add_paths b xs))
        | UseFile x \<Rightarrow> thenP (push_error (diagnostic_new (us_span x)
            ''`use \"path\";` (file imports) are only valid at the top level, not inside `module`'')) (ret (Inl b)))
       (\<lambda>e. thenP (push_error e) (thenP sync_past_brace (ret (Inl b))))"

definition module_unexpected :: string where
  "module_unexpected = ''expected an item declaration (fn / struct / enum / interface / implement / methods / const / type) inside `module`''"

definition module_item ::
  "module_decl parser \<Rightarrow> parsers \<Rightarrow> expr parser \<Rightarrow> bool \<times> bool \<Rightarrow> module_body \<Rightarrow> (module_body + module_body) parser" where
  "module_item md p pe v b =
     bindP current (\<lambda>t. let k = tk_kind t in
     if k = TkKw KwModule then item_or_skip md (add_module v b) b
     else if k = TkKw KwStruct then item_or_skip (parse_struct_decl p) (add_struct v b) b
     else if k = TkKw KwEnum then item_or_skip (parse_enum_decl p) (add_enum v b) b
     else if k = TkKw KwInterface then item_or_skip (parse_interface_decl p) (add_interface v b) b
     else if k = TkKw KwImplement then item_or_skip (parse_impl_decl p pe) (add_impl v b) b
     else if k = TkKw KwConst then item_or_skip (parse_const_decl p pe) (add_const v b) b
     else if k = TkKw KwType then item_or_skip (parse_type_alias p) (add_alias v b) b
     else if k = TkKw KwMethods then item_or_skip (parse_methods_block p pe) (add_methods v b) b
     else if k = TkKw KwFn \<or> k = TkKw KwPure then item_or_skip (parse_function p pe) (add_fn v b) b
     else
       thenP (push_error (diagnostic_new (tk_span t) module_unexpected))
         (if k = TkEof \<or> k = TkPunct PRBrace then ret (Inl b) else thenP bump (ret (Inl b))))"

definition module_step ::
  "module_decl parser \<Rightarrow> parsers \<Rightarrow> expr parser \<Rightarrow> module_body \<Rightarrow> (module_body + module_body) parser" where
  "module_step md p pe b =
     bindP (check block_end) (\<lambda>closes.
     if closes then ret (Inr b)
     else
       bindP current (\<lambda>t. bindP (getP (peek_kind 1)) (\<lambda>next.
       if tk_kind t = TkKw KwPub \<and> next = Some (TkKw KwUse) then thenP bump (module_use True b)
       else if tk_kind t = TkKw KwUse then module_use False b
       else if tk_kind t = TkKw KwPub then
         thenP bump (bindP (kosh_qualifier True) (\<lambda>kosh. module_item md p pe (True, kosh) b))
       else module_item md p pe (False, False) b)))"

text \<open>Glob imports are not resolved inside modules.\<close>

fun reject_globs :: "use_path list \<Rightarrow> unit parser" where
  "reject_globs [] = ret ()"
| "reject_globs (u # us) =
     thenP (if up_item u = ''*''
            then push_error (diagnostic_new (up_span u) (''glob `use foo::*;` inside a module is not yet supported '' @
              em_dash @ '' list the items explicitly or hoist the import to the top level''))
            else ret ())
       (reject_globs us)"

definition parse_module_decl :: "module_decl parser \<Rightarrow> parsers \<Rightarrow> expr parser \<Rightarrow> module_decl parser" where
  "parse_module_decl md p pe =
     bindP (keyword_tok ''module'' KwModule) (\<lambda>start.
     bindP ident (\<lambda>(name, sp).
     thenP (expect_keyword (quoted ''{'' @ '' after module name'') (punct PLBrace))
     (bindP (repeatP (module_step md p pe) (no_items, [], no_visibility)) (\<lambda>(it, ms, vis).
     bindP (expect_keyword (quoted ''}'' @ '' to close module'') (punct PRBrace)) (\<lambda>close.
     thenP (reject_globs (it_use_paths it))
     (ret (ModuleDecl name sp it ms vis (span_merge (tk_span start) (tk_span close)))))))))"

primrec module_at :: "parsers \<Rightarrow> expr parser \<Rightarrow> nat \<Rightarrow> module_decl parser" where
  "module_at p pe 0 = no_fuel"
| "module_at p pe (Suc n) = parse_module_decl (module_at p pe n) p pe"

section \<open>Programs\<close>

definition top_or_skip :: "'a parser \<Rightarrow> ('a \<Rightarrow> prog) \<Rightarrow> prog \<Rightarrow> (prog + prog) parser" where
  "top_or_skip m add g =
     handleP m (\<lambda>x. ret (Inl (add x))) (\<lambda>e. thenP (push_error e) (thenP sync_to_top_level (ret (Inl g))))"

definition on_items :: "(items \<Rightarrow> items) \<Rightarrow> prog \<Rightarrow> prog" where
  "on_items f g = g\<lparr>pg_items := f (pg_items g)\<rparr>"

definition add_function :: "prog \<Rightarrow> function_decl \<Rightarrow> prog" where
  "add_function g f = on_items (\<lambda>it. it\<lparr>it_functions := it_functions it @ [f]\<rparr>) g"

definition add_use :: "prog \<Rightarrow> use_decl \<Rightarrow> prog" where
  "add_use g u = (case u of
     UseFile x \<Rightarrow> g\<lparr>pg_uses := pg_uses g @ [x]\<rparr>
   | UsePath x \<Rightarrow> on_items (\<lambda>it. it\<lparr>it_use_paths := it_use_paths it @ [x]\<rparr>) g
   | UsePathMulti xs \<Rightarrow> on_items (\<lambda>it. it\<lparr>it_use_paths := it_use_paths it @ xs\<rparr>) g)"

definition top_step :: "module_decl parser \<Rightarrow> parsers \<Rightarrow> expr parser \<Rightarrow> prog \<Rightarrow> (prog + prog) parser" where
  "top_step md p pe g =
     bindP current (\<lambda>t. bindP (getP (peek_kind 1)) (\<lambda>next. let k = tk_kind t in
     if k = TkEof then ret (Inr g)
     else if k = TkKw KwModule then top_or_skip md (\<lambda>m. g\<lparr>pg_modules := pg_modules g @ [m]\<rparr>) g
     else if k = TkKw KwIntent then top_or_skip parse_intent (\<lambda>i. g\<lparr>pg_intents := pg_intents g @ [i]\<rparr>) g
     else if k = TkKw KwUse then top_or_skip (parse_use False) (add_use g) g
     else if k = TkKw KwStruct then
       top_or_skip (parse_struct_decl p) (\<lambda>x. on_items (\<lambda>it. it\<lparr>it_structs := it_structs it @ [x]\<rparr>) g) g
     else if k = TkKw KwEnum then
       top_or_skip (parse_enum_decl p) (\<lambda>x. on_items (\<lambda>it. it\<lparr>it_enums := it_enums it @ [x]\<rparr>) g) g
     else if k = TkKw KwInterface then
       top_or_skip (parse_interface_decl p) (\<lambda>x. on_items (\<lambda>it. it\<lparr>it_interfaces := it_interfaces it @ [x]\<rparr>) g) g
     else if k = TkKw KwImplement then
       top_or_skip (parse_impl_decl p pe) (\<lambda>x. on_items (\<lambda>it. it\<lparr>it_impls := it_impls it @ [x]\<rparr>) g) g
     else if k = TkKw KwConst then
       top_or_skip (parse_const_decl p pe) (\<lambda>x. on_items (\<lambda>it. it\<lparr>it_consts := it_consts it @ [x]\<rparr>) g) g
     else if k = TkKw KwType then
       top_or_skip (parse_type_alias p) (\<lambda>x. on_items (\<lambda>it. it\<lparr>it_type_aliases := it_type_aliases it @ [x]\<rparr>) g) g
     else if k = TkKw KwMethods then
       top_or_skip (parse_methods_block p pe) (\<lambda>x. on_items (\<lambda>it. it\<lparr>it_methods_blocks := it_methods_blocks it @ [x]\<rparr>) g) g
     else if k = TkPunct PHash then top_or_skip (parse_attributed_fn p pe) (add_function g) g
     else if k = TkKw KwPure \<and> next = Some (TkKw KwExtern) then
       thenP bump (top_or_skip (parse_extern_fn p) (\<lambda>f. add_function g (f\<lparr>f_is_pure := True\<rparr>)) g)
     else if k = TkKw KwFn \<or> k = TkKw KwPure then top_or_skip (parse_function p pe) (add_function g) g
     else if k = TkKw KwExtern then top_or_skip (parse_extern_fn p) (add_function g) g
     else
       thenP (push_error (diagnostic_new (tk_span t)
         (''expected '' @ quoted ''use'' @ '', '' @ quoted ''intent'' @ '', '' @ quoted ''struct'' @ '', or '' @ quoted ''fn'')))
       (thenP bump (thenP sync_to_top_level (ret (Inl g))))))"

definition parse_program :: "module_decl parser \<Rightarrow> parsers \<Rightarrow> expr parser \<Rightarrow> prog parser" where
  "parse_program md p pe =
     repeatP (top_step md p pe) \<lparr>pg_intents = [], pg_uses = [], pg_items = no_items, pg_modules = []\<rparr>"

text \<open>
  \<open>parse\<close>: the program and the errors. The fuel is the number of tokens, which bounds the depth of
  the recursion, since every recursive call follows a token that was consumed.
\<close>

definition parse :: "debug_fmt \<Rightarrow> token list \<Rightarrow> prog outcome \<times> diagnostic list" where
  "parse D ts =
     (let n = length ts; p = parsers_at D n; pe = parse_expr (dbg_float D) p in
      case parse_program (module_at p pe n) p pe (parser_new ts) of (r, s) \<Rightarrow> (r, ps_errors s))"

end
