(* ===== verification/ParserTriple.thy ===== *)
theory ParserTriple
  imports ParserItem
begin

text \<open>
  A logic of triples on parsers, with which the parser is shown to be total: within a bound on
  the tokens left, a parser stays inside the token list and moves on where it has to. The rules
  of the collection \<open>okp\<close> follow the way parsers are put together, so that most parsers are
  proved by automation alone.
\<close>

named_theorems okp

section \<open>Triples\<close>

definition wfs :: "pstate \<Rightarrow> bool" where
  "wfs s \<longleftrightarrow> ps_pos s < length (ps_tokens s) \<and> tk_kind (last (ps_tokens s)) = TkEof"

definition cur_kind :: "pstate \<Rightarrow> token_kind" where
  "cur_kind s = tk_kind (ps_tokens s ! ps_pos s)"

text \<open>A token list changes only where two closing angles were split.\<close>

definition same_kind :: "token \<Rightarrow> token \<Rightarrow> bool" where
  "same_kind t t' \<longleftrightarrow> tk_kind t' = tk_kind t \<or> tk_kind t = TkPunct PGreaterGreater \<and> tk_kind t' = TkPunct PGreater"

definition adv :: "pstate \<Rightarrow> pstate \<Rightarrow> bool" where
  "adv s s' \<longleftrightarrow> list_all2 same_kind (ps_tokens s) (ps_tokens s') \<and> ps_pos s \<le> ps_pos s' \<and>
     (\<exists>es. ps_errors s' = ps_errors s @ es)"

text \<open>
  \<open>okP Pre m S E q\<close>: from a good state with at most \<open>m\<close> tokens left and a current token in \<open>Pre\<close>,
  the parser \<open>q\<close> ends in a good state further on; strictly further where the result is in \<open>S\<close>, and
  on an error where \<open>E\<close> holds.
\<close>

definition moved :: "('a \<Rightarrow> bool) \<Rightarrow> bool \<Rightarrow> pstate \<Rightarrow> 'a outcome \<times> pstate \<Rightarrow> bool" where
  "moved S E s r = (case r of
     (Done x, s') \<Rightarrow> wfs s' \<and> adv s s' \<and> (S x \<longrightarrow> ps_pos s < ps_pos s')
   | (Failed d, s') \<Rightarrow> wfs s' \<and> adv s s' \<and> (E \<longrightarrow> ps_pos s < ps_pos s')
   | _ \<Rightarrow> False)"

definition okP :: "(token_kind \<Rightarrow> bool) \<Rightarrow> nat \<Rightarrow> ('a \<Rightarrow> bool) \<Rightarrow> bool \<Rightarrow> 'a parser \<Rightarrow> bool" where
  "okP Pre m S E q \<longleftrightarrow> (\<forall>s. wfs s \<longrightarrow> remaining s \<le> m \<longrightarrow> Pre (cur_kind s) \<longrightarrow> moved S E s (q s))"

abbreviation anyk :: "token_kind \<Rightarrow> bool" where "anyk \<equiv> \<lambda>_. True"
abbreviation always :: "'a \<Rightarrow> bool" where "always \<equiv> \<lambda>_. True"
abbreviation never :: "'a \<Rightarrow> bool" where "never \<equiv> \<lambda>_. False"

lemma same_kind_refl [simp]: "same_kind t t"
  by (simp add: same_kind_def)

lemma same_kind_trans: "same_kind a b \<Longrightarrow> same_kind b c \<Longrightarrow> same_kind a c"
  by (auto simp: same_kind_def)

lemma adv_refl [simp]: "adv s s"
  by (simp add: adv_def list_all2_same)

lemma adv_trans: "adv a b \<Longrightarrow> adv b c \<Longrightarrow> adv a c"
  by (auto simp: adv_def intro: list_all2_trans[of same_kind same_kind same_kind] same_kind_trans)

lemma adv_length: "adv s s' \<Longrightarrow> length (ps_tokens s') = length (ps_tokens s)"
  by (auto simp: adv_def dest: list_all2_lengthD)

lemma adv_pos: "adv s s' \<Longrightarrow> ps_pos s \<le> ps_pos s'"
  by (simp add: adv_def)

lemma adv_remaining: "adv s s' \<Longrightarrow> remaining s' \<le> remaining s"
  using adv_length[of s s'] adv_pos[of s s'] by (simp add: remaining_def)

lemma adv_strict: "adv s s' \<Longrightarrow> wfs s' \<Longrightarrow> ps_pos s < ps_pos s' \<Longrightarrow> remaining s' < remaining s"
  using adv_length[of s s'] by (auto simp: remaining_def wfs_def)

lemma wfs_remaining: "wfs s \<Longrightarrow> 0 < remaining s"
  by (simp add: wfs_def remaining_def)

lemma moved_simps [simp]:
  "moved S E s (Done x, s') \<longleftrightarrow> wfs s' \<and> adv s s' \<and> (S x \<longrightarrow> ps_pos s < ps_pos s')"
  "moved S E s (Failed d, s') \<longleftrightarrow> wfs s' \<and> adv s s' \<and> (E \<longrightarrow> ps_pos s < ps_pos s')"
  "\<not> moved S E s (Panicked, s')"
  "\<not> moved S E s (OutOfFuel, s')"
  by (simp_all add: moved_def)

lemma okPI:
  "(\<And>s. wfs s \<Longrightarrow> remaining s \<le> m \<Longrightarrow> Pre (cur_kind s) \<Longrightarrow> moved S E s (q s)) \<Longrightarrow> okP Pre m S E q"
  by (simp add: okP_def)

lemma okPD: "okP Pre m S E q \<Longrightarrow> wfs s \<Longrightarrow> remaining s \<le> m \<Longrightarrow> Pre (cur_kind s) \<Longrightarrow> moved S E s (q s)"
  by (simp add: okP_def)

lemma moved_cases:
  assumes "moved S E s r"
  obtains (ok) x s' where "r = (Done x, s')" "wfs s'" "adv s s'" "S x \<longrightarrow> ps_pos s < ps_pos s'"
    | (failed) d s' where "r = (Failed d, s')" "wfs s'" "adv s s'" "E \<longrightarrow> ps_pos s < ps_pos s'"
proof -
  obtain x s' where "r = (x, s')" by (cases r)
  then show ?thesis using assms that by (cases x) auto
qed

lemma moved_weaken: "moved S E s r \<Longrightarrow> (\<And>x. S' x \<Longrightarrow> S x) \<Longrightarrow> (E' \<Longrightarrow> E) \<Longrightarrow> moved S' E' s r"
  by (erule moved_cases) auto

text \<open>Two moves make one, strict where either is.\<close>

lemma moved_after: "adv s s' \<Longrightarrow> moved S E s' r \<Longrightarrow> moved S E s r"
  by (erule moved_cases) (auto intro: adv_trans le_less_trans[OF adv_pos])

lemma moved_strict: "adv s s' \<Longrightarrow> ps_pos s < ps_pos s' \<Longrightarrow> moved S' E' s' r \<Longrightarrow> moved S E s r"
  by (erule moved_cases) (auto intro: adv_trans less_le_trans[OF _ adv_pos])

lemma okP_weaken:
  assumes "okP Pre m S E q" and "n \<le> m" and "\<And>k. Pre' k \<Longrightarrow> Pre k" and "\<And>x. S' x \<Longrightarrow> S x" and "E' \<Longrightarrow> E"
  shows "okP Pre' n S' E' q"
proof (rule okPI)
  fix s assume s: "wfs s" "remaining s \<le> n" "Pre' (cur_kind s)"
  then have "remaining s \<le> m" "Pre (cur_kind s)" using assms(2,3) by auto
  from okPD[OF assms(1) s(1) this] show "moved S' E' s (q s)" by (rule moved_weaken) (fact assms(4,5))+
qed

section \<open>Rules\<close>

lemma okP_ret: "(\<And>k. Pre k \<Longrightarrow> \<not> S x) \<Longrightarrow> okP Pre m S E (ret x)"
  by (rule okPI) (auto simp: ret_def)

lemma okP_fail: "(\<And>k. Pre k \<Longrightarrow> \<not> E) \<Longrightarrow> okP Pre m S E (failP d)"
  by (rule okPI) (auto simp: failP_def)

lemma current_eq: "wfs s \<Longrightarrow> current s = (Done (ps_tokens s ! ps_pos s), s)"
  by (simp add: current_def wfs_def)

lemma okP_current:
  assumes "\<And>t. Pre (tk_kind t) \<Longrightarrow> okP ((=) (tk_kind t)) m S E (f t)"
  shows "okP Pre m S E (bindP current f)"
proof (rule okPI)
  fix s assume s: "wfs s" "remaining s \<le> m" "Pre (cur_kind s)"
  let ?t = "ps_tokens s ! ps_pos s"
  have "okP ((=) (tk_kind ?t)) m S E (f ?t)" using assms s(3) by (simp add: cur_kind_def)
  then show "moved S E s (bindP current f s)"
    using s by (simp add: bindP_def current_eq okP_def cur_kind_def)
qed

lemma okP_get:
  assumes "\<And>s. wfs s \<Longrightarrow> Pre (cur_kind s) \<Longrightarrow> okP Pre m S E (f (g s))"
  shows "okP Pre m S E (bindP (getP g) f)"
  using assms by (auto simp: okP_def bindP_def getP_def)

lemma bind_ret_simps [simp]:
  "bindP (ret x) f = f x"
  "bindP (failP d) f = failP d"
  by (auto simp: bindP_def ret_def failP_def fun_eq_iff)

lemma bind_bind [simp]: "bindP (bindP m f) g = bindP m (\<lambda>x. bindP (f x) g)"
  by (auto simp: bindP_def fun_eq_iff split: prod.split outcome.split)

lemma okP_check:
  assumes "okP (\<lambda>k. Pre k \<and> P k) m S E (f True)" and "okP (\<lambda>k. Pre k \<and> \<not> P k) m S E (f False)"
  shows "okP Pre m S E (bindP (check P) f)"
proof -
  have "okP ((=) (tk_kind t)) m S E (f (P (tk_kind t)))" if "Pre (tk_kind t)" for t
    using that assms by (cases "P (tk_kind t)") (auto elim!: okP_weaken)
  then show ?thesis unfolding check_def bind_bind bind_ret_simps by (rule okP_current)
qed

text \<open>Moving past a token leaves a bound that is one smaller, and every duty to move is met.\<close>

lemma bump_eq:
  assumes "wfs s"
  shows "bump s = (Done (ps_tokens s ! ps_pos s), if cur_kind s = TkEof then s else s\<lparr>ps_pos := ps_pos s + 1\<rparr>)"
  using assms by (simp add: bump_def bindP_def current_eq ret_def modifyP_def cur_kind_def)

lemma bump_wfs:
  assumes "wfs s" and "cur_kind s \<noteq> TkEof"
  shows "wfs (s\<lparr>ps_pos := ps_pos s + 1\<rparr>)"
proof -
  have "ps_tokens s \<noteq> []" using assms(1) by (auto simp: wfs_def)
  then have "ps_pos s \<noteq> length (ps_tokens s) - 1"
    using assms last_conv_nth[of "ps_tokens s"] by (auto simp: wfs_def cur_kind_def)
  then show ?thesis using assms(1) by (auto simp: wfs_def)
qed

lemma okP_bump:
  assumes "\<And>k. Pre k \<Longrightarrow> k \<noteq> TkEof" and "\<And>t. Pre (tk_kind t) \<Longrightarrow> okP anyk (m - 1) never False (f t)"
  shows "okP Pre m S E (bindP bump f)"
proof (rule okPI)
  fix s assume s: "wfs s" "remaining s \<le> m" "Pre (cur_kind s)"
  let ?t = "ps_tokens s ! ps_pos s" let ?s = "s\<lparr>ps_pos := ps_pos s + 1\<rparr>"
  have k: "cur_kind s \<noteq> TkEof" using s(3) assms(1) by blast
  have "okP anyk (m - 1) never False (f ?t)" using assms(2) s(3) by (simp add: cur_kind_def)
  moreover have "wfs ?s" by (rule bump_wfs[OF s(1) k])
  moreover have "remaining ?s \<le> m - 1" using s(2) by (simp add: remaining_def)
  ultimately have "moved never False ?s (f ?t ?s)" by (simp add: okPD)
  then have "moved S E s (f ?t ?s)" by (rule moved_strict[rotated 2]) (simp_all add: adv_def list_all2_same)
  then show "moved S E s (bindP bump f s)" using s(1) k by (simp add: bindP_def bump_eq)
qed

text \<open>The same for every token, the end of the file included, which is not moved past.\<close>

lemma okP_bump_any:
  assumes "\<And>t. tk_kind t \<noteq> TkEof \<Longrightarrow> Pre (tk_kind t) \<Longrightarrow> okP anyk (m - 1) never False (f t)"
    and "\<And>t. tk_kind t = TkEof \<Longrightarrow> Pre TkEof \<Longrightarrow> okP ((=) TkEof) m S E (f t)"
  shows "okP Pre m S E (bindP bump f)"
proof (rule okPI)
  fix s assume s: "wfs s" "remaining s \<le> m" "Pre (cur_kind s)"
  show "moved S E s (bindP bump f s)"
  proof (cases "cur_kind s = TkEof")
    case True
    then have "okP ((=) TkEof) m S E (f (ps_tokens s ! ps_pos s))" using assms(2) s(3) by (simp add: cur_kind_def)
    then show ?thesis using s True by (simp add: bindP_def bump_eq okP_def)
  next
    case False
    have "okP (\<lambda>k. Pre k \<and> k \<noteq> TkEof) m S E (bindP bump f)" using assms(1) by (intro okP_bump) auto
    then show ?thesis using s False by (simp add: okP_def)
  qed
qed

lemma okP_match_token:
  assumes "\<not> P TkEof" and "\<And>t. P (tk_kind t) \<Longrightarrow> okP anyk (m - 1) never False (f (Some t))"
    and "okP (\<lambda>k. Pre k \<and> \<not> P k) m S E (f None)"
  shows "okP Pre m S E (bindP (match_token P) f)"
proof -
  have "okP ((=) (tk_kind t)) m S E (bindP (if P (tk_kind t) then bindP bump (\<lambda>t. ret (Some t)) else ret None) f)"
    if "Pre (tk_kind t)" for t
  proof (cases "P (tk_kind t)")
    case True
    then show ?thesis using assms(1,2) by (auto intro!: okP_bump)
  next
    case False
    then show ?thesis using assms(3) that by (auto elim!: okP_weaken)
  qed
  then show ?thesis unfolding match_token_def bind_bind by (rule okP_current)
qed

lemma okP_fail_here: "(\<And>k. Pre k \<Longrightarrow> \<not> E) \<Longrightarrow> okP Pre m S E (fail_here msg)"
  unfolding fail_here_def error_here_def bind_bind bind_ret_simps by (intro okP_current okP_fail) simp

lemma okP_fail_here_bind: "(\<And>k. Pre k \<Longrightarrow> \<not> E) \<Longrightarrow> okP Pre m S E (bindP (fail_here msg) f)"
  unfolding fail_here_def error_here_def bind_bind bind_ret_simps by (intro okP_current okP_fail) simp

lemma okP_expect:
  assumes "\<not> P TkEof" and "E \<Longrightarrow> (\<And>k. Pre k \<Longrightarrow> P k)" and "\<And>t. P (tk_kind t) \<Longrightarrow> okP anyk (m - 1) never False (f t)"
  shows "okP Pre m S E (bindP (expect_keyword msg P) f)"
proof -
  have "okP ((=) (tk_kind t)) m S E (bindP (if P (tk_kind t) then bump else fail_here (''expected '' @ msg)) f)"
    if "Pre (tk_kind t)" for t
  proof (cases "P (tk_kind t)")
    case True
    then show ?thesis using assms(1,3) by (auto intro!: okP_bump)
  next
    case False
    then show ?thesis using assms(2) that
      by (auto simp: fail_here_def error_here_def intro!: okP_current okP_fail)
  qed
  then show ?thesis unfolding expect_keyword_def bind_bind by (rule okP_current)
qed

lemma okP_modify:
  assumes "\<And>s. ps_tokens (g s) = ps_tokens s \<and> ps_pos (g s) = ps_pos s \<and> (\<exists>es. ps_errors (g s) = ps_errors s @ es)"
    and "okP Pre m S E (f ())"
  shows "okP Pre m S E (bindP (modifyP g) f)"
proof (rule okPI)
  fix s assume s: "wfs s" "remaining s \<le> m" "Pre (cur_kind s)"
  have g: "wfs (g s)" "remaining (g s) \<le> m" "Pre (cur_kind (g s))" "adv s (g s)"
    using s assms(1)[of s] by (auto simp: wfs_def remaining_def cur_kind_def adv_def list_all2_same)
  from okPD[OF assms(2) g(1-3)] have "moved S E s (f () (g s))" by (rule moved_after[OF g(4)])
  then show "moved S E s (bindP (modifyP g) f s)" by (simp add: bindP_def modifyP_def)
qed

lemma okP_push: "okP Pre m S E (f ()) \<Longrightarrow> okP Pre m S E (bindP (push_error d) f)"
  unfolding push_error_def by (rule okP_modify) auto

text \<open>Sequencing: after a parser that moves, nothing more is owed; after one that may not, all is.\<close>

lemma okP_bind:
  assumes q: "okP Pre m never E q" and f: "\<And>x. okP anyk m S E (f x)"
  shows "okP Pre m S E (bindP q f)"
proof (rule okPI)
  fix s assume s: "wfs s" "remaining s \<le> m" "Pre (cur_kind s)"
  from okPD[OF q s] show "moved S E s (bindP q f s)"
  proof (cases rule: moved_cases)
    case (ok x s')
    then have "moved S E s' (f x s')" using okPD[OF f ok(2)] adv_remaining[OF ok(3)] s(2) by auto
    then have "moved S E s (f x s')" by (rule moved_after[OF ok(3)])
    then show ?thesis by (simp add: bindP_def ok(1))
  qed (auto simp: bindP_def)
qed

lemma okP_bind_strict:
  assumes q: "okP Pre m always E q" and f: "\<And>x. okP anyk (m - 1) never False (f x)"
  shows "okP Pre m S E (bindP q f)"
proof (rule okPI)
  fix s assume s: "wfs s" "remaining s \<le> m" "Pre (cur_kind s)"
  from okPD[OF q s] show "moved S E s (bindP q f s)"
  proof (cases rule: moved_cases)
    case (ok x s')
    then have "remaining s' \<le> m - 1" using adv_strict[OF ok(3,2)] s(2) by simp
    then have "moved never False s' (f x s')" using okPD[OF f ok(2)] by auto
    then have "moved S E s (f x s')" using ok(4) by (intro moved_strict[OF ok(3)]) simp_all
    then show ?thesis by (simp add: bindP_def ok(1))
  qed (auto simp: bindP_def)
qed

lemma okP_handle:
  assumes q: "okP Pre m always E' q" and f: "\<And>x. okP anyk (m - 1) never False (f x)"
    and h: "\<And>d. \<not> E' \<Longrightarrow> okP anyk m S E (h d)" and h': "E' \<Longrightarrow> (\<And>d. okP anyk (m - 1) never False (h d))"
  shows "okP Pre m S E (handleP q f h)"
proof (rule okPI)
  fix s assume s: "wfs s" "remaining s \<le> m" "Pre (cur_kind s)"
  from okPD[OF q s] show "moved S E s (handleP q f h s)"
  proof (cases rule: moved_cases)
    case (ok x s')
    then have "remaining s' \<le> m - 1" using adv_strict[OF ok(3,2)] s(2) by simp
    then have "moved never False s' (f x s')" using okPD[OF f ok(2)] by auto
    then have "moved S E s (f x s')" using ok(4) by (intro moved_strict[OF ok(3)]) simp_all
    then show ?thesis by (simp add: handleP_def ok(1))
  next
    case (failed d s')
    show ?thesis
    proof (cases E')
      case True
      then have "remaining s' \<le> m - 1" using adv_strict[OF failed(3,2)] failed(4) s(2) by simp
      then have "moved never False s' (h d s')" using okPD[OF h'[OF True] failed(2)] by auto
      then have "moved S E s (h d s')" using failed(4) True by (intro moved_strict[OF failed(3)]) simp_all
      then show ?thesis by (simp add: handleP_def failed(1))
    next
      case False
      have "moved S E s' (h d s')" using okPD[OF h[OF False] failed(2)] adv_remaining[OF failed(3)] s(2) by auto
      then have "moved S E s (h d s')" by (rule moved_after[OF failed(3)])
      then show ?thesis by (simp add: handleP_def failed(1))
    qed
  qed
qed

text \<open>
  A handler that may run where the parser started: the kind of the token there is the same, or
  what is left of two closing angles.
\<close>

lemma adv_cur_kind: "adv s s' \<Longrightarrow> wfs s \<Longrightarrow> ps_pos s' = ps_pos s \<Longrightarrow>
  cur_kind s' = cur_kind s \<or> cur_kind s = TkPunct PGreaterGreater \<and> cur_kind s' = TkPunct PGreater"
  by (auto simp: adv_def cur_kind_def wfs_def same_kind_def dest: list_all2_nthD[where p = "ps_pos s"])

lemma okP_recover:
  assumes q: "okP Pre m always False q" and f: "\<And>x. okP anyk (m - 1) never False (f x)"
    and h: "\<And>d. okP anyk (m - 1) never False (h d)" and stay: "\<And>d. okP Pre m S E (h d)"
    and split: "Pre (TkPunct PGreaterGreater) \<Longrightarrow> Pre (TkPunct PGreater)"
  shows "okP Pre m S E (handleP q f h)"
proof (rule okPI)
  fix s assume s: "wfs s" "remaining s \<le> m" "Pre (cur_kind s)"
  from okPD[OF q s] show "moved S E s (handleP q f h s)"
  proof (cases rule: moved_cases)
    case (ok x s')
    then have "remaining s' \<le> m - 1" using adv_strict[OF ok(3,2)] s(2) by simp
    then have "moved never False s' (f x s')" using okPD[OF f ok(2)] by auto
    then have "moved S E s (f x s')" using ok(4) by (intro moved_strict[OF ok(3)]) simp_all
    then show ?thesis by (simp add: handleP_def ok(1))
  next
    case (failed d s')
    have "moved S E s (h d s')"
    proof (cases "ps_pos s < ps_pos s'")
      case True
      then have "remaining s' \<le> m - 1" using adv_strict[OF failed(3,2)] s(2) by simp
      then have "moved never False s' (h d s')" using okPD[OF h failed(2)] by auto
      then show ?thesis using True by (intro moved_strict[OF failed(3)]) simp_all
    next
      case False
      then have "ps_pos s' = ps_pos s" using adv_pos[OF failed(3)] by simp
      then have "Pre (cur_kind s')" using adv_cur_kind[OF failed(3) s(1)] s(3) split by auto
      then have "moved S E s' (h d s')" using okPD[OF stay failed(2)] adv_remaining[OF failed(3)] s(2) by auto
      then show ?thesis by (rule moved_after[OF failed(3)])
    qed
    then show ?thesis by (simp add: handleP_def failed(1))
  qed
qed

text \<open>Loops whose turns all move: the tokens left are fuel enough.\<close>

lemma loopP_ok:
  assumes b: "\<And>a. okP anyk m isl E (body a)"
  shows "wfs s \<Longrightarrow> remaining s \<le> m \<Longrightarrow> remaining s < n \<Longrightarrow> moved never False s (loopP n body a s)"
proof (induction n arbitrary: a s)
  case (Suc n)
  from okPD[OF b Suc.prems(1,2)] have "moved isl E s (body a s)" by simp
  then show ?case
  proof (cases rule: moved_cases)
    case (ok r s')
    show ?thesis
    proof (cases r)
      case (Inl a')
      then have "remaining s' < remaining s" using adv_strict[OF ok(3,2)] ok(4) by simp
      then have "moved never False s' (loopP n body a' s')" using Suc.prems by (intro Suc.IH[OF ok(2)]) auto
      then show ?thesis using ok(1) Inl moved_after[OF ok(3)] by (simp add: bindP_def)
    next
      case (Inr x)
      then show ?thesis using ok by (simp add: bindP_def ret_def)
    qed
  qed (simp add: bindP_def)
qed simp

lemma okP_repeat:
  assumes "\<And>a. okP anyk m isl E (body a)"
  shows "okP Pre m never False (repeatP body a)"
  by (rule okPI, unfold repeatP_def) (rule loopP_ok[OF assms], simp_all)

lemma okP_repeat_strict:
  assumes b: "\<And>a. okP anyk m isl False (body a)" and q: "okP Pre m always E (body a)"
  shows "okP Pre m always E (repeatP body a)"
proof (rule okPI)
  fix s assume s: "wfs s" "remaining s \<le> m" "Pre (cur_kind s)"
  from okPD[OF q s] show "moved always E s (repeatP body a s)"
  proof (cases rule: moved_cases)
    case (ok r s')
    show ?thesis
    proof (cases r)
      case (Inl a')
      have "remaining s' < remaining s" using adv_strict[OF ok(3,2)] ok(4) by simp
      then have "moved never False s' (loopP (remaining s) body a' s')" using loopP_ok[OF b ok(2)] s(2) by simp
      then have "moved always E s (loopP (remaining s) body a' s')" using ok(4) by (intro moved_strict[OF ok(3)]) simp_all
      then show ?thesis by (simp add: repeatP_def bindP_def ok(1) Inl)
    next
      case (Inr x)
      then show ?thesis using ok by (simp add: repeatP_def bindP_def ret_def)
    qed
  qed (simp add: repeatP_def bindP_def)
qed

text \<open>A parser at the end of a sequence.\<close>

lemma bind_ret_right: "bindP q ret = q"
  by (auto simp: bindP_def ret_def fun_eq_iff split: prod.split outcome.split)

lemma okP_tail:
  assumes "\<And>f. (\<And>x. okP anyk (m - 1) never False (f x)) \<Longrightarrow> okP Pre m S E (bindP q f)"
  shows "okP Pre m S E q"
  using assms[of ret] by (simp add: bind_ret_right okP_ret)

lemma okP_split: "okP (\<lambda>k. Pre k \<and> P k) m S E q \<Longrightarrow> okP (\<lambda>k. Pre k \<and> \<not> P k) m S E q \<Longrightarrow> okP Pre m S E q"
  by (auto simp: okP_def)

section \<open>The operations on tokens\<close>

lemmas [okp] = okP_ret okP_fail okP_current okP_get okP_check okP_bump_any okP_match_token okP_fail_here
  okP_fail_here_bind  okP_expect okP_push okP_tail[OF okP_expect] okP_tail[OF okP_bump_any]

lemmas parser_simps = thenP_def Let_def

lemma fewer_left [simp]: "m \<le> n \<Longrightarrow> m - k \<le> (n :: nat)" "m \<le> Suc n \<Longrightarrow> m - Suc k \<le> n"
  by simp_all

lemma okP_strictD: "okP Pre m always E q \<Longrightarrow> okP Pre m S E q"
  by (erule okP_weaken) auto

lemma ident_bind [okp]:
  assumes "\<And>x. okP anyk (m - 1) never False (f x)"
  shows "okP Pre m S False (bindP ident f)"
  using assms unfolding ident_def expect_ident_def ident_text_def
  by (auto simp: is_ident_def split: if_splits token_kind.splits intro!: okp)

lemma string_lit_bind [okp]:
  assumes "\<And>x. okP anyk (m - 1) never False (f x)"
  shows "okP Pre m S False (bindP string_lit f)"
  using assms unfolding string_lit_def expect_string_def string_text_def
  by (auto simp: is_str_def split: if_splits token_kind.splits intro!: okp)

lemmas ident_ok [okp] = okP_tail[OF ident_bind]
lemmas string_lit_ok [okp] = okP_tail[OF string_lit_bind]

lemma semicolon_bind [okp]:
  "(\<And>t. okP anyk (m - 1) never False (f t)) \<Longrightarrow> okP Pre m S False (bindP semicolon f)"
  unfolding semicolon_def by (rule okP_expect) auto

lemma keyword_tok_bind [okp]:
  "(E \<Longrightarrow> (\<And>k. Pre k \<Longrightarrow> k = TkKw w)) \<Longrightarrow> (\<And>t. okP anyk (m - 1) never False (f t)) \<Longrightarrow>
   okP Pre m S E (bindP (keyword_tok x w) f)"
  unfolding keyword_tok_def by (rule okP_expect) auto

text \<open>Splitting two closing angles leaves the position and shortens no list.\<close>

lemma split_angle:
  assumes "wfs s" and "cur_kind s = TkPunct PGreaterGreater" and "tk_kind t = TkPunct PGreater"
  shows "wfs (s\<lparr>ps_tokens := (ps_tokens s)[ps_pos s := t]\<rparr>)" and "adv s (s\<lparr>ps_tokens := (ps_tokens s)[ps_pos s := t]\<rparr>)"
proof -
  have n: "ps_tokens s \<noteq> []" "ps_pos s < length (ps_tokens s)" using assms(1) by (auto simp: wfs_def)
  have "ps_pos s \<noteq> length (ps_tokens s) - 1"
    using assms(1,2) last_conv_nth[OF n(1)] by (auto simp: wfs_def cur_kind_def)
  then show "wfs (s\<lparr>ps_tokens := (ps_tokens s)[ps_pos s := t]\<rparr>)"
    using assms(1) n by (simp add: wfs_def last_list_update)
  have "list_all2 same_kind (ps_tokens s) ((ps_tokens s)[ps_pos s := t])"
    using assms(2,3) n(2) by (auto simp: list_all2_conv_all_nth nth_list_update same_kind_def cur_kind_def)
  then show "adv s (s\<lparr>ps_tokens := (ps_tokens s)[ps_pos s := t]\<rparr>)" by (simp add: adv_def)
qed

lemma close_angle_ok: "okP Pre m never False expect_close_angle"
  unfolding expect_close_angle_def
proof (rule okP_current)
  fix t
  let ?split = "modifyP (\<lambda>s. s\<lparr>ps_tokens := (ps_tokens s)[ps_pos s := tok (TkPunct PGreater) (s_start (tk_span t) + 1) (s_end (tk_span t))]\<rparr>)"
  have "okP ((=) (TkPunct PGreaterGreater)) m never False ?split"
    by (rule okPI) (simp add: modifyP_def split_angle)
  then show "okP ((=) (tk_kind t)) m never False (if tk_kind t = TkPunct PGreater then thenP bump (ret ())
     else if tk_kind t = TkPunct PGreaterGreater then ?split else fail_here (''expected '' @ [CHR 0x27] @ ''>'' @ [CHR 0x27]))"
    by (auto simp: thenP_def intro!: okp)
qed

lemmas close_angle_bind [okp] = okP_bind[OF close_angle_ok]

section \<open>Loops\<close>

lemma repeat_bind [okp]:
  assumes "\<And>a. okP anyk m isl False (body a)" and "\<And>x. okP anyk m S False (f x)"
  shows "okP Pre m S False (bindP (repeatP body a) f)"
  using okP_bind[OF okP_repeat[OF assms(1)] assms(2)] .

lemmas [okp] = okP_repeat

lemma comma_list_ok:
  assumes "\<And>Pre'. okP Pre' m always False item"
  shows "okP Pre m S False (comma_list trailing closes item)"
proof -
  have "okP Pre' m always False (bindP item (\<lambda>x. bindP (match_token ((=) (TkPunct PComma))) (\<lambda>c.
     if c = None then ret (Inr (xs @ [x]))
     else if trailing then bindP (check closes) (\<lambda>b. ret (if b then Inr (xs @ [x]) else Inl (xs @ [x])))
     else ret (Inl (xs @ [x])))))" for xs Pre'
    by (rule okP_bind_strict[OF assms]) (auto intro!: okp)
  then have "okP Pre m always False (comma_list trailing closes item)"
    unfolding comma_list_def by (intro okP_repeat_strict) (auto intro: okP_strictD)
  then show ?thesis by (rule okP_strictD)
qed

lemma comma_list_bind [okp]:
  assumes "\<And>Pre'. okP Pre' m always False item" and "\<And>x. okP anyk (m - 1) never False (f x)"
  shows "okP Pre m S False (bindP (comma_list trailing closes item) f)"
  using okP_bind_strict[OF comma_list_ok[OF assms(1)] assms(2)] .

lemma opt_comma_list_bind [okp]:
  assumes "\<And>Pre'. okP Pre' m always False item" and "\<And>x. okP anyk m S False (f x)"
  shows "okP Pre m S False (bindP (opt_comma_list trailing closes item) f)"
proof (rule okP_bind)
  show "okP Pre m never False (opt_comma_list trailing closes item)"
    unfolding opt_comma_list_def using comma_list_ok[OF assms(1)] by (auto intro!: okp)
qed (rule assms)

lemma skip_until_body:
  assumes "stops TkEof"
  shows "okP Pre m isl False (bindP (check stops) (\<lambda>b. if b then ret (Inr ()) else thenP bump (ret (Inl ()))))"
  using assms by (auto simp: thenP_def intro!: okp)

lemma skip_until_ok: "stops TkEof \<Longrightarrow> okP Pre m never False (skip_until stops)"
  unfolding skip_until_def by (rule okP_repeat) (rule skip_until_body)

lemma skip_until_strict: "stops TkEof \<Longrightarrow> okP (\<lambda>k. \<not> stops k) m S False (skip_until stops)"
  unfolding skip_until_def
  by (intro okP_strictD[OF okP_repeat_strict] skip_until_body) (auto simp: thenP_def intro!: okp)

lemmas skip_until_bind [okp] = okP_bind[OF skip_until_ok]

lemma sync_to_top_level_bind [okp]: "(\<And>x. okP anyk m S False (f x)) \<Longrightarrow> okP Pre m S False (bindP sync_to_top_level f)"
  unfolding sync_to_top_level_def by (rule skip_until_bind) auto

lemma sync_past_brace_ok: "okP Pre m never False sync_past_brace"
  unfolding sync_past_brace_def by (rule okP_repeat) (auto simp: parser_simps intro!: okp)

lemmas sync_past_brace_bind [okp] = okP_bind[OF sync_past_brace_ok]

lemma sync_to_stmt_bind [okp]: "(\<And>x. okP anyk m S False (f x)) \<Longrightarrow> okP Pre m S False (bindP sync_to_stmt f)"
  by (rule okP_bind) (auto simp: sync_to_stmt_def parser_simps intro!: okp)

text \<open>\<open>sync_to_stmt\<close> skips a token, unless it stands at the start of a statement or the end of a block.\<close>

lemma sync_to_stmt_strict:
  "okP (\<lambda>k. k \<notin> set stmt_starts \<and> k \<noteq> TkPunct PRBrace \<and> k \<noteq> TkEof) m always False sync_to_stmt"
proof -
  let ?Pre = "\<lambda>k. k \<notin> set stmt_starts \<and> k \<noteq> TkPunct PRBrace \<and> k \<noteq> TkEof"
  let ?stops = "\<lambda>k. k \<in> set stmt_starts \<or> k \<in> {TkPunct PSemicolon, TkPunct PRBrace, TkEof}"
  let ?rest = "bindP (check ((=) (TkPunct PSemicolon))) (\<lambda>b. if b then thenP bump (ret ()) else ret ())"
  have rest: "okP ((=) (TkPunct PSemicolon)) m always False ?rest" "okP anyk (m - 1) never False ?rest"
    by (auto simp: parser_simps intro!: okp)
  have semi: "wfs s \<Longrightarrow> cur_kind s = TkPunct PSemicolon \<Longrightarrow> skip_until ?stops s = (Done (), s)" for s
    by (simp add: skip_until_def repeatP_def bindP_def check_def current_eq cur_kind_def ret_def)
  have "okP (\<lambda>k. ?Pre k \<and> k \<noteq> TkPunct PSemicolon) m always False (bindP (skip_until ?stops) (\<lambda>_. ?rest))"
    by (rule okP_bind_strict[OF okP_weaken[OF skip_until_strict]]) (use rest(2) in auto)
  moreover have "okP (\<lambda>k. k = TkPunct PSemicolon) m always False (bindP (skip_until ?stops) (\<lambda>_. ?rest))"
    using rest(1) semi by (auto simp: okP_def bindP_def)
  ultimately show ?thesis unfolding sync_to_stmt_def thenP_def by (auto simp: okP_def)
qed

end
