(* ===== verification/DiagProps.thy ===== *)
theory DiagProps
  imports Diagnostic
begin

text \<open>
  Properties of \<open>src/diagnostic.rs\<close>: what a position is, when rendering cannot panic, that a
  JSON string reads back, and that merging two file maps keeps what offsets mean.
\<close>

section \<open>Line positions\<close>

definition newlines :: "string \<Rightarrow> nat" where
  "newlines s = length (filter (\<lambda>b. b = newline_char) s)"

definition line_start_of :: "string \<Rightarrow> nat" where
  "line_start_of p = length p - length (takeWhile (\<lambda>b. b \<noteq> newline_char) (rev p))"

lemma line_start_snoc: "line_start_of (p @ [b]) = (if b = newline_char then length p + 1 else line_start_of p)"
  using length_takeWhile_le[of "\<lambda>b. b \<noteq> newline_char" "rev p"] by (simp add: line_start_of_def)

lemma line_start_le: "line_start_of p \<le> length p"
  by (simp add: line_start_of_def)

lemma scan_lines_fold:
  "i + length bs \<le> k \<Longrightarrow> scan_lines (bs @ cs) i k acc = scan_lines cs (i + length bs) k
     (fold (\<lambda>(j, b) (n, ls). if b = newline_char then (n + 1, j + 1) else (n, ls)) (List.enumerate i bs) acc)"
proof (induction bs arbitrary: i acc)
  case (Cons b bs)
  show ?case using Cons.prems by (cases acc) (simp add: Cons.IH)
qed simp

lemma scan_fold:
  "fold (\<lambda>(j, b) (n, ls). if b = newline_char then (n + 1, j + 1) else (n, ls)) (List.enumerate 0 p) (Suc 0, 0) =
   (Suc (newlines p), line_start_of p)"
proof (induction p rule: rev_induct)
  case (snoc b p)
  then show ?case by (simp add: enumerate_append_eq line_start_snoc newlines_def)
qed (simp add: newlines_def line_start_of_def)

lemma scan_lines_spec:
  assumes "k \<le> length s"
  shows "scan_lines s 0 k (Suc 0, 0) = (Suc (newlines (take k s)), line_start_of (take k s))"
proof -
  have "scan_lines (take k s @ drop k s) 0 k (Suc 0, 0) = scan_lines (drop k s) k k (Suc (newlines (take k s)), line_start_of (take k s))"
    using scan_lines_fold[of 0 "take k s" k "drop k s"] assms by (simp add: scan_fold)
  moreover have "scan_lines cs k k acc = acc" for cs acc by (cases cs; cases acc) auto
  ultimately show ?thesis by simp
qed

text \<open>The line around a position: it starts after a newline and ends before one.\<close>

lemma line_start_prev: "line_start_of p = 0 \<or> p ! (line_start_of p - 1) = newline_char"
proof (induction p rule: rev_induct)
  case (snoc b p)
  show ?case using snoc line_start_le[of p] by (auto simp: line_start_snoc nth_append)
qed (simp add: line_start_of_def)

lemma line_start_no_newline: "newline_char \<notin> set (drop (line_start_of p) p)"
proof (induction p rule: rev_induct)
  case (snoc b p)
  then show ?case using line_start_le[of p] by (auto simp: line_start_snoc)
qed simp

lemma valid_at_newline:
  assumes "valid_utf8 s" and "i < length s" and "s ! i = newline_char"
  shows "valid_utf8 (drop i s)" "valid_utf8 (drop (Suc i) s)"
proof -
  show v: "valid_utf8 (drop i s)"
    using assms by (intro boundary_valid) (auto simp: is_char_boundary_def cont_byte_def)
  show "valid_utf8 (drop (Suc i) s)"
    using valid_ascii_step[OF assms(2) _ v] assms(3) by (simp add: ascii_def)
qed

lemma line_start_valid:
  assumes "valid_utf8 s" and "k \<le> length s"
  shows "valid_utf8 (drop (line_start_of (take k s)) s)"
proof (cases "line_start_of (take k s)")
  case (Suc j)
  have "j < k" using line_start_le[of "take k s"] Suc assms(2) by simp
  then have "s ! j = newline_char" "j < length s" using line_start_prev[of "take k s"] Suc assms(2) by auto
  then show ?thesis using valid_at_newline(2)[OF assms(1)] Suc by simp
qed (use assms(1) in simp)

definition line_end_from :: "string \<Rightarrow> nat \<Rightarrow> nat" where
  "line_end_from s i = i + length (takeWhile (\<lambda>b. b \<noteq> newline_char) (drop i s))"

lemma line_end_le: "i \<le> length s \<Longrightarrow> line_end_from s i \<le> length s"
  using length_takeWhile_le[of "\<lambda>b. b \<noteq> newline_char" "drop i s"] by (simp add: line_end_from_def)

lemma line_end_nth: "line_end_from s i < length s \<Longrightarrow> s ! line_end_from s i = newline_char"
  using nth_length_takeWhile[of "\<lambda>b. b \<noteq> newline_char" "drop i s"] by (simp add: line_end_from_def)

lemma line_end_valid: "valid_utf8 s \<Longrightarrow> i \<le> length s \<Longrightarrow> valid_utf8 (drop (line_end_from s i) s)"
  using line_end_le[of i s] line_end_nth[of s i] valid_at_newline(1)[of s "line_end_from s i"]
  by (cases "line_end_from s i < length s") simp_all

lemma line_no_newline: "newline_char \<notin> set (take (line_end_from s i - i) (drop i s))"
  by (auto simp: line_end_from_def takeWhile_eq_take[symmetric] dest: set_takeWhileD)

lemma find_byte_end:
  "i \<le> length s \<Longrightarrow>
   (case find_byte newline_char (drop i s) of Some r \<Rightarrow> i + r | None \<Rightarrow> length s) = line_end_from s i"
  using length_takeWhile_le[of "\<lambda>b. b \<noteq> newline_char" "drop i s"]
  by (auto simp: find_byte_def line_end_from_def Let_def)

lemma before_line_end:
  assumes "k \<le> length s"
  shows "k \<le> line_end_from s (line_start_of (take k s))"
proof -
  let ?ls = "line_start_of (take k s)"
  have ls: "?ls \<le> k" using line_start_le[of "take k s"] assms by simp
  have "newline_char \<notin> set (take (k - ?ls) (drop ?ls s))"
    using line_start_no_newline[of "take k s"] by (simp add: drop_take)
  then have "takeWhile (\<lambda>b. b \<noteq> newline_char) (take (k - ?ls) (drop ?ls s) @ drop k s) =
      take (k - ?ls) (drop ?ls s) @ takeWhile (\<lambda>b. b \<noteq> newline_char) (drop k s)"
    by (intro takeWhile_append2) blast
  moreover have "take (k - ?ls) (drop ?ls s) @ drop k s = drop ?ls s"
    using ls by (metis append_take_drop_id drop_drop le_add_diff_inverse2)
  ultimately show ?thesis using ls assms by (simp add: line_end_from_def)
qed

lemma line_info_eq:
  assumes "valid_utf8 s" and "is_char_boundary s (min off (length s))"
  shows "line_info s off = (let k = min off (length s); ls = line_start_of (take k s) in
     Inr (1 + newlines (take k s), char_count (drop ls (take k s)) + 1, ls, line_end_from s ls))"
proof -
  let ?k = "min off (length s)" let ?ls = "line_start_of (take ?k s)"
  have ls: "?ls \<le> ?k" using line_start_le[of "take ?k s"] by simp
  have v: "valid_utf8 (drop ?ls s)" using line_start_valid[OF assms(1)] by simp
  have k: "valid_utf8 (drop ?k s)" using boundary_valid[OF assms] .
  have "slice s ?ls (length s) = (Inr (drop ?ls s) :: _ panicky)" using slice_ok[of ?ls s "length s"] v ls by simp
  moreover have "slice s ?ls ?k = (Inr (drop ?ls (take ?k s)) :: _ panicky)" using slice_ok[OF v k ls] by (simp add: drop_take)
  ultimately show ?thesis
    using find_byte_end[of ?ls s] ls by (simp add: line_info_def scan_lines_spec Let_def)
qed

text \<open>
  A position is what it says: at a character boundary of a valid source, \<open>line_info\<close>
  returns the number of newlines before the offset plus one, the number of characters since
  the last of them plus one, and the ends of that line, which holds no newline and is cut off
  by newlines or the ends of the text.
\<close>

theorem line_info_spec:
  assumes "valid_utf8 s" and "off \<le> length s" and "is_char_boundary s off"
  shows "\<exists>line column start endp. line_info s off = Inr (line, column, start, endp) \<and>
     start \<le> off \<and> off \<le> endp \<and> endp \<le> length s \<and>
     (start = 0 \<or> s ! (start - 1) = newline_char) \<and> (endp = length s \<or> s ! endp = newline_char) \<and>
     newline_char \<notin> set (take (endp - start) (drop start s)) \<and>
     line = 1 + newlines (take start s) \<and> column = 1 + char_count (take (off - start) (drop start s))"
proof -
  let ?ls = "line_start_of (take off s)"
  have ls: "?ls \<le> off" using line_start_le[of "take off s"] assms(2) by simp
  have "newlines (take off s) = newlines (take ?ls s)"
  proof -
    have "take off s = take ?ls s @ drop ?ls (take off s)" using ls by (metis append_take_drop_id min.absorb1 take_take)
    moreover have "newlines (drop ?ls (take off s)) = 0"
      using line_start_no_newline[of "take off s"] by (auto simp: newlines_def filter_empty_conv)
    ultimately show ?thesis by (metis add.right_neutral filter_append length_append newlines_def)
  qed
  moreover have "?ls = 0 \<or> s ! (?ls - 1) = newline_char" using line_start_prev[of "take off s"] ls by (cases ?ls) simp_all
  moreover have "line_end_from s ?ls = length s \<or> s ! line_end_from s ?ls = newline_char"
    using line_end_nth[of s ?ls] line_end_le[of ?ls s] ls assms(2) by linarith
  moreover have "line_end_from s ?ls \<le> length s" using line_end_le[of ?ls s] ls assms(2) by simp
  ultimately show ?thesis
    using line_info_eq[of s off] assms ls before_line_end[of off s] line_no_newline[of s ?ls]
    by (auto simp: Let_def min_absorb1 drop_take)
qed

text \<open>Two lines, the second with a two-byte character.\<close>

definition ex_source :: string where
  "ex_source = ''ab'' @ [newline_char, CHR ''c'', CHR 0xC3, CHR 0xA9, CHR ''d'']"

theorem line_info_spec_witness:
  "\<exists>line column start endp. line_info ex_source 6 = Inr (line, column, start, endp) \<and>
     start \<le> 6 \<and> 6 \<le> endp \<and> line = 1 + newlines (take start ex_source)"
proof -
  have "valid_utf8 ex_source" "6 \<le> length ex_source" "is_char_boundary ex_source 6" by code_simp+
  from line_info_spec[OF this] show ?thesis by blast
qed

section \<open>Rendering\<close>

lemma line_info_bounds:
  assumes "valid_utf8 s" and "is_char_boundary s (min off (length s))"
  obtains n c ls where "line_info s off = Inr (n, c, ls, line_end_from s ls)" "valid_utf8 (drop ls s)"
    "ls \<le> min off (length s)" "min off (length s) \<le> line_end_from s ls"
proof -
  let ?k = "min off (length s)" let ?ls = "line_start_of (take ?k s)"
  have "?ls \<le> ?k" using line_start_le[of "take ?k s"] by simp
  moreover have "?k \<le> line_end_from s ?ls" using before_line_end[of ?k s] by simp
  ultimately show ?thesis
    using that line_info_eq[OF assms] line_start_valid[OF assms(1), of ?k] by (simp add: Let_def)
qed

lemma render_at_ok:
  assumes v: "valid_utf8 s" and b: "is_char_boundary s (min start (length s))" "is_char_boundary s (min endp (length s))"
  shows "\<exists>out. render_at path s start endp level message = Inr out"
proof -
  let ?k = "min start (length s)"
  obtain n c ls where l: "line_info s start = Inr (n, c, ls, line_end_from s ls)" "valid_utf8 (drop ls s)"
    "ls \<le> ?k" "?k \<le> line_end_from s ls" using line_info_bounds[OF v b(1)] by metis
  let ?le = "line_end_from s ls"
  have le: "?le \<le> length s" "valid_utf8 (drop ?le s)" using line_end_le[of ls s] line_end_valid[OF v, of ls] l(3) by auto
  have st: "max (min start ?le) ls = ?k" using l(3,4) le(1) by auto
  have k: "valid_utf8 (drop ?k s)" using boundary_valid[OF v b(1)] .
  let ?e = "max (min endp ?le) ?k"
  have e: "valid_utf8 (drop ?e s)" "?k \<le> ?e" "?e \<le> length s"
    using k le l(4) boundary_valid[OF v b(2)] by (auto simp: max_def min_def split: if_splits)
  have lle: "ls \<le> ?le" using l(3,4) by linarith
  show ?thesis
    unfolding render_at_def l(1) bindE_simps prod.case Let_def st
    using l(3,4) le(1) by (simp add: slice_ok[OF l(2) le(2) lle] slice_ok[OF l(2) k l(3)] slice_ok[OF k e])
qed

definition span_ok :: "string \<Rightarrow> span \<Rightarrow> bool" where
  "span_ok s sp \<longleftrightarrow> is_char_boundary s (min (s_start sp) (length s)) \<and> is_char_boundary s (min (s_end sp) (length s))"

definition diagnostic_ok :: "string \<Rightarrow> diagnostic \<Rightarrow> bool" where
  "diagnostic_ok s d \<longleftrightarrow> span_ok s (d_span d) \<and> list_all (\<lambda>(sp, _). span_ok s sp) (d_related d)"

lemma render_one_ok: "valid_utf8 s \<Longrightarrow> span_ok s sp \<Longrightarrow> \<exists>out. render_one path s sp level message = Inr out"
  unfolding render_one_def span_ok_def by (rule render_at_ok) auto

lemma render_notes_ok:
  "valid_utf8 s \<Longrightarrow> list_all (\<lambda>(sp, _). span_ok s sp) rel \<Longrightarrow> \<exists>out. render_notes path s rel = Inr out"
proof (induction rel)
  case (Cons r rel)
  obtain sp msg where r: "r = (sp, msg)" by (cases r)
  obtain x where "render_one path s sp ''note'' msg = Inr x" using render_one_ok[where sp = sp] Cons.prems r by fastforce
  then show ?case using Cons r by auto
qed simp

lemma format_diagnostics_ok:
  assumes "valid_utf8 s"
  shows "list_all (diagnostic_ok s) ds \<Longrightarrow> \<exists>out. format_diagnostics path s ds = Inr out"
proof (induction ds)
  case (Cons d ds)
  then have ok: "span_ok s (d_span d)" "list_all (\<lambda>(sp, _). span_ok s sp) (d_related d)" by (simp_all add: diagnostic_ok_def)
  obtain x where "render_one path s (d_span d) ''error'' (d_message d) = Inr x" using render_one_ok[OF assms ok(1)] by blast
  moreover obtain y where "render_notes path s (d_related d) = Inr y" using render_notes_ok[OF assms ok(2)] by blast
  ultimately show ?case using Cons by auto
qed simp

lemma emit_span_ok: "valid_utf8 s \<Longrightarrow> span_ok s sp \<Longrightarrow> \<exists>out. emit_span_json path s sp = Inr out"
  by (auto simp: emit_span_json_def span_ok_def line_info_eq Let_def)

lemma emit_related_ok:
  assumes "\<And>sp. span_ok s sp \<Longrightarrow> \<exists>out. emit sp = Inr out"
  shows "list_all (\<lambda>(sp, _). span_ok s sp) rel \<Longrightarrow> \<exists>out. emit_related emit rel = Inr out"
proof (induction rel)
  case (Cons r rel)
  obtain sp msg where r: "r = (sp, msg)" by (cases r)
  obtain x where "emit sp = Inr x" using assms[of sp] Cons.prems r by auto
  then show ?case using Cons r by auto
qed simp

lemma emit_diagnostics_ok:
  assumes e: "\<And>sp. span_ok s sp \<Longrightarrow> \<exists>out. emit sp = Inr out" and d: "list_all (diagnostic_ok s) ds"
  shows "\<exists>out. emit_diagnostics emit ds = Inr out"
proof -
  have one: "\<exists>out. emit_diagnostic emit d = Inr out" if "diagnostic_ok s d" for d
  proof -
    have ok: "span_ok s (d_span d)" "list_all (\<lambda>(sp, _). span_ok s sp) (d_related d)"
      using that by (simp_all add: diagnostic_ok_def)
    obtain x where "emit (d_span d) = Inr x" using e[OF ok(1)] by blast
    moreover obtain y where "emit_related emit (d_related d) = Inr y" using emit_related_ok[of s emit, OF e ok(2)] by blast
    ultimately show ?thesis by (simp add: emit_diagnostic_def)
  qed
  have "\<exists>outs. mapE (emit_diagnostic emit) ds = Inr outs"
    using d by (induction ds) (auto simp: bindE_Inr_iff dest: one)
  then show ?thesis by (auto simp: emit_diagnostics_def)
qed

text \<open>
  C26. Diagnostics whose spans begin and end at character boundaries, or beyond the end of the
  text, are rendered and written as JSON without a panic.
\<close>

theorem rendering_never_panics:
  assumes "valid_utf8 source" and "list_all (diagnostic_ok source) ds"
  shows "\<exists>text json. format_diagnostics path source ds = Inr text \<and> format_diagnostics_json path source ds = Inr json"
proof -
  have "\<exists>out. emit_span_json path source sp = Inr out" if "span_ok source sp" for sp
    using emit_span_ok[OF assms(1) that] .
  from emit_diagnostics_ok[of source "emit_span_json path source", OF this assms(2)] show ?thesis
    using format_diagnostics_ok[OF assms] by (simp add: format_diagnostics_json_def)
qed

theorem rendering_never_panics_witness:
  "\<exists>text json. format_diagnostics ''f.vani'' ex_source [diagnostic_new (span_new 4 6) ''bad''] = Inr text \<and>
     format_diagnostics_json ''f.vani'' ex_source [diagnostic_new (span_new 4 6) ''bad''] = Inr json"
proof -
  have "valid_utf8 ex_source" "list_all (diagnostic_ok ex_source) [diagnostic_new (span_new 4 6) ''bad'']" by code_simp+
  from rendering_never_panics[OF this] show ?thesis .
qed

section \<open>JSON strings\<close>

text \<open>A reader of JSON string literals: the content of one and what follows it.\<close>

definition hex_value :: "char \<Rightarrow> nat option" where
  "hex_value c =
     (if 48 \<le> byte c \<and> byte c \<le> 57 then Some (byte c - 48)
      else if 97 \<le> byte c \<and> byte c \<le> 102 then Some (byte c - 87) else None)"

definition read_hex4 :: "string \<Rightarrow> nat option" where
  "read_hex4 s = (case map hex_value s of
     [Some a, Some b, Some c, Some d] \<Rightarrow> Some (a * 4096 + b * 256 + c * 16 + d) | _ \<Rightarrow> None)"

fun read_json_chars :: "string \<Rightarrow> (string \<times> string) option" where
  "read_json_chars [] = None"
| "read_json_chars (c # cs) =
     (if c = CHR 0x22 then Some ([], cs)
      else if byte c < 32 then None
      else if c = CHR 0x5C then
        (case cs of
           [] \<Rightarrow> None
         | e # rest \<Rightarrow>
             (if e = CHR ''u'' then
                (case read_hex4 (take 4 rest) of
                   None \<Rightarrow> None
                 | Some n \<Rightarrow> map_option (\<lambda>(s, r). (char_of n # s, r)) (read_json_chars (drop 4 rest)))
              else
                (case map_of [(CHR 0x22, CHR 0x22), (CHR 0x5C, CHR 0x5C), (CHR ''n'', CHR 0x0A), (CHR ''r'', CHR 0x0D),
                              (CHR ''t'', CHR 0x09)] e of
                   None \<Rightarrow> None
                 | Some d \<Rightarrow> map_option (\<lambda>(s, r). (d # s, r)) (read_json_chars rest))))
      else map_option (\<lambda>(s, r). (c # s, r)) (read_json_chars cs))"

definition read_json_string :: "string \<Rightarrow> (string \<times> string) option" where
  "read_json_string s = (case s of c # cs \<Rightarrow> if c = CHR 0x22 then read_json_chars cs else None | [] \<Rightarrow> None)"

lemma read_hex4_hex4: "n < 32 \<Longrightarrow> read_hex4 (hex4 n) = Some n"
proof -
  have v: "hex_value (hex_digit d) = Some d" if "d < 16" for d
    using that by (auto simp: hex_value_def hex_digit_def of_char_of)
  assume "n < 32"
  then have "n div 4096 mod 16 = 0" "n div 256 mod 16 = 0" "n div 16 mod 16 * 16 + n mod 16 = n" by auto
  then show ?thesis by (simp add: read_hex4_def hex4_def v)
qed

lemma read_json_escape:
  "read_json_chars (json_escape c @ cs) = map_option (\<lambda>(s, r). (c # s, r)) (read_json_chars cs)"
proof (cases "byte c < 32 \<and> c \<notin> {CHR 0x0A, CHR 0x0D, CHR 0x09}")
  case True
  then have e: "json_escape c = CHR 0x5C # CHR ''u'' # hex4 (byte c)" by (auto simp: json_escape_def)
  have "take 4 (hex4 (byte c) @ cs) = hex4 (byte c)" "drop 4 (hex4 (byte c) @ cs) = cs" by (simp_all add: hex4_def)
  then show ?thesis unfolding e using True read_hex4_hex4[of "byte c"] by simp
next
  case False
  then show ?thesis by (auto simp: json_escape_def)
qed

text \<open>
  C29. What \<open>push_json_string\<close> writes is a JSON string literal that reads back as the string
  it was given, whatever bytes the string has and whatever text follows.
\<close>

theorem json_string_roundtrip: "read_json_string (json_string s @ rest) = Some (s, rest)"
proof -
  have "read_json_chars (concat (map json_escape s) @ CHR 0x22 # rest) = Some (s, rest)"
    by (induction s) (simp_all add: read_json_escape del: read_json_chars.simps(2), simp)
  then show ?thesis by (simp add: read_json_string_def json_string_def)
qed

section \<open>File maps\<close>

lemma fold_max_ge: "k \<le> fold max xs k \<and> list_all (\<lambda>x. x \<le> fold max xs k) xs" for k :: nat
proof (induction xs arbitrary: k)
  case (Cons x xs)
  show ?case using Cons[of "max x k"] by (simp add: list_all_iff)
qed simp

lemma end_offset_covers: "e \<in> set m \<Longrightarrow> covers e off \<Longrightarrow> off \<le> end_offset m"
  using fold_max_ge[of 0 "map (\<lambda>e. fe_start e + length (fe_source e)) m"]
  by (auto simp: covers_def end_offset_def list_all_iff)

lemma find_none_append: "(\<And>x. x \<in> set xs \<Longrightarrow> \<not> P x) \<Longrightarrow> find P (xs @ ys) = find P ys"
  by (induction xs) auto

lemma find_append_none: "(\<And>y. y \<in> set ys \<Longrightarrow> \<not> P y) \<Longrightarrow> find P (xs @ ys) = find P xs"
  by (induction xs) (auto simp: find_None_iff)

text \<open>
  Merging file maps keeps what offsets mean: an offset of the first map is looked up as
  before, and an offset of the second map, shifted by the amount returned, is found in the
  same file at the same place.
\<close>

theorem extend_preserves_lookup:
  assumes "extend_with m other = (m', shift)"
  shows "(off \<le> end_offset m \<and> m \<noteq> [] \<longrightarrow> map_lookup m' off = map_lookup m off) \<and>
     map_option (\<lambda>(e, k). (fe_path e, fe_source e, k)) (map_lookup m' (off + shift)) =
     map_option (\<lambda>(e, k). (fe_path e, fe_source e, k)) (map_lookup other off)"
proof -
  let ?s = "\<lambda>e. e\<lparr>fe_start := fe_start e + shift\<rparr>"
  have m': "m' = m @ map ?s other" and sh: "m \<noteq> [] \<Longrightarrow> shift = end_offset m + 1"
    using assms by (auto simp: extend_with_def Let_def)
  have "map_lookup m' off = map_lookup m off" if "off \<le> end_offset m" "m \<noteq> []"
  proof -
    have "\<not> covers e off" if "e \<in> set (rev (map ?s other))" for e
      using that sh[OF \<open>m \<noteq> []\<close>] \<open>off \<le> end_offset m\<close> by (auto simp: covers_def)
    then show ?thesis unfolding map_lookup_def m' rev_append by (subst find_none_append) auto
  qed
  moreover have "map_option (\<lambda>(e, k). (fe_path e, fe_source e, k)) (map_lookup m' (off + shift)) =
     map_option (\<lambda>(e, k). (fe_path e, fe_source e, k)) (map_lookup other off)"
  proof -
    have "\<not> covers e (off + shift)" if "e \<in> set (rev m)" for e
    proof
      assume "covers e (off + shift)"
      then have "off + shift \<le> end_offset m" using end_offset_covers[of e m] that by simp
      then show False using sh that by (cases m) auto
    qed
    then have "find (\<lambda>e. covers e (off + shift)) (rev m') = find (\<lambda>e. covers e (off + shift)) (map ?s (rev other))"
      unfolding m' rev_append rev_map by (subst find_append_none) auto
    also have "\<dots> = map_option ?s (find (\<lambda>e. covers e off) (rev other))"
    proof -
      have "find (\<lambda>e. covers e (off + shift)) (map ?s es) = map_option ?s (find (\<lambda>e. covers e off) es)" for es
        by (induction es) (simp_all add: covers_def)
      then show ?thesis .
    qed
    finally show ?thesis by (simp add: map_lookup_def option.map_comp comp_def)
  qed
  ultimately show ?thesis by blast
qed

theorem extend_preserves_lookup_witness:
  "\<exists>m' shift. extend_with (map_push [] ''a'' ''xyz'' 0) (map_push [] ''b'' ''uv'' 0) = (m', shift) \<and>
     map_option (\<lambda>(e, k). (fe_path e, fe_source e, k)) (map_lookup m' (1 + shift)) = Some (''b'', ''uv'', 1)"
proof -
  obtain m' shift where m: "extend_with (map_push [] ''a'' ''xyz'' 0) (map_push [] ''b'' ''uv'' 0) = (m', shift)"
    by fastforce
  have "map_option (\<lambda>(e, k). (fe_path e, fe_source e, k)) (map_lookup (map_push [] ''b'' ''uv'' 0) 1) = Some (''b'', ''uv'', 1)"
    by (simp add: map_lookup_def map_push_def covers_def)
  moreover have "map_option (\<lambda>(e, k). (fe_path e, fe_source e, k)) (map_lookup m' (1 + shift)) =
      map_option (\<lambda>(e, k). (fe_path e, fe_source e, k)) (map_lookup (map_push [] ''b'' ''uv'' 0) 1)"
    using extend_preserves_lookup[OF m, of 1] by (rule conjunct2)
  ultimately show ?thesis using m by auto
qed

end
