(* ===== verification/LexerProps.thy ===== *)
theory LexerProps
  imports Lexer DiagProps
begin

text \<open>
  What the lexer guarantees: no input makes it panic, the tokens it returns lie in the text one
  after the other with only blanks and comments between, and a file it accepts keeps to one
  script. One error it reports has a span that cannot be shown.
\<close>

section \<open>Scanning loops\<close>

lemma skip_while_le: "pos \<le> length src \<Longrightarrow> skip_while P src pos \<le> length src"
proof (induction P src pos rule: skip_while.induct)
  case (1 P src pos)
  then show ?case by (subst skip_while.simps) auto
qed

lemma skip_while_drop: "drop (skip_while P src pos) src = dropWhile P (drop pos src)"
proof (induction P src pos rule: skip_while.induct)
  case (1 P src pos)
  show ?case
  proof (cases "pos < length src")
    case True
    then show ?thesis using 1 by (subst skip_while.simps) (simp add: Cons_nth_drop_Suc[symmetric])
  qed (subst skip_while.simps, simp)
qed

lemma ident_char_ascii: "ident_char c \<Longrightarrow> ascii c"
  by (auto simp: ident_char_def ident_start_def is_digit_char_def ascii_def)

lemma digit_or_underscore_ascii: "digit_or_underscore c \<Longrightarrow> ascii c"
  by (auto simp: digit_or_underscore_def is_digit_char_def ascii_def)

lemma radix_digit_ascii: "c = CHR ''_'' \<or> is_digit_for_radix c radix \<Longrightarrow> ascii c"
  by (auto simp: is_digit_for_radix_def digit_in_def Let_def is_digit_char_def ascii_def split: if_splits)

text \<open>A position the scanner may stop at: within the text, and what follows is whole characters.\<close>

definition at_char :: "string \<Rightarrow> nat \<Rightarrow> bool" where
  "at_char src pos \<longleftrightarrow> pos \<le> length src \<and> valid_utf8 (drop pos src)"

lemma at_char_skip_ascii: "at_char src pos \<Longrightarrow> (\<And>c. P c \<Longrightarrow> ascii c) \<Longrightarrow> at_char src (skip_while P src pos)"
  by (simp add: at_char_def skip_while_le skip_while_drop valid_dropWhile_ascii)

lemma at_char_skip_all: "at_char src pos \<Longrightarrow> (\<And>c. \<not> ascii c \<Longrightarrow> P c) \<Longrightarrow> at_char src (skip_while P src pos)"
  by (simp add: at_char_def skip_while_le skip_while_drop valid_dropWhile_all)

lemma at_char_step: "at_char src pos \<Longrightarrow> pos < length src \<Longrightarrow> ascii (src ! pos) \<Longrightarrow> at_char src (Suc pos)"
  by (simp add: at_char_def valid_ascii_step)

lemma at_char_next: "at_char src pos \<Longrightarrow> next_is P src pos \<Longrightarrow> (\<And>c. P c \<Longrightarrow> ascii c) \<Longrightarrow> at_char src (Suc pos)"
  by (auto simp: next_is_def peek_def split: if_splits intro: at_char_step)

lemma at_char_slice: "at_char src i \<Longrightarrow> at_char src j \<Longrightarrow> i \<le> j \<Longrightarrow> slice src i j = Inr (take (j - i) (drop i src))"
  by (simp add: at_char_def slice_ok)

lemma at_char_boundary: "at_char src pos \<Longrightarrow> is_char_boundary src pos"
  by (simp add: at_char_def valid_boundary)

section \<open>Every token is where it should be\<close>

text \<open>
  What a part of the lexer promises for a token that starts at \<open>start\<close>: no panic, and a token
  that spans the bytes from there to the new position, which is again a character boundary.
\<close>

definition scans :: "string \<Rightarrow> nat \<Rightarrow> (token \<times> nat) lexed \<Rightarrow> bool" where
  "scans src start r \<longleftrightarrow> (case r of
     Inl e \<Rightarrow> e \<noteq> Panic | Inr (t, q) \<Rightarrow> at_char src q \<and> start < q \<and> tk_span t = span_new start q)"

lemma scans_simps [simp]:
  "scans src start (Inl (Fail d))"
  "\<not> scans src start (Inl Panic)"
  "scans src start (Inr (t, q)) \<longleftrightarrow> at_char src q \<and> start < q \<and> tk_span t = span_new start q"
  by (simp_all add: scans_def)

lemma scans_slice:
  assumes "at_char src i" "at_char src j" "i \<le> j" and "\<And>text. text = take (j - i) (drop i src) \<Longrightarrow> scans src start (f text)"
  shows "scans src start (bindE (slice src i j) f)"
  using assms(4) by (simp add: at_char_slice[OF assms(1-3)])

lemma lex_radix_int_scans:
  assumes a: "at_char src start" and p: "at_char src (start + 2)"
  shows "scans src start (lex_radix_int src start (start + 1))"
proof -
  have q: "at_char src (skip_while (\<lambda>c. c = CHR ''_'' \<or> is_digit_for_radix c radix) src (start + 2))" for radix
    by (rule at_char_skip_ascii[OF p radix_digit_ascii])
  have ge: "start + 2 \<le> skip_while (\<lambda>c. c = CHR ''_'' \<or> is_digit_for_radix c radix) src (start + 2)" for radix
    by (rule skip_while_ge)
  have le: "start \<le> skip_while (\<lambda>c. c = CHR ''_'' \<or> is_digit_for_radix c radix) src (start + 2)"
    "start < skip_while (\<lambda>c. c = CHR ''_'' \<or> is_digit_for_radix c radix) src (start + 2)" for radix
    using ge[of radix] by linarith+
  have two: "start + 1 + 1 = start + 2" by simp
  show ?thesis
    unfolding lex_radix_int_def Let_def two
    by (auto simp: q le split del: if_split split: prod.split option.split
        simp del: add_2_eq_Suc' add_2_eq_Suc intro!: scans_slice q p a ge le split: if_split)
qed

lemma finish_number_scans:
  assumes "at_char src start" and "at_char src pos" and "start < pos"
  shows "scans src start (finish_number pf src start (float_lit, pos))"
  unfolding finish_number_def prod.case Let_def
  by (rule scans_slice) (use assms in \<open>auto split: option.splits\<close>)

lemma lex_number_scans:
  assumes a: "at_char src start" and l: "start < length src" and d: "is_digit_char (src ! start)"
  shows "scans src start (lex_number pf src start (start + 1))"
proof -
  have asc: "is_digit_char c \<Longrightarrow> ascii c" for c by (simp add: is_digit_char_def ascii_def)
  have p: "at_char src (start + 1)" using at_char_step[OF a l asc[OF d]] by simp
  show ?thesis
  proof (cases "src ! start = CHR ''0'' \<and>
      next_is (\<lambda>c. c \<in> {CHR ''x'', CHR ''X'', CHR ''b'', CHR ''B'', CHR ''o'', CHR ''O''}) src (start + 1)")
    case True
    then have "at_char src (Suc (start + 1))" by (intro at_char_next[OF p conjunct2[OF True]]) (auto simp: ascii_def)
    then show ?thesis using lex_radix_int_scans[OF a] True by (simp add: lex_number_def)
  next
    case False
    let ?p = "skip_while digit_or_underscore src (start + 1)"
    obtain f r where f: "lex_fraction src ?p = (f, r)" by fastforce
    have q: "at_char src ?p" by (rule at_char_skip_ascii[OF p digit_or_underscore_ascii])
    have r: "at_char src r \<and> start < r"
      using f q at_char_skip_ascii[OF at_char_next[OF q, of "\<lambda>c. c = CHR ''.''"] digit_or_underscore_ascii]
        Suc_le_lessD[OF skip_while_ge[of "Suc start" digit_or_underscore src]]
        less_trans[OF Suc_le_lessD[OF skip_while_ge] Suc_le_lessD[OF skip_while_ge], of start digit_or_underscore src digit_or_underscore src]
      by (auto simp: lex_fraction_def ascii_def split: if_splits)
    have e: "lex_exponent src (f, r) \<noteq> Inl Panic" by (simp add: lex_exponent_def Let_def)
    have "at_char src q' \<and> start < q'" if x: "lex_exponent src (f, r) = Inr (g, q')" for g q'
    proof -
      have e1: "at_char src (Suc r)" if "next_is (\<lambda>c. c \<in> {CHR ''e'', CHR ''E''}) src r"
        by (rule at_char_next[OF r[THEN conjunct1] that]) (auto simp: ascii_def)
      have e2: "at_char src (Suc (Suc r))"
        if "next_is (\<lambda>c. c \<in> {CHR ''e'', CHR ''E''}) src r" "next_is (\<lambda>c. c \<in> {CHR ''+'', CHR ''-''}) src (Suc r)"
        by (rule at_char_next[OF e1[OF that(1)] that(2)]) (auto simp: ascii_def)
      have "r \<le> q'" by (rule lex_exponent_ge[OF x])
      moreover have "at_char src q'"
        using x r by (auto simp: lex_exponent_def Let_def split: if_splits
            intro!: at_char_skip_ascii[OF _ digit_or_underscore_ascii] e1 e2)
      ultimately show ?thesis using r by simp
    qed
    then show ?thesis
      using e a finish_number_scans[of src start _ pf]
      unfolding lex_number_def if_not_P[OF False] f
      by (cases "lex_exponent src (f, r)") (auto simp: scans_def[of _ _ "Inl _"])
  qed
qed

lemma lex_ident_scans:
  assumes "at_char src start" and "start < length src" and "ident_start (src ! start)"
  shows "scans src start (lex_ident src start (start + 1))"
proof -
  have "at_char src (Suc start)"
    by (rule at_char_step) (use assms ident_char_ascii[of "src ! start"] in \<open>auto simp: ident_char_def\<close>)
  then have "at_char src (skip_while ident_char src (Suc start))" by (rule at_char_skip_ascii[OF _ ident_char_ascii])
  then show ?thesis using assms(1)
    by (auto simp: lex_ident_def Let_def intro!: scans_slice Suc_le_lessD[OF skip_while_ge])
qed

lemma lex_unicode_ident_scans:
  assumes "at_char src start" and "start < length src" and "\<not> ascii (src ! start)"
  shows "scans src start (lex_unicode_ident src start (start + 1))"
proof -
  let ?P = "\<lambda>c. ident_char c \<or> \<not> ascii c"
  have "at_char src (skip_while ?P src start)" by (rule at_char_skip_all[OF assms(1)]) simp
  moreover have "skip_while ?P src start = skip_while ?P src (Suc start)" using assms by (subst skip_while.simps) simp
  ultimately show ?thesis using assms(1)
    by (auto simp: lex_unicode_ident_def Let_def intro!: scans_slice Suc_le_lessD[OF skip_while_ge])
qed

section \<open>Devanagari digits\<close>

definition at_deva_digit :: "string \<Rightarrow> nat \<Rightarrow> bool" where
  "at_deva_digit src pos \<longleftrightarrow> next_is (\<lambda>c. c = CHR 0xE0) src pos \<and> next_is (\<lambda>c. c = CHR 0xA5) src (pos + 1) \<and>
     next_is deva_digit_byte src (pos + 2)"

lemma skip_deva_step: "at_deva_digit src pos \<Longrightarrow> skip_deva_digits src pos = skip_deva_digits src (pos + 3)"
  by (subst skip_deva_digits.simps) (simp add: at_deva_digit_def)

lemma at_deva_digit_bytes:
  assumes "at_deva_digit src pos"
  obtains b where "deva_digit_byte b" "drop pos src = CHR 0xE0 # CHR 0xA5 # b # drop (pos + 3) src"
proof -
  have l: "pos + 2 < length src" "src ! pos = CHR 0xE0" "src ! Suc pos = CHR 0xA5" "deva_digit_byte (src ! (pos + 2))"
    using assms by (auto simp: at_deva_digit_def next_is_def peek_def split: if_splits)
  have "drop pos src = src ! pos # src ! Suc pos # src ! (pos + 2) # drop (pos + 3) src"
    using l(1) by (simp add: Cons_nth_drop_Suc numeral_2_eq_2 numeral_3_eq_3)
  then show ?thesis using that[OF l(4)] l(2,3) by simp
qed

lemma at_char_deva: "at_char src pos \<Longrightarrow> at_deva_digit src pos \<Longrightarrow> at_char src (pos + 3)"
proof -
  assume a: "at_char src pos" "at_deva_digit src pos"
  from a(2) have "pos < length src" "src ! pos = CHR 0xE0"
    by (auto simp: at_deva_digit_def next_is_def peek_def split: if_splits)
  then show ?thesis using valid_char_step[of pos src] a(1) by (simp add: at_char_def utf8_len_def)
qed

lemma skip_deva_spec:
  "at_char src pos \<Longrightarrow> at_char src (skip_deva_digits src pos) \<and>
     list_all (\<lambda>ch. 0x966 \<le> code_point ch) (chars (take (skip_deva_digits src pos - pos) (drop pos src)))"
proof (induction src pos rule: skip_deva_digits.induct)
  case (1 src pos)
  show ?case
  proof (cases "at_deva_digit src pos")
    case True
    let ?q = "skip_deva_digits src (pos + 3)"
    obtain b where b: "deva_digit_byte b" "drop pos src = CHR 0xE0 # CHR 0xA5 # b # drop (pos + 3) src"
      using at_deva_digit_bytes[OF True] .
    have "?q - pos = Suc (Suc (Suc (?q - (pos + 3))))" using skip_deva_ge[of "pos + 3" src] by simp
    then have "take (?q - pos) (drop pos src) = CHR 0xE0 # CHR 0xA5 # b # take (?q - (pos + 3)) (drop (pos + 3) src)"
      unfolding b(2) by simp
    moreover have "0x966 \<le> code_point [CHR 0xE0, CHR 0xA5, b]"
      using b(1) by (simp add: code_point_def deva_digit_byte_def)
    moreover have "at_char src ?q \<and> list_all (\<lambda>ch. 0x966 \<le> code_point ch) (chars (take (?q - (pos + 3)) (drop (pos + 3) src)))"
      using 1 at_char_deva[OF 1(2) True] True by (simp add: at_deva_digit_def)
    ultimately show ?thesis by (simp add: skip_deva_step[OF True] utf8_len_def)
  next
    case False
    then have "skip_deva_digits src pos = pos" by (subst skip_deva_digits.simps) (auto simp: at_deva_digit_def)
    then show ?thesis using 1(2) by simp
  qed
qed

lemma deva_to_ascii_ok: "list_all (\<lambda>ch. 0x966 \<le> code_point ch) cs \<Longrightarrow> \<exists>ds. mapE deva_to_ascii cs = Inr ds"
  by (induction cs) (auto simp: deva_to_ascii_def)

lemma lex_devanagari_number_scans:
  assumes a: "at_char src start" and d: "at_deva_digit src start"
  shows "scans src start (lex_devanagari_number src start (start + 1))"
proof -
  let ?q = "skip_deva_digits src (start + 3)"
  have q: "at_char src ?q" "list_all (\<lambda>ch. 0x966 \<le> code_point ch) (chars (take (?q - start) (drop start src)))"
    using skip_deva_spec[OF a] skip_deva_step[OF d] by auto
  obtain ds where ds: "mapE deva_to_ascii (chars (take (?q - start) (drop start src))) = Inr ds"
    using deva_to_ascii_ok[OF q(2)] by blast
  have l: "start < ?q" using skip_deva_ge[of "start + 3" src] by simp
  have p: "start + 1 + 2 = start + 3" by simp
  show ?thesis
    unfolding lex_devanagari_number_def Let_def p
    by (rule scans_slice[OF a q(1)]) (use l q(1) ds in \<open>auto split: option.splits\<close>)
qed

section \<open>Strings and punctuation\<close>

lemma string_step_ok:
  assumes "at_char src pos"
  shows "string_step src start pos \<noteq> Inl Panic"
    and "string_step src start pos = Inr None \<Longrightarrow> at_char src (Suc pos)"
    and "string_step src start pos = Inr (Some (n, s)) \<Longrightarrow> at_char src (pos + n)"
proof -
  have b: "is_char_boundary src pos" by (rule at_char_boundary[OF assms])
  show "string_step src start pos \<noteq> Inl Panic"
    using b by (simp add: string_step_def Let_def split: option.split)
  show "at_char src (Suc pos)" if "string_step src start pos = Inr None"
    using that at_char_step[OF assms]
    by (auto simp: string_step_def Let_def peek_def ascii_def split: if_splits option.splits)
  have esc: "ascii c" if "escape_char c = Some d" for c d
    using that by (auto simp: escape_char_def ascii_def split: if_splits)
  show "at_char src (pos + n)" if s: "string_step src start pos = Inr (Some (n, s))"
  proof (cases "pos < length src \<and> src ! pos = CHR 0x5C")
    case True
    then have "at_char src (Suc pos)" using at_char_step[OF assms] by (simp add: ascii_def)
    then show ?thesis using s True esc at_char_step[of src "Suc pos"]
      by (auto simp: string_step_def peek_def split: if_splits option.splits)
  next
    case False
    then show ?thesis using s valid_char_step[of pos src] assms
      by (auto simp: string_step_def peek_def Let_def at_char_def max_def split: if_splits option.splits)
  qed
qed

lemma lex_string_from_scans:
  "at_char src pos \<Longrightarrow> start \<le> pos \<Longrightarrow> scans src start (lex_string_from src start pos val)"
proof (induction src start pos val rule: lex_string_from.induct)
  case (1 src start pos val)
  show ?case
  proof (cases "string_step src start pos")
    case (Inl e)
    then show ?thesis using string_step_ok(1)[OF 1(2), of start]
      by (cases e) (auto simp: lex_string_from.simps[of src start pos val])
  next
    case (Inr r)
    show ?thesis
    proof (cases r)
      case None
      then show ?thesis using string_step_ok(2)[OF 1(2)] 1(3) Inr
        by (simp add: lex_string_from.simps[of src start pos val])
    next
      case (Some x)
      obtain n s where x: "x = (n, s)" by (cases x)
      show ?thesis
        using 1(1)[OF Inr Some x[symmetric] string_step_ok(3)[OF 1(2)]] 1(3) Inr Some x
        by (simp add: lex_string_from.simps[of src start pos val])
    qed
  qed
qed

lemma lex_punct_scans:
  assumes "at_char src start" and "start < length src" and "ascii (src ! start)"
  shows "scans src start (lex_punct src start (start + 1))"
proof -
  have p: "at_char src (Suc start)" by (rule at_char_step[OF assms])
  have two: "ascii c" if "map_of two_byte_tokens (a, c) = Some k" for a c k
    using map_of_SomeD[OF that] by (auto simp: two_byte_tokens_def ascii_def)
  have "at_char src (Suc (Suc start))" if "peek src (Suc start) = Some c" "map_of two_byte_tokens (a, c) = Some k" for a c k
    using at_char_step[OF p] two[OF that(2)] that(1) by (auto simp: peek_def split: if_splits)
  then show ?thesis using p by (auto simp: lex_punct_def split: option.splits)
qed

section \<open>The main loop\<close>

text \<open>Text with no token in it: blanks, line ends and comments.\<close>

function blank :: "string \<Rightarrow> bool" where
  "blank [] = True"
| "blank (c # cs) =
     (if is_space c then blank cs
      else if c = CHR ''/'' \<and> take 1 cs = ''/'' then blank (dropWhile (\<lambda>c. c \<noteq> newline_char) cs)
      else False)"
  by pat_completeness auto

termination
  by (relation "measure length") (auto simp: le_imp_less_Suc[OF length_dropWhile_le])

text \<open>
  The tokens from position \<open>p\<close> on: they follow each other with blank text in between, each
  spans at least one byte and whole characters, and the last is the end of the file.
\<close>

fun tiles :: "string \<Rightarrow> nat \<Rightarrow> token list \<Rightarrow> bool" where
  "tiles src p [] = False"
| "tiles src p [t] \<longleftrightarrow> t = tok TkEof (length src) (length src) \<and> p \<le> length src \<and> blank (drop p src)"
| "tiles src p (t # u # ts) \<longleftrightarrow>
     (let s = s_start (tk_span t); e = s_end (tk_span t) in
      p \<le> s \<and> s < e \<and> at_char src s \<and> at_char src e \<and> blank (take (s - p) (drop p src)) \<and> tiles src e (u # ts))"

lemma blank_tail: "blank b \<Longrightarrow> blank (dropWhile (\<lambda>c. c \<noteq> newline_char) b)"
  by (induction b rule: blank.induct) (auto split: if_splits)

lemma blank_append: "blank a \<Longrightarrow> blank b \<Longrightarrow> blank (a @ b)"
proof (induction a rule: blank.induct)
  case (2 c cs)
  show ?case
  proof (cases "is_space c")
    case False
    then have c: "c = CHR ''/''" "take 1 cs = ''/''" "blank (dropWhile (\<lambda>c. c \<noteq> newline_char) cs)"
      using 2(3) by (auto split: if_splits)
    have "blank (dropWhile (\<lambda>c. c \<noteq> newline_char) (cs @ b))"
    proof (cases "newline_char \<in> set cs")
      case True
      then show ?thesis using 2(2)[OF False _ c(3) 2(4)] c by (simp add: dropWhile_append1)
    next
      case no: False
      then have "dropWhile (\<lambda>c. c \<noteq> newline_char) (cs @ b) = dropWhile (\<lambda>c. c \<noteq> newline_char) b"
        by (intro dropWhile_append2) auto
      then show ?thesis using blank_tail[OF 2(4)] by simp
    qed
    then show ?thesis using False c by (cases cs) simp_all
  qed (use 2 in simp)
qed simp

definition step_ok :: "string \<Rightarrow> nat \<Rightarrow> (token list \<times> nat) lexed \<Rightarrow> bool" where
  "step_ok src start r \<longleftrightarrow> (case r of
     Inl e \<Rightarrow> e \<noteq> Panic
   | Inr (ts, q) \<Rightarrow> at_char src q \<and> start < q \<and>
       (case ts of [] \<Rightarrow> blank (take (q - start) (drop start src)) | t # us \<Rightarrow> us = [] \<and> tk_span t = span_new start q))"

lemma scans_step: "scans src start r \<Longrightarrow> step_ok src start (bindE r (\<lambda>(t, pos). Inr ([t], pos)))"
  by (cases r) (auto simp: step_ok_def scans_def)

lemma comment_step:
  assumes "at_char src start" and "start + 1 < length src" and "src ! start = CHR ''/''" "src ! (start + 1) = CHR ''/''"
  shows "step_ok src start (Inr ([], skip_line_comment src (start + 2)))"
proof -
  let ?P = "\<lambda>c. c \<noteq> newline_char" let ?q = "skip_while ?P src (start + 2)"
  have "drop start src = src ! start # src ! (start + 1) # drop (start + 2) src"
    using assms(2) by (simp add: Cons_nth_drop_Suc)
  then have d: "drop start src = CHR ''/'' # CHR ''/'' # drop (start + 2) src" unfolding assms(3,4) .
  have p: "at_char src (start + 2)" using assms(1,2) unfolding at_char_def d by (simp add: ascii_def del: valid_utf8.simps)
  have q: "at_char src ?q" by (rule at_char_skip_all[OF p]) (auto simp: ascii_def)
  have ge: "start + 2 \<le> ?q" by (rule skip_while_ge)
  have tw: "take (?q - (start + 2)) (drop (start + 2) src) = takeWhile ?P (drop (start + 2) src)"
  proof -
    have "take (?q - (start + 2)) (drop (start + 2) src) @ drop ?q src = drop (start + 2) src"
      using append_take_drop_id[of "?q - (start + 2)" "drop (start + 2) src"] unfolding drop_drop le_add_diff_inverse2[OF ge] .
    then have "take (?q - (start + 2)) (drop (start + 2) src) @ drop ?q src =
        takeWhile ?P (drop (start + 2) src) @ drop ?q src"
      unfolding skip_while_drop by simp
    then show ?thesis by simp
  qed
  have "?q - start = Suc (Suc (?q - (start + 2)))" using ge by linarith
  then have "take (?q - start) (drop start src) = CHR ''/'' # CHR ''/'' # takeWhile ?P (drop (start + 2) src)"
    unfolding d using tw by simp
  moreover have "blank (dropWhile ?P (takeWhile ?P xs))" for xs by (induction xs) auto
  ultimately have "blank (take (?q - start) (drop start src))" by (simp add: is_space_def)
  moreover have "start < ?q" using ge by linarith
  ultimately show ?thesis using q by (simp add: step_ok_def skip_line_comment_def)
qed

lemma lex_token_ok:
  assumes a: "at_char src start" and l: "start < length src"
  shows "step_ok src start (lex_token pf src start)"
proof -
  let ?b = "src ! start"
  have sp: "step_ok src start (Inr ([], Suc start))" if "is_space ?b"
  proof -
    have "take 1 (drop start src) = [?b]" using l by (simp add: take_Suc_conv_app_nth)
    then show ?thesis using at_char_step[OF a l] that by (auto simp: step_ok_def is_space_def ascii_def)
  qed
  have de: "at_deva_digit src start"
    if "?b = CHR 0xE0" "next_is (\<lambda>c. c = CHR 0xA5) src (Suc start)" "next_is deva_digit_byte src (Suc (Suc start))"
    using that l by (simp add: at_deva_digit_def next_is_def peek_def)
  have co: "step_ok src start (Inr ([], skip_line_comment src (start + 2)))"
    if "?b = CHR ''/''" "next_is (\<lambda>c. c = CHR ''/'') src (start + 1)"
    using comment_step[OF a] that by (auto simp: next_is_def peek_def split: if_splits)
  have st: "scans src start (lex_string src start (start + 1))" if "?b = CHR 0x22"
    unfolding lex_string_def using at_char_step[OF a l] that by (intro lex_string_from_scans) (auto simp: ascii_def)
  show ?thesis
    unfolding lex_token_def Let_def
    using sp de co st lex_number_scans[OF a l] lex_ident_scans[OF a l] lex_unicode_ident_scans[OF a l]
      lex_devanagari_number_scans[OF a] lex_punct_scans[OF a l]
    by (auto intro!: scans_step)
qed

lemma lex_from_acc: "lex_from pf src pos tokens = bindE (lex_from pf src pos []) (\<lambda>ts. Inr (tokens @ ts))"
proof (induction "length src - pos" arbitrary: pos tokens rule: less_induct)
  case less
  show ?case
  proof (cases "length src \<le> pos")
    case False
    show ?thesis
    proof (cases "lex_token pf src pos")
      case (Inr r)
      obtain ts q where r: "r = (ts, q)" by (cases r)
      have "length src - q < length src - pos" using lex_token_progress Inr r False by fastforce
      note IH = less[OF this]
      show ?thesis unfolding lex_from.simps[of pf src pos] using False Inr r
        by (simp add: IH[of ts] IH[of "tokens @ ts"] bindE_assoc)
    qed (simp add: lex_from.simps[of pf src pos])
  qed (simp add: lex_from.simps[of pf src pos])
qed

lemma tiles_le: "tiles src p ts \<Longrightarrow> p \<le> length src"
  by (induction src p ts rule: tiles.induct) (auto simp: Let_def at_char_def)

lemma take_drop_split: "p \<le> q \<Longrightarrow> q \<le> r \<Longrightarrow> take (r - p) (drop p s) = take (q - p) (drop p s) @ take (r - q) (drop q s)"
proof -
  assume pq: "p \<le> q" "q \<le> r"
  then have "r - p = (q - p) + (r - q)" by simp
  then show ?thesis using pq(1) by (simp only: take_add drop_drop) simp
qed

lemma tiles_blank:
  assumes "p \<le> q" and "blank (take (q - p) (drop p src))" and "tiles src q ts"
  shows "tiles src p ts"
proof -
  have t: "blank (take (r - p) (drop p src))" if "q \<le> r" "blank (take (r - q) (drop q src))" for r
    using blank_append[OF assms(2) that(2)] take_drop_split[OF assms(1) that(1), of src] by simp
  have q: "q \<le> length src" by (rule tiles_le[OF assms(3)])
  show ?thesis using assms(1,3) t t[of "length src"] q
    by (cases "(src, q, ts)" rule: tiles.cases) (auto simp: Let_def)
qed

lemma lex_from_tiles:
  "at_char src pos \<Longrightarrow> (\<exists>d. lex_from pf src pos [] = Inl (Fail d)) \<or> (\<exists>ts. lex_from pf src pos [] = Inr ts \<and> tiles src pos ts)"
proof (induction "length src - pos" arbitrary: pos rule: less_induct)
  case less
  show ?case
  proof (cases "length src \<le> pos")
    case True
    then have "pos = length src" using less(2) by (simp add: at_char_def)
    then show ?thesis by (simp add: lex_from.simps[of pf src "length src"])
  next
    case False
    then have ok: "step_ok src pos (lex_token pf src pos)" using lex_token_ok[OF less(2)] by simp
    show ?thesis
    proof (cases "lex_token pf src pos")
      case (Inl e)
      then show ?thesis using ok False by (cases e) (auto simp: step_ok_def lex_from.simps[of pf src pos])
    next
      case (Inr r)
      obtain ts q where r: "r = (ts, q)" by (cases r)
      have q: "at_char src q" "pos < q" using ok Inr r by (auto simp: step_ok_def)
      then consider d where "lex_from pf src q [] = Inl (Fail d)" | us where "lex_from pf src q [] = Inr us" "tiles src q us"
        using less(1)[of q] False by (metis diff_less_mono2 not_le)
      then show ?thesis
      proof cases
        case 1
        then show ?thesis using False Inr r by (simp add: lex_from.simps[of pf src pos] lex_from_acc[of _ _ _ ts])
      next
        case (2 us)
        obtain u us' where us: "us = u # us'" using 2(2) by (cases us) auto
        have "tiles src pos (ts @ us)"
          using ok Inr r 2(2) q us less(2) tiles_blank[of pos q src us]
          by (cases ts) (auto simp: step_ok_def span_new_def)
        then show ?thesis using False Inr r 2 by (simp add: lex_from.simps[of pf src pos] lex_from_acc[of _ _ _ ts])
      qed
    qed
  qed
qed

section \<open>Merging keeps the order\<close>

definition merges_spans :: "(token \<Rightarrow> token \<Rightarrow> token option) \<Rightarrow> bool" where
  "merges_spans m \<longleftrightarrow> (\<forall>a b c. m a b = Some c \<longrightarrow>
     tk_span c = span_merge (tk_span a) (tk_span b) \<and> s_start (tk_span b) < s_end (tk_span b))"

lemma tiles_Cons_span: "tk_span t = tk_span t' \<Longrightarrow> tiles src p (t # u # us) = tiles src p (t' # u # us)"
  by simp

lemma merge_pairs_nonempty: "merge_pairs m (t # ts) \<noteq> []"
  by (induction m "t # ts" arbitrary: t ts rule: merge_pairs.induct) (auto split: option.splits)

lemma merge_pairs_tiles: "merges_spans m \<Longrightarrow> tiles src p ts \<Longrightarrow> tiles src p (merge_pairs m ts)"
proof (induction m ts arbitrary: p rule: merge_pairs.induct)
  case (1 m a b ts)
  show ?case
  proof (cases "m a b")
    case None
    have "tiles src (s_end (tk_span a)) (merge_pairs m (b # ts))" using 1(1)[OF None 1(3)] 1(4) by (simp add: Let_def)
    moreover obtain c cs where "merge_pairs m (b # ts) = c # cs"
      using merge_pairs_nonempty[of m b ts] by (cases "merge_pairs m (b # ts)") auto
    ultimately show ?thesis using 1(4) None by (simp add: Let_def)
  next
    case (Some c)
    then have c: "tk_span c = span_merge (tk_span a) (tk_span b)" "s_start (tk_span b) < s_end (tk_span b)"
      using 1(3) by (auto simp: merges_spans_def)
    have "tiles src p (c # ts)" using 1(4) c by (cases ts) (auto simp: Let_def span_merge_def span_new_def max_def min_def)
    then show ?thesis using 1(2)[OF Some 1(3)] Some by simp
  qed
qed simp_all

lemma token_text_nonempty: "token_text src b = Some x \<Longrightarrow> x \<noteq> [] \<Longrightarrow> s_start (tk_span b) < s_end (tk_span b)"
  by (auto simp: token_text_def str_get_def split: if_splits)

lemma has_non_ascii_Nil [simp]: "\<not> has_non_ascii []"
  by (simp add: has_non_ascii_def)

lemma multi_word_spans: "merges_spans (multi_word_merge src)"
  by (auto simp: merges_spans_def multi_word_merge_def split: if_splits option.splits intro: token_text_nonempty)

lemma give_back_spans: "merges_spans (give_back_merge src)"
  by (auto simp: merges_spans_def give_back_merge_def split: if_splits intro: token_text_nonempty)

lemma enforce_no_panic: "tiles src p ts \<Longrightarrow> enforce_from src ts eng dev \<noteq> Inl Panic"
proof (induction src p ts arbitrary: eng dev rule: tiles.induct)
  case (3 src p t u ts)
  then have t: "at_char src (s_start (tk_span t))" "at_char src (s_end (tk_span t))" "s_start (tk_span t) \<le> s_end (tk_span t)"
    and rest: "\<And>eng dev. enforce_from src (u # ts) eng dev \<noteq> Inl Panic" by (auto simp: Let_def)
  show ?case using rest by (subst enforce_from.simps) (simp add: at_char_slice[OF t] split: option.split)
qed (auto simp: is_structure_keyword_kind.simps)

text \<open>
  C13. No text makes the lexer panic: for every Rust string it returns an error, or tokens
  that follow each other from the first byte to the last, ending in the end-of-file token.
  Each spans whole characters, at least one, and nothing but blanks and comments lies between.
\<close>

theorem lexing_is_total:
  assumes "valid_utf8 src"
  shows "(\<exists>d. lex pf src = Inl (Fail d)) \<or> (\<exists>ts. lex pf src = Inr ts \<and> tiles src 0 ts)"
proof -
  have "at_char src 0" using assms by (simp add: at_char_def)
  then consider d where "lex_from pf src 0 [] = Inl (Fail d)" | ts where "lex_from pf src 0 [] = Inr ts" "tiles src 0 ts"
    using lex_from_tiles by blast
  then show ?thesis
  proof cases
    case (2 ts)
    let ?ts = "merge_give_back_ascii_alias src (merge_multi_word_devanagari_aliases src ts)"
    have "tiles src 0 ?ts"
      unfolding merge_give_back_ascii_alias_def merge_multi_word_devanagari_aliases_def
      by (intro merge_pairs_tiles 2 multi_word_spans give_back_spans)
    then have "enforce_from src ?ts None None \<noteq> Inl Panic" by (rule enforce_no_panic)
    then have "(\<exists>d. enforce_from src ?ts None None = Inl (Fail d)) \<or> enforce_from src ?ts None None = Inr ()"
      by (cases "enforce_from src ?ts None None") (auto intro: failure.exhaust)
    then show ?thesis using 2 \<open>tiles src 0 ?ts\<close> by (auto simp: lex_def enforce_language_purity_def)
  qed (simp add: lex_def)
qed

theorem lexing_is_total_witness:
  "(\<exists>d. lex (\<lambda>_. None) (deva [0x2b, 0x32] @ ''; // x'') = Inl (Fail d)) \<or>
   (\<exists>ts. lex (\<lambda>_. None) (deva [0x2b, 0x32] @ ''; // x'') = Inr ts \<and> tiles (deva [0x2b, 0x32] @ ''; // x'') 0 ts)"
  by (rule lexing_is_total) code_simp

section \<open>One script per file\<close>

lemma enforce_one_script:
  assumes "enforce_from src ts eng dev = Inr ()" and "eng = None \<or> dev = None"
  shows "\<exists>b. (eng \<noteq> None \<longrightarrow> \<not> b) \<and> (dev \<noteq> None \<longrightarrow> b) \<and>
    (\<forall>t\<in>set ts. is_structure_keyword_kind (tk_kind t) \<longrightarrow> (\<exists>x. token_text src t = Some x \<and> is_devanagari_text x = b))"
  using assms
proof (induction ts arbitrary: eng dev)
  case Nil
  then show ?case by (cases "dev = None") auto
next
  case (Cons t ts)
  show ?case
  proof (cases "is_structure_keyword_kind (tk_kind t)")
    case False
    then show ?thesis using Cons by simp
  next
    case True
    then obtain x where x: "token_text src t = Some x"
      "enforce_from src (t # ts) eng dev = (if is_devanagari_text x
         then (case eng of Some e \<Rightarrow> Inl (Fail (diagnostic_new (tk_span t) (mismatch ''an English'' ''a Devanagari alias'' e)))
               | None \<Rightarrow> enforce_from src ts eng (first_span dev (tk_span t)))
         else (case dev of Some d \<Rightarrow> Inl (Fail (diagnostic_new (tk_span t) (mismatch ''a Devanagari'' ''an English keyword'' d)))
               | None \<Rightarrow> enforce_from src ts (first_span eng (tk_span t)) dev))"
      using Cons.prems(1) by (auto simp: bindE_Inr_iff slice_def expectE_def token_text_def split: option.splits)
    have some: "first_span z (tk_span t) \<noteq> None" for z by (simp add: first_span_def split: option.split)
    show ?thesis
    proof (cases "is_devanagari_text x")
      case d: True
      then have "eng = None" "enforce_from src ts None (first_span dev (tk_span t)) = Inr ()"
        using x(2) Cons.prems(1) by (auto split: option.splits)
      note e = this
      show ?thesis using Cons.IH[OF e(2)] e(1) some x(1) d by auto
    next
      case d: False
      then have "dev = None" "enforce_from src ts (first_span eng (tk_span t)) None = Inr ()"
        using x(2) Cons.prems(1) by (auto split: option.splits)
      note e = this
      show ?thesis using Cons.IH[OF e(2)] e(1) some x(1) d by auto
    qed
  qed
qed

text \<open>
  C28. A file the lexer accepts keeps to one script: the keywords that structure it are all
  written in Devanagari or none is.
\<close>

theorem accepted_file_has_one_script:
  assumes "lex pf src = Inr ts"
  shows "\<exists>devanagari. \<forall>t\<in>set ts. is_structure_keyword_kind (tk_kind t) \<longrightarrow>
    (\<exists>x. token_text src t = Some x \<and> is_devanagari_text x = devanagari)"
proof -
  have "enforce_from src ts None None = Inr ()"
    using assms by (auto simp: lex_def bindE_Inr_iff Let_def enforce_language_purity_def)
  from enforce_one_script[OF this] show ?thesis by auto
qed

theorem accepted_file_has_one_script_witness:
  "\<exists>ts devanagari. lex (\<lambda>_. None) ''fn f'' = Inr ts \<and> (\<forall>t\<in>set ts. is_structure_keyword_kind (tk_kind t) \<longrightarrow>
     (\<exists>x. token_text ''fn f'' t = Some x \<and> is_devanagari_text x = devanagari))"
proof -
  let ?src = "''fn f''" let ?ts = "[tok (TkKw KwFn) 0 2, tok (TkIdent ''f'') 3 4, tok TkEof 4 4]"
  have "lex_token (\<lambda>_. None) ?src 0 = Inr ([tok (TkKw KwFn) 0 2], 2)" "lex_token (\<lambda>_. None) ?src 2 = Inr ([], 3)"
    "lex_token (\<lambda>_. None) ?src 3 = Inr ([tok (TkIdent ''f'') 3 4], 4)" by code_simp+
  then have "lex_from (\<lambda>_. None) ?src 0 [] = Inr ?ts" by (simp add: lex_from.simps numeral_eq_Suc)
  moreover have "merge_multi_word_devanagari_aliases ?src ?ts = ?ts" "merge_give_back_ascii_alias ?src ?ts = ?ts" by code_simp+
  moreover have "str_get ?src 0 2 = Some ''fn''" by code_simp
  then have "enforce_language_purity ?src ?ts = Inr ()"
    by (simp add: enforce_language_purity_def slice_def expectE_def span_new_def is_devanagari_text_def
        code_point_def utf8_len_def)
  ultimately have l: "lex (\<lambda>_. None) ?src = Inr ?ts" by (simp add: lex_def)
  from accepted_file_has_one_script[OF l] l show ?thesis by blast
qed

section \<open>An error that cannot be shown\<close>

text \<open>The text \<open>"\\<close>, a two-byte character and a closing quote.\<close>

definition bad_escape :: string where
  "bad_escape = [CHR 0x22, CHR 0x5C, CHR 0xC3, CHR 0xA9, CHR 0x22]"

text \<open>
  C27. The error for an unknown escape covers the backslash and one byte: before a character
  of several bytes the span ends inside it, and rendering the error for the user panics.
\<close>

theorem unknown_escape_panics:
  "valid_utf8 bad_escape \<and>
   (\<exists>d. lex pf bad_escape = Inl (Fail d) \<and> d_span d = span_new 1 3 \<and>
        format_diagnostics path bad_escape [d] = Inl Panic)"
proof -
  have v: "valid_utf8 bad_escape" by code_simp
  have "string_step bad_escape 0 1 =
      Inl (Fail (diagnostic_new (span_new 1 3) (''unknown escape sequence '' @ [CHR 0x27, CHR 0x5C] @ byte_as_char CHR 0xC3 @ [CHR 0x27])))"
    by code_simp
  then obtain m where s: "string_step bad_escape 0 1 = Inl (Fail (diagnostic_new (span_new 1 3) m))" by blast
  have "length bad_escape = 5" "bad_escape ! 0 = CHR 0x22" by code_simp+
  then have l: "lex pf bad_escape = Inl (Fail (diagnostic_new (span_new 1 3) m))"
    using s lex_string_from.simps[of bad_escape 0 "Suc 0" "[]"]
    by (simp add: lex_def lex_from.simps[of pf bad_escape 0] lex_token_def lex_string_def is_space_def
        is_digit_char_def ident_start_def ascii_def)
  have i: "line_info bad_escape 1 = Inr (1, 2, 0, 5)" by code_simp
  have a: "str_get bad_escape 0 5 = Some bad_escape" "str_get bad_escape 0 (Suc 0) = Some [CHR 0x22]"
    "str_get bad_escape (Suc 0) 3 = None" by code_simp+
  have "format_diagnostics path bad_escape [diagnostic_new (span_new 1 3) m] = Inl Panic"
    using i by (simp add: render_one_def render_at_def diagnostic_new_def span_new_def Let_def slice_def expectE_def a)
  then show ?thesis using v l by (auto simp: diagnostic_new_def)
qed

end
