(* ===== verification/ParserTotal.thy ===== *)
theory ParserTotal
  imports ParserTriple LexerProps
begin

text \<open>
  The parser is total: on the tokens the lexer returns it never indexes past the end, never
  reaches one of its \<open>unreachable!\<close>, never runs out of the fuel \<open>parse\<close> gives it, and returns. What
  a parser may assume of the ones it calls is the locale \<open>calls\<close>; the recursive parsers
  satisfy it, by induction on the fuel.
\<close>

section \<open>What the recursive parsers promise\<close>

text \<open>
  They move on when they succeed, and a statement that starts with one of the keywords
  \<open>sync_to_stmt\<close> stops at moves on also when it fails.
\<close>

locale calls =
  fixes p :: parsers and n :: nat
  assumes type_call: "okP anyk n always False (p_type p)"
    and expr_call: "okP anyk n always False (p_expr p)"
    and binary_call: "okP anyk n always False (p_binary p k)"
    and unary_call: "okP anyk n always False (p_unary p)"
    and call_call: "okP anyk n always False (p_call p)"
    and primary_call: "okP anyk n always False (p_primary p)"
    and stmt_call: "okP anyk n always False (p_stmt p)"
    and stmt_start_call: "okP (\<lambda>k. k \<in> set stmt_starts) n always True (p_stmt p)"
    and let_call: "okP anyk n always False (p_let p)"
    and print_call: "okP anyk n always False (p_print p)"
    and if_call: "okP anyk n always False (p_if p)"
begin

lemma call_ok: "okP anyk n always False q \<Longrightarrow> m \<le> n \<Longrightarrow> okP Pre m S False q"
  by (erule okP_weaken) auto

lemma call_bind:
  "okP anyk n always False q \<Longrightarrow> m \<le> n \<Longrightarrow> (\<And>x. okP anyk (m - 1) never False (f x)) \<Longrightarrow> okP Pre m S False (bindP q f)"
  by (rule okP_bind_strict) (auto intro: call_ok)

lemmas calls_okp [okp] = type_call[THEN call_ok] expr_call[THEN call_ok] binary_call[THEN call_ok]
  unary_call[THEN call_ok] call_call[THEN call_ok] primary_call[THEN call_ok] stmt_call[THEN call_ok]
  let_call[THEN call_ok] print_call[THEN call_ok] if_call[THEN call_ok]
  type_call[THEN call_bind] expr_call[THEN call_bind] binary_call[THEN call_bind]
  unary_call[THEN call_bind] call_call[THEN call_bind] primary_call[THEN call_bind] stmt_call[THEN call_bind]
  let_call[THEN call_bind] print_call[THEN call_bind] if_call[THEN call_bind]

text \<open>Types.\<close>

lemma angle_arg_bind [okp]:
  "m \<le> Suc n \<Longrightarrow> (\<And>x. okP anyk (m - 1) never False (f x)) \<Longrightarrow> okP Pre m S False (bindP (angle_arg p) f)"
  by (rule okP_bind_strict) (auto simp: angle_arg_def parser_simps intro!: okp)

lemma angle_pair_bind [okp]:
  "m \<le> Suc n \<Longrightarrow> (\<And>x. okP anyk (m - 1) never False (f x)) \<Longrightarrow> okP Pre m S False (bindP (angle_pair p) f)"
  by (rule okP_bind_strict) (auto simp: angle_pair_def parser_simps intro!: okp)

lemma channel_capacity_bind [okp]:
  "(\<And>x. okP anyk m S False (f x)) \<Longrightarrow> okP Pre m S False (bindP channel_capacity f)"
  by (rule okP_bind) (auto simp: channel_capacity_def parser_simps split: token_kind.split intro!: okp)

lemma channel_type_ok [okp]: "m \<le> Suc n \<Longrightarrow> okP Pre m S False (channel_type p)"
  by (auto simp: channel_type_def parser_simps intro!: okp)

lemma dyn_type_ok [okp]: "okP Pre m never False dyn_type"
  by (auto simp: dyn_type_def split: token_kind.split intro!: okp)

lemma named_type_ok: "named_type p name = Some q \<Longrightarrow> m \<le> n \<Longrightarrow> okP Pre m never False q"
  unfolding named_type_def by (drule map_of_SomeD) (auto intro!: okp)

lemma path_type_ok [okp]: "okP Pre m never False (path_type name)"
  by (auto simp: path_type_def parser_simps intro!: okp)

lemma tuple_type_ok [okp]: "m \<le> n \<Longrightarrow> okP Pre m never False (tuple_type p)"
  by (auto simp: tuple_type_def parser_simps intro!: okp)

lemma fn_ptr_type_ok [okp]: "m \<le> n \<Longrightarrow> okP Pre m never False (fn_ptr_type p)"
  by (auto simp: fn_ptr_type_def parser_simps intro!: okp)

lemma array_length_bind [okp]:
  "(\<And>x. okP anyk m S False (f x)) \<Longrightarrow> okP Pre m S False (bindP array_length f)"
  by (rule okP_bind) (auto simp: array_length_def parser_simps split: token_kind.split option.split intro!: okp)

lemma array_type_ok [okp]: "m \<le> n \<Longrightarrow> okP Pre m never False (array_type p)"
  by (auto simp: array_type_def parser_simps intro!: okp)

lemma apply_type_ok [okp]: "m \<le> n \<Longrightarrow> okP Pre m never False (apply_type p name)"
  by (auto simp: apply_type_def parser_simps intro!: okp)

lemma scalar_or_error_ok [okp]: "k = tk_kind t \<Longrightarrow> okP ((=) k) m S False (scalar_or_error t)"
  by (auto simp: scalar_or_error_def scalar_type_def parser_simps split: option.split if_splits dest!: map_of_SomeD intro!: okp)

lemma ident_type_ok [okp]:
  "m \<le> Suc n \<Longrightarrow> tk_kind t = TkIdent name \<Longrightarrow> okP ((=) (TkIdent name)) m S False (ident_type p t name)"
  by (auto simp: ident_type_def parser_simps split: option.split intro!: okp intro: named_type_ok)

lemma parse_type_ok: "m \<le> Suc n \<Longrightarrow> okP Pre m S False (parse_type p)"
  by (auto simp: parse_type_def parser_simps split: token_kind.split intro!: okp)

text \<open>Blocks of statements: a broken statement is skipped, and skipping moves on.\<close>

lemma stmts_until_brace_turn:
  "m \<le> n \<Longrightarrow> okP (\<lambda>k. \<not> block_end k) m isl False
     (handleP (p_stmt p) (\<lambda>x. ret (Inl (body @ [x])))
        (\<lambda>e. thenP (push_error e) (thenP sync_to_stmt (ret (Inl body)))))"
proof (rule okP_split[where P = "\<lambda>k. k \<in> set stmt_starts"])
  assume m: "m \<le> n"
  show "okP (\<lambda>k. \<not> block_end k \<and> k \<in> set stmt_starts) m isl False
     (handleP (p_stmt p) (\<lambda>x. ret (Inl (body @ [x]))) (\<lambda>e. thenP (push_error e) (thenP sync_to_stmt (ret (Inl body)))))"
  proof (rule okP_handle[where E' = True])
    show "okP (\<lambda>k. \<not> block_end k \<and> k \<in> set stmt_starts) m always True (p_stmt p)"
      by (rule okP_weaken[OF stmt_start_call m]) auto
  qed (auto simp: parser_simps intro!: okp)
next
  assume m: "m \<le> n"
  show "okP (\<lambda>k. \<not> block_end k \<and> k \<notin> set stmt_starts) m isl False
     (handleP (p_stmt p) (\<lambda>x. ret (Inl (body @ [x]))) (\<lambda>e. thenP (push_error e) (thenP sync_to_stmt (ret (Inl body)))))"
  proof (rule okP_recover)
    show "okP (\<lambda>k. \<not> block_end k \<and> k \<notin> set stmt_starts) m always False (p_stmt p)"
      by (rule okP_weaken[OF stmt_call m]) auto
    fix e
    have "okP (\<lambda>k. \<not> block_end k \<and> k \<notin> set stmt_starts) m isl False (bindP sync_to_stmt (\<lambda>_. ret (Inl body)))"
      by (rule okP_bind_strict[OF okP_weaken[OF sync_to_stmt_strict]]) (auto simp: block_end_def intro!: okp)
    then show "okP (\<lambda>k. \<not> block_end k \<and> k \<notin> set stmt_starts) m isl False
        (thenP (push_error e) (thenP sync_to_stmt (ret (Inl body))))"
      unfolding thenP_def by (rule okP_push)
  qed (auto simp: parser_simps block_end_def stmt_starts_def intro!: okp)
qed

lemma stmts_until_brace_bind [okp]:
  assumes "m \<le> n" and "\<And>x. okP anyk m S False (f x)"
  shows "okP Pre m S False (bindP (stmts_until_brace p) f)"
  unfolding stmts_until_brace_def
  using stmts_until_brace_turn[OF assms(1)] assms by (auto intro!: okp)

text \<open>Expressions.\<close>

lemma call_args_bind [okp]:
  "m \<le> n \<Longrightarrow> (\<And>x. okP anyk (m - 1) never False (f x)) \<Longrightarrow> okP Pre m S False (bindP (call_args p) f)"
  by (rule okP_bind_strict) (auto simp: call_args_def parser_simps intro!: okp)

lemma member_access_ok [okp]: "m \<le> n \<Longrightarrow> okP Pre m never False (member_access p e sp next name)"
  by (auto simp: member_access_def parser_simps intro!: okp)

lemma bad_access_ok [okp]: "okP Pre m S False (bad_access sp)"
  by (auto simp: bad_access_def intro!: okp)

lemma after_dot_ok: "m \<le> n \<Longrightarrow> okP Pre m never False (after_dot dbg p e)"
  by (auto simp: after_dot_def parser_simps split: token_kind.split option.split intro!: okp)

lemma call_of_ok: "m \<le> n \<Longrightarrow> okP Pre m never False (call_of p e)"
  by (auto simp: call_of_def parser_simps split: expr_kind.split intro!: okp)

lemma index_of_ok: "m \<le> n \<Longrightarrow> okP Pre m never False (index_of p e)"
  by (auto simp: index_of_def parser_simps intro!: okp)

lemmas access_bind [okp] = after_dot_ok[THEN okP_bind] call_of_ok[THEN okP_bind] index_of_ok[THEN okP_bind]

lemma postfix_step_ok [okp]: "m \<le> Suc n \<Longrightarrow> okP Pre m isl False (postfix_step dbg p e)"
  by (auto simp: postfix_step_def parser_simps intro!: okp)

lemma parse_param_ok [okp]: "m \<le> Suc n \<Longrightarrow> okP Pre m S False (parse_param p)"
  by (auto simp: parse_param_def parser_simps intro!: okp)

lemma return_type_bind [okp]:
  "m \<le> Suc n \<Longrightarrow> (\<And>x. okP anyk m S False (f x)) \<Longrightarrow> okP Pre m S False (bindP (return_type p) f)"
  by (rule okP_bind) (auto simp: return_type_def parser_simps intro!: okp)

lemma block_expr_ok [okp]: "m \<le> n \<Longrightarrow> okP Pre m never False (block_expr p sp)"
  by (auto simp: block_expr_def parser_simps intro!: okp)

lemma try_expr_ok [okp]: "m \<le> n \<Longrightarrow> okP Pre m never False (try_expr p sp)"
  by (auto simp: try_expr_def parser_simps intro!: okp)

lemma else_value_bind [okp]:
  "m \<le> n \<Longrightarrow> (\<And>x. okP anyk (m - 1) never False (f x)) \<Longrightarrow> okP Pre m S False (bindP (else_value p) f)"
  by (rule okP_bind_strict) (auto simp: else_value_def parser_simps intro!: okp)

lemma if_expr_ok [okp]: "m \<le> n \<Longrightarrow> okP Pre m never False (if_expr p sp)"
  by (auto simp: if_expr_def parser_simps intro!: okp)

lemma closure_expr_ok [okp]: "m \<le> n \<Longrightarrow> okP Pre m never False (closure_expr p sp)"
  by (auto simp: closure_expr_def parser_simps intro!: okp)

lemma anon_fn_ok [okp]: "m \<le> n \<Longrightarrow> okP Pre m never False (anon_fn p sp)"
  by (auto simp: anon_fn_def parser_simps intro!: okp)

lemma literal_pattern_ok [okp]: "(\<And>k. Pre k \<Longrightarrow> k \<noteq> TkEof) \<Longrightarrow> okP Pre m S False literal_pattern"
  by (auto simp: literal_pattern_def parser_simps split: token_kind.split option.split intro!: okp)

lemma variant_pattern_ok [okp]: "okP Pre m S False variant_pattern"
  by (auto simp: variant_pattern_def parser_simps intro!: okp)

lemma match_pattern_bind [okp]:
  "(\<And>x. okP anyk (m - 1) never False (f x)) \<Longrightarrow> okP Pre m S False (bindP match_pattern f)"
  by (rule okP_bind_strict) (auto simp: match_pattern_def parser_simps split: token_kind.split intro!: okp)

lemma match_expr_ok [okp]: "m \<le> n \<Longrightarrow> okP Pre m never False (match_expr p sp)"
  by (auto simp: match_expr_def parser_simps intro!: okp)

lemma struct_lit_ok [okp]: "m \<le> n \<Longrightarrow> okP Pre m never False (struct_lit p name sp)"
  by (auto simp: struct_lit_def parser_simps intro!: okp)

lemma ident_expr_ok [okp]: "m \<le> n \<Longrightarrow> okP Pre m never False (ident_expr p name sp)"
  by (auto simp: ident_expr_def parser_simps intro!: okp)

lemma paren_expr_ok [okp]: "m \<le> n \<Longrightarrow> okP Pre m never False (paren_expr p sp)"
  by (auto simp: paren_expr_def parser_simps intro!: okp)

lemma array_lit_ok [okp]: "m \<le> n \<Longrightarrow> okP Pre m never False (array_lit p sp)"
  by (auto simp: array_lit_def parser_simps intro!: okp)

lemma len_expr_ok [okp]: "m \<le> n \<Longrightarrow> okP Pre m never False (len_expr p sp)"
  by (auto simp: len_expr_def parser_simps intro!: okp)

lemma primary_of_ok: "m \<le> n \<Longrightarrow> okP Pre m never False (primary_of p t)"
  by (auto simp: primary_of_def Let_def split: token_kind.split intro!: okp)

lemma primary_of_eof: "tk_kind t = TkEof \<Longrightarrow> okP Pre m S False (primary_of p t)"
  by (auto simp: primary_of_def Let_def intro!: okp)

lemma parse_primary_expr_ok: "m \<le> Suc n \<Longrightarrow> okP Pre m S False (parse_primary_expr p)"
  unfolding parse_primary_expr_def by (rule okP_bump_any) (auto intro: primary_of_ok primary_of_eof)

lemma parse_call_expr_ok [okp]: "m \<le> Suc n \<Longrightarrow> okP Pre m S False (parse_call_expr dbg p)"
  unfolding parse_call_expr_def
  by (rule okP_bind_strict[OF parse_primary_expr_ok]) (auto intro!: okp)

lemma prefix_expr_ok [okp]: "m \<le> n \<Longrightarrow> okP Pre m S False (prefix_expr p mk sp)"
  by (auto simp: prefix_expr_def intro!: okp)

lemma parse_unary_expr_ok: "m \<le> Suc n \<Longrightarrow> okP Pre m S False (parse_unary_expr dbg p)"
  by (auto simp: parse_unary_expr_def parser_simps intro!: okp)

lemma binary_step_ok [okp]: "m \<le> Suc n \<Longrightarrow> okP Pre m isl False (binary_step p k e)"
  by (auto simp: binary_step_def parser_simps current_binary_op_def binary_operators_def
      dest!: map_of_SomeD split: option.split intro!: okp)

lemma parse_binary_expr_ok: "m \<le> Suc n \<Longrightarrow> okP Pre m S False (parse_binary_expr dbg p k)"
  unfolding parse_binary_expr_def
  by (rule okP_bind_strict[OF parse_unary_expr_ok]) (auto intro!: okp)

lemma parse_expr_ok: "m \<le> Suc n \<Longrightarrow> okP Pre m S False (parse_expr dbg p)"
  unfolding parse_expr_def by (rule parse_binary_expr_ok)

end

section \<open>Statements\<close>

locale stmt_calls = calls +
  fixes pe :: "expr parser"
  assumes pe_call: "okP anyk (Suc n) always False pe"
begin

lemma pe_ok [okp]: "m \<le> Suc n \<Longrightarrow> okP Pre m S False pe"
  by (rule okP_weaken[OF pe_call]) auto

lemma pe_bind [okp]:
  "m \<le> Suc n \<Longrightarrow> (\<And>x. okP anyk (m - 1) never False (f x)) \<Longrightarrow> okP Pre m S False (bindP pe f)"
  by (rule okP_bind_strict) (auto intro: pe_ok)

lemma parse_block_bind [okp]:
  "m \<le> Suc n \<Longrightarrow> (\<And>x. okP anyk (m - 1) never False (f x)) \<Longrightarrow> okP Pre m S False (bindP (parse_block p) f)"
  by (rule okP_bind_strict) (auto simp: parse_block_def parser_simps intro!: okp)

lemma annotation_bind [okp]:
  "m \<le> Suc n \<Longrightarrow> (\<And>x. okP anyk m S False (f x)) \<Longrightarrow> okP Pre m S False (bindP (annotation p) f)"
  by (rule okP_bind) (auto simp: annotation_def parser_simps intro!: okp)

lemma init_value_bind [okp]:
  "m \<le> Suc n \<Longrightarrow> (\<And>x. okP anyk (m - 1) never False (f x)) \<Longrightarrow> okP Pre m S False (bindP (init_value pe) f)"
  by (rule okP_bind_strict) (auto simp: init_value_def parser_simps intro!: okp)

lemma parse_let_stmt_ok [okp]:
  "m \<le> Suc n \<Longrightarrow> (E \<Longrightarrow> (\<And>k. Pre k \<Longrightarrow> k = TkKw KwLet)) \<Longrightarrow> okP Pre m S E (parse_let_stmt p pe)"
  by (auto simp: parse_let_stmt_def parser_simps intro!: okp)

lemma parse_return_stmt_ok [okp]:
  "m \<le> Suc n \<Longrightarrow> (E \<Longrightarrow> (\<And>k. Pre k \<Longrightarrow> k = TkKw KwReturn)) \<Longrightarrow> okP Pre m S E (parse_return_stmt pe)"
  by (auto simp: parse_return_stmt_def intro!: okp)

lemma assert_message_bind [okp]:
  "(\<And>x. okP anyk m S False (f x)) \<Longrightarrow> okP Pre m S False (bindP assert_message f)"
  by (rule okP_bind) (auto simp: assert_message_def intro!: okp)

lemma parse_assert_stmt_ok [okp]:
  "m \<le> Suc n \<Longrightarrow> (E \<Longrightarrow> (\<And>k. Pre k \<Longrightarrow> k = TkKw KwAssert)) \<Longrightarrow> okP Pre m S E (parse_assert_stmt pe)"
  by (auto simp: parse_assert_stmt_def intro!: okp)

lemma parse_prove_stmt_ok [okp]:
  "m \<le> Suc n \<Longrightarrow> (E \<Longrightarrow> (\<And>k. Pre k \<Longrightarrow> k = TkKw KwProve)) \<Longrightarrow> okP Pre m S E (parse_prove_stmt pe)"
  by (auto simp: parse_prove_stmt_def intro!: okp)

lemma parse_print_item_bind [okp]:
  "m \<le> Suc n \<Longrightarrow> (\<And>x. okP anyk (m - 1) never False (f x)) \<Longrightarrow> okP Pre m S False (bindP (parse_print_item pe) f)"
  by (rule okP_bind_strict) (auto simp: parse_print_item_def parser_simps split: token_kind.split intro!: okp)

lemma parse_print_stmt_ok [okp]:
  "m \<le> Suc n \<Longrightarrow> (E \<Longrightarrow> (\<And>k. Pre k \<Longrightarrow> k = TkKw KwPrint)) \<Longrightarrow> okP Pre m S E (parse_print_stmt pe)"
  by (auto simp: parse_print_stmt_def intro!: okp)

lemma parse_if_stmt_ok [okp]:
  "m \<le> Suc n \<Longrightarrow> (E \<Longrightarrow> (\<And>k. Pre k \<Longrightarrow> k = TkKw KwIf)) \<Longrightarrow> okP Pre m S E (parse_if_stmt p pe)"
  by (auto simp: parse_if_stmt_def intro!: okp)

lemma parse_invariants_bind [okp]:
  "m \<le> Suc n \<Longrightarrow> (\<And>x. okP anyk m S False (f x)) \<Longrightarrow> okP Pre m S False (bindP (parse_invariants pe) f)"
  by (rule okP_bind) (auto simp: parse_invariants_def parser_simps intro!: okp)

lemma parse_reductions_bind [okp]:
  "(\<And>x. okP anyk m S False (f x)) \<Longrightarrow> okP Pre m S False (bindP parse_reductions f)"
  by (rule okP_bind)
    (auto simp: parse_reductions_def reduction_op_of_def parser_simps split: option.split if_splits
       dest!: map_of_SomeD intro!: okp)

lemma parse_while_stmt_ok [okp]:
  "m \<le> Suc n \<Longrightarrow> (E \<Longrightarrow> (\<And>k. Pre k \<Longrightarrow> k = TkKw KwWhile)) \<Longrightarrow> okP Pre m S E (parse_while_stmt p pe)"
  by (auto simp: parse_while_stmt_def intro!: okp)

lemma range_for_rest_ok [okp]: "m \<le> Suc n \<Longrightarrow> okP Pre m never False (range_for_rest p pe par var lo hi sp esp)"
  by (auto simp: range_for_rest_def intro!: okp)

lemma collection_for_ok [okp]: "m \<le> Suc n \<Longrightarrow> okP Pre m never False (collection_for p par start var)"
  by (auto simp: collection_for_def intro!: okp)

lemma parse_for_stmt_inner_ok [okp]:
  "m \<le> Suc n \<Longrightarrow> (E \<Longrightarrow> (\<And>k. Pre k \<Longrightarrow> k = TkKw KwFor)) \<Longrightarrow> okP Pre m S E (parse_for_stmt_inner p pe par)"
  by (auto simp: parse_for_stmt_inner_def parser_simps intro!: okp)

lemma parse_sov_for_stmt_ok [okp]: "m \<le> Suc n \<Longrightarrow> okP Pre m S False (parse_sov_for_stmt p pe par)"
  by (auto simp: parse_sov_for_stmt_def parser_simps intro!: okp)

lemma parse_task_spawn_stmt_ok [okp]: "m \<le> Suc n \<Longrightarrow> okP Pre m S False (parse_task_spawn_stmt p)"
  by (auto simp: parse_task_spawn_stmt_def parser_simps intro!: okp)

lemma parse_task_join_stmt_ok [okp]: "okP Pre m S False parse_task_join_stmt"
  by (auto simp: parse_task_join_stmt_def intro!: okp)

lemma parse_assign_stmt_ok [okp]: "m \<le> Suc n \<Longrightarrow> okP Pre m S False (parse_assign_stmt pe)"
  by (auto simp: parse_assign_stmt_def intro!: okp)

lemma index_place_bind [okp]:
  "m \<le> Suc n \<Longrightarrow> (\<And>x. okP anyk (m - 1) never False (f x)) \<Longrightarrow> okP Pre m S False (bindP (index_place pe) f)"
  by (rule okP_bind_strict) (auto simp: index_place_def parser_simps intro!: okp)

lemma parse_index_assign_stmt_ok [okp]: "m \<le> Suc n \<Longrightarrow> okP Pre m S False (parse_index_assign_stmt pe)"
  by (auto simp: parse_index_assign_stmt_def intro!: okp)

lemma parse_index_then_field_assign_stmt_ok [okp]:
  "m \<le> Suc n \<Longrightarrow> okP Pre m S False (parse_index_then_field_assign_stmt pe)"
  by (auto simp: parse_index_then_field_assign_stmt_def parser_simps intro!: okp)

lemma parse_field_assign_stmt_ok [okp]: "m \<le> Suc n \<Longrightarrow> okP Pre m S False (parse_field_assign_stmt pe)"
  by (auto simp: parse_field_assign_stmt_def parser_simps intro!: okp)

lemma sov_print_items_bind [okp]:
  assumes "m \<le> Suc n" and "\<And>x. okP anyk (m - 1) never False (f x)"
  shows "okP Pre m S False (bindP (sov_print_items pe) f)"
  unfolding sov_print_items_def
  by (rule okP_bind_strict, rule okP_repeat_strict) (use assms in \<open>auto intro!: okp\<close>)

lemma parse_sov_verb_stmt_ok [okp]: "m \<le> Suc n \<Longrightarrow> okP Pre m S False (parse_sov_verb_stmt pe show verb)"
  by (auto simp: parse_sov_verb_stmt_def parser_simps intro!: okp)

lemma block_stmt_ok [okp]: "m \<le> Suc n \<Longrightarrow> okP Pre m S False (block_stmt p)"
  by (auto simp: block_stmt_def parser_simps intro!: okp)

lemma keyword_stmt_ok [okp]: "(\<And>k. Pre k \<Longrightarrow> k \<noteq> TkEof) \<Longrightarrow> okP Pre m S E (keyword_stmt mk)"
  by (auto simp: keyword_stmt_def intro!: okp)

text \<open>A statement that is an expression: what goes wrong after it is reported where it starts.\<close>

lemma rewind_moved:
  assumes "wfs s" and "wfs s'" and "adv s s'"
  shows "moved S False s (rewind (ps_pos s) s')"
proof -
  let ?s = "s'\<lparr>ps_pos := ps_pos s\<rparr>"
  have "wfs ?s" using assms adv_length[OF assms(3)] by (auto simp: wfs_def)
  moreover have "adv s ?s" using assms(3) by (auto simp: adv_def)
  moreover have "moved S False ?s (fail_here ''expected statement'' ?s)"
    using okPD[OF okP_fail_here[of anyk False], of ?s] \<open>wfs ?s\<close> by auto
  ultimately show ?thesis by (auto simp: rewind_def thenP_def bindP_def modifyP_def intro: moved_after)
qed

lemma expr_stmt_ok [okp]:
  assumes m: "m \<le> Suc n"
  shows "okP Pre m S False (expr_stmt pe)"
proof (rule okPI)
  fix s assume s: "wfs s" "remaining s \<le> m" "Pre (cur_kind s)"
  have "okP anyk m always False pe" using m by (rule pe_ok)
  from okPD[OF this s(1,2)] have "moved always False s (pe s)" by simp
  then show "moved S False s (expr_stmt pe s)"
  proof (cases rule: moved_cases)
    case (failed d s')
    then show ?thesis using rewind_moved[OF s(1) failed(2,3)]
      by (simp add: expr_stmt_def bindP_def getP_def current_eq s(1) handleP_def)
  next
    case (ok e s')
    let ?t = "ps_tokens s' ! ps_pos s'" let ?s = "s'\<lparr>ps_pos := ps_pos s' + 1\<rparr>"
    have e: "expr_stmt pe s = (if cur_kind s' = TkPunct PSemicolon
        then if is_call e then (Done (StLet ''_'' None e (span_merge (tk_span (ps_tokens s ! ps_pos s)) (tk_span ?t))), ?s)
          else rewind (ps_pos s) ?s
        else rewind (ps_pos s) s')"
      using ok(1,2) s(1)
      by (auto simp: expr_stmt_def bindP_def getP_def current_eq handleP_def match_token_def cur_kind_def ret_def bump_eq)
    show ?thesis
    proof (cases "cur_kind s' = TkPunct PSemicolon")
      case True
      then have "wfs ?s" by (intro bump_wfs[OF ok(2)]) simp
      moreover have "adv s ?s" using ok(3) by (auto simp: adv_def)
      ultimately show ?thesis using True ok(4) by (simp add: e rewind_moved[OF s(1)])
    next
      case False
      then show ?thesis using rewind_moved[OF s(1) ok(2,3)] by (simp add: e)
    qed
  qed
qed

lemma plain_stmt_ok [okp]: "m \<le> Suc n \<Longrightarrow> okP Pre m S False (plain_stmt p pe show)"
  by (auto simp: plain_stmt_def split: option.split intro!: okp)

lemma parse_stmt_ok: "m \<le> Suc n \<Longrightarrow> okP Pre m S False (parse_stmt p pe show)"
  by (auto simp: parse_stmt_def parser_simps intro!: okp)

lemma sov_not_start: "wfs s \<Longrightarrow> TkKw w = cur_kind s \<Longrightarrow> \<not> looks_like_sov_for s"
  by (auto simp: looks_like_sov_for_def is_ident_opt_def is_ident_def peek_kind_def cur_kind_def split: token_kind.splits)

lemma parse_stmt_start_ok: "m \<le> Suc n \<Longrightarrow> okP (\<lambda>k. k \<in> set stmt_starts) m S True (parse_stmt p pe show)"
  unfolding parse_stmt_def
  by (auto simp: parser_simps stmt_starts_def dest: sov_not_start intro!: okp)

end

text \<open>The recursive parsers keep these promises, whatever the fuel.\<close>

lemma okP_zero: "okP Pre 0 S E q"
  by (auto simp: okP_def dest: wfs_remaining)

lemma stmt_callsI: "calls p n \<Longrightarrow> stmt_calls p n (parse_expr dbg p)"
  by (simp add: stmt_calls_def stmt_calls_axioms_def calls.parse_expr_ok)

lemma parsers_at_calls: "calls (parsers_at D n) n"
proof (induction n)
  case 0
  show ?case by unfold_locales (rule okP_zero)+
next
  case (Suc n)
  let ?p = "parsers_at D n" let ?pe = "parse_expr (dbg_float D) ?p"
  have "stmt_calls ?p n ?pe" using Suc by (rule stmt_callsI)
  note at = calls.parse_type_ok[OF Suc] calls.parse_expr_ok[OF Suc] calls.parse_binary_expr_ok[OF Suc]
    calls.parse_unary_expr_ok[OF Suc] calls.parse_call_expr_ok[OF Suc] calls.parse_primary_expr_ok[OF Suc]
    stmt_calls.parse_stmt_ok[OF this] stmt_calls.parse_stmt_start_ok[OF this] stmt_calls.parse_let_stmt_ok[OF this]
    stmt_calls.parse_print_stmt_ok[OF this] stmt_calls.parse_if_stmt_ok[OF this]
  show ?case by unfold_locales (simp_all add: Let_def at)
qed

interpretation recursive: stmt_calls "parsers_at D n" n "parse_expr (dbg_float D) (parsers_at D n)" for D n
  by (rule stmt_callsI) (rule parsers_at_calls)

section \<open>Declarations\<close>

context stmt_calls
begin

lemma type_params_bind [okp]:
  "(\<And>x. okP anyk m S False (f x)) \<Longrightarrow> okP Pre m S False (bindP type_params f)"
  by (rule okP_bind) (auto simp: type_params_def parser_simps intro!: okp)

lemma scoped_ok [okp]: "okP anyk m never False q \<Longrightarrow> okP Pre m never False (scoped names q)"
  unfolding scoped_def thenP_def
  by (rule okP_get, rule okP_modify) (auto intro!: okP_bind[where q = q] okP_modify okp elim: okP_weaken)

lemma where_bound_ok [okp]: "okP Pre m S False where_bound"
  by (auto simp: where_bound_def parser_simps intro!: okp)

lemma where_clauses_bind [okp]:
  "(\<And>x. okP anyk m S False (f x)) \<Longrightarrow> okP Pre m S False (bindP where_clauses f)"
  by (rule okP_bind) (auto simp: where_clauses_def intro!: okp comma_list_ok)

lemma contracts_bind [okp]:
  "m \<le> Suc n \<Longrightarrow> (\<And>x. okP anyk m S False (f x)) \<Longrightarrow> okP Pre m S False (bindP (contracts pe) f)"
  by (rule okP_bind) (auto simp: contracts_def parser_simps intro!: okp)

lemma function_rest_ok [okp]: "m \<le> Suc n \<Longrightarrow> okP Pre m never False (function_rest p pe pure t name sp tps)"
  by (auto simp: function_rest_def parser_simps intro!: okp)

lemma parse_function_ok:
  assumes m: "m \<le> Suc n" and E: "E \<Longrightarrow> (\<And>k. Pre k \<Longrightarrow> k = TkKw KwPure \<or> k = TkKw KwFn)"
  shows "okP Pre m S E (parse_function p pe)"
  unfolding parse_function_def
proof (rule okP_match_token)
  show "okP (\<lambda>k. Pre k \<and> \<not> kw KwPure k) m S E (bindP (keyword_tok ''fn'' KwFn) (\<lambda>fn_token. bindP ident (\<lambda>(name, name_span).
      bindP type_params (\<lambda>tps. scoped tps (function_rest p pe (None \<noteq> None) fn_token name name_span tps)))))"
    using m E by (intro keyword_tok_bind) (auto intro!: okp)
qed (use m in \<open>auto intro!: okp\<close>)

lemmas parse_function_bind [okp] = okP_bind_strict[OF parse_function_ok[where E = False]]

lemma recursion_bound_bind [okp]:
  "(\<And>x. okP anyk m S False (f x)) \<Longrightarrow> okP Pre m S False (bindP (recursion_bound attr) f)"
  by (rule okP_bind) (auto simp: recursion_bound_def parser_simps split: token_kind.split intro!: okp)

lemma parse_attributed_fn_ok:
  "m \<le> Suc n \<Longrightarrow> (E \<Longrightarrow> (\<And>k. Pre k \<Longrightarrow> k = TkPunct PHash)) \<Longrightarrow> okP Pre m S E (parse_attributed_fn p pe)"
  by (auto simp: parse_attributed_fn_def parser_simps intro!: okp)

lemma extern_param_ok [okp]: "m \<le> Suc n \<Longrightarrow> okP Pre m S False (extern_param p)"
  by (auto simp: extern_param_def parser_simps intro!: okp)

lemma parse_extern_fn_ok:
  "m \<le> Suc n \<Longrightarrow> (E \<Longrightarrow> (\<And>k. Pre k \<Longrightarrow> k = TkKw KwExtern)) \<Longrightarrow> okP Pre m S E (parse_extern_fn p)"
  by (auto simp: parse_extern_fn_def parser_simps intro!: okp)

lemma fn_block_bind [okp]:
  "m \<le> Suc n \<Longrightarrow> (\<And>x. okP anyk (m - 1) never False (f x)) \<Longrightarrow> okP Pre m S False (bindP (fn_block p pe) f)"
  by (rule okP_bind_strict) (auto simp: fn_block_def parser_simps intro!: okp)

lemma parse_methods_block_ok:
  "m \<le> Suc n \<Longrightarrow> (E \<Longrightarrow> (\<And>k. Pre k \<Longrightarrow> k = TkKw KwMethods)) \<Longrightarrow> okP Pre m S E (parse_methods_block p pe)"
  by (auto simp: parse_methods_block_def parser_simps intro!: okp)

lemma parse_type_alias_ok:
  "m \<le> Suc n \<Longrightarrow> (E \<Longrightarrow> (\<And>k. Pre k \<Longrightarrow> k = TkKw KwType)) \<Longrightarrow> okP Pre m S E (parse_type_alias p)"
  by (auto simp: parse_type_alias_def parser_simps intro!: okp)

lemma parse_const_decl_ok:
  "m \<le> Suc n \<Longrightarrow> (E \<Longrightarrow> (\<And>k. Pre k \<Longrightarrow> k = TkKw KwConst)) \<Longrightarrow> okP Pre m S E (parse_const_decl p pe)"
  by (auto simp: parse_const_decl_def parser_simps split: option.split intro!: okp okP_modify)

lemma interface_method_bind [okp]:
  "m \<le> Suc n \<Longrightarrow> (\<And>x. okP anyk (m - 1) never False (f x)) \<Longrightarrow> okP Pre m S False (bindP (interface_method p) f)"
  by (rule okP_bind_strict) (auto simp: interface_method_def parser_simps intro!: okp)

lemma parse_interface_decl_ok:
  "m \<le> Suc n \<Longrightarrow> (E \<Longrightarrow> (\<And>k. Pre k \<Longrightarrow> k = TkKw KwInterface)) \<Longrightarrow> okP Pre m S E (parse_interface_decl p)"
  by (auto simp: parse_interface_decl_def parser_simps intro!: okp)

lemma parse_impl_decl_ok:
  "m \<le> Suc n \<Longrightarrow> (E \<Longrightarrow> (\<And>k. Pre k \<Longrightarrow> k = TkKw KwImplement)) \<Longrightarrow> okP Pre m S E (parse_impl_decl p pe)"
  by (auto simp: parse_impl_decl_def parser_simps intro!: okp)

lemma members_bind [okp]:
  assumes "\<And>Pre'. okP Pre' m always False q" and "\<And>x. okP anyk m S False (f x)"
  shows "okP Pre m S False (bindP (members what q) f)"
  unfolding members_def using assms by (auto intro!: okp okP_bind_strict[where q = q])

lemma enum_variant_ok [okp]: "m \<le> Suc n \<Longrightarrow> okP Pre m S False (enum_variant p)"
  by (auto simp: enum_variant_def parser_simps intro!: okp)

lemma parse_enum_decl_ok:
  "m \<le> Suc n \<Longrightarrow> (E \<Longrightarrow> (\<And>k. Pre k \<Longrightarrow> k = TkKw KwEnum)) \<Longrightarrow> okP Pre m S E (parse_enum_decl p)"
  by (auto simp: parse_enum_decl_def parser_simps intro!: okp)

lemma struct_field_ok [okp]: "m \<le> Suc n \<Longrightarrow> okP Pre m S False (struct_field p)"
  by (auto simp: struct_field_def parser_simps intro!: okp)

lemma parse_struct_decl_ok:
  "m \<le> Suc n \<Longrightarrow> (E \<Longrightarrow> (\<And>k. Pre k \<Longrightarrow> k = TkKw KwStruct)) \<Longrightarrow> okP Pre m S E (parse_struct_decl p)"
  by (auto simp: parse_struct_decl_def parser_simps intro!: okp)

end

section \<open>Modules\<close>

context stmt_calls
begin

lemma kosh_qualifier_bind [okp]:
  "(\<And>x. okP anyk m S False (f x)) \<Longrightarrow> okP Pre m S False (bindP (kosh_qualifier b) f)"
  by (rule okP_bind) (auto simp: kosh_qualifier_def parser_simps intro!: okp)

lemma use_alias_bind [okp]:
  "(\<And>x. okP anyk m S False (f x)) \<Longrightarrow> okP Pre m S False (bindP use_alias f)"
  by (rule okP_bind) (auto simp: use_alias_def parser_simps intro!: okp)

lemma use_module_bind [okp]:
  "(\<And>x. okP anyk m S False (f x)) \<Longrightarrow> okP Pre m S False (bindP (use_module a) f)"
  by (rule okP_bind) (auto simp: use_module_def parser_simps intro!: okp)

lemma use_item_bind [okp]:
  "(\<And>x. okP anyk (m - 1) never False (f x)) \<Longrightarrow> okP Pre m S False (bindP use_item f)"
  by (rule okP_bind_strict) (auto simp: use_item_def parser_simps intro!: okp)

lemma use_list_bind [okp]:
  "(\<And>x. okP anyk m S False (f x)) \<Longrightarrow> okP Pre m S False (bindP use_list f)"
  by (rule okP_bind) (auto simp: use_list_def parser_simps intro!: okp)

lemma use_multi_ok [okp]: "okP Pre m S False (use_multi b t x)"
  by (auto simp: use_multi_def parser_simps intro!: okp)

lemma use_path_decl_ok [okp]: "okP Pre m S False (use_path_decl b t)"
  by (auto simp: use_path_decl_def parser_simps intro!: okp)

lemma parse_use_ok: "(E \<Longrightarrow> (\<And>k. Pre k \<Longrightarrow> k = TkKw KwUse)) \<Longrightarrow> okP Pre m S E (parse_use b)"
  by (auto simp: parse_use_def parser_simps intro!: okp)

lemma parse_intent_ok: "(E \<Longrightarrow> (\<And>k. Pre k \<Longrightarrow> k = TkKw KwIntent)) \<Longrightarrow> okP Pre m S E parse_intent"
  by (auto simp: parse_intent_def parser_simps intro!: okp)

lemma reject_globs_bind [okp]: "okP Pre m S E (f ()) \<Longrightarrow> okP Pre m S E (bindP (reject_globs us) f)"
  by (induction us arbitrary: f) (auto simp: parser_simps intro!: okp)

text \<open>A declaration that moves on when it fails can be skipped.\<close>

lemma item_or_skip_ok: "okP Pre m always True q \<Longrightarrow> okP Pre m S False (item_or_skip q add b)"
  unfolding item_or_skip_def by (erule okP_handle[where E' = True]) (auto simp: parser_simps intro!: okp)

lemma top_or_skip_ok: "okP Pre m always E q \<Longrightarrow> (\<not> E \<Longrightarrow> S = never) \<Longrightarrow> okP Pre m S False (top_or_skip q add g)"
  unfolding top_or_skip_def by (erule okP_handle[where E' = E]) (auto simp: parser_simps intro!: okp)

lemma module_use_ok: "Pre = (=) (TkKw KwUse) \<or> S = never \<Longrightarrow> okP Pre m S False (module_use b body)"
  unfolding module_use_def
  by (rule okP_handle[where E' = "Pre = (=) (TkKw KwUse)"])
    (auto simp: parser_simps split: use_decl.split intro!: okp parse_use_ok)

end

locale module_calls = stmt_calls +
  fixes md :: "module_decl parser" and l :: nat
  assumes bound: "l \<le> n"
    and md_call: "okP anyk l always False md"
    and md_start_call: "okP (kw KwModule) l always True md"
begin

lemma module_item_ok:
  assumes m: "m \<le> l" and S: "\<And>k x. Pre k \<Longrightarrow> block_end k \<Longrightarrow> \<not> S x"
  shows "okP Pre m S False (module_item md p pe v b)"
proof -
  have md: "okP ((=) k) m always True md" if "kw KwModule k" for k
    by (rule okP_weaken[OF md_start_call m]) (use that in auto)
  from m bound have "m \<le> Suc n" by simp
  then show ?thesis using S md unfolding module_item_def
    by (auto simp: parser_simps block_end_def intro!: okp item_or_skip_ok parse_struct_decl_ok parse_enum_decl_ok
        parse_interface_decl_ok parse_impl_decl_ok parse_const_decl_ok parse_type_alias_ok parse_methods_block_ok
        parse_function_ok)
qed

lemma module_step_ok: "m \<le> l \<Longrightarrow> okP Pre m isl False (module_step md p pe b)"
  unfolding module_step_def
  by (auto simp: parser_simps intro!: okp module_use_ok module_item_ok)

lemma parse_module_decl_ok:
  "m \<le> Suc l \<Longrightarrow> (E \<Longrightarrow> (\<And>k. Pre k \<Longrightarrow> k = TkKw KwModule)) \<Longrightarrow> okP Pre m S E (parse_module_decl md p pe)"
  by (auto simp: parse_module_decl_def parser_simps intro!: okp module_step_ok)

lemma top_step_ok:
  assumes m: "m \<le> l"
  shows "okP Pre m isl False (top_step md p pe g)"
proof -
  have md: "okP ((=) k) m always True md" if "kw KwModule k" for k
    by (rule okP_weaken[OF md_start_call m]) (use that in auto)
  from m bound have "m \<le> Suc n" "m \<le> n" by simp_all
  then show ?thesis using md unfolding top_step_def
    by (auto simp: parser_simps intro!: okp top_or_skip_ok parse_intent_ok parse_use_ok parse_struct_decl_ok parse_enum_decl_ok
        parse_interface_decl_ok parse_impl_decl_ok parse_const_decl_ok parse_type_alias_ok parse_methods_block_ok
        parse_attributed_fn_ok parse_extern_fn_ok parse_function_ok)
qed

lemma parse_program_ok: "okP Pre l never False (parse_program md p pe)"
  unfolding parse_program_def by (rule okP_repeat) (rule top_step_ok, simp)

end

lemma module_callsI:
  assumes "stmt_calls p n pe" and "l \<le> n"
  shows "module_calls p n pe (module_at p pe l) l"
  using assms(2)
proof (induction l)
  case 0
  show ?case using assms(1)
    by (auto simp: module_calls_def module_calls_axioms_def intro: okP_zero)
next
  case (Suc l)
  then have "module_calls p n pe (module_at p pe l) l" by simp
  note module = module_calls.parse_module_decl_ok[OF this]
  show ?case using assms(1) Suc.prems
    by (auto simp: module_calls_def module_calls_axioms_def intro!: module)
qed

interpretation whole: module_calls "parsers_at D n" n "parse_expr (dbg_float D) (parsers_at D n)"
    "module_at (parsers_at D n) (parse_expr (dbg_float D) (parsers_at D n)) n" n for D n
  by (rule module_callsI) (rule recursive.stmt_calls_axioms, simp)

section \<open>The program\<close>

text \<open>At the top level every error is recorded: the parser of programs returns a program.\<close>

definition errorless :: "'a parser \<Rightarrow> bool" where
  "errorless q \<longleftrightarrow> (\<forall>s d. fst (q s) \<noteq> Failed d)"

lemma errorless_bind:
  assumes q: "errorless q" and f: "\<And>x. errorless (f x)"
  shows "errorless (bindP q f)"
proof (unfold errorless_def, intro allI)
  fix s d
  obtain r s' where r: "q s = (r, s')" by (cases "q s")
  then have "r \<noteq> Failed e" for e using q by (metis errorless_def fst_conv)
  then show "fst (bindP q f s) \<noteq> Failed d" using f r by (cases r) (auto simp: errorless_def bindP_def)
qed

lemma errorless_handle: "(\<And>x. errorless (f x)) \<Longrightarrow> (\<And>d. errorless (h d)) \<Longrightarrow> errorless (handleP q f h)"
  by (auto simp: errorless_def handleP_def split: prod.split outcome.split)

lemma errorless_basic: "errorless (ret x)" "errorless current" "errorless (getP g)" "errorless (modifyP g')"
  by (auto simp: errorless_def ret_def current_def getP_def modifyP_def)

lemma errorless_loop: "(\<And>a. errorless (body a)) \<Longrightarrow> errorless (loopP n body a)"
proof (induction n arbitrary: a)
  case 0
  then show ?case by (simp add: errorless_def no_fuel_def)
next
  case (Suc n)
  then show ?case by (auto intro!: errorless_bind errorless_basic split: sum.split)
qed

lemma errorless_repeat: "(\<And>a. errorless (body a)) \<Longrightarrow> errorless (repeatP body a)"
  using errorless_loop[of body] by (auto simp: errorless_def repeatP_def simp del: loopP.simps)

lemma errorless_sync: "errorless sync_to_top_level"
  unfolding sync_to_top_level_def skip_until_def check_def bump_def thenP_def
  by (intro errorless_repeat) (auto intro!: errorless_bind errorless_basic)

lemma errorless_top_step: "errorless (top_step md p pe g)"
  by (auto simp: top_step_def top_or_skip_def push_error_def bump_def thenP_def Let_def
      intro!: errorless_bind errorless_basic errorless_handle errorless_sync)

lemma errorless_parse_program: "errorless (parse_program md p pe)"
  unfolding parse_program_def by (intro errorless_repeat errorless_top_step)

text \<open>
  C14. Every list of tokens that ends with the end-of-file token is parsed: the parser neither
  panics (no index out of bounds, no \<open>unreachable!\<close>) nor fails to return, whatever the tokens before,
  and its result is a program, with the errors beside it. So the number of tokens is fuel enough.
\<close>

theorem parsing_is_total:
  assumes "ts \<noteq> []" and "tk_kind (last ts) = TkEof"
  shows "\<exists>g errors. parse D ts = (Done g, errors)"
proof -
  let ?p = "parsers_at D (length ts)" let ?pe = "parse_expr (dbg_float D) ?p"
  let ?r = "parse_program (module_at ?p ?pe (length ts)) ?p ?pe (parser_new ts)"
  have "wfs (parser_new ts)" using assms by (simp add: wfs_def parser_new_def)
  moreover have "remaining (parser_new ts) = length ts" by (simp add: remaining_def parser_new_def)
  moreover have "okP anyk (length ts) never False (parse_program (module_at ?p ?pe (length ts)) ?p ?pe)"
    by (rule whole.parse_program_ok)
  ultimately have "moved never False (parser_new ts) ?r" by (simp add: okPD)
  then show ?thesis
  proof (cases rule: moved_cases)
    case (ok g s')
    then show ?thesis by (simp add: parse_def Let_def)
  next
    case (failed d s')
    then show ?thesis using errorless_parse_program by (metis errorless_def fst_conv)
  qed
qed

theorem parsing_is_total_witness:
  "\<exists>g errors. parse \<lparr>dbg_float = (\<lambda>_. []), dbg_kind = (\<lambda>_. [])\<rparr>
     [tok (TkKw KwFn) 0 2, tok (TkPunct PGreaterGreater) 3 5, tok TkEof 5 5] = (Done g, errors)"
  by (rule parsing_is_total) simp_all

end
