(* ===== verification/ParserRun.thy ===== *)
theory ParserRun
  imports ParserTotal
begin

text \<open>
  Running the parser on a given list of tokens by simplification: the parsers' definitions as
  equations on states, so that only the parser that is run is unfolded.
\<close>

lemma parsers_at_run:
  "p_type (parsers_at D (Suc n)) = parse_type (parsers_at D n)"
  "p_expr (parsers_at D (Suc n)) = parse_expr (dbg_float D) (parsers_at D n)"
  "p_binary (parsers_at D (Suc n)) = parse_binary_expr (dbg_float D) (parsers_at D n)"
  "p_unary (parsers_at D (Suc n)) = parse_unary_expr (dbg_float D) (parsers_at D n)"
  "p_call (parsers_at D (Suc n)) = parse_call_expr (dbg_float D) (parsers_at D n)"
  "p_primary (parsers_at D (Suc n)) = parse_primary_expr (parsers_at D n)"
  "p_stmt (parsers_at D (Suc n)) = parse_stmt (parsers_at D n) (parse_expr (dbg_float D) (parsers_at D n)) (dbg_kind D)"
  "p_let (parsers_at D (Suc n)) = parse_let_stmt (parsers_at D n) (parse_expr (dbg_float D) (parsers_at D n))"
  "p_print (parsers_at D (Suc n)) = parse_print_stmt (parse_expr (dbg_float D) (parsers_at D n))"
  "p_if (parsers_at D (Suc n)) = parse_if_stmt (parsers_at D n) (parse_expr (dbg_float D) (parsers_at D n))"
  by (simp_all add: Let_def)

lemmas run_basic = ret_def failP_def panicP_def bindP_def handleP_def getP_def modifyP_def current_def repeatP_def
  loopP.simps(2)[THEN fun_cong] parsers_at_run parser_new_def peek_kind_def kinds_from_def remaining_def
  span_new_def span_merge_def diagnostic_new_def

lemmas run_core =
  thenP_def[THEN fun_cong] push_error_def[THEN fun_cong] check_def[THEN fun_cong] bump_def[THEN fun_cong]
  match_token_def[THEN fun_cong] error_here_def[THEN fun_cong] fail_here_def[THEN fun_cong]
  expect_keyword_def[THEN fun_cong] expect_ident_def[THEN fun_cong] expect_string_def[THEN fun_cong]
  ident_text_def[THEN fun_cong] string_text_def[THEN fun_cong] ident_def[THEN fun_cong] string_lit_def[THEN fun_cong]
  expect_close_angle_def[THEN fun_cong] comma_list_def[THEN fun_cong] opt_comma_list_def[THEN fun_cong]
  skip_until_def[THEN fun_cong] sync_to_top_level_def[THEN fun_cong] sync_to_stmt_def[THEN fun_cong]
  sync_past_brace_def[THEN fun_cong]

lemmas run_type =
  angle_arg_def[THEN fun_cong] angle_pair_def[THEN fun_cong] channel_capacity_def[THEN fun_cong]
  channel_type_def[THEN fun_cong] dyn_type_def[THEN fun_cong] path_type_def[THEN fun_cong]
  tuple_type_def[THEN fun_cong] fn_ptr_type_def[THEN fun_cong] array_length_def[THEN fun_cong]
  array_type_def[THEN fun_cong] apply_type_def[THEN fun_cong] scalar_or_error_def[THEN fun_cong]
  ident_type_def[THEN fun_cong] parse_type_def[THEN fun_cong]

lemmas run_expr =
  call_args_def[THEN fun_cong] bad_access_def[THEN fun_cong] member_access_def[THEN fun_cong]
  after_dot_def[THEN fun_cong] call_of_def[THEN fun_cong] index_of_def[THEN fun_cong] postfix_step_def[THEN fun_cong]
  stmts_until_brace_def[THEN fun_cong] parse_param_def[THEN fun_cong] return_type_def[THEN fun_cong]
  block_expr_def[THEN fun_cong] try_expr_def[THEN fun_cong] else_value_def[THEN fun_cong] if_expr_def[THEN fun_cong]
  closure_expr_def[THEN fun_cong] anon_fn_def[THEN fun_cong] literal_pattern_def[THEN fun_cong]
  variant_pattern_def[THEN fun_cong] match_pattern_def[THEN fun_cong] match_expr_def[THEN fun_cong]
  struct_lit_def[THEN fun_cong] ident_expr_def[THEN fun_cong] paren_expr_def[THEN fun_cong]
  array_lit_def[THEN fun_cong] len_expr_def[THEN fun_cong] primary_of_def[THEN fun_cong]
  parse_primary_expr_def[THEN fun_cong] parse_call_expr_def[THEN fun_cong] prefix_expr_def[THEN fun_cong]
  parse_unary_expr_def[THEN fun_cong] binary_step_def[THEN fun_cong] parse_binary_expr_def[THEN fun_cong]
  parse_expr_def[THEN fun_cong]

lemmas run_stmt =
  semicolon_def[THEN fun_cong] keyword_tok_def[THEN fun_cong] parse_block_def[THEN fun_cong]
  annotation_def[THEN fun_cong] init_value_def[THEN fun_cong] parse_let_stmt_def[THEN fun_cong]
  parse_return_stmt_def[THEN fun_cong] assert_message_def[THEN fun_cong] parse_assert_stmt_def[THEN fun_cong]
  parse_prove_stmt_def[THEN fun_cong] parse_print_item_def[THEN fun_cong] parse_print_stmt_def[THEN fun_cong]
  parse_if_stmt_def[THEN fun_cong] parse_invariants_def[THEN fun_cong] parse_reductions_def[THEN fun_cong]
  parse_while_stmt_def[THEN fun_cong] range_for_rest_def[THEN fun_cong] collection_for_def[THEN fun_cong]
  parse_for_stmt_inner_def[THEN fun_cong] parse_sov_for_stmt_def[THEN fun_cong]
  parse_task_spawn_stmt_def[THEN fun_cong] parse_task_join_stmt_def[THEN fun_cong]
  parse_assign_stmt_def[THEN fun_cong] index_place_def[THEN fun_cong] parse_index_assign_stmt_def[THEN fun_cong]
  parse_index_then_field_assign_stmt_def[THEN fun_cong] parse_field_assign_stmt_def[THEN fun_cong]
  sov_print_items_def[THEN fun_cong] parse_sov_verb_stmt_def[THEN fun_cong] block_stmt_def[THEN fun_cong]
  rewind_def[THEN fun_cong] expr_stmt_def[THEN fun_cong] keyword_stmt_def[THEN fun_cong] plain_stmt_def[THEN fun_cong]
  parse_stmt_def[THEN fun_cong]

lemmas run_item =
  type_params_def[THEN fun_cong] scoped_def[THEN fun_cong] where_bound_def[THEN fun_cong]
  where_clauses_def[THEN fun_cong] contracts_def[THEN fun_cong] function_rest_def[THEN fun_cong]
  parse_function_def[THEN fun_cong] recursion_bound_def[THEN fun_cong] parse_attributed_fn_def[THEN fun_cong]
  extern_param_def[THEN fun_cong] parse_extern_fn_def[THEN fun_cong] fn_block_def[THEN fun_cong]
  parse_methods_block_def[THEN fun_cong] parse_type_alias_def[THEN fun_cong] parse_const_decl_def[THEN fun_cong]
  interface_method_def[THEN fun_cong] parse_interface_decl_def[THEN fun_cong] parse_impl_decl_def[THEN fun_cong]
  members_def[THEN fun_cong] enum_variant_def[THEN fun_cong] parse_enum_decl_def[THEN fun_cong]
  struct_field_def[THEN fun_cong] parse_struct_decl_def[THEN fun_cong] use_alias_def[THEN fun_cong]
  use_module_def[THEN fun_cong] use_item_def[THEN fun_cong] use_list_def[THEN fun_cong] use_multi_def[THEN fun_cong]
  use_path_decl_def[THEN fun_cong] parse_use_def[THEN fun_cong] parse_intent_def[THEN fun_cong]
  item_or_skip_def[THEN fun_cong] kosh_qualifier_def[THEN fun_cong] module_use_def[THEN fun_cong]
  module_item_def[THEN fun_cong] module_step_def[THEN fun_cong] parse_module_decl_def[THEN fun_cong]
  top_or_skip_def[THEN fun_cong] top_step_def[THEN fun_cong] parse_program_def[THEN fun_cong]

lemmas run_data = block_end_def is_ident_def is_str_def is_ident_opt_def scalar_type_def named_type_def
  starts_uppercase_def last_segment_def current_binary_op_def binary_operators_def reduction_op_of_def stmt_starts_def verbs_def looks_like_assignment_def
  looks_like_sov_for_def looks_like_sov_parallel_for_def looks_like_sov_verb_at_end_def after_index_def
  looks_like_index_assign_def looks_like_index_then_field_assign_def looks_like_field_assign_def struct_follows_def
  no_items_def no_visibility_def on_items_def add_function_def add_use_def add_const_def

lemmas run = run_basic run_core run_type run_expr run_stmt run_item run_data

declare parsers_at.simps [simp del] loopP.simps(2) [simp del]

end
