(* ===== verification/ParserPrec.thy ===== *)
theory ParserPrec
  imports ParserRun
begin

text \<open>
  Operator precedence: what the binary-expression parser reads is a sequence of operands and
  operators, and the tree it builds is the one the table of precedences and left
  associativity give that sequence.
\<close>

section \<open>The grammar\<close>

definition binary :: "binary_op \<Rightarrow> expr \<Rightarrow> expr \<Rightarrow> expr" where
  "binary op l r = Expr (KBinary op l r) (span_merge (e_span l) (e_span r))"

text \<open>The precedence of an operator, from the parser's table.\<close>

definition prec :: "binary_op \<Rightarrow> nat" where
  "prec op = the (map_of (map snd binary_operators) op)"

text \<open>What a binary expression is read as: operands with operators between them.\<close>

type_synonym reading = "(expr + binary_op) list"

text \<open>
  \<open>tree k fs e\<close>: \<open>e\<close> is a tree over \<open>fs\<close> with operators of precedence at least \<open>k\<close> outside its
  operands; the operators of a left operand bind at least as tightly as the operator above, those
  of a right operand more tightly.
\<close>

inductive tree :: "nat \<Rightarrow> reading \<Rightarrow> expr \<Rightarrow> bool" where
  operand: "tree k [Inl e] e"
| node: "k \<le> prec op \<Longrightarrow> tree (prec op) fs l \<Longrightarrow> tree (prec op + 1) gs r \<Longrightarrow> tree k (fs @ Inr op # gs) (binary op l r)"

text \<open>
  \<open>reads D s fs s'\<close>: between the two states stand the tokens of \<open>fs\<close>: operands, each as the parser of
  unary expressions reads it, and operator tokens.
\<close>

inductive reads :: "debug_fmt \<Rightarrow> pstate \<Rightarrow> reading \<Rightarrow> pstate \<Rightarrow> bool" for D where
  operand: "parse_unary_expr (dbg_float D) (parsers_at D n) s = (Done e, s') \<Longrightarrow> reads D s [Inl e] s'"
| operator: "reads D s fs s1 \<Longrightarrow> current s1 = (Done t, s1) \<Longrightarrow> current_binary_op (tk_kind t) = Some (op, q) \<Longrightarrow>
    bump s1 = (Done t, s2) \<Longrightarrow> reads D s2 gs s3 \<Longrightarrow> reads D s (fs @ Inr op # gs) s3"

text \<open>The operator the parser stands at, when it has at least the precedence.\<close>

definition stops_below :: "nat \<Rightarrow> pstate \<Rightarrow> bool" where
  "stops_below k s \<longleftrightarrow> (case current s of
     (Done t, _) \<Rightarrow> (case current_binary_op (tk_kind t) of Some (_, q) \<Rightarrow> q < k | None \<Rightarrow> True)
   | _ \<Rightarrow> False)"

section \<open>The parser builds these trees\<close>

lemma tree_mono: "tree k fs e \<Longrightarrow> j \<le> k \<Longrightarrow> tree j fs e"
  by (induction rule: tree.induct) (auto intro: tree.intros)

lemma stops_below_mono: "stops_below k s \<Longrightarrow> k \<le> j \<Longrightarrow> stops_below j s"
  by (auto simp: stops_below_def split: prod.splits outcome.splits option.splits)

lemma current_binary_op_prec: "current_binary_op k = Some (op, q) \<Longrightarrow> prec op = q"
  by (auto simp: current_binary_op_def binary_operators_def prec_def split: if_splits)

lemma prec_bound: "current_binary_op k = Some (op, q) \<Longrightarrow> q \<le> 10"
  by (auto simp: current_binary_op_def binary_operators_def split: if_splits)

lemma bindP_Done: "bindP q f s = (Done y, s') \<longleftrightarrow> (\<exists>x s1. q s = (Done x, s1) \<and> f x s1 = (Done y, s'))"
  by (auto simp: bindP_def split: prod.splits outcome.splits)

lemma current_Done: "current s = (Done t, s') \<longleftrightarrow> s' = s \<and> ps_pos s < length (ps_tokens s) \<and> t = ps_tokens s ! ps_pos s"
  by (auto simp: current_def)

text \<open>What a parser of binary expressions must give.\<close>

definition builds :: "debug_fmt \<Rightarrow> nat \<Rightarrow> expr parser \<Rightarrow> bool" where
  "builds D k q \<longleftrightarrow> (\<forall>s e s'. q s = (Done e, s') \<longrightarrow> (\<exists>fs. reads D s fs s' \<and> tree k fs e) \<and> stops_below k s')"

lemma bump_Done: "bump s = (Done t, s') \<Longrightarrow> current s = (Done t, s)"
  by (auto simp: bump_def bindP_Done current_Done ret_def split: if_splits)

lemma loop_builds:
  assumes p: "\<And>k. builds D k (p_binary p k)"
  shows "loopP m (binary_step p k) l s = (Done e, s') \<Longrightarrow> reads D s0 fs s \<Longrightarrow> tree r fs l \<Longrightarrow> k \<le> r \<Longrightarrow> stops_below (r + 1) s \<Longrightarrow>
    (\<exists>fs. reads D s0 fs s' \<and> tree k fs e) \<and> stops_below k s'"
proof (induction m arbitrary: l s fs r)
  case 0
  then show ?case by (simp add: no_fuel_def)
next
  case (Suc m)
  from Suc.prems(1) obtain x s1 where step: "binary_step p k l s = (Done x, s1)"
    and rest: "(case x of Inl a \<Rightarrow> loopP m (binary_step p k) a | Inr b \<Rightarrow> ret b) s1 = (Done e, s')"
    by (auto simp: bindP_Done loopP.simps(2))
  let ?t = "ps_tokens s ! ps_pos s"
  have cur: "current s = (Done ?t, s)"
    using step by (auto simp: binary_step_def bindP_Done current_Done)
  show ?case
  proof (cases "stops_below k s")
    case True
    then have "x = Inr l \<and> s1 = s"
      using step cur by (auto simp: binary_step_def bindP_def stops_below_def ret_def split: option.splits)
    then show ?thesis using rest True Suc.prems(2-4) tree_mono by (auto simp: ret_def)
  next
    case False
    then obtain op q where op: "current_binary_op (tk_kind ?t) = Some (op, q)" "k \<le> q"
      using cur by (auto simp: stops_below_def split: option.splits)
    obtain s2 right where b: "bump s = (Done ?t, s2)" and right: "p_binary p (q + 1) s2 = (Done right, s1)"
      and x: "x = Inl (binary op l right)"
      using step cur op bump_Done[of s]
      by (fastforce simp: binary_step_def bindP_Done current_Done thenP_def ret_def binary_def)
    obtain gs where gs: "reads D s2 gs s1" "tree (q + 1) gs right" and stop: "stops_below (q + 1) s1"
      using p right unfolding builds_def by blast
    have "q \<le> r" using Suc.prems(5) cur op by (simp add: stops_below_def)
    then have "tree q (fs @ Inr op # gs) (binary op l right)"
      using Suc.prems(3) gs(2) current_binary_op_prec[OF op(1)] tree_mono by (auto intro!: tree.node)
    moreover have "reads D s0 (fs @ Inr op # gs) s1" by (rule reads.operator[OF Suc.prems(2) cur op(1) b gs(1)])
    moreover have "loopP m (binary_step p k) (binary op l right) s1 = (Done e, s')" using rest x by simp
    ultimately show ?thesis using Suc.IH[OF _ _ _ op(2) stop] by blast
  qed
qed

lemma parse_binary_expr_builds:
  assumes p: "\<And>k. builds D k (p_binary (parsers_at D n) k)"
  shows "builds D k (parse_binary_expr (dbg_float D) (parsers_at D n) k)"
  unfolding builds_def
proof (intro allI impI)
  fix s e s' assume "parse_binary_expr (dbg_float D) (parsers_at D n) k s = (Done e, s')"
  then obtain l s1 where l: "parse_unary_expr (dbg_float D) (parsers_at D n) s = (Done l, s1)"
    and loop: "loopP (Suc (remaining s1)) (binary_step (parsers_at D n) k) l s1 = (Done e, s')"
    by (auto simp: parse_binary_expr_def bindP_Done repeatP_def simp del: loopP.simps)
  have r: "reads D s [Inl l] s1" by (rule reads.operand[OF l])
  have "ps_pos s1 < length (ps_tokens s1)"
    using loop by (auto simp: loopP.simps(2) binary_step_def bindP_Done current_Done)
  then have "stops_below (max k 10 + 1) s1"
    using prec_bound by (fastforce simp: stops_below_def current_def split: option.split)
  then show "(\<exists>fs. reads D s fs s' \<and> tree k fs e) \<and> stops_below k s'"
    by (intro loop_builds[OF p loop r tree.operand]) simp_all
qed

lemma p_binary_builds: "builds D k (p_binary (parsers_at D n) k)"
proof (induction n arbitrary: k)
  case 0
  then show ?case by (simp add: builds_def no_fuel_def parsers_at.simps)
next
  case (Suc n)
  then show ?case by (simp add: parsers_at_run parse_binary_expr_builds)
qed

section \<open>There is one tree for a sequence\<close>

lemma tree_prec: "tree k fs e \<Longrightarrow> Inr op \<in> set fs \<Longrightarrow> k \<le> prec op"
  by (induction rule: tree.induct) force+

text \<open>The root is the last of the operators that bind least.\<close>

lemma root_unique:
  assumes "fs @ Inr op # gs = fs' @ Inr op' # gs'"
    and "\<And>x. Inr x \<in> set fs \<Longrightarrow> prec op \<le> prec x" and "\<And>x. Inr x \<in> set gs \<Longrightarrow> prec op < prec x"
    and "\<And>x. Inr x \<in> set fs' \<Longrightarrow> prec op' \<le> prec x" and "\<And>x. Inr x \<in> set gs' \<Longrightarrow> prec op' < prec x"
  shows "fs = fs' \<and> op = op' \<and> gs = gs'"
proof -
  consider us where "fs = fs' @ us" "us @ Inr op # gs = Inr op' # gs'"
    | us where "fs' = fs @ us" "Inr op # gs = us @ Inr op' # gs'"
    using assms(1) by (auto simp: append_eq_append_conv2)
  then show ?thesis
  proof cases
    case (1 us)
    then show ?thesis using assms(2)[of op'] assms(5)[of op] by (cases us) auto
  next
    case (2 us)
    then show ?thesis using assms(4)[of op] assms(3)[of op'] by (cases us) auto
  qed
qed

lemma tree_unique: "tree k fs e \<Longrightarrow> tree j fs e' \<Longrightarrow> e = e'"
proof (induction arbitrary: j e' rule: tree.induct)
  case (operand k e)
  then show ?case by (cases rule: tree.cases) (auto simp: Cons_eq_append_conv)
next
  case (node k op fs l gs r)
  from node.prems obtain op' fs' l' gs' r' where e': "fs @ Inr op # gs = fs' @ Inr op' # gs'" "e' = binary op' l' r'"
    "tree (prec op') fs' l'" "tree (prec op' + 1) gs' r'"
    by (cases rule: tree.cases) (auto simp: append_eq_Cons_conv)
  have "fs = fs' \<and> op = op' \<and> gs = gs'"
    by (rule root_unique[OF e'(1)])
      (use tree_prec[OF node.hyps(2)] tree_prec[OF node.hyps(3)] tree_prec[OF e'(3)] tree_prec[OF e'(4)]
         in \<open>auto simp: Suc_le_eq\<close>)
  then show ?case using e' node.IH by auto
qed

text \<open>
  C15. A binary expression parsed at precedence \<open>k\<close> is the tree that the precedences of the operators
  and associativity to the left give the operands and operators read, and the only one: what the
  parser read stands between its first and its last state, and it stops before the first
  operator that binds less than \<open>k\<close>.
\<close>

theorem binary_expressions_follow_precedence:
  assumes "parse_binary_expr (dbg_float D) (parsers_at D n) k s = (Done e, s')"
  shows "(\<exists>fs. reads D s fs s' \<and> tree k fs e \<and> (\<forall>e'. tree k fs e' \<longrightarrow> e' = e)) \<and> stops_below k s'"
proof -
  have "builds D k (parse_binary_expr (dbg_float D) (parsers_at D n) k)"
    by (rule parse_binary_expr_builds) (rule p_binary_builds)
  then show ?thesis using assms tree_unique unfolding builds_def by metis
qed

theorem binary_expressions_follow_precedence_witness:
  "\<exists>D s e s' fs. reads D s fs s' \<and> tree 1 fs e \<and> e_kind e = KBinary Add (Expr (KInt 1) (span_new 0 0))
     (Expr (KInt 2) (span_new 0 0)) \<and> stops_below 1 s'"
proof -
  let ?D = "\<lparr>dbg_float = (\<lambda>_. []), dbg_kind = (\<lambda>_. [])\<rparr>"
  let ?s = "parser_new [tok (TkInt 1) 0 0, tok (TkPunct PPlus) 0 0, tok (TkInt 2) 0 0, tok TkEof 0 0]"
  let ?e = "Expr (KBinary Add (Expr (KInt 1) (span_new 0 0)) (Expr (KInt 2) (span_new 0 0))) (span_new 0 0)"
  have "parse_binary_expr (dbg_float ?D) (parsers_at ?D (Suc 0)) 1 ?s = (Done ?e, ?s\<lparr>ps_pos := 3\<rparr>)"
    by (simp add: run primary_of_def current_binary_op_def binary_operators_def eval_nat_numeral)
  from binary_expressions_follow_precedence[OF this] show ?thesis by fastforce
qed

end
