(* ===== verification/ParserProps.thy ===== *)
theory ParserProps
  imports ParserRun
begin

text \<open>
  What particular parsers give: integers that are stored in 64 bits, the two closing angles the
  lexer joins, and constants that are looked up outside the module that declares them.
\<close>

section \<open>Integers\<close>

definition tokens_of :: "token_kind list \<Rightarrow> token list" where
  "tokens_of ks = map (\<lambda>k. tok k 0 0) (ks @ [TkEof])"

text \<open>
  C22. The bound in \<open>#[bounded(N)]\<close> is the integer modulo \<open>2 ^ 64\<close>: one beyond 64 bits is taken
  without an error and stands for another.
\<close>

theorem recursion_bound_wraps:
  assumes "0 \<le> v"
  shows "fst (recursion_bound ''bounded'' (parser_new (tokens_of [TkPunct PLParen, TkInt v, TkPunct PRParen]))) =
    Done (nat (v mod 2 ^ 64))"
  using assms by (simp add: run tokens_of_def as_u64_def eval_nat_numeral)

theorem recursion_bound_wraps_witness:
  "fst (recursion_bound ''bounded'' (parser_new (tokens_of [TkPunct PLParen, TkInt 18446744073709551617, TkPunct PRParen]))) =
    Done 1"
  using recursion_bound_wraps[of 18446744073709551617] by simp

text \<open>The length of an array type, by contrast, is checked.\<close>

lemma array_length_checked:
  "fst (array_length (parser_new (tokens_of [TkInt v]))) =
     (if 0 \<le> v \<and> v < 2 ^ 64 then Done (nat v)
      else if v < 0 then Failed (diagnostic_new (span_new 0 0) ''array length must be non-negative'')
      else Failed (diagnostic_new (span_new 0 0) ''array length does not fit in u64''))"
  by (auto simp: run tokens_of_def)

text \<open>Tokens at any places in a source.\<close>

fun placed :: "(nat \<Rightarrow> span) \<Rightarrow> token_kind list \<Rightarrow> token list" where
  "placed at [] = []"
| "placed at (k # ks) = \<lparr>tk_kind = k, tk_span = at 0\<rparr> # placed (\<lambda>i. at (Suc i)) ks"

text \<open>
  C23. A constant declared in a module, private as it is, is an array length outside it, for every name of
  the module and the constant and every value of 64 bits: the table of constants is not unwound
  at the end of a module, and \<open>module m { const N: i64 = 3; } type T = [i64; N];\<close> is parsed, without an error, with an array
  of three elements.
\<close>

theorem const_leaves_module:
  assumes "0 \<le> v" "v < 2 ^ 64"
  shows "\<exists>g. parse D (placed at [TkKw KwModule, TkIdent m, TkPunct PLBrace, TkKw KwConst, TkIdent n, TkPunct PColon,
      TkWord WI64, TkPunct PEqual, TkInt v, TkPunct PSemicolon, TkPunct PRBrace,
      TkKw KwType, TkIdent t, TkPunct PEqual, TkPunct PLBracket, TkWord WI64, TkPunct PSemicolon, TkIdent n,
      TkPunct PRBracket, TkPunct PSemicolon, TkEof]) = (Done g, []) \<and>
    map ta_target (it_type_aliases (pg_items g)) = [TArray TI64 (nat v)]"
  using assms by (simp add: parse_def run eval_nat_numeral)

theorem const_leaves_module_witness:
  "\<forall>D at. \<exists>g. parse D (placed at [TkKw KwModule, TkIdent ''m'', TkPunct PLBrace, TkKw KwConst, TkIdent ''N'', TkPunct PColon,
      TkWord WI64, TkPunct PEqual, TkInt 3, TkPunct PSemicolon, TkPunct PRBrace,
      TkKw KwType, TkIdent ''T'', TkPunct PEqual, TkPunct PLBracket, TkWord WI64, TkPunct PSemicolon, TkIdent ''N'',
      TkPunct PRBracket, TkPunct PSemicolon, TkEof]) = (Done g, []) \<and>
    map ta_target (it_type_aliases (pg_items g)) = [TArray TI64 3]"
  using const_leaves_module[of 3 _ _ "''m''" "''N''" "''T''"] by (simp del: placed.simps)

end
