(* ===== verification/Format.thy ===== *)
theory Format
  imports SourceAst Lexer
begin

text \<open>
  The formatter (\<open>src/format.rs\<close>): a program back to source text, with the comments the lexer's
  separate scan found put back where they were. The state of a run is the cursor into the
  comments and the text written so far. The two printed forms of a float, \<open>{:?}\<close> and \<open>{}\<close>, are
  arguments.
\<close>

section \<open>Text\<close>

record float_text =
  ft_debug :: "f64 \<Rightarrow> string"
  ft_display :: "f64 \<Rightarrow> string"

definition pad :: "nat \<Rightarrow> string" where
  "pad n = concat (replicate n ''  '')"

text \<open>The characters \<open>char::is_whitespace\<close> knows, in UTF-8.\<close>

definition white_space :: "string list" where
  "white_space = [[CHR 0x09], [CHR 0x0A], [CHR 0x0B], [CHR 0x0C], [CHR 0x0D], [CHR 0x20],
     [CHR 0xC2, CHR 0x85], [CHR 0xC2, CHR 0xA0], [CHR 0xE1, CHR 0x9A, CHR 0x80]] @
     map (\<lambda>b. [CHR 0xE2, CHR 0x80, b]) [CHR 0x80, CHR 0x81, CHR 0x82, CHR 0x83, CHR 0x84, CHR 0x85, CHR 0x86,
       CHR 0x87, CHR 0x88, CHR 0x89, CHR 0x8A, CHR 0xA8, CHR 0xA9, CHR 0xAF] @
     [[CHR 0xE2, CHR 0x81, CHR 0x9F], [CHR 0xE3, CHR 0x80, CHR 0x80]]"

text \<open>Dropping from the front what is one of \<open>ws\<close>, as long as there is one.\<close>

function drop_white :: "string list \<Rightarrow> string \<Rightarrow> string" where
  "drop_white ws s = (case find (\<lambda>w. w \<noteq> [] \<and> take (length w) s = w) ws of
     Some w \<Rightarrow> drop_white ws (drop (length w) s)
   | None \<Rightarrow> s)"
  by auto

termination
proof (relation "measure (length \<circ> snd)")
  fix ws s w assume "find (\<lambda>w. w \<noteq> [] \<and> take (length w) s = w) ws = Some w"
  then have "w \<noteq> [] \<and> take (length w) s = w" by (auto simp: find_Some_iff)
  then show "((ws, drop (length w) s), ws, s) \<in> measure (length \<circ> snd)" by (cases s) (auto intro: diff_less)
qed simp

declare drop_white.simps [simp del]

definition trim_start :: "string \<Rightarrow> string" where
  "trim_start s = drop_white white_space s"

definition trim_end :: "string \<Rightarrow> string" where
  "trim_end s = rev (drop_white (map rev white_space) (rev s))"

definition trim :: "string \<Rightarrow> string" where
  "trim s = trim_start (trim_end s)"

text \<open>\<open>str::lines\<close>: every line ends at a newline, with the carriage return before it.\<close>

definition chop_cr :: "string \<Rightarrow> string" where
  "chop_cr l = (if l \<noteq> [] \<and> last l = CHR 0x0D then butlast l else l)"

fun lines_from :: "string \<Rightarrow> string \<Rightarrow> string list" where
  "lines_from line [] = (if line = [] then [] else [line])"
| "lines_from line (c # cs) = (if c = newline_char then chop_cr line # lines_from [] cs else lines_from (line @ [c]) cs)"

definition lines :: "string \<Rightarrow> string list" where
  "lines s = lines_from [] s"

text \<open>A sub-buffer appended line by line, indented by one level.\<close>

definition reindent :: "string \<Rightarrow> string" where
  "reindent sub = concat (map (\<lambda>l. if l = [] then [newline_char] else ''  '' @ l @ [newline_char]) (lines sub))"

text \<open>\<open>escape_string\<close>.\<close>

definition escape_byte :: "char \<Rightarrow> string" where
  "escape_byte c =
     (if c = CHR 0x5C then [CHR 0x5C, CHR 0x5C]
      else if c = CHR 0x22 then [CHR 0x5C, CHR 0x22]
      else if c = newline_char then [CHR 0x5C, CHR ''n'']
      else if c = CHR 0x09 then [CHR 0x5C, CHR ''t'']
      else if c = CHR 0x0D then [CHR 0x5C, CHR ''r'']
      else if c = CHR 0x00 then [CHR 0x5C, CHR ''0'']
      else [c])"

definition escape_string :: "string \<Rightarrow> string" where
  "escape_string s = concat (map escape_byte s)"

definition in_quotes :: "string \<Rightarrow> string" where
  "in_quotes s = [CHR 0x22] @ s @ [CHR 0x22]"

text \<open>\<open>name.replace("__", "::")\<close>.\<close>

fun source_path :: "string \<Rightarrow> string" where
  "source_path (a # b # cs) =
     (if a = CHR ''_'' \<and> b = CHR ''_'' then ''::'' @ source_path cs else a # source_path (b # cs))"
| "source_path s = s"

section \<open>Comments\<close>

record fmt_ctx =
  fx_source :: string
  fx_comments :: "comment list"

text \<open>The cursor and the text so far.\<close>

type_synonym fmt_state = "nat \<times> string"

definition emit :: "string \<Rightarrow> fmt_state \<Rightarrow> fmt_state" where
  "emit t = (\<lambda>(cur, out). (cur, out @ t))"

text \<open>The scan backwards for two newlines with nothing but blanks around them.\<close>

fun blank_scan :: "nat \<Rightarrow> string \<Rightarrow> bool" where
  "blank_scan newlines [] = False"
| "blank_scan newlines (c # cs) =
     (if c = newline_char then newlines + 1 \<ge> 2 \<or> blank_scan (newlines + 1) cs
      else if c \<in> {CHR 0x20, CHR 0x09, CHR 0x0D} then blank_scan newlines cs
      else False)"

definition has_blank_line_before :: "fmt_ctx \<Rightarrow> nat \<Rightarrow> bool" where
  "has_blank_line_before C pos \<longleftrightarrow>
     pos \<le> length (fx_source C) \<and> blank_scan 0 (rev (take pos (fx_source C)))"

definition next_comment_same_line_as :: "fmt_ctx \<Rightarrow> nat \<Rightarrow> nat \<Rightarrow> bool" where
  "next_comment_same_line_as C cur pos \<longleftrightarrow>
     cur < length (fx_comments C) \<and>
     (let start = s_start (cm_span (fx_comments C ! cur)) in
      pos \<le> start \<and> start \<le> length (fx_source C) \<and>
      newline_char \<notin> set (take (start - pos) (drop pos (fx_source C))))"

definition ends_with :: "string \<Rightarrow> string \<Rightarrow> bool" where
  "ends_with s t \<longleftrightarrow> length t \<le> length s \<and> drop (length s - length t) s = t"

definition trim_newlines :: "string \<Rightarrow> string" where
  "trim_newlines s = rev (dropWhile (\<lambda>c. c = newline_char) (rev s))"

text \<open>May a blank line be put here? \<open>after_brace\<close> says that one right after an opening brace may not.\<close>

definition blank_allowed :: "bool \<Rightarrow> string \<Rightarrow> bool" where
  "blank_allowed after_brace out \<longleftrightarrow>
     out \<noteq> [] \<and> ends_with out [newline_char] \<and> \<not> ends_with out [newline_char, newline_char] \<and>
     \<not> (after_brace \<and> ends_with (trim_newlines out) ''{'')"

definition comment_line :: "fmt_ctx \<Rightarrow> bool \<Rightarrow> nat \<Rightarrow> comment \<Rightarrow> fmt_state \<Rightarrow> fmt_state" where
  "comment_line C after_brace depth c = (\<lambda>(cur, out).
     (cur + 1,
      out @ (if has_blank_line_before C (s_start (cm_span c)) \<and> blank_allowed after_brace out then [newline_char] else []) @
      pad depth @ trim_end (cm_text c) @ [newline_char]))"

fun drain_from :: "fmt_ctx \<Rightarrow> nat \<Rightarrow> nat \<Rightarrow> comment list \<Rightarrow> fmt_state \<Rightarrow> fmt_state" where
  "drain_from C pos depth [] st = st"
| "drain_from C pos depth (c # cs) st =
     (if s_start (cm_span c) < pos then drain_from C pos depth cs (comment_line C True depth c st) else st)"

definition drain_to :: "fmt_ctx \<Rightarrow> nat \<Rightarrow> nat \<Rightarrow> fmt_state \<Rightarrow> fmt_state" where
  "drain_to C pos depth st = drain_from C pos depth (drop (fst st) (fx_comments C)) st"

definition try_attach_trailing :: "fmt_ctx \<Rightarrow> nat \<Rightarrow> fmt_state \<Rightarrow> fmt_state" where
  "try_attach_trailing C pos = (\<lambda>(cur, out).
     if next_comment_same_line_as C cur pos
     then (cur + 1, (if ends_with out [newline_char] then butlast out else out) @ ''  '' @
             trim_end (cm_text (fx_comments C ! cur)) @ [newline_char])
     else (cur, out))"

definition maybe_preserve_blank :: "fmt_ctx \<Rightarrow> nat \<Rightarrow> fmt_state \<Rightarrow> fmt_state" where
  "maybe_preserve_blank C pos = (\<lambda>(cur, out).
     (cur, out @ (if has_blank_line_before C pos \<and> blank_allowed True out then [newline_char] else [])))"

definition drain_remaining :: "fmt_ctx \<Rightarrow> fmt_state \<Rightarrow> fmt_state" where
  "drain_remaining C st = fold (comment_line C False 0) (drop (fst st) (fx_comments C)) st"

section \<open>Types\<close>

fun type_to_source :: "ty \<Rightarrow> string" where
  "type_to_source (TStruct n) = source_path n"
| "type_to_source (TEnum n) = source_path n"
| "type_to_source (TArray e n) = ''['' @ type_to_source e @ ''; '' @ show_nat n @ '']''"
| "type_to_source (TVec t) = ''Vec<'' @ type_to_source t @ ''>''"
| "type_to_source (TRef t) = ''ref '' @ type_to_source t"
| "type_to_source (TRefMut t) = ''mut ref '' @ type_to_source t"
| "type_to_source (TAtomic t) = ''Atomic<'' @ type_to_source t @ ''>''"
| "type_to_source (TChannel t c) =
     (if c = 16 then ''Channel<'' @ type_to_source t @ ''>''
      else ''Channel<'' @ type_to_source t @ '', '' @ show_nat c @ ''>'')"
| "type_to_source (TMutex t) = ''Mutex<'' @ type_to_source t @ ''>''"
| "type_to_source (TGuard t) = ''Guard<'' @ type_to_source t @ ''>''"
| "type_to_source (TFnPtr ps r) = ''fn('' @ join_with '', '' (map type_to_source ps) @ '') -> '' @ type_to_source r"
| "type_to_source (TTuple ts) = ''('' @ join_with '', '' (map type_to_source ts) @ '')''"
| "type_to_source (TObject n) = ''dyn '' @ n"
| "type_to_source t = show_ty t"

definition fmt_param :: "param \<Rightarrow> string" where
  "fmt_param p = pa_name p @ '': '' @ type_to_source (pa_ty p)"

definition fmt_annotation :: "ty option \<Rightarrow> string" where
  "fmt_annotation ann = (case ann of None \<Rightarrow> [] | Some t \<Rightarrow> '': '' @ type_to_source t)"

section \<open>Expressions and statements\<close>

definition parens_if :: "bool \<Rightarrow> string \<Rightarrow> string" where
  "parens_if b t = (if b then ''('' @ t @ '')'' else t)"

definition comma_sep :: "string list \<Rightarrow> string" where
  "comma_sep ts = join_with '', '' ts"

definition fmt_pattern :: "float_text \<Rightarrow> pattern \<Rightarrow> string" where
  "fmt_pattern F p = (case p of
     PatVariant en v \<Rightarrow> en @ ''.'' @ v
   | PatVariantWithBinding en v b \<Rightarrow> en @ ''.'' @ v @ ''('' @ b @ '')''
   | PatInt v \<Rightarrow> show_int v
   | PatBool b \<Rightarrow> if b then ''true'' else ''false''
   | PatStr t \<Rightarrow> in_quotes t
   | PatFloat v \<Rightarrow>
       (let t = ft_display F v in
        t @ (if CHR ''.'' \<notin> set t \<and> CHR ''e'' \<notin> set t \<and> CHR ''E'' \<notin> set t then ''.0'' else []))
   | PatWildcard \<Rightarrow> ''_'')"

text \<open>What surrounds every statement: the comments before it, a blank line, a comment behind it.\<close>

definition around :: "fmt_ctx \<Rightarrow> nat \<Rightarrow> span \<Rightarrow> (fmt_state \<Rightarrow> fmt_state) \<Rightarrow> fmt_state \<Rightarrow> fmt_state" where
  "around C depth sp body st =
     try_attach_trailing C (s_end sp) (body (maybe_preserve_blank C (s_start sp) (drain_to C (s_start sp) depth st)))"

definition in_order :: "(fmt_state \<Rightarrow> fmt_state) list \<Rightarrow> fmt_state \<Rightarrow> fmt_state" where
  "in_order steps st = fold (\<lambda>step. step) steps st"

text \<open>The statements of a block, the comments at its end, its closing brace.\<close>

definition block_tail :: "fmt_ctx \<Rightarrow> nat \<Rightarrow> span \<Rightarrow> (fmt_state \<Rightarrow> fmt_state) list \<Rightarrow> fmt_state \<Rightarrow> fmt_state" where
  "block_tail C depth sp stmts st =
     emit (pad depth @ ''}'' @ [newline_char]) (drain_to C (s_end sp) (depth + 1) (in_order stmts st))"

definition clause_lines :: "nat \<Rightarrow> string \<Rightarrow> string list \<Rightarrow> string" where
  "clause_lines depth word es = concat (map (\<lambda>e. pad depth @ word @ e @ '';'' @ [newline_char]) es)"

definition no_comments :: fmt_ctx where
  "no_comments = \<lparr>fx_source = [], fx_comments = []\<rparr>"

text \<open>A statement inside an expression: on one line, without comments.\<close>

definition inline_stmt :: "(fmt_state \<Rightarrow> fmt_state) \<Rightarrow> string" where
  "inline_stmt step = trim (snd (step (0, []))) @ '' ''"

fun format_expr :: "float_text \<Rightarrow> expr \<Rightarrow> bool \<Rightarrow> string"
  and format_kind :: "float_text \<Rightarrow> expr_kind \<Rightarrow> bool \<Rightarrow> string"
  and format_arm :: "float_text \<Rightarrow> match_arm \<Rightarrow> string"
  and format_item :: "float_text \<Rightarrow> print_item \<Rightarrow> string"
  and format_stmt :: "float_text \<Rightarrow> fmt_ctx \<Rightarrow> nat \<Rightarrow> stmt \<Rightarrow> fmt_state \<Rightarrow> fmt_state"
where
  "format_expr F (Expr k sp) parens = format_kind F k parens"
| "format_kind F (KInt v) parens = show_int v"
| "format_kind F (KFloat v) parens = ft_debug F v"
| "format_kind F (KBool b) parens = (if b then ''true'' else ''false'')"
| "format_kind F (KStr t) parens = in_quotes (escape_string t)"
| "format_kind F (KVar name) parens = name"
| "format_kind F (KUnary op e) parens = (case op of UNeg \<Rightarrow> ''-'' | UNot \<Rightarrow> ''!'') @ format_expr F e True"
| "format_kind F (KBinary op l r) parens =
     parens_if parens (format_expr F l True @ '' '' @ binop_symbol op @ '' '' @ format_expr F r True)"
| "format_kind F (KCall name nsp args) parens = name @ ''('' @ comma_sep (map (\<lambda>a. format_expr F a False) args) @ '')''"
| "format_kind F (KMethodCall e m msp args) parens =
     format_expr F e True @ ''.'' @ m @ ''('' @ comma_sep (map (\<lambda>a. format_expr F a False) args) @ '')''"
| "format_kind F (KCast e ty) parens = ''('' @ format_expr F e True @ '' as '' @ type_to_source ty @ '')''"
| "format_kind F (KArrayLit es) parens = ''['' @ comma_sep (map (\<lambda>a. format_expr F a False) es) @ '']''"
| "format_kind F (KIndex a i) parens = format_expr F a True @ ''['' @ format_expr F i False @ '']''"
| "format_kind F (KLen a) parens = ''len('' @ format_expr F a False @ '')''"
| "format_kind F (KRef e) parens = ''ref '' @ format_expr F e True"
| "format_kind F (KRefMut e) parens = ''mut ref '' @ format_expr F e True"
| "format_kind F (KTuple es) parens = ''('' @ comma_sep (map (\<lambda>a. format_expr F a False) es) @ '')''"
| "format_kind F (KTupleAccess e i) parens = format_expr F e True @ ''.'' @ show_nat i"
| "format_kind F (KStructLit name nsp fs) parens =
     name @ '' { '' @ comma_sep (map (\<lambda>(n, e). n @ '': '' @ format_expr F e False) fs) @ '' }''"
| "format_kind F (KFieldAccess e f) parens = format_expr F e True @ ''.'' @ f"
| "format_kind F (KMatch e arms) parens =
     ''match '' @ format_expr F e False @ '' {'' @ concat (map (format_arm F) arms) @ '' }''"
| "format_kind F (KIfExpr c a b) parens =
     ''if '' @ format_expr F c False @ '' { '' @ format_expr F a False @ '' } else { '' @ format_expr F b False @ '' }''"
| "format_kind F (KBlock stmts tail) parens =
     ''{ '' @ concat (map (\<lambda>x. inline_stmt (format_stmt F no_comments 0 x)) stmts) @ format_expr F tail False @ '' }''"
| "format_kind F (KTry e) parens = ''try '' @ format_expr F e True"
| "format_kind F (KAnonFn params ret body fsp) parens =
     ''fn('' @ comma_sep (map fmt_param params) @ '') -> '' @ type_to_source ret @ '' { '' @
     concat (map (\<lambda>x. inline_stmt (format_stmt F no_comments 0 x)) body) @ ''}''"
| "format_arm F (MatchArm p psp body) = '' '' @ fmt_pattern F p @ '' then '' @ format_expr F body False @ '',''"
| "format_item F (PrExpr e) = format_expr F e False"
| "format_item F (PrStr t) = in_quotes (escape_string t)"
| "format_stmt F C d (StLet name ann e sp) = around C d sp (emit
     (pad d @ ''let '' @ name @ fmt_annotation ann @ '' = '' @ format_expr F e False @ '';'' @ [newline_char]))"
| "format_stmt F C d (StLetTuple names ann e sp) = around C d sp (emit
     (pad d @ ''let ('' @ comma_sep names @ '')'' @ fmt_annotation ann @ '' = '' @ format_expr F e False @ '';'' @ [newline_char]))"
| "format_stmt F C d (StReturn e sp) = around C d sp (emit (pad d @ ''return '' @ format_expr F e False @ '';'' @ [newline_char]))"
| "format_stmt F C d (StAssert e msg sp) = around C d sp (emit (pad d @ ''assert '' @ format_expr F e False @
     (case msg of None \<Rightarrow> [] | Some m \<Rightarrow> '', '' @ in_quotes (escape_string m)) @ '';'' @ [newline_char]))"
| "format_stmt F C d (StProve e sp) = around C d sp (emit (pad d @ ''prove '' @ format_expr F e False @ '';'' @ [newline_char]))"
| "format_stmt F C d (StPrint is sp) = around C d sp (emit
     (pad d @ ''print '' @ comma_sep (map (format_item F) is) @ '';'' @ [newline_char]))"
| "format_stmt F C d (StIf c t e sp) = around C d sp (\<lambda>st.
     let st = emit (pad d @ ''if '' @ format_expr F c False @ '' {'' @ [newline_char]) st in
     if e = [] then block_tail C d sp (map (format_stmt F C (d + 1)) t) st
     else
       let st = drain_to C (s_start (stmt_span (hd e))) (d + 1) (in_order (map (format_stmt F C (d + 1)) t) st) in
       block_tail C d sp (map (format_stmt F C (d + 1)) e) (emit (pad d @ ''} else {'' @ [newline_char]) st))"
| "format_stmt F C d (StWhile c invs body sp) = around C d sp (\<lambda>st.
     block_tail C d sp (map (format_stmt F C (d + 1)) body) (emit
       (pad d @ ''while '' @ format_expr F c False @ [newline_char] @
        clause_lines d ''invariant '' (map (\<lambda>a. format_expr F a False) invs) @ pad d @ ''{'' @ [newline_char]) st))"
| "format_stmt F C d (StAssign name e sp) = around C d sp (emit
     (pad d @ name @ '' = '' @ format_expr F e False @ '';'' @ [newline_char]))"
| "format_stmt F C d (StBreak sp) = around C d sp (emit (pad d @ ''break;'' @ [newline_char]))"
| "format_stmt F C d (StContinue sp) = around C d sp (emit (pad d @ ''continue;'' @ [newline_char]))"
| "format_stmt F C d (StIndexAssign name i path e sp) = around C d sp (emit
     (pad d @ name @ ''['' @ format_expr F i False @ '']'' @ concat (map (\<lambda>f. ''.'' @ f) path) @ '' = '' @
      format_expr F e False @ '';'' @ [newline_char]))"
| "format_stmt F C d (StFieldAssign obj f fsp e sp) = around C d sp (emit
     (pad d @ format_expr F obj True @ ''.'' @ f @ '' = '' @ format_expr F e False @ '';'' @ [newline_char]))"
| "format_stmt F C d (StFor var lo hi invs body sp par reds) = around C d sp (\<lambda>st.
     block_tail C d sp (map (format_stmt F C (d + 1)) body) (emit
       (pad d @ (if par then ''parallel '' else []) @ ''for '' @ var @ '' from '' @ format_expr F lo False @ '' to '' @
        format_expr F hi False @ [newline_char] @
        clause_lines d ''invariant '' (map (\<lambda>a. format_expr F a False) invs) @
        clause_lines d ''reduce '' (map (\<lambda>r. rd_var r @ '' with '' @ redop_symbol (rd_op r)) reds) @
        pad d @ ''{'' @ [newline_char]) st))"
| "format_stmt F C d (StForIter var coll consumes body sp) = around C d sp (\<lambda>st.
     block_tail C d sp (map (format_stmt F C (d + 1)) body) (emit
       (pad d @ ''for '' @ var @ '' in '' @ (if consumes then [] else ''ref '') @ coll @ '' {'' @ [newline_char]) st))"
| "format_stmt F C d (StTaskSpawn name body sp) = around C d sp (\<lambda>st.
     block_tail C d sp (map (format_stmt F C (d + 1)) body) (emit (pad d @ ''task '' @ name @ '' {'' @ [newline_char]) st))"
| "format_stmt F C d (StTaskJoin name sp) = around C d sp (emit (pad d @ ''join '' @ name @ '';'' @ [newline_char]))"

end
