(* ===== verification/FormatItem.thy ===== *)
theory FormatItem
  imports Format
begin

text \<open>
  Declarations, modules and whole programs of the formatter (\<open>src/format.rs\<close>). Items are printed in
  the order of their positions; what is to be printed for an item is kept as a step on the
  state of the run.
\<close>

section \<open>Declarations\<close>

definition line :: "string \<Rightarrow> string" where
  "line t = t @ [newline_char]"

definition format_const_decl :: "float_text \<Rightarrow> const_decl \<Rightarrow> fmt_state \<Rightarrow> fmt_state" where
  "format_const_decl F c = emit (line
     (''const '' @ cd_name c @ '': '' @ type_to_source (cd_ty c) @ '' = '' @ format_expr F (cd_value c) False @ '';''))"

definition format_type_alias :: "alias_decl \<Rightarrow> fmt_state \<Rightarrow> fmt_state" where
  "format_type_alias a = emit (line (''type '' @ ta_name a @ '' = '' @ type_to_source (ta_target a) @ '';''))"

definition format_struct_decl :: "struct_decl \<Rightarrow> fmt_state \<Rightarrow> fmt_state" where
  "format_struct_decl s = emit (line (''struct '' @ sd_name s @ '' {'') @
     concat (map (\<lambda>f. line (''  '' @ sf_name f @ '': '' @ type_to_source (sf_ty f) @ '','')) (sd_fields s)) @ line ''}'')"

definition format_enum_decl :: "enum_decl \<Rightarrow> fmt_state \<Rightarrow> fmt_state" where
  "format_enum_decl e = emit (line (''enum '' @ ed_name e @ '' {'') @
     concat (map (\<lambda>v. line (''  '' @ ev_name v @
       (if ev_payload v = [] then [] else ''('' @ comma_sep (map type_to_source (ev_payload v)) @ '')'') @ '','')) (ed_variants e)) @
     line ''}'')"

definition format_interface_decl :: "interface_decl \<Rightarrow> fmt_state \<Rightarrow> fmt_state" where
  "format_interface_decl d = emit (line (''interface '' @ id_name d @ '' {'') @
     concat (map (\<lambda>m. line (''  fn '' @ im_name m @ ''('' @ comma_sep (map fmt_param (im_params m)) @ '')'' @ '' -> '' @
       type_to_source (im_return_type m) @ '';'')) (id_methods d)) @
     line ''}'')"

text \<open>The line of a function up to its body, without the brace.\<close>

definition signature :: "function_decl \<Rightarrow> string" where
  "signature f =
     (if f_is_pure f then ''pure '' else []) @ (if f_is_extern f then ''extern '' @ in_quotes ''C'' @ '' '' else []) @
     ''fn '' @ f_name f @ (if f_type_params f = [] then [] else ''<'' @ comma_sep (f_type_params f) @ ''>'') @
     ''('' @ comma_sep (map fmt_param (f_params f)) @ '')'' @ '' -> '' @ type_to_source (f_return_type f)"

definition where_text :: "where_clause list \<Rightarrow> string" where
  "where_text ws = (if ws = [] then []
     else '' where '' @ comma_sep (map (\<lambda>w. wc_type_param w @ '' is '' @ wc_interface_name w) ws))"

definition format_function :: "float_text \<Rightarrow> fmt_ctx \<Rightarrow> function_decl \<Rightarrow> fmt_state \<Rightarrow> fmt_state" where
  "format_function F C f st =
     (if f_is_extern f then emit (line (line (signature f @ '';''))) st
      else
        let clauses = (if f_requires f = [] \<and> f_ensures f = [] then line '' {''
              else line [] @ clause_lines 0 ''requires '' (map (\<lambda>e. format_expr F e False) (f_requires f)) @
                   clause_lines 0 ''ensures '' (map (\<lambda>e. format_expr F e False) (f_ensures f)) @ line ''{'');
            st = emit (signature f @ where_text (f_where_clauses f) @ clauses) st;
            st = in_order (map (format_stmt F C 1) (f_body f)) st in
        emit (line ''}'') (drain_to C (s_end (f_span f)) 1 st))"

text \<open>An item printed into a buffer of its own, which is indented and appended.\<close>

definition in_sub :: "(fmt_state \<Rightarrow> fmt_state) \<Rightarrow> fmt_state \<Rightarrow> fmt_state" where
  "in_sub step = (\<lambda>(cur, out). let (cur, sub) = step (cur, []) in (cur, out @ reindent sub))"

text \<open>Steps with an empty line between them.\<close>

fun separated :: "(fmt_state \<Rightarrow> fmt_state) list \<Rightarrow> fmt_state \<Rightarrow> fmt_state" where
  "separated [] st = st"
| "separated [step] st = step st"
| "separated (step # steps) st = separated steps (emit [newline_char] (step st))"

definition fn_members :: "float_text \<Rightarrow> fmt_ctx \<Rightarrow> function_decl list \<Rightarrow> fmt_state \<Rightarrow> fmt_state" where
  "fn_members F C fs st = emit (line ''}'') (separated (map (\<lambda>f. in_sub (format_function F C f)) fs) st)"

definition format_methods_block :: "float_text \<Rightarrow> fmt_ctx \<Rightarrow> methods_block \<Rightarrow> fmt_state \<Rightarrow> fmt_state" where
  "format_methods_block F C m st =
     fn_members F C (mb_methods m) (emit (line (''methods on '' @ type_to_source (mb_for_type m) @ '' {'')) st)"

definition format_impl_decl :: "float_text \<Rightarrow> fmt_ctx \<Rightarrow> impl_decl \<Rightarrow> fmt_state \<Rightarrow> fmt_state" where
  "format_impl_decl F C i st = fn_members F C (ip_methods i)
     (emit (line (''implement '' @ ip_interface_name i @ '' for '' @ type_to_source (ip_for_type i) @ '' {'')) st)"

definition format_use_path :: "use_path \<Rightarrow> string" where
  "format_use_path u = line (''use '' @ source_path (up_module u) @ ''::'' @ up_item u @
     (case up_alias u of None \<Rightarrow> [] | Some a \<Rightarrow> '' as '' @ a) @ '';'')"

section \<open>Modules\<close>

text \<open>The visibility written before an item; an item without an entry is private.\<close>

definition vis_marker :: "bool \<times> bool \<Rightarrow> string" where
  "vis_marker v = (case v of (True, True) \<Rightarrow> ''pub(kosh) '' | (True, False) \<Rightarrow> ''pub '' | _ \<Rightarrow> [])"

definition vis_at :: "(bool \<times> bool) list \<Rightarrow> nat \<Rightarrow> bool \<times> bool" where
  "vis_at vs i = (if i < length vs then vs ! i else (False, False))"

text \<open>An item to print: where it starts, and the step that prints it.\<close>

type_synonym placed = "nat \<times> (fmt_state \<Rightarrow> fmt_state)"

definition with_vis :: "(bool \<times> bool) list \<Rightarrow> ('a \<Rightarrow> placed) \<Rightarrow> 'a list \<Rightarrow> placed list" where
  "with_vis vs mk xs = map (\<lambda>(i, x). case mk x of (pos, step) \<Rightarrow> (pos, \<lambda>st. step (emit (vis_marker (vis_at vs i)) st)))
     (List.enumerate 0 xs)"

definition placed_items :: "float_text \<Rightarrow> fmt_ctx \<Rightarrow> items \<Rightarrow> visibility \<Rightarrow> placed list" where
  "placed_items F C it v =
     with_vis (v_structs v) (\<lambda>s. (s_start (sd_span s), format_struct_decl s)) (it_structs it) @
     with_vis (v_enums v) (\<lambda>e. (s_start (ed_span e), format_enum_decl e)) (it_enums it) @
     with_vis (v_interfaces v) (\<lambda>d. (s_start (id_span d), format_interface_decl d)) (it_interfaces it) @
     with_vis (v_impls v) (\<lambda>i. (s_start (ip_span i), format_impl_decl F C i)) (it_impls it) @
     with_vis (v_consts v) (\<lambda>c. (s_start (cd_span c), format_const_decl F c)) (it_consts it) @
     with_vis (v_type_aliases v) (\<lambda>a. (s_start (ta_span a), format_type_alias a)) (it_type_aliases it) @
     with_vis (v_methods_blocks v) (\<lambda>m. (s_start (mb_span m), format_methods_block F C m)) (it_methods_blocks it) @
     with_vis (v_functions v) (\<lambda>f. (s_start (f_span f), format_function F C f)) (it_functions it)"

definition by_position :: "placed list \<Rightarrow> (fmt_state \<Rightarrow> fmt_state) list" where
  "by_position xs = map snd (sort_key fst xs)"

definition placed_use :: "use_path \<Rightarrow> placed" where
  "placed_use u = (s_start (up_span u), emit ((if up_is_pub u then ''pub '' else []) @ format_use_path u))"

fun format_module_decl :: "float_text \<Rightarrow> fmt_ctx \<Rightarrow> module_decl \<Rightarrow> bool \<times> bool \<Rightarrow> fmt_state \<Rightarrow> fmt_state" where
  "format_module_decl F C (ModuleDecl name nsp it ms v sp) outer st =
     (let subs = map (\<lambda>(i, pos, step). (pos, step (vis_at (v_modules v) i)))
                   (List.enumerate 0 (map (\<lambda>m. (s_start (md_span m), \<lambda>w st. format_module_decl F C m w st)) ms));
          steps = by_position (placed_items F C it v @ map placed_use (it_use_paths it) @ subs) in
      emit (line ''}'') (separated (map in_sub steps) (emit (vis_marker outer @ line (''module '' @ name @ '' {'')) st)))"

section \<open>Programs\<close>

text \<open>The comments and the blank line before an item of the top level.\<close>

definition before :: "fmt_ctx \<Rightarrow> span \<Rightarrow> fmt_state \<Rightarrow> fmt_state" where
  "before C sp st = maybe_preserve_blank C (s_start sp) (drain_to C (s_start sp) 0 st)"

definition one_line_item :: "fmt_ctx \<Rightarrow> span \<Rightarrow> string \<Rightarrow> fmt_state \<Rightarrow> fmt_state" where
  "one_line_item C sp t st = try_attach_trailing C (s_end sp) (emit t (before C sp st))"

text \<open>A group of one-line items, with an empty line after it.\<close>

definition group :: "(fmt_state \<Rightarrow> fmt_state) list \<Rightarrow> fmt_state \<Rightarrow> fmt_state" where
  "group steps st = (if steps = [] then st else emit [newline_char] (in_order steps st))"

definition top_items :: "float_text \<Rightarrow> fmt_ctx \<Rightarrow> prog \<Rightarrow> placed list" where
  "top_items F C p =
     (let it = pg_items p; at = (\<lambda>sp step. (s_start sp, \<lambda>st. step (before C sp st))) in
      map (\<lambda>s. at (sd_span s) (format_struct_decl s)) (it_structs it) @
      map (\<lambda>e. at (ed_span e) (format_enum_decl e)) (it_enums it) @
      map (\<lambda>d. at (id_span d) (format_interface_decl d)) (it_interfaces it) @
      map (\<lambda>i. at (ip_span i) (format_impl_decl F C i)) (it_impls it) @
      map (\<lambda>c. at (cd_span c) (format_const_decl F c)) (it_consts it) @
      map (\<lambda>a. at (ta_span a) (format_type_alias a)) (it_type_aliases it) @
      map (\<lambda>m. at (mb_span m) (format_methods_block F C m)) (it_methods_blocks it) @
      map (\<lambda>f. at (f_span f) (format_function F C f)) (it_functions it) @
      map (\<lambda>m. at (md_span m) (format_module_decl F C m (False, False))) (pg_modules p))"

definition format_program_with_comments :: "float_text \<Rightarrow> prog \<Rightarrow> string \<Rightarrow> comment list \<Rightarrow> string" where
  "format_program_with_comments F p source comments =
     (let C = \<lparr>fx_source = source, fx_comments = comments\<rparr>;
          st = group (map (\<lambda>u. one_line_item C (us_span u) (line (''use '' @ in_quotes (escape_string (us_path u)) @ '';'')))
                 (pg_uses p)) (0, []);
          st = group (map (\<lambda>u. one_line_item C (up_span u) (format_use_path u)) (it_use_paths (pg_items p))) st;
          st = group (map (\<lambda>i. one_line_item C (in_span i) (line (''intent '' @ in_quotes (escape_string (in_text i)) @ '';'')))
                 (pg_intents p)) st;
          st = separated (by_position (top_items F C p)) st in
      snd (drain_remaining C st))"

definition format_program :: "float_text \<Rightarrow> prog \<Rightarrow> string" where
  "format_program F p = format_program_with_comments F p [] []"

end
