(* ===== verification/FormatProps.thy ===== *)
theory FormatProps
  imports FormatItem
begin

text \<open>
  What the formatter keeps: every comment, in order, wherever it moves it; and strings, which
  the lexer reads back as they were.
\<close>

section \<open>Texts in order within a text\<close>

text \<open>\<open>carries ts s\<close>: the texts \<open>ts\<close> stand in \<open>s\<close>, one after the other.\<close>

fun carries :: "string list \<Rightarrow> string \<Rightarrow> bool" where
  "carries [] s = True"
| "carries (t # ts) s = (\<exists>a b. s = a @ t @ b \<and> carries ts b)"

lemma carries_before: "carries ts s \<Longrightarrow> carries ts (p @ s)"
  by (cases ts) (auto, metis append_assoc)

lemma carries_after: "carries ts s \<Longrightarrow> carries ts (s @ q)"
  by (induction ts arbitrary: s) (auto, metis append_assoc)

lemma carries_append: "carries ts s \<Longrightarrow> carries us q \<Longrightarrow> carries (ts @ us) (s @ q)"
proof (induction ts arbitrary: s)
  case Nil
  then show ?case by (simp add: carries_before)
next
  case (Cons t ts)
  then obtain a b where "s = a @ t @ b" "carries ts b" by auto
  then show ?case using Cons.IH[OF _ Cons.prems(2)] by auto
qed

lemma carries_one [simp]: "carries [t] t"
  by (auto intro: exI[of _ "[]"])

lemma carries_none: "carries ts [] \<Longrightarrow> carries ts s"
  by (induction ts arbitrary: s) auto

text \<open>Texts without a newline stand on one side of a newline or on the other.\<close>

lemma carries_split:
  "carries ts (l @ newline_char # r) \<Longrightarrow> \<forall>t\<in>set ts. newline_char \<notin> set t \<Longrightarrow>
    \<exists>us vs. ts = us @ vs \<and> carries us l \<and> carries vs r"
proof (induction ts arbitrary: l)
  case (Cons t ts)
  from Cons.prems(1) obtain a b where ab: "l @ newline_char # r = (a @ t) @ b" "carries ts b" by auto
  from append_eq_append_conv2[THEN iffD1, OF ab(1)]
  consider us where "l @ us = a @ t" "newline_char # r = us @ b" | us where "l = (a @ t) @ us" "us @ newline_char # r = b"
    by blast
  then show ?case
  proof cases
    case (1 us)
    show ?thesis
    proof (cases us)
      case Nil
      then have "carries ts ([] @ newline_char # r)" "a @ t = l" using 1 ab(2) by auto
      then obtain us' vs where "ts = us' @ vs" "carries us' []" "carries vs r" using Cons.IH[of "[]"] Cons.prems(2) by auto
      then show ?thesis using \<open>a @ t = l\<close> by (intro exI[of _ "t # us'"] exI[of _ vs]) (auto intro: carries_none exI[of _ a])
    next
      case (Cons c us')
      then have us: "us = newline_char # us'" "r = us' @ b" using 1 by auto
      have "newline_char \<notin> set t" using Cons.prems(2) by simp
      have "(l @ [newline_char]) @ us' = a @ t" using 1(1) us(1) by simp
      from append_eq_append_conv2[THEN iffD1, OF this]
      consider w where "us' = w @ t" | w where "a @ w = l @ [newline_char]" "t = w @ us'" by auto
      then obtain w where "us' = w @ t"
      proof cases
        case (2 w)
        then have "w = []" using \<open>newline_char \<notin> set t\<close> by (cases w rule: rev_cases) auto
        then show ?thesis using 2 that[of "[]"] by simp
      qed
      then have "carries (t # ts) r" using us ab(2) by auto
      then show ?thesis by (intro exI[of _ "[]"] exI[of _ "t # ts"]) simp
    qed
  next
    case (2 us)
    then obtain us' vs where "ts = us' @ vs" "carries us' us" "carries vs r" using Cons.IH[of us] Cons.prems(2) ab(2) 2(2) by auto
    then show ?thesis using 2(1) by (intro exI[of _ "t # us'"] exI[of _ vs]) auto
  qed
qed simp

lemma carries_unline:
  assumes "carries ts (s @ [newline_char])" and "\<forall>t\<in>set ts. newline_char \<notin> set t"
  shows "carries ts s"
proof -
  obtain us vs where "ts = us @ vs" "carries us s" "carries vs []" using carries_split[of ts s "[]"] assms by auto
  then show ?thesis using carries_append[of us s vs "[]"] by simp
qed

section \<open>Indenting a buffer\<close>

definition tidy :: "string \<Rightarrow> bool" where
  "tidy t \<longleftrightarrow> newline_char \<notin> set t \<and> (t = [] \<or> last t \<noteq> CHR 0x0D)"

lemma chop_cr_append: "b \<noteq> [] \<Longrightarrow> chop_cr (a @ b) = a @ chop_cr b"
  by (auto simp: chop_cr_def butlast_append)

lemma carries_chop: "carries ts l \<Longrightarrow> \<forall>t\<in>set ts. tidy t \<Longrightarrow> carries ts (chop_cr l)"
proof (induction ts arbitrary: l)
  case (Cons t ts)
  then obtain a b where l: "l = a @ t @ b" "carries ts b" by auto
  show ?case
  proof (cases "b = []")
    case True
    then have "carries ts []" using l by simp
    moreover obtain c where "chop_cr l = c @ t @ []"
      using l True Cons.prems(2) by (cases "t = []") (auto simp: tidy_def chop_cr_def)
    ultimately show ?thesis by (metis carries.simps(2))
  next
    case False
    then have "chop_cr l = a @ t @ chop_cr b" using l chop_cr_append[of b "a @ t"] by simp
    then show ?thesis using Cons.IH[OF l(2)] Cons.prems(2) by auto
  qed
qed simp

lemma lines_from_line: "newline_char \<notin> set l \<Longrightarrow> lines_from k (l @ newline_char # r) = chop_cr (k @ l) # lines_from [] r"
  by (induction l arbitrary: k) auto

lemma lines_from_rest: "newline_char \<notin> set l \<Longrightarrow> lines_from k l = (if k @ l = [] then [] else [k @ l])"
  by (induction l arbitrary: k) auto

lemma reindent_line:
  "newline_char \<notin> set l \<Longrightarrow> reindent (l @ newline_char # r) =
     (if chop_cr l = [] then [newline_char] else ''  '' @ chop_cr l @ [newline_char]) @ reindent r"
  by (simp add: reindent_def lines_def lines_from_line)

lemma reindent_rest: "newline_char \<notin> set l \<Longrightarrow> reindent l = (if l = [] then [] else ''  '' @ l @ [newline_char])"
  by (simp add: reindent_def lines_def lines_from_rest)

lemma carries_reindent: "carries ts s \<Longrightarrow> \<forall>t\<in>set ts. tidy t \<Longrightarrow> carries ts (reindent s)"
proof (induction s arbitrary: ts rule: length_induct)
  case (1 s)
  show ?case
  proof (cases "newline_char \<in> set s")
    case False
    then show ?thesis using 1(2) carries_before[OF carries_after[OF 1(2)], of "''  ''" "[newline_char]"]
      by (cases "s = []") (simp_all add: reindent_rest)
  next
    case True
    then obtain l r where s: "s = l @ newline_char # r" "newline_char \<notin> set l" by (metis split_list_first)
    obtain us vs where ts: "ts = us @ vs" "carries us l" "carries vs r"
      using carries_split[of ts l r] 1(2,3) s(1) by (auto simp: tidy_def)
    have "carries us (chop_cr l)" using carries_chop[OF ts(2)] 1(3) ts(1) by auto
    then have "carries us (if chop_cr l = [] then [newline_char] else ''  '' @ chop_cr l @ [newline_char])"
      by (auto intro: carries_none carries_before[of _ _ "''  ''", simplified] carries_after)
    moreover have "carries vs (reindent r)" using 1(1,3) s(1) ts by auto
    ultimately show ?thesis using carries_append ts(1) s reindent_line by metis
  qed
qed

section \<open>Every step keeps the comments\<close>

definition note_of :: "comment \<Rightarrow> string" where
  "note_of c = trim_end (cm_text c)"

text \<open>
  From \<open>st\<close> to \<open>st'\<close> the cursor moves on, and the comments it passes are put behind what the text
  carried.
\<close>

definition kept :: "fmt_ctx \<Rightarrow> fmt_state \<Rightarrow> fmt_state \<Rightarrow> bool" where
  "kept C st st' \<longleftrightarrow> (\<exists>cs. drop (fst st) (fx_comments C) = cs @ drop (fst st') (fx_comments C) \<and>
     (\<forall>ts. (\<forall>t\<in>set ts. tidy t) \<longrightarrow> carries ts (snd st) \<longrightarrow> carries (ts @ map note_of cs) (snd st')))"

definition keeps :: "fmt_ctx \<Rightarrow> (fmt_state \<Rightarrow> fmt_state) \<Rightarrow> bool" where
  "keeps C step \<longleftrightarrow> (\<forall>st. kept C st (step st))"

definition tidy_comments :: "fmt_ctx \<Rightarrow> bool" where
  "tidy_comments C \<longleftrightarrow> (\<forall>c\<in>set (fx_comments C). tidy (note_of c))"

lemma kept_refl: "kept C st st"
  by (auto simp: kept_def intro: exI[of _ "[]"])

lemma kept_trans:
  assumes C: "tidy_comments C" and ab: "kept C a b" and bc: "kept C b c"
  shows "kept C a c"
proof -
  from ab obtain cs where cs: "drop (fst a) (fx_comments C) = cs @ drop (fst b) (fx_comments C)"
    "\<And>ts. \<forall>t\<in>set ts. tidy t \<Longrightarrow> carries ts (snd a) \<Longrightarrow> carries (ts @ map note_of cs) (snd b)" by (auto simp: kept_def)
  from bc obtain ds where ds: "drop (fst b) (fx_comments C) = ds @ drop (fst c) (fx_comments C)"
    "\<And>ts. \<forall>t\<in>set ts. tidy t \<Longrightarrow> carries ts (snd b) \<Longrightarrow> carries (ts @ map note_of ds) (snd c)" by (auto simp: kept_def)
  have "set cs \<subseteq> set (fx_comments C)" using cs(1) by (metis set_append set_drop_subset sup.bounded_iff)
  then have "\<forall>t\<in>set (map note_of cs). tidy t" using C by (auto simp: tidy_comments_def)
  then have "carries (ts @ map note_of (cs @ ds)) (snd c)" if "\<forall>t\<in>set ts. tidy t" "carries ts (snd a)" for ts
    using ds(2)[of "ts @ map note_of cs"] cs(2)[OF that] that(1) by auto
  then show ?thesis unfolding kept_def using cs(1) ds(1) by (intro exI[of _ "cs @ ds"]) auto
qed

lemma keepsD: "keeps C step \<Longrightarrow> kept C st (step st)"
  unfolding keeps_def by blast

lemma keeps_id: "keeps C (\<lambda>st. st)"
  by (simp add: keeps_def kept_refl)

lemma kept_emit: "kept C st (emit t st)"
  by (auto simp: kept_def emit_def carries_after split: prod.split intro!: exI[of _ "[]"])

lemma carries_snoc:
  assumes "carries ts s"
  shows "carries (ts @ [t]) (s @ p @ t @ q)"
proof -
  have "carries [t] (p @ t @ q)" by (auto intro: exI[of _ p])
  then show ?thesis by (rule carries_append[OF assms])
qed

lemma drop_Suc_rest: "drop n xs = c # cs \<Longrightarrow> drop (Suc n) xs = cs"
  by (metis drop_Suc list.sel(3) tl_drop)

lemma kept_comment_line:
  assumes "drop (fst st) (fx_comments C) = c # cs"
  shows "kept C st (comment_line C b d c st)"
proof -
  obtain cur out where st: "st = (cur, out)" by (cases st)
  have "drop (Suc cur) (fx_comments C) = cs" using assms st by (intro drop_Suc_rest) simp
  moreover have "carries (ts @ [note_of c]) (snd (comment_line C b d c st))" if "carries ts out" for ts
  proof -
    obtain gap where "snd (comment_line C b d c st) = out @ (gap @ pad d) @ note_of c @ [newline_char]"
      by (simp add: st comment_line_def note_of_def)
    then show ?thesis using carries_snoc[OF that, of "note_of c" "gap @ pad d" "[newline_char]"] by simp
  qed
  ultimately show ?thesis using assms by (auto simp: kept_def st comment_line_def intro!: exI[of _ "[c]"])
qed

lemma kept_drain_from:
  "tidy_comments C \<Longrightarrow> drop (fst st) (fx_comments C) = cs \<Longrightarrow> kept C st (drain_from C pos d cs st)"
proof (induction cs arbitrary: st)
  case (Cons c cs)
  let ?st = "comment_line C True d c st"
  have "drop (fst ?st) (fx_comments C) = cs"
    using Cons.prems(2) drop_Suc_rest by (cases st) (auto simp: comment_line_def)
  with Cons have "kept C ?st (drain_from C pos d cs ?st)" by simp
  with Cons.prems have "kept C st (drain_from C pos d cs ?st)" by (blast intro: kept_trans kept_comment_line)
  then show ?case by (simp add: kept_refl)
qed (simp add: kept_refl)

lemma keeps_drain_to: "tidy_comments C \<Longrightarrow> keeps C (drain_to C pos d)"
  unfolding keeps_def drain_to_def by (blast intro: kept_drain_from)

lemma keeps_trailing: "tidy_comments C \<Longrightarrow> keeps C (try_attach_trailing C pos)"
proof (unfold keeps_def, intro allI)
  fix st :: fmt_state assume C: "tidy_comments C"
  obtain cur out where st: "st = (cur, out)" by (cases st)
  show "kept C st (try_attach_trailing C pos st)"
  proof (cases "next_comment_same_line_as C cur pos")
    case True
    then have n: "cur < length (fx_comments C)" by (simp add: next_comment_same_line_as_def)
    let ?c = "fx_comments C ! cur" let ?out = "if ends_with out [newline_char] then butlast out else out"
    have "carries ts ?out" if "\<forall>t\<in>set ts. tidy t" "carries ts out" for ts
    proof -
      have "butlast out @ [newline_char] = out" if "ends_with out [newline_char]"
        using that by (cases out rule: rev_cases) (auto simp: ends_with_def)
      then show ?thesis using that carries_unline[of ts "butlast out"] by (auto simp: tidy_def)
    qed
    then have "carries (ts @ [note_of ?c]) (?out @ ''  '' @ note_of ?c @ [newline_char])"
      if "\<forall>t\<in>set ts. tidy t" "carries ts out" for ts using that by (intro carries_snoc) blast
    moreover have "drop cur (fx_comments C) = [?c] @ drop (Suc cur) (fx_comments C)" using n by (simp add: Cons_nth_drop_Suc)
    ultimately show ?thesis using True
      by (auto simp: kept_def st try_attach_trailing_def note_of_def intro!: exI[of _ "[?c]"])
  next
    case False
    then show ?thesis by (simp add: st try_attach_trailing_def kept_refl)
  qed
qed

lemma keeps_blank: "keeps C (maybe_preserve_blank C pos)"
  unfolding keeps_def
proof
  fix st :: fmt_state
  obtain gap where "maybe_preserve_blank C pos st = emit gap st"
    by (cases st) (simp add: maybe_preserve_blank_def emit_def)
  then show "kept C st (maybe_preserve_blank C pos st)" by (simp add: kept_emit)
qed

lemma keeps_emit: "keeps C (emit t)"
  unfolding keeps_def by (blast intro: kept_emit)

text \<open>The printers, for comments that are tidy.\<close>

locale tidy_run =
  fixes C :: fmt_ctx
  assumes tidy: "tidy_comments C"
begin

lemma keeps_comp: "keeps C f \<Longrightarrow> keeps C g \<Longrightarrow> keeps C (\<lambda>st. g (f st))"
  unfolding keeps_def using kept_trans[OF tidy] by blast

lemma keeps_before: "keeps C f \<Longrightarrow> keeps C (\<lambda>st. f (emit t st))"
  by (rule keeps_comp[OF keeps_emit])

lemma keeps_around: "keeps C f \<Longrightarrow> keeps C (around C d sp f)"
  unfolding around_def
  by (intro keeps_comp[OF _ keeps_trailing[OF tidy]] keeps_comp[OF keeps_comp[OF keeps_drain_to[OF tidy] keeps_blank]])

lemma keeps_in_order: "(\<And>f. f \<in> set fs \<Longrightarrow> keeps C f) \<Longrightarrow> keeps C (in_order fs)"
proof (induction fs)
  case Nil
  have "in_order [] = (\<lambda>st. st)" by (rule ext) (simp add: in_order_def)
  then show ?case by (simp only: keeps_id)
next
  case (Cons f fs)
  have "in_order (f # fs) = (\<lambda>st. in_order fs (f st))" by (rule ext) (simp add: in_order_def)
  then show ?case using Cons by (simp only: keeps_comp list.set_intros)
qed

lemma keeps_separated: "(\<And>f. f \<in> set fs \<Longrightarrow> keeps C f) \<Longrightarrow> keeps C (separated fs)"
proof (induction fs rule: induct_list012)
  case 1
  have "separated [] = (\<lambda>st. st)" by (rule ext) simp
  then show ?case by (simp only: keeps_id)
next
  case (2 f)
  have "separated [f] = f" by (rule ext) simp
  then show ?case using 2 by simp
next
  case (3 f g fs)
  have "separated (f # g # fs) = (\<lambda>st. separated (g # fs) (emit [newline_char] (f st)))" by (rule ext) simp
  moreover have "keeps C (\<lambda>st. separated (g # fs) (emit [newline_char] (f st)))"
    using 3 by (intro keeps_comp[OF _ keeps_before]) simp_all
  ultimately show ?case by (simp only:)
qed

lemma keeps_block_tail: "(\<And>f. f \<in> set fs \<Longrightarrow> keeps C f) \<Longrightarrow> keeps C (block_tail C d sp fs)"
  unfolding block_tail_def
  by (intro keeps_comp[OF _ keeps_emit] keeps_comp[OF _ keeps_drain_to[OF tidy]] keeps_in_order)

lemma elem_size: "y \<in> set ys \<Longrightarrow> size y \<le> size_list size ys"
  by (induction ys) auto

lemma keeps_if: "keeps C f \<Longrightarrow> keeps C g \<Longrightarrow> keeps C (\<lambda>st. if b then f st else g st)"
  by (cases b) simp_all

lemma keeps_stmt: "keeps C (format_stmt F C d x)"
proof (induction x arbitrary: d rule: measure_induct_rule[of size])
  case (less x)
  have body: "keeps C f" if "f \<in> set (map (format_stmt F C (d + 1)) ys)" "\<And>y. y \<in> set ys \<Longrightarrow> size y < size x" for ys f
    using that less by auto
  show ?case
  proof (cases x)
    case (StIf c t e sp)
    have t: "keeps C f" if "f \<in> set (map (format_stmt F C (d + 1)) t)" for f
      using that by (rule body) (auto simp: StIf dest: elem_size)
    have e: "keeps C f" if "f \<in> set (map (format_stmt F C (d + 1)) e)" for f
      using that by (rule body) (auto simp: StIf dest: elem_size)
    show ?thesis unfolding StIf format_stmt.simps Let_def
      by (intro keeps_around keeps_if keeps_before keeps_block_tail[OF t] keeps_block_tail[OF e]
          keeps_comp[OF keeps_before keeps_before] keeps_comp[OF _ keeps_drain_to[OF tidy]] keeps_in_order[OF t])
  next
    case (StWhile c invs b sp)
    have "keeps C f" if "f \<in> set (map (format_stmt F C (d + 1)) b)" for f
      using that by (rule body) (auto simp: StWhile dest: elem_size)
    then show ?thesis unfolding StWhile format_stmt.simps by (intro keeps_around keeps_before keeps_block_tail)
  next
    case (StFor v lo hi invs b sp par reds)
    have "keeps C f" if "f \<in> set (map (format_stmt F C (d + 1)) b)" for f
      using that by (rule body) (auto simp: StFor dest: elem_size)
    then show ?thesis unfolding StFor format_stmt.simps by (intro keeps_around keeps_before keeps_block_tail)
  next
    case (StForIter v xs consumes b sp)
    have "keeps C f" if "f \<in> set (map (format_stmt F C (d + 1)) b)" for f
      using that by (rule body) (auto simp: StForIter dest: elem_size)
    then show ?thesis unfolding StForIter format_stmt.simps by (intro keeps_around keeps_before keeps_block_tail)
  next
    case (StTaskSpawn name b sp)
    have "keeps C f" if "f \<in> set (map (format_stmt F C (d + 1)) b)" for f
      using that by (rule body) (auto simp: StTaskSpawn dest: elem_size)
    then show ?thesis unfolding StTaskSpawn format_stmt.simps by (intro keeps_around keeps_before keeps_block_tail)
  qed (simp_all only: format_stmt.simps keeps_around keeps_emit)
qed

lemma keeps_function: "keeps C (format_function F C f)"
proof -
  have eq: "format_function F C f = (\<lambda>st. if f_is_extern f then emit (line (line (signature f @ '';''))) st
     else emit (line ''}'') (drain_to C (s_end (f_span f)) 1 (in_order (map (format_stmt F C 1) (f_body f)) (emit
       (signature f @ where_text (f_where_clauses f) @ (if f_requires f = [] \<and> f_ensures f = [] then line '' {''
          else line [] @ clause_lines 0 ''requires '' (map (\<lambda>e. format_expr F e False) (f_requires f)) @
               clause_lines 0 ''ensures '' (map (\<lambda>e. format_expr F e False) (f_ensures f)) @ line ''{'')) st))))"
    by (rule ext) (simp add: format_function_def Let_def)
  show ?thesis unfolding eq
    by (intro keeps_if keeps_emit keeps_comp[OF _ keeps_emit] keeps_comp[OF _ keeps_drain_to[OF tidy]] keeps_before keeps_in_order)
      (auto intro: keeps_stmt)
qed

lemma keeps_in_sub:
  assumes "keeps C f"
  shows "keeps C (in_sub f)"
proof (unfold keeps_def, intro allI)
  fix st :: fmt_state
  obtain cur out where st: "st = (cur, out)" by (cases st)
  obtain cur' sub where f: "f (cur, []) = (cur', sub)" by (cases "f (cur, [])")
  have "kept C (cur, []) (cur', sub)" using keepsD[OF assms, of "(cur, [])"] f by simp
  then obtain cs where cs: "drop cur (fx_comments C) = cs @ drop cur' (fx_comments C)"
    and "\<forall>ts. (\<forall>t\<in>set ts. tidy t) \<longrightarrow> carries ts [] \<longrightarrow> carries (ts @ map note_of cs) sub"
    unfolding kept_def fst_conv snd_conv by blast
  from this(2)[rule_format, of "[]"] have sub: "carries (map note_of cs) sub" by simp
  have "set cs \<subseteq> set (fx_comments C)" using cs by (metis set_append set_drop_subset sup.bounded_iff)
  then have "carries (map note_of cs) (reindent sub)"
    using sub tidy by (intro carries_reindent) (auto simp: tidy_comments_def)
  then show "kept C st (in_sub f st)"
    using cs f by (auto simp: st kept_def in_sub_def carries_append intro!: exI[of _ cs])
qed

lemma keeps_fn_members: "keeps C (fn_members F C fs)"
  unfolding fn_members_def
  by (intro keeps_comp[OF _ keeps_emit] keeps_separated) (auto intro: keeps_in_sub keeps_function)

lemma keeps_items:
  "keeps C (format_struct_decl s)" "keeps C (format_enum_decl e)" "keeps C (format_interface_decl d)"
  "keeps C (format_const_decl F c)" "keeps C (format_type_alias a)"
  "keeps C (format_methods_block F C m)" "keeps C (format_impl_decl F C i)"
  unfolding format_struct_decl_def format_enum_decl_def format_interface_decl_def format_const_decl_def
    format_type_alias_def format_methods_block_def format_impl_decl_def
  by (intro keeps_emit keeps_before keeps_fn_members)+

lemma keeps_with_vis:
  assumes "\<And>x. x \<in> set xs \<Longrightarrow> keeps C (snd (mk x))" and "y \<in> set (with_vis vs mk xs)"
  shows "keeps C (snd y)"
proof -
  from assms(2) obtain i x where x: "(i, x) \<in> set (List.enumerate 0 xs)"
    and y: "snd y = (\<lambda>st. snd (mk x) (emit (vis_marker (vis_at vs i)) st))"
    by (auto simp: with_vis_def case_prod_beta)
  from x have "x \<in> set xs" by (auto simp: in_set_enumerate_eq)
  then show ?thesis unfolding y by (intro keeps_before assms(1))
qed

lemma keeps_placed_items: "y \<in> set (placed_items F C it v) \<Longrightarrow> keeps C (snd y)"
  unfolding placed_items_def by (auto elim!: keeps_with_vis[rotated] intro: keeps_items keeps_function)

lemma keeps_by_position: "(\<And>y. y \<in> set xs \<Longrightarrow> keeps C (snd y)) \<Longrightarrow> f \<in> set (by_position xs) \<Longrightarrow> keeps C f"
  by (auto simp: by_position_def)

lemma keeps_module: "keeps C (format_module_decl F C m w)"
proof (induction m arbitrary: w)
  case (ModuleDecl name nsp it ms v sp)
  define subs where "subs = map (\<lambda>(i, pos, step). (pos, step (vis_at (v_modules v) i)))
    (List.enumerate 0 (map (\<lambda>m. (s_start (md_span m), \<lambda>w st. format_module_decl F C m w st)) ms))"
  define steps where "steps = by_position (placed_items F C it v @ map placed_use (it_use_paths it) @ subs)"
  have sub: "keeps C (snd y)" if y: "y \<in> set subs" for y
  proof -
    from y obtain i m where "i < length ms" "m = ms ! i" "snd y = format_module_decl F C m (vis_at (v_modules v) i)"
      by (auto simp: subs_def in_set_enumerate_eq)
    then show ?thesis using ModuleDecl.IH by simp
  qed
  have use: "keeps C (snd (placed_use u))" for u by (simp add: placed_use_def keeps_emit)
  have "keeps C f" if "f \<in> set steps" for f
    using that unfolding steps_def by (rule keeps_by_position[rotated]) (auto intro: keeps_placed_items sub use)
  then have "keeps C (separated (map in_sub steps))" by (intro keeps_separated) (auto intro: keeps_in_sub)
  moreover have "format_module_decl F C (ModuleDecl name nsp it ms v sp) w = (\<lambda>st. emit (line ''}'')
      (separated (map in_sub steps) (emit (vis_marker w @ line (''module '' @ name @ '' {'')) st)))"
    by (rule ext) (simp add: subs_def steps_def)
  ultimately show ?case by (simp only: keeps_comp[OF _ keeps_emit] keeps_before)
qed

lemma keeps_at_top: "keeps C f \<Longrightarrow> keeps C (\<lambda>st. f (before C sp st))"
  unfolding before_def
  by (intro keeps_comp[OF keeps_comp[OF keeps_drain_to[OF tidy] keeps_blank]])

lemma keeps_one_line: "keeps C (one_line_item C sp t)"
  unfolding one_line_item_def
  by (intro keeps_comp[OF _ keeps_trailing[OF tidy]] keeps_at_top keeps_emit)

lemma keeps_group: "(\<And>f. f \<in> set fs \<Longrightarrow> keeps C f) \<Longrightarrow> keeps C (group fs)"
  unfolding group_def by (intro keeps_if keeps_id keeps_comp[OF _ keeps_emit] keeps_in_order)

lemma keeps_top_items: "y \<in> set (top_items F C p) \<Longrightarrow> keeps C (snd y)"
  unfolding top_items_def Let_def
  by (auto intro!: keeps_at_top keeps_items keeps_function keeps_module)

lemma kept_drain_remaining:
  "drop (fst st) (fx_comments C) = cs \<Longrightarrow>
     kept C st (fold (comment_line C False 0) cs st) \<and> drop (fst (fold (comment_line C False 0) cs st)) (fx_comments C) = []"
proof (induction cs arbitrary: st)
  case (Cons c cs)
  let ?st = "comment_line C False 0 c st"
  have "drop (fst ?st) (fx_comments C) = cs"
    using Cons.prems drop_Suc_rest by (cases st) (auto simp: comment_line_def)
  with Cons.IH have rest: "kept C ?st (fold (comment_line C False 0) cs ?st)"
    "drop (fst (fold (comment_line C False 0) cs ?st)) (fx_comments C) = []" by blast+
  have "kept C st (fold (comment_line C False 0) cs ?st)"
    by (rule kept_trans[OF tidy kept_comment_line[OF Cons.prems] rest(1)])
  then show ?case using rest(2) by simp
qed (simp add: kept_refl)

end

text \<open>The comments of the scan are tidy.\<close>

lemma drop_white_done: "find (\<lambda>w. w \<noteq> [] \<and> take (length w) (drop_white ws s) = w) ws = None"
proof (induction ws s rule: drop_white.induct)
  case (1 ws s)
  then show ?case by (cases "find (\<lambda>w. w \<noteq> [] \<and> take (length w) s = w) ws") (simp_all add: drop_white.simps[of ws s])
qed

lemma drop_white_subset: "set (drop_white ws s) \<subseteq> set s"
proof (induction ws s rule: drop_white.induct)
  case (1 ws s)
  then show ?case
    by (cases "find (\<lambda>w. w \<noteq> [] \<and> take (length w) s = w) ws")
      (use set_drop_subset in \<open>fastforce simp: drop_white.simps[of ws s]\<close>)+
qed

lemma trim_end_tidy: "newline_char \<notin> set t \<Longrightarrow> tidy (trim_end t)"
proof -
  assume t: "newline_char \<notin> set t"
  let ?s = "drop_white (map rev white_space) (rev t)"
  have "[CHR 0x0D] \<in> set (map rev white_space)" by (simp add: white_space_def)
  then have "take 1 ?s \<noteq> [CHR 0x0D]"
    using drop_white_done[of "map rev white_space" "rev t"] by (auto simp: find_None_iff)
  then have "trim_end t = [] \<or> last (trim_end t) \<noteq> CHR 0x0D"
    unfolding trim_end_def by (cases ?s) auto
  moreover have "newline_char \<notin> set (trim_end t)"
    using t drop_white_subset[of "map rev white_space" "rev t"] by (auto simp: trim_end_def)
  ultimately show ?thesis by (simp add: tidy_def)
qed

lemma skip_while_all: "\<forall>x\<in>set (take (skip_while P src i - i) (drop i src)). P x"
proof (induction P src i rule: skip_while.induct)
  case (1 P src i)
  show ?case
  proof (cases "i < length src \<and> P (src ! i)")
    case True
    then have eq: "skip_while P src i = skip_while P src (Suc i)" by (simp add: skip_while.simps[of P src i])
    have n: "skip_while P src (Suc i) - i = Suc (skip_while P src (Suc i) - Suc i)"
      using skip_while_ge[of "Suc i" P src] by linarith
    show ?thesis unfolding eq n Cons_nth_drop_Suc[OF conjunct1[OF True], symmetric] using 1 True by simp
  next
    case False
    then have "skip_while P src i = i" by (simp only: skip_while.simps[of P src i] if_False)
    then show ?thesis by simp
  qed
qed

lemma extract_from_newline: "\<forall>c\<in>set (extract_from src i). newline_char \<notin> set (cm_text c)"
proof (induction src i rule: extract_from.induct)
  case (1 src i)
  let ?j = "skip_while (\<lambda>c. c \<noteq> newline_char) src i"
  have "newline_char \<notin> set (take (?j - i) (drop i src))" using skip_while_all[of "\<lambda>c. c \<noteq> newline_char" src i] by blast
  then have line: "newline_char \<notin> set (utf8_or_empty (take (?j - i) (drop i src)))" by (simp add: utf8_or_empty_def)
  show ?case
  proof (cases "length src \<le> i")
    case True
    then show ?thesis by (simp add: extract_from.simps[of src i])
  next
    case inside: False
    show ?thesis
    proof (cases "src ! i = CHR 0x22")
      case True
      have "extract_from src i = extract_from src (skip_string src (i + 1))"
        using inside True by (simp add: extract_from.simps[of src i])
      then show ?thesis using 1(1)[OF inside True] by (simp only:)
    next
      case no_quote: False
      show ?thesis
      proof (cases "src ! i = CHR ''/'' \<and> i + 1 < length src \<and> src ! (i + 1) = CHR ''/''")
        case True
        have "extract_from src i = \<lparr>cm_text = utf8_or_empty (take (?j - i) (drop i src)), cm_span = span_new i ?j\<rparr> # extract_from src ?j"
          using inside no_quote True by (simp add: extract_from.simps[of src i] Let_def)
        then show ?thesis using 1(2)[OF inside no_quote True refl] line by simp
      next
        case False
        have "extract_from src i = extract_from src (i + 1)"
          using inside no_quote False unfolding extract_from.simps[of src i] by (simp only: if_False)
        then show ?thesis using 1(3)[OF inside no_quote False] by (simp only:)
      qed
    qed
  qed
qed

interpretation scanned: tidy_run "\<lparr>fx_source = src, fx_comments = extract_comments src\<rparr>" for src
  by unfold_locales
    (auto simp: tidy_comments_def note_of_def extract_comments_def intro!: trim_end_tidy extract_from_newline[THEN bspec])

section \<open>Comments\<close>

text \<open>
  C24. The formatter keeps every comment: whatever the program and its positions are, the text it
  writes contains the comments of the source, each without the blanks behind it, one after the other in
  the order of the source.
\<close>

theorem formatter_keeps_comments:
  "carries (map (\<lambda>c. trim_end (cm_text c)) (extract_comments src))
     (format_program_with_comments F p src (extract_comments src))"
proof -
  let ?C = "\<lparr>fx_source = src, fx_comments = extract_comments src\<rparr>"
  let ?uses = "group (map (\<lambda>u. one_line_item ?C (us_span u) (line (''use '' @ in_quotes (escape_string (us_path u)) @ '';''))) (pg_uses p))"
  let ?paths = "group (map (\<lambda>u. one_line_item ?C (up_span u) (format_use_path u)) (it_use_paths (pg_items p)))"
  let ?intents = "group (map (\<lambda>i. one_line_item ?C (in_span i) (line (''intent '' @ in_quotes (escape_string (in_text i)) @ '';''))) (pg_intents p))"
  let ?items = "separated (by_position (top_items F ?C p))"
  have u: "keeps ?C ?uses" by (rule scanned.keeps_group) (auto intro: scanned.keeps_one_line)
  have p: "keeps ?C ?paths" by (rule scanned.keeps_group) (auto intro: scanned.keeps_one_line)
  have i: "keeps ?C ?intents" by (rule scanned.keeps_group) (auto intro: scanned.keeps_one_line)
  have t: "keeps ?C ?items"
    by (rule scanned.keeps_separated, erule scanned.keeps_by_position[rotated], erule scanned.keeps_top_items)
  define st where "st = ?items (?intents (?paths (?uses (0, []))))"
  have "kept ?C (0, []) st"
    unfolding st_def by (rule keepsD[OF scanned.keeps_comp[OF scanned.keeps_comp[OF scanned.keeps_comp[OF u p] i] t]])
  then have "kept ?C (0, []) (drain_remaining ?C st)" and ends: "drop (fst (drain_remaining ?C st)) (fx_comments ?C) = []"
    using scanned.kept_drain_remaining[where st = st and src = src, OF refl] unfolding drain_remaining_def
    by (blast intro: kept_trans[OF scanned.tidy])+
  then obtain cs where cs: "fx_comments ?C = cs @ []"
    "\<forall>ts. (\<forall>t\<in>set ts. tidy t) \<longrightarrow> carries ts [] \<longrightarrow> carries (ts @ map note_of cs) (snd (drain_remaining ?C st))"
    unfolding kept_def fst_conv snd_conv ends drop_0 by blast
  from cs(2)[rule_format, of "[]"] have "carries (map note_of (fx_comments ?C)) (snd (drain_remaining ?C st))"
    unfolding cs(1) by simp
  then show ?thesis by (simp add: note_of_def[abs_def] format_program_with_comments_def st_def Let_def)
qed

section \<open>Strings\<close>

lemma peek_drop: "drop pos src = t \<Longrightarrow> pos \<le> length src \<Longrightarrow> peek src (pos + k) = (if k < length t then Some (t ! k) else None)"
  by (auto simp: peek_def nth_append)

lemma step_escaped:
  assumes d: "drop pos src = CHR 0x5C # e # t" and "escape_char e = Some c"
  shows "string_step src start pos = Inr (Some (2, [c]))"
proof -
  have "pos \<le> length src" using d by (cases "pos \<le> length src") auto
  then show ?thesis using assms peek_drop[OF d, of 0] peek_drop[OF d, of 1] by (simp add: string_step_def)
qed

lemma step_plain:
  assumes d: "drop pos src = c # t" and c: "escape_byte c = [c]" "0 < utf8_len c"
  shows "string_step src start pos = Inr (Some (utf8_len c, take (utf8_len c) (c # t)))"
proof -
  have p: "pos < length src" using d by (cases "pos < length src") auto
  then have n: "src ! pos = c" using d by (metis hd_drop_conv_nth list.sel(1))
  have "c \<noteq> CHR 0x22" "c \<noteq> CHR 0x5C" "c \<noteq> newline_char" using c(1) by (auto simp: escape_byte_def split: if_splits)
  moreover have "is_char_boundary src pos" using n p c(2) by (auto simp: is_char_boundary_def)
  moreover have "max 1 (utf8_len c) = utf8_len c" using c(2) by simp
  ultimately show ?thesis using n p d by (simp add: string_step_def peek_def Let_def)
qed

lemma step_quote: "drop pos src = CHR 0x22 # t \<Longrightarrow> string_step src start pos = Inr None"
  using peek_drop[of pos src "CHR 0x22 # t" 0] by (cases "pos \<le> length src") (auto simp: string_step_def)

text \<open>A byte that is escaped is one that an escape stands for.\<close>

lemma escape_byte_cases:
  obtains "escape_byte c = [c]" | e where "escape_byte c = [CHR 0x5C, e]" "escape_char e = Some c" "ascii c"
proof (cases "c \<in> {CHR 0x5C, CHR 0x22, newline_char, CHR 0x09, CHR 0x0D, CHR 0x00}")
  case True
  then show ?thesis by (auto simp: escape_byte_def escape_char_def ascii_def intro: that(2))
next
  case False
  then show ?thesis by (intro that(1)) (simp add: escape_byte_def)
qed

lemma escape_conts: "list_all cont_byte t \<Longrightarrow> escape_string (t @ u) = t @ escape_string u"
proof (induction t)
  case (Cons c t)
  then have "escape_byte c = [c]" by (cases rule: escape_byte_cases[of c]) (auto dest: cont_not_ascii)
  then show ?case using Cons by (simp add: escape_string_def)
qed simp

lemma escaped_read_back:
  "valid_utf8 s \<Longrightarrow> drop pos src = escape_string s @ CHR 0x22 # rest \<Longrightarrow>
    lex_string_from src start pos val =
      Inr (tok (TkStr (val @ s)) start (pos + length (escape_string s) + 1), pos + length (escape_string s) + 1)"
proof (induction s arbitrary: pos val rule: valid_utf8.induct)
  case 1
  then have "string_step src start pos = Inr None" by (intro step_quote) (simp add: escape_string_def)
  then show ?case by (simp add: lex_string_from.simps[of src start pos val] escape_string_def)
next
  case (2 c cs)
  have d: "drop pos src = escape_byte c @ escape_string cs @ CHR 0x22 # rest" using 2(3) by (simp add: escape_string_def)
  show ?case
  proof (cases rule: escape_byte_cases[of c])
    case (2 e)
    have "drop (pos + 2) src = drop 2 (drop pos src)" by (simp add: add.commute)
    then have "drop (pos + 2) src = escape_string cs @ CHR 0x22 # rest" using d 2(1) by simp
    moreover have "utf8_len c - 1 = 0" "valid_utf8 cs" using 2(3) \<open>valid_utf8 (c # cs)\<close> by auto
    moreover have "string_step src start pos = Inr (Some (2, [c]))"
      using d 2 by (intro step_escaped) auto
    ultimately show ?thesis using "2.IH"[OF refl, of "pos + 2" "val @ [c]"] 2(1)
      by (simp add: lex_string_from.simps[of src start pos val] escape_string_def)
  next
    case 1
    define n where "n = utf8_len c - 1"
    have v: "n \<le> length cs" "list_all cont_byte (take n cs)" "valid_utf8 (drop n cs)" "utf8_len c = Suc n"
      using 2(2) by (auto simp: n_def Let_def)
    have cs: "escape_string cs = take n cs @ escape_string (drop n cs)" using escape_conts[OF v(2), of "drop n cs"] by simp
    have d': "drop pos src = c # take n cs @ escape_string (drop n cs) @ CHR 0x22 # rest" using d 1 cs by simp
    have "string_step src start pos = Inr (Some (Suc n, c # take n cs))"
      using step_plain[OF d' 1, of start] v by simp
    moreover have "drop (pos + Suc n) src = escape_string (drop n cs) @ CHR 0x22 # rest"
    proof -
      have "drop (pos + Suc n) src = drop (Suc n) (drop pos src)" by (simp add: add.commute)
      then show ?thesis using d' v(1) by simp
    qed
    ultimately show ?thesis using 2(1)[of "Suc n" "pos + Suc n" "val @ c # take n cs"] v 1 cs
      by (simp add: lex_string_from.simps[of src start pos val] escape_string_def add.assoc)
  qed
qed

text \<open>
  C25. The text the formatter writes for an expression that is a string literal is read by the lexer,
  wherever it stands in a source, as one token that ends at the closing quote and whose value is that
  string, quotes, backslashes, control characters and characters of several bytes included. The
  strings of match patterns are not written this way.
\<close>

theorem string_literals_read_back:
  assumes "valid_utf8 s"
  shows "lex_string (pre @ format_expr F (Expr (KStr s) sp) b @ rest) (length pre) (length pre + 1) =
     (let stop = length pre + length (format_expr F (Expr (KStr s) sp) b) in Inr (tok (TkStr s) (length pre) stop, stop))"
  using escaped_read_back[OF assms, of "length pre + 1" "pre @ in_quotes (escape_string s) @ rest" rest "length pre" "[]"]
  by (simp add: lex_string_def in_quotes_def)

theorem string_literals_read_back_witness:
  "\<forall>F sp b. lex_string (''x = '' @ format_expr F (Expr (KStr [CHR 0x5C, CHR 0x22, CHR 0x0A, CHR 0xC3, CHR 0xA9]) sp) b @ '';'') 4 5 =
     Inr (tok (TkStr [CHR 0x5C, CHR 0x22, CHR 0x0A, CHR 0xC3, CHR 0xA9]) 4 14, 14)"
proof (intro allI)
  fix F b and sp :: span
  have "valid_utf8 [CHR 0x5C, CHR 0x22, CHR 0x0A, CHR 0xC3, CHR 0xA9]" by (simp add: cont_byte_def utf8_len_def)
  from string_literals_read_back[OF this, of "''x = ''" F sp b "'';''"]
  show "lex_string (''x = '' @ format_expr F (Expr (KStr [CHR 0x5C, CHR 0x22, CHR 0x0A, CHR 0xC3, CHR 0xA9]) sp) b @ '';'') 4 5 =
     Inr (tok (TkStr [CHR 0x5C, CHR 0x22, CHR 0x0A, CHR 0xC3, CHR 0xA9]) 4 14, 14)"
    by (simp add: escape_string_def escape_byte_def in_quotes_def eval_nat_numeral)
qed

section \<open>What printing loses\<close>

text \<open>
  A string in a match pattern is written raw: with a quote in it, the text is read as a token for the
  part before the quote only, and what follows is read as something else, whatever the string and
  wherever it stands. (A part that needs no escapes itself.)
\<close>

lemma pattern_strings_cut:
  assumes "valid_utf8 s" "escape_string s = s"
  shows "lex_string (pre @ fmt_pattern F (PatStr (s @ CHR 0x22 # t)) @ rest) (length pre) (length pre + 1) =
    Inr (tok (TkStr s) (length pre) (length pre + length s + 2), length pre + length s + 2)"
  using escaped_read_back[OF assms(1), of "length pre + 1" "pre @ fmt_pattern F (PatStr (s @ CHR 0x22 # t)) @ rest"
      "t @ CHR 0x22 # rest" "length pre" "[]"] assms(2)
  by (simp add: lex_string_def in_quotes_def fmt_pattern_def)

lemma pattern_strings_cut_example:
  "\<forall>F. lex_string (fmt_pattern F (PatStr [CHR ''a'', CHR 0x22, CHR ''b'']) @ '' then 1'') 0 1 = Inr (tok (TkStr ''a'') 0 3, 3)"
proof
  fix F
  have "valid_utf8 ''a''" "escape_string ''a'' = ''a''" by (simp_all add: escape_string_def escape_byte_def utf8_len_def)
  from pattern_strings_cut[OF this, of "[]" F "''b''" "'' then 1''"]
  show "lex_string (fmt_pattern F (PatStr [CHR ''a'', CHR 0x22, CHR ''b'']) @ '' then 1'') 0 1 = Inr (tok (TkStr ''a'') 0 3, 3)"
    by (simp add: eval_nat_numeral)
qed

text \<open>
  C30. Printing is not one-to-one: an operand before a dot is never put in parentheses, so a method call
  on a negated value and the negation of a method call have the same text, and so have a field of a
  tried call and a tried field, whatever the operand.
\<close>

theorem receivers_lose_parentheses:
  "format_expr F (Expr (KMethodCall (Expr (KUnary UNeg x) s1) m s2 args) s3) b =
     format_expr F (Expr (KUnary UNeg (Expr (KMethodCall x m s2 args) s4)) s5) b \<and>
   format_expr F (Expr (KFieldAccess (Expr (KTry x) s1) f) s3) b =
     format_expr F (Expr (KTry (Expr (KFieldAccess x f) s4)) s5) b"
  by simp

text \<open>
  C31. The formatter writes neither the type parameters of a struct or an enum nor the recursion
  bound of a function: declarations that differ in nothing else have the same text.
\<close>

theorem declarations_lose_parts:
  "format_struct_decl (s\<lparr>sd_type_params := ps\<rparr>) = format_struct_decl s \<and>
   format_enum_decl (e\<lparr>ed_type_params := ps\<rparr>) = format_enum_decl e \<and>
   format_function F C (f\<lparr>f_recursion_bound := b\<rparr>) = format_function F C f"
  by (auto simp: format_struct_decl_def format_enum_decl_def format_function_def signature_def fun_eq_iff)

end
