(* ===== verification/Float64.thy ===== *)
theory Float64
  imports SsaSem Lexer
begin

text \<open>
  The operations on \<open>f64\<close> the checker computes constants with (\<open>src/checker.rs\<close>): a float is its
  64 bits; the arithmetic is exact arithmetic on dyadic numbers, rounded to nearest, ties to even.
  Rust leaves the bits of a NaN that an operation returns open; here it is the canonical one.
\<close>

section \<open>Reading the bits\<close>

definition f64_sign :: "f64 \<Rightarrow> bool" where
  "f64_sign v \<longleftrightarrow> 2 ^ 63 \<le> unat v"

definition f64_magnitude :: "f64 \<Rightarrow> nat" where
  "f64_magnitude v = unat v mod 2 ^ 63"

definition f64_nan :: f64 where
  "f64_nan = 0x7FF8000000000000"

definition f64_is_nan :: "f64 \<Rightarrow> bool" where
  "f64_is_nan v \<longleftrightarrow> 0x7FF0000000000000 < f64_magnitude v"

definition f64_is_infinite :: "f64 \<Rightarrow> bool" where
  "f64_is_infinite v \<longleftrightarrow> f64_magnitude v = 0x7FF0000000000000"

definition f64_is_zero :: "f64 \<Rightarrow> bool" where
  "f64_is_zero v \<longleftrightarrow> f64_magnitude v = 0"

text \<open>The magnitude of a finite value is \<open>f64_mantissa v * 2 ^ f64_exponent v\<close>.\<close>

definition f64_mantissa :: "f64 \<Rightarrow> nat" where
  "f64_mantissa v = f64_magnitude v mod 2 ^ 52 + (if f64_magnitude v < 2 ^ 52 then 0 else 2 ^ 52)"

definition f64_exponent :: "f64 \<Rightarrow> int" where
  "f64_exponent v = int (max 1 (f64_magnitude v div 2 ^ 52)) - 1075"

text \<open>Comparison: the bits of the magnitude are in the order of the values.\<close>

definition f64_key :: "f64 \<Rightarrow> int" where
  "f64_key v = (if f64_sign v then - int (f64_magnitude v) else int (f64_magnitude v))"

definition f64_less :: "f64 \<Rightarrow> f64 \<Rightarrow> bool" where
  "f64_less a b \<longleftrightarrow> \<not> f64_is_nan a \<and> \<not> f64_is_nan b \<and> f64_key a < f64_key b"

definition f64_less_eq :: "f64 \<Rightarrow> f64 \<Rightarrow> bool" where
  "f64_less_eq a b \<longleftrightarrow> \<not> f64_is_nan a \<and> \<not> f64_is_nan b \<and> f64_key a \<le> f64_key b"

definition f64_equal :: "f64 \<Rightarrow> f64 \<Rightarrow> bool" where
  "f64_equal a b \<longleftrightarrow> \<not> f64_is_nan a \<and> \<not> f64_is_nan b \<and> f64_key a = f64_key b"

section \<open>Rounding\<close>

fun bit_len :: "nat \<Rightarrow> nat" where
  "bit_len n = (if n = 0 then 0 else Suc (bit_len (n div 2)))"

declare bit_len.simps [simp del]

text \<open>\<open>num / den\<close> to the nearest integer, ties to even.\<close>

definition round_div :: "nat \<Rightarrow> nat \<Rightarrow> nat" where
  "round_div num den =
     (let q = num div den; r = num mod den in if den < 2 * r \<or> (2 * r = den \<and> odd q) then q + 1 else q)"

text \<open>The exponent of the leading bit of \<open>num / den\<close>.\<close>

definition lead :: "nat \<Rightarrow> nat \<Rightarrow> int" where
  "lead num den =
     (let k = int (bit_len num) - int (bit_len den) in
      if den * 2 ^ nat k \<le> num * 2 ^ nat (- k) then k else k - 1)"

text \<open>\<open>num / den\<close> in units of \<open>2 ^ e\<close>, rounded.\<close>

definition in_units :: "nat \<Rightarrow> nat \<Rightarrow> int \<Rightarrow> nat" where
  "in_units num den e = round_div (num * 2 ^ nat (- e)) (den * 2 ^ nat e)"

text \<open>
  The float with the magnitude \<open>n * 2 ^ e\<close>, where \<open>n\<close> is at most \<open>2 ^ 53\<close>, and at least \<open>2 ^ 52\<close> unless
  \<open>e\<close> is the least exponent: a carry runs into the exponent field.
\<close>

definition f64_pack :: "bool \<Rightarrow> nat \<Rightarrow> int \<Rightarrow> f64" where
  "f64_pack s n e =
     of_nat ((if s then 2 ^ 63 else 0) + (if n = 0 then 0 else min (nat (e + 1074) * 2 ^ 52 + n) 0x7FF0000000000000))"

definition f64_round :: "bool \<Rightarrow> nat \<Rightarrow> nat \<Rightarrow> f64" where
  "f64_round s num den =
     (if num = 0 then f64_pack s 0 0
      else let e = max (lead num den) (- 1022) - 52 in f64_pack s (in_units num den e) e)"

text \<open>A dyadic number \<open>m * 2 ^ e\<close>.\<close>

definition f64_of_dyadic :: "bool \<Rightarrow> nat \<Rightarrow> int \<Rightarrow> f64" where
  "f64_of_dyadic s m e = f64_round s (m * 2 ^ nat e) (2 ^ nat (- e))"

section \<open>Conversions\<close>

text \<open>\<open>value as f64\<close> for an integer, and \<open>value.trunc() as i128\<close> for a finite float in range.\<close>

definition f64_of_int :: "int \<Rightarrow> f64" where
  "f64_of_int v = f64_round (v < 0) (nat \<bar>v\<bar>) 1"

definition f64_truncate :: "f64 \<Rightarrow> int" where
  "f64_truncate v =
     (let n = int (f64_mantissa v * 2 ^ nat (f64_exponent v) div 2 ^ nat (- f64_exponent v)) in if f64_sign v then - n else n)"

text \<open>\<open>(value as f32) as f64\<close>.\<close>

definition f64_narrow :: "f64 \<Rightarrow> f64" where
  "f64_narrow v =
     (if \<not> f64_is_finite v \<or> f64_is_zero v then v
      else
        let num = f64_mantissa v * 2 ^ nat (f64_exponent v); den = 2 ^ nat (- f64_exponent v);
            e = max (lead num den) (- 126) - 23; n = in_units num den e in
        if 2 ^ 128 \<le> n * 2 ^ nat e then of_nat ((if f64_sign v then 2 ^ 63 else 0) + 0x7FF0000000000000)
        else f64_of_dyadic (f64_sign v) n e)"

section \<open>Arithmetic\<close>

text \<open>A finite value as an integer in units of \<open>2 ^ e\<close>, \<open>e\<close> at most its own exponent.\<close>

definition f64_scaled :: "f64 \<Rightarrow> int \<Rightarrow> int" where
  "f64_scaled v e = (if f64_sign v then -1 else 1) * int (f64_mantissa v * 2 ^ nat (f64_exponent v - e))"

definition f64_add :: "f64 \<Rightarrow> f64 \<Rightarrow> f64" where
  "f64_add a b =
     (if f64_is_nan a \<or> f64_is_nan b then f64_nan
      else if f64_is_infinite a then (if f64_is_infinite b \<and> f64_sign a \<noteq> f64_sign b then f64_nan else a)
      else if f64_is_infinite b then b
      else
        let e = min (f64_exponent a) (f64_exponent b); t = f64_scaled a e + f64_scaled b e in
        if t = 0 then f64_pack (f64_sign a \<and> f64_sign b) 0 0 else f64_of_dyadic (t < 0) (nat \<bar>t\<bar>) e)"

definition f64_sub :: "f64 \<Rightarrow> f64 \<Rightarrow> f64" where
  "f64_sub a b = f64_add a (f64_neg b)"

definition f64_infinity :: "bool \<Rightarrow> f64" where
  "f64_infinity s = of_nat ((if s then 2 ^ 63 else 0) + 0x7FF0000000000000)"

definition f64_mul :: "f64 \<Rightarrow> f64 \<Rightarrow> f64" where
  "f64_mul a b =
     (let s = (f64_sign a \<noteq> f64_sign b) in
      if f64_is_nan a \<or> f64_is_nan b then f64_nan
      else if f64_is_infinite a \<or> f64_is_infinite b then
        (if f64_is_zero a \<or> f64_is_zero b then f64_nan else f64_infinity s)
      else f64_of_dyadic s (f64_mantissa a * f64_mantissa b) (f64_exponent a + f64_exponent b))"

definition f64_div :: "f64 \<Rightarrow> f64 \<Rightarrow> f64" where
  "f64_div a b =
     (let s = (f64_sign a \<noteq> f64_sign b); e = f64_exponent a - f64_exponent b in
      if f64_is_nan a \<or> f64_is_nan b then f64_nan
      else if f64_is_infinite a then (if f64_is_infinite b then f64_nan else f64_infinity s)
      else if f64_is_infinite b then f64_pack s 0 0
      else if f64_is_zero b then (if f64_is_zero a then f64_nan else f64_infinity s)
      else f64_round s (f64_mantissa a * 2 ^ nat e) (f64_mantissa b * 2 ^ nat (- e)))"

end
