(* ===== verification/SmtEncode.thy ===== *)
theory SmtEncode
  imports Format Float64
begin

text \<open>
  The verification conditions (\<open>build_query\<close>, \<open>encode_expr\<close> and their helpers in \<open>src/smt.rs\<close>): a claim,
  what it may assume and the variables in scope become a script for an SMT solver, a string. An
  expression the encoder refuses is an error with its reason. How a float is displayed is the argument \<open>disp\<close>.
\<close>

type_synonym var_types = "string \<rightharpoonup> ty"
type_synonym versions = "string \<rightharpoonup> nat"
type_synonym encoded = "(string, string) res"

definition unsupported :: "string \<Rightarrow> encoded" where
  "unsupported reason = Inl (Fail reason)"

section \<open>Sorts and names\<close>

fun int_bits :: "ty \<Rightarrow> nat option" where
  "int_bits TI8 = Some 8" | "int_bits TU8 = Some 8"
| "int_bits TI16 = Some 16" | "int_bits TU16 = Some 16"
| "int_bits TI32 = Some 32" | "int_bits TU32 = Some 32"
| "int_bits TI64 = Some 64" | "int_bits TU64 = Some 64"
| "int_bits _ = None"

definition bits_or_64 :: "ty \<Rightarrow> nat" where
  "bits_or_64 t = (case int_bits t of Some w \<Rightarrow> w | None \<Rightarrow> 64)"

definition bv_sort :: "nat \<Rightarrow> string" where
  "bv_sort w = ''(_ BitVec '' @ show_nat w @ '')''"

definition int_bv_sort :: "ty \<Rightarrow> string option" where
  "int_bv_sort t = map_option bv_sort (int_bits t)"

definition is_signed_int :: "ty \<Rightarrow> bool" where
  "is_signed_int t \<longleftrightarrow> t \<in> {TI8, TI16, TI32, TI64}"

definition fp_sort :: "ty \<Rightarrow> string option" where
  "fp_sort t = (case t of TF32 \<Rightarrow> Some ''(_ FloatingPoint 8 24)'' | TF64 \<Rightarrow> Some ''(_ FloatingPoint 11 53)'' | _ \<Rightarrow> None)"

definition to_fp :: "ty \<Rightarrow> string option" where
  "to_fp t = (case t of TF32 \<Rightarrow> Some ''(_ to_fp 8 24)'' | TF64 \<Rightarrow> Some ''(_ to_fp 11 53)'' | _ \<Rightarrow> None)"

definition fp_to_fp :: "ty \<Rightarrow> string option" where
  "fp_to_fp t = (case t of TF32 \<Rightarrow> Some ''(_ to_fp 8 24)'' | TF64 \<Rightarrow> Some ''(_ to_fp 11 53)'' | _ \<Rightarrow> None)"

definition is_alnum_char :: "char \<Rightarrow> bool" where
  "is_alnum_char c \<longleftrightarrow> is_digit_char c \<or> (65 \<le> byte c \<and> byte c \<le> 90) \<or> (97 \<le> byte c \<and> byte c \<le> 122)"

definition sanitize :: "string \<Rightarrow> string" where
  "sanitize name = ''v_'' @ map (\<lambda>ch. if length ch = 1 \<and> is_alnum_char (hd ch) then hd ch else CHR ''_'') (chars name)"

text \<open>The two's complement bits of a literal.\<close>

definition encode_int_literal_bv :: "int \<Rightarrow> nat \<Rightarrow> string" where
  "encode_int_literal_bv v w = ''(_ bv'' @ show_nat (nat (v mod 2 ^ min w 128)) @ '' '' @ show_nat w @ '')''"

definition supported_sort :: "ty \<Rightarrow> bool" where
  "supported_sort t \<longleftrightarrow> is_integer t \<or> is_float t \<or> t = TBool"

definition sequence_element :: "ty \<Rightarrow> ty option" where
  "sequence_element t = (case t of TVec e \<Rightarrow> Some e | TArray e n \<Rightarrow> Some e | _ \<Rightarrow> None)"

definition smt_array_element :: "ty \<Rightarrow> ty option" where
  "smt_array_element t = (case sequence_element (deref t) of
     Some e \<Rightarrow> if is_integer e \<or> e = TBool \<or> is_float e then Some e else None
   | None \<Rightarrow> None)"

text \<open>\<open>str::parse\<close> for an unsigned type: a plus sign is accepted.\<close>

definition parse_unsigned :: "nat \<Rightarrow> nat \<Rightarrow> string \<Rightarrow> nat option" where
  "parse_unsigned radix limit s =
     (let digits = (case s of c # cs \<Rightarrow> if c = CHR ''+'' then cs else s | [] \<Rightarrow> []) in
      if digits = [] then None
      else case digits_value radix 0 digits of Some n \<Rightarrow> if n \<le> limit then Some n else None | None \<Rightarrow> None)"

definition hash_char :: char where "hash_char = CHR 0x23"

text \<open>\<open>xs#3\<close> is the third version of \<open>xs\<close>.\<close>

definition parse_versioned_name :: "string \<Rightarrow> string \<times> nat option" where
  "parse_versioned_name s =
     (if hash_char \<in> set s then
        (let ver = rev (takeWhile (\<lambda>c. c \<noteq> hash_char) (rev s)); base = take (length s - length ver - 1) s in
         case parse_unsigned 10 4294967295 ver of Some v \<Rightarrow> (base, Some v) | None \<Rightarrow> (s, None))
      else (s, None))"

definition base_name :: "string \<Rightarrow> string" where
  "base_name s = fst (parse_versioned_name s)"

definition version_of :: "versions \<Rightarrow> string \<Rightarrow> nat" where
  "version_of versions name = (case versions name of Some v \<Rightarrow> v | None \<Rightarrow> 0)"

definition array_name :: "string \<Rightarrow> nat \<Rightarrow> string" where
  "array_name base v = ''arr_'' @ sanitize base @ ''_v'' @ show_nat v"

definition smt_array_name_for :: "string \<Rightarrow> versions \<Rightarrow> string \<times> nat" where
  "smt_array_name_for name versions =
     (case parse_versioned_name name of (base, explicit) \<Rightarrow>
        let v = (case explicit of Some v \<Rightarrow> v | None \<Rightarrow> version_of versions base) in (array_name base v, v))"

section \<open>Types of expressions, as far as they show\<close>

fun var_of :: "expr \<Rightarrow> string option" where
  "var_of (Expr k sp) = (case k of KVar name \<Rightarrow> Some name | _ \<Rightarrow> None)"

definition typed_var :: "(ty \<Rightarrow> bool) \<Rightarrow> var_types \<Rightarrow> string \<Rightarrow> ty option" where
  "typed_var P vars name = Option.bind (vars (base_name name)) (\<lambda>t. if P t then Some t else None)"

definition element_of :: "var_types \<Rightarrow> expr \<Rightarrow> ty option" where
  "element_of vars array = Option.bind (var_of array) (\<lambda>name. Option.bind (vars (base_name name)) smt_array_element)"

definition or_if_none :: "'a option \<Rightarrow> 'a option \<Rightarrow> 'a option" where
  "or_if_none x y = (case x of Some v \<Rightarrow> Some v | None \<Rightarrow> y)"

definition only_if :: "('a \<Rightarrow> bool) \<Rightarrow> 'a option \<Rightarrow> 'a option" where
  "only_if P x = (case x of Some v \<Rightarrow> if P v then Some v else None | None \<Rightarrow> None)"

fun infer_int_type :: "expr \<Rightarrow> var_types \<Rightarrow> ty option" where
  "infer_int_type (Expr k sp) vars = (case k of
     KInt v \<Rightarrow> None
   | KVar name \<Rightarrow> typed_var is_integer vars name
   | KCast e t \<Rightarrow> if is_integer t then Some t else None
   | KUnary op e \<Rightarrow> infer_int_type e vars
   | KBinary op l r \<Rightarrow> or_if_none (infer_int_type l vars) (infer_int_type r vars)
   | KLen a \<Rightarrow> Some TU64
   | KIndex a i \<Rightarrow> only_if is_integer (element_of vars a)
   | _ \<Rightarrow> None)"

fun infer_float_type :: "expr \<Rightarrow> var_types \<Rightarrow> ty option" where
  "infer_float_type (Expr k sp) vars = (case k of
     KVar name \<Rightarrow> typed_var is_float vars name
   | KCast e t \<Rightarrow> if is_float t then Some t else None
   | KIndex a i \<Rightarrow> only_if is_float (element_of vars a)
   | KUnary op e \<Rightarrow> infer_float_type e vars
   | KBinary op l r \<Rightarrow> or_if_none (infer_float_type l vars) (infer_float_type r vars)
   | _ \<Rightarrow> None)"

fun infer_is_float :: "expr \<Rightarrow> var_types \<Rightarrow> bool" where
  "infer_is_float (Expr k sp) vars = (case k of
     KFloat v \<Rightarrow> True
   | KVar name \<Rightarrow> typed_var is_float vars name \<noteq> None
   | KCast e t \<Rightarrow> is_float t
   | KUnary op e \<Rightarrow> infer_is_float e vars
   | KBinary op l r \<Rightarrow> infer_is_float l vars \<or> infer_is_float r vars
   | KIndex a i \<Rightarrow> (case element_of vars a of Some t \<Rightarrow> is_float t | None \<Rightarrow> False)
   | _ \<Rightarrow> False)"

fun infer_scrutinee_int_type :: "expr \<Rightarrow> var_types \<Rightarrow> ty option" where
  "infer_scrutinee_int_type (Expr k sp) vars = (case k of
     KVar name \<Rightarrow> only_if (\<lambda>t. int_bits t \<noteq> None) (vars name)
   | KInt v \<Rightarrow> Some TI64
   | _ \<Rightarrow> None)"

section \<open>Operators\<close>

definition app2 :: "string \<Rightarrow> string \<Rightarrow> string \<Rightarrow> string" where
  "app2 f l r = ''('' @ f @ '' '' @ l @ '' '' @ r @ '')''"

definition app1 :: "string \<Rightarrow> string \<Rightarrow> string" where
  "app1 f x = ''('' @ f @ '' '' @ x @ '')''"

fun op_debug :: "binary_op \<Rightarrow> string" where
  "op_debug Add = ''Add''" | "op_debug Sub = ''Sub''" | "op_debug Mul = ''Mul''" | "op_debug Div = ''Div''"
| "op_debug Rem = ''Rem''" | "op_debug Shl = ''Shl''" | "op_debug Shr = ''Shr''" | "op_debug BitAnd = ''BitAnd''"
| "op_debug BitOr = ''BitOr''" | "op_debug BitXor = ''BitXor''" | "op_debug Eq = ''Eq''" | "op_debug Ne = ''Ne''"
| "op_debug Lt = ''Lt''" | "op_debug Le = ''Le''" | "op_debug Gt = ''Gt''" | "op_debug Ge = ''Ge''"
| "op_debug And = ''And''" | "op_debug Or = ''Or''"

definition encode_int_binary :: "binary_op \<Rightarrow> string \<Rightarrow> string \<Rightarrow> bool \<Rightarrow> encoded" where
  "encode_int_binary op l r sgnd = (case op of
     Add \<Rightarrow> Inr (app2 ''bvadd'' l r)
   | Sub \<Rightarrow> Inr (app2 ''bvsub'' l r)
   | Mul \<Rightarrow> Inr (app2 ''bvmul'' l r)
   | Div \<Rightarrow> Inr (app2 (if sgnd then ''bvsdiv'' else ''bvudiv'') l r)
   | Rem \<Rightarrow> Inr (app2 (if sgnd then ''bvsrem'' else ''bvurem'') l r)
   | Lt \<Rightarrow> Inr (app2 (if sgnd then ''bvslt'' else ''bvult'') l r)
   | Le \<Rightarrow> Inr (app2 (if sgnd then ''bvsle'' else ''bvule'') l r)
   | Gt \<Rightarrow> Inr (app2 (if sgnd then ''bvsgt'' else ''bvugt'') l r)
   | Ge \<Rightarrow> Inr (app2 (if sgnd then ''bvsge'' else ''bvuge'') l r)
   | Eq \<Rightarrow> Inr (app2 ''='' l r)
   | Ne \<Rightarrow> Inr (app2 ''distinct'' l r)
   | BitAnd \<Rightarrow> Inr (app2 ''bvand'' l r)
   | BitOr \<Rightarrow> Inr (app2 ''bvor'' l r)
   | BitXor \<Rightarrow> Inr (app2 ''bvxor'' l r)
   | _ \<Rightarrow> unsupported (''integer operator '' @ op_debug op @ '' not supported in SMT v1 BitVec encoding''))"

definition encode_float_binary :: "binary_op \<Rightarrow> string \<Rightarrow> string \<Rightarrow> encoded" where
  "encode_float_binary op l r = (case op of
     Add \<Rightarrow> Inr (app2 ''fp.add RNE'' l r)
   | Sub \<Rightarrow> Inr (app2 ''fp.sub RNE'' l r)
   | Mul \<Rightarrow> Inr (app2 ''fp.mul RNE'' l r)
   | Div \<Rightarrow> Inr (app2 ''fp.div RNE'' l r)
   | Lt \<Rightarrow> Inr (app2 ''fp.lt'' l r)
   | Le \<Rightarrow> Inr (app2 ''fp.leq'' l r)
   | Gt \<Rightarrow> Inr (app2 ''fp.gt'' l r)
   | Ge \<Rightarrow> Inr (app2 ''fp.geq'' l r)
   | Eq \<Rightarrow> Inr (app2 ''fp.eq'' l r)
   | Ne \<Rightarrow> Inr (app1 ''not'' (app2 ''fp.eq'' l r))
   | _ \<Rightarrow> unsupported (''operator '' @ op_debug op @ '' is not defined on floats''))"

text \<open>An operand as the encoder of its type: the expected integer type is the argument.\<close>

type_synonym encoder = "ty option \<Rightarrow> encoded"

definition encode_float_operand :: "(f64 \<Rightarrow> string) \<Rightarrow> expr \<Rightarrow> ty \<Rightarrow> encoder \<Rightarrow> encoded" where
  "encode_float_operand disp e target enc = (case e of Expr k sp \<Rightarrow> (case k of
     KFloat v \<Rightarrow> (case fp_to_fp target of
         Some constructor \<Rightarrow> Inr (''('' @ constructor @ '' RNE '' @ disp v @ '')'')
       | None \<Rightarrow> unsupported ''target_fp must be F32 or F64'')
   | _ \<Rightarrow> enc None))"

definition extend_by :: "bool \<Rightarrow> nat \<Rightarrow> string \<Rightarrow> string" where
  "extend_by sgnd n x = ''((_ '' @ (if sgnd then ''sign_extend'' else ''zero_extend'') @ '' '' @ show_nat n @ '') '' @ x @ '')''"

definition extract_low :: "nat \<Rightarrow> string \<Rightarrow> string" where
  "extract_low w x = ''((_ extract '' @ show_nat (w - 1) @ '' 0) '' @ x @ '')''"

definition resize :: "nat \<Rightarrow> bool \<Rightarrow> nat \<Rightarrow> string \<Rightarrow> string" where
  "resize w sgnd source_w x =
     (if source_w = w then x else if source_w < w then extend_by sgnd (w - source_w) x else extract_low w x)"

text \<open>The type of the operands of an operator: what shows of the left one, then of the right one.\<close>

definition operand_type :: "var_types \<Rightarrow> expr \<Rightarrow> expr \<Rightarrow> ty" where
  "operand_type vars l r = (case or_if_none (infer_int_type l vars) (infer_int_type r vars) of Some t \<Rightarrow> t | None \<Rightarrow> TI64)"

definition encode_shift :: "var_types \<Rightarrow> binary_op \<Rightarrow> expr \<Rightarrow> expr \<Rightarrow> encoder \<Rightarrow> encoder \<Rightarrow> encoded" where
  "encode_shift vars op l r enc_l enc_r =
     (let op_ty = operand_type vars l r;
          lhs_w = bits_or_64 op_ty;
          rhs_ty = (case infer_int_type r vars of Some t \<Rightarrow> t | None \<Rightarrow> op_ty);
          rhs_w = bits_or_64 rhs_ty in
      bindE (enc_l (Some op_ty)) (\<lambda>x. bindE (enc_r (Some rhs_ty)) (\<lambda>y.
        Inr (app2 (if op = Shl then ''bvshl'' else if is_signed_int op_ty then ''bvashr'' else ''bvlshr'')
               x (resize lhs_w (is_signed_int rhs_ty) rhs_w y)))))"

definition encode_binary :: "(f64 \<Rightarrow> string) \<Rightarrow> var_types \<Rightarrow> binary_op \<Rightarrow> expr \<Rightarrow> expr \<Rightarrow> encoder \<Rightarrow> encoder \<Rightarrow> encoded" where
  "encode_binary disp vars op l r enc_l enc_r =
     (if infer_is_float l vars \<or> infer_is_float r vars then
        (let target = (case or_if_none (infer_float_type l vars) (infer_float_type r vars) of Some t \<Rightarrow> t | None \<Rightarrow> TF64) in
         bindE (encode_float_operand disp l target enc_l) (\<lambda>x.
         bindE (encode_float_operand disp r target enc_r) (\<lambda>y. encode_float_binary op x y)))
      else if op \<in> {Shl, Shr} then encode_shift vars op l r enc_l enc_r
      else
        (let op_ty = operand_type vars l r in
         bindE (enc_l (Some op_ty)) (\<lambda>x. bindE (enc_r (Some op_ty)) (\<lambda>y.
           if op \<in> {And, Or} then Inr (app2 (if op = And then ''and'' else ''or'') x y)
           else encode_int_binary op x y (is_signed_int op_ty)))))"

definition encode_unary :: "var_types \<Rightarrow> unary_op \<Rightarrow> expr \<Rightarrow> encoded \<Rightarrow> encoded" where
  "encode_unary vars op e inner = bindE inner (\<lambda>x. Inr
     (case op of UNeg \<Rightarrow> if infer_is_float e vars then app1 ''fp.neg'' x else app1 ''bvneg'' x | UNot \<Rightarrow> app1 ''not'' x))"

definition encode_cast :: "var_types \<Rightarrow> expr \<Rightarrow> ty \<Rightarrow> encoder \<Rightarrow> encoded" where
  "encode_cast vars e t enc =
     (if is_integer t \<and> infer_is_float e vars then
        bindE (expectE (int_bits t)) (\<lambda>w. bindE (enc None) (\<lambda>x.
          Inr (app2 ((if is_signed_int t then ''(_ fp.to_sbv '' else ''(_ fp.to_ubv '') @ show_nat w @ '')'') ''RNE'' x)))
      else if is_integer t then
        (let source_ty = (case infer_int_type e vars of Some u \<Rightarrow> u | None \<Rightarrow> TI64) in
         bindE (expectE (int_bits t)) (\<lambda>w. bindE (enc (Some source_ty)) (\<lambda>x.
           Inr (resize w (is_signed_int source_ty) (bits_or_64 source_ty) x))))
      else if is_float t \<and> infer_is_float e vars then
        bindE (expectE (to_fp t)) (\<lambda>to. bindE (enc None) (\<lambda>x. Inr (app2 to ''RNE'' x)))
      else if is_float t then
        bindE (enc (infer_int_type e vars)) (\<lambda>x. bindE (expectE (to_fp t)) (\<lambda>to. Inr (app2 to ''RNE'' x)))
      else unsupported (''cast to '' @ show_ty t @ '' not supported in SMT v1''))"

definition tick_quoted :: "string \<Rightarrow> string" where
  "tick_quoted s = [CHR 0x27] @ s @ [CHR 0x27]"

definition encode_var :: "var_types \<Rightarrow> string \<Rightarrow> encoded" where
  "encode_var vars name =
     (if hash_char \<in> set name then unsupported (''versioned name '' @ tick_quoted name @ '' not valid in scalar position'')
      else case vars name of
        None \<Rightarrow> unsupported (''variable '' @ tick_quoted name @ '' is not declared in the SMT context (type may be unsupported)'')
      | Some t \<Rightarrow> if \<not> supported_sort t
          then unsupported (''variable '' @ tick_quoted name @ '' has unsupported type '' @ show_ty t @ '' for SMT'')
          else Inr (sanitize name))"

definition encode_len :: "var_types \<Rightarrow> expr \<Rightarrow> encoded" where
  "encode_len vars array =
     (case Option.bind (var_of array) (\<lambda>name. Option.bind (vars (base_name name)) (\<lambda>t.
          case deref t of
            TArray e n \<Rightarrow> Some (encode_int_literal_bv (int n) 64)
          | TVec e \<Rightarrow> Some (sanitize (base_name name) @ ''_len'')
          | _ \<Rightarrow> None)) of
        Some text \<Rightarrow> Inr text
      | None \<Rightarrow> unsupported ''len() in proofs requires a named array/Vec binding'')"

definition encode_index_to_64 :: "var_types \<Rightarrow> expr \<Rightarrow> encoder \<Rightarrow> encoded" where
  "encode_index_to_64 vars index enc = bindE (enc None) (\<lambda>raw.
     let t = (case infer_int_type index vars of Some t \<Rightarrow> t | None \<Rightarrow> TU64) in
     if t \<in> {TI64, TU64} then Inr raw
     else case int_bits t of
       Some w \<Rightarrow> Inr (extend_by (is_signed_integer t) (64 - w) raw)
     | None \<Rightarrow> unsupported ''index expression must be an integer'')"

definition encode_index :: "var_types \<Rightarrow> versions \<Rightarrow> expr \<Rightarrow> expr \<Rightarrow> encoder \<Rightarrow> encoded" where
  "encode_index vars versions array index enc = (case var_of array of
     None \<Rightarrow> unsupported ''SMT array indexing requires a named binding base''
   | Some name \<Rightarrow>
       (case vars (base_name name) of
          None \<Rightarrow> unsupported (''no SMT model for indexed binding '' @ tick_quoted name)
        | Some t \<Rightarrow>
            if smt_array_element t = None then unsupported (''indexed binding '' @ tick_quoted name @ '' has unsupported element type'')
            else bindE (encode_index_to_64 vars index enc) (\<lambda>i.
              Inr (app2 ''select'' (fst (smt_array_name_for name versions)) i))))"

definition encode_store_eq :: "var_types \<Rightarrow> versions \<Rightarrow> expr \<Rightarrow> expr \<Rightarrow> expr \<Rightarrow> encoder \<Rightarrow> encoder \<Rightarrow> encoded" where
  "encode_store_eq vars versions res base index enc_i enc_v = (case (var_of res, var_of base) of
     (Some r, Some b) \<Rightarrow>
       (case vars (base_name r) of
          None \<Rightarrow> unsupported (''no SMT model for result '' @ tick_quoted r)
        | Some t \<Rightarrow>
            (case smt_array_element t of
               None \<Rightarrow> unsupported (''result '' @ tick_quoted r @ '' has unsupported element type'')
             | Some e \<Rightarrow>
                 bindE (encode_index_to_64 vars index enc_i) (\<lambda>i.
                 bindE (enc_v (if is_integer e then Some e else None)) (\<lambda>v.
                 Inr (app2 ''='' (fst (smt_array_name_for r versions))
                   (''(store '' @ fst (smt_array_name_for b versions) @ '' '' @ i @ '' '' @ v @ '')''))))))
   | _ \<Rightarrow> unsupported ''__smt_store_eq base/result must be Vars'')"

definition encode_array_eq :: "var_types \<Rightarrow> versions \<Rightarrow> expr \<Rightarrow> expr \<Rightarrow> encoded" where
  "encode_array_eq vars versions res base = (case (var_of res, var_of base) of
     (Some r, Some b) \<Rightarrow>
       if Option.bind (vars (base_name r)) smt_array_element = None
       then unsupported (''result '' @ tick_quoted r @ '' is not an SMT array binding'')
       else Inr (app2 ''='' (fst (smt_array_name_for r versions)) (fst (smt_array_name_for b versions)))
   | _ \<Rightarrow> unsupported ''__smt_array_eq result/base must be Vars'')"

section \<open>Expressions\<close>

text \<open>The literal of a pattern is as wide as the scrutinee shows it to be.\<close>

definition pattern_literal :: "ty option \<Rightarrow> int \<Rightarrow> string" where
  "pattern_literal scrutinee_ty v = encode_int_literal_bv v (case scrutinee_ty of Some t \<Rightarrow> bits_or_64 t | None \<Rightarrow> 64)"

definition encode_arm :: "string \<Rightarrow> ty option \<Rightarrow> pattern \<Rightarrow> string \<Rightarrow> string option \<Rightarrow> (string, string option) res" where
  "encode_arm scrutinee scrutinee_ty p body acc = (case p of
     PatWildcard \<Rightarrow> Inr (Some body)
   | PatInt v \<Rightarrow>
       (case acc of
          Some prev \<Rightarrow> Inr (Some (''(ite '' @ app2 ''='' scrutinee (pattern_literal scrutinee_ty v) @ '' '' @ body @ '' '' @ prev @ '')''))
        | None \<Rightarrow> Inl (Fail ''match without a wildcard arm cannot be encoded in SMT (would be partial)''))
   | PatBool b \<Rightarrow> Inl (Fail ''bool match patterns not yet supported in SMT'')
   | PatStr s \<Rightarrow> Inl (Fail ''string match patterns not yet supported in SMT'')
   | PatFloat v \<Rightarrow> Inl (Fail ''float match patterns not yet supported in SMT'')
   | PatVariant e v \<Rightarrow> Inl (Fail ''enum-variant match patterns not yet supported in SMT'')
   | PatVariantWithBinding e v b \<Rightarrow> Inl (Fail ''payloaded variant destructure patterns not yet supported in SMT''))"

definition arm_body :: "match_arm \<Rightarrow> expr" where
  "arm_body a = (case a of MatchArm p sp body \<Rightarrow> body)"

definition arm_pattern :: "match_arm \<Rightarrow> pattern" where
  "arm_pattern a = (case a of MatchArm p sp body \<Rightarrow> p)"

lemma arm_body_size: "a \<in> set arms \<Longrightarrow> size (arm_body a) < size_list size arms"
  by (induction arms) (auto simp: arm_body_def split: match_arm.splits)

text \<open>From the last arm to the first.\<close>

fun encode_arms :: "(expr \<Rightarrow> encoded) \<Rightarrow> string \<Rightarrow> ty option \<Rightarrow> match_arm list \<Rightarrow> (string, string option) res" where
  "encode_arms enc scrutinee scrutinee_ty [] = Inr None"
| "encode_arms enc scrutinee scrutinee_ty (a # arms) =
     bindE (encode_arms enc scrutinee scrutinee_ty arms) (\<lambda>acc.
     bindE (enc (arm_body a)) (\<lambda>body. encode_arm scrutinee scrutinee_ty (arm_pattern a) body acc))"

lemma encode_arms_cong [fundef_cong]:
  "arms = arms' \<Longrightarrow> (\<And>a. a \<in> set arms' \<Longrightarrow> enc (arm_body a) = enc' (arm_body a)) \<Longrightarrow>
    encode_arms enc s t arms = encode_arms enc' s t arms'"
  by (induction arms arbitrary: arms') auto

definition whole_match :: "string option \<Rightarrow> encoded" where
  "whole_match acc = (case acc of Some text \<Rightarrow> Inr text | None \<Rightarrow> unsupported ''match arm chain ended up empty'')"

function (sequential) encode_expr :: "(f64 \<Rightarrow> string) \<Rightarrow> var_types \<Rightarrow> versions \<Rightarrow> expr \<Rightarrow> ty option \<Rightarrow> encoded" where
  "encode_expr disp vars versions (Expr k sp) target = (case k of
     KInt v \<Rightarrow> Inr (encode_int_literal_bv v (bits_or_64 (case target of Some t \<Rightarrow> t | None \<Rightarrow> TI64)))
   | KBool b \<Rightarrow> Inr (if b then ''true'' else ''false'')
   | KStr s \<Rightarrow> unsupported ''string literal in proof not supported''
   | KFloat v \<Rightarrow> Inr (''((_ to_fp 11 53) RNE '' @ disp v @ '')'')
   | KVar name \<Rightarrow> encode_var vars name
   | KUnary op e \<Rightarrow> encode_unary vars op e (encode_expr disp vars versions e target)
   | KBinary op l r \<Rightarrow> encode_binary disp vars op l r (encode_expr disp vars versions l) (encode_expr disp vars versions r)
   | KCast e t \<Rightarrow> encode_cast vars e t (encode_expr disp vars versions e)
   | KLen array \<Rightarrow> encode_len vars array
   | KCall name name_span args \<Rightarrow>
       (case args of
          [r, b] \<Rightarrow> if name = ''__smt_array_eq'' then encode_array_eq vars versions r b
                    else unsupported (''function call '' @ tick_quoted name @ '' not supported in SMT v1'')
        | [r, b, i, v] \<Rightarrow>
            if name = ''__smt_store_eq''
            then encode_store_eq vars versions r b i (encode_expr disp vars versions i) (encode_expr disp vars versions v)
            else unsupported (''function call '' @ tick_quoted name @ '' not supported in SMT v1'')
        | _ \<Rightarrow> unsupported (''function call '' @ tick_quoted name @ '' not supported in SMT v1''))
   | KArrayLit es \<Rightarrow> unsupported ''array literals not supported in SMT v1''
   | KIndex array index \<Rightarrow> encode_index vars versions array index (encode_expr disp vars versions index)
   | KRef e \<Rightarrow> unsupported ''references not supported in SMT v1''
   | KRefMut e \<Rightarrow> unsupported ''references not supported in SMT v1''
   | KTuple es \<Rightarrow> unsupported ''tuples not supported in SMT v1''
   | KTupleAccess e i \<Rightarrow> unsupported ''tuples not supported in SMT v1''
   | KStructLit n nsp fs \<Rightarrow> unsupported ''structs not supported in SMT v1''
   | KFieldAccess e f \<Rightarrow> unsupported ''structs not supported in SMT v1''
   | KMatch scrutinee arms \<Rightarrow>
       bindE (encode_expr disp vars versions scrutinee None) (\<lambda>s.
       if arms = [] then unsupported ''match with no arms cannot be encoded''
       else bindE (encode_arms (\<lambda>body. encode_expr disp vars versions body target) s (infer_scrutinee_int_type scrutinee vars) arms)
              whole_match)
   | KMethodCall e m msp args \<Rightarrow> unsupported ''method calls not supported in SMT v1''
   | KIfExpr c t e \<Rightarrow>
       bindE (encode_expr disp vars versions c None) (\<lambda>x.
       bindE (encode_expr disp vars versions t target) (\<lambda>y.
       bindE (encode_expr disp vars versions e target) (\<lambda>z. Inr (''(ite '' @ x @ '' '' @ y @ '' '' @ z @ '')''))))
   | KBlock ss e \<Rightarrow> unsupported ''block expressions not supported in SMT v1''
   | KTry e \<Rightarrow> unsupported ''try expressions not supported in SMT v1''
   | KAnonFn ps t body asp \<Rightarrow> unsupported ''anonymous fn expressions not supported in SMT v1'')"
  by pat_completeness auto

termination
  by (relation "measure (\<lambda>(disp, vars, versions, e, target). size e)") (auto dest!: arm_body_size)

section \<open>The query\<close>

text \<open>Every version of an array so far.\<close>

definition emit_versioned_array_declarations :: "string \<Rightarrow> ty \<Rightarrow> versions \<Rightarrow> (string, string) res" where
  "emit_versioned_array_declarations name t versions = (case smt_array_element t of
     None \<Rightarrow> Inr []
   | Some e \<Rightarrow>
       bindE (if is_integer e then bindE (expectE (int_bits e)) (\<lambda>w. Inr (bv_sort w))
              else if e = TBool then Inr ''Bool'' else expectE (fp_sort e)) (\<lambda>elem_sort.
       Inr (concat (map (\<lambda>v. ''(declare-const '' @ array_name name v @ '' (Array (_ BitVec 64) '' @ elem_sort @ ''))'' @ [newline_char])
         [0..<version_of versions name + 1]))))"

definition declare_const :: "string \<Rightarrow> string \<Rightarrow> string" where
  "declare_const name sort_text = ''(declare-const '' @ name @ '' '' @ sort_text @ '')'' @ [newline_char]"

definition emit_var :: "versions \<Rightarrow> string \<times> ty \<Rightarrow> (string, string) res" where
  "emit_var versions v = (case v of (name, t) \<Rightarrow>
     bindE (emit_versioned_array_declarations name t versions) (\<lambda>arrays.
     bindE (if \<not> supported_sort t then Inr []
            else if is_integer t then bindE (expectE (int_bv_sort t)) (\<lambda>s. Inr (declare_const (sanitize name) s))
            else if is_float t then bindE (expectE (fp_sort t)) (\<lambda>s. Inr (declare_const (sanitize name) s))
            else Inr (declare_const (sanitize name) ''Bool'')) (\<lambda>scalar.
     Inr ((if is_vec (deref t) then declare_const (sanitize name @ ''_len'') (bv_sort 64) else []) @ arrays @ scalar))))"

fun emit_vars :: "versions \<Rightarrow> (string \<times> ty) list \<Rightarrow> (string, string) res" where
  "emit_vars versions [] = Inr []"
| "emit_vars versions (v # vs) = bindE (emit_var versions v) (\<lambda>x. bindE (emit_vars versions vs) (\<lambda>y. Inr (x @ y)))"

definition declared :: "(string \<times> ty) list \<Rightarrow> var_types" where
  "declared vars = fold (\<lambda>(name, t) m. m(name \<mapsto> t)) vars Map.empty"

text \<open>What is assumed and cannot be encoded is left out.\<close>

fun assert_facts :: "(expr \<Rightarrow> encoded) \<Rightarrow> expr list \<Rightarrow> (string, string) res" where
  "assert_facts enc [] = Inr []"
| "assert_facts enc (f # fs) =
     (case enc f of
        Inl Panic \<Rightarrow> Inl Panic
      | Inl (Fail reason) \<Rightarrow> assert_facts enc fs
      | Inr x \<Rightarrow> bindE (assert_facts enc fs) (\<lambda>y. Inr (''(assert '' @ x @ '')'' @ [newline_char] @ y)))"

definition build_query ::
  "(f64 \<Rightarrow> string) \<Rightarrow> expr \<Rightarrow> expr list \<Rightarrow> (string \<times> ty) list \<Rightarrow> versions \<Rightarrow> (string, string) res" where
  "build_query disp claim facts vars versions =
     (let enc = (\<lambda>e. encode_expr disp (declared vars) versions e None) in
      bindE (emit_vars versions vars) (\<lambda>decls.
      bindE (assert_facts enc facts) (\<lambda>asserts.
      bindE (enc claim) (\<lambda>goal.
        Inr (''(set-logic ALL)'' @ [newline_char] @ decls @ asserts @
          ''(assert (not '' @ goal @ ''))'' @ [newline_char] @ ''(check-sat)'' @ [newline_char])))))"

end
