(* ===== verification/SmtModel.thy ===== *)
theory SmtModel
  imports SmtEncode
begin

text \<open>
  The verdicts (\<open>try_prove\<close>, \<open>try_satisfiable\<close> and the reading of the solver's output in
  \<open>src/smt.rs\<close>). The solver is an argument: \<open>None\<close> where no binary is found, and otherwise what a run
  writes for a script, \<open>None\<close> where the run fails. The cache the process keeps is passed and returned;
  \<open>INTENTC_SMT_NO_CACHE\<close> is the argument \<open>no_cache\<close>. How floats are displayed, plain and with an exponent,
  are the arguments \<open>disp\<close> and \<open>disp_e\<close>.
\<close>

section \<open>Reading S-expressions\<close>

definition flush :: "string \<Rightarrow> string list" where
  "flush current = (if current = [] then [] else [current])"

fun tokens_from :: "string \<Rightarrow> string list \<Rightarrow> string list" where
  "tokens_from current [] = flush current"
| "tokens_from current (c # cs) =
     (if c \<in> {''('', '')''} then flush current @ c # tokens_from [] cs
      else if c \<in> set white_space then flush current @ tokens_from [] cs
      else tokens_from (current @ c) cs)"

definition tokenize_sexpr :: "string \<Rightarrow> string list" where
  "tokenize_sexpr s = tokens_from [] (chars s)"

text \<open>The tokens up to the parenthesis that closes the \<open>d\<close> open ones, and what starts with it.\<close>

definition nesting :: "string \<Rightarrow> nat \<Rightarrow> nat" where
  "nesting t d = (if t = ''('' then d + 1 else if t = '')'' then d - 1 else d)"

fun split_closing :: "nat \<Rightarrow> string list \<Rightarrow> string list \<times> string list" where
  "split_closing d [] = ([], [])"
| "split_closing d (t # ts) =
     (if nesting t d = 0 then ([], t # ts)
      else (case split_closing (nesting t d) ts of (xs, ys) \<Rightarrow> (t # xs, ys)))"

definition after_closing :: "string list \<Rightarrow> string list" where
  "after_closing ts = tl (snd (split_closing 1 ts))"

lemma split_closing_length: "length (snd (split_closing d ts)) \<le> length ts"
  by (induction d ts rule: split_closing.induct) (auto split: prod.splits)

lemma after_closing_length: "length (after_closing ts) \<le> length ts"
  using split_closing_length[of 1 ts] unfolding after_closing_def by simp

definition format_value :: "string list \<Rightarrow> string" where
  "format_value ts =
     (if length ts = 1 then ts ! 0
      else if length ts = 4 \<and> ts ! 0 = ''('' \<and> ts ! 1 = ''-'' \<and> ts ! 3 = '')'' then ''-'' @ ts ! 2
      else if 4 \<le> length ts \<and> ts ! 0 = ''('' \<and> ts ! 1 = ''_'' \<and> ts ! 2 \<in> {''NaN'', ''+oo'', ''-oo'', ''+zero'', ''-zero''} then
        (if ts ! 2 = ''NaN'' then ''NaN'' else if ts ! 2 = ''+oo'' then ''+inf'' else if ts ! 2 = ''-oo'' then ''-inf''
         else if ts ! 2 = ''+zero'' then ''0.0'' else ''-0.0'')
      else join_with '' '' ts)"

text \<open>What follows the name of a \<open>define-fun\<close>: past the argument list and the sort, the value and the rest.\<close>

definition definition_value :: "string list \<Rightarrow> (string \<times> string list) option" where
  "definition_value ts =
     (case after_closing ts of
        [] \<Rightarrow> None
      | t # ts \<Rightarrow>
          (let ts = (if t = ''('' then after_closing ts else ts) in
           if ts = [] then None
           else case split_closing 1 ts of (value, rest) \<Rightarrow> Some (format_value value, tl rest)))"

lemma definition_value_length: "definition_value ts = Some (v, rest) \<Longrightarrow> length rest < length ts"
  using after_closing_length[of ts] after_closing_length[of "tl (after_closing ts)"]
    split_closing_length[of 1 "tl (after_closing ts)"] split_closing_length[of 1 "after_closing (tl (after_closing ts))"]
  by (auto simp: definition_value_def Let_def split: list.splits prod.splits if_splits)

function parse_model_from :: "string list \<Rightarrow> (string \<rightharpoonup> string) \<Rightarrow> (string \<rightharpoonup> string)" where
  "parse_model_from ts model = (case ts of
     a # b # rest \<Rightarrow>
       if a = ''('' \<and> b = ''define-fun'' then
         (case rest of
            [] \<Rightarrow> model
          | name # args \<Rightarrow>
              if args = [] \<or> hd args \<noteq> ''('' then parse_model_from (b # rest) model
              else (case definition_value (tl args) of
                  None \<Rightarrow> model
                | Some (value, rest) \<Rightarrow> parse_model_from rest (model(name \<mapsto> value))))
       else parse_model_from (b # rest) model
   | _ \<Rightarrow> model)"
  by pat_completeness auto

termination
  by (relation "measure (\<lambda>(ts, model). length ts)") (auto dest!: definition_value_length)

declare parse_model_from.simps [simp del]

definition parse_model :: "string \<Rightarrow> (string \<rightharpoonup> string)" where
  "parse_model output = parse_model_from (tokenize_sexpr output) Map.empty"

section \<open>Values in words of the language\<close>

definition strip_prefix :: "string \<Rightarrow> string \<Rightarrow> string option" where
  "strip_prefix p s = (if take (length p) s = p then Some (drop (length p) s) else None)"

definition strip_suffix :: "string \<Rightarrow> string \<Rightarrow> string option" where
  "strip_suffix p s = (if ends_with s p then Some (take (length s - length p) s) else None)"

definition u128_max :: nat where "u128_max = 2 ^ 128 - 1"

fun words_from :: "string \<Rightarrow> string list \<Rightarrow> string list" where
  "words_from current [] = flush current"
| "words_from current (c # cs) =
     (if c \<in> set white_space then flush current @ words_from [] cs else words_from (current @ c) cs)"

definition split_whitespace :: "string \<Rightarrow> string list" where
  "split_whitespace s = words_from [] (chars s)"

definition parse_bv_raw :: "string \<Rightarrow> (nat \<times> nat) option" where
  "parse_bv_raw s =
     (case strip_prefix ''#x'' s of
        Some rest \<Rightarrow> map_option (\<lambda>v. (v, length rest * 4)) (parse_unsigned 16 u128_max rest)
      | None \<Rightarrow>
          (case strip_prefix ''#b'' s of
             Some rest \<Rightarrow> map_option (\<lambda>v. (v, length rest)) (parse_unsigned 2 u128_max rest)
           | None \<Rightarrow> None))"

definition bv_number :: "string \<Rightarrow> nat option" where
  "bv_number raw =
     (case strip_prefix ''#x'' raw of
        Some hex \<Rightarrow> parse_unsigned 16 u128_max hex
      | None \<Rightarrow>
          (case strip_prefix ''#b'' raw of
             Some bin \<Rightarrow> parse_unsigned 2 u128_max bin
           | None \<Rightarrow>
               Option.bind (strip_prefix ''(_ bv'' raw) (\<lambda>rest.
                 case split_whitespace rest of [] \<Rightarrow> None | n # _ \<Rightarrow> parse_unsigned 10 u128_max n)))"

definition parse_bv_bits :: "string \<Rightarrow> ty \<Rightarrow> string option" where
  "parse_bv_bits raw t =
     Option.bind (int_bits t) (\<lambda>w.
     Option.bind (bv_number raw) (\<lambda>n.
       if is_signed_int t then
         Some (show_int (if n div 2 ^ (w - 1) mod 2 = 1 then i128_wrap (i128_wrap (int n) - 2 ^ w) else i128_wrap (int n)))
       else Some (show_nat n)))"

text \<open>The double with the value of a single-precision pattern (\<open>f32 as f64\<close>).\<close>

definition f64_of_f32_bits :: "nat \<Rightarrow> f64" where
  "f64_of_f32_bits b =
     (let s = (b div 2 ^ 31 mod 2 = 1); e = b div 2 ^ 23 mod 2 ^ 8; m = b mod 2 ^ 23 in
      if e = 255 then (if m = 0 then f64_infinity s else of_nat ((if s then 2 ^ 63 else 0) + 0x7FF8000000000000 + m * 2 ^ 29 mod 2 ^ 51))
      else f64_of_dyadic s (m + (if e = 0 then 0 else 2 ^ 23)) (int (max 1 e) - 150))"

record float_display =
  fd_plain :: "f64 \<Rightarrow> string"
  fd_exp :: "f64 \<Rightarrow> string"

definition render_float :: "float_display \<Rightarrow> f64 \<Rightarrow> string" where
  "render_float fd v =
     (if f64_is_nan v then ''NaN''
      else if f64_is_infinite v then (if f64_sign v then ''-inf'' else ''+inf'')
      else if f64_is_zero v then (if f64_sign v then ''-0.0'' else ''0.0'')
      else let magnitude = of_nat (f64_magnitude v) in
        if f64_less_eq 0x3F1A36E2EB1C432D magnitude \<and> f64_less magnitude 0x4341C37937E08000 then fd_plain fd v
        else fd_exp fd v)"

fun has_infix :: "string \<Rightarrow> string \<Rightarrow> bool" where
  "has_infix p [] \<longleftrightarrow> p = []"
| "has_infix p (c # cs) \<longleftrightarrow> take (length p) (c # cs) = p \<or> has_infix p cs"

definition named_float :: "string \<Rightarrow> string option" where
  "named_float t =
     (if has_infix ''NaN'' t then Some ''NaN''
      else if has_infix ''+oo'' t \<or> has_infix ''plus_infinity'' t then Some ''+inf''
      else if has_infix ''-oo'' t \<or> has_infix ''minus_infinity'' t then Some ''-inf''
      else if has_infix ''+zero'' t \<or> has_infix ''plus_zero'' t then Some ''0.0''
      else if has_infix ''-zero'' t \<or> has_infix ''minus_zero'' t then Some ''-0.0''
      else None)"

definition float_from_parts :: "float_display \<Rightarrow> ty \<Rightarrow> nat \<Rightarrow> nat \<Rightarrow> nat \<Rightarrow> string option" where
  "float_from_parts fd t s e m = (case t of
     TF64 \<Rightarrow> Some (render_float fd (of_nat (s mod 2 * 2 ^ 63 + e mod 2 ^ 11 * 2 ^ 52 + m mod 2 ^ 52)))
   | TF32 \<Rightarrow> Some (render_float fd (f64_of_f32_bits (s mod 2 * 2 ^ 31 + e mod 2 ^ 8 * 2 ^ 23 + m mod 2 ^ 23)))
   | _ \<Rightarrow> None)"

definition parse_fp_literal :: "float_display \<Rightarrow> string \<Rightarrow> ty \<Rightarrow> string option" where
  "parse_fp_literal fd raw t =
     (if \<not> is_float t then None
      else Option.bind (strip_prefix ''('' (trim raw)) (\<lambda>inner.
        Option.bind (strip_suffix '')'' inner) (\<lambda>inner.
          case split_whitespace inner of
            [fp, s, e, m] \<Rightarrow>
              if fp \<noteq> ''fp'' then named_float inner
              else Option.bind (parse_bv_raw s) (\<lambda>s. Option.bind (parse_bv_raw e) (\<lambda>e. Option.bind (parse_bv_raw m) (\<lambda>m.
                float_from_parts fd t (fst s) (fst e) (fst m))))
          | _ \<Rightarrow> named_float inner)))"

definition render_value :: "float_display \<Rightarrow> string \<Rightarrow> ty \<Rightarrow> string" where
  "render_value fd raw t = (case parse_bv_bits raw t of
     Some s \<Rightarrow> s
   | None \<Rightarrow> (case parse_fp_literal fd raw t of Some s \<Rightarrow> s | None \<Rightarrow> raw))"

section \<open>Counterexamples\<close>

definition counterexample_entries :: "float_display \<Rightarrow> (string \<rightharpoonup> string) \<Rightarrow> string \<times> ty \<Rightarrow> string list" where
  "counterexample_entries fd model v = (case v of (name, t) \<Rightarrow>
     if \<not> supported_sort t \<and> \<not> is_vec (deref t) then []
     else (case model (sanitize name) of None \<Rightarrow> [] | Some x \<Rightarrow> [name @ '' = '' @ render_value fd x t]) @
       (case model (sanitize name @ ''_len'') of None \<Rightarrow> [] | Some x \<Rightarrow> [''len('' @ name @ '') = '' @ render_value fd x TU64]))"

definition format_counterexample :: "float_display \<Rightarrow> (string \<rightharpoonup> string) \<Rightarrow> (string \<times> ty) list \<Rightarrow> string option" where
  "format_counterexample fd model vars =
     (let entries = concat (map (counterexample_entries fd model) vars) in
      if model = Map.empty \<or> entries = [] then None else Some (join_with '', '' entries))"

section \<open>Verdicts\<close>

datatype verdict =
    Proven
  | Disproven "string option"
  | Unknown
  | SkippedUnsupported string
  | Unavailable

datatype sat_verdict = Satisfiable | Unsatisfiable | SatUnknown

type_synonym solver = "(string \<Rightarrow> string option) option"
type_synonym cache = "string \<rightharpoonup> string"

definition first_line :: "string \<Rightarrow> string" where
  "first_line output = trim (chop_cr (takeWhile (\<lambda>c. c \<noteq> newline_char) output))"

definition parse_verdict :: "float_display \<Rightarrow> string \<Rightarrow> (string \<times> ty) list \<Rightarrow> verdict" where
  "parse_verdict fd output vars =
     (if first_line output = ''unsat'' then Proven
      else if first_line output = ''sat'' then Disproven (format_counterexample fd (parse_model output) vars)
      else Unknown)"

definition model_command :: string where
  "model_command = ''(get-model)'' @ [newline_char]"

text \<open>A run of the solver on a query that is not cached.\<close>

definition run_query :: "float_display \<Rightarrow> (string \<Rightarrow> string option) \<Rightarrow> bool \<Rightarrow> string \<Rightarrow> (string \<times> ty) list \<Rightarrow> cache \<Rightarrow> verdict \<times> cache" where
  "run_query fd z3 no_cache query vars cache = (case z3 query of
     None \<Rightarrow> (Unavailable, cache)
   | Some output \<Rightarrow> (parse_verdict fd output vars, if no_cache then cache else cache(query \<mapsto> output)))"

definition try_prove ::
  "float_display \<Rightarrow> solver \<Rightarrow> bool \<Rightarrow> expr \<Rightarrow> expr list \<Rightarrow> (string \<times> ty) list \<Rightarrow> versions \<Rightarrow> cache \<Rightarrow> (unit, verdict \<times> cache) res" where
  "try_prove fd solver no_cache claim facts vars versions cache = (case solver of
     None \<Rightarrow> Inr (Unavailable, cache)
   | Some z3 \<Rightarrow>
       (case build_query (fd_plain fd) claim facts vars versions of
          Inl Panic \<Rightarrow> Inl Panic
        | Inl (Fail reason) \<Rightarrow> Inr (SkippedUnsupported reason, cache)
        | Inr text \<Rightarrow>
            let query = text @ model_command in
            (case (if no_cache then None else cache query) of
               Some output \<Rightarrow> Inr (parse_verdict fd output vars, cache)
             | None \<Rightarrow> Inr (run_query fd z3 no_cache query vars cache))))"

definition try_satisfiable ::
  "(f64 \<Rightarrow> string) \<Rightarrow> solver \<Rightarrow> expr list \<Rightarrow> (string \<times> ty) list \<Rightarrow> versions \<Rightarrow> (unit, sat_verdict) res" where
  "try_satisfiable disp solver facts vars versions = (case solver of
     None \<Rightarrow> Inr SatUnknown
   | Some z3 \<Rightarrow>
       (case bindE (emit_vars versions vars) (\<lambda>decls.
               bindE (assert_facts (\<lambda>e. encode_expr disp (declared vars) versions e None) facts) (\<lambda>asserts.
               Inr (''(set-logic ALL)'' @ [newline_char] @ decls @ asserts @ ''(check-sat)'' @ [newline_char]))) of
          Inl e \<Rightarrow> Inl Panic
        | Inr text \<Rightarrow>
            Inr (case z3 text of
                None \<Rightarrow> SatUnknown
              | Some output \<Rightarrow> if first_line output = ''sat'' then Satisfiable
                  else if first_line output = ''unsat'' then Unsatisfiable else SatUnknown)))"

end
