(* ===== verification/SmtSem.thy ===== *)
theory SmtSem
  imports SmtModel
begin

text \<open>
  What a script means: the bit-vector and Boolean part of SMT-LIB, the semantics the verification
  conditions are written for. A script is read with the tokenizer of \<open>src/smt.rs\<close>; a term outside the
  part, or with operands of two widths, has no value. Constants of other sorts may be declared.
\<close>

section \<open>Terms\<close>

datatype sexp = Atom string | Lst "sexp list"

text \<open>The open lists, innermost first, each the other way round.\<close>

fun read_from :: "sexp list list \<Rightarrow> string list \<Rightarrow> sexp list option" where
  "read_from open_lists [] = (case open_lists of [cur] \<Rightarrow> Some (rev cur) | _ \<Rightarrow> None)"
| "read_from [] (t # ts) = None"
| "read_from (cur # open_lists) (t # ts) =
     (if t = ''('' then read_from ([] # cur # open_lists) ts
      else if t = '')'' then
        (case open_lists of next # rest \<Rightarrow> read_from ((Lst (rev cur) # next) # rest) ts | [] \<Rightarrow> None)
      else read_from ((Atom t # cur) # open_lists) ts)"

definition read_script :: "string \<Rightarrow> sexp list option" where
  "read_script s = read_from [[]] (tokenize_sexpr s)"

text \<open>A bit vector of a width, and its value, below 2 to the width.\<close>

datatype smt_val = BV nat nat | SB bool

type_synonym smt_model = "string \<rightharpoonup> smt_val"

definition bv :: "nat \<Rightarrow> int \<Rightarrow> smt_val" where
  "bv w v = BV w (nat (v mod 2 ^ w))"

definition bv_sint :: "nat \<Rightarrow> nat \<Rightarrow> int" where
  "bv_sint w n = (if 2 ^ (w - 1) \<le> n then int n - 2 ^ w else int n)"

definition numeral_of :: "string \<Rightarrow> nat option" where
  "numeral_of s = (if s \<noteq> [] \<and> list_all is_digit_char s then Some (read_dec s) else None)"

text \<open>\<open>f\<close> on two bit vectors of one width.\<close>

definition bv_op :: "string \<Rightarrow> nat \<Rightarrow> nat \<Rightarrow> nat \<Rightarrow> smt_val option" where
  "bv_op f w a b =
     (if f = ''bvadd'' then Some (bv w (int a + int b))
      else if f = ''bvsub'' then Some (bv w (int a - int b))
      else if f = ''bvmul'' then Some (bv w (int a * int b))
      else if f = ''bvudiv'' then Some (bv w (if b = 0 then -1 else int (a div b)))
      else if f = ''bvurem'' then Some (bv w (if b = 0 then int a else int (a mod b)))
      else if f = ''bvsdiv'' then Some (bv w (if b = 0 then (if bv_sint w a < 0 then 1 else -1) else trunc_div (bv_sint w a) (bv_sint w b)))
      else if f = ''bvsrem'' then Some (bv w (if b = 0 then int a else trunc_rem (bv_sint w a) (bv_sint w b)))
      else if f = ''bvshl'' then Some (bv w (int a * 2 ^ b))
      else if f = ''bvlshr'' then Some (bv w (int a div 2 ^ b))
      else if f = ''bvashr'' then Some (bv w (bv_sint w a div 2 ^ b))
      else if f = ''bvand'' then Some (bv w (int a AND int b))
      else if f = ''bvor'' then Some (bv w (int a OR int b))
      else if f = ''bvxor'' then Some (bv w (int a XOR int b))
      else if f = ''bvult'' then Some (SB (a < b))
      else if f = ''bvule'' then Some (SB (a \<le> b))
      else if f = ''bvugt'' then Some (SB (b < a))
      else if f = ''bvuge'' then Some (SB (b \<le> a))
      else if f = ''bvslt'' then Some (SB (bv_sint w a < bv_sint w b))
      else if f = ''bvsle'' then Some (SB (bv_sint w a \<le> bv_sint w b))
      else if f = ''bvsgt'' then Some (SB (bv_sint w b < bv_sint w a))
      else if f = ''bvsge'' then Some (SB (bv_sint w b \<le> bv_sint w a))
      else if f = ''='' then Some (SB (a = b))
      else if f = ''distinct'' then Some (SB (a \<noteq> b))
      else None)"

definition bool_op :: "string \<Rightarrow> bool \<Rightarrow> bool \<Rightarrow> smt_val option" where
  "bool_op f a b =
     (if f = ''and'' then Some (SB (a \<and> b)) else if f = ''or'' then Some (SB (a \<or> b))
      else if f = ''='' then Some (SB (a = b)) else if f = ''distinct'' then Some (SB (a \<noteq> b)) else None)"

fun smt_op2 :: "string \<Rightarrow> smt_val \<Rightarrow> smt_val \<Rightarrow> smt_val option" where
  "smt_op2 f (BV w a) (BV w' b) = (if w = w' then bv_op f w a b else None)"
| "smt_op2 f (SB a) (SB b) = bool_op f a b"
| "smt_op2 f _ _ = None"

fun smt_op1 :: "string \<Rightarrow> smt_val \<Rightarrow> smt_val option" where
  "smt_op1 f (BV w a) = (if f = ''bvneg'' then Some (bv w (- int a)) else None)"
| "smt_op1 f (SB b) = (if f = ''not'' then Some (SB (\<not> b)) else None)"

fun smt_ite :: "smt_val \<Rightarrow> smt_val \<Rightarrow> smt_val \<Rightarrow> smt_val option" where
  "smt_ite (SB c) (BV w a) (BV w' b) = (if w = w' then Some (BV w (if c then a else b)) else None)"
| "smt_ite (SB c) (SB a) (SB b) = Some (SB (if c then a else b))"
| "smt_ite _ _ _ = None"

text \<open>Extension by \<open>n\<close> bits, and the bits from \<open>lo\<close> to \<open>hi\<close>.\<close>

fun smt_extend :: "string \<Rightarrow> nat \<Rightarrow> smt_val \<Rightarrow> smt_val option" where
  "smt_extend f n (BV w a) =
     (if f = ''zero_extend'' then Some (bv (w + n) (int a))
      else if f = ''sign_extend'' then Some (bv (w + n) (bv_sint w a)) else None)"
| "smt_extend f n (SB b) = None"

fun smt_extract :: "nat \<Rightarrow> nat \<Rightarrow> smt_val \<Rightarrow> smt_val option" where
  "smt_extract hi lo (BV w a) = (if lo \<le> hi \<and> hi < w then Some (bv (hi - lo + 1) (int (a div 2 ^ lo))) else None)"
| "smt_extract hi lo (SB b) = None"

definition bv_literal :: "string \<Rightarrow> string \<Rightarrow> smt_val option" where
  "bv_literal b w = Option.bind (strip_prefix ''bv'' b) (\<lambda>digits. Option.bind (numeral_of digits) (\<lambda>n.
     Option.bind (numeral_of w) (\<lambda>w. Some (bv w (int n)))))"

definition atom_value :: "smt_model \<Rightarrow> string \<Rightarrow> smt_val option" where
  "atom_value m a = (if a = ''true'' then Some (SB True) else if a = ''false'' then Some (SB False) else m a)"

fun term_value :: "smt_model \<Rightarrow> sexp \<Rightarrow> smt_val option" where
  "term_value m (Atom a) = atom_value m a"
| "term_value m (Lst [Atom f, x]) = Option.bind (term_value m x) (smt_op1 f)"
| "term_value m (Lst [Atom f, x, y]) =
     (case (f = ''_'', x, y) of
        (True, Atom b, Atom w) \<Rightarrow> bv_literal b w
      | _ \<Rightarrow> Option.bind (term_value m x) (\<lambda>v. Option.bind (term_value m y) (smt_op2 f v)))"
| "term_value m (Lst [Atom f, c, x, y]) =
     (if f = ''ite'' then Option.bind (term_value m c) (\<lambda>c. Option.bind (term_value m x) (\<lambda>v. Option.bind (term_value m y) (smt_ite c v)))
      else None)"
| "term_value m (Lst [Lst [Atom u, Atom f, Atom n], x]) =
     (if u = ''_'' then Option.bind (numeral_of n) (\<lambda>n. Option.bind (term_value m x) (smt_extend f n)) else None)"
| "term_value m (Lst [Lst [Atom u, Atom f, Atom hi, Atom lo], x]) =
     (if u = ''_'' \<and> f = ''extract'' then
        Option.bind (numeral_of hi) (\<lambda>hi. Option.bind (numeral_of lo) (\<lambda>lo. Option.bind (term_value m x) (smt_extract hi lo)))
      else None)"
| "term_value m _ = None"

section \<open>Scripts\<close>

text \<open>The values of a sort; no other sort restricts them.\<close>

definition of_sort :: "sexp \<Rightarrow> smt_val option \<Rightarrow> bool" where
  "of_sort s v = (case s of
     Atom a \<Rightarrow> a = ''Bool'' \<longrightarrow> (\<exists>b. v = Some (SB b))
   | Lst [Atom u, Atom b, Atom w] \<Rightarrow> u = ''_'' \<and> b = ''BitVec'' \<longrightarrow> (\<exists>n k. numeral_of w = Some k \<and> n < 2 ^ k \<and> v = Some (BV k n))
   | _ \<Rightarrow> True)"

fun holds_in :: "smt_model \<Rightarrow> sexp \<Rightarrow> bool" where
  "holds_in m (Lst [Atom c, x]) = (c = ''assert'' \<longrightarrow> term_value m x = Some (SB True))"
| "holds_in m (Lst [Atom c, Atom n, s]) = (c = ''declare-const'' \<longrightarrow> of_sort s (m n))"
| "holds_in m _ = True"

definition satisfies :: "smt_model \<Rightarrow> sexp list \<Rightarrow> bool" where
  "satisfies m script \<longleftrightarrow> list_all (holds_in m) script"

text \<open>
  What the solver is trusted for: when the first line of its output is \<open>unsat\<close>, the script can be
  read and no model satisfies it.
\<close>

definition solver_sound :: "(string \<Rightarrow> string option) \<Rightarrow> bool" where
  "solver_sound z3 \<longleftrightarrow> (\<forall>query output. z3 query = Some output \<longrightarrow> first_line output = ''unsat'' \<longrightarrow>
     (\<exists>script. read_script query = Some script \<and> (\<forall>m. \<not> satisfies m script)))"

section \<open>Reading back what is printed\<close>

fun flat :: "sexp \<Rightarrow> string list" where
  "flat (Atom a) = [a]"
| "flat (Lst ts) = ''('' # concat (map flat ts) @ ['')'']"

fun plain_atoms :: "sexp \<Rightarrow> bool" where
  "plain_atoms (Atom a) \<longleftrightarrow> a \<noteq> ''('' \<and> a \<noteq> '')''"
| "plain_atoms (Lst ts) \<longleftrightarrow> list_all plain_atoms ts"

lemma read_flat: "plain_atoms t \<Longrightarrow> read_from (cur # ls) (flat t @ ts) = read_from ((t # cur) # ls) ts"
proof (induction t arbitrary: cur ls ts)
  case (Lst us)
  have "read_from (cur # ls) (concat (map flat vs) @ ts) = read_from ((rev vs @ cur) # ls) ts"
    if "set vs \<subseteq> set us" for vs cur ls ts
    using that Lst by (induction vs arbitrary: cur) (auto simp: list_all_iff)
  then show ?case by simp
qed simp

lemma read_flats: "list_all plain_atoms us \<Longrightarrow> read_from [cur] (concat (map flat us)) = Some (rev cur @ us)"
  by (induction us arbitrary: cur) (simp_all add: read_flat)

text \<open>The tokens of a text of the ASCII characters.\<close>

definition toks :: "string \<Rightarrow> string \<Rightarrow> string list" where
  "toks current s = tokens_from current (map (\<lambda>c. [c]) s)"

lemma chars_ascii: "list_all ascii s \<Longrightarrow> chars s = map (\<lambda>c. [c]) s"
  by (induction s) simp_all

lemma tokenize_ascii: "list_all ascii s \<Longrightarrow> tokenize_sexpr s = toks [] s"
  by (simp add: tokenize_sexpr_def toks_def chars_ascii)

definition delimiter :: "char \<Rightarrow> bool" where
  "delimiter c \<longleftrightarrow> c \<in> {CHR ''('', CHR '')''} \<or> [c] \<in> set white_space"

definition delimiter_token :: "char \<Rightarrow> string list" where
  "delimiter_token c = (if c \<in> {CHR ''('', CHR '')''} then [[c]] else [])"

lemma toks_step: "toks cur (c # s) = (if delimiter c then flush cur @ delimiter_token c @ toks [] s else toks (cur @ [c]) s)"
  by (simp add: toks_def delimiter_def delimiter_token_def)

lemma toks_Nil: "toks cur [] = flush cur"
  by (simp add: toks_def)

lemma toks_empty [simp]: "toks [] [] = []"
  by (simp add: toks_Nil flush_def)

lemma toks_split: "delimiter c \<Longrightarrow> toks cur (a @ c # b) = toks cur a @ delimiter_token c @ toks [] b"
  by (induction a arbitrary: cur) (simp_all add: toks_step toks_Nil flush_def)

lemma delimiters [simp]:
  "delimiter (CHR ''('')" "delimiter (CHR '')'')" "delimiter (CHR '' '')" "delimiter newline_char"
  "delimiter_token (CHR ''('') = [''('']" "delimiter_token (CHR '')'') = ['')'']" "delimiter_token (CHR '' '') = []"
  "delimiter_token newline_char = []"
  by (simp_all add: delimiter_def delimiter_token_def white_space_def)

lemmas toks_delim = toks_split[of "CHR ''(''"] toks_split[of "CHR '')''"] toks_split[of "CHR '' ''"] toks_split[of newline_char]
lemmas toks_first = toks_delim[where a = "[]", simplified]

lemma toks_atom: "list_all (\<lambda>c. \<not> delimiter c) a \<Longrightarrow> toks cur a = flush (cur @ a)"
  by (induction a arbitrary: cur) (simp_all add: toks_step toks_Nil)

text \<open>A text that spells a term.\<close>

definition spells :: "string \<Rightarrow> sexp \<Rightarrow> bool" where
  "spells s t \<longleftrightarrow> list_all ascii s \<and> plain_atoms t \<and> toks [] s = flat t"

definition atom_char :: "char \<Rightarrow> bool" where
  "atom_char c \<longleftrightarrow> ascii c \<and> \<not> delimiter c"

definition is_atom :: "string \<Rightarrow> bool" where
  "is_atom a \<longleftrightarrow> a \<noteq> [] \<and> list_all atom_char a"

lemma delimiter_atoms: "\<not> is_atom ''(''" "\<not> is_atom '')''"
  by (simp_all add: is_atom_def atom_char_def)

lemma spells_atom: "is_atom a \<Longrightarrow> spells a (Atom a)"
  using delimiter_atoms by (auto simp: spells_def is_atom_def atom_char_def toks_atom flush_def list_all_iff)

lemma ascii_chars [simp]: "ascii (CHR ''('')" "ascii (CHR '')'')" "ascii (CHR '' '')" "ascii newline_char"
  by (simp_all add: ascii_def)

lemma spells_app1: "spells f s \<Longrightarrow> spells x t \<Longrightarrow> spells (app1 f x) (Lst [s, t])"
  by (simp add: spells_def app1_def toks_first toks_delim)

lemma spells_app2: "spells f s \<Longrightarrow> spells x t \<Longrightarrow> spells y u \<Longrightarrow> spells (app2 f x y) (Lst [s, t, u])"
  by (simp add: spells_def app2_def toks_first toks_delim)

lemma spells_app3:
  "spells f s \<Longrightarrow> spells x t \<Longrightarrow> spells y u \<Longrightarrow> spells z v \<Longrightarrow>
    spells (''('' @ f @ '' '' @ x @ '' '' @ y @ '' '' @ z @ '')'') (Lst [s, t, u, v])"
  by (simp add: spells_def toks_first toks_delim)

lemma spells_read: "spells s t \<Longrightarrow> read_script s = Some [t]"
  using read_flat[of t "[]" "[]" "[]"] by (simp add: spells_def read_script_def tokenize_ascii)

lemma digit_atom_char: "is_digit_char c \<Longrightarrow> atom_char c"
  by (auto simp: atom_char_def ascii_def is_digit_char_def delimiter_def white_space_def)

lemma show_nat_atom: "is_atom (show_nat n)"
  using show_nat_digits[of n] digit_atom_char by (auto simp: is_atom_def list_all_iff)

lemma numeral_show [simp]: "numeral_of (show_nat n) = Some n"
  by (simp add: numeral_of_def show_nat_digits)

end
