(* ===== verification/SmtSound.thy ===== *)
theory SmtSound
  imports SmtSem
begin

text \<open>
  The verdict \<open>Proven\<close> can be believed where the operands of every operator have one type: with a
  solver that can be trusted, a claim that is proved from facts is false in no run in which the facts
  are true. What an expression computes is the semantics of the SSA instructions.
\<close>

section \<open>Expressions whose operands have one type\<close>

definition shift_type :: "var_types \<Rightarrow> expr \<Rightarrow> expr \<Rightarrow> ty" where
  "shift_type V l r = (case infer_int_type r V of Some t \<Rightarrow> t | None \<Rightarrow> operand_type V l r)"

definition source_type :: "var_types \<Rightarrow> expr \<Rightarrow> ty" where
  "source_type V e = (case infer_int_type e V of Some t \<Rightarrow> t | None \<Rightarrow> TI64)"

text \<open>An expression of type \<open>t\<close>; a literal is one of the values of the type it is used at.\<close>

fun plain :: "var_types \<Rightarrow> ty \<Rightarrow> expr \<Rightarrow> bool" where
  "plain V t (Expr k sp) = (case k of
     KInt v \<Rightarrow> fits t v
   | KBool b \<Rightarrow> t = TBool
   | KVar n \<Rightarrow> hash_char \<notin> set n \<and> V n = Some t \<and> (is_integer t \<or> t = TBool)
   | KUnary op e \<Rightarrow> (if op = UNeg then is_integer t else t = TBool) \<and> plain V t e
   | KBinary op l r \<Rightarrow>
       (if op \<in> {And, Or} then t = TBool \<and> plain V TBool l \<and> plain V TBool r
        else if op \<in> {Shl, Shr} then t = operand_type V l r \<and> plain V (operand_type V l r) l \<and> plain V (shift_type V l r) r
        else if op \<in> {Eq, Ne} then
          t = TBool \<and> (plain V (operand_type V l r) l \<and> plain V (operand_type V l r) r \<or> plain V TBool l \<and> plain V TBool r)
        else t = (if op \<in> {Lt, Le, Gt, Ge} then TBool else operand_type V l r) \<and>
          plain V (operand_type V l r) l \<and> plain V (operand_type V l r) r)
   | KCast e u \<Rightarrow> t = u \<and> is_integer u \<and> plain V (source_type V e) e
   | KIfExpr c x y \<Rightarrow> plain V TBool c \<and> plain V t x \<and> plain V t y
   | _ \<Rightarrow> False)"

section \<open>What they compute\<close>

type_synonym assignment = "string \<rightharpoonup> val"

definition scalar :: "val outcome option \<Rightarrow> val outcome" where
  "scalar r = (case r of Some x \<Rightarrow> x | None \<Rightarrow> Stuck)"

definition short_cut :: "binary_op \<Rightarrow> val \<Rightarrow> val outcome \<Rightarrow> val outcome" where
  "short_cut op a rb =
     (if op = And \<and> a = VBool False \<or> op = Or \<and> a = VBool True then Done a
      else bindO rb (\<lambda>b. scalar (exec_binary op TBool [a, b])))"

fun value_of :: "var_types \<Rightarrow> assignment \<Rightarrow> ty \<Rightarrow> expr \<Rightarrow> val outcome" where
  "value_of V rho t (Expr k sp) = (case k of
     KInt v \<Rightarrow> Done (VInt v)
   | KBool b \<Rightarrow> Done (VBool b)
   | KVar n \<Rightarrow> (case rho n of Some v \<Rightarrow> Done v | None \<Rightarrow> Stuck)
   | KUnary op e \<Rightarrow> bindO (value_of V rho t e) (\<lambda>a. scalar (exec_unary op t [a]))
   | KBinary op l r \<Rightarrow>
       (if op \<in> {And, Or} then bindO (value_of V rho TBool l) (\<lambda>a. short_cut op a (value_of V rho TBool r))
        else
          let u = (if op \<in> {Eq, Ne} \<and> plain V TBool l \<and> plain V TBool r then TBool else operand_type V l r);
              u' = (if op \<in> {Shl, Shr} then shift_type V l r else u) in
          bindO (value_of V rho u l) (\<lambda>a. bindO (value_of V rho u' r) (\<lambda>b. scalar (exec_binary op u [a, b]))))
   | KCast e u \<Rightarrow> bindO (value_of V rho (source_type V e) e) (\<lambda>a. scalar (exec_cast u [a]))
   | KIfExpr c x y \<Rightarrow> bindO (value_of V rho TBool c) (\<lambda>b. if b = VBool True then value_of V rho t x else value_of V rho t y)
   | _ \<Rightarrow> Stuck)"

fun has_ty :: "ty \<Rightarrow> val \<Rightarrow> bool" where
  "has_ty t (VInt v) = fits t v"
| "has_ty t (VBool b) = (t = TBool)"
| "has_ty t _ = False"

section \<open>Their values for the solver\<close>

fun smt_of :: "ty \<Rightarrow> val \<Rightarrow> smt_val" where
  "smt_of t (VBool b) = SB b"
| "smt_of t (VInt v) = bv (bits_or_64 t) v"
| "smt_of t _ = SB False"

definition sorted_as :: "ty \<Rightarrow> smt_val \<Rightarrow> bool" where
  "sorted_as t x \<longleftrightarrow> (if t = TBool then \<exists>b. x = SB b else is_integer t \<and> (\<exists>n < 2 ^ bits_or_64 t. x = BV (bits_or_64 t) n))"

text \<open>A text and the result of a run agree: it spells a term of the right sort, with the value of the run where it has one.\<close>

definition means :: "smt_model \<Rightarrow> ty \<Rightarrow> string \<Rightarrow> val outcome \<Rightarrow> bool" where
  "means m t s r \<longleftrightarrow> (\<exists>tm x. spells s tm \<and> term_value m tm = Some x \<and> sorted_as t x \<and>
     (\<forall>v. r = Done v \<longrightarrow> has_ty t v \<and> x = smt_of t v))"

lemma bits_eq: "is_integer t \<Longrightarrow> bits t = Some (bits_or_64 t) \<and> int_bits t = Some (bits_or_64 t) \<and> 0 < bits_or_64 t \<and> bits_or_64 t \<le> 64"
  by (erule is_integer_cases) (simp_all add: bits_or_64_def)

lemma signed_range: "is_signed_int t \<Longrightarrow> fits t v \<longleftrightarrow> - (2 ^ (bits_or_64 t - 1)) \<le> v \<and> v < 2 ^ (bits_or_64 t - 1)"
  by (cases t) (auto simp: is_signed_int_def fits_def bits_or_64_def)

lemma unsigned_range: "is_integer t \<Longrightarrow> \<not> is_signed_int t \<Longrightarrow> fits t v \<longleftrightarrow> 0 \<le> v \<and> v < 2 ^ bits_or_64 t"
  by (cases t) (auto simp: is_signed_int_def is_integer_def fits_def bits_or_64_def)

lemma signed_integer: "is_signed_int t \<Longrightarrow> is_integer t"
  by (auto simp: is_signed_int_def is_integer_def)

lemma bv_lt: "\<exists>n < 2 ^ w. bv w v = BV w n"
proof -
  have "v mod 2 ^ w < 2 ^ w" "0 \<le> v mod 2 ^ w" by simp_all
  then have "nat (v mod 2 ^ w) < 2 ^ w" by (simp add: nat_less_iff)
  then show ?thesis by (auto simp: bv_def)
qed

lemma sint_of_signed:
  assumes "is_signed_int t" "fits t v"
  shows "bv_sint (bits_or_64 t) (nat (v mod 2 ^ bits_or_64 t)) = v"
proof -
  obtain k where w: "bits_or_64 t = Suc k" using bits_eq[OF signed_integer[OF assms(1)]] by (cases "bits_or_64 t") auto
  have r: "- (2 ^ k) \<le> v" "v < 2 ^ k" using assms signed_range w by auto
  show ?thesis
  proof (cases "v < 0")
    case True
    have "v mod 2 ^ Suc k = (v + 2 ^ Suc k) mod 2 ^ Suc k" by (rule mod_add_self2[symmetric])
    also have "\<dots> = v + 2 ^ Suc k" using r True by (intro mod_pos_pos_trivial) simp_all
    finally have m: "v mod 2 ^ Suc k = v + 2 ^ Suc k" .
    have "(2::nat) ^ k \<le> nat (v + 2 ^ Suc k)" using r by (simp add: le_nat_iff)
    then show ?thesis using r unfolding w bv_sint_def m by simp
  next
    case False
    then have "v mod 2 ^ Suc k = v" using r by simp
    then show ?thesis using False r unfolding w bv_sint_def by (simp add: le_nat_iff)
  qed
qed


lemma uint_of_unsigned:
  assumes "is_integer t" "\<not> is_signed_int t" "fits t v"
  shows "int (nat (v mod 2 ^ bits_or_64 t)) = v"
  using assms unsigned_range by simp

lemma bv_mod: "bv w (v mod 2 ^ w) = bv w v"
  by (simp add: bv_def)

lemma bv_eqI: "a mod 2 ^ w = b mod 2 ^ w \<Longrightarrow> bv w a = bv w b"
  by (simp add: bv_def)

lemma bv_wrap: "is_integer t \<Longrightarrow> bv (bits_or_64 t) (wrap_ty t v) = bv (bits_or_64 t) v"
  by (erule is_integer_cases; rule bv_eqI)
    (simp_all add: wrap_ty_def bits_or_64_def mod_diff_left_eq mod_add_left_eq mod_simps)

lemma nat_bv: "int (nat (v mod 2 ^ w)) = v mod 2 ^ w"
  by simp

lemma bv_arith:
  "bv w (v mod 2 ^ w + u mod 2 ^ w) = bv w (v + u)"
  "bv w (v mod 2 ^ w - u mod 2 ^ w) = bv w (v - u)"
  "bv w (v mod 2 ^ w * (u mod 2 ^ w)) = bv w (v * u)"
  "bv w (- (v mod 2 ^ w)) = bv w (- v)"
  "bv w (v mod 2 ^ w * k) = bv w (v * k)"
  "bv w (k * (v mod 2 ^ w)) = bv w (k * v)"
  by (intro bv_eqI; simp add: mod_simps)+

lemma bv_bitwise:
  "bv w ((v mod 2 ^ w) AND (u mod 2 ^ w)) = bv w (v AND u)"
  "bv w ((v mod 2 ^ w) OR (u mod 2 ^ w)) = bv w (v OR u)"
  "bv w ((v mod 2 ^ w) XOR (u mod 2 ^ w)) = bv w (v XOR u)"
  by (intro bv_eqI; simp flip: take_bit_eq_mod; simp)+

section \<open>Operators\<close>

fun op_name :: "binary_op \<Rightarrow> bool \<Rightarrow> string" where
  "op_name Add sg = ''bvadd''" | "op_name Sub sg = ''bvsub''" | "op_name Mul sg = ''bvmul''"
| "op_name Div sg = (if sg then ''bvsdiv'' else ''bvudiv'')" | "op_name Rem sg = (if sg then ''bvsrem'' else ''bvurem'')"
| "op_name Lt sg = (if sg then ''bvslt'' else ''bvult'')" | "op_name Le sg = (if sg then ''bvsle'' else ''bvule'')"
| "op_name Gt sg = (if sg then ''bvsgt'' else ''bvugt'')" | "op_name Ge sg = (if sg then ''bvsge'' else ''bvuge'')"
| "op_name Eq sg = ''=''" | "op_name Ne sg = ''distinct''"
| "op_name BitAnd sg = ''bvand''" | "op_name BitOr sg = ''bvor''" | "op_name BitXor sg = ''bvxor''"
| "op_name Shl sg = ''bvshl''" | "op_name Shr sg = (if sg then ''bvashr'' else ''bvlshr'')"
| "op_name And sg = ''and''" | "op_name Or sg = ''or''"

definition result_type :: "binary_op \<Rightarrow> ty \<Rightarrow> ty" where
  "result_type op t = (if op \<in> {Eq, Ne, Lt, Le, Gt, Ge} then TBool else t)"

lemma encode_int_binary_name: "op \<notin> {And, Or, Shl, Shr} \<Longrightarrow> encode_int_binary op l r sg = Inr (app2 (op_name op sg) l r)"
  by (cases op) (simp_all add: encode_int_binary_def)

lemma sorted_bv: "is_integer t \<Longrightarrow> sorted_as t (bv (bits_or_64 t) v)"
  using bv_lt[of "bits_or_64 t" v] by (auto simp: sorted_as_def is_integer_def)

lemma bv_op_total:
  assumes "is_integer t" "op \<notin> {And, Or}"
  shows "\<exists>x. bv_op (op_name op sg) (bits_or_64 t) a b = Some x \<and> sorted_as (result_type op t) x"
proof -
  have b: "sorted_as TBool (SB c)" for c by (simp add: sorted_as_def)
  show ?thesis using assms b sorted_bv[OF assms(1)] by (cases op) (simp_all add: bv_op_def result_type_def)
qed

lemma trunc_div_nat: "int (a div b) = trunc_div (int a) (int b)"
  by (simp add: trunc_div_def sgn_if zdiv_int)

lemma trunc_rem_nat: "int (a mod b) = trunc_rem (int a) (int b)"
  unfolding trunc_rem_def trunc_div_nat[symmetric] by (metis mult_div_mod_eq of_nat_mult of_nat_diff mult.commute diff_add_cancel
    of_nat_add add_diff_cancel_left' mult_div_mod_eq)

lemma signed_op_exact:
  assumes "is_signed_int t" "fits t a" "fits t b" "int_binary op t a b = Done v" "op \<notin> {And, Or, Shl, Shr}"
  shows "bv_op (op_name op True) (bits_or_64 t) (nat (a mod 2 ^ bits_or_64 t)) (nat (b mod 2 ^ bits_or_64 t)) = Some (smt_of (result_type op t) v)"
proof -
  have t: "is_integer t" using signed_integer assms(1) by blast
  have s: "bv_sint (bits_or_64 t) (nat (a mod 2 ^ bits_or_64 t)) = a" "bv_sint (bits_or_64 t) (nat (b mod 2 ^ bits_or_64 t)) = b"
    using sint_of_signed assms by auto
  have z: "nat (b mod 2 ^ bits_or_64 t) = 0 \<longleftrightarrow> b = 0"
  proof
    assume "nat (b mod 2 ^ bits_or_64 t) = 0"
    with s(2) have "bv_sint (bits_or_64 t) 0 = b" by simp
    then show "b = 0" by (simp add: bv_sint_def)
  qed simp
  have e: "nat (a mod 2 ^ bits_or_64 t) = nat (b mod 2 ^ bits_or_64 t) \<longleftrightarrow> a = b" using s by metis
  show ?thesis using assms(4,5) s z e
    by (cases op) (auto simp: bv_op_def result_type_def bv_arith bv_bitwise bv_wrap[OF t] split: if_splits)
qed


lemma unsigned_op_exact:
  assumes "is_integer t" "\<not> is_signed_int t" "fits t a" "fits t b" "int_binary op t a b = Done v" "op \<notin> {And, Or, Shl, Shr}"
  shows "bv_op (op_name op False) (bits_or_64 t) (nat (a mod 2 ^ bits_or_64 t)) (nat (b mod 2 ^ bits_or_64 t)) = Some (smt_of (result_type op t) v)"
proof -
  define x y where "x = nat (a mod 2 ^ bits_or_64 t)" "y = nat (b mod 2 ^ bits_or_64 t)"
  have s: "a = int x" "b = int y" using uint_of_unsigned[OF assms(1,2)] assms(3,4) unfolding x_y_def by presburger+
  have op: "int_binary op t (int x) (int y) = Done v" using assms(5) s by simp
  have "bv_op (op_name op False) (bits_or_64 t) x y = Some (smt_of (result_type op t) v)"
    using assms(6) op
    by (cases op) (auto simp: bv_op_def result_type_def bv_wrap[OF assms(1)] trunc_div_nat trunc_rem_nat split: if_splits)
  then show ?thesis unfolding x_y_def .
qed

lemma result_has_ty:
  assumes "is_integer t" "int_binary op t a b = Done v"
  shows "has_ty (result_type op t) v"
  using assms wrap_ty_fits[OF assms(1)] by (cases op) (auto simp: result_type_def split: if_splits)

lemma term_op2: "f \<noteq> ''_'' \<Longrightarrow> term_value m (Lst [Atom f, x, y]) =
    Option.bind (term_value m x) (\<lambda>v. Option.bind (term_value m y) (smt_op2 f v))"
  by (cases x; cases y) simp_all

lemma op_name_atom: "is_atom (op_name op sg)" "op_name op sg \<noteq> ''_''"
  by (cases op; cases sg; simp add: is_atom_def atom_char_def ascii_def delimiter_def white_space_def)+

definition apply_op :: "binary_op \<Rightarrow> ty \<Rightarrow> val outcome \<Rightarrow> val outcome \<Rightarrow> val outcome" where
  "apply_op op t ra rb = bindO ra (\<lambda>a. bindO rb (\<lambda>b. scalar (exec_binary op t [a, b])))"

lemma apply_op_Done:
  assumes "apply_op op t ra rb = Done v"
  obtains a b where "ra = Done a" "rb = Done b" "scalar (exec_binary op t [a, b]) = Done v"
  using assms by (cases ra; cases rb; simp add: apply_op_def)

lemma has_ty_int: "is_integer t \<Longrightarrow> has_ty t a \<Longrightarrow> \<exists>i. a = VInt i \<and> fits t i"
  by (cases a) (auto simp: is_integer_def)

lemma has_ty_bool: "has_ty TBool a \<Longrightarrow> \<exists>b. a = VBool b"
  by (cases a) (auto simp: fits_def)

lemma smt_of_int: "smt_of t (VInt i) = BV (bits_or_64 t) (nat (i mod 2 ^ bits_or_64 t))"
  by (simp add: bv_def)

lemma int_op_means:
  assumes "is_integer t" "op \<notin> {And, Or, Shl, Shr}" "means m t l ra" "means m t r rb"
  shows "means m (result_type op t) (app2 (op_name op (is_signed_int t)) l r) (apply_op op t ra rb)"
proof -
  let ?f = "op_name op (is_signed_int t)" and ?w = "bits_or_64 t"
  obtain tl x where l: "spells l tl" "term_value m tl = Some x" "sorted_as t x" "\<And>v. ra = Done v \<Longrightarrow> has_ty t v \<and> x = smt_of t v"
    using assms(3) by (auto simp: means_def)
  obtain tr y where r: "spells r tr" "term_value m tr = Some y" "sorted_as t y" "\<And>v. rb = Done v \<Longrightarrow> has_ty t v \<and> y = smt_of t v"
    using assms(4) by (auto simp: means_def)
  obtain a b where xy: "x = BV ?w a" "y = BV ?w b"
    using l(3) r(3) assms(1) by (auto simp: sorted_as_def is_integer_def split: if_splits)
  obtain z where z: "bv_op ?f ?w a b = Some z" "sorted_as (result_type op t) z"
    using bv_op_total[OF assms(1)] assms(2) by blast
  have sp: "spells (app2 ?f l r) (Lst [Atom ?f, tl, tr])"
    using spells_app2 spells_atom op_name_atom l(1) r(1) by blast
  have tv: "term_value m (Lst [Atom ?f, tl, tr]) = Some z"
    by (simp add: term_op2 op_name_atom l(2) r(2) xy z(1))
  have "has_ty (result_type op t) v \<and> z = smt_of (result_type op t) v" if run: "apply_op op t ra rb = Done v" for v
  proof -
    obtain av bv where ab: "ra = Done av" "rb = Done bv" and d: "scalar (exec_binary op t [av, bv]) = Done v"
      using run by (rule apply_op_Done)
    obtain i where i: "av = VInt i" "fits t i" using l(4)[OF ab(1)] has_ty_int assms(1) by blast
    obtain j where j: "bv = VInt j" "fits t j" using r(4)[OF ab(2)] has_ty_int assms(1) by blast
    have d': "int_binary op t i j = Done v" using d i j by (simp add: scalar_def exec_binary_def)
    have "a = nat (i mod 2 ^ ?w)" "b = nat (j mod 2 ^ ?w)"
      using l(4)[OF ab(1)] r(4)[OF ab(2)] xy i j by (simp_all add: bv_def)
    then show ?thesis
      using z(1) d' i(2) j(2) assms(1,2) result_has_ty[OF assms(1) d'] signed_op_exact[of t i j op v] unsigned_op_exact[of t i j op v]
      by (cases "is_signed_int t") auto
  qed
  then show ?thesis unfolding means_def using sp tv z(2) by blast
qed


section \<open>Widths\<close>

text \<open>Extending or cutting the value of a type gives the same value at the other width.\<close>

lemma spells_indexed:
  "is_atom f \<Longrightarrow> is_atom n \<Longrightarrow> spells x t \<Longrightarrow>
    spells (''((_ '' @ f @ '' '' @ n @ '') '' @ x @ '')'') (Lst [Lst [Atom ''_'', Atom f, Atom n], t])"
  using spells_atom[of f] spells_atom[of n] by (simp add: spells_def toks_first toks_delim toks_step toks_Nil flush_def delimiter_def white_space_def ascii_def)

lemma spells_indexed2:
  "is_atom f \<Longrightarrow> is_atom n \<Longrightarrow> is_atom k \<Longrightarrow> spells x t \<Longrightarrow>
    spells (''((_ '' @ f @ '' '' @ n @ '' '' @ k @ '') '' @ x @ '')'') (Lst [Lst [Atom ''_'', Atom f, Atom n, Atom k], t])"
  using spells_atom[of f] spells_atom[of n] spells_atom[of k]
  by (simp add: spells_def toks_first toks_delim toks_step toks_Nil flush_def delimiter_def white_space_def ascii_def)

lemma atoms [simp]: "is_atom ''sign_extend''" "is_atom ''zero_extend''" "is_atom ''extract''" "is_atom ''0''" "is_atom ''ite''"
  "is_atom ''and''" "is_atom ''or''" "is_atom ''not''" "is_atom ''bvneg''" "is_atom ''true''" "is_atom ''false''" "is_atom ''_''" "is_atom ''=''"
  by (simp_all add: is_atom_def atom_char_def ascii_def delimiter_def white_space_def)

definition at_width :: "ty \<Rightarrow> nat \<Rightarrow> smt_model \<Rightarrow> string \<Rightarrow> val outcome \<Rightarrow> bool" where
  "at_width t w m s r \<longleftrightarrow> (\<exists>tm n. spells s tm \<and> term_value m tm = Some (BV w n) \<and> n < 2 ^ w \<and>
     (\<forall>v. r = Done v \<longrightarrow> (\<exists>i. v = VInt i \<and> fits t i \<and> BV w n = bv w i)))"

lemma mod_mod_le: "w \<le> k \<Longrightarrow> (i::int) mod 2 ^ k mod 2 ^ w = i mod 2 ^ w"
  by (simp add: mod_mod_cancel le_imp_power_dvd)

lemma resize_means:
  assumes "is_integer t" "0 < w" "means m t x r"
  shows "at_width t w m (resize w (is_signed_int t) (bits_or_64 t) x) r"
proof -
  let ?k = "bits_or_64 t"
  obtain tx n where x: "spells x tx" "term_value m tx = Some (BV ?k n)" "n < 2 ^ ?k"
    and d: "\<And>v. r = Done v \<Longrightarrow> has_ty t v \<and> BV ?k n = smt_of t v"
    using assms(1,3) by (auto simp: means_def sorted_as_def is_integer_def split: if_splits)
  have v: "\<exists>i. v = VInt i \<and> fits t i \<and> n = nat (i mod 2 ^ ?k)" if "r = Done v" for v
    using d[OF that] has_ty_int[OF assms(1)] by (fastforce simp: bv_def)
  consider "?k = w" | "?k < w" | "w < ?k" by linarith
  then show ?thesis
  proof cases
    case 1
    then show ?thesis using x v by (fastforce simp: at_width_def resize_def bv_def)
  next
    case 2
    let ?f = "if is_signed_int t then ''sign_extend'' else ''zero_extend''"
    let ?i = "if is_signed_int t then bv_sint ?k n else int n"
    have s: "spells (resize w (is_signed_int t) ?k x) (Lst [Lst [Atom ''_'', Atom ?f, Atom (show_nat (w - ?k))], tx])"
      using 2 spells_indexed[of ?f "show_nat (w - ?k)"] x(1) show_nat_atom by (auto simp: resize_def extend_by_def)
    have t: "term_value m (Lst [Lst [Atom ''_'', Atom ?f, Atom (show_nat (w - ?k))], tx]) = Some (bv w ?i)"
      using 2 x(2) by simp
    have e: "?i = i" if "n = nat (i mod 2 ^ ?k)" "fits t i" for i
      using sint_of_signed[OF _ that(2)] uint_of_unsigned[OF assms(1) _ that(2)] unfolding that(1) by presburger
    obtain k where k: "k < 2 ^ w" "bv w ?i = BV w k" using bv_lt by blast
    have "\<exists>i. v' = VInt i \<and> fits t i \<and> BV w k = bv w i" if "r = Done v'" for v'
      using v[OF that] e k(2) by metis
    then show ?thesis unfolding at_width_def using s t k by metis
  next
    case 3
    have s: "spells (resize w (is_signed_int t) ?k x) (Lst [Lst [Atom ''_'', Atom ''extract'', Atom (show_nat (w - 1)), Atom ''0''], tx])"
      using 3 spells_indexed2[of "''extract''" "show_nat (w - 1)" "''0''"] x(1) show_nat_atom by (auto simp: resize_def extract_low_def)
    have z: "numeral_of ''0'' = Some 0" by (simp add: numeral_of_def is_digit_char_def read_dec_def digit_value_def)
    have t: "term_value m (Lst [Lst [Atom ''_'', Atom ''extract'', Atom (show_nat (w - 1)), Atom ''0''], tx]) = Some (bv w (int n))"
      using 3 assms(2) x(2) z by simp
    have e: "bv w (int n) = bv w i" if "n = nat (i mod 2 ^ ?k)" for i
      using that 3 mod_mod_le[of w ?k i] by (intro bv_eqI) simp
    obtain k where k: "k < 2 ^ w" "bv w (int n) = BV w k" using bv_lt by blast
    have "\<exists>i. v' = VInt i \<and> fits t i \<and> BV w k = bv w i" if "r = Done v'" for v'
      using v[OF that] e k(2) by metis
    then show ?thesis unfolding at_width_def using s t k by metis
  qed
qed


lemma at_width_means:
  assumes "is_integer t" "at_width u (bits_or_64 t) m s r"
  shows "means m t s (bindO r (\<lambda>a. scalar (exec_cast t [a])))"
proof -
  obtain tx n where x: "spells s tx" "term_value m tx = Some (BV (bits_or_64 t) n)" "n < 2 ^ bits_or_64 t"
    and d: "\<And>v. r = Done v \<Longrightarrow> \<exists>i. v = VInt i \<and> fits u i \<and> BV (bits_or_64 t) n = bv (bits_or_64 t) i"
    using assms(2) by (auto simp: at_width_def)
  have "sorted_as t (BV (bits_or_64 t) n)" using x(3) assms(1) by (auto simp: sorted_as_def is_integer_def)
  moreover have "has_ty t v \<and> BV (bits_or_64 t) n = smt_of t v"
    if "bindO r (\<lambda>a. scalar (exec_cast t [a])) = Done v" for v
    using that d assms(1) wrap_ty_fits bv_wrap by (cases r) (auto simp: scalar_def exec_cast_def)
  ultimately show ?thesis using x by (fastforce simp: means_def)
qed

lemma shift_exact:
  assumes "is_integer t" "op \<in> {Shl, Shr}" "fits t a" "int_binary op t a b = Done v" "w = bits_or_64 t"
  shows "bv_op (op_name op (is_signed_int t)) w (nat (a mod 2 ^ w)) (nat (b mod 2 ^ w)) = Some (smt_of t v) \<and> has_ty t v"
proof -
  have ok: "shift_ok t b" using assms(2,4) by (auto split: if_splits)
  then have b: "0 \<le> b" "b < int w" using bits_eq[OF assms(1)] assms(5) by (auto simp: shift_ok_def)
  have "int w < 2 ^ w" using less_exp[of w] by (metis of_nat_less_iff of_nat_power of_nat_numeral)
  then have "b < 2 ^ w" using b by linarith
  then have m: "nat (b mod 2 ^ w) = nat b" using b by simp
  define r where "r = (if op = Shl then a * 2 ^ nat b else a div 2 ^ nat b)"
  have v: "v = VInt (wrap_ty t r)" using assms(2,4) ok by (auto simp: r_def)
  then have to: "smt_of t v = bv w r" "has_ty t v" using bv_wrap[OF assms(1)] wrap_ty_fits[OF assms(1)] assms(5) by simp_all
  have "bv_op (op_name op (is_signed_int t)) w (nat (a mod 2 ^ w)) (nat b) = Some (bv w r)"
  proof (cases "op = Shl")
    case True
    then show ?thesis by (simp add: bv_op_def bv_arith r_def)
  next
    case False
    then have op: "op = Shr" using assms(2) by simp
    show ?thesis
    proof (cases "is_signed_int t")
      case True
      then show ?thesis using sint_of_signed[OF True assms(3)] unfolding op assms(5)[symmetric] by (simp add: bv_op_def r_def op)
    next
      case False
      have "int (nat (a mod 2 ^ w)) = a" using uint_of_unsigned[OF assms(1) False assms(3)] unfolding assms(5) .
      then show ?thesis using False unfolding op by (simp only: bv_op_def op_name.simps r_def op) simp
    qed
  qed
  then show ?thesis using m to by simp
qed

lemma shift_means:
  assumes "is_integer t" "op \<in> {Shl, Shr}" "means m t l ra" "at_width u (bits_or_64 t) m r rb"
  shows "means m t (app2 (op_name op (is_signed_int t)) l r) (apply_op op t ra rb)"
proof -
  let ?f = "op_name op (is_signed_int t)" and ?w = "bits_or_64 t"
  obtain tl a where l: "spells l tl" "term_value m tl = Some (BV ?w a)" "\<And>v. ra = Done v \<Longrightarrow> has_ty t v \<and> BV ?w a = smt_of t v"
    using assms(1,3) by (auto simp: means_def sorted_as_def is_integer_def split: if_splits)
  obtain tr b where r: "spells r tr" "term_value m tr = Some (BV ?w b)"
    "\<And>v. rb = Done v \<Longrightarrow> \<exists>i. v = VInt i \<and> fits u i \<and> BV ?w b = bv ?w i"
    using assms(4) by (auto simp: at_width_def)
  have "result_type op t = t" using assms(2) by (auto simp: result_type_def)
  then obtain z where z: "bv_op ?f ?w a b = Some z" "sorted_as t z"
    using bv_op_total[OF assms(1), of op "is_signed_int t" a b] assms(2) by auto
  have sp: "spells (app2 ?f l r) (Lst [Atom ?f, tl, tr])"
    using spells_app2 spells_atom op_name_atom l(1) r(1) by blast
  have tv: "term_value m (Lst [Atom ?f, tl, tr]) = Some z"
    by (simp add: term_op2 op_name_atom l(2) r(2) z(1))
  have "has_ty t v \<and> z = smt_of t v" if run: "apply_op op t ra rb = Done v" for v
  proof -
    obtain av bv where ab: "ra = Done av" "rb = Done bv" and d: "scalar (exec_binary op t [av, bv]) = Done v"
      using run by (rule apply_op_Done)
    obtain i where i: "av = VInt i" "fits t i" "a = nat (i mod 2 ^ ?w)" using l(3)[OF ab(1)] has_ty_int assms(1) by (fastforce simp: bv_def)
    obtain j where j: "bv = VInt j" "b = nat (j mod 2 ^ ?w)" using r(3)[OF ab(2)] by (fastforce simp: bv_def)
    have "int_binary op t i j = Done v" using d i j by (simp add: scalar_def exec_binary_def)
    from shift_exact[OF assms(1,2) i(2) this refl] show ?thesis using z(1) i(3) j(2) by simp
  qed
  then show ?thesis unfolding means_def using sp tv z(2) by blast
qed


section \<open>Expressions\<close>

lemma infer_integer: "infer_int_type e V = Some t \<Longrightarrow> is_integer t"
proof (induction e V rule: infer_int_type.induct)
  case (1 k sp V)
  then show ?case
    by (cases k) (auto simp: typed_var_def or_if_none_def only_if_def is_integer_def[of TU64] Option.bind_eq_Some_conv split: if_splits option.splits)
qed

lemma operand_integer: "is_integer (operand_type V l r)" "is_integer (shift_type V l r)" "is_integer (source_type V e)"
proof -
  have i: "is_integer TI64" by (simp add: is_integer_def)
  then show o: "is_integer (operand_type V l r)"
    using infer_integer by (auto simp: operand_type_def or_if_none_def split: option.split)
  then show "is_integer (shift_type V l r)" using infer_integer by (auto simp: shift_type_def split: option.split)
  show "is_integer (source_type V e)" using infer_integer i by (auto simp: source_type_def split: option.split)
qed

lemma base_plain: "hash_char \<notin> set n \<Longrightarrow> base_name n = n"
  by (simp add: base_name_def parse_versioned_name_def)

lemma plain_not_float: "plain V t e \<Longrightarrow> \<not> infer_is_float e V"
proof (induction e V arbitrary: t rule: infer_is_float.induct)
  case (1 k sp V)
  then show ?case
    by (cases k) (auto simp: typed_var_def base_plain is_integer_def is_float_def split: if_splits)
qed

lemma spells_true: "spells ''true'' (Atom ''true'')" "spells ''false'' (Atom ''false'')"
  by (simp_all add: spells_atom)

text \<open>An assignment and the model made of it.\<close>

definition agrees :: "var_types \<Rightarrow> assignment \<Rightarrow> smt_model \<Rightarrow> bool" where
  "agrees V rho m \<longleftrightarrow> (\<forall>n t. V n = Some t \<longrightarrow> is_integer t \<or> t = TBool \<longrightarrow>
     (\<exists>v. rho n = Some v \<and> has_ty t v \<and> m (sanitize n) = Some (smt_of t v)))"

lemma sanitize_atom: "is_atom (sanitize n)"
proof -
  have "atom_char c" if "is_alnum_char c \<or> c = CHR ''_''" for c
    using that digit_atom_char[of c] by (auto simp: is_alnum_char_def atom_char_def ascii_def delimiter_def white_space_def)
  then have "list_all atom_char (map (\<lambda>ch. if length ch = 1 \<and> is_alnum_char (hd ch) then hd ch else CHR ''_'') cs)" for cs
    by (auto simp: list_all_iff)
  moreover have "atom_char CHR ''v''" by (simp add: atom_char_def ascii_def delimiter_def white_space_def)
  ultimately show ?thesis using \<open>\<And>c. is_alnum_char c \<or> c = CHR ''_'' \<Longrightarrow> atom_char c\<close>
    by (simp add: is_atom_def sanitize_def)
qed

lemma literal_means:
  assumes "is_integer t" "fits t v"
  shows "means m t (encode_int_literal_bv v (bits_or_64 t)) (Done (VInt v))"
proof -
  let ?w = "bits_or_64 t"
  have w: "min ?w 128 = ?w" using bits_eq[OF assms(1)] by simp
  have a: "is_atom (''bv'' @ show_nat n)" for n
    using show_nat_atom[of n] by (simp add: is_atom_def atom_char_def ascii_def delimiter_def white_space_def)
  have "spells (app2 ''_'' (''bv'' @ show_nat n) (show_nat ?w)) (Lst [Atom ''_'', Atom (''bv'' @ show_nat n), Atom (show_nat ?w)])" for n
    by (intro spells_app2 spells_atom a show_nat_atom) simp
  then have s: "spells (encode_int_literal_bv v ?w) (Lst [Atom ''_'', Atom (''bv'' @ show_nat (nat (v mod 2 ^ ?w))), Atom (show_nat ?w)])"
    using w by (simp add: encode_int_literal_bv_def app2_def)
  have t: "term_value m (Lst [Atom ''_'', Atom (''bv'' @ show_nat (nat (v mod 2 ^ ?w))), Atom (show_nat ?w)]) = Some (bv ?w v)"
    by (simp add: bv_literal_def strip_prefix_def bv_mod)
  show ?thesis unfolding means_def
    using s t sorted_bv[OF assms(1)] assms(2) by (intro exI[of _ "bv ?w v"] exI) auto
qed


lemma means_intE:
  assumes "means m t s r" "is_integer t"
  obtains tm n where "spells s tm" "term_value m tm = Some (BV (bits_or_64 t) n)" "n < 2 ^ bits_or_64 t"
    "\<And>v. r = Done v \<Longrightarrow> \<exists>i. v = VInt i \<and> fits t i \<and> BV (bits_or_64 t) n = bv (bits_or_64 t) i"
proof -
  obtain tm x where s: "spells s tm" "term_value m tm = Some x" "sorted_as t x"
    and d: "\<And>v. r = Done v \<Longrightarrow> has_ty t v \<and> x = smt_of t v" using assms(1) by (auto simp: means_def)
  obtain n where n: "n < 2 ^ bits_or_64 t" "x = BV (bits_or_64 t) n"
    using s(3) assms(2) by (auto simp: sorted_as_def is_integer_def split: if_splits)
  have "\<exists>i. v = VInt i \<and> fits t i \<and> BV (bits_or_64 t) n = bv (bits_or_64 t) i" if "r = Done v" for v
    using d[OF that] has_ty_int[OF assms(2)] n(2) by fastforce
  then show ?thesis using that s(1,2) n by blast
qed

lemma means_boolE:
  assumes "means m TBool s r"
  obtains tm b where "spells s tm" "term_value m tm = Some (SB b)" "\<And>v. r = Done v \<Longrightarrow> v = VBool b"
proof -
  obtain tm x where s: "spells s tm" "term_value m tm = Some x" "sorted_as TBool x"
    and d: "\<And>v. r = Done v \<Longrightarrow> has_ty TBool v \<and> x = smt_of TBool v" using assms by (auto simp: means_def)
  obtain b where b: "x = SB b" using s(3) by (auto simp: sorted_as_def)
  have "v = VBool b" if "r = Done v" for v using d[OF that] has_ty_bool b by fastforce
  then show ?thesis using that s(1,2) b by blast
qed

lemma means_boolI:
  "spells s tm \<Longrightarrow> term_value m tm = Some (SB b) \<Longrightarrow> (\<And>v. r = Done v \<Longrightarrow> v = VBool b) \<Longrightarrow> means m TBool s r"
  unfolding means_def sorted_as_def by (intro exI[of _ tm] exI[of _ "SB b"]) auto

lemma neg_means:
  assumes "is_integer t" "means m t s r"
  shows "means m t (app1 ''bvneg'' s) (bindO r (\<lambda>a. scalar (exec_unary UNeg t [a])))"
proof -
  obtain tx n where x: "spells s tx" "term_value m tx = Some (BV (bits_or_64 t) n)"
    and d: "\<And>v. r = Done v \<Longrightarrow> \<exists>i. v = VInt i \<and> fits t i \<and> BV (bits_or_64 t) n = bv (bits_or_64 t) i"
    using means_intE[OF assms(2,1)] by metis
  have "has_ty t v \<and> bv (bits_or_64 t) (- int n) = smt_of t v"
    if r: "bindO r (\<lambda>a. scalar (exec_unary UNeg t [a])) = Done v" for v
    using r d wrap_ty_fits[OF assms(1)] bv_wrap[OF assms(1)]
    by (cases r) (auto simp: scalar_def exec_unary_def bv_def mod_simps)
  then show ?thesis unfolding means_def
    using spells_app1[OF spells_atom x(1), of "''bvneg''"] x(2) sorted_bv[OF assms(1)]
    by (intro exI[of _ "Lst [Atom ''bvneg'', tx]"] exI[of _ "bv (bits_or_64 t) (- int n)"]) auto
qed

lemma not_means:
  assumes "means m TBool s r"
  shows "means m TBool (app1 ''not'' s) (bindO r (\<lambda>a. scalar (exec_unary UNot TBool [a])))"
proof -
  obtain tx b where x: "spells s tx" "term_value m tx = Some (SB b)" and d: "\<And>v. r = Done v \<Longrightarrow> v = VBool b"
    using means_boolE[OF assms] by metis
  have "v = VBool (\<not> b)" if r: "bindO r (\<lambda>a. scalar (exec_unary UNot TBool [a])) = Done v" for v
    using r d by (cases r) (auto simp: scalar_def exec_unary_def)
  then show ?thesis using spells_app1[OF spells_atom x(1), of "''not''"] x(2)
    by (intro means_boolI[of _ "Lst [Atom ''not'', tx]" m "\<not> b"]) auto
qed

text \<open>An operator on Booleans, given what the run makes of the operands it looks at.\<close>

lemma bool_op_means:
  assumes "means m TBool l ra" "means m TBool r rb" "is_atom f" "f \<noteq> ''_''" "\<And>a b. bool_op f a b = Some (SB (g a b))"
    "\<And>v x y. res = Done v \<Longrightarrow> (\<And>a. ra = Done a \<Longrightarrow> a = VBool x) \<Longrightarrow> (\<And>b. rb = Done b \<Longrightarrow> b = VBool y) \<Longrightarrow> v = VBool (g x y)"
  shows "means m TBool (app2 f l r) res"
proof -
  obtain tl x where l: "spells l tl" "term_value m tl = Some (SB x)" "\<And>v. ra = Done v \<Longrightarrow> v = VBool x"
    using means_boolE[OF assms(1)] by metis
  obtain tr y where r: "spells r tr" "term_value m tr = Some (SB y)" "\<And>v. rb = Done v \<Longrightarrow> v = VBool y"
    using means_boolE[OF assms(2)] by metis
  show ?thesis
  proof (rule means_boolI)
    show "spells (app2 f l r) (Lst [Atom f, tl, tr])" by (intro spells_app2 spells_atom assms(3) l(1) r(1))
    show "term_value m (Lst [Atom f, tl, tr]) = Some (SB (g x y))" by (simp add: term_op2 assms(4,5) l(2) r(2))
    show "v = VBool (g x y)" if "res = Done v" for v using assms(6)[OF that] l(3) r(3) by blast
  qed
qed

lemma connective_means:
  assumes "means m TBool l ra" "means m TBool r rb" "op \<in> {And, Or}"
  shows "means m TBool (app2 (op_name op sg) l r) (bindO ra (\<lambda>a. short_cut op a rb))"
proof (rule bool_op_means[OF assms(1,2) op_name_atom, where g = "if op = And then (\<and>) else (\<or>)"])
  show "bool_op (op_name op sg) a b = Some (SB ((if op = And then (\<and>) else (\<or>)) a b))" for a b
    using assms(3) by (auto simp: bool_op_def)
  show "v = VBool ((if op = And then (\<and>) else (\<or>)) x y)"
    if "bindO ra (\<lambda>a. short_cut op a rb) = Done v" "\<And>a. ra = Done a \<Longrightarrow> a = VBool x" "\<And>b. rb = Done b \<Longrightarrow> b = VBool y" for v x y
    using that assms(3) by (cases ra; cases rb) (auto simp: short_cut_def scalar_def exec_binary_def split: if_splits)
qed

lemma bool_equality_means:
  assumes "means m TBool l ra" "means m TBool r rb" "op \<in> {Eq, Ne}"
  shows "means m TBool (app2 (op_name op sg) l r) (apply_op op TBool ra rb)"
proof (rule bool_op_means[OF assms(1,2) op_name_atom, where g = "\<lambda>a b. (a = b) = (op = Eq)"])
  show "bool_op (op_name op sg) a b = Some (SB ((a = b) = (op = Eq)))" for a b
    using assms(3) by (auto simp: bool_op_def)
  show "v = VBool ((x = y) = (op = Eq))"
    if "apply_op op TBool ra rb = Done v" "\<And>a. ra = Done a \<Longrightarrow> a = VBool x" "\<And>b. rb = Done b \<Longrightarrow> b = VBool y" for v x y
    using that assms(3) by (cases ra; cases rb) (auto simp: apply_op_def scalar_def exec_binary_def)
qed

lemma ite_means:
  assumes "means m TBool c rc" "means m t x rx" "means m t y ry" "is_integer t \<or> t = TBool"
  shows "means m t (''(ite '' @ c @ '' '' @ x @ '' '' @ y @ '')'') (bindO rc (\<lambda>b. if b = VBool True then rx else ry))"
proof -
  obtain tc b where c: "spells c tc" "term_value m tc = Some (SB b)" "\<And>v. rc = Done v \<Longrightarrow> v = VBool b"
    using means_boolE[OF assms(1)] by metis
  obtain tx u where x: "spells x tx" "term_value m tx = Some u" "sorted_as t u" "\<And>v. rx = Done v \<Longrightarrow> has_ty t v \<and> u = smt_of t v"
    using assms(2) by (auto simp: means_def)
  obtain ty w where y: "spells y ty" "term_value m ty = Some w" "sorted_as t w" "\<And>v. ry = Done v \<Longrightarrow> has_ty t v \<and> w = smt_of t v"
    using assms(3) by (auto simp: means_def)
  have s: "spells (''(ite '' @ c @ '' '' @ x @ '' '' @ y @ '')'') (Lst [Atom ''ite'', tc, tx, ty])"
    using spells_app3[OF spells_atom c(1) x(1) y(1), of "''ite''"] by simp
  have i: "smt_ite (SB b) u w = Some (if b then u else w)"
    using x(3) y(3) by (auto simp: sorted_as_def split: if_splits)
  have t: "term_value m (Lst [Atom ''ite'', tc, tx, ty]) = Some (if b then u else w)"
    by (simp add: c(2) x(2) y(2) i)
  have "has_ty t v \<and> (if b then u else w) = smt_of t v" if "bindO rc (\<lambda>b. if b = VBool True then rx else ry) = Done v" for v
    using that c(3) x(4) y(4) by (cases rc) auto
  then show ?thesis unfolding means_def
    using s t x(3) y(3) by (intro exI[of _ "Lst [Atom ''ite'', tc, tx, ty]"] exI[of _ "if b then u else w"]) auto
qed


lemma plain_type: "plain V t e \<Longrightarrow> is_integer t \<or> t = TBool"
proof (induction e arbitrary: t rule: measure_induct_rule[of size])
  case (less e)
  obtain k sp where e: "e = Expr k sp" by (cases e) auto
  show ?case
  proof (cases k)
    case (KIfExpr c x y)
    then have "plain V t x" "size x < size e" using less(2) e by simp_all
    then show ?thesis using less(1) by blast
  qed (use less(2) e operand_integer in \<open>auto split: if_splits dest: fits_integer\<close>)
qed

text \<open>The operands of an operator, each encoded at the type it is used at.\<close>

definition encoded_well :: "var_types \<Rightarrow> assignment \<Rightarrow> smt_model \<Rightarrow> expr \<Rightarrow> encoder \<Rightarrow> bool" where
  "encoded_well V rho m e enc \<longleftrightarrow>
     (\<forall>u tg. plain V u e \<longrightarrow> (is_integer u \<longrightarrow> tg = Some u) \<longrightarrow> (\<exists>s. enc tg = Inr s \<and> means m u s (value_of V rho u e)))"

lemma encoded_wellD:
  assumes "encoded_well V rho m e enc" "plain V u e" "is_integer u \<longrightarrow> tg = Some u"
  obtains s where "enc tg = Inr s" "means m u s (value_of V rho u e)"
  using assms unfolding encoded_well_def by blast

lemma binary_int_means:
  assumes "plain V u l" "plain V u r" "u = operand_type V l r" "op \<notin> {And, Or, Shl, Shr}"
    "encoded_well V rho m l enc_l" "encoded_well V rho m r enc_r"
  shows "\<exists>s. encode_binary disp V op l r enc_l enc_r = Inr s \<and>
    means m (result_type op u) s (apply_op op u (value_of V rho u l) (value_of V rho u r))"
proof -
  have u: "is_integer u" using operand_integer assms(3) by simp
  obtain x where x: "enc_l (Some u) = Inr x" "means m u x (value_of V rho u l)" using encoded_wellD[OF assms(5,1)] by blast
  obtain y where y: "enc_r (Some u) = Inr y" "means m u y (value_of V rho u r)" using encoded_wellD[OF assms(6,2)] by blast
  have "encode_binary disp V op l r enc_l enc_r = Inr (app2 (op_name op (is_signed_int u)) x y)"
    using assms(3,4) x(1) y(1) plain_not_float[OF assms(1)] plain_not_float[OF assms(2)]
    by (simp add: encode_binary_def encode_int_binary_name Let_def)
  then show ?thesis using int_op_means[OF u assms(4) x(2) y(2)] by blast
qed

lemma binary_bool_means:
  assumes "plain V TBool l" "plain V TBool r" "op \<in> {And, Or, Eq, Ne}"
    "encoded_well V rho m l enc_l" "encoded_well V rho m r enc_r"
  shows "\<exists>s. encode_binary disp V op l r enc_l enc_r = Inr s \<and>
    means m TBool s (if op \<in> {And, Or} then bindO (value_of V rho TBool l) (\<lambda>a. short_cut op a (value_of V rho TBool r))
      else apply_op op TBool (value_of V rho TBool l) (value_of V rho TBool r))"
proof -
  let ?u = "operand_type V l r"
  have b: "is_integer TBool \<longrightarrow> Some ?u = Some TBool" by (simp add: is_integer_def)
  obtain x where x: "enc_l (Some ?u) = Inr x" "means m TBool x (value_of V rho TBool l)" by (rule encoded_wellD[OF assms(4,1) b])
  obtain y where y: "enc_r (Some ?u) = Inr y" "means m TBool y (value_of V rho TBool r)" by (rule encoded_wellD[OF assms(5,2) b])
  have "encode_binary disp V op l r enc_l enc_r = Inr (app2 (op_name op (is_signed_int ?u)) x y)"
    using assms(3) x(1) y(1) plain_not_float[OF assms(1)] plain_not_float[OF assms(2)]
    by (auto simp: encode_binary_def encode_int_binary_name Let_def)
  then show ?thesis using connective_means[OF x(2) y(2)] bool_equality_means[OF x(2) y(2)] assms(3) by auto
qed

lemma binary_shift_means:
  assumes "plain V u l" "plain V (shift_type V l r) r" "u = operand_type V l r" "op \<in> {Shl, Shr}"
    "encoded_well V rho m l enc_l" "encoded_well V rho m r enc_r"
  shows "\<exists>s. encode_binary disp V op l r enc_l enc_r = Inr s \<and>
    means m u s (apply_op op u (value_of V rho u l) (value_of V rho (shift_type V l r) r))"
proof -
  let ?w = "shift_type V l r"
  have u: "is_integer u" "is_integer ?w" using operand_integer assms(3) by simp_all
  obtain x where x: "enc_l (Some u) = Inr x" "means m u x (value_of V rho u l)" using encoded_wellD[OF assms(5,1)] by blast
  obtain y where y: "enc_r (Some ?w) = Inr y" "means m ?w y (value_of V rho ?w r)" using encoded_wellD[OF assms(6,2)] by blast
  let ?y = "resize (bits_or_64 u) (is_signed_int ?w) (bits_or_64 ?w) y"
  have "at_width ?w (bits_or_64 u) m ?y (value_of V rho ?w r)"
    using resize_means[OF u(2) _ y(2)] bits_eq[OF u(1)] by simp
  note means = shift_means[OF u(1) assms(4) x(2) this]
  have "encode_binary disp V op l r enc_l enc_r = Inr (app2 (op_name op (is_signed_int u)) x ?y)"
    using assms(3,4) x(1) y(1) plain_not_float[OF assms(1)] plain_not_float[OF assms(2)]
    by (auto simp: encode_binary_def encode_shift_def shift_type_def Let_def)
  then show ?thesis using means by blast
qed

lemma binary_means:
  assumes "plain V t (Expr (KBinary op l r) sp)" "encoded_well V rho m l enc_l" "encoded_well V rho m r enc_r"
  shows "\<exists>s. encode_binary disp V op l r enc_l enc_r = Inr s \<and> means m t s (value_of V rho t (Expr (KBinary op l r) sp))"
proof -
  let ?u = "operand_type V l r"
  consider "op \<in> {And, Or}" | "op \<in> {Shl, Shr}" | "op \<in> {Eq, Ne}" | "op \<notin> {And, Or, Shl, Shr, Eq, Ne}" by blast
  then show ?thesis
  proof cases
    case 1
    then show ?thesis using assms(1) binary_bool_means[OF _ _ _ assms(2,3), of op disp] by auto
  next
    case 2
    then show ?thesis using assms(1) binary_shift_means[OF _ _ refl 2 assms(2,3), of disp] by (auto simp: apply_op_def Let_def)
  next
    case 3
    show ?thesis
    proof (cases "plain V TBool l \<and> plain V TBool r")
      case True
      then show ?thesis using 3 assms(1) binary_bool_means[OF _ _ _ assms(2,3), of op disp] by (auto simp: apply_op_def Let_def)
    next
      case False
      then show ?thesis using 3 assms(1) binary_int_means[OF _ _ refl _ assms(2,3), of op disp]
        by (auto simp: apply_op_def result_type_def Let_def)
    qed
  next
    case 4
    then show ?thesis using assms(1) binary_int_means[OF _ _ refl _ assms(2,3), of op disp]
      by (auto simp: apply_op_def result_type_def Let_def)
  qed
qed

lemma encode_means:
  assumes "agrees V rho m"
  shows "plain V t e \<Longrightarrow> (is_integer t \<longrightarrow> target = Some t) \<Longrightarrow>
    \<exists>s. encode_expr disp V vs e target = Inr s \<and> means m t s (value_of V rho t e)"
proof (induction e arbitrary: t target rule: measure_induct_rule[of size])
  case (less e)
  obtain k sp where e: "e = Expr k sp" by (cases e) auto
  have IH: "\<exists>s. encode_expr disp V vs e' (Some u) = Inr s \<and> means m u s (value_of V rho u e')"
    if "size e' < size e" "plain V u e'" for e' u
    using less(1)[OF that] by blast
  have IHb: "\<exists>s. encode_expr disp V vs e' tg = Inr s \<and> means m TBool s (value_of V rho TBool e')"
    if "size e' < size e" "plain V TBool e'" for e' tg
    using less(1)[OF that, of tg] by (auto simp: is_integer_def)
  show ?case
  proof (cases k)
    case (KInt v)
    then have "fits t v" "is_integer t" using less(2) e by (auto dest: fits_integer)
    then show ?thesis using literal_means[of t v m] less(3) e KInt by simp
  next
    case (KBool b)
    have "means m TBool (if b then ''true'' else ''false'') (Done (VBool b))"
      by (rule means_boolI[of _ "Atom (if b then ''true'' else ''false'')"]) (auto simp: spells_true atom_value_def)
    then show ?thesis using less(2) e KBool by simp
  next
    case (KVar n)
    then have n: "hash_char \<notin> set n" "V n = Some t" "is_integer t \<or> t = TBool" using less(2) e by simp_all
    obtain v where v: "rho n = Some v" "has_ty t v" "m (sanitize n) = Some (smt_of t v)"
      using assms n by (fastforce simp: agrees_def)
    have "atom_value m (sanitize n) = Some (smt_of t v)"
      using v(3) by (simp add: atom_value_def sanitize_def)
    moreover have "sorted_as t (smt_of t v)"
      using v(2) sorted_bv[of t] fits_integer[of t] by (cases v) (auto simp: sorted_as_def[of TBool])
    ultimately have "means m t (sanitize n) (Done v)"
      using spells_atom[OF sanitize_atom[of n]] v(2) unfolding means_def by (intro exI[of _ "Atom (sanitize n)"]) auto
    then show ?thesis using n v(1) e KVar by (auto simp: encode_var_def supported_sort_def)
  next
    case (KUnary op x)
    show ?thesis
    proof (cases op)
      case UNeg
      then have t: "is_integer t" "plain V t x" "target = Some t" using less(2,3) e KUnary by simp_all
      obtain s where s: "encode_expr disp V vs x (Some t) = Inr s" "means m t s (value_of V rho t x)"
        using IH[of x t] t(2) e KUnary by auto
      show ?thesis using neg_means[OF t(1) s(2)] s(1) t(3) plain_not_float[OF t(2)] e KUnary UNeg by (simp add: encode_unary_def)
    next
      case UNot
      then have t: "t = TBool" "plain V TBool x" using less(2) e KUnary by auto
      obtain s where s: "encode_expr disp V vs x target = Inr s" "means m TBool s (value_of V rho TBool x)"
        using IHb[of x target] t(2) e KUnary by auto
      show ?thesis using not_means[OF s(2)] s(1) t(1) e KUnary UNot by (simp add: encode_unary_def)
    qed
  next
    case (KBinary op l r)
    have "encoded_well V rho m l (encode_expr disp V vs l)" "encoded_well V rho m r (encode_expr disp V vs r)"
      unfolding encoded_well_def using less(1)[of l] less(1)[of r] e KBinary by simp_all
    then show ?thesis using binary_means[of V t op l r sp rho m _ _ disp] less(2) e KBinary by simp
  next
    case (KCast x u)
    then have u: "t = u" "is_integer u" "plain V (source_type V x) x" using less(2) e by simp_all
    obtain s where s: "encode_expr disp V vs x (Some (source_type V x)) = Inr s"
        "means m (source_type V x) s (value_of V rho (source_type V x) x)"
      using IH[of x] u(3) e KCast by auto
    have "means m u (resize (bits_or_64 u) (is_signed_int (source_type V x)) (bits_or_64 (source_type V x)) s)
        (bindO (value_of V rho (source_type V x) x) (\<lambda>a. scalar (exec_cast u [a])))"
      using at_width_means[OF u(2)] resize_means[OF operand_integer(3) _ s(2)] bits_eq[OF u(2)] by blast
    then show ?thesis using s(1) u plain_not_float[OF u(3)] bits_eq[OF u(2)] e KCast
      by (auto simp: encode_cast_def expectE_def source_type_def Let_def)
  next
    case (KIfExpr c x y)
    then have p: "plain V TBool c" "plain V t x" "plain V t y" using less(2) e by simp_all
    obtain sc where c: "encode_expr disp V vs c None = Inr sc" "means m TBool sc (value_of V rho TBool c)"
      using IHb[of c None] p(1) e KIfExpr by auto
    obtain sx where x: "encode_expr disp V vs x target = Inr sx" "means m t sx (value_of V rho t x)"
      using less(1)[OF _ p(2) less(3)] e KIfExpr by auto
    obtain sy where y: "encode_expr disp V vs y target = Inr sy" "means m t sy (value_of V rho t y)"
      using less(1)[OF _ p(3) less(3)] e KIfExpr by auto
    show ?thesis using ite_means[OF c(2) x(2) y(2) plain_type[OF p(2)]] c(1) x(1) y(1) e KIfExpr by simp
  qed (use less(2) e in auto)
qed

end
