(* ===== verification/SmtProve.thy ===== *)
theory SmtProve
  imports SmtSound
begin

text \<open>
  From the texts of expressions to the verdict: the script of a query is read back as its declarations
  and assertions, and an assignment for the variables makes a model of the declarations.
\<close>

section \<open>The lines of a script\<close>

definition spelled :: "string \<Rightarrow> sexp list \<Rightarrow> bool" where
  "spelled s cmds \<longleftrightarrow> list_all ascii s \<and> list_all plain_atoms cmds \<and> (\<forall>b. toks [] (s @ b) = concat (map flat cmds) @ toks [] b)"

lemma spelled_Nil [simp]: "spelled [] []"
  by (simp add: spelled_def)

lemma spelled_append: "spelled a xs \<Longrightarrow> spelled b ys \<Longrightarrow> spelled (a @ b) (xs @ ys)"
  by (simp add: spelled_def)

lemma spelled_line: "spells s t \<Longrightarrow> spelled (s @ [newline_char]) [t]"
  using toks_split[of newline_char "[]" s] by (simp add: spelled_def spells_def)

lemma spelled_read: "spelled s cmds \<Longrightarrow> read_script s = Some cmds"
  using read_flats[of cmds "[]"] by (simp add: spelled_def read_script_def tokenize_ascii) (metis append_Nil2 toks_empty)

lemma spelled_concat: "(\<And>x. x \<in> set xs \<Longrightarrow> spelled (f x) (g x)) \<Longrightarrow> spelled (concat (map f xs)) (concat (map g xs))"
  by (induction xs) (simp_all add: spelled_append)

section \<open>Declarations\<close>

definition decl_cmd :: "string \<Rightarrow> sexp \<Rightarrow> sexp" where
  "decl_cmd name s = Lst [Atom ''declare-const'', Atom name, s]"

lemma decl_cmd_simps [simp]:
  "holds_in m (decl_cmd name s) = of_sort s (m name)"
  by (simp_all add: decl_cmd_def)

lemma sort_atoms [simp]: "is_atom ''declare-const''" "is_atom ''BitVec''" "is_atom ''Bool''" "is_atom ''FloatingPoint''" "is_atom ''Array''"
  "is_atom ''8''" "is_atom ''24''" "is_atom ''11''" "is_atom ''53''" "is_atom ''assert''" "is_atom ''set-logic''" "is_atom ''ALL''"
  "is_atom ''check-sat''" "is_atom ''get-model''"
  by (simp_all add: is_atom_def atom_char_def ascii_def delimiter_def white_space_def)

lemma spelled_declare: "is_atom name \<Longrightarrow> spells str s \<Longrightarrow> spelled (declare_const name str) [decl_cmd name s]"
  using spelled_line[OF spells_app2[OF spells_atom[of "''declare-const''"] spells_atom[of name], of str s]]
  by (simp add: declare_const_def app2_def decl_cmd_def)

definition bv_sort_term :: "nat \<Rightarrow> sexp" where
  "bv_sort_term w = Lst [Atom ''_'', Atom ''BitVec'', Atom (show_nat w)]"

lemma spells_bv_sort: "spells (bv_sort w) (bv_sort_term w)"
  using spells_app2[OF spells_atom[of "''_''"] spells_atom[of "''BitVec''"] spells_atom[OF show_nat_atom[of w]]]
  by (simp add: bv_sort_def app2_def bv_sort_term_def)

lemma of_bv_sort: "of_sort (bv_sort_term w) (Some (bv w v))"
  using bv_lt[of w v] by (auto simp: of_sort_def bv_sort_term_def)

definition loose :: "sexp \<Rightarrow> bool" where
  "loose s \<longleftrightarrow> (\<forall>v. of_sort s v)"

lemma fp_sort_spelled: "is_float t \<Longrightarrow> \<exists>str s. fp_sort t = Some str \<and> spells str s \<and> loose s"
proof -
  have "spells ''(_ FloatingPoint 8 24)'' (Lst [Atom ''_'', Atom ''FloatingPoint'', Atom ''8'', Atom ''24''])"
    "spells ''(_ FloatingPoint 11 53)'' (Lst [Atom ''_'', Atom ''FloatingPoint'', Atom ''11'', Atom ''53''])"
    using spells_app3[OF spells_atom[of "''_''"] spells_atom[of "''FloatingPoint''"] spells_atom[of "''8''"] spells_atom[of "''24''"]]
      spells_app3[OF spells_atom[of "''_''"] spells_atom[of "''FloatingPoint''"] spells_atom[of "''11''"] spells_atom[of "''53''"]]
    by simp_all
  moreover assume "is_float t"
  ultimately show ?thesis unfolding is_float_def by (fastforce simp: fp_sort_def loose_def of_sort_def)
qed

section \<open>The model of an assignment\<close>

definition var_entries :: "versions \<Rightarrow> assignment \<Rightarrow> string \<times> ty \<Rightarrow> (string \<times> smt_val) list" where
  "var_entries versions rho v = (case v of (n, t) \<Rightarrow>
     (if is_vec (deref t) then [(sanitize n @ ''_len'', BV 64 0)] else []) @
     (case smt_array_element t of None \<Rightarrow> []
        | Some e \<Rightarrow> map (\<lambda>k. (array_name n k, SB False)) [0..<version_of versions n + 1]) @
     (if supported_sort t then [(sanitize n, smt_of t (the (rho n)))] else []))"

text \<open>The names the script declares.\<close>

definition script_names :: "versions \<Rightarrow> (string \<times> ty) list \<Rightarrow> string list" where
  "script_names versions vars = concat (map (\<lambda>(n, t).
     (if is_vec (deref t) then [sanitize n @ ''_len''] else []) @
     (case smt_array_element t of None \<Rightarrow> [] | Some e \<Rightarrow> map (array_name n) [0..<version_of versions n + 1]) @
     (if supported_sort t then [sanitize n] else [])) vars)"

lemma entries_names: "map fst (concat (map (var_entries versions rho) vars)) = script_names versions vars"
  by (induction vars) (auto simp: script_names_def var_entries_def split: option.split)

definition model_of :: "versions \<Rightarrow> assignment \<Rightarrow> (string \<times> ty) list \<Rightarrow> smt_model" where
  "model_of versions rho vars = map_of (concat (map (var_entries versions rho) vars))"

text \<open>Commands that hold where the entries are the values.\<close>

definition declares_entries :: "string \<Rightarrow> (string \<times> smt_val) list \<Rightarrow> bool" where
  "declares_entries str es \<longleftrightarrow> (\<exists>cmds. spelled str cmds \<and>
     (\<forall>m. (\<forall>(a, x)\<in>set es. m a = Some x) \<longrightarrow> list_all (holds_in m) cmds))"

lemma declares_Nil [simp]: "declares_entries [] []"
  unfolding declares_entries_def by (rule exI[of _ "[]"]) simp

lemma declares_append: "declares_entries a xs \<Longrightarrow> declares_entries b ys \<Longrightarrow> declares_entries (a @ b) (xs @ ys)"
  unfolding declares_entries_def
proof (elim exE)
  fix c d
  assume c: "spelled a c \<and> (\<forall>m. (\<forall>(a, x)\<in>set xs. m a = Some x) \<longrightarrow> list_all (holds_in m) c)"
    and d: "spelled b d \<and> (\<forall>m. (\<forall>(a, x)\<in>set ys. m a = Some x) \<longrightarrow> list_all (holds_in m) d)"
  have "spelled (a @ b) (c @ d)" using c d by (simp add: spelled_append)
  moreover have "list_all (holds_in m) (c @ d)" if "\<forall>(a, x)\<in>set (xs @ ys). m a = Some x" for m
    using that c d by auto
  ultimately show "\<exists>cmds. spelled (a @ b) cmds \<and> (\<forall>m. (\<forall>(a, x)\<in>set (xs @ ys). m a = Some x) \<longrightarrow> list_all (holds_in m) cmds)" by blast
qed

lemma declares_one: "is_atom name \<Longrightarrow> spells str s \<Longrightarrow> of_sort s (Some x) \<Longrightarrow> declares_entries (declare_const name str) [(name, x)]"
  unfolding declares_entries_def using spelled_declare[of name str s] by (intro exI[of _ "[decl_cmd name s]"]) simp

lemma declares_concat:
  "(\<And>k. k \<in> set ks \<Longrightarrow> declares_entries (f k) [g k]) \<Longrightarrow> declares_entries (concat (map f ks)) (map g ks)"
proof (induction ks)
  case (Cons k ks)
  then show ?case using declares_append[of "f k" "[g k]" "concat (map f ks)" "map g ks"] by simp
qed simp

lemma array_name_atom: "is_atom (array_name n k)" "is_atom (sanitize n @ ''_len'')"
  using sanitize_atom[of n] show_nat_atom[of k]
  by (simp_all add: array_name_def is_atom_def atom_char_def ascii_def delimiter_def white_space_def)

lemma show_64: "show_nat 64 = ''64''"
  by code_simp

lemma array_sort_spelled:
  "spells e s \<Longrightarrow> spells (''(Array (_ BitVec 64) '' @ e @ '')'') (Lst [Atom ''Array'', bv_sort_term 64, s])"
  using spells_app2[OF spells_atom[of "''Array''"] spells_bv_sort[of 64], of e s]
  by (simp add: app2_def bv_sort_def show_64)

lemma element_sort_spelled:
  assumes "is_integer e \<or> e = TBool \<or> is_float e"
  shows "\<exists>str s. (if is_integer e then bindE (expectE (int_bits e)) (\<lambda>w. Inr (bv_sort w))
     else if e = TBool then Inr ''Bool'' else expectE (fp_sort e)) = (Inr str :: (string, string) res) \<and> spells str s"
proof -
  consider "is_integer e" | "e = TBool" "\<not> is_integer e" | "is_float e" "\<not> is_integer e" "e \<noteq> TBool"
    using assms by blast
  then show ?thesis
  proof cases
    case 1
    then show ?thesis using bits_eq[OF 1] spells_bv_sort[of "bits_or_64 e"] by (auto simp: expectE_def)
  next
    case 2
    then show ?thesis using spells_atom[of "''Bool''"] by auto
  next
    case 3
    then show ?thesis using fp_sort_spelled[OF 3(1)] by (auto simp: expectE_def)
  qed
qed

lemma arrays_declared:
  "\<exists>str. emit_versioned_array_declarations n t versions = Inr str \<and> declares_entries str
     (case smt_array_element t of None \<Rightarrow> [] | Some e \<Rightarrow> map (\<lambda>k. (array_name n k, SB False)) [0..<version_of versions n + 1])"
proof (cases "smt_array_element t")
  case None
  then show ?thesis by (simp add: emit_versioned_array_declarations_def)
next
  case (Some e)
  then have "is_integer e \<or> e = TBool \<or> is_float e" by (auto simp: smt_array_element_def split: option.splits if_splits)
  from element_sort_spelled[OF this] obtain str s where e: "(if is_integer e then bindE (expectE (int_bits e)) (\<lambda>w. Inr (bv_sort w))
     else if e = TBool then Inr ''Bool'' else expectE (fp_sort e)) = (Inr str :: (string, string) res)" and s: "spells str s" by blast
  have "declares_entries (declare_const (array_name n k) (''(Array (_ BitVec 64) '' @ str @ '')'')) [(array_name n k, SB False)]" for k
    by (rule declares_one[OF array_name_atom(1) array_sort_spelled[OF s]]) (simp add: of_sort_def bv_sort_term_def)
  then have "declares_entries (concat (map (\<lambda>k. declare_const (array_name n k) (''(Array (_ BitVec 64) '' @ str @ '')'')) [0..<version_of versions n + 1]))
      (map (\<lambda>k. (array_name n k, SB False)) [0..<version_of versions n + 1])"
    by (intro declares_concat)
  then show ?thesis using Some e by (simp add: emit_versioned_array_declarations_def declare_const_def)
qed

lemma scalar_declared:
  assumes "is_integer t \<or> t = TBool \<Longrightarrow> \<exists>v. rho n = Some v \<and> has_ty t v"
  shows "\<exists>str. (if \<not> supported_sort t then Inr []
            else if is_integer t then bindE (expectE (int_bv_sort t)) (\<lambda>s. Inr (declare_const (sanitize n) s))
            else if is_float t then bindE (expectE (fp_sort t)) (\<lambda>s. Inr (declare_const (sanitize n) s))
            else Inr (declare_const (sanitize n) ''Bool'')) = (Inr str :: (string, string) res) \<and>
     declares_entries str (if supported_sort t then [(sanitize n, smt_of t (the (rho n)))] else [])"
proof -
  consider "is_integer t" | "is_float t" "\<not> is_integer t" | "t = TBool" "\<not> is_integer t" "\<not> is_float t" | "\<not> supported_sort t"
    by (auto simp: supported_sort_def)
  then show ?thesis
  proof cases
    case 1
    then obtain i where "rho n = Some (VInt i)" using assms has_ty_int by blast
    then have "declares_entries (declare_const (sanitize n) (bv_sort (bits_or_64 t))) [(sanitize n, smt_of t (the (rho n)))]"
      by (intro declares_one[OF sanitize_atom spells_bv_sort]) (simp add: of_bv_sort)
    then show ?thesis using 1 bits_eq[OF 1] by (simp add: supported_sort_def int_bv_sort_def expectE_def)
  next
    case 2
    then obtain str s where "fp_sort t = Some str" "spells str s" "loose s" using fp_sort_spelled by blast
    then show ?thesis using 2 declares_one[OF sanitize_atom[of n], of str s] by (simp add: supported_sort_def expectE_def loose_def)
  next
    case 3
    then obtain b where "rho n = Some (VBool b)" using assms has_ty_bool by blast
    then show ?thesis using 3 declares_one[OF sanitize_atom[of n] spells_atom[of "''Bool''"], of "SB b"]
      by (simp add: supported_sort_def of_sort_def)
  qed simp
qed

lemma var_declared:
  assumes "is_integer t \<or> t = TBool \<Longrightarrow> \<exists>v. rho n = Some v \<and> has_ty t v"
  shows "\<exists>str. emit_var versions (n, t) = Inr str \<and> declares_entries str (var_entries versions rho (n, t))"
proof -
  obtain a where a: "emit_versioned_array_declarations n t versions = Inr a" "declares_entries a
     (case smt_array_element t of None \<Rightarrow> [] | Some e \<Rightarrow> map (\<lambda>k. (array_name n k, SB False)) [0..<version_of versions n + 1])"
    using arrays_declared by blast
  have l: "declares_entries (if is_vec (deref t) then declare_const (sanitize n @ ''_len'') (bv_sort 64) else [])
      (if is_vec (deref t) then [(sanitize n @ ''_len'', BV 64 0)] else [])"
    using declares_one[OF array_name_atom(2) spells_bv_sort, of 64 "bv 64 0" n] of_bv_sort[of 64 0] by (simp add: bv_def)
  obtain b where b: "(if \<not> supported_sort t then Inr []
            else if is_integer t then bindE (expectE (int_bv_sort t)) (\<lambda>s. Inr (declare_const (sanitize n) s))
            else if is_float t then bindE (expectE (fp_sort t)) (\<lambda>s. Inr (declare_const (sanitize n) s))
            else Inr (declare_const (sanitize n) ''Bool'')) = (Inr b :: (string, string) res)"
     "declares_entries b (if supported_sort t then [(sanitize n, smt_of t (the (rho n)))] else [])"
    using scalar_declared[of t rho n, OF assms] by blast
  show ?thesis unfolding emit_var_def prod.case a(1) b(1) bindE_simps var_entries_def
    using declares_append[OF l declares_append[OF a(2) b(2)]] by blast
qed

lemma vars_declared:
  assumes "\<forall>(n, t)\<in>set vars. is_integer t \<or> t = TBool \<longrightarrow> (\<exists>v. rho n = Some v \<and> has_ty t v)"
  shows "\<exists>str. emit_vars versions vars = Inr str \<and> declares_entries str (concat (map (var_entries versions rho) vars))"
  using assms
proof (induction vars)
  case (Cons v vars)
  obtain n t where v: "v = (n, t)" by (cases v)
  obtain a where "emit_var versions v = Inr a" "declares_entries a (var_entries versions rho v)"
    using var_declared[of t rho n versions] Cons.prems v by auto
  moreover obtain b where "emit_vars versions vars = Inr b" "declares_entries b (concat (map (var_entries versions rho) vars))"
    using Cons by auto
  ultimately show ?case using declares_append by fastforce
qed simp

section \<open>Assertions\<close>

definition refused :: "encoded \<Rightarrow> bool" where
  "refused r \<longleftrightarrow> (\<exists>reason. r = Inl (Fail reason))"

lemma spelled_assert: "spells x t \<Longrightarrow> spelled (''(assert '' @ x @ '')'' @ [newline_char]) [Lst [Atom ''assert'', t]]"
  using spelled_line[OF spells_app1[OF spells_atom[of "''assert''"], of x t]] by (simp add: app1_def)

lemma means_true: "means m TBool x (Done (VBool b)) \<Longrightarrow> \<exists>t. spells x t \<and> term_value m t = Some (SB b)"
  by (auto simp: means_def)

lemma facts_asserted:
  assumes "\<forall>f\<in>set facts. refused (enc f) \<or> (\<exists>x t. enc f = Inr x \<and> spells x t \<and> term_value m t = Some (SB True))"
  shows "\<exists>str cmds. assert_facts enc facts = Inr str \<and> spelled str cmds \<and> list_all (holds_in m) cmds"
  using assms
proof (induction facts)
  case Nil
  show ?case by (intro exI[of _ "[]"]) simp
next
  case (Cons f facts)
  then obtain str cmds where IH: "assert_facts enc facts = Inr str" "spelled str cmds" "list_all (holds_in m) cmds"
    using Cons.IH Cons.prems by (meson list.set_intros(2))
  consider reason where "enc f = Inl (Fail reason)" | x t where "enc f = Inr x" "spells x t" "term_value m t = Some (SB True)"
    using Cons.prems unfolding refused_def by (meson list.set_intros(1))
  then show ?case
  proof cases
    case 1
    then show ?thesis using IH by (intro exI[of _ str] exI[of _ cmds]) simp
  next
    case 2
    then have "spelled (''(assert '' @ x @ '')'' @ [newline_char] @ str) (Lst [Atom ''assert'', t] # cmds)"
      using spelled_append[OF spelled_assert[OF 2(2)] IH(2)] by simp
    then show ?thesis using IH 2 by (intro exI[of _ "''(assert '' @ x @ '')'' @ [newline_char] @ str"] exI[of _ "Lst [Atom ''assert'', t] # cmds"]) simp
  qed
qed


section \<open>Proved claims\<close>

lemma declared_in: "declared vars n = Some t \<Longrightarrow> (n, t) \<in> set vars"
proof -
  have "fold (\<lambda>(n, t) m. m(n \<mapsto> t)) vs m n = Some t \<Longrightarrow> (n, t) \<in> set vs \<or> m n = Some t" for vs m
    by (induction vs arbitrary: m) (fastforce split: prod.splits if_splits)+
  then show "declared vars n = Some t \<Longrightarrow> (n, t) \<in> set vars" unfolding declared_def by fastforce
qed

lemma model_agrees:
  assumes "\<forall>(n, t)\<in>set vars. is_integer t \<or> t = TBool \<longrightarrow> (\<exists>v. rho n = Some v \<and> has_ty t v)"
    "distinct (script_names versions vars)"
  shows "agrees (declared vars) rho (model_of versions rho vars)"
  unfolding agrees_def
proof (intro allI impI)
  fix n t assume n: "declared vars n = Some t" "is_integer t \<or> t = TBool"
  from declared_in[OF n(1)] have v: "(n, t) \<in> set vars" .
  then obtain v where r: "rho n = Some v" "has_ty t v" using assms(1) n(2) by blast
  have "(sanitize n, smt_of t v) \<in> set (var_entries versions rho (n, t))"
    using r(1) n(2) by (auto simp: var_entries_def supported_sort_def)
  then have "(sanitize n, smt_of t v) \<in> set (concat (map (var_entries versions rho) vars))" using v by auto
  then have "model_of versions rho vars (sanitize n) = Some (smt_of t v)"
    unfolding model_of_def using assms(2) by (intro map_of_is_SomeI) (simp_all only: entries_names)
  then show "\<exists>v. rho n = Some v \<and> has_ty t v \<and> model_of versions rho vars (sanitize n) = Some (smt_of t v)" using r by blast
qed

lemma model_entries: "distinct (map fst es) \<Longrightarrow> \<forall>(a, x)\<in>set es. map_of es a = Some x"
  by auto

text \<open>The facts are plain and true, or refused.\<close>

definition facts_hold :: "(f64 \<Rightarrow> string) \<Rightarrow> (string \<times> ty) list \<Rightarrow> versions \<Rightarrow> assignment \<Rightarrow> expr list \<Rightarrow> bool" where
  "facts_hold disp vars versions rho facts \<longleftrightarrow>
     (\<forall>f\<in>set facts. plain (declared vars) TBool f \<and> value_of (declared vars) rho TBool f = Done (VBool True) \<or>
        refused (encode_expr disp (declared vars) versions f None))"

definition well_assigned :: "(string \<times> ty) list \<Rightarrow> assignment \<Rightarrow> bool" where
  "well_assigned vars rho \<longleftrightarrow> (\<forall>(n, t)\<in>set vars. is_integer t \<or> t = TBool \<longrightarrow> (\<exists>v. rho n = Some v \<and> has_ty t v))"

lemma plain_bool_encoded:
  assumes "agrees V rho m" "plain V TBool e"
  shows "\<exists>x t. encode_expr disp V versions e None = Inr x \<and> spells x t \<and>
    (\<forall>b. value_of V rho TBool e = Done (VBool b) \<longrightarrow> term_value m t = Some (SB b))"
proof -
  obtain x where x: "encode_expr disp V versions e None = Inr x" "means m TBool x (value_of V rho TBool e)"
    using encode_means[OF assms, of None] by (auto simp: is_integer_def)
  then obtain t where "spells x t" "\<forall>b. value_of V rho TBool e = Done (VBool b) \<longrightarrow> term_value m t = Some (SB b)"
    by (auto simp: means_def)
  then show ?thesis using x by blast
qed

lemma query_frame: "spelled (''(set-logic ALL)'' @ [newline_char]) [Lst [Atom ''set-logic'', Atom ''ALL'']]"
  "spelled (''(check-sat)'' @ [newline_char]) [Lst [Atom ''check-sat'']]"
  "spelled model_command [Lst [Atom ''get-model'']]"
proof -
  have one: "is_atom a \<Longrightarrow> spells (''('' @ a @ '')'') (Lst [Atom a])" for a
    using spells_atom[of a] by (simp add: spells_def toks_first toks_delim)
  show "spelled (''(set-logic ALL)'' @ [newline_char]) [Lst [Atom ''set-logic'', Atom ''ALL'']]"
    using spelled_line[OF spells_app1[OF spells_atom[of "''set-logic''"] spells_atom[of "''ALL''"]]] by (simp add: app1_def)
  show "spelled (''(check-sat)'' @ [newline_char]) [Lst [Atom ''check-sat'']]" using spelled_line[OF one[of "''check-sat''"]] by simp
  show "spelled model_command [Lst [Atom ''get-model'']]" using spelled_line[OF one[of "''get-model''"]] by (simp add: model_command_def)
qed

lemma query_satisfied:
  assumes "well_assigned vars rho" "plain (declared vars) TBool claim" "facts_hold disp vars versions rho facts"
    "value_of (declared vars) rho TBool claim = Done (VBool False)" "build_query disp claim facts vars versions = Inr q"
    "distinct (script_names versions vars)"
  shows "\<exists>cmds. read_script (q @ model_command) = Some cmds \<and> satisfies (model_of versions rho vars) cmds"
proof -
  let ?V = "declared vars" and ?m = "model_of versions rho vars" and ?es = "concat (map (var_entries versions rho) vars)"
  let ?enc = "\<lambda>e. encode_expr disp ?V versions e None"
  have ag: "agrees ?V rho ?m" using model_agrees assms(1,6) unfolding well_assigned_def by blast
  obtain d dc where d: "emit_vars versions vars = Inr d" "spelled d dc"
    "\<And>m. \<forall>(a, x)\<in>set ?es. m a = Some x \<Longrightarrow> list_all (holds_in m) dc"
    using vars_declared[OF assms(1)[unfolded well_assigned_def], of versions] unfolding declares_entries_def by blast
  have "\<forall>(a, x)\<in>set ?es. ?m a = Some x"
    using model_entries[of ?es] assms(6) unfolding model_of_def entries_names by blast
  then have dm: "list_all (holds_in ?m) dc" using d(3) by blast
  have "\<forall>f\<in>set facts. refused (?enc f) \<or> (\<exists>x t. ?enc f = Inr x \<and> spells x t \<and> term_value ?m t = Some (SB True))"
  proof
    fix f assume "f \<in> set facts"
    then consider "refused (?enc f)" | "plain ?V TBool f" "value_of ?V rho TBool f = Done (VBool True)"
      using assms(3) unfolding facts_hold_def by blast
    then show "refused (?enc f) \<or> (\<exists>x t. ?enc f = Inr x \<and> spells x t \<and> term_value ?m t = Some (SB True))"
      using plain_bool_encoded[OF ag] by cases blast+
  qed
  from facts_asserted[OF this] obtain a ac where a: "assert_facts ?enc facts = Inr a" "spelled a ac" "list_all (holds_in ?m) ac" by blast
  obtain g gt where g: "?enc claim = Inr g" "spells g gt" "term_value ?m gt = Some (SB False)"
    using plain_bool_encoded[OF ag assms(2), of disp versions] assms(4) by blast
  have q: "q @ model_command = (''(set-logic ALL)'' @ [newline_char]) @ d @ a @
      (''(assert '' @ app1 ''not'' g @ '')'' @ [newline_char]) @ (''(check-sat)'' @ [newline_char]) @ model_command"
    using assms(5) d(1) a(1) g(1) by (simp add: build_query_def app1_def)
  have "spelled (q @ model_command) ([Lst [Atom ''set-logic'', Atom ''ALL'']] @ dc @ ac @
      [Lst [Atom ''assert'', Lst [Atom ''not'', gt]]] @ [Lst [Atom ''check-sat'']] @ [Lst [Atom ''get-model'']])"
    unfolding q by (intro spelled_append query_frame d(2) a(2) spelled_assert spells_app1 spells_atom g(2)) simp
  from spelled_read[OF this] show ?thesis using dm a(3) g(3) by (simp add: satisfies_def)
qed

text \<open>
  C4. Given a solver whose \<open>unsat\<close> can be trusted, a cache that holds only what it answered, and variables
  whose names stay apart in the script, a claim that \<open>try_prove\<close> calls \<open>Proven\<close> is false under no
  assignment of values of their types to the variables under which the facts are true. The claim is one
  that \<open>plain\<close> admits: the operands of an operator have one type, and a literal is a value of the type the
  encoder gives it. The facts are of that kind too, or refused by the encoder.
\<close>
theorem proven_claims_hold:
  assumes "solver_sound z3" "\<forall>query out. cache query = Some out \<longrightarrow> z3 query = Some out"
    "try_prove fd (Some z3) no_cache claim facts vars versions cache = Inr (Proven, cache')"
    "distinct (script_names versions vars)" "plain (declared vars) TBool claim"
    "well_assigned vars rho" "facts_hold (fd_plain fd) vars versions rho facts"
  shows "value_of (declared vars) rho TBool claim \<noteq> Done (VBool False)"
proof
  assume F: "value_of (declared vars) rho TBool claim = Done (VBool False)"
  obtain q where q: "build_query (fd_plain fd) claim facts vars versions = Inr q"
    using assms(3) by (auto simp: try_prove_def split: sum.splits failure.splits)
  then obtain out where o: "z3 (q @ model_command) = Some out" "parse_verdict fd out vars = Proven"
    using assms(2,3) by (auto simp: try_prove_def run_query_def Let_def split: if_splits option.splits)
  then have "first_line out = ''unsat''" by (auto simp: parse_verdict_def split: if_splits)
  with assms(1) o(1) obtain script where s: "read_script (q @ model_command) = Some script" "\<And>m. \<not> satisfies m script"
    unfolding solver_sound_def by blast
  show False using query_satisfied[OF assms(6,5,7) F q assms(4)] s by auto
qed

end
