(* ===== verification/CheckEnv.thy ===== *)
theory CheckEnv
  imports SourceAst SsaSem Diagnostic
begin

text \<open>
  The environment of the checker (\<open>src/checker.rs\<close>): a stack of scopes, innermost last, each an
  ordered map from names to what is known of them, and the registries of structs and enums.
\<close>

section \<open>Bindings\<close>

record var_info =
  vi_ty :: ty
  vi_constant :: "typed_const option"
  vi_moved :: "span option"
  vi_decl_span :: span
  vi_vec_literal_elements :: "SourceAst.expr list option"
  vi_array_version :: nat
  vi_guarded_mutex :: "string option"
  vi_no_drop :: bool
  vi_is_const :: bool
  vi_struct_literal_fields :: "(string \<times> SourceAst.expr) list option"
  vi_moved_fields :: "(string, span) btmap"

record struct_info =
  si_fields :: "(string \<times> ty) list"

record enum_info =
  ei_variants :: "string list"
  ei_payload_types :: "ty option list"

type_synonym scope = "(string, var_info) btmap"

record checker_env =
  ce_scopes :: "scope list"
  ce_structs :: "(string, struct_info) btmap"
  ce_enums :: "(string, enum_info) btmap"

record signature =
  sg_params :: "ty list"
  sg_param_names :: "string list"
  sg_return_type :: ty
  sg_requires :: "SourceAst.expr list"
  sg_ensures :: "SourceAst.expr list"
  sg_is_pure :: bool
  sg_is_extern :: bool
  sg_locks_params :: "bool list"

type_synonym signatures = "string \<rightharpoonup> signature"

definition env_new :: checker_env where
  "env_new = \<lparr>ce_scopes = [[]], ce_structs = [], ce_enums = []\<rparr>"

section \<open>Registries\<close>

definition lookup_struct :: "checker_env \<Rightarrow> string \<Rightarrow> struct_info option" where
  "lookup_struct env name = bt_get (ce_structs env) name"

definition starts_with :: "string \<Rightarrow> string \<Rightarrow> bool" where
  "starts_with s p \<longleftrightarrow> take (length p) s = p"

text \<open>A generic enum may be named without its type arguments when it has one instance.\<close>

definition resolve_enum_name :: "checker_env \<Rightarrow> string \<Rightarrow> string option" where
  "resolve_enum_name env name =
     (if bt_get (ce_enums env) name \<noteq> None then Some name
      else case filter (\<lambda>k. starts_with k (name @ ''__'')) (bt_keys (ce_enums env)) of
             [k] \<Rightarrow> Some k
           | _ \<Rightarrow> None)"

definition lookup_enum :: "checker_env \<Rightarrow> string \<Rightarrow> enum_info option" where
  "lookup_enum env name =
     (case bt_get (ce_enums env) name of
        Some e \<Rightarrow> Some e
      | None \<Rightarrow> Option.bind (resolve_enum_name env name) (bt_get (ce_enums env)))"

text \<open>\<open>position\<close> and \<open>get\<close> on vectors.\<close>

definition position :: "('a \<Rightarrow> bool) \<Rightarrow> 'a list \<Rightarrow> nat option" where
  "position P xs = (let k = length (takeWhile (\<lambda>x. \<not> P x) xs) in if k < length xs then Some k else None)"

definition get :: "'a list \<Rightarrow> nat \<Rightarrow> 'a option" where
  "get xs i = (if i < length xs then Some (xs ! i) else None)"

definition lookup_enum_variant_payload :: "checker_env \<Rightarrow> string \<Rightarrow> string \<Rightarrow> ty option" where
  "lookup_enum_variant_payload env enum_name variant =
     Option.bind (lookup_enum env enum_name) (\<lambda>vi.
     Option.bind (position (\<lambda>v. v = variant) (ei_variants vi)) (\<lambda>idx.
     Option.bind (get (ei_payload_types vi) idx) (\<lambda>p. p)))"

section \<open>Scopes\<close>

definition depth :: "checker_env \<Rightarrow> nat" where
  "depth env = length (ce_scopes env)"

definition push_scope :: "checker_env \<Rightarrow> checker_env" where
  "push_scope env = env\<lparr>ce_scopes := ce_scopes env @ [[]]\<rparr>"

text \<open>The root scope is never popped: an assertion of the source.\<close>

definition pop_scope :: "checker_env \<Rightarrow> (unit, scope \<times> checker_env) res" where
  "pop_scope env =
     (if 1 < length (ce_scopes env) then Inr (last (ce_scopes env), env\<lparr>ce_scopes := butlast (ce_scopes env)\<rparr>)
      else Inl Panic)"

text \<open>From the innermost scope outwards.\<close>

fun lookup_from :: "scope list \<Rightarrow> string \<Rightarrow> var_info option" where
  "lookup_from [] name = None"
| "lookup_from (s # ss) name = (case bt_get s name of Some vi \<Rightarrow> Some vi | None \<Rightarrow> lookup_from ss name)"

definition lookup :: "checker_env \<Rightarrow> string \<Rightarrow> var_info option" where
  "lookup env name = lookup_from (rev (ce_scopes env)) name"

text \<open>A write through \<open>lookup_mut\<close>: the innermost binding of the name is changed in place.\<close>

fun update_from :: "string \<Rightarrow> (var_info \<Rightarrow> var_info) \<Rightarrow> scope list \<Rightarrow> scope list" where
  "update_from name f [] = []"
| "update_from name f (s # ss) =
     (case bt_get s name of Some vi \<Rightarrow> bt_insert name (f vi) s # ss | None \<Rightarrow> s # update_from name f ss)"

definition update :: "string \<Rightarrow> (var_info \<Rightarrow> var_info) \<Rightarrow> checker_env \<Rightarrow> checker_env" where
  "update name f env = env\<lparr>ce_scopes := rev (update_from name f (rev (ce_scopes env)))\<rparr>"

definition current_get :: "checker_env \<Rightarrow> string \<Rightarrow> var_info option" where
  "current_get env name = (if ce_scopes env = [] then None else bt_get (last (ce_scopes env)) name)"

definition current_has :: "checker_env \<Rightarrow> string \<Rightarrow> bool" where
  "current_has env name \<longleftrightarrow> ce_scopes env \<noteq> [] \<and> bt_get (last (ce_scopes env)) name \<noteq> None"

definition insert_current :: "string \<Rightarrow> var_info \<Rightarrow> checker_env \<Rightarrow> (unit, checker_env) res" where
  "insert_current name vi env =
     (if ce_scopes env = [] then Inl Panic
      else Inr (env\<lparr>ce_scopes := butlast (ce_scopes env) @ [bt_insert name vi (last (ce_scopes env))]\<rparr>))"

definition all_bindings :: "checker_env \<Rightarrow> (string \<times> var_info) list" where
  "all_bindings env = concat (rev (ce_scopes env))"

text \<open>The version of each array binding; the innermost wins.\<close>

fun is_sequence :: "ty \<Rightarrow> bool" where
  "is_sequence (TVec t) = True"
| "is_sequence (TArray t n) = True"
| "is_sequence t = False"

definition array_versions :: "checker_env \<Rightarrow> string \<rightharpoonup> nat" where
  "array_versions env =
     fold (\<lambda>(name, vi) m. if is_sequence (deref (vi_ty vi)) \<and> m name = None then m(name \<mapsto> vi_array_version vi) else m)
       (all_bindings env) Map.empty"

end
