(* ===== verification/CheckConst.thy ===== *)
theory CheckConst
  imports CheckEnv Float64
begin

text \<open>
  Checked expressions, their constants and conversions (\<open>explicit_cast\<close> to \<open>value_fits_type\<close> of
  \<open>src/checker.rs\<close>). A check runs on the environment and the diagnostics so far; a failed
  \<open>expect\<close> or an \<open>unreachable!\<close> is a panic. The registries the source keeps
  per thread and the counter of synthetic names are part of the state. How a float is displayed in a
  message is the argument \<open>disp\<close>.
\<close>

section \<open>The state of a check\<close>

record check_state =
  cs_env :: checker_env
  cs_diags :: "diagnostic list"
  cs_registries :: registries
  cs_iface_impls :: "(string \<times> string) list"
  cs_dyn_counter :: nat

type_synonym 'a chk = "check_state \<Rightarrow> (unit, 'a \<times> check_state) res"

definition retC :: "'a \<Rightarrow> 'a chk" where
  "retC x s = Inr (x, s)"

definition panicC :: "'a chk" where
  "panicC s = Inl Panic"

definition bindC :: "'a chk \<Rightarrow> ('a \<Rightarrow> 'b chk) \<Rightarrow> 'b chk" where
  "bindC m f s = bindE (m s) (\<lambda>(x, s). f x s)"

definition push :: "span \<Rightarrow> string \<Rightarrow> unit chk" where
  "push sp msg s = Inr ((), s\<lparr>cs_diags := cs_diags s @ [diagnostic_new sp msg]\<rparr>)"

definition thenC :: "unit chk \<Rightarrow> 'b chk \<Rightarrow> 'b chk" where
  "thenC m n = bindC m (\<lambda>_. n)"

definition whenC :: "bool \<Rightarrow> unit chk \<Rightarrow> unit chk" where
  "whenC b m = (if b then m else retC ())"

text \<open>A check that looks at the state.\<close>

definition withC :: "(check_state \<Rightarrow> 'a) \<Rightarrow> ('a \<Rightarrow> 'b chk) \<Rightarrow> 'b chk" where
  "withC f g s = g (f s) s"

text \<open>A message and a value to go on with.\<close>

definition complain :: "span \<Rightarrow> string \<Rightarrow> 'a \<Rightarrow> 'a chk" where
  "complain sp msg x = thenC (push sp msg) (retC x)"

definition dash_text :: string where "dash_text = [CHR 0xE2, CHR 0x80, CHR 0x94]"
definition ge_text :: string where "ge_text = [CHR 0xE2, CHR 0x89, CHR 0xA5]"

section \<open>Checked expressions\<close>

record checked_expr =
  ck_expr :: typed_expr
  ck_flexible_integer :: bool
  ck_flexible_float :: bool

definition checked_new :: "typed_expr_kind \<Rightarrow> ty \<Rightarrow> typed_const option \<Rightarrow> span \<Rightarrow> checked_expr" where
  "checked_new k t c sp = \<lparr>ck_expr = TExpr k t c sp None, ck_flexible_integer = False, ck_flexible_float = False\<rparr>"

abbreviation ck_ty :: "checked_expr \<Rightarrow> ty" where
  "ck_ty c \<equiv> e_ty (ck_expr c)"

abbreviation ck_const :: "checked_expr \<Rightarrow> typed_const option" where
  "ck_const c \<equiv> e_constant (ck_expr c)"

abbreviation ck_span :: "checked_expr \<Rightarrow> span" where
  "ck_span c \<equiv> Ir.e_span (ck_expr c)"

definition fallback :: "ty \<Rightarrow> span \<Rightarrow> checked_expr" where
  "fallback t sp =
     checked_new (if t \<in> {TF32, TF64} then EFloat 0 else if t = TBool then EBool False else EInt 0) t None sp"

definition fallback_integer :: "span \<Rightarrow> checked_expr" where
  "fallback_integer sp = fallback TI64 sp"

definition with_binding_decl_span :: "checked_expr \<Rightarrow> span \<Rightarrow> checked_expr" where
  "with_binding_decl_span c sp = (case ck_expr c of TExpr k t v s d \<Rightarrow> c\<lparr>ck_expr := TExpr k t v s (Some sp)\<rparr>)"

section \<open>Constants\<close>

definition value_fits_type :: "int \<Rightarrow> ty \<Rightarrow> bool" where
  "value_fits_type v t = (case (min_value t, max_value t) of (Some lo, Some hi) \<Rightarrow> lo \<le> v \<and> v \<le> hi | _ \<Rightarrow> False)"

definition finite_float_value :: "f64 \<Rightarrow> ty \<Rightarrow> bool" where
  "finite_float_value v t =
     (if t = TF32 then f64_is_finite (f64_narrow v) else if t = TF64 then f64_is_finite v else False)"

definition narrow_float_value :: "f64 \<Rightarrow> ty \<Rightarrow> f64" where
  "narrow_float_value v t = (if t = TF32 then f64_narrow v else v)"

fun const_to_float :: "typed_const \<Rightarrow> f64 chk" where
  "const_to_float (TCInt v) = retC (f64_of_int v)"
| "const_to_float (TCFloat v) = retC v"
| "const_to_float (TCBool _) = panicC"

fun const_to_int :: "typed_const \<Rightarrow> int chk" where
  "const_to_int (TCInt v) = retC v"
| "const_to_int _ = panicC"

fun const_display :: "(f64 \<Rightarrow> string) \<Rightarrow> typed_const \<Rightarrow> string" where
  "const_display disp (TCInt v) = show_int v"
| "const_display disp (TCFloat v) = disp v"
| "const_display disp (TCBool b) = (if b then ''true'' else ''false'')"

definition is_known_zero :: "checked_expr \<Rightarrow> bool" where
  "is_known_zero c = (case ck_const c of Some (TCInt v) \<Rightarrow> v = 0 | Some (TCFloat v) \<Rightarrow> f64_is_zero v | _ \<Rightarrow> False)"

definition can_represent_all :: "ty \<Rightarrow> ty \<Rightarrow> bool" where
  "can_represent_all destination source =
     (case (min_value destination, max_value destination, min_value source, max_value source) of
        (Some dlo, Some dhi, Some slo, Some shi) \<Rightarrow> dlo \<le> slo \<and> shi \<le> dhi
      | _ \<Rightarrow> False)"

section \<open>Casts of constants\<close>

definition cast_float_to_int :: "f64 \<Rightarrow> ty \<Rightarrow> typed_const option" where
  "cast_float_to_int v t =
     (if \<not> f64_is_finite v then None
      else case (min_value t, max_value t) of
             (Some lo, Some hi) \<Rightarrow>
               (let n = f64_truncate v in
                if n < f64_truncate (f64_of_int lo) \<or> f64_truncate (f64_of_int hi) < n then None else Some (TCInt n))
           | _ \<Rightarrow> None)"

definition eval_cast_constant_no_diagnostic :: "typed_const \<Rightarrow> ty \<Rightarrow> typed_const option" where
  "eval_cast_constant_no_diagnostic c t =
     (case c of
        TCInt v \<Rightarrow>
          if is_integer t then (if value_fits_type v t then Some (TCInt v) else None)
          else if is_float t then
            (let f = f64_of_int v in if finite_float_value f t then Some (TCFloat (narrow_float_value f t)) else None)
          else None
      | TCFloat v \<Rightarrow>
          if is_float t then (if finite_float_value v t then Some (TCFloat (narrow_float_value v t)) else None)
          else if is_integer t then cast_float_to_int v t
          else None
      | TCBool b \<Rightarrow> if t = TBool then Some (TCBool b) else None)"

definition eval_cast_constant :: "(f64 \<Rightarrow> string) \<Rightarrow> typed_const \<Rightarrow> ty \<Rightarrow> span \<Rightarrow> typed_const option chk" where
  "eval_cast_constant disp c t sp =
     (case eval_cast_constant_no_diagnostic c t of
        Some v \<Rightarrow> retC (Some v)
      | None \<Rightarrow> complain sp (''constant value '' @ const_display disp c @ '' cannot be represented as '' @ show_ty t) None)"

definition cast_constant :: "(f64 \<Rightarrow> string) \<Rightarrow> checked_expr \<Rightarrow> ty \<Rightarrow> span \<Rightarrow> typed_const option chk" where
  "cast_constant disp c t sp = (case ck_const c of None \<Rightarrow> retC None | Some v \<Rightarrow> eval_cast_constant disp v t sp)"

definition cast_expr :: "checked_expr \<Rightarrow> ty \<Rightarrow> typed_const option \<Rightarrow> span \<Rightarrow> checked_expr" where
  "cast_expr c t v sp = checked_new (ECast (ck_expr c) t) t v sp"

fun is_enum :: "ty \<Rightarrow> bool" where
  "is_enum (TEnum _) = True"
| "is_enum _ = False"

definition explicit_cast :: "(f64 \<Rightarrow> string) \<Rightarrow> checked_expr \<Rightarrow> ty \<Rightarrow> span \<Rightarrow> checked_expr chk" where
  "explicit_cast disp c t sp =
     (if ck_ty c = t then retC (cast_expr c t (ck_const c) sp)
      else if is_enum (ck_ty c) \<and> is_integer t then retC (cast_expr c t None sp)
      else if \<not> is_numeric (ck_ty c) \<or> \<not> is_numeric t then
        complain sp (''cannot cast '' @ show_ty (ck_ty c) @ '' to '' @ show_ty t) (fallback t sp)
      else bindC (cast_constant disp c t sp) (\<lambda>v. retC (cast_expr c t v sp)))"

section \<open>Assignment and coercion\<close>

fun nominal_name :: "ty \<Rightarrow> string option" where
  "nominal_name (TStruct n) = Some n"
| "nominal_name (TEnum n) = Some n"
| "nominal_name _ = None"

fun object_name :: "ty \<Rightarrow> string option" where
  "object_name (TObject iface) = Some iface"
| "object_name _ = None"

definition iface_impl_exists :: "(string \<times> string) list \<Rightarrow> string \<Rightarrow> string \<Rightarrow> bool" where
  "iface_impl_exists impls iface type_name \<longleftrightarrow> (iface, type_name) \<in> set impls"

definition implements_object :: "(string \<times> string) list \<Rightarrow> ty \<Rightarrow> ty \<Rightarrow> bool" where
  "implements_object impls actual expected =
     (case (object_name expected, nominal_name actual) of
        (Some iface, Some n) \<Rightarrow> iface_impl_exists impls iface n
      | _ \<Rightarrow> False)"

definition can_assign :: "(string \<times> string) list \<Rightarrow> checked_expr \<Rightarrow> ty \<Rightarrow> bool" where
  "can_assign impls actual expected =
     (if ck_ty actual = expected then True
      else if ck_ty actual = TOwnedStr \<and> expected = TStr then True
      else if implements_object impls (ck_ty actual) expected then True
      else if \<not> is_numeric (ck_ty actual) \<or> \<not> is_numeric expected then False
      else case ck_const actual of
        Some v \<Rightarrow> eval_cast_constant_no_diagnostic v expected \<noteq> None \<and> \<not> (is_float (ck_ty actual) \<and> is_integer expected)
      | None \<Rightarrow>
          if is_integer (ck_ty actual) \<and> is_integer expected then can_represent_all expected (ck_ty actual)
          else if is_integer (ck_ty actual) \<and> is_float expected then True
          else ck_ty actual = TF32 \<and> expected = TF64)"

definition is_supported_channel_element :: "ty \<Rightarrow> bool" where
  "is_supported_channel_element t \<longleftrightarrow> t \<in> {TI8, TI16, TI32, TI64, TU8, TU16, TU32, TU64, TBool}"

definition channel_capacity_is_pow2 :: "nat \<Rightarrow> bool" where
  "channel_capacity_is_pow2 n \<longleftrightarrow> n > 0 \<and> n AND (n - 1) = 0"

fun is_var :: "typed_expr_kind \<Rightarrow> bool" where
  "is_var (EVar _) = True"
| "is_var _ = False"

text \<open>A value behind an interface needs a place: one that is no variable is bound to a fresh name first.\<close>

definition dyn_node :: "typed_expr \<Rightarrow> string \<Rightarrow> string \<Rightarrow> ty \<Rightarrow> ty \<Rightarrow> span \<Rightarrow> typed_expr" where
  "dyn_node e iface from_name from_ty t sp = TExpr (EDynCoerce e iface from_name from_ty) t None sp None"

definition make_dyn_coerce :: "typed_expr \<Rightarrow> string \<Rightarrow> string \<Rightarrow> ty \<Rightarrow> span \<Rightarrow> typed_expr chk" where
  "make_dyn_coerce e iface from_name t sp s =
     (if is_var (e_kind e) then Inr (dyn_node e iface from_name (e_ty e) t sp, s)
      else
        let name = ''__dyn_src_'' @ show_nat (cs_dyn_counter s);
            var = TExpr (EVar name) (e_ty e) None (Ir.e_span e) None in
        Inr (TExpr (EBlock [SLet name (e_ty e) e] (dyn_node var iface from_name (e_ty e) t sp)) t None sp None,
             s\<lparr>cs_dyn_counter := cs_dyn_counter s + 1\<rparr>))"

text \<open>The elements of an array literal, each cast to the element type of the target.\<close>

fun array_parts :: "ty \<Rightarrow> (ty \<times> nat) option" where
  "array_parts (TArray e n) = Some (e, n)"
| "array_parts _ = None"

fun literal_elements :: "typed_expr_kind \<Rightarrow> typed_expr list option" where
  "literal_elements (EArrayLit es) = Some es"
| "literal_elements _ = None"

definition coerce_elements :: "checked_expr \<Rightarrow> ty \<Rightarrow> typed_expr list option" where
  "coerce_elements c t =
     (case (array_parts (ck_ty c), array_parts t, literal_elements (e_kind (ck_expr c))) of
        (Some (selem, slen), Some (telem, tlen), Some es) \<Rightarrow>
          if slen = tlen \<and> list_all (\<lambda>e. is_numeric (e_ty e)) es \<and> is_numeric telem
          then Some (map (\<lambda>e. if e_ty e = telem then e else TExpr (ECast e telem) telem None (Ir.e_span e) None) es)
          else None
      | _ \<Rightarrow> None)"

text \<open>
  The arguments of a \<open>vec\<close> literal for a vector of interface objects, up to the first that has no
  implementation; a message for each that is no variable. \<open>None\<close>: not all of them have one.
\<close>

fun coerce_vec_args :: "string \<Rightarrow> ty \<Rightarrow> typed_expr list \<Rightarrow> typed_expr list option chk" where
  "coerce_vec_args iface telem [] = retC (Some [])"
| "coerce_vec_args iface telem (e # es) = withC cs_iface_impls (\<lambda>impls.
     case nominal_name (e_ty e) of
       None \<Rightarrow> retC None
     | Some n \<Rightarrow>
         if iface_impl_exists impls iface n then
           thenC (whenC (\<not> is_var (e_kind e)) (push (Ir.e_span e)
               (''Vec<dyn '' @ iface @ ''> elements must be let-bound variables '' @ dash_text @ '' let-bind the source first.'')))
             (bindC (coerce_vec_args iface telem es) (\<lambda>r.
                retC (map_option ((#) (dyn_node e iface n (e_ty e) telem (Ir.e_span e))) r)))
         else retC None)"

fun object_vec :: "ty \<Rightarrow> string option" where
  "object_vec (TVec (TObject iface)) = Some iface"
| "object_vec _ = None"

fun call_args :: "string \<Rightarrow> typed_expr_kind \<Rightarrow> typed_expr list option" where
  "call_args f (ECall name _ args) = (if name = f then Some args else None)"
| "call_args f _ = None"

definition coerce_vec :: "checked_expr \<Rightarrow> ty \<Rightarrow> typed_expr list option chk" where
  "coerce_vec c t =
     (case (object_vec t, call_args ''vec'' (e_kind (ck_expr c))) of
        (Some iface, Some args) \<Rightarrow> if is_vec (ck_ty c) then coerce_vec_args iface (TObject iface) args else retC None
      | _ \<Rightarrow> retC None)"

fun channel_parts :: "ty \<Rightarrow> (ty \<times> nat) option" where
  "channel_parts (TChannel t n) = Some (t, n)"
| "channel_parts _ = None"

definition coerce_channel :: "checked_expr \<Rightarrow> ty \<Rightarrow> span \<Rightarrow> checked_expr option chk" where
  "coerce_channel c t sp =
     (case (channel_parts (ck_ty c), channel_parts t, call_args ''channel_new'' (e_kind (ck_expr c))) of
        (Some _, Some (telem, tcap), Some _) \<Rightarrow>
          if \<not> is_supported_channel_element telem then
            complain sp (''Channel element type must be an integer width or bool, got '' @ show_ty telem) (Some (fallback t sp))
          else if \<not> channel_capacity_is_pow2 tcap then
            complain sp (''Channel capacity must be a power of 2 '' @ ge_text @ '' 1, got '' @ show_nat tcap) (Some (fallback t sp))
          else retC (Some (checked_new (e_kind (ck_expr c)) t None (ck_span c)))
      | _ \<Rightarrow> retC None)"

definition not_assignable :: "(f64 \<Rightarrow> string) \<Rightarrow> checked_expr \<Rightarrow> ty \<Rightarrow> span \<Rightarrow> string \<Rightarrow> checked_expr chk" where
  "not_assignable disp c t sp context =
     (case ck_const c of
        Some v \<Rightarrow>
          if is_numeric t then
            complain sp (context @ '' value '' @ const_display disp v @ '' cannot be represented as '' @ show_ty t) (fallback t sp)
          else complain sp (context @ '' must be assignable to '' @ show_ty t @ '', got '' @ show_ty (ck_ty c)) (fallback t sp)
      | None \<Rightarrow> complain sp (context @ '' must be assignable to '' @ show_ty t @ '', got '' @ show_ty (ck_ty c)) (fallback t sp))"

definition coerce_object :: "checked_expr \<Rightarrow> ty \<Rightarrow> span \<Rightarrow> checked_expr option chk" where
  "coerce_object c t sp =
     (case (object_name t, nominal_name (ck_ty c)) of
        (Some iface, Some n) \<Rightarrow>
          bindC (make_dyn_coerce (ck_expr c) iface n t sp) (\<lambda>e.
            retC (Some (checked_new (e_kind e) (e_ty e) (e_constant e) (Ir.e_span e))))
      | _ \<Rightarrow> retC None)"

text \<open>What is left when the literals have been dealt with.\<close>

definition coerce_value :: "(f64 \<Rightarrow> string) \<Rightarrow> checked_expr \<Rightarrow> ty \<Rightarrow> span \<Rightarrow> string \<Rightarrow> checked_expr chk" where
  "coerce_value disp c t sp context = withC cs_iface_impls (\<lambda>impls.
     if \<not> can_assign impls c t then not_assignable disp c t sp context
     else bindC (coerce_object c t sp) (\<lambda>r. case r of
         Some r \<Rightarrow> retC r
       | None \<Rightarrow> bindC (cast_constant disp c t sp) (\<lambda>v. retC (cast_expr c t v sp))))"

definition coerce_checked :: "(f64 \<Rightarrow> string) \<Rightarrow> checked_expr \<Rightarrow> ty \<Rightarrow> span \<Rightarrow> string \<Rightarrow> checked_expr chk" where
  "coerce_checked disp c t sp context =
     (if ck_ty c = t then retC c
      else case coerce_elements c t of
        Some es \<Rightarrow> retC (checked_new (EArrayLit es) t None sp)
      | None \<Rightarrow> bindC (coerce_vec c t) (\<lambda>v. case v of
            Some args \<Rightarrow> retC (checked_new (ECall ''vec'' sp args) t None sp)
          | None \<Rightarrow> bindC (coerce_channel c t sp) (\<lambda>ch. case ch of
              Some r \<Rightarrow> retC r
            | None \<Rightarrow> coerce_value disp c t sp context)))"

definition coerce_numeric_operand :: "checked_expr \<Rightarrow> ty \<Rightarrow> checked_expr" where
  "coerce_numeric_operand c t =
     (if ck_ty c = t then c
      else cast_expr c t (Option.bind (ck_const c) (\<lambda>v. eval_cast_constant_no_diagnostic v t)) (ck_span c))"

section \<open>Promotion\<close>

fun signed_type :: "nat \<Rightarrow> ty option" where
  "signed_type n = (if n = 8 then Some TI8 else if n = 16 then Some TI16 else if n = 32 then Some TI32
     else if n = 64 then Some TI64 else None)"

fun unsigned_type :: "nat \<Rightarrow> ty option" where
  "unsigned_type n = (if n = 8 then Some TU8 else if n = 16 then Some TU16 else if n = 32 then Some TU32
     else if n = 64 then Some TU64 else None)"

definition common_integer_type :: "ty \<Rightarrow> ty \<Rightarrow> ty option chk" where
  "common_integer_type l r =
     (if \<not> is_integer l \<or> \<not> is_integer r then retC None
      else case (bits l, bits r) of
        (Some lb, Some rb) \<Rightarrow> retC
          (case (is_signed_integer l, is_signed_integer r) of
             (True, True) \<Rightarrow> signed_type (max lb rb)
           | (False, False) \<Rightarrow> unsigned_type (max lb rb)
           | (True, False) \<Rightarrow> if rb < lb then Some l else None
           | (False, True) \<Rightarrow> if lb < rb then Some r else None)
      | _ \<Rightarrow> panicC)"

definition adapted_integer_literal_type :: "checked_expr \<Rightarrow> ty \<Rightarrow> ty option" where
  "adapted_integer_literal_type c t =
     (if \<not> ck_flexible_integer c \<or> \<not> is_integer t then None
      else case ck_const c of Some (TCInt v) \<Rightarrow> if value_fits_type v t then Some t else None | _ \<Rightarrow> None)"

definition adapted_float_literal_type :: "checked_expr \<Rightarrow> ty \<Rightarrow> ty option" where
  "adapted_float_literal_type c t =
     (if \<not> ck_flexible_float c \<or> t \<noteq> TF32 then None
      else case ck_const c of Some (TCFloat v) \<Rightarrow> if finite_float_value v TF32 then Some TF32 else None | _ \<Rightarrow> None)"

definition or_else :: "'a option \<Rightarrow> 'a \<Rightarrow> 'a" where
  "or_else x y = (case x of Some v \<Rightarrow> v | None \<Rightarrow> y)"

definition promoted_integer_type :: "checked_expr \<Rightarrow> checked_expr \<Rightarrow> ty option chk" where
  "promoted_integer_type l r =
     (if \<not> is_integer (ck_ty l) then
        complain (ck_span l) (''left operand must be an integer, got '' @ show_ty (ck_ty l)) None
      else if \<not> is_integer (ck_ty r) then
        complain (ck_span r) (''right operand must be an integer, got '' @ show_ty (ck_ty r)) None
      else
        let lt = or_else (adapted_integer_literal_type l (ck_ty r)) (ck_ty l);
            rt = or_else (adapted_integer_literal_type r lt) (ck_ty r) in
        bindC (common_integer_type lt rt) (\<lambda>t. case t of
            Some t \<Rightarrow> retC (Some t)
          | None \<Rightarrow> complain (ck_span r) (''no safe implicit integer promotion for '' @ show_ty lt @ '' and '' @ show_ty rt @
              ''; use an explicit cast'') None))"

definition promoted_float_type :: "checked_expr \<Rightarrow> checked_expr \<Rightarrow> ty option" where
  "promoted_float_type l r =
     (let lt = or_else (adapted_float_literal_type l (ck_ty r)) (ck_ty l);
          rt = or_else (adapted_float_literal_type r lt) (ck_ty r) in
      if lt = TF64 \<or> rt = TF64 then Some TF64 else if lt = TF32 \<or> rt = TF32 then Some TF32 else Some TF64)"

definition promoted_numeric_type :: "checked_expr \<Rightarrow> checked_expr \<Rightarrow> ty option chk" where
  "promoted_numeric_type l r =
     (if \<not> is_numeric (ck_ty l) then
        complain (ck_span l) (''left operand must be numeric, got '' @ show_ty (ck_ty l)) None
      else if \<not> is_numeric (ck_ty r) then
        complain (ck_span r) (''right operand must be numeric, got '' @ show_ty (ck_ty r)) None
      else if is_float (ck_ty l) \<or> is_float (ck_ty r) \<or> ck_flexible_float l \<or> ck_flexible_float r then
        retC (promoted_float_type l r)
      else promoted_integer_type l r)"

end
