(* ===== verification/CheckOp.thy ===== *)
theory CheckOp
  imports CheckConst
begin

text \<open>
  The operators as the checker types and folds them (\<open>check_unary\<close> to \<open>check_boolean_binary\<close>,
  \<open>eval_integer_binary\<close>, \<open>literal_const_value\<close> of \<open>src/checker.rs\<close>). The check of an operand, which
  \<open>check_binary\<close> starts, is its argument.
\<close>

section \<open>Folding\<close>

text \<open>The value of an operator on two integers, before the range of the type is looked at.\<close>

definition integer_value :: "binary_op \<Rightarrow> int \<Rightarrow> int \<Rightarrow> span \<Rightarrow> int option chk" where
  "integer_value op a b sp = (case op of
     Add \<Rightarrow> retC (i128_checked (a + b))
   | Sub \<Rightarrow> retC (i128_checked (a - b))
   | Mul \<Rightarrow> retC (i128_checked (a * b))
   | Div \<Rightarrow> if b = 0 then complain sp ''division by zero in constant expression'' None else retC (i128_checked (trunc_div a b))
   | Rem \<Rightarrow> if b = 0 then complain sp ''remainder by zero in constant expression'' None
            else retC (if i128_fits (trunc_div a b) then Some (trunc_rem a b) else None)
   | BitAnd \<Rightarrow> retC (Some (a AND b))
   | BitOr \<Rightarrow> retC (Some (a OR b))
   | BitXor \<Rightarrow> retC (Some (a XOR b))
   | _ \<Rightarrow> panicC)"

definition eval_integer_binary :: "binary_op \<Rightarrow> int \<Rightarrow> int \<Rightarrow> ty \<Rightarrow> span \<Rightarrow> typed_const option chk" where
  "eval_integer_binary op a b t sp =
     bindC (integer_value op a b sp) (\<lambda>r. case r of
       None \<Rightarrow> complain sp (''constant expression overflows '' @ show_ty t) None
     | Some v \<Rightarrow>
         if \<not> value_fits_type v t
         then complain sp (''constant expression value '' @ show_int v @ '' does not fit in '' @ show_ty t) None
         else retC (Some (TCInt v)))"

definition float_result :: "f64 \<Rightarrow> ty \<Rightarrow> span \<Rightarrow> typed_const option chk" where
  "float_result v t sp =
     (if \<not> finite_float_value v t
      then complain sp (''floating-point constant expression is not finite in '' @ show_ty t) None
      else retC (Some (TCFloat (narrow_float_value v t))))"

definition eval_float_binary :: "binary_op \<Rightarrow> typed_const \<Rightarrow> typed_const \<Rightarrow> ty \<Rightarrow> span \<Rightarrow> typed_const option chk" where
  "eval_float_binary op l r t sp =
     bindC (const_to_float l) (\<lambda>a. bindC (const_to_float r) (\<lambda>b. case op of
       Add \<Rightarrow> float_result (f64_add a b) t sp
     | Sub \<Rightarrow> float_result (f64_sub a b) t sp
     | Mul \<Rightarrow> float_result (f64_mul a b) t sp
     | Div \<Rightarrow> if f64_is_zero b then complain sp ''floating-point division by zero in constant expression'' None
              else float_result (f64_div a b) t sp
     | _ \<Rightarrow> panicC))"

definition eval_shift :: "binary_op \<Rightarrow> int \<Rightarrow> nat \<Rightarrow> ty \<Rightarrow> span \<Rightarrow> typed_const option chk" where
  "eval_shift op v k t sp =
     bindC (case op of Shl \<Rightarrow> retC (i128_shl v k) | Shr \<Rightarrow> retC (i128_shr v k) | _ \<Rightarrow> panicC) (\<lambda>r. case r of
       None \<Rightarrow> complain sp ''shift overflows in constant expression'' None
     | Some w \<Rightarrow>
         if \<not> value_fits_type w t
         then complain sp (''shift result value '' @ show_int w @ '' does not fit in '' @ show_ty t) None
         else retC (Some (TCInt w)))"

text \<open>What the initializer of a constant may be; \<open>priors\<close> are the constants declared before.\<close>

fun literal_const_value :: "SourceAst.expr \<Rightarrow> ty \<Rightarrow> (string, ty \<times> typed_const \<times> span) btmap \<Rightarrow> typed_const option" where
  "literal_const_value (Expr k sp) t priors = (case k of
     KInt v \<Rightarrow> if is_integer t then Some (TCInt v) else None
   | KFloat v \<Rightarrow> if is_float t then Some (TCFloat v) else None
   | KBool b \<Rightarrow> if t = TBool then Some (TCBool b) else None
   | KVar name \<Rightarrow> (case bt_get priors name of
        None \<Rightarrow> None
      | Some (other_ty, v, _) \<Rightarrow> if other_ty \<noteq> t then None else Some v)
   | KUnary op e \<Rightarrow>
       (if op = UNeg then
          (case literal_const_value e t priors of
             Some (TCInt v) \<Rightarrow> map_option TCInt (i128_checked (- v))
           | Some (TCFloat v) \<Rightarrow> Some (TCFloat (f64_neg v))
           | _ \<Rightarrow> None)
        else None)
   | KBinary op l r \<Rightarrow>
       (if \<not> is_integer t then None
        else case literal_const_value l t priors of
          Some (TCInt a) \<Rightarrow>
            (case literal_const_value r t priors of
               Some (TCInt b) \<Rightarrow> map_option TCInt
                 (case op of
                    Add \<Rightarrow> i128_checked (a + b)
                  | Sub \<Rightarrow> i128_checked (a - b)
                  | Mul \<Rightarrow> i128_checked (a * b)
                  | Div \<Rightarrow> if b \<noteq> 0 then i128_checked (trunc_div a b) else None
                  | Rem \<Rightarrow> if b \<noteq> 0 \<and> i128_fits (trunc_div a b) then Some (trunc_rem a b) else None
                  | _ \<Rightarrow> None)
             | _ \<Rightarrow> None)
        | _ \<Rightarrow> None)
   | _ \<Rightarrow> None)"

section \<open>Unary operators\<close>

definition require_type :: "ty \<Rightarrow> ty \<Rightarrow> span \<Rightarrow> string \<Rightarrow> unit chk" where
  "require_type actual expected sp context =
     whenC (actual \<noteq> expected) (push sp (context @ '' must be '' @ show_ty expected @ '', got '' @ show_ty actual))"

definition negated_constant :: "typed_const option \<Rightarrow> ty \<Rightarrow> span \<Rightarrow> typed_const option chk" where
  "negated_constant c t sp = (case c of
     Some (TCInt v) \<Rightarrow> (case i128_checked (- v) of
         Some n \<Rightarrow> if value_fits_type n TI64 then retC (Some (TCInt n))
                    else complain sp ''negative integer literal does not fit in i64'' None
       | None \<Rightarrow> complain sp ''integer negation overflows in constant expression'' None)
   | Some (TCFloat v) \<Rightarrow>
       if finite_float_value (f64_neg v) t then retC (Some (TCFloat (f64_neg v)))
       else complain sp (''float negation is not finite in '' @ show_ty t) None
   | _ \<Rightarrow> retC None)"

definition quote_char :: string where "quote_char = [CHR 0x27]"

definition check_unary :: "unary_op \<Rightarrow> checked_expr \<Rightarrow> span \<Rightarrow> checked_expr chk" where
  "check_unary op c sp = (case op of
     UNeg \<Rightarrow>
       (if \<not> is_numeric (ck_ty c) then
          complain sp (''unary '' @ quote_char @ ''-'' @ quote_char @ '' requires a numeric operand, got '' @ show_ty (ck_ty c))
            (fallback_integer sp)
        else if is_unsigned_integer (ck_ty c) \<and> \<not> ck_flexible_integer c then
          complain sp (''unary '' @ quote_char @ ''-'' @ quote_char @ '' cannot be applied to unsigned type '' @ show_ty (ck_ty c))
            (fallback_integer sp)
        else bindC (negated_constant (ck_const c) (ck_ty c) sp) (\<lambda>v.
          retC (checked_new (EUnary op (ck_expr c)) (if ck_flexible_integer c then TI64 else ck_ty c) v sp)))
   | UNot \<Rightarrow>
       thenC (require_type (ck_ty c) TBool (ck_span c) (''unary '' @ quote_char @ ''!'' @ quote_char))
         (retC (checked_new (EUnary op (ck_expr c)) TBool
            (case ck_const c of Some (TCBool b) \<Rightarrow> Some (TCBool (\<not> b)) | _ \<Rightarrow> None) sp)))"

section \<open>Arithmetic\<close>

definition binary_node :: "binary_op \<Rightarrow> checked_expr \<Rightarrow> checked_expr \<Rightarrow> ty \<Rightarrow> typed_const option \<Rightarrow> span \<Rightarrow> checked_expr" where
  "binary_node op l r t c sp = checked_new (EBinary op (ck_expr l) (ck_expr r) True) t c sp"

text \<open>Both constants, where both are integers.\<close>

definition both_ints :: "checked_expr \<Rightarrow> checked_expr \<Rightarrow> (int \<times> int) option" where
  "both_ints l r = (case (ck_const l, ck_const r) of (Some (TCInt a), Some (TCInt b)) \<Rightarrow> Some (a, b) | _ \<Rightarrow> None)"

definition fold_ints :: "binary_op \<Rightarrow> checked_expr \<Rightarrow> checked_expr \<Rightarrow> ty \<Rightarrow> span \<Rightarrow> typed_const option chk" where
  "fold_ints op l r t sp = (case both_ints l r of Some (a, b) \<Rightarrow> eval_integer_binary op a b t sp | None \<Rightarrow> retC None)"

definition fold_floats :: "binary_op \<Rightarrow> checked_expr \<Rightarrow> checked_expr \<Rightarrow> ty \<Rightarrow> span \<Rightarrow> typed_const option chk" where
  "fold_floats op l r t sp =
     (case (ck_const l, ck_const r) of (Some a, Some b) \<Rightarrow> eval_float_binary op a b t sp | _ \<Rightarrow> retC None)"

definition check_numeric_binary :: "binary_op \<Rightarrow> checked_expr \<Rightarrow> checked_expr \<Rightarrow> span \<Rightarrow> checked_expr chk" where
  "check_numeric_binary op l r sp =
     bindC (promoted_numeric_type l r) (\<lambda>pt. case pt of
       None \<Rightarrow> retC (fallback_integer sp)
     | Some t \<Rightarrow>
         let l = coerce_numeric_operand l t; r = coerce_numeric_operand r t in
         bindC (if is_known_zero r \<and> op = Div then
                  complain (ck_span r) (if is_float t then ''floating-point division by zero in constant expression''
                    else ''division by zero in constant expression'') None
                else if is_float t then fold_floats op l r t sp
                else fold_ints op l r t (ck_span r)) (\<lambda>c.
         retC (binary_node op l r t c sp)))"

definition check_integer_remainder :: "checked_expr \<Rightarrow> checked_expr \<Rightarrow> span \<Rightarrow> checked_expr chk" where
  "check_integer_remainder l r sp =
     bindC (promoted_integer_type l r) (\<lambda>pt. case pt of
       None \<Rightarrow> retC (fallback_integer sp)
     | Some t \<Rightarrow>
         let l = coerce_numeric_operand l t; r = coerce_numeric_operand r t in
         bindC (if is_known_zero r then complain (ck_span r) ''remainder by zero in constant expression'' None
                else fold_ints Rem l r t (ck_span r)) (\<lambda>c.
         retC (binary_node Rem l r t c sp)))"

definition check_integer_bitwise :: "binary_op \<Rightarrow> checked_expr \<Rightarrow> checked_expr \<Rightarrow> span \<Rightarrow> checked_expr chk" where
  "check_integer_bitwise op l r sp =
     bindC (promoted_integer_type l r) (\<lambda>pt. case pt of
       None \<Rightarrow> retC (fallback_integer sp)
     | Some t \<Rightarrow>
         let l = coerce_numeric_operand l t; r = coerce_numeric_operand r t in
         bindC (fold_ints op l r t sp) (\<lambda>c. retC (binary_node op l r t c sp)))"

definition shift_count :: "checked_expr \<Rightarrow> nat \<Rightarrow> ty \<Rightarrow> int option chk" where
  "shift_count r w t = (case ck_const r of
     Some (TCInt v) \<Rightarrow>
       thenC (whenC (v < 0) (push (ck_span r) ''shift count cannot be negative''))
      (thenC (whenC (int w \<le> v) (push (ck_span r)
          (''shift count must be less than '' @ show_nat w @ '' for '' @ show_ty t)))
        (retC (Some v)))
   | _ \<Rightarrow> retC None)"

definition check_shift :: "binary_op \<Rightarrow> checked_expr \<Rightarrow> checked_expr \<Rightarrow> span \<Rightarrow> checked_expr chk" where
  "check_shift op l r sp =
     (if \<not> is_integer (ck_ty l) then
        complain (ck_span l) (''shift left operand must be an integer, got '' @ show_ty (ck_ty l)) (fallback_integer sp)
      else if \<not> is_integer (ck_ty r) then
        complain (ck_span r) (''shift count must be an integer, got '' @ show_ty (ck_ty r)) (fallback_integer sp)
      else case bits (ck_ty l) of
        None \<Rightarrow> panicC
      | Some w \<Rightarrow>
          bindC (shift_count r w (ck_ty l)) (\<lambda>count.
          thenC (whenC (op = Shl \<and> is_signed_integer (ck_ty l) \<and> (case ck_const l of Some (TCInt v) \<Rightarrow> v < 0 | _ \<Rightarrow> False))
              (push (ck_span l) ''left shift of a negative signed value is not allowed''))
         (bindC (case (ck_const l, count) of
              (Some (TCInt v), Some n) \<Rightarrow>
                if 0 \<le> n \<and> n < int w then eval_shift op v (nat n) (ck_ty l) sp else retC None
            | _ \<Rightarrow> retC None) (\<lambda>c.
          retC (binary_node op l r (ck_ty l) c sp)))))"

section \<open>Strings\<close>

definition is_strish :: "ty \<Rightarrow> bool" where
  "is_strish t \<longleftrightarrow> t \<in> {TStr, TOwnedStr}"

definition mark_moved :: "string \<Rightarrow> span \<Rightarrow> unit chk" where
  "mark_moved name sp s = Inr ((), s\<lparr>cs_env := update name (\<lambda>vi. vi\<lparr>vi_moved := Some sp\<rparr>) (cs_env s)\<rparr>)"

text \<open>An owned string that is a variable is moved into the concatenation.\<close>

definition move_operand :: "checked_expr \<Rightarrow> SourceAst.expr \<Rightarrow> unit chk" where
  "move_operand c e = (case e of Expr k sp \<Rightarrow> (case k of
     KVar name \<Rightarrow> whenC (ck_ty c = TOwnedStr) (mark_moved name sp)
   | _ \<Rightarrow> retC ()))"

definition check_str_concat :: "checked_expr \<Rightarrow> checked_expr \<Rightarrow> span \<Rightarrow> SourceAst.expr \<Rightarrow> SourceAst.expr \<Rightarrow> checked_expr chk" where
  "check_str_concat l r sp left right =
     thenC (move_operand l left) (thenC (move_operand r right)
       (retC (checked_new (EBinary Add (ck_expr l) (ck_expr r) False) TOwnedStr None sp)))"

section \<open>Comparison\<close>

definition int_compare :: "binary_op \<Rightarrow> int \<Rightarrow> int \<Rightarrow> bool chk" where
  "int_compare op a b = (case op of
     Lt \<Rightarrow> retC (a < b) | Le \<Rightarrow> retC (a \<le> b) | Gt \<Rightarrow> retC (b < a) | Ge \<Rightarrow> retC (b \<le> a) | _ \<Rightarrow> panicC)"

definition float_compare :: "binary_op \<Rightarrow> f64 \<Rightarrow> f64 \<Rightarrow> bool chk" where
  "float_compare op a b = (case op of
     Lt \<Rightarrow> retC (f64_less a b) | Le \<Rightarrow> retC (f64_less_eq a b)
   | Gt \<Rightarrow> retC (f64_less b a) | Ge \<Rightarrow> retC (f64_less_eq b a) | _ \<Rightarrow> panicC)"

definition compare_constants ::
  "(f64 \<Rightarrow> f64 \<Rightarrow> bool chk) \<Rightarrow> (int \<Rightarrow> int \<Rightarrow> bool chk) \<Rightarrow> checked_expr \<Rightarrow> checked_expr \<Rightarrow> ty \<Rightarrow> typed_const option chk" where
  "compare_constants on_floats on_ints l r t = (case (ck_const l, ck_const r) of
     (Some a, Some b) \<Rightarrow>
       bindC (if is_float t
              then bindC (const_to_float a) (\<lambda>x. bindC (const_to_float b) (\<lambda>y. on_floats x y))
              else bindC (const_to_int a) (\<lambda>x. bindC (const_to_int b) (\<lambda>y. on_ints x y)))
         (\<lambda>b. retC (Some (TCBool b)))
   | _ \<Rightarrow> retC None)"

definition check_numeric_comparison :: "binary_op \<Rightarrow> checked_expr \<Rightarrow> checked_expr \<Rightarrow> span \<Rightarrow> checked_expr chk" where
  "check_numeric_comparison op l r sp =
     bindC (promoted_numeric_type l r) (\<lambda>pt. case pt of
       None \<Rightarrow> retC (checked_new (EBool False) TBool None sp)
     | Some t \<Rightarrow>
         let l = coerce_numeric_operand l t; r = coerce_numeric_operand r t in
         bindC (compare_constants (float_compare op) (int_compare op) l r t) (\<lambda>c.
         retC (binary_node op l r TBool c sp)))"

section \<open>Equality\<close>

definition typed_node :: "typed_expr_kind \<Rightarrow> ty \<Rightarrow> span \<Rightarrow> typed_expr" where
  "typed_node k t sp = TExpr k t None sp None"

definition eq_function :: "string \<Rightarrow> string" where
  "eq_function name = name @ ''_eq''"

definition has_eq :: "signatures \<Rightarrow> string \<Rightarrow> signature option" where
  "has_eq sigs name = (case sigs (eq_function name) of
     Some sg \<Rightarrow> if sg_return_type sg = TBool \<and> length (sg_params sg) = 2 then Some sg else None
   | None \<Rightarrow> None)"

definition tuple_access :: "typed_expr \<Rightarrow> nat \<Rightarrow> ty \<Rightarrow> span \<Rightarrow> typed_expr" where
  "tuple_access e idx t sp = typed_node (ETupleAccess e idx) t sp"

text \<open>The comparison of two tuples, element by element; \<open>Inl\<close> is the message for an element without one.\<close>

fun tuple_chain :: "signatures \<Rightarrow> typed_expr \<Rightarrow> typed_expr \<Rightarrow> span \<Rightarrow> nat \<Rightarrow> ty list \<Rightarrow> typed_expr option \<Rightarrow> string + typed_expr option" where
  "tuple_chain sigs l r sp idx [] chain = Inr chain"
| "tuple_chain sigs l r sp idx (t # ts) chain =
     (let la = tuple_access l idx t sp; ra = tuple_access r idx t sp;
          node = (case nominal_name t of
            Some name \<Rightarrow>
              (case has_eq sigs name of
                 Some _ \<Rightarrow> Inr (typed_node (ECall (eq_function name) sp [la, ra]) TBool sp)
               | None \<Rightarrow> Inl (''tuple `==` element at index '' @ show_nat idx @ '' has type '' @ show_ty t @
                   '', but no `implement Eq for '' @ name @ ''` is in scope''))
          | None \<Rightarrow> Inr (typed_node (EBinary Eq la ra True) TBool sp)) in
      case node of
        Inl msg \<Rightarrow> Inl msg
      | Inr eq \<Rightarrow> tuple_chain sigs l r sp (idx + 1) ts
          (Some (case chain of None \<Rightarrow> eq | Some prev \<Rightarrow> typed_node (EBinary And prev eq True) TBool sp)))"

definition negate_if_ne :: "binary_op \<Rightarrow> typed_expr \<Rightarrow> span \<Rightarrow> checked_expr" where
  "negate_if_ne op e sp =
     (if op = Eq then checked_new (e_kind e) TBool None sp else checked_new (EUnary UNot e) TBool None sp)"

fun var_name :: "typed_expr_kind \<Rightarrow> string option" where
  "var_name (EVar n) = Some n"
| "var_name _ = None"

definition auto_borrow :: "typed_expr \<Rightarrow> ty \<Rightarrow> typed_expr option" where
  "auto_borrow e expected =
     (if expected \<in> {TRef (e_ty e), TRefMut (e_ty e)} then
        map_option (\<lambda>n. TExpr (if is_ref expected then ERef n else ERefMut n) expected None (Ir.e_span e) None)
          (var_name (e_kind e))
      else Some e)"

fun is_aggregate :: "ty \<Rightarrow> bool" where
  "is_aggregate (TStruct _) = True"
| "is_aggregate (TTuple _) = True"
| "is_aggregate (TEnum _) = True"
| "is_aggregate _ = False"

fun is_struct :: "ty \<Rightarrow> bool" where
  "is_struct (TStruct _) = True"
| "is_struct _ = False"

fun is_tuple :: "ty \<Rightarrow> bool" where
  "is_tuple (TTuple _) = True"
| "is_tuple _ = False"

definition same_nominal :: "ty \<Rightarrow> ty \<Rightarrow> string option" where
  "same_nominal a b = (case (a, b) of
     (TStruct x, TStruct y) \<Rightarrow> if x = y then Some x else None
   | (TEnum x, TEnum y) \<Rightarrow> if x = y then Some x else None
   | _ \<Rightarrow> None)"

definition dots_text :: string where "dots_text = [CHR 0xE2, CHR 0x80, CHR 0xA6]"

definition eq_hint :: "string \<Rightarrow> string \<Rightarrow> string \<Rightarrow> string" where
  "eq_hint what name otherwise =
     what @ '' '' @ quote_char @ name @ quote_char @ '' has no built-in `==` '' @ dash_text @ '' declare `implement Eq for '' @ name @
     '' { fn eq(self: '' @ name @ '', other: '' @ name @ '') -> bool { '' @ dots_text @ '' } }` to define equality, or '' @ otherwise"

definition equality_hint :: "ty \<Rightarrow> ty \<Rightarrow> string" where
  "equality_hint a b =
     (if is_struct a \<or> is_struct b
      then eq_hint ''struct'' (or_else (nominal_name (if is_struct a then a else b)) []) ''compare field-by-field''
      else if is_tuple a \<or> is_tuple b
      then ''tuple `==` requires both operands to be tuples of the same shape '' @ dash_text @
           '' use matching arities and element types''
      else eq_hint ''enum'' (or_else (nominal_name (if is_enum a then a else b)) []) ''use `match` to discriminate'')"

definition false_result :: "span \<Rightarrow> checked_expr" where
  "false_result sp = checked_new (EBool False) TBool None sp"

definition borrow_hint :: "string \<Rightarrow> string" where
  "borrow_hint name =
     ''implement Eq for '' @ quote_char @ name @ quote_char @ '' declares a borrowed param (`ref '' @ name @ ''` / `mut ref '' @ name @
     ''`); auto-borrow only works when the operand is a let-bound variable. Let-bind both operands before comparing.''"

definition check_nominal_equality :: "binary_op \<Rightarrow> checked_expr \<Rightarrow> checked_expr \<Rightarrow> span \<Rightarrow> signatures \<Rightarrow> checked_expr chk" where
  "check_nominal_equality op l r sp sigs =
     (case Option.bind (same_nominal (ck_ty l) (ck_ty r)) (\<lambda>n. map_option (Pair n) (has_eq sigs n)) of
        Some (name, sg) \<Rightarrow>
          (case (auto_borrow (ck_expr l) (sg_params sg ! 0), auto_borrow (ck_expr r) (sg_params sg ! 1)) of
             (Some a, Some b) \<Rightarrow> retC (negate_if_ne op (typed_node (ECall (eq_function name) sp [a, b]) TBool sp) sp)
           | _ \<Rightarrow> complain sp (borrow_hint name) (false_result sp))
      | None \<Rightarrow> complain sp (equality_hint (ck_ty l) (ck_ty r)) (false_result sp))"

definition check_aggregate_equality :: "binary_op \<Rightarrow> checked_expr \<Rightarrow> checked_expr \<Rightarrow> span \<Rightarrow> signatures \<Rightarrow> checked_expr chk" where
  "check_aggregate_equality op l r sp sigs =
     (case ck_ty l of
        TTuple ts \<Rightarrow>
          if ck_ty r = TTuple ts then
            (case tuple_chain sigs (ck_expr l) (ck_expr r) sp 0 ts None of
               Inl msg \<Rightarrow> complain sp msg (false_result sp)
             | Inr chain \<Rightarrow> retC (negate_if_ne op
                 (case chain of Some e \<Rightarrow> e | None \<Rightarrow> TExpr (EBool True) TBool (Some (TCBool True)) sp None) sp))
          else check_nominal_equality op l r sp sigs
      | _ \<Rightarrow> check_nominal_equality op l r sp sigs)"

definition check_equality :: "binary_op \<Rightarrow> checked_expr \<Rightarrow> checked_expr \<Rightarrow> span \<Rightarrow> signatures \<Rightarrow> checked_expr chk" where
  "check_equality op l r sp sigs =
     (if ck_ty l = TBool \<or> ck_ty r = TBool then
        thenC (whenC (ck_ty l \<noteq> TBool \<or> ck_ty r \<noteq> TBool) (push (ck_span r)
            (''equality operands must both be bool or both be numeric, got '' @ show_ty (ck_ty l) @ '' and '' @ show_ty (ck_ty r))))
          (retC (binary_node op l r TBool (case (ck_const l, ck_const r) of
             (Some (TCBool a), Some (TCBool b)) \<Rightarrow> Some (TCBool (if op = Eq then a = b else a \<noteq> b)) | _ \<Rightarrow> None) sp))
      else if is_strish (ck_ty l) \<or> is_strish (ck_ty r) then
        thenC (whenC (\<not> is_strish (ck_ty l) \<or> \<not> is_strish (ck_ty r)) (push (ck_span r)
            (''equality operands must both be Str or OwnedStr, got '' @ show_ty (ck_ty l) @ '' and '' @ show_ty (ck_ty r))))
          (retC (binary_node op l r TBool None sp))
      else if is_aggregate (ck_ty l) \<or> is_aggregate (ck_ty r) then check_aggregate_equality op l r sp sigs
      else
        bindC (promoted_numeric_type l r) (\<lambda>pt. case pt of
          None \<Rightarrow> retC (false_result sp)
        | Some t \<Rightarrow>
            let l = coerce_numeric_operand l t; r = coerce_numeric_operand r t in
            bindC (compare_constants (\<lambda>x y. retC (f64_equal x y = (op = Eq))) (\<lambda>x y. retC ((x = y) = (op = Eq))) l r t) (\<lambda>c.
            retC (binary_node op l r TBool c sp))))"

definition check_boolean_binary :: "binary_op \<Rightarrow> checked_expr \<Rightarrow> checked_expr \<Rightarrow> span \<Rightarrow> checked_expr chk" where
  "check_boolean_binary op l r sp =
     thenC (require_type (ck_ty l) TBool (ck_span l) ''boolean left operand'')
    (thenC (require_type (ck_ty r) TBool (ck_span r) ''boolean right operand'')
      (retC (binary_node op l r TBool (case (ck_const l, ck_const r) of
         (Some (TCBool a), Some (TCBool b)) \<Rightarrow> Some (TCBool (if op = And then a \<and> b else a \<or> b)) | _ \<Rightarrow> None) sp)))"

section \<open>Binary operators\<close>

text \<open>The check of an expression with its messages thrown away; the environment keeps its changes.\<close>

definition quietly :: "'a chk \<Rightarrow> 'a chk" where
  "quietly m s = bindE (m (s\<lparr>cs_diags := []\<rparr>)) (\<lambda>(x, s'). Inr (x, s'\<lparr>cs_diags := cs_diags s\<rparr>))"

definition short_circuits :: "binary_op \<Rightarrow> checked_expr \<Rightarrow> bool option" where
  "short_circuits op l = (case (op, ck_const l) of
     (And, Some (TCBool b)) \<Rightarrow> if b then None else Some False
   | (Or, Some (TCBool b)) \<Rightarrow> if b then Some True else None
   | _ \<Rightarrow> None)"

definition check_operator :: "signatures \<Rightarrow> binary_op \<Rightarrow> SourceAst.expr \<Rightarrow> SourceAst.expr \<Rightarrow> checked_expr \<Rightarrow> checked_expr \<Rightarrow> checked_expr chk" where
  "check_operator sigs op left right l r =
     (let sp = span_merge (SourceAst.e_span left) (SourceAst.e_span right) in
      if op = Add \<and> is_strish (ck_ty l) \<and> is_strish (ck_ty r) then check_str_concat l r sp left right
      else if op \<in> {Add, Sub, Mul, Div} then check_numeric_binary op l r sp
      else if op = Rem then check_integer_remainder l r sp
      else if op \<in> {Shl, Shr} then check_shift op l r sp
      else if op \<in> {BitAnd, BitOr, BitXor} then check_integer_bitwise op l r sp
      else if op \<in> {Lt, Le, Gt, Ge} then
        (if is_strish (ck_ty l) \<and> is_strish (ck_ty r) then retC (binary_node op l r TBool None sp)
         else check_numeric_comparison op l r sp)
      else if op \<in> {Eq, Ne} then check_equality op l r sp sigs
      else check_boolean_binary op l r sp)"

definition check_binary :: "(SourceAst.expr \<Rightarrow> checked_expr chk) \<Rightarrow> signatures \<Rightarrow> binary_op \<Rightarrow> SourceAst.expr \<Rightarrow> SourceAst.expr \<Rightarrow> checked_expr chk" where
  "check_binary check sigs op left right =
     bindC (check left) (\<lambda>l. case short_circuits op l of
       Some v \<Rightarrow>
         bindC (quietly (check right)) (\<lambda>r.
         retC (binary_node op l r TBool (Some (TCBool v)) (span_merge (SourceAst.e_span left) (SourceAst.e_span right))))
     | None \<Rightarrow> bindC (check right) (check_operator sigs op left right l))"

end
