(* ===== verification/CheckExpr.thy ===== *)
theory CheckExpr
  imports CheckOp
begin

text \<open>
  The check of an expression (\<open>check_expr\<close> of \<open>src/checker.rs\<close>): literals, variables, operators, casts,
  arrays, indexing, references, tuples, conditional expressions. The other forms (calls, method calls,
  structs, fields, matches, blocks) are checked by the argument \<open>other\<close>.
\<close>

section \<open>Variables\<close>

definition tick :: "string \<Rightarrow> string" where
  "tick t = ''`'' @ t @ ''`''"

definition share_hint :: "string \<Rightarrow> string" where
  "share_hint name = ''share via '' @ tick (''ref '' @ name) @ '' '' @ dash_text @ '' '' @ tick name @
     '' is an exclusive single-owner handle and cannot be cloned (use `Atomic<T>` or `Channel` through a borrow if multiple threads need access)''"

definition move_recovery_hint :: "string \<Rightarrow> ty \<Rightarrow> string option" where
  "move_recovery_hint name t =
     (let borrow = ''consider borrowing with '' @ tick (''ref '' @ name) @ '' for read-only access'' in
      case t of
        TVec _ \<Rightarrow> Some (borrow @ '', or call '' @ tick (''clone('' @ name @ '')'') @ '' if you need both bindings to own data'')
      | TOwnedStr \<Rightarrow> Some (borrow @ '', or call '' @ tick (''clone('' @ name @ '')'') @ '' if you need both bindings to own data'')
      | TArray _ _ \<Rightarrow> Some (borrow @ '' '' @ dash_text @ '' arrays are affine in v1; restructure if you need both bindings to own data'')
      | TStruct _ \<Rightarrow> Some (borrow @ '', or call '' @ tick (''clone('' @ name @ '')'') @ '' if the type supports it'')
      | TEnum _ \<Rightarrow> Some (borrow @ '', or call '' @ tick (''clone('' @ name @ '')'') @ '' if the type supports it'')
      | TTask \<Rightarrow> Some (''task handles cannot be shared '' @ dash_text @ '' keep one handle per spawn and '' @
          tick (''join '' @ name) @ '' on exactly one path'')
      | TAtomic _ \<Rightarrow> Some (share_hint name)
      | TMutex _ \<Rightarrow> Some (share_hint name)
      | TChannel _ _ \<Rightarrow> Some (share_hint name)
      | TGuard _ \<Rightarrow> Some (share_hint name)
      | _ \<Rightarrow> None)"

definition push_diag :: "diagnostic \<Rightarrow> unit chk" where
  "push_diag d s = Inr ((), s\<lparr>cs_diags := cs_diags s @ [d]\<rparr>)"

definition quoted_name :: "string \<Rightarrow> string" where
  "quoted_name name = quote_char @ name @ quote_char"

definition moved_diagnostic :: "string \<Rightarrow> ty \<Rightarrow> span \<Rightarrow> span \<Rightarrow> diagnostic" where
  "moved_diagnostic name t move_span sp =
     (let d = with_related (diagnostic_new sp (''value '' @ quoted_name name @ '' was moved; cannot use after move''))
                move_span (quoted_name name @ '' was moved here'') in
      case move_recovery_hint name t of None \<Rightarrow> d | Some h \<Rightarrow> with_related d sp h)"

text \<open>A constant of the top level is replaced by its value.\<close>

definition var_kind :: "string \<Rightarrow> var_info \<Rightarrow> typed_expr_kind" where
  "var_kind name vi =
     (if vi_is_const vi then
        (case vi_constant vi of Some (TCInt v) \<Rightarrow> EInt v | Some (TCFloat v) \<Rightarrow> EFloat v | Some (TCBool b) \<Rightarrow> EBool b
         | None \<Rightarrow> EVar name)
      else EVar name)"

definition unknown_variable :: "span \<Rightarrow> string \<Rightarrow> span \<Rightarrow> checked_expr chk" where
  "unknown_variable at name sp = complain at (''unknown variable '' @ quoted_name name) (fallback_integer sp)"

definition check_var :: "signatures \<Rightarrow> string \<Rightarrow> span \<Rightarrow> checked_expr chk" where
  "check_var sigs name sp = withC (\<lambda>s. lookup (cs_env s) name) (\<lambda>r. case r of
     Some vi \<Rightarrow>
       thenC (case vi_moved vi of None \<Rightarrow> retC () | Some m \<Rightarrow> push_diag (moved_diagnostic name (vi_ty vi) m sp))
         (retC (with_binding_decl_span (checked_new (var_kind name vi) (vi_ty vi) (vi_constant vi) sp) (vi_decl_span vi)))
   | None \<Rightarrow>
       (case sigs name of
          Some sg \<Rightarrow> retC (checked_new (EFnRef name sp) (TFnPtr (sg_params sg) (sg_return_type sg)) None sp)
        | None \<Rightarrow> unknown_variable sp name sp))"

section \<open>Literals\<close>

definition check_int :: "int \<Rightarrow> span \<Rightarrow> checked_expr chk" where
  "check_int v sp =
     thenC (whenC (\<not> value_fits_type v TU64) (push sp (''integer literal '' @ quoted_name (show_int v) @ '' does not fit in u64'')))
       (retC ((checked_new (EInt v) (if v \<le> 9223372036854775807 then TI64 else TU64) (Some (TCInt v)) sp)
          \<lparr>ck_flexible_integer := True\<rparr>))"

definition check_float :: "f64 \<Rightarrow> span \<Rightarrow> checked_expr chk" where
  "check_float v sp = retC ((checked_new (EFloat v) TF64 (Some (TCFloat v)) sp)\<lparr>ck_flexible_float := True\<rparr>)"

section \<open>References\<close>

text \<open>Both kinds of borrow; \<open>mutable\<close> says which.\<close>

fun struct_name :: "ty \<Rightarrow> string option" where
  "struct_name (TStruct n) = Some n"
| "struct_name _ = None"

definition find_field :: "struct_info \<Rightarrow> string \<Rightarrow> (nat \<times> ty) option" where
  "find_field si f = Option.bind (position (\<lambda>(n, t). n = f) (si_fields si)) (\<lambda>i. Some (i, snd (si_fields si ! i)))"

definition borrow_place :: "bool \<Rightarrow> string \<Rightarrow> string \<Rightarrow> span \<Rightarrow> span \<Rightarrow> var_info \<Rightarrow> nat \<times> ty \<Rightarrow> checked_expr chk" where
  "borrow_place mutable obj f inner_span sp vi = (\<lambda>(idx, ft).
     thenC (whenC (vi_moved vi \<noteq> None) (push inner_span
         (''cannot '' @ (if mutable then ''mutably '' else []) @ ''borrow field of '' @ quoted_name obj @ '' after it was moved'')))
    (thenC (whenC (mutable \<and> is_ref (vi_ty vi)) (push inner_span
         (''cannot take '' @ quoted_name ''mut ref'' @ '' on a field of '' @ quoted_name obj @
          '' because the base is borrowed immutably (&T)'')))
      (retC (if mutable then checked_new (ERefMutField obj f idx (vi_ty vi)) (TRefMut ft) None sp
             else checked_new (ERefField obj f idx (vi_ty vi)) (TRef ft) None sp))))"

definition borrow_field :: "bool \<Rightarrow> string \<Rightarrow> string \<Rightarrow> span \<Rightarrow> span \<Rightarrow> span \<Rightarrow> checked_expr chk" where
  "borrow_field mutable obj f obj_span inner_span sp = withC cs_env (\<lambda>env.
     case lookup env obj of
       None \<Rightarrow> unknown_variable obj_span obj sp
     | Some vi \<Rightarrow>
         (case struct_name (deref (vi_ty vi)) of
            None \<Rightarrow> complain obj_span (''field-borrow base '' @ quoted_name obj @ '' must be a struct binding (got '' @ show_ty (vi_ty vi) @ '')'')
                      (fallback_integer sp)
          | Some sn \<Rightarrow>
              (case lookup_struct env sn of
                 None \<Rightarrow> complain obj_span (''unknown struct type '' @ quoted_name sn) (fallback_integer sp)
               | Some si \<Rightarrow>
                   (case find_field si f of
                      None \<Rightarrow> complain inner_span (''struct '' @ quoted_name sn @ '' has no field named '' @ quoted_name f) (fallback_integer sp)
                    | Some place \<Rightarrow> borrow_place mutable obj f inner_span sp vi place))))"

definition borrow_var :: "bool \<Rightarrow> string \<Rightarrow> span \<Rightarrow> span \<Rightarrow> checked_expr chk" where
  "borrow_var mutable name inner_span sp = withC (\<lambda>s. lookup (cs_env s) name) (\<lambda>r. case r of
     None \<Rightarrow> unknown_variable inner_span name sp
   | Some vi \<Rightarrow>
       thenC (whenC (vi_moved vi \<noteq> None) (push inner_span
           (''cannot '' @ (if mutable then ''mutably '' else []) @ ''borrow '' @ quoted_name name @ '' after it was moved'')))
      (thenC (whenC (is_ref (vi_ty vi)) (push inner_span
           (if mutable then ''cannot take '' @ quoted_name ''&mut'' @ '' on '' @ quoted_name name @
              '' because it is borrowed immutably (&T); only owned bindings or '' @ quoted_name ''&mut T'' @
              '' parameters can be mutably borrowed''
            else ''cannot create a reference to a reference'')))
        (retC (with_binding_decl_span
           (if mutable then checked_new (ERefMut name) (TRefMut (vi_ty vi)) None sp
            else checked_new (ERef name) (TRef (vi_ty vi)) None sp) (vi_decl_span vi)))))"

definition borrow_message :: "bool \<Rightarrow> string" where
  "borrow_message mutable =
     quoted_name (if mutable then ''mut ref'' else ''ref'') @ '' can only borrow a named variable or a struct field; e.g. '' @
     (if mutable then ''`mut ref xs` or `mut ref t.field`'' else ''`ref xs` or `ref t.field`'')"

definition check_borrow :: "bool \<Rightarrow> SourceAst.expr \<Rightarrow> span \<Rightarrow> checked_expr chk" where
  "check_borrow mutable e sp =
     (case SourceAst.e_kind e of
        KFieldAccess ob f \<Rightarrow>
          (case SourceAst.e_kind ob of
             KVar obj \<Rightarrow> borrow_field mutable obj f (SourceAst.e_span ob) (SourceAst.e_span e) sp
           | _ \<Rightarrow> complain (SourceAst.e_span e) (borrow_message mutable) (fallback_integer sp))
      | KVar name \<Rightarrow> borrow_var mutable name (SourceAst.e_span e) sp
      | _ \<Rightarrow> complain (SourceAst.e_span e) (borrow_message mutable) (fallback_integer sp))"

definition check_ref :: "SourceAst.expr \<Rightarrow> span \<Rightarrow> checked_expr chk" where
  "check_ref e sp = check_borrow False e sp"

definition check_ref_mut :: "SourceAst.expr \<Rightarrow> span \<Rightarrow> checked_expr chk" where
  "check_ref_mut e sp = check_borrow True e sp"

section \<open>Arrays\<close>

fun mapC :: "('a \<Rightarrow> 'b chk) \<Rightarrow> 'a list \<Rightarrow> 'b list chk" where
  "mapC f [] = retC []"
| "mapC f (x # xs) = bindC (f x) (\<lambda>y. bindC (mapC f xs) (\<lambda>ys. retC (y # ys)))"

fun coerce_all :: "(f64 \<Rightarrow> string) \<Rightarrow> ty \<Rightarrow> nat \<Rightarrow> checked_expr list \<Rightarrow> checked_expr list chk" where
  "coerce_all disp t i [] = retC []"
| "coerce_all disp t i (c # cs) =
     bindC (coerce_checked disp c t (ck_span c) (''array element '' @ show_nat i)) (\<lambda>d.
     bindC (coerce_all disp t (i + 1) cs) (\<lambda>ds. retC (d # ds)))"

definition array_literal :: "(f64 \<Rightarrow> string) \<Rightarrow> checked_expr list \<Rightarrow> span \<Rightarrow> checked_expr chk" where
  "array_literal disp cs sp =
     (let t = ck_ty (hd cs) in
      thenC (whenC (is_any_ref t) (push sp (''array element type cannot be a reference, got '' @ show_ty t)))
        (bindC (coerce_all disp t 0 cs) (\<lambda>ds.
           retC (checked_new (EArrayLit (map ck_expr ds)) (TArray t (length ds)) None sp))))"

definition element_and_length :: "ty \<Rightarrow> (ty \<times> nat option) option" where
  "element_and_length t = (case t of TArray e n \<Rightarrow> Some (e, Some n) | TVec e \<Rightarrow> Some (e, None) | _ \<Rightarrow> None)"

text \<open>
  Whether a bounds check is left, or the message for an index known to be out of bounds. A constant
  index within a fixed length needs none.
\<close>

definition index_check :: "typed_const option \<Rightarrow> nat option \<Rightarrow> string + bool" where
  "index_check c len = (case (len, c) of
     (Some n, Some (TCInt v)) \<Rightarrow>
       if v < 0 then Inl (''array index '' @ show_int v @ '' is negative; length is '' @ show_nat n)
       else if int n \<le> v then Inl (''array index '' @ show_int v @ '' is out of range for length '' @ show_nat n)
       else Inr False
   | _ \<Rightarrow> Inr True)"

definition index_result :: "SourceAst.expr \<Rightarrow> SourceAst.expr \<Rightarrow> checked_expr \<Rightarrow> checked_expr \<Rightarrow> span \<Rightarrow> checked_expr chk" where
  "index_result array index a i sp = withC cs_registries (\<lambda>reg.
     case element_and_length (deref (ck_ty a)) of
       None \<Rightarrow> complain (SourceAst.e_span array) (''cannot index into non-array type '' @ show_ty (deref (ck_ty a))) (fallback_integer sp)
     | Some (t, len) \<Rightarrow>
         if \<not> is_copy reg t \<and> \<not> is_any_ref t then
           complain sp (''cannot index a Vec/array whose element type ('' @ show_ty t @ '') is non-Copy by value; '' @
             ''the element would alias the owner'' @ quote_char @ ''s slot and double-free. Use `clone_at(&xs, i)` to bind an owned deep-clone of the slot.'')
             (fallback t sp)
         else if \<not> is_integer (ck_ty i) then
           complain (SourceAst.e_span index) (''array index must be an integer, got '' @ show_ty (ck_ty i)) (fallback t sp)
         else (case index_check (ck_const i) len of
             Inl msg \<Rightarrow> complain (SourceAst.e_span index) msg (fallback t sp)
           | Inr b \<Rightarrow> retC (checked_new (EIndex (ck_expr a) (ck_expr i) b) t None sp)))"

definition len_result :: "SourceAst.expr \<Rightarrow> checked_expr \<Rightarrow> span \<Rightarrow> checked_expr chk" where
  "len_result array a sp = (case deref (ck_ty a) of
     TArray _ n \<Rightarrow> retC (checked_new (ELen (ck_expr a) n) TU64 (Some (TCInt (int n))) sp)
   | TVec _ \<Rightarrow> retC (checked_new (ELen (ck_expr a) 0) TU64 None sp)
   | TStr \<Rightarrow> retC (checked_new (ELen (ck_expr a) 0) TU64 None sp)
   | TOwnedStr \<Rightarrow> retC (checked_new (ELen (ck_expr a) 0) TU64 None sp)
   | t \<Rightarrow> complain (SourceAst.e_span array) (''len() requires an array, Vec, or Str argument, got '' @ show_ty t) (fallback TU64 sp))"

section \<open>Tuples and conditionals\<close>

fun copy_elements :: "registries \<Rightarrow> nat \<Rightarrow> (SourceAst.expr \<times> checked_expr) list \<Rightarrow> unit chk" where
  "copy_elements reg i [] = retC ()"
| "copy_elements reg i ((e, c) # cs) =
     thenC (whenC (\<not> is_copy reg (ck_ty c)) (push (SourceAst.e_span e)
         (''tuple element '' @ show_nat i @ '' has non-Copy type '' @ show_ty (ck_ty c) @ '' '' @ dash_text @ '' v1 tuples are Copy-only'')))
       (copy_elements reg (i + 1) cs)"

definition tuple_result :: "SourceAst.expr list \<Rightarrow> checked_expr list \<Rightarrow> span \<Rightarrow> checked_expr chk" where
  "tuple_result es cs sp =
     thenC (withC cs_registries (\<lambda>reg. copy_elements reg 0 (zip es cs))) (retC (checked_new (ETuple (map ck_expr cs)) (TTuple (map ck_ty cs)) None sp))"

definition tuple_access_result :: "SourceAst.expr \<Rightarrow> checked_expr \<Rightarrow> nat \<Rightarrow> span \<Rightarrow> checked_expr chk" where
  "tuple_access_result e c i sp = (case ck_ty c of
     TTuple ts \<Rightarrow>
       if length ts \<le> i then
         complain sp (''tuple index '' @ show_nat i @ '' out of bounds for tuple of arity '' @ show_nat (length ts)) (fallback_integer sp)
       else retC (checked_new (ETupleAccess (ck_expr c) i) (ts ! i) None sp)
   | t \<Rightarrow> complain (SourceAst.e_span e) (''tuple access on non-tuple type '' @ show_ty t) (fallback_integer sp))"

definition if_result :: "checked_expr \<Rightarrow> checked_expr \<Rightarrow> checked_expr \<Rightarrow> span \<Rightarrow> checked_expr chk" where
  "if_result c t e sp =
     thenC (whenC (ck_ty t \<noteq> ck_ty e) (push sp
         (''if-expression branches have different types: then = '' @ show_ty (ck_ty t) @ '', else = '' @ show_ty (ck_ty e))))
       (retC (checked_new (EIfExpr (ck_expr c) (ck_expr t) (ck_expr e)) (ck_ty t)
          (case ck_const c of Some (TCBool b) \<Rightarrow> if b then ck_const t else ck_const e | _ \<Rightarrow> None) sp))"

definition try_message :: string where
  "try_message = ''`try EXPR` is reserved as a keyword but the desugar to match-with-early-return is still in progress (T2.6 Phase 2). '' @
     ''Write the pattern manually: `match opt { Opt.Some(v) then v, Opt.None then return Opt.None };`''"

definition anon_message :: string where
  "anon_message = ''internal: anonymous fn expression survived the lambda-lift pass. This is a v'' @ [CHR 0xC4, CHR 0x81, CHR 0xE1, CHR 0xB9, CHR 0x87, CHR 0xC4, CHR 0xAB] @
     '' compiler bug '' @ dash_text @ '' please report.''"

section \<open>Expressions\<close>

lemma bindC_cong [fundef_cong]: "m = m' \<Longrightarrow> (\<And>x. f x = f' x) \<Longrightarrow> bindC m f = bindC m' f'"
  by (auto simp: bindC_def fun_eq_iff)

lemma mapC_cong [fundef_cong]: "xs = ys \<Longrightarrow> (\<And>x. x \<in> set ys \<Longrightarrow> f x = g x) \<Longrightarrow> mapC f xs = mapC g ys"
  by (induction xs arbitrary: ys) auto

lemma check_binary_cong [fundef_cong]:
  "left = left' \<Longrightarrow> right = right' \<Longrightarrow> check left' = check' left' \<Longrightarrow> check right' = check' right' \<Longrightarrow>
    check_binary check sigs op left right = check_binary check' sigs op left' right'"
  by (simp add: check_binary_def cong: option.case_cong)

fun check_expr :: "(f64 \<Rightarrow> string) \<Rightarrow> (SourceAst.expr \<Rightarrow> checked_expr chk) \<Rightarrow> signatures \<Rightarrow> SourceAst.expr \<Rightarrow> checked_expr chk" where
  "check_expr disp other sigs (Expr k sp) = (case k of
     KInt v \<Rightarrow> check_int v sp
   | KFloat v \<Rightarrow> check_float v sp
   | KBool b \<Rightarrow> retC (checked_new (EBool b) TBool (Some (TCBool b)) sp)
   | KStr t \<Rightarrow> retC (checked_new (EStr t) TStr None sp)
   | KVar name \<Rightarrow> check_var sigs name sp
   | KUnary op e \<Rightarrow> bindC (check_expr disp other sigs e) (\<lambda>c. check_unary op c sp)
   | KBinary op l r \<Rightarrow> check_binary (check_expr disp other sigs) sigs op l r
   | KCast e t \<Rightarrow> bindC (check_expr disp other sigs e) (\<lambda>c. explicit_cast disp c t sp)
   | KArrayLit es \<Rightarrow>
       if es = [] then complain sp ''empty array literals are not supported; explicit element type is required'' (fallback_integer sp)
       else bindC (mapC (check_expr disp other sigs) es) (\<lambda>cs. array_literal disp cs sp)
   | KIndex a i \<Rightarrow>
       bindC (check_expr disp other sigs a) (\<lambda>ca. bindC (check_expr disp other sigs i) (\<lambda>ci. index_result a i ca ci sp))
   | KLen a \<Rightarrow> bindC (check_expr disp other sigs a) (\<lambda>c. len_result a c sp)
   | KRef e \<Rightarrow> check_ref e sp
   | KRefMut e \<Rightarrow> check_ref_mut e sp
   | KTuple es \<Rightarrow>
       if length es < 2 \<or> 4 < length es then
         complain sp (''tuple must have 2..=4 elements; got '' @ show_nat (length es)) (fallback_integer sp)
       else bindC (mapC (check_expr disp other sigs) es) (\<lambda>cs. tuple_result es cs sp)
   | KTupleAccess e i \<Rightarrow> bindC (check_expr disp other sigs e) (\<lambda>c. tuple_access_result e c i sp)
   | KTry e \<Rightarrow> bindC (check_expr disp other sigs e) (\<lambda>c. complain sp try_message (fallback_integer sp))
   | KIfExpr c t e \<Rightarrow>
       bindC (check_expr disp other sigs c) (\<lambda>cc.
       thenC (whenC (ck_ty cc \<noteq> TBool) (push (SourceAst.e_span c) (''if-expression condition must be bool, got '' @ show_ty (ck_ty cc))))
      (bindC (check_expr disp other sigs t) (\<lambda>ct.
       bindC (check_expr disp other sigs e) (\<lambda>ce. if_result cc ct ce sp))))
   | KAnonFn ps t body asp \<Rightarrow> complain sp anon_message (fallback_integer sp)
   | _ \<Rightarrow> other (Expr k sp))"

end
