(* ===== verification/CheckProps.thy ===== *)
theory CheckProps
  imports CheckExpr
begin

text \<open>
  What the checker's expressions guarantee: constants of the kind of their expression's type and, up to the
  exceptions of \<open>near\<close>, in its range; no panics; coercions that reach their target.
\<close>

named_theorems okc \<open>rules for checks that keep the state in order\<close>

section \<open>Constants of the right type\<close>

text \<open>
  The range the constants of an integer type keep to: that of the type; for a signed type also the next
  greater integer, which the negation of the least value and a cast from a float give; for \<open>u64\<close> every
  integer that is not negative (a cast from a float gives 2^64).
\<close>

definition near :: "ty \<Rightarrow> int \<Rightarrow> bool" where
  "near t v \<longleftrightarrow> fits t v \<or> is_signed_integer t \<and> fits t (v - 1) \<or> t = TU64 \<and> 0 \<le> v"

fun const_ok :: "ty \<Rightarrow> typed_const \<Rightarrow> bool" where
  "const_ok t (TCInt v) = near t v"
| "const_ok t (TCFloat v) = is_float t"
| "const_ok t (TCBool b) = (t = TBool)"

definition scope_ok :: "scope \<Rightarrow> bool" where
  "scope_ok scope \<longleftrightarrow> (\<forall>(n, vi)\<in>set scope. \<forall>v. vi_constant vi = Some v \<longrightarrow> const_ok (vi_ty vi) v)"

definition consts_ok :: "check_state \<Rightarrow> bool" where
  "consts_ok s \<longleftrightarrow> (\<forall>scope\<in>set (ce_scopes (cs_env s)). scope_ok scope)"

definition ck_ok :: "checked_expr \<Rightarrow> bool" where
  "ck_ok c \<longleftrightarrow> (\<forall>v. ck_const c = Some v \<longrightarrow> const_ok (ck_ty c) v) \<and> (ck_flexible_integer c \<longrightarrow> is_integer (ck_ty c)) \<and>
    (ck_flexible_float c \<longrightarrow> is_float (ck_ty c))"

text \<open>From an environment with constants of the right types the check returns, with \<open>Q\<close>, and leaves such a one.\<close>

definition okC :: "'a chk \<Rightarrow> ('a \<Rightarrow> bool) \<Rightarrow> bool" where
  "okC m Q \<longleftrightarrow> (\<forall>s. consts_ok s \<longrightarrow> (\<exists>x s'. m s = Inr (x, s') \<and> consts_ok s' \<and> Q x))"

lemma okC_ret [okc]: "Q x \<Longrightarrow> okC (retC x) Q"
  by (simp add: okC_def retC_def)

lemma okC_bind: "okC m P \<Longrightarrow> (\<And>x. P x \<Longrightarrow> okC (f x) Q) \<Longrightarrow> okC (bindC m f) Q"
  unfolding okC_def bindC_def by fastforce

lemma okC_mono: "okC m P \<Longrightarrow> (\<And>x. P x \<Longrightarrow> Q x) \<Longrightarrow> okC m Q"
  unfolding okC_def by blast

lemma okC_then [okc]: "okC m (\<lambda>_. True) \<Longrightarrow> okC n Q \<Longrightarrow> okC (thenC m n) Q"
  unfolding thenC_def by (rule okC_bind)

lemma okC_push [okc]: "okC (push sp msg) (\<lambda>_. True)"
  by (simp add: okC_def push_def consts_ok_def)

lemma okC_push_diag [okc]: "okC (push_diag d) (\<lambda>_. True)"
  by (simp add: okC_def push_diag_def consts_ok_def)

lemma okC_when [okc]: "okC m (\<lambda>_. True) \<Longrightarrow> okC (whenC b m) (\<lambda>_. True)"
  by (auto simp: whenC_def intro: okC_ret)

lemma okC_complain [okc]: "Q x \<Longrightarrow> okC (complain sp msg x) Q"
  unfolding complain_def by (intro okc)

lemma okC_with [okc]: "(\<And>s. consts_ok s \<Longrightarrow> okC (g (f s)) Q) \<Longrightarrow> okC (withC f g) Q"
  unfolding okC_def withC_def by blast

lemma okC_if [okc]: "(b \<Longrightarrow> okC m Q) \<Longrightarrow> (\<not> b \<Longrightarrow> okC n Q) \<Longrightarrow> okC (if b then m else n) Q"
  by simp

lemma okC_option [okc]:
  "(x = None \<Longrightarrow> okC m Q) \<Longrightarrow> (\<And>v. x = Some v \<Longrightarrow> okC (f v) Q) \<Longrightarrow> okC (case x of None \<Rightarrow> m | Some v \<Rightarrow> f v) Q"
  by (cases x) auto

lemma okC_pair [okc]: "(\<And>a b. p = (a, b) \<Longrightarrow> okC (f a b) Q) \<Longrightarrow> okC (case p of (a, b) \<Rightarrow> f a b) Q"
  by (cases p) auto

lemma okC_sum [okc]:
  "(\<And>a. x = Inl a \<Longrightarrow> okC (f a) Q) \<Longrightarrow> (\<And>b. x = Inr b \<Longrightarrow> okC (g b) Q) \<Longrightarrow> okC (case x of Inl a \<Rightarrow> f a | Inr b \<Rightarrow> g b) Q"
  by (cases x) auto

lemma okC_unary [okc]:
  "(op = UNeg \<Longrightarrow> okC m Q) \<Longrightarrow> (op = UNot \<Longrightarrow> okC n Q) \<Longrightarrow> okC (case op of UNeg \<Rightarrow> m | UNot \<Rightarrow> n) Q"
  by (cases op) auto

lemma ck_ok_none [simp]: "ck_ok (checked_new k t None sp)"
  by (simp add: ck_ok_def checked_new_def)

lemma ck_ok_new: "(\<And>v. c = Some v \<Longrightarrow> const_ok t v) \<Longrightarrow> ck_ok (checked_new k t c sp)"
  by (simp add: ck_ok_def checked_new_def)

lemma checked_new_simps [simp]:
  "ck_ty (checked_new k t c sp) = t" "ck_const (checked_new k t c sp) = c" "ck_span (checked_new k t c sp) = sp"
  by (simp_all add: checked_new_def)

lemma ck_ok_fallback [simp]: "ck_ok (fallback t sp)" "ck_ok (fallback_integer sp)" "ck_ty (fallback t sp) = t"
  by (simp_all add: fallback_def fallback_integer_def)

section \<open>Ranges\<close>

lemma near_fits: "fits t v \<Longrightarrow> near t v"
  by (simp add: near_def)

lemma near_integer: "near t v \<Longrightarrow> is_integer t"
  unfolding near_def using fits_integer by (auto simp: is_integer_def)

lemma near_negated: "near t v \<Longrightarrow> is_signed_integer t \<Longrightarrow> near t (- v)"
  by (cases t) (auto simp: near_def fits_def is_signed_integer_def)

lemma value_fits_fits: "value_fits_type v t = fits t v"
  by (simp add: value_fits_type_def fits_def)

text \<open>A cast from a float compares with the bounds as floats; the greatest values of \<open>i64\<close> and \<open>u64\<close> round up.\<close>

lemma float_bounds:
  "f64_truncate (f64_of_int (-128)) = -128" "f64_truncate (f64_of_int 127) = 127"
  "f64_truncate (f64_of_int (-32768)) = -32768" "f64_truncate (f64_of_int 32767) = 32767"
  "f64_truncate (f64_of_int (-2147483648)) = -2147483648" "f64_truncate (f64_of_int 2147483647) = 2147483647"
  "f64_truncate (f64_of_int (-9223372036854775808)) = -9223372036854775808"
  "f64_truncate (f64_of_int 9223372036854775807) = 9223372036854775808"
  "f64_truncate (f64_of_int 0) = 0" "f64_truncate (f64_of_int 255) = 255" "f64_truncate (f64_of_int 65535) = 65535"
  "f64_truncate (f64_of_int 4294967295) = 4294967295" "f64_truncate (f64_of_int 18446744073709551615) = 18446744073709551616"
  by (simp_all add: f64_truncate_def f64_of_int_def f64_round_def f64_pack_def lead_def in_units_def round_div_def bit_len.simps
      f64_mantissa_def f64_exponent_def f64_sign_def f64_magnitude_def Let_def)

definition float_cast_value :: "ty \<Rightarrow> int \<Rightarrow> int option" where
  "float_cast_value t n = (if fits t n \<or> t = TI64 \<and> n = 2 ^ 63 \<or> t = TU64 \<and> n = 2 ^ 64 then Some n else None)"

lemma cast_float_value:
  assumes "is_integer t" "f64_is_finite x"
  shows "cast_float_to_int x t = map_option TCInt (float_cast_value t (f64_truncate x))"
  using assms by (elim is_integer_cases; simp add: cast_float_to_int_def Let_def float_bounds float_cast_value_def fits_def; arith?)

section \<open>Casts and coercions\<close>

lemma cast_float_near:
  assumes "is_integer t" "cast_float_to_int x t = Some v"
  shows "const_ok t v"
proof -
  have "f64_is_finite x" using assms(2) by (auto simp: cast_float_to_int_def split: if_splits)
  then show ?thesis using assms(2) cast_float_value[OF assms(1)]
    by (auto simp: float_cast_value_def near_def fits_def is_signed_integer_def split: if_splits)
qed

lemma cast_no_diag_ok: "eval_cast_constant_no_diagnostic c t = Some v \<Longrightarrow> const_ok t v"
  by (auto simp: eval_cast_constant_no_diagnostic_def value_fits_fits near_fits Let_def intro: cast_float_near
      split: typed_const.splits if_splits)

lemma cast_constant_ok [okc]: "okC (cast_constant disp c t sp) (\<lambda>r. \<forall>v. r = Some v \<longrightarrow> const_ok t v)"
  unfolding cast_constant_def eval_cast_constant_def
  by (auto split: option.split intro!: okC_ret okC_complain cast_no_diag_ok)

lemma explicit_cast_ok: "ck_ok c \<Longrightarrow> okC (explicit_cast disp c t sp) ck_ok"
  unfolding explicit_cast_def cast_expr_def
  by (intro okc okC_bind[OF cast_constant_ok] ck_ok_new ck_ok_fallback) (auto simp: ck_ok_def)

lemma coerce_numeric_ok: "ck_ok c \<Longrightarrow> ck_ok (coerce_numeric_operand c t) \<and> ck_ty (coerce_numeric_operand c t) = t"
  unfolding coerce_numeric_operand_def cast_expr_def
  by (auto intro!: ck_ok_new dest: cast_no_diag_ok simp: Option.bind_eq_Some_conv)

lemma make_dyn_coerce_ok: "okC (make_dyn_coerce e iface n t sp) (\<lambda>e. e_ty e = t \<and> e_constant e = None)"
  by (simp add: okC_def make_dyn_coerce_def consts_ok_def dyn_node_def Let_def)

lemma coerce_vec_args_ok: "okC (coerce_vec_args iface t es) (\<lambda>_. True)"
proof (induction es)
  case (Cons e es)
  show ?case unfolding coerce_vec_args.simps by (intro okc okC_bind[OF Cons.IH] TrueI)
qed (simp add: okC_ret)

lemma coerce_vec_ok: "okC (coerce_vec c t) (\<lambda>_. True)"
  unfolding coerce_vec_def by (auto split: option.split intro: okC_ret coerce_vec_args_ok)

definition reaches :: "ty \<Rightarrow> checked_expr \<Rightarrow> bool" where
  "reaches t c \<longleftrightarrow> ck_ty c = t \<and> ck_ok c"

lemma reaches_new: "(\<And>v. c = Some v \<Longrightarrow> const_ok t v) \<Longrightarrow> reaches t (checked_new k t c sp)"
  by (simp add: reaches_def ck_ok_new)

lemma reaches_fallback: "reaches t (fallback t sp)"
  by (simp add: reaches_def)

lemma coerce_channel_ok: "okC (coerce_channel c t sp) (\<lambda>r. \<forall>x. r = Some x \<longrightarrow> reaches t x)"
  unfolding coerce_channel_def
  by (auto split: option.split intro!: okc reaches_fallback reaches_new)

lemma not_assignable_ok: "okC (not_assignable disp c t sp context) (reaches t)"
  unfolding not_assignable_def by (intro okc reaches_fallback)

lemma coerce_object_ok: "okC (coerce_object c t sp) (\<lambda>r. \<forall>x. r = Some x \<longrightarrow> reaches t x)"
  unfolding coerce_object_def
  by (auto split: option.split intro!: okc okC_bind[OF make_dyn_coerce_ok] reaches_new)

lemma coerce_value_ok: "okC (coerce_value disp c t sp context) (reaches t)"
  unfolding coerce_value_def cast_expr_def
  by (intro okc not_assignable_ok okC_bind[OF coerce_object_ok] okC_bind[OF cast_constant_ok] reaches_new) auto

lemma coerce_checked_ok: "ck_ok c \<Longrightarrow> okC (coerce_checked disp c t sp context) (reaches t)"
  unfolding coerce_checked_def
  by (intro okc coerce_value_ok okC_bind[OF coerce_vec_ok] okC_bind[OF coerce_channel_ok] reaches_new)
    (auto simp: reaches_def)

section \<open>Operators\<close>

lemma is_integer_signs: "is_integer t \<longleftrightarrow> is_signed_integer t \<or> is_unsigned_integer t"
  by (auto simp: is_integer_def is_signed_integer_def is_unsigned_integer_def)

lemma is_numeric_not_bool: "is_numeric TBool = False"
  by (simp add: is_numeric_def is_integer_def is_float_def)

lemma integer_no_float: "is_integer t \<Longrightarrow> \<not> is_float t"
  by (erule is_integer_cases) (simp_all add: is_float_def)

lemma int_const: "is_integer t \<Longrightarrow> const_ok t v \<Longrightarrow> \<exists>n. v = TCInt n"
  by (cases v) (auto simp: is_integer_def is_float_def)

lemma float_const: "is_float t \<Longrightarrow> const_ok t v \<Longrightarrow> \<exists>x. v = TCFloat x"
  by (cases v) (auto dest!: near_integer integer_no_float, simp add: is_float_def)

lemma negated_constant_ok:
  assumes "\<And>v. c = Some v \<Longrightarrow> const_ok t v" "fx \<or> is_signed_integer t \<or> is_float t" "fx \<Longrightarrow> is_integer t"
  shows "okC (negated_constant c t sp) (\<lambda>r. \<forall>v. r = Some v \<longrightarrow> const_ok (if fx then TI64 else t) v)"
proof (cases c)
  case (Some v)
  then have v: "const_ok t v" by (rule assms(1))
  show ?thesis
  proof (cases v)
    case (TCInt n)
    then have "fx \<or> near t (- n)" using v assms(2) by (auto intro: near_negated dest: near_integer integer_no_float)
    then show ?thesis using Some TCInt
      by (auto simp: negated_constant_def i128_checked_def value_fits_fits intro: near_fits intro!: okc)
  next
    case (TCFloat x)
    then have "\<not> fx" using v assms(3) by (auto dest: integer_no_float)
    then show ?thesis using Some TCFloat v by (auto simp: negated_constant_def intro!: okc)
  next
    case (TCBool b)
    then show ?thesis using Some by (auto simp: negated_constant_def intro!: okc)
  qed
qed (auto simp: negated_constant_def intro!: okc)

lemma require_type_ok [okc]: "okC (require_type a e sp context) (\<lambda>_. True)"
  unfolding require_type_def by (intro okc)

lemma ck_ok_const: "ck_ok c \<Longrightarrow> ck_const c = Some v \<Longrightarrow> const_ok (ck_ty c) v"
  by (simp add: ck_ok_def)

lemma negated_bool: "(case x of Some (TCBool b) \<Rightarrow> Some (TCBool (\<not> b)) | _ \<Rightarrow> None) = Some v \<Longrightarrow> const_ok TBool v"
  by (auto split: option.splits typed_const.splits)

lemma check_unary_ok: "ck_ok c \<Longrightarrow> okC (check_unary op c sp) ck_ok"
  unfolding check_unary_def
  by (intro okc ck_ok_fallback okC_bind[OF negated_constant_ok[where fx = "ck_flexible_integer c"]] ck_ok_new)
    (auto simp: ck_ok_def is_numeric_def is_integer_signs intro: negated_bool)

section \<open>Promotion\<close>

lemma common_integer_type_is: "common_integer_type l r =
    retC (if can_represent_all l r then Some l else if can_represent_all r l then Some r else None)"
proof (cases "is_integer l \<and> is_integer r")
  case True
  then show ?thesis
    by (elim conjE is_integer_cases; simp add: common_integer_type_def is_integer_def is_signed_integer_def can_represent_all_def)
next
  case False
  have "min_value t \<noteq> None \<longleftrightarrow> is_integer t" for t by (cases t) (auto simp: is_integer_def)
  then have "\<not> can_represent_all l r \<and> \<not> can_represent_all r l"
    using False by (auto simp: can_represent_all_def split: option.splits)
  then show ?thesis using False by (simp add: common_integer_type_def)
qed

lemma represents_integer: "can_represent_all l r \<Longrightarrow> is_integer l"
  by (cases l) (auto simp: can_represent_all_def is_integer_def split: option.splits)

lemma promoted_integer_ok: "okC (promoted_integer_type l r) (\<lambda>x. \<forall>t. x = Some t \<longrightarrow> is_integer t)"
  unfolding promoted_integer_type_def common_integer_type_is Let_def
  by (intro okc okC_bind[OF okC_ret[of "\<lambda>x. \<forall>t. x = Some t \<longrightarrow> is_integer t"]]) (auto dest: represents_integer)

lemma promoted_numeric_ok: "okC (promoted_numeric_type l r) (\<lambda>x. \<forall>t. x = Some t \<longrightarrow> is_numeric t)"
  unfolding promoted_numeric_type_def
  by (intro okc okC_mono[OF promoted_integer_ok])
    (auto simp: is_numeric_def promoted_float_type_def Let_def is_float_def split: if_splits)

section \<open>Binary operators\<close>

definition typed_opt :: "ty \<Rightarrow> typed_const option \<Rightarrow> bool" where
  "typed_opt t r \<longleftrightarrow> (\<forall>v. r = Some v \<longrightarrow> const_ok t v)"

lemma typed_opt_simps [simp]: "typed_opt t None" "typed_opt t (Some v) = const_ok t v"
  by (auto simp: typed_opt_def)

lemma ck_ok_typed: "typed_opt t c \<Longrightarrow> ck_ok (checked_new k t c sp)"
  by (auto simp: typed_opt_def intro: ck_ok_new)

definition arith_ops :: "binary_op set" where
  "arith_ops = {Add, Sub, Mul, Div, Rem, BitAnd, BitOr, BitXor}"

lemma integer_value_ok: "op \<in> arith_ops \<Longrightarrow> okC (integer_value op a b sp) (\<lambda>_. True)"
  by (auto simp: arith_ops_def integer_value_def intro!: okc)

lemma eval_integer_ok: "op \<in> arith_ops \<Longrightarrow> okC (eval_integer_binary op a b t sp) (typed_opt t)"
  unfolding eval_integer_binary_def
  by (rule okC_bind[OF integer_value_ok]) (auto simp: value_fits_fits intro!: okc near_fits split: option.split)

lemma fold_ints_ok: "op \<in> arith_ops \<Longrightarrow> okC (fold_ints op l r t sp) (typed_opt t)"
  unfolding fold_ints_def by (auto intro!: okc eval_integer_ok split: option.split prod.split)

lemma float_result_ok: "is_float t \<Longrightarrow> okC (float_result v t sp) (typed_opt t)"
  unfolding float_result_def by (intro okc) auto

lemma bindC_ret [simp]: "bindC (retC x) f = f x"
  by (simp add: fun_eq_iff bindC_def retC_def)

lemma eval_float_ok:
  assumes "is_float t" "const_ok t a" "const_ok t b" "op \<in> {Add, Sub, Mul, Div}"
  shows "okC (eval_float_binary op a b t sp) (typed_opt t)"
proof -
  obtain x y where "a = TCFloat x" "b = TCFloat y" using float_const assms by metis
  then show ?thesis using assms(4)
    by (auto simp: eval_float_binary_def intro!: okc float_result_ok[OF assms(1)])
qed

lemma reaches_const: "reaches t c \<Longrightarrow> ck_const c = Some v \<Longrightarrow> const_ok t v"
  by (auto simp: reaches_def ck_ok_def)

lemma reaches_coerced: "ck_ok c \<Longrightarrow> reaches t (coerce_numeric_operand c t)"
  by (simp add: reaches_def coerce_numeric_ok)

lemma fold_floats_ok:
  assumes "is_float t" "reaches t l" "reaches t r" "op \<in> {Add, Sub, Mul, Div}"
  shows "okC (fold_floats op l r t sp) (typed_opt t)"
  unfolding fold_floats_def
  using assms by (auto split: option.split intro!: okc eval_float_ok dest: reaches_const)

lemma numeric_ok:
  assumes "ck_ok l" "ck_ok r" "op \<in> {Add, Sub, Mul, Div}"
  shows "okC (check_numeric_binary op l r sp) ck_ok"
proof -
  have "op \<in> arith_ops" using assms(3) by (auto simp: arith_ops_def)
  then show ?thesis unfolding check_numeric_binary_def Let_def binary_node_def
    by (intro okC_bind[OF promoted_numeric_ok] okC_bind[of _ "typed_opt _"] okc ck_ok_typed ck_ok_fallback typed_opt_simps)
      (insert assms(3), auto intro!: fold_ints_ok fold_floats_ok reaches_coerced simp: assms)
qed

lemma remainder_ok: "okC (check_integer_remainder l r sp) ck_ok"
  unfolding check_integer_remainder_def Let_def binary_node_def
  by (intro okC_bind[OF promoted_integer_ok] okC_bind[of _ "typed_opt _"] okc ck_ok_typed ck_ok_fallback typed_opt_simps)
    (auto simp: arith_ops_def intro!: fold_ints_ok)

lemma bitwise_ok: "op \<in> {BitAnd, BitOr, BitXor} \<Longrightarrow> okC (check_integer_bitwise op l r sp) ck_ok"
  unfolding check_integer_bitwise_def Let_def binary_node_def
  by (intro okC_bind[OF promoted_integer_ok] okC_bind[of _ "typed_opt _"] okc ck_ok_typed ck_ok_fallback)
    (auto simp: arith_ops_def intro!: fold_ints_ok)

lemma eval_shift_ok: "op \<in> {Shl, Shr} \<Longrightarrow> okC (eval_shift op v k t sp) (typed_opt t)"
  unfolding eval_shift_def
  by (auto simp: value_fits_fits intro!: okc okC_bind[of _ "\<lambda>_. True"] near_fits split: option.split)

lemma shift_count_ok: "okC (shift_count r w t) (\<lambda>_. True)"
  unfolding shift_count_def
  by (auto split: option.split typed_const.split intro!: okc)

lemma folded_shift_ok:
  assumes "op \<in> {Shl, Shr}"
  shows "okC (case (x, cnt) of (Some (TCInt v), Some n) \<Rightarrow> if 0 \<le> n \<and> n < w then eval_shift op v (nat n) t sp else retC None
     | _ \<Rightarrow> retC None) (typed_opt t)"
  using assms by (auto split: option.split typed_const.split intro!: okc eval_shift_ok)

lemma shift_ok: "op \<in> {Shl, Shr} \<Longrightarrow> okC (check_shift op l r sp) ck_ok"
  unfolding check_shift_def binary_node_def
  by (intro okc okC_bind[OF shift_count_ok] okC_bind[OF folded_shift_ok] ck_ok_typed ck_ok_fallback)
    (auto elim: is_integer_cases)

lemma compare_constants_ok:
  assumes "is_numeric t" "reaches t l" "reaches t r"
    "\<And>x y. okC (on_floats x y) (\<lambda>_. True)" "\<And>x y. okC (on_ints x y) (\<lambda>_. True)"
  shows "okC (compare_constants on_floats on_ints l r t) (typed_opt TBool)"
proof (cases "ck_const l = None \<or> ck_const r = None")
  case True
  then show ?thesis by (auto simp: compare_constants_def intro!: okc split: option.split)
next
  case False
  then obtain a b where c: "ck_const l = Some a" "ck_const r = Some b" by auto
  then have ty: "const_ok t a" "const_ok t b" using assms by (auto dest: reaches_const)
  show ?thesis
  proof (cases "is_float t")
    case True
    then obtain x y where "a = TCFloat x" "b = TCFloat y" using float_const ty by metis
    then show ?thesis using True c
      by (auto simp: compare_constants_def intro!: okC_bind[OF assms(4)] okc)
  next
    case False
    then have "is_integer t" using assms(1) by (simp add: is_numeric_def)
    then obtain x y where "a = TCInt x" "b = TCInt y" using int_const ty by metis
    then show ?thesis using False c
      by (auto simp: compare_constants_def intro!: okC_bind[OF assms(5)] okc)
  qed
qed

lemma numeric_comparison_ok:
  assumes "ck_ok l" "ck_ok r" "op \<in> {Lt, Le, Gt, Ge}"
  shows "okC (check_numeric_comparison op l r sp) ck_ok"
proof -
  have "okC (float_compare op x y) (\<lambda>_. True)" "okC (int_compare op a b) (\<lambda>_. True)" for x y a b
    using assms(3) by (auto simp: float_compare_def int_compare_def intro!: okc)
  then show ?thesis unfolding check_numeric_comparison_def Let_def binary_node_def
    by (intro okC_bind[OF promoted_numeric_ok] okC_bind[OF compare_constants_ok] okc ck_ok_typed reaches_coerced assms typed_opt_simps) auto
qed

lemma nominal_equality_ok: "okC (check_nominal_equality op l r sp sigs) ck_ok"
  unfolding check_nominal_equality_def false_result_def negate_if_ne_def
  by (auto split: option.split intro!: okc)

lemma aggregate_equality_ok: "okC (check_aggregate_equality op l r sp sigs) ck_ok"
proof (cases "\<exists>ts. ck_ty l = TTuple ts")
  case True
  then show ?thesis unfolding check_aggregate_equality_def false_result_def negate_if_ne_def
    by (auto split: sum.split intro!: okc nominal_equality_ok)
next
  case False
  then have "check_aggregate_equality op l r sp sigs = check_nominal_equality op l r sp sigs"
    unfolding check_aggregate_equality_def by (cases "ck_ty l") auto
  then show ?thesis using nominal_equality_ok by simp
qed

lemma typed_bools: "typed_opt TBool (case (x, y) of (Some (TCBool a), Some (TCBool b)) \<Rightarrow> Some (TCBool (f a b)) | _ \<Rightarrow> None)"
  by (auto split: option.split typed_const.split)

lemma equality_ok:
  assumes "ck_ok l" "ck_ok r"
  shows "okC (check_equality op l r sp sigs) ck_ok"
  unfolding check_equality_def Let_def binary_node_def false_result_def
  by (intro okc okC_bind[OF promoted_numeric_ok] okC_bind[OF compare_constants_ok] ck_ok_typed typed_bools
      aggregate_equality_ok reaches_coerced assms typed_opt_simps) auto

lemma boolean_ok: "okC (check_boolean_binary op l r sp) ck_ok"
  unfolding check_boolean_binary_def binary_node_def
  by (intro okc ck_ok_typed typed_bools)

lemma bt_insert_subset: "set (bt_insert k v m) \<subseteq> insert (k, v) (set m)"
  by (induction k v m rule: bt_insert.induct) auto

lemma scope_ok_insert:
  "scope_ok sc \<Longrightarrow> bt_get sc name = Some vi \<Longrightarrow> vi_ty (f vi) = vi_ty vi \<Longrightarrow> vi_constant (f vi) = vi_constant vi \<Longrightarrow>
    scope_ok (bt_insert name (f vi) sc)"
  using bt_insert_subset[of name "f vi" sc] map_of_SomeD[of sc name vi]
  by (fastforce simp: scope_ok_def)

lemma update_from_ok:
  assumes "\<And>vi. vi_ty (f vi) = vi_ty vi \<and> vi_constant (f vi) = vi_constant vi"
  shows "list_all scope_ok ss \<Longrightarrow> list_all scope_ok (update_from name f ss)"
  by (induction ss) (auto simp: assms scope_ok_insert split: option.split)

lemma mark_moved_ok [okc]: "okC (mark_moved name sp) (\<lambda>_. True)"
proof (unfold okC_def, intro allI impI)
  fix s assume "consts_ok s"
  then have "list_all scope_ok (update_from name (vi_moved_update (\<lambda>_. Some sp)) (rev (ce_scopes (cs_env s))))"
    by (intro update_from_ok) (simp_all add: consts_ok_def list_all_iff)
  then show "\<exists>x s'. mark_moved name sp s = Inr (x, s') \<and> consts_ok s' \<and> True"
    by (simp add: mark_moved_def consts_ok_def update_def list_all_iff)
qed

lemma quietly_ok: "okC m Q \<Longrightarrow> okC (quietly m) Q"
proof (unfold okC_def, intro allI impI)
  fix s assume m: "\<forall>s. consts_ok s \<longrightarrow> (\<exists>x s'. m s = Inr (x, s') \<and> consts_ok s' \<and> Q x)" and "consts_ok s"
  then have "consts_ok (s\<lparr>cs_diags := []\<rparr>)" by (simp add: consts_ok_def)
  with m obtain x s' where "m (s\<lparr>cs_diags := []\<rparr>) = Inr (x, s')" "consts_ok s'" "Q x" by blast
  then show "\<exists>x s'. quietly m s = Inr (x, s') \<and> consts_ok s' \<and> Q x" by (simp add: quietly_def consts_ok_def)
qed

lemma move_operand_ok: "okC (move_operand c e) (\<lambda>_. True)"
  unfolding move_operand_def by (auto split: expr.split expr_kind.split intro!: okc)

lemma check_operator_ok: "ck_ok l \<Longrightarrow> ck_ok r \<Longrightarrow> okC (check_operator sigs op left right l r) ck_ok"
  unfolding check_operator_def Let_def check_str_concat_def binary_node_def
  by (intro okc move_operand_ok numeric_ok remainder_ok shift_ok bitwise_ok numeric_comparison_ok equality_ok boolean_ok ck_ok_none) auto

lemma check_binary_ok:
  assumes "okC (check left) ck_ok" "okC (check right) ck_ok"
  shows "okC (check_binary check sigs op left right) ck_ok"
  unfolding check_binary_def binary_node_def
  by (intro okC_bind[OF assms(1)] okC_bind[OF assms(2)] okC_bind[OF quietly_ok[OF assms(2)]] okc check_operator_ok ck_ok_new) auto

section \<open>Expressions\<close>

lemma lookup_from_in: "lookup_from ss name = Some vi \<Longrightarrow> \<exists>sc\<in>set ss. (name, vi) \<in> set sc"
  by (induction ss) (auto split: option.splits dest: map_of_SomeD)

lemma lookup_ok:
  assumes "consts_ok s" "lookup (cs_env s) name = Some vi" "vi_constant vi = Some v"
  shows "const_ok (vi_ty vi) v"
proof -
  obtain sc where "sc \<in> set (ce_scopes (cs_env s))" "(name, vi) \<in> set sc"
    using lookup_from_in assms(2) unfolding lookup_def by fastforce
  then have "\<forall>v. vi_constant vi = Some v \<longrightarrow> const_ok (vi_ty vi) v"
    using assms(1) by (fastforce simp: consts_ok_def scope_ok_def)
  then show ?thesis using assms(3) by blast
qed

lemma ck_ok_decl: "ck_ok (with_binding_decl_span (checked_new k t c d) sp) = ck_ok (checked_new k t c d)"
  by (simp add: ck_ok_def with_binding_decl_span_def checked_new_def)

lemma unknown_variable_ok: "okC (unknown_variable at name sp) ck_ok"
  unfolding unknown_variable_def by (intro okc ck_ok_fallback)

lemma check_var_ok: "okC (check_var sigs name sp) ck_ok"
  unfolding check_var_def
  by (intro okc unknown_variable_ok) (auto simp: ck_ok_decl intro: ck_ok_new lookup_ok)

lemma check_int_ok: "0 \<le> v \<Longrightarrow> okC (check_int v sp) ck_ok"
  unfolding check_int_def by (intro okc) (simp add: ck_ok_def checked_new_def is_integer_def near_def fits_def)

lemma check_float_ok: "okC (check_float v sp) ck_ok"
  unfolding check_float_def by (intro okc) (simp add: ck_ok_def checked_new_def is_float_def)

lemma check_borrow_ok: "okC (check_borrow mutable e sp) ck_ok"
proof -
  have place: "okC (borrow_place mutable obj f isp sp vi p) ck_ok" for obj f isp vi p
    unfolding borrow_place_def by (cases p; simp only: prod.case; intro okc) (auto intro: okc)
  have field: "okC (borrow_field mutable obj f osp isp sp) ck_ok" for obj f osp isp
    unfolding borrow_field_def by (intro okc unknown_variable_ok place ck_ok_fallback)
  have var: "okC (borrow_var mutable name isp sp) ck_ok" for name isp
    unfolding borrow_var_def by (intro okc unknown_variable_ok) (auto simp: ck_ok_decl)
  show ?thesis unfolding check_borrow_def
    by (auto split: expr_kind.split intro!: field var okc)
qed

lemma mapC_ok: "(\<And>x. x \<in> set xs \<Longrightarrow> okC (f x) P) \<Longrightarrow> okC (mapC f xs) (list_all P)"
proof (induction xs)
  case (Cons x xs)
  show ?case unfolding mapC.simps
    by (intro okC_bind[OF Cons.prems] okC_bind[OF Cons.IH] okc) (simp_all add: Cons.prems)
qed (simp add: okC_ret)

lemma coerce_all_ok: "list_all ck_ok cs \<Longrightarrow> okC (coerce_all disp t i cs) (\<lambda>_. True)"
  by (induction cs arbitrary: i) (auto intro!: okc intro: okC_bind coerce_checked_ok)

lemma array_literal_ok: "list_all ck_ok cs \<Longrightarrow> okC (array_literal disp cs sp) ck_ok"
  unfolding array_literal_def Let_def by (intro okc okC_bind[OF coerce_all_ok] ck_ok_none) simp

lemma index_result_ok: "okC (index_result array index a i sp) ck_ok"
  unfolding index_result_def by (intro okc ck_ok_none ck_ok_fallback)

lemma len_result_ok: "okC (len_result array a sp) ck_ok"
proof -
  have "\<And>n. ck_ok (checked_new (ELen (ck_expr a) n) TU64 (Some (TCInt (int n))) sp)"
    by (simp add: ck_ok_def checked_new_def near_def)
  then show ?thesis unfolding len_result_def
    by (cases "deref (ck_ty a)"; simp only: ty.case; intro okc ck_ok_none ck_ok_fallback)
qed

lemma copy_elements_ok: "okC (copy_elements reg i cs) (\<lambda>_. True)"
  by (induction cs arbitrary: i) (auto intro!: okc)

lemma tuple_result_ok: "okC (tuple_result es cs sp) ck_ok"
  unfolding tuple_result_def by (intro okc copy_elements_ok ck_ok_none)

lemma tuple_access_ok: "okC (tuple_access_result e c i sp) ck_ok"
  unfolding tuple_access_result_def
  by (cases "ck_ty c"; simp only: ty.case; intro okc ck_ok_none ck_ok_fallback)

text \<open>
  The forms \<open>check_expr\<close> checks itself, apart from conditional expressions; literals are not negative,
  as the parser gives them.
\<close>

fun core :: "SourceAst.expr \<Rightarrow> bool" where
  "core (Expr k sp) = (case k of
     KInt v \<Rightarrow> 0 \<le> v
   | KFloat v \<Rightarrow> True
   | KBool b \<Rightarrow> True
   | KStr t \<Rightarrow> True
   | KVar name \<Rightarrow> True
   | KUnary op e \<Rightarrow> core e
   | KBinary op l r \<Rightarrow> core l \<and> core r
   | KCast e t \<Rightarrow> core e
   | KArrayLit es \<Rightarrow> list_all core es
   | KIndex a i \<Rightarrow> core a \<and> core i
   | KLen a \<Rightarrow> core a
   | KRef e \<Rightarrow> True
   | KRefMut e \<Rightarrow> True
   | KTuple es \<Rightarrow> list_all core es
   | KTupleAccess e i \<Rightarrow> core e
   | KTry e \<Rightarrow> core e
   | KAnonFn ps t body asp \<Rightarrow> True
   | _ \<Rightarrow> False)"

lemma check_expr_ok: "core e \<Longrightarrow> okC (check_expr disp other sigs e) ck_ok"
proof (induction e rule: core.induct)
  case (1 k sp)
  show ?case
  proof (cases k)
    case (KBinary op l r)
    then show ?thesis using 1 by (auto intro!: check_binary_ok)
  next
    case (KArrayLit es)
    then show ?thesis using 1
      by (auto simp: list_all_iff intro!: okc okC_bind[OF mapC_ok[of es _ ck_ok]] array_literal_ok)
  next
    case (KTuple es)
    then show ?thesis using 1
      by (auto simp: list_all_iff intro!: okc okC_bind[OF mapC_ok[of es _ ck_ok]] tuple_result_ok)
  qed (use 1 in \<open>auto intro!: okc okC_bind check_unary_ok explicit_cast_ok check_int_ok check_float_ok check_var_ok
         index_result_ok len_result_ok check_borrow_ok tuple_access_ok ck_ok_new simp: check_ref_def check_ref_mut_def\<close>)
qed

end
