(* ===== verification/CheckFold.thy ===== *)
theory CheckFold
  imports CheckProps
begin

text \<open>
  The constants the checker computes: those of the operators are what the program computes at run time
  and are in the range of their type; casts and negations that leave it, and a conditional with branches of
  two types, and what follows from them.
\<close>

named_theorems givec \<open>rules for what a check gives when it returns\<close>

section \<open>What a check gives\<close>

definition giveC :: "'a chk \<Rightarrow> ('a \<Rightarrow> bool) \<Rightarrow> bool" where
  "giveC m Q \<longleftrightarrow> (\<forall>s x s'. m s = Inr (x, s') \<longrightarrow> Q x)"

lemma giveC_ret [givec]: "Q x \<Longrightarrow> giveC (retC x) Q"
  by (simp add: giveC_def retC_def)

lemma giveC_panic [givec]: "giveC panicC Q"
  by (simp add: giveC_def panicC_def)

lemma giveC_bind: "giveC m P \<Longrightarrow> (\<And>x. P x \<Longrightarrow> giveC (f x) Q) \<Longrightarrow> giveC (bindC m f) Q"
  unfolding giveC_def bindC_def by (fastforce simp: bindE_Inr_iff)

lemma giveC_mono: "giveC m P \<Longrightarrow> (\<And>x. P x \<Longrightarrow> Q x) \<Longrightarrow> giveC m Q"
  unfolding giveC_def by blast

lemma giveC_any: "(\<And>x. Q x) \<Longrightarrow> giveC m Q"
  by (simp add: giveC_def)

lemma giveC_then [givec]: "giveC n Q \<Longrightarrow> giveC (thenC m n) Q"
  unfolding thenC_def by (rule giveC_bind[of _ "\<lambda>_. True"]) (simp_all add: giveC_def)

lemma giveC_complain [givec]: "Q x \<Longrightarrow> giveC (complain sp msg x) Q"
  unfolding complain_def by (intro givec)

lemma giveC_with [givec]: "(\<And>s. giveC (g (f s)) Q) \<Longrightarrow> giveC (withC f g) Q"
  unfolding giveC_def withC_def by blast

lemma giveC_if [givec]: "(b \<Longrightarrow> giveC m Q) \<Longrightarrow> (\<not> b \<Longrightarrow> giveC n Q) \<Longrightarrow> giveC (if b then m else n) Q"
  by simp

lemma giveC_option [givec]:
  "(x = None \<Longrightarrow> giveC m Q) \<Longrightarrow> (\<And>v. x = Some v \<Longrightarrow> giveC (f v) Q) \<Longrightarrow> giveC (case x of None \<Rightarrow> m | Some v \<Rightarrow> f v) Q"
  by (cases x) auto

lemma giveC_pair [givec]: "(\<And>a b. p = (a, b) \<Longrightarrow> giveC (f a b) Q) \<Longrightarrow> giveC (case p of (a, b) \<Rightarrow> f a b) Q"
  by (cases p) auto

lemma giveC_D: "giveC m Q \<Longrightarrow> m s = Inr (x, s') \<Longrightarrow> Q x"
  unfolding giveC_def by blast

section \<open>Folded operators\<close>

text \<open>The constant is the value of the operator; the remainder by -1 of the least value traps instead.\<close>

fun computed :: "binary_op \<Rightarrow> ty \<Rightarrow> int \<Rightarrow> int \<Rightarrow> typed_const \<Rightarrow> bool" where
  "computed op t a b (TCInt n) \<longleftrightarrow> fits t n \<and>
     (int_binary op t a b = Done (VInt n) \<or> op = Rem \<and> \<not> fits t (trunc_div a b) \<and> int_binary op t a b = Trap)"
| "computed op t a b (TCBool r) \<longleftrightarrow> int_binary op t a b = Done (VBool r)"
| "computed op t a b (TCFloat x) \<longleftrightarrow> False"

definition computed_opt :: "binary_op \<Rightarrow> ty \<Rightarrow> int \<Rightarrow> int \<Rightarrow> typed_const option \<Rightarrow> bool" where
  "computed_opt op t a b r \<longleftrightarrow> (\<forall>v. r = Some v \<longrightarrow> computed op t a b v)"

lemma computed_opt_simps [simp]: "computed_opt op t a b None" "computed_opt op t a b (Some v) = computed op t a b v"
  by (auto simp: computed_opt_def)

lemma value_fits_eq: "value_fits_type v t = fits t v"
  by (simp add: value_fits_type_def fits_def)

lemma integer_value_computed:
  "op \<in> arith_ops \<Longrightarrow> giveC (integer_value op a b sp)
     (\<lambda>r. \<forall>v t. r = Some v \<longrightarrow> fits t v \<longrightarrow> computed op t a b (TCInt v))"
  by (auto simp: arith_ops_def integer_value_def i128_checked_def wrap_ty_id intro!: givec)

lemma eval_integer_computed: "op \<in> arith_ops \<Longrightarrow> giveC (eval_integer_binary op a b t sp) (computed_opt op t a b)"
  unfolding eval_integer_binary_def value_fits_eq
  by (intro giveC_bind[OF integer_value_computed] givec) auto

lemma eval_shift_computed:
  assumes "op \<in> {Shl, Shr}" "0 \<le> b" "b < int w" "bits t = Some w"
  shows "giveC (eval_shift op a (nat b) t sp) (computed_opt op t a b)"
proof -
  have w: "w \<le> 64" using assms(4) by (cases t) auto
  have ok: "shift_ok t b" using assms by (simp add: shift_ok_def)
  have wrap: "fits t (i128_wrap x) \<Longrightarrow> wrap_ty t x = i128_wrap x" for x
    using wrap_ty_i128_wrap[of t w x] assms(4) w wrap_ty_id by force
  have "giveC (case op of Shl \<Rightarrow> retC (i128_shl a (nat b)) | Shr \<Rightarrow> retC (i128_shr a (nat b)) | _ \<Rightarrow> panicC)
     (\<lambda>r. \<forall>v. r = Some v \<longrightarrow> fits t v \<longrightarrow> computed op t a b (TCInt v))"
    using assms(1) ok wrap by (auto simp: i128_shl_def i128_shr_def wrap_ty_id intro!: givec)
  then show ?thesis unfolding eval_shift_def value_fits_eq
    by (rule giveC_bind) (intro givec; auto)
qed

lemma coerced_int:
  "ck_const c = Some (TCInt a) \<Longrightarrow> is_integer t \<Longrightarrow>
    ck_const (coerce_numeric_operand c t) = None \<or> ck_const (coerce_numeric_operand c t) = Some (TCInt a)"
  by (auto simp: coerce_numeric_operand_def cast_expr_def eval_cast_constant_no_diagnostic_def)

lemma both_coerced:
  assumes "ck_const l = Some (TCInt a)" "ck_const r = Some (TCInt b)" "is_integer t"
    "both_ints (coerce_numeric_operand l t) (coerce_numeric_operand r t) = Some (x, y)"
  shows "x = a \<and> y = b"
  using coerced_int[OF assms(1,3)] coerced_int[OF assms(2,3)] assms(4) by (auto simp: both_ints_def)

lemma fold_ints_computed:
  assumes "op \<in> arith_ops" "ck_const l = Some (TCInt a)" "ck_const r = Some (TCInt b)" "is_integer t"
  shows "giveC (fold_ints op (coerce_numeric_operand l t) (coerce_numeric_operand r t) t sp) (computed_opt op t a b)"
  unfolding fold_ints_def
  using both_coerced[OF assms(2-4)] by (auto split: option.split prod.split intro!: givec eval_integer_computed assms)

text \<open>Two integer constants are promoted to an integer type.\<close>

definition int_operand :: "checked_expr \<Rightarrow> bool" where
  "int_operand c \<longleftrightarrow> is_integer (ck_ty c) \<and> \<not> ck_flexible_float c"

definition int_pair :: "checked_expr \<Rightarrow> checked_expr \<Rightarrow> int \<Rightarrow> int \<Rightarrow> bool" where
  "int_pair l r a b \<longleftrightarrow> int_operand l \<and> int_operand r \<and> ck_const l = Some (TCInt a) \<and> ck_const r = Some (TCInt b)"

definition int_promoted :: "ty option \<Rightarrow> bool" where
  "int_promoted x \<longleftrightarrow> (\<forall>t. x = Some t \<longrightarrow> is_integer t)"

lemma promoted_integer_gives: "giveC (promoted_integer_type l r) int_promoted"
  unfolding promoted_integer_type_def Let_def common_integer_type_is int_promoted_def
  by (auto intro!: givec dest: represents_integer)

lemma int_const_type: "int_operand c \<Longrightarrow> is_integer (ck_ty c) \<and> \<not> is_float (ck_ty c) \<and> \<not> ck_flexible_float c"
  unfolding int_operand_def using integer_no_float by blast

lemma promoted_numeric_gives: "int_pair l r a b \<Longrightarrow> giveC (promoted_numeric_type l r) int_promoted"
  using int_const_type unfolding promoted_numeric_type_def
  by (auto simp: int_pair_def intro!: givec promoted_integer_gives) (auto simp: int_promoted_def)

definition gives_computed :: "binary_op \<Rightarrow> int \<Rightarrow> int \<Rightarrow> checked_expr \<Rightarrow> bool" where
  "gives_computed op a b c \<longleftrightarrow> computed_opt op (ck_ty c) a b (ck_const c)"

lemma gives_simps [simp]:
  "gives_computed op a b (binary_node op l r t c sp) = computed_opt op t a b c"
  "gives_computed op a b (fallback t sp)" "gives_computed op a b (fallback_integer sp)"
  "gives_computed op a b (checked_new k t None sp)" "gives_computed op a b (false_result sp)"
  by (simp_all add: gives_computed_def binary_node_def fallback_def fallback_integer_def false_result_def)

lemma numeric_computed:
  assumes "int_pair l r a b" "op \<in> {Add, Sub, Mul, Div}"
  shows "giveC (check_numeric_binary op l r sp) (gives_computed op a b)"
proof -
  have "op \<in> arith_ops" using assms(2) by (auto simp: arith_ops_def)
  then show ?thesis using assms(1) unfolding check_numeric_binary_def Let_def int_pair_def
    by (intro giveC_bind[OF promoted_numeric_gives[OF assms(1)]] giveC_bind[of _ "computed_opt _ _ _ _"] givec)
      (auto simp: int_promoted_def is_integer_def is_float_def intro!: fold_ints_computed)
qed

lemma remainder_computed:
  assumes "int_pair l r a b"
  shows "giveC (check_integer_remainder l r sp) (gives_computed Rem a b)"
  using assms unfolding check_integer_remainder_def Let_def int_pair_def
  by (intro giveC_bind[OF promoted_integer_gives] giveC_bind[of _ "computed_opt _ _ _ _"] givec)
    (auto simp: int_promoted_def arith_ops_def intro!: fold_ints_computed)

lemma bitwise_computed:
  assumes "int_pair l r a b" "op \<in> {BitAnd, BitOr, BitXor}"
  shows "giveC (check_integer_bitwise op l r sp) (gives_computed op a b)"
  using assms unfolding check_integer_bitwise_def Let_def int_pair_def
  by (intro giveC_bind[OF promoted_integer_gives] giveC_bind[of _ "computed_opt _ _ _ _"] givec)
    (auto simp: int_promoted_def arith_ops_def intro!: fold_ints_computed)

lemma shift_count_gives: "ck_const r = Some (TCInt b) \<Longrightarrow> giveC (shift_count r w t) (\<lambda>x. x = Some b)"
  unfolding shift_count_def by (auto intro!: givec)

lemma shift_computed:
  assumes "int_pair l r a b" "op \<in> {Shl, Shr}"
  shows "giveC (check_shift op l r sp) (gives_computed op a b)"
  using assms unfolding check_shift_def int_pair_def
  by (intro givec giveC_bind[OF shift_count_gives[of r b]] giveC_bind[of _ "computed_opt _ _ _ _"])
    (auto intro!: givec eval_shift_computed)

lemma compare_computed:
  assumes "int_pair l r a b" "is_integer t" "giveC (on_ints a b) (\<lambda>x. int_binary op TBool a b = Done (VBool x))"
  shows "giveC (compare_constants on_floats on_ints (coerce_numeric_operand l t) (coerce_numeric_operand r t) t) (computed_opt op TBool a b)"
proof -
  have f: "\<not> is_float t" using assms(2) by (auto simp: is_integer_def is_float_def)
  have l: "ck_const (coerce_numeric_operand l t) = None \<or> ck_const (coerce_numeric_operand l t) = Some (TCInt a)"
    and r: "ck_const (coerce_numeric_operand r t) = None \<or> ck_const (coerce_numeric_operand r t) = Some (TCInt b)"
    using assms(1,2) coerced_int by (auto simp: int_pair_def)
  show ?thesis unfolding compare_constants_def
    using l r f by (auto intro!: givec giveC_bind[OF assms(3)])
qed

lemma comparison_computed:
  assumes "int_pair l r a b" "op \<in> {Lt, Le, Gt, Ge}"
  shows "giveC (check_numeric_comparison op l r sp) (gives_computed op a b)"
proof -
  have "giveC (int_compare op a b) (\<lambda>x. int_binary op TBool a b = Done (VBool x))"
    using assms(2) by (auto simp: int_compare_def intro!: givec)
  then show ?thesis using assms unfolding check_numeric_comparison_def Let_def
    by (intro giveC_bind[OF promoted_numeric_gives[OF assms(1)]] giveC_bind[OF compare_computed] givec)
      (auto simp: int_promoted_def)
qed

lemma integer_plain: "is_integer t \<Longrightarrow> t \<noteq> TBool \<and> \<not> is_strish t \<and> \<not> is_aggregate t"
  by (erule is_integer_cases) (simp_all add: is_strish_def)

lemma equality_computed:
  assumes "int_pair l r a b" "op \<in> {Eq, Ne}"
  shows "giveC (check_equality op l r sp sigs) (gives_computed op a b)"
proof -
  have t: "is_integer (ck_ty l)" "is_integer (ck_ty r)" using assms(1) int_const_type by (auto simp: int_pair_def)
  have no: "(ck_ty l = TBool \<or> ck_ty r = TBool) = False" "(is_strish (ck_ty l) \<or> is_strish (ck_ty r)) = False"
    "(is_aggregate (ck_ty l) \<or> is_aggregate (ck_ty r)) = False"
    using integer_plain t by simp_all
  show ?thesis using assms(2) unfolding check_equality_def no if_False Let_def
    by (intro givec giveC_bind[OF promoted_numeric_gives[OF assms(1)]] giveC_bind[OF compare_computed[OF assms(1), where on_ints = "\<lambda>x y. retC ((x = y) = (op = Eq))"]])
      (auto simp: int_promoted_def)
qed

lemma boolean_computed:
  assumes "int_pair l r a b"
  shows "giveC (check_boolean_binary op l r sp) (gives_computed op a b)"
  using assms unfolding check_boolean_binary_def int_pair_def by (intro givec) simp

lemma operator_computed:
  assumes "int_pair l r a b"
  shows "giveC (check_operator sigs op left right l r) (gives_computed op a b)"
proof -
  have "\<not> is_strish (ck_ty l)" using assms int_const_type by (auto simp: int_pair_def is_integer_def is_strish_def)
  then show ?thesis unfolding check_operator_def Let_def
    by (intro givec numeric_computed remainder_computed shift_computed bitwise_computed comparison_computed equality_computed boolean_computed assms)
      (auto intro: remainder_computed assms)
qed

section \<open>What is folded is computed\<close>

text \<open>
  C6. A constant the checker computes for an operator on two operands of integer types with integer
  constants is what the operator computes at run time, and an integer is in the range of the type of the
  expression; with one exception, where the run traps and the checker computes 0: the remainder of the
  least value of a signed type by -1.
\<close>
theorem folded_is_computed:
  assumes "is_integer (ck_ty l)" "is_integer (ck_ty r)" "\<not> ck_flexible_float l" "\<not> ck_flexible_float r"
    "ck_const l = Some (TCInt a)" "ck_const r = Some (TCInt b)"
    "check_operator sigs op left right l r s = Inr (c, s')" "ck_const c = Some v"
  shows "computed op (ck_ty c) a b v"
proof -
  have "int_pair l r a b" using assms by (simp add: int_pair_def int_operand_def)
  from giveC_D[OF operator_computed[OF this] assms(7)] assms(8) show ?thesis
    by (simp add: gives_computed_def computed_opt_def)
qed

lemmas chk_steps = bindC_def retC_def thenC_def whenC_def push_def withC_def complain_def panicC_def checked_new_def

lemmas integer_checks = check_binary_def check_unary_def check_int_def value_fits_type_def short_circuits_def check_operator_def
  check_numeric_comparison_def promoted_numeric_type_def is_numeric_def is_integer_def is_float_def promoted_integer_type_def
  adapted_integer_literal_type_def or_else_def common_integer_type_def is_strish_def is_signed_integer_def is_unsigned_integer_def
  coerce_numeric_operand_def compare_constants_def negated_constant_def i128_checked_def i128_fits_def i128_min_def i128_max_def
  explicit_cast_def cast_constant_def eval_cast_constant_def eval_cast_constant_no_diagnostic_def cast_expr_def

theorem folded_is_computed_witness: "computed Add TI64 40 2 (TCInt 42)"
proof -
  fix sp :: span and sigs s
  define operand where "operand v = checked_new (EInt v) TI64 (Some (TCInt v)) sp" for v
  have ok: "is_integer (ck_ty (operand v))" "\<not> ck_flexible_float (operand v)" "ck_const (operand v) = Some (TCInt v)" for v
    by (simp_all add: operand_def is_integer_def) (simp_all add: checked_new_def)
  obtain c s' where c: "check_operator sigs Add (Expr (KInt 40) sp) (Expr (KInt 2) sp) (operand 40) (operand 2) s = Inr (c, s')"
    and v: "ck_const c = Some (TCInt 42)" "ck_ty c = TI64"
    by (simp add: operand_def integer_checks chk_steps check_numeric_binary_def is_known_zero_def fold_ints_def both_ints_def
      eval_integer_binary_def integer_value_def binary_node_def Let_def)
  show ?thesis using folded_is_computed[OF ok(1,1,2,2,3,3) c v(1)] v(2) by simp
qed

section \<open>Constants that escape\<close>

text \<open>The innermost \<open>-(-128 as i8)\<close>, and an array of 200 elements indexed with it.\<close>

definition escaping_index :: "span \<Rightarrow> SourceAst.expr" where
  "escaping_index sp = Expr (KUnary UNeg (Expr (KCast (Expr (KUnary UNeg (Expr (KInt 128) sp)) sp) TI8) sp)) sp"

definition array_binding :: "span \<Rightarrow> var_info" where
  "array_binding sp = \<lparr>vi_ty = TArray TI64 200, vi_constant = None, vi_moved = None, vi_decl_span = sp, vi_vec_literal_elements = None,
     vi_array_version = 0, vi_guarded_mutex = None, vi_no_drop = False, vi_is_const = False, vi_struct_literal_fields = None, vi_moved_fields = []\<rparr>"

definition array_state :: "registries \<Rightarrow> span \<Rightarrow> check_state" where
  "array_state reg sp = \<lparr>cs_env = env_new\<lparr>ce_scopes := [[(''xs'', array_binding sp)]]\<rparr>, cs_diags = [],
     cs_registries = reg, cs_iface_impls = [], cs_dyn_counter = 0\<rparr>"

lemma escaping_constant:
  "\<exists>e. check_expr disp other sigs (escaping_index sp) s =
     Inr (\<lparr>ck_expr = TExpr e TI8 (Some (TCInt 128)) sp None, ck_flexible_integer = False, ck_flexible_float = False\<rparr>, s)"
  by (simp add: escaping_index_def integer_checks chk_steps)

text \<open>
  C20. The constant of a negation is not checked against the type of the operand: \<open>-(-128 as i8)\<close> has
  type \<open>i8\<close> and the constant 128, which does not fit, and the program computes -128. The bounds check of
  an index into 200 elements is left out for it, without a message.
\<close>
theorem negation_escapes_type:
  "(case check_expr disp other sigs (Expr (KIndex (Expr (KVar ''xs'') sp) (escaping_index sp)) sp) (array_state reg sp) of
      Inr (c, s') \<Rightarrow> cs_diags s' = [] \<and>
        (case e_kind (ck_expr c) of EIndex a i checked \<Rightarrow>
           \<not> checked \<and> e_ty i = TI8 \<and> e_constant i = Some (TCInt 128) \<and> \<not> fits TI8 128 \<and>
           exec_unary UNeg TI8 [VInt (-128)] = Some (Done (VInt (-128)))
         | _ \<Rightarrow> False)
    | Inl e \<Rightarrow> False)"
proof -
  obtain e where e: "check_expr disp other sigs (escaping_index sp) (array_state reg sp) =
     Inr (\<lparr>ck_expr = TExpr e TI8 (Some (TCInt 128)) sp None, ck_flexible_integer = False, ck_flexible_float = False\<rparr>, array_state reg sp)"
    using escaping_constant by blast
  have v: "check_expr disp other sigs (Expr (KVar ''xs'') sp) (array_state reg sp) =
     Inr (with_binding_decl_span (checked_new (EVar ''xs'') (TArray TI64 200) None sp) sp, array_state reg sp)"
    by (simp add: array_state_def check_var_def lookup_def array_binding_def var_kind_def chk_steps)
  have "cs_diags (array_state reg sp) = []" by (simp add: array_state_def)
  then show ?thesis unfolding check_expr.simps[of disp other sigs "KIndex a i" for a i]
    by (simp del: check_expr.simps add: v e bindC_def withC_def retC_def index_result_def element_and_length_def with_binding_decl_span_def
        checked_new_def is_integer_def index_check_def fits_def exec_unary_def wrap_ty_def)
qed

text \<open>
  C21. The cast of a float constant to an integer type is checked against the least and the greatest value
  of the type as floats. The greatest values of \<open>i64\<close> and \<open>u64\<close> round up, so that 2^63 and 2^64, which are
  not values of these types, are accepted as constants of them, without a message; in all other cases
  the cast has a constant just when the truncated float is a value of the type.
\<close>
theorem float_cast_escapes:
  assumes "check_expr disp other sigs e s = Inr (c, s')" "is_float (ck_ty c)" "ck_const c = Some (TCFloat x)"
    "f64_is_finite x" "is_integer t"
  shows "\<exists>k s''. check_expr disp other sigs (Expr (KCast e t) sp) s = Inr (k, s'') \<and> ck_ty k = t \<and>
    (let n = f64_truncate x in
     if fits t n \<or> t = TI64 \<and> n = 2 ^ 63 \<or> t = TU64 \<and> n = 2 ^ 64 then ck_const k = Some (TCInt n) \<and> s'' = s'
     else ck_const k = None \<and> cs_diags s'' \<noteq> cs_diags s')"
proof -
  have t: "ck_ty c \<noteq> t" "\<not> is_enum (ck_ty c)" "is_numeric (ck_ty c)" "is_numeric t" "\<not> is_float t"
    using assms(2,5) integer_no_float by (auto simp: is_numeric_def is_float_def)
  have "eval_cast_constant_no_diagnostic (TCFloat x) t = map_option TCInt (float_cast_value t (f64_truncate x))"
    using cast_float_value[OF assms(5,4)] assms(5) t by (simp add: eval_cast_constant_no_diagnostic_def)
  then show ?thesis using assms t
    by (auto simp: chk_steps explicit_cast_def cast_constant_def eval_cast_constant_def cast_expr_def float_cast_value_def Let_def)
qed

theorem float_cast_escapes_witness:
  "\<forall>disp other sigs sp s. \<exists>k s''. check_expr disp other sigs (Expr (KCast (Expr (KFloat 0x43E0000000000000) sp) TI64) sp) s = Inr (k, s'') \<and>
     ck_ty k = TI64 \<and> ck_const k = Some (TCInt 9223372036854775808) \<and> \<not> fits TI64 9223372036854775808"
proof (intro allI)
  fix disp other sigs s and sp :: span
  define c where "c = (checked_new (EFloat 0x43E0000000000000) TF64 (Some (TCFloat 0x43E0000000000000)) sp)\<lparr>ck_flexible_float := True\<rparr>"
  have c: "check_expr disp other sigs (Expr (KFloat 0x43E0000000000000) sp) s = Inr (c, s)"
    by (simp add: check_float_def c_def retC_def)
  have "is_float (ck_ty c)" "ck_const c = Some (TCFloat 0x43E0000000000000)" by (simp_all add: c_def checked_new_def is_float_def)
  moreover have "f64_is_finite 0x43E0000000000000"
    by (simp add: f64_is_finite_def f64_is_nan_def f64_is_infinite_def f64_magnitude_def)
  moreover have "f64_truncate 0x43E0000000000000 = 9223372036854775808"
    by (simp add: f64_truncate_def f64_mantissa_def f64_exponent_def f64_sign_def f64_magnitude_def)
  ultimately show "\<exists>k s''. check_expr disp other sigs (Expr (KCast (Expr (KFloat 0x43E0000000000000) sp) TI64) sp) s = Inr (k, s'') \<and>
     ck_ty k = TI64 \<and> ck_const k = Some (TCInt 9223372036854775808) \<and> \<not> fits TI64 9223372036854775808"
    using float_cast_escapes[where x = "0x43E0000000000000" and t = TI64 and sp = sp, OF c]
    by (simp del: check_expr.simps add: is_integer_def fits_def) blast
qed

section \<open>Typed checks\<close>

text \<open>
  C5. From an environment with constants within the ranges of their bindings' types the check of an expression
  built of literals, variables, operators, casts, arrays, indexing, lengths, tuples and borrows panics at nothing and
  leaves such an environment. A constant of the result is of the kind of the result's type; an integer is in the range of the
  type, but that it may be one more than the greatest value of a signed type, and has no upper bound in \<open>u64\<close>.
\<close>
theorem checking_is_typed:
  assumes "core e" "consts_ok s"
  shows "\<exists>c s'. check_expr disp other sigs e s = Inr (c, s') \<and> consts_ok s' \<and>
    (\<forall>v. ck_const c = Some v \<longrightarrow> (case v of
        TCInt n \<Rightarrow> fits (ck_ty c) n \<or> is_signed_integer (ck_ty c) \<and> fits (ck_ty c) (n - 1) \<or> ck_ty c = TU64 \<and> 0 \<le> n
      | TCFloat x \<Rightarrow> is_float (ck_ty c)
      | TCBool b \<Rightarrow> ck_ty c = TBool))"
proof -
  obtain c s' where "check_expr disp other sigs e s = Inr (c, s')" "consts_ok s'" and c: "ck_ok c"
    using check_expr_ok[OF assms(1), of disp other sigs] assms(2) unfolding okC_def by blast
  moreover have "case v of
        TCInt n \<Rightarrow> fits (ck_ty c) n \<or> is_signed_integer (ck_ty c) \<and> fits (ck_ty c) (n - 1) \<or> ck_ty c = TU64 \<and> 0 \<le> n
      | TCFloat x \<Rightarrow> is_float (ck_ty c)
      | TCBool b \<Rightarrow> ck_ty c = TBool" if "ck_const c = Some v" for v
    using ck_ok_const[OF c that] by (cases v) (simp_all add: near_def)
  ultimately show ?thesis by blast
qed

text \<open>An element of the array of the last section, and one.\<close>

theorem checking_is_typed_witness:
  "\<forall>disp other sigs reg sp. \<exists>c s'. check_expr disp other sigs
     (Expr (KBinary Add (Expr (KIndex (Expr (KVar ''xs'') sp) (Expr (KInt 3) sp)) sp) (Expr (KInt 1) sp)) sp)
     (array_state reg sp) = Inr (c, s') \<and> consts_ok s'"
proof (intro allI)
  fix disp other sigs reg and sp :: span
  let ?e = "Expr (KBinary Add (Expr (KIndex (Expr (KVar ''xs'') sp) (Expr (KInt 3) sp)) sp) (Expr (KInt 1) sp)) sp"
  have "core ?e" "consts_ok (array_state reg sp)"
    by (simp_all add: consts_ok_def array_state_def scope_ok_def array_binding_def)
  from checking_is_typed[OF this, of disp other sigs]
  show "\<exists>c s'. check_expr disp other sigs ?e (array_state reg sp) = Inr (c, s') \<and> consts_ok s'" by blast
qed

lemma common_self: "is_integer t \<Longrightarrow> common_integer_type t t = retC (Some t)"
  by (erule is_integer_cases) (simp_all add: common_integer_type_def is_integer_def is_signed_integer_def)

lemma adapted_self: "or_else (adapted_integer_literal_type c (ck_ty c)) (ck_ty c) = ck_ty c"
  by (auto simp: or_else_def adapted_integer_literal_type_def split: option.split typed_const.split)

lemma bool_constant_panics:
  assumes "is_integer (ck_ty l)" "ck_ty r = ck_ty l" "\<not> ck_flexible_float l" "\<not> ck_flexible_float r"
    "ck_const l = Some (TCBool b)" "ck_const r = Some v"
  shows "check_numeric_comparison op l r sp = panicC"
proof -
  have "promoted_integer_type l r = retC (Some (ck_ty l))"
    using adapted_self[of l] adapted_self[of r] assms(1,2) by (simp add: promoted_integer_type_def Let_def common_self)
  then have "promoted_numeric_type l r = retC (Some (ck_ty l))"
    using assms integer_no_float by (simp add: promoted_numeric_type_def is_numeric_def)
  then show ?thesis using assms integer_no_float
    by (simp add: check_numeric_comparison_def Let_def coerce_numeric_operand_def compare_constants_def)
      (simp add: bindC_def panicC_def fun_eq_iff)
qed

text \<open>
  C19. A conditional expression with a false condition, a first branch of an integer type and a second with a
  constant of type \<open>bool\<close> is reported, and keeps the type of the first and the constant of the second branch; to
  compare it with a constant of its type then panics (\<open>unreachable!\<close> in \<open>TypedConst::to_int\<close>): the compiler
  stops instead of printing its message, as on \<open>(if false {1} else {true}) < 3\<close>.
\<close>
theorem mismatched_if_panics:
  assumes "check_expr disp other sigs e1 s = Inr (c1, s1)" "ck_ty c1 = TBool" "ck_const c1 = Some (TCBool False)"
    "check_expr disp other sigs e2 s1 = Inr (c2, s2)" "is_integer (ck_ty c2)"
    "check_expr disp other sigs e3 s2 = Inr (c3, s3)" "ck_ty c3 = TBool" "ck_const c3 = Some (TCBool b)"
  shows "\<exists>c s'. check_expr disp other sigs (Expr (KIfExpr e1 e2 e3) sp) s = Inr (c, s') \<and> cs_diags s' \<noteq> cs_diags s3 \<and>
    (\<forall>op e4 c4 s4 v sp'. op \<in> {Lt, Le, Gt, Ge} \<and> check_expr disp other sigs e4 s' = Inr (c4, s4) \<and> ck_ty c4 = ck_ty c2 \<and>
      \<not> ck_flexible_float c4 \<and> ck_const c4 = Some v \<longrightarrow>
      check_expr disp other sigs (Expr (KBinary op (Expr (KIfExpr e1 e2 e3) sp) e4) sp') s = Inl Panic)"
proof -
  let ?if = "Expr (KIfExpr e1 e2 e3) sp"
  have ne: "ck_ty c2 \<noteq> TBool" and ns: "\<not> is_strish (ck_ty c2)" using integer_plain[OF assms(5)] by simp_all
  define c where "c = checked_new (EIfExpr (ck_expr c1) (ck_expr c2) (ck_expr c3)) (ck_ty c2) (Some (TCBool b)) sp"
  obtain s' where i: "check_expr disp other sigs ?if s = Inr (c, s')" and d: "cs_diags s' \<noteq> cs_diags s3"
    using assms ne by (simp add: chk_steps if_result_def c_def)
  have "check_expr disp other sigs (Expr (KBinary op ?if e4) sp') s = Inl Panic"
    if h: "op \<in> {Lt, Le, Gt, Ge}" "check_expr disp other sigs e4 s' = Inr (c4, s4)" "ck_ty c4 = ck_ty c2" "\<not> ck_flexible_float c4"
      "ck_const c4 = Some v" for op e4 c4 s4 v sp'
  proof -
    have "check_numeric_comparison op c c4 sp'' = panicC" for sp''
      by (rule bool_constant_panics[of c c4 b v]) (simp_all add: c_def assms h, simp add: checked_new_def)
    then have "check_operator sigs op ?if e4 c c4 = panicC"
      using h(1) ns by (auto simp: check_operator_def Let_def c_def)
    moreover have "short_circuits op c = None" using h(1) by (auto simp: short_circuits_def)
    ultimately show ?thesis unfolding check_expr.simps[of disp other sigs "KBinary op ?if e4"]
      by (simp del: check_expr.simps add: check_binary_def bindC_def i h(2)) (simp add: panicC_def)
  qed
  then show ?thesis using i d by blast
qed

theorem mismatched_if_panics_witness:
  "\<forall>disp other sigs sp s. check_expr disp other sigs (Expr (KBinary Lt
     (Expr (KIfExpr (Expr (KBool False) sp) (Expr (KInt 1) sp) (Expr (KBool True) sp)) sp) (Expr (KInt 3) sp)) sp) s = Inl Panic"
proof (intro allI)
  fix disp other sigs s and sp :: span
  let ?check = "check_expr disp other sigs" and ?if = "Expr (KIfExpr (Expr (KBool False) sp) (Expr (KInt 1) sp) (Expr (KBool True) sp)) sp"
  define lit where "lit n = (checked_new (EInt n) TI64 (Some (TCInt n)) sp)\<lparr>ck_flexible_integer := True\<rparr>" for n
  define truth where "truth b = checked_new (EBool b) TBool (Some (TCBool b)) sp" for b
  have lits: "?check (Expr (KInt 1) sp) s' = Inr (lit 1, s')" "?check (Expr (KInt 3) sp) s' = Inr (lit 3, s')" for s'
    by (simp_all add: check_int_def value_fits_type_def chk_steps lit_def)
  have bools: "?check (Expr (KBool b) sp) s' = Inr (truth b, s')" for b s' by (simp add: truth_def retC_def)
  have "ck_ty (lit n) = TI64" "ck_const (lit n) = Some (TCInt n)" "\<not> ck_flexible_float (lit n)"
    "ck_ty (truth b) = TBool" "ck_const (truth b) = Some (TCBool b)" for n b
    by (simp_all add: lit_def truth_def checked_new_def)
  note facts = this
  obtain c s' where panics: "\<forall>op e4 c4 s4 v sp'. op \<in> {Lt, Le, Gt, Ge} \<and> ?check e4 s' = Inr (c4, s4) \<and> ck_ty c4 = ck_ty (lit 1) \<and>
      \<not> ck_flexible_float c4 \<and> ck_const c4 = Some v \<longrightarrow> ?check (Expr (KBinary op ?if e4) sp') s = Inl Panic"
    using mismatched_if_panics[OF bools[of False s] facts(4) facts(5) lits(1)[of s] _ bools[of True s] facts(4) facts(5), of sp]
    unfolding facts is_integer_def by blast
  show "?check (Expr (KBinary Lt ?if (Expr (KInt 3) sp)) sp) s = Inl Panic"
    by (rule panics[rule_format, of Lt "Expr (KInt 3) sp" "lit 3" s' "TCInt 3"]) (simp del: check_expr.simps add: lits facts)
qed

lemma integer_bounds: "is_integer t \<Longrightarrow> \<exists>lo hi. min_value t = Some lo \<and> max_value t = Some hi \<and> lo \<le> hi"
  by (erule is_integer_cases) simp_all

text \<open>
  C16. A value of an integer type that is no constant may be assigned to another integer type when, and
  only when, that type holds every value of it.
\<close>
theorem assignment_is_widening:
  assumes "is_integer (ck_ty c)" "is_integer t" "ck_const c = None"
  shows "can_assign impls c t \<longleftrightarrow> (\<forall>v. fits (ck_ty c) v \<longrightarrow> fits t v)"
proof -
  have plain: "object_name t = None \<and> t \<noteq> TStr" by (rule is_integer_cases[OF assms(2)]) simp_all
  have num: "is_numeric (ck_ty c)" "is_numeric t" using assms by (simp_all add: is_numeric_def)
  obtain lo hi where t: "min_value t = Some lo" "max_value t = Some hi" using integer_bounds[OF assms(2)] by blast
  obtain lo' hi' where u: "min_value (ck_ty c) = Some lo'" "max_value (ck_ty c) = Some hi'" "lo' \<le> hi'"
    using integer_bounds[OF assms(1)] by blast
  have range: "can_represent_all t (ck_ty c) \<longleftrightarrow> (\<forall>v. fits (ck_ty c) v \<longrightarrow> fits t v)"
    using t u by (auto simp: can_represent_all_def fits_def)
  show ?thesis using assms plain num range
    by (auto simp: can_assign_def implements_object_def)
qed

theorem assignment_is_widening_witness:
  "\<forall>sp. can_assign [] (checked_new (EVar ''n'') TU32 None sp) TI64"
proof
  fix sp :: span
  have "can_assign [] (checked_new (EVar ''n'') TU32 None sp) TI64 \<longleftrightarrow> (\<forall>v. fits TU32 v \<longrightarrow> fits TI64 v)"
    using assignment_is_widening[of "checked_new (EVar ''n'') TU32 None sp" TI64 "[]"] by (simp add: is_integer_def)
  then show "can_assign [] (checked_new (EVar ''n'') TU32 None sp) TI64" by (simp add: fits_def)
qed

end
