(* ===== verification/SmtProps.thy ===== *)
theory SmtProps
  imports SmtProve CheckFold
begin

text \<open>
  The verifier beside the checker: the witness of \<open>proven_claims_hold\<close>, values in counterexamples, and
  a claim the verifier takes for another one because it gives a literal another width than the checker does.
\<close>

section \<open>A claim proved\<close>

definition lit :: "span \<Rightarrow> int \<Rightarrow> SourceAst.expr" where
  "lit sp v = Expr (KInt v) sp"

definition ident :: "span \<Rightarrow> string \<Rightarrow> SourceAst.expr" where
  "ident sp n = Expr (KVar n) sp"

definition bin :: "span \<Rightarrow> binary_op \<Rightarrow> SourceAst.expr \<Rightarrow> SourceAst.expr \<Rightarrow> SourceAst.expr" where
  "bin sp op l r = Expr (KBinary op l r) sp"

text \<open>A solver that answers by the meaning of the script.\<close>

definition ideal_solver :: "string \<Rightarrow> string option" where
  "ideal_solver q = Some (if \<exists>script. read_script q = Some script \<and> (\<forall>m. \<not> satisfies m script) then ''unsat'' else ''unknown'')"

lemma first_lines: "first_line ''unsat'' = ''unsat''" "first_line ''unknown'' = ''unknown''"
  by code_simp+

lemma ideal_solver_sound: "solver_sound ideal_solver"
  unfolding solver_sound_def ideal_solver_def using first_lines by (auto split: if_splits)

definition sample_script :: string where
  "sample_script = ''(set-logic ALL)'' @ [newline_char] @ ''(declare-const v_x (_ BitVec 64))'' @ [newline_char] @
     ''(assert (bvsge v_x (_ bv3 64)))'' @ [newline_char] @ ''(assert (not (bvsge v_x (_ bv2 64))))'' @ [newline_char] @
     ''(check-sat)'' @ [newline_char]"

lemma sample_query: "build_query disp (bin sp Ge (ident sp ''x'') (lit sp 2)) [bin sp Ge (ident sp ''x'') (lit sp 3)] [(''x'', TI64)] Map.empty
    = Inr sample_script"
  unfolding lit_def ident_def bin_def sample_script_def by code_simp

lemma sample_read: "read_script (sample_script @ model_command) = Some
   [Lst [Atom ''set-logic'', Atom ''ALL''], Lst [Atom ''declare-const'', Atom ''v_x'', Lst [Atom ''_'', Atom ''BitVec'', Atom ''64'']],
    Lst [Atom ''assert'', Lst [Atom ''bvsge'', Atom ''v_x'', Lst [Atom ''_'', Atom ''bv3'', Atom ''64'']]],
    Lst [Atom ''assert'', Lst [Atom ''not'', Lst [Atom ''bvsge'', Atom ''v_x'', Lst [Atom ''_'', Atom ''bv2'', Atom ''64'']]]],
    Lst [Atom ''check-sat''], Lst [Atom ''get-model'']]"
  by code_simp

lemma sample_unsat: "\<exists>script. read_script (sample_script @ model_command) = Some script \<and> (\<forall>m. \<not> satisfies m script)"
proof -
  have v: "numeral_of ''64'' = Some 64" "bv_literal ''bv3'' ''64'' = Some (BV 64 3)" "bv_literal ''bv2'' ''64'' = Some (BV 64 2)"
    by code_simp+
  have "\<not> satisfies m script" if "script =
     [Lst [Atom ''set-logic'', Atom ''ALL''], Lst [Atom ''declare-const'', Atom ''v_x'', Lst [Atom ''_'', Atom ''BitVec'', Atom ''64'']],
      Lst [Atom ''assert'', Lst [Atom ''bvsge'', Atom ''v_x'', Lst [Atom ''_'', Atom ''bv3'', Atom ''64'']]],
      Lst [Atom ''assert'', Lst [Atom ''not'', Lst [Atom ''bvsge'', Atom ''v_x'', Lst [Atom ''_'', Atom ''bv2'', Atom ''64'']]]],
      Lst [Atom ''check-sat''], Lst [Atom ''get-model'']]" for m script
    using that v by (auto simp: satisfies_def of_sort_def atom_value_def term_op2 bv_op_def bv_sint_def[of _ 3] bv_sint_def[of _ 2])
  then show ?thesis using sample_read by blast
qed

theorem proven_claims_hold_witness:
  "\<forall>fd sp. value_of (declared [(''x'', TI64)]) [''x'' \<mapsto> VInt 5] TBool (bin sp Ge (ident sp ''x'') (lit sp 2)) \<noteq> Done (VBool False)"
proof (intro allI)
  fix fd :: float_display and sp
  let ?vars = "[(''x'', TI64)]" and ?fact = "bin sp Ge (ident sp ''x'') (lit sp 3)" and ?claim = "bin sp Ge (ident sp ''x'') (lit sp 2)"
  have p: "try_prove fd (Some ideal_solver) True ?claim [?fact] ?vars Map.empty Map.empty = Inr (Proven, Map.empty)"
    using sample_unsat first_lines by (simp add: try_prove_def sample_query run_query_def ideal_solver_def parse_verdict_def)
  have n: "distinct (script_names Map.empty ?vars)" by code_simp
  have c: "plain (declared ?vars) TBool ?claim" unfolding bin_def ident_def lit_def by code_simp
  have f: "plain (declared ?vars) TBool ?fact \<and> value_of (declared ?vars) [''x'' \<mapsto> VInt 5] TBool ?fact = Done (VBool True)"
    unfolding bin_def ident_def lit_def by code_simp
  show "value_of (declared ?vars) [''x'' \<mapsto> VInt 5] TBool ?claim \<noteq> Done (VBool False)"
    by (rule proven_claims_hold[OF ideal_solver_sound _ p n c]) (use f in \<open>simp_all add: well_assigned_def facts_hold_def fits_def\<close>)
qed

section \<open>A literal of another width\<close>

definition byte_binding :: "span \<Rightarrow> var_info" where
  "byte_binding sp = (array_binding sp)\<lparr>vi_ty := TU8\<rparr>"

definition byte_state :: "registries \<Rightarrow> span \<Rightarrow> check_state" where
  "byte_state reg sp = (array_state reg sp)\<lparr>cs_env := env_new\<lparr>ce_scopes := [[(''x'', byte_binding sp)]]\<rparr>\<rparr>"

lemma narrow_type: "operand_type (declared [(''x'', TU8)]) (ident sp ''x'') (lit sp v) = TU8"
  "infer_is_float (ident sp ''x'') (declared [(''x'', TU8)]) = False" "infer_is_float (lit sp v) (declared [(''x'', TU8)]) = False"
  by (simp_all add: operand_type_def ident_def lit_def typed_var_def base_name_def parse_versioned_name_def hash_char_def declared_def
      is_integer_def is_float_def or_if_none_def)

lemma narrow_literal: "encode_int_literal_bv 256 8 = encode_int_literal_bv 0 8"
  by (simp add: encode_int_literal_bv_def)

lemma narrow_claim:
  "encode_expr disp (declared [(''x'', TU8)]) versions (bin sp Eq (ident sp ''x'') (lit sp 256)) None =
   encode_expr disp (declared [(''x'', TU8)]) versions (bin sp Eq (ident sp ''x'') (lit sp 0)) None"
  by (simp add: bin_def encode_binary_def narrow_type Let_def) (simp add: lit_def bits_or_64_def narrow_literal)

lemma wide_check:
  "\<exists>k a b. check_expr disp other sigs (bin sp Eq (ident sp ''x'') (lit sp 256)) (byte_state reg sp) =
     Inr (\<lparr>ck_expr = TExpr (EBinary Eq (TExpr k TI64 None a b) (TExpr (EInt 256) TI64 (Some (TCInt 256)) sp None) True) TBool None sp None,
       ck_flexible_integer = False, ck_flexible_float = False\<rparr>, byte_state reg sp)"
  by (simp add: bin_def ident_def lit_def integer_checks chk_steps byte_state_def byte_binding_def array_binding_def array_state_def
     check_var_def lookup_def var_kind_def with_binding_decl_span_def check_equality_def binary_node_def Let_def span_merge_def)

text \<open>
  C18. For \<open>x: u8\<close> the checker types \<open>x == 256\<close> as a comparison of \<open>i64\<close>, which is false, for 0 as for
  every \<open>x\<close>. The verifier writes the literal with the eight bits of \<open>x\<close>: its script for the claim
  \<open>x == 256\<close> is that for \<open>x == 0\<close>, so that under \<open>requires x == 0\<close> a false claim is proved.
\<close>
theorem verifier_narrows_literals:
  "(case check_expr disp other sigs (bin sp Eq (ident sp ''x'') (lit sp 256)) (byte_state reg sp) of
      Inr (c, s') \<Rightarrow> cs_diags s' = [] \<and>
        (case e_kind (ck_expr c) of EBinary op l r b \<Rightarrow> op = Eq \<and> e_ty l = TI64 \<and> e_ty r = TI64 \<and> e_constant r = Some (TCInt 256) | _ \<Rightarrow> False)
    | Inl e \<Rightarrow> False) \<and>
   int_binary Eq TI64 0 256 = Done (VBool False) \<and>
   build_query disp (bin sp Eq (ident sp ''x'') (lit sp 256)) facts [(''x'', TU8)] versions =
   build_query disp (bin sp Eq (ident sp ''x'') (lit sp 0)) facts [(''x'', TU8)] versions"
proof -
  obtain k a b where c: "check_expr disp other sigs (bin sp Eq (ident sp ''x'') (lit sp 256)) (byte_state reg sp) =
     Inr (\<lparr>ck_expr = TExpr (EBinary Eq (TExpr k TI64 None a b) (TExpr (EInt 256) TI64 (Some (TCInt 256)) sp None) True) TBool None sp None,
       ck_flexible_integer = False, ck_flexible_float = False\<rparr>, byte_state reg sp)"
    using wide_check by blast
  have "cs_diags (byte_state reg sp) = []" by (simp add: byte_state_def array_state_def)
  then show ?thesis by (simp add: c build_query_def narrow_claim)
qed

section \<open>Values in counterexamples\<close>

lemma digits_value_append: "digits_value r k (a @ b) = Option.bind (digits_value r k a) (\<lambda>n. digits_value r n b)"
  by (induction a arbitrary: k) (auto split: option.split)

lemma top_bit: "(n :: nat) < 2 ^ Suc k \<Longrightarrow> n div 2 ^ k mod 2 = 1 \<longleftrightarrow> 2 ^ k \<le> n"
proof -
  assume n: "n < 2 ^ Suc k"
  then have "n div 2 ^ k < 2" by (simp add: less_mult_imp_div_less)
  moreover have "0 < n div 2 ^ k \<longleftrightarrow> 2 ^ k \<le> n" by (simp add: div_greater_zero_iff)
  ultimately show ?thesis by (cases "n div 2 ^ k") auto
qed

lemma i128_wrap_id: "- (2 ^ 127) \<le> v \<Longrightarrow> v < 2 ^ 127 \<Longrightarrow> i128_wrap v = v"
  unfolding i128_wrap_def by simp

text \<open>A number with the bits of a value is read as the value.\<close>

lemma bits_read_back:
  assumes "fits t v" and raw: "bv_number raw = Some (nat (v mod 2 ^ bits_or_64 t))"
  shows "parse_bv_bits raw t = Some (show_int v)"
proof -
  let ?w = "bits_or_64 t"
  define n where "n = nat (v mod 2 ^ ?w)"
  have t: "is_integer t" using assms(1) fits_integer by blast
  note b = bits_eq[OF t]
  have number: "bv_number raw = Some n" using raw by (simp add: n_def)
  have "(2 :: nat) ^ ?w \<le> 2 ^ 64" using b by (intro power_increasing) auto
  moreover have "n < 2 ^ ?w" by (simp add: n_def nat_less_iff)
  ultimately have n: "n < 2 ^ ?w" "n < 2 ^ 64" by simp_all
  have i: "i128_wrap (int n) = int n" using n(2) by (intro i128_wrap_id) simp_all
  show ?thesis
  proof (cases "is_signed_int t")
    case False
    have "int n = v" unfolding n_def by (rule uint_of_unsigned[OF t False assms(1)])
    then show ?thesis using number b False by (auto simp: parse_bv_bits_def show_int_def)
  next
    case True
    obtain k where k: "?w = Suc k" using b by (cases ?w) auto
    have s: "bv_sint ?w n = v" unfolding n_def by (rule sint_of_signed[OF True assms(1)])
    define p where "p = (2 :: int) ^ ?w"
    have "p \<le> 2 ^ 64" unfolding p_def using b by (intro power_increasing) auto
    moreover have "0 < p" by (simp add: p_def)
    ultimately have w: "i128_wrap (int n - 2 ^ ?w) = int n - 2 ^ ?w"
      unfolding p_def[symmetric] using n(2) by (intro i128_wrap_id) simp_all
    have "(n div 2 ^ (?w - 1) mod 2 = 1) = (2 ^ (?w - 1) \<le> n)" using top_bit[of n k] n(1) unfolding k by simp
    then have "(if n div 2 ^ (?w - 1) mod 2 = 1 then i128_wrap (i128_wrap (int n) - 2 ^ ?w) else i128_wrap (int n)) = v"
      unfolding s[symmetric] bv_sint_def by (simp only: i w)
    then show ?thesis using number b True by (simp add: parse_bv_bits_def)
  qed
qed

text \<open>The hexadecimal digits of a number, and the literal a solver prints for a value: one digit for four bits.\<close>

definition hex_char :: "nat \<Rightarrow> char" where
  "hex_char d = ''0123456789abcdef'' ! d"

fun hex_digits :: "nat \<Rightarrow> nat \<Rightarrow> string" where
  "hex_digits 0 n = []"
| "hex_digits (Suc k) n = hex_digits k (n div 16) @ [hex_char (n mod 16)]"

definition hex_literal :: "ty \<Rightarrow> int \<Rightarrow> string" where
  "hex_literal t v = ''#x'' @ hex_digits (bits_or_64 t div 4) (nat (v mod 2 ^ bits_or_64 t))"

lemma below_16: "(d :: nat) < 16 \<Longrightarrow> d \<in> {0, 1, 2, 3, 4, 5, 6, 7, 8, 9, 10, 11, 12, 13, 14, 15}"
  unfolding insert_iff empty_iff by arith

lemma hex_char_in: "d < 16 \<Longrightarrow> digit_in 16 (hex_char d) = Some d \<and> hex_char d \<noteq> CHR ''+'' \<and> atom_char (hex_char d)"
  by (drule below_16, elim insertE emptyE)
    (simp_all add: hex_char_def digit_in_def is_digit_char_def atom_char_def ascii_def delimiter_def white_space_def)

lemma hex_digits_value: "digits_value 16 0 (hex_digits k n) = Some (n mod 16 ^ k)"
proof (induction k arbitrary: n)
  case (Suc k)
  have "n mod 16 < 16" by simp
  from hex_char_in[OF this] have d: "digit_in 16 (hex_char (n mod 16)) = Some (n mod 16)" by simp
  have "n mod 16 ^ Suc k = n div 16 mod 16 ^ k * 16 + n mod 16"
    unfolding power_Suc by (subst mod_mult2_eq) (rule arg_cong2[where f = "(+)", OF mult.commute refl])
  then show ?case
    unfolding hex_digits.simps digits_value_append Suc.IH bind.bind_lunit digits_value.simps d option.case by (rule arg_cong[symmetric])
qed simp

lemma hex_digits_chars: "list_all (\<lambda>c. c \<noteq> CHR ''+'' \<and> atom_char c) (hex_digits k n)"
  by (induction k arbitrary: n) (simp_all add: hex_char_in)

lemma hex_digits_nonempty: "0 < k \<Longrightarrow> hex_digits k n \<noteq> []"
  by (cases k) simp_all

lemma hex_number:
  assumes "is_integer t"
  shows "bv_number (hex_literal t v) = Some (nat (v mod 2 ^ bits_or_64 t))"
proof -
  let ?k = "bits_or_64 t div 4" and ?n = "nat (v mod 2 ^ bits_or_64 t)"
  have k: "0 < ?k" "bits_or_64 t = 4 * ?k" "?k \<le> 16" by (rule is_integer_cases[OF assms]; simp add: bits_or_64_def)+
  have "(2 :: nat) ^ bits_or_64 t = 16 ^ ?k" by (subst k(2)) (simp add: power_mult)
  moreover have "?n < 2 ^ bits_or_64 t" by (simp add: nat_less_iff)
  ultimately have n: "?n < 16 ^ ?k" by simp
  have "(16 :: nat) ^ ?k \<le> 16 ^ 16" using k(3) by (intro power_increasing) auto
  with n have "?n \<le> 16 ^ 16" by (rule less_imp_le[OF less_le_trans])
  moreover have "(16 :: nat) ^ 16 \<le> u128_max" by (simp add: u128_max_def)
  ultimately have limit: "?n \<le> u128_max" by (rule le_trans)
  obtain c cs where c: "hex_digits ?k ?n = c # cs" using hex_digits_nonempty[OF k(1)] by (cases "hex_digits ?k ?n") auto
  then have "c \<noteq> CHR ''+''" using hex_digits_chars[of ?k ?n] by simp
  then have "(case hex_digits ?k ?n of c # cs \<Rightarrow> if c = CHR ''+'' then cs else hex_digits ?k ?n | [] \<Rightarrow> []) = hex_digits ?k ?n"
    using c by simp
  then have "parse_unsigned 16 u128_max (hex_digits ?k ?n) = Some ?n"
    unfolding parse_unsigned_def using c limit hex_digits_value[of ?k ?n] n by (simp only: Let_def) simp
  then show ?thesis by (simp add: bv_number_def hex_literal_def strip_prefix_def)
qed

section \<open>Reading a model\<close>

text \<open>A definition of a model, of the sort the verifier declares a variable with.\<close>

definition define_fun :: "string \<Rightarrow> ty \<Rightarrow> sexp \<Rightarrow> sexp" where
  "define_fun n t x = Lst [Atom ''define-fun'', Atom (sanitize n), Lst [], Lst [Atom ''_'', Atom ''BitVec'', Atom (show_nat (bits_or_64 t))], x]"

lemma split_closing_flat:
  "plain_atoms x \<Longrightarrow> split_closing (Suc d) (flat x @ ts) = (case split_closing (Suc d) ts of (a, b) \<Rightarrow> (flat x @ a, b))"
proof (induction x arbitrary: d ts)
  case (Lst us)
  have "split_closing (Suc d) (concat (map flat vs) @ ts) = (case split_closing (Suc d) ts of (a, b) \<Rightarrow> (concat (map flat vs) @ a, b))"
    if "set vs \<subseteq> set us" for vs d ts
    using that Lst by (induction vs arbitrary: ts) (auto simp: list_all_iff split: prod.splits)
  from this[OF order_refl] show ?case by (auto simp: nesting_def split: prod.splits)
qed (auto simp: nesting_def split: prod.splits)

lemma split_closing_end: "split_closing (Suc 0) ('')'' # ts) = ([], '')'' # ts)"
  by (simp add: nesting_def)

lemma sort_plain: "plain_atoms (Atom (show_nat n))" "plain_atoms (Atom (sanitize m))"
  using spells_atom[OF show_nat_atom[of n]] spells_atom[OF sanitize_atom[of m]] by (simp_all add: spells_def)

lemma definition_read:
  assumes "plain_atoms x"
  shows "definition_value ('')'' # ''('' # ''_'' # ''BitVec'' # show_nat n # '')'' # flat x @ '')'' # ts) = Some (format_value (flat x), ts)"
proof -
  let ?sort = "[Atom ''_'', Atom ''BitVec'', Atom (show_nat n)]"
  have "split_closing 1 (concat (map flat ?sort) @ '')'' # flat x @ '')'' # ts) = (concat (map flat ?sort), '')'' # flat x @ '')'' # ts)"
    using sort_plain(1)[of n] by (simp add: nesting_def)
  moreover have "split_closing 1 (flat x @ '')'' # ts) = (flat x, '')'' # ts)"
    using split_closing_flat[OF assms, of 0 "'')'' # ts"] split_closing_end by simp
  moreover have "flat x @ '')'' # ts \<noteq> []" by simp
  ultimately show ?thesis by (simp add: definition_value_def after_closing_def nesting_def)
qed

lemma model_step:
  assumes "plain_atoms x"
  shows "parse_model_from (flat (define_fun n t x) @ ts) m = parse_model_from ts (m(sanitize n \<mapsto> format_value (flat x)))"
  using definition_read[OF assms, of "bits_or_64 t" ts]
  by (simp add: define_fun_def parse_model_from.simps[of "''('' # _"])

lemma model_steps:
  assumes "\<forall>(n, t, x)\<in>set ds. plain_atoms x" "distinct (map (\<lambda>(n, t, x). sanitize n) ds)"
  shows "parse_model_from (concat (map (\<lambda>(n, t, x). flat (define_fun n t x)) ds) @ ['')'']) m =
    m ++ map_of (map (\<lambda>(n, t, x). (sanitize n, format_value (flat x))) ds)"
  using assms
proof (induction ds arbitrary: m)
  case Nil
  show ?case by (simp add: parse_model_from.simps)
next
  case (Cons d ds)
  obtain n t x where d: "d = (n, t, x)" by (cases d)
  let ?rest = "map_of (map (\<lambda>(n, t, x). (sanitize n, format_value (flat x))) ds)"
  have "dom ?rest = set (map (\<lambda>(n, t, x). sanitize n) ds)"
    by (simp add: dom_map_of_conv_image_fst image_image case_prod_unfold)
  then have "sanitize n \<notin> dom ?rest" using Cons.prems(2) by (simp add: d case_prod_unfold)
  then have swap: "m(sanitize n \<mapsto> y) ++ ?rest = m ++ ?rest(sanitize n \<mapsto> y)" for y
    by (auto simp: fun_eq_iff map_add_def dom_def split: option.split)
  have "parse_model_from (concat (map (\<lambda>(n, t, x). flat (define_fun n t x)) (d # ds)) @ ['')'']) m =
    m(sanitize n \<mapsto> format_value (flat x)) ++ ?rest"
    using Cons.IH Cons.prems by (simp add: d model_step)
  then show ?case unfolding swap by (simp add: d fun_eq_iff map_add_def)
qed

text \<open>The output of a solver that found a model.\<close>

definition sat_output :: "string \<Rightarrow> string" where
  "sat_output model = ''sat'' @ newline_char # model"

definition models :: "string \<Rightarrow> (string \<times> ty \<times> sexp) list \<Rightarrow> bool" where
  "models model ds \<longleftrightarrow> spells model (Lst (map (\<lambda>(n, t, x). define_fun n t x) ds))"

lemma model_read:
  assumes "models model ds" "distinct (map (\<lambda>(n, t, x). sanitize n) ds)"
  shows "parse_model (sat_output model) = map_of (map (\<lambda>(n, t, x). (sanitize n, format_value (flat x))) ds)"
proof -
  let ?flats = "concat (map (\<lambda>(n, t, x). flat (define_fun n t x)) ds) @ ['')'']"
  have sp: "list_all ascii model" "toks [] model = ''('' # ?flats" "\<forall>(n, t, x)\<in>set ds. plain_atoms x"
    using assms(1) by (auto simp: models_def spells_def define_fun_def list_all_iff comp_def case_prod_unfold)
  have "list_all ascii (sat_output model)" using sp(1) by (simp add: sat_output_def) (simp add: ascii_def)
  then have "tokenize_sexpr (sat_output model) = ''sat'' # ''('' # ?flats"
    using toks_split[of newline_char "[]" "''sat''" model] sp(2) toks_atom[of "''sat''" "[]"]
    by (simp add: tokenize_ascii sat_output_def flush_def delimiter_def white_space_def)
  moreover have "parse_model_from (''('' # ?flats) m = parse_model_from ?flats m" for m
  proof -
    have "\<exists>a rest. ?flats = a # rest \<and> a \<noteq> ''define-fun''"
      by (cases ds) (auto simp: define_fun_def)
    then show ?thesis by (auto simp: parse_model_from.simps[of "''('' # _"])
  qed
  moreover have "parse_model_from (''sat'' # ''('' # ts) m = parse_model_from (''('' # ts) m" for ts m
    by (simp add: parse_model_from.simps[of "''sat'' # _"])
  ultimately show ?thesis using model_steps[OF sp(3) assms(2), of Map.empty] by (simp add: parse_model_def)
qed

lemma sat_first: "first_line (sat_output model) = ''sat''"
proof -
  have "takeWhile (\<lambda>c. c \<noteq> newline_char) (sat_output model) = ''sat''" by (simp add: sat_output_def)
  moreover have "trim (chop_cr ''sat'') = ''sat''" by code_simp
  ultimately show ?thesis by (simp add: first_line_def)
qed

text \<open>No name of a variable is that of the length of another one.\<close>

definition no_length_names :: "(string \<times> ty \<times> 'a) list \<Rightarrow> bool" where
  "no_length_names ds \<longleftrightarrow> (\<forall>d\<in>set ds. \<forall>d'\<in>set ds. sanitize (fst d) \<noteq> sanitize (fst d') @ ''_len'')"

lemma counterexample_read:
  assumes "models model (map (\<lambda>(n, t, v). (n, t, pr t v)) ds)" "ds \<noteq> []" "distinct (map (\<lambda>(n, t, v). sanitize n) ds)"
    "no_length_names ds" "\<forall>(n, t, v)\<in>set ds. is_integer t \<and> render_value fd (format_value (flat (pr t v))) t = show t v"
  shows "parse_verdict fd (sat_output model) (map (\<lambda>(n, t, v). (n, t)) ds) =
    Disproven (Some (join_with '', '' (map (\<lambda>(n, t, v). n @ '' = '' @ show t v) ds)))"
proof -
  define m where "m = map_of (map (\<lambda>(n, t, v). (sanitize n, format_value (flat (pr t v)))) ds)"
  have dist: "distinct (map fst (map (\<lambda>(n, t, v). (sanitize n, format_value (flat (pr t v)))) ds))"
    using assms(3) by (simp add: comp_def case_prod_unfold)
  have read: "parse_model (sat_output model) = m"
    using model_read[OF assms(1)] assms(3) unfolding m_def by (simp add: comp_def case_prod_unfold)
  have entry: "counterexample_entries fd m (n, t) = [n @ '' = '' @ show t v]" if d: "(n, t, v) \<in> set ds" for n t v
  proof -
    have "m (sanitize n) = Some (format_value (flat (pr t v)))"
      unfolding m_def using d by (intro map_of_is_SomeI[OF dist]) force
    moreover have "m (sanitize n @ ''_len'') = None"
      unfolding m_def map_of_eq_None_iff using assms(4) d by (force simp: no_length_names_def)
    ultimately show ?thesis using assms(5) d by (auto simp: counterexample_entries_def supported_sort_def)
  qed
  have "map (counterexample_entries fd m) (map (\<lambda>(n, t, v). (n, t)) ds) = map (\<lambda>(n, t, v). [n @ '' = '' @ show t v]) ds"
    using entry by auto
  then have entries: "concat (map (counterexample_entries fd m) (map (\<lambda>(n, t, v). (n, t)) ds)) = map (\<lambda>(n, t, v). n @ '' = '' @ show t v) ds"
    by (simp only:) (induction ds, auto)
  have "m \<noteq> Map.empty" using assms(2) by (cases ds) (auto simp: m_def)
  then have "format_counterexample fd m (map (\<lambda>(n, t, v). (n, t)) ds) = Some (join_with '', '' (map (\<lambda>(n, t, v). n @ '' = '' @ show t v) ds))"
    using assms(2) unfolding format_counterexample_def Let_def entries by simp
  then show ?thesis by (simp add: parse_verdict_def sat_first read)
qed

text \<open>
  C17. When the solver answers \<open>sat\<close> with a model that defines the variables of a claim as bit vectors, each
  with the hexadecimal literal of a value of its integer type, the counterexample shows each variable with
  that value, in order and with its sign, however the text of the model is laid out.
\<close>
theorem counterexamples_read_back:
  assumes "models model (map (\<lambda>(n, t, v). (n, t, Atom (hex_literal t v))) ds)" "ds \<noteq> []"
    "\<forall>(n, t, v)\<in>set ds. fits t v" "distinct (map (\<lambda>(n, t, v). sanitize n) ds)" "no_length_names ds"
  shows "parse_verdict fd (sat_output model) (map (\<lambda>(n, t, v). (n, t)) ds) =
    Disproven (Some (join_with '', '' (map (\<lambda>(n, t, v). n @ '' = '' @ show_int v) ds)))"
proof (rule counterexample_read[OF assms(1,2,4,5)])
  have "render_value fd (format_value (flat (Atom (hex_literal t v)))) t = show_int v" "is_integer t" if "fits t v" for t v
    using bits_read_back[OF that hex_number] fits_integer[OF that] by (simp_all add: format_value_def render_value_def)
  then show "\<forall>(n, t, v)\<in>set ds. is_integer t \<and> render_value fd (format_value (flat (Atom (hex_literal t v)))) t = show_int v"
    using assms(3) by auto
qed

definition sample_model :: string where
  "sample_model = ''('' @ newline_char # ''  (define-fun v_i () (_ BitVec 16)'' @ newline_char # ''    #xfffd)'' @ newline_char # '')''"

theorem counterexamples_read_back_witness:
  "\<forall>fd. parse_verdict fd (sat_output sample_model) [(''i'', TI16)] = Disproven (Some ''i = -3'')"
proof
  fix fd :: float_display
  have h: "hex_literal TI16 (-3) = ''#xfffd''" 
  proof -
    have "hex_digits (Suc (Suc (Suc (Suc 0)))) 65533 = ''fffd''" by (simp add: hex_char_def)
    moreover have "nat (- 3 mod 2 ^ bits_or_64 TI16) = 65533" "bits_or_64 TI16 div 4 = Suc (Suc (Suc (Suc 0)))"
      by (simp_all add: bits_or_64_def)
    ultimately show ?thesis unfolding hex_literal_def by (simp only:) simp
  qed
  have "list_all ascii sample_model" by (simp add: sample_model_def ascii_def)
  moreover have "sanitize ''i'' = ''v_i''" "show_nat 16 = ''16''" by code_simp+
  moreover have "toks [] sample_model = flat (Lst [Lst [Atom ''define-fun'', Atom ''v_i'', Lst [],
      Lst [Atom ''_'', Atom ''BitVec'', Atom ''16''], Atom ''#xfffd'']])" by code_simp
  ultimately have "models sample_model [(''i'', TI16, Atom ''#xfffd'')]"
    by (simp add: models_def spells_def define_fun_def bits_or_64_def)
  moreover have "distinct (map (\<lambda>(n, t, v). sanitize n) [(''i'', TI16, - 3 :: int)])" "no_length_names [(''i'', TI16, - 3 :: int)]"
    by (simp_all add: no_length_names_def)
  moreover have "''i'' @ '' = '' @ show_int (-3) = ''i = -3''" by code_simp
  ultimately show "parse_verdict fd (sat_output sample_model) [(''i'', TI16)] = Disproven (Some ''i = -3'')"
    using counterexamples_read_back[of sample_model "[(''i'', TI16, -3)]" fd] by (simp add: fits_def h)
qed

text \<open>
  A literal \<open>(_ bv65533 16)\<close> in a model, the form the verifier writes itself, is taken apart into tokens and joined
  again with a blank after the parenthesis; the branch of \<open>parse_bv_bits\<close> for it never matches, and the
  counterexample shows the tokens, for every value.
\<close>
lemma decimal_literals_stay_raw:
  assumes "models model (map (\<lambda>(n, t, v). (n, t, Lst [Atom ''_'', Atom (''bv'' @ show_nat (nat (v mod 2 ^ bits_or_64 t))), Atom (show_nat (bits_or_64 t))])) ds)"
    "ds \<noteq> []" "\<forall>(n, t, v)\<in>set ds. is_integer t" "distinct (map (\<lambda>(n, t, v). sanitize n) ds)" "no_length_names ds"
  shows "parse_verdict fd (sat_output model) (map (\<lambda>(n, t, v). (n, t)) ds) =
    Disproven (Some (join_with '', '' (map (\<lambda>(n, t, v).
      n @ '' = ( _ bv'' @ show_nat (nat (v mod 2 ^ bits_or_64 t)) @ '' '' @ show_nat (bits_or_64 t) @ '' )'') ds)))"
proof -
  let ?sexp = "\<lambda>t v. Lst [Atom ''_'', Atom (''bv'' @ show_nat (nat (v mod 2 ^ bits_or_64 t))), Atom (show_nat (bits_or_64 t))]"
  let ?raw = "\<lambda>t v. ''( _ bv'' @ show_nat (nat (v mod 2 ^ bits_or_64 t)) @ '' '' @ show_nat (bits_or_64 t) @ '' )''"
  have "render_value fd (format_value (flat (?sexp t v))) t = ?raw t v" if "is_integer t" for t and v :: int
  proof -
    have "format_value (flat (?sexp t v)) = ?raw t v" by (simp add: format_value_def)
    moreover have "bv_number (?raw t v) = None" by (simp add: bv_number_def strip_prefix_def)
    moreover have "\<not> is_float t" using that integer_no_float by blast
    ultimately show ?thesis by (auto simp: render_value_def parse_bv_bits_def parse_fp_literal_def split: option.split)
  qed
  then show ?thesis
    using counterexample_read[OF assms(1,2,4,5), of fd ?raw] assms(3) by (auto simp: case_prod_unfold)
qed

definition decimal_model :: string where
  "decimal_model = ''((define-fun v_i () (_ BitVec 16) (_ bv3 16)))''"

lemma decimal_literals_stay_raw_example:
  "\<forall>fd. parse_verdict fd (sat_output decimal_model) [(''i'', TI16)] = Disproven (Some ''i = ( _ bv3 16 )'')"
proof
  fix fd :: float_display
  have b: "nat (3 mod 2 ^ bits_or_64 TI16) = 3" "bits_or_64 TI16 = 16" by (simp_all add: bits_or_64_def)
  have n: "show_nat 3 = ''3''" "show_nat 16 = ''16''" by code_simp+
  have "list_all ascii decimal_model" by (simp add: decimal_model_def ascii_def)
  moreover have "sanitize ''i'' = ''v_i''" by code_simp
  moreover have "toks [] decimal_model = flat (Lst [Lst [Atom ''define-fun'', Atom ''v_i'', Lst [],
      Lst [Atom ''_'', Atom ''BitVec'', Atom ''16''], Lst [Atom ''_'', Atom ''bv3'', Atom ''16'']]])" by code_simp
  ultimately have "models decimal_model [(''i'', TI16, Lst [Atom ''_'', Atom ''bv3'', Atom ''16''])]"
    by (simp add: models_def spells_def define_fun_def b n)
  moreover have "distinct (map (\<lambda>(n, t, v). sanitize n) [(''i'', TI16, 3 :: int)])" "no_length_names [(''i'', TI16, 3 :: int)]"
    by (simp_all add: no_length_names_def)
  ultimately show "parse_verdict fd (sat_output decimal_model) [(''i'', TI16)] = Disproven (Some ''i = ( _ bv3 16 )'')"
    using decimal_literals_stay_raw[of decimal_model "[(''i'', TI16, 3)]" fd] by (simp add: is_integer_def b n)
qed

end
