(* ===== verification/Spec2Isabelle.thy ===== *)
theory Spec2Isabelle
  imports SsaDceLoop SsaGateLower SsaElide SsaAudit ParserPrec ParserProps FormatProps SmtProps
begin

text \<open>
  Verification of parts of the vani compiler.

  The compiler reads a source text, splits it into tokens (\<open>src/lexer.rs\<close>), parses them
  (\<open>src/parser.rs\<close>) into a syntax tree (\<open>src/ast.rs\<close>), checks and lowers the tree to a typed one
  (\<open>src/checker.rs\<close>, \<open>src/ir.rs\<close>), lowers that to SSA (\<open>src/ssa.rs\<close>), runs a few passes over it
  (\<open>src/ssa_pass.rs\<close>) and prints C or LLVM text. A gate in \<open>src/main.rs\<close> decides which programs take
  the SSA path; the others go from the typed tree to text. Contracts and claims are written as a script
  for an external solver, whose answer is read back (\<open>src/smt.rs\<close>). Errors are values with spans, rendered by
  \<open>src/diagnostic.rs\<close>. The formatter (\<open>src/format.rs\<close>) prints a syntax tree back.

  \<^bold>\<open>How the code is modelled.\<close> A struct is a record, an enum a datatype with the source's
  constructors, a function that may fail returns \<open>'e err + 'a\<close>, where \<open>Panic\<close> stands for every panic of
  the source (a failed \<open>unwrap\<close>, an index out of range, a slice off a character boundary, an
  \<open>unreachable!\<close>), so that ``does not panic'' is a statement about the value. Mutable state is passed
  explicitly: \<open>builder\<close> for the function under construction, \<open>ps\<close> for the parser, a cursor and a text
  for the formatter, \<open>check_state\<close> (environment, diagnostics, counter of fresh names) for the checker. Rust's
  \<open>i128\<close> is \<open>int\<close> with its range checked where the code checks it, casts to \<open>u64\<close> are taken modulo
  2^64, floats are their 64 bits, strings are lists of bytes. Two choices are the model's: the numbers of SSA
  values and blocks, \<open>u32\<close> in the source, are natural numbers that never wrap (a function would need 2^32 of
  them), and in \<open>SsaSem\<close> a division by zero, the division of the least value by -1 and a shift past
  the width trap, where LLVM leaves the plain \<open>sdiv\<close> or \<open>shl\<close> undefined.

  \<^bold>\<open>Theories and code.\<close>
  \<^item> \<open>Prelude\<close>: the result monad with its predicates, byte-wise order of strings, the ordered maps of
    Rust as sorted association lists behind the locale \<open>ordered_map\<close>; \<open>Decimal\<close>, \<open>Utf8\<close>: numerals, the
    structure of UTF-8 and slices.
  \<^item> \<open>Diagnostic\<close>, \<open>DiagProps\<close> (\<open>src/diagnostic.rs\<close>): positions, underlined lines, JSON, the map from
    offsets of the concatenated text back to files.
  \<^item> \<open>Lexer\<close>, \<open>LexerProps\<close> (\<open>src/lexer.rs\<close>): the scanner, the keyword tables of both scripts, the merging
    passes, the rule that a file keeps to one script, the scan for comments.
  \<^item> \<open>Ast\<close> (types, operators, spans), \<open>SourceAst\<close> (declarations, statements, expressions of \<open>src/ast.rs\<close>).
  \<^item> \<open>ParserCore\<close>, \<open>ParserType\<close>, \<open>ParserExpr\<close>, \<open>ParserStmt\<close>, \<open>ParserItem\<close> (\<open>src/parser.rs\<close>): the recursive
    descent with its look-ahead and its recovery. \<open>ParserTriple\<close> is a logic of triples on parsers,
    \<open>ParserTotal\<close> uses it, through the locales \<open>calls\<close>, \<open>stmt_calls\<close> and \<open>module_calls\<close>, to show the parser
    total; \<open>ParserRun\<close> evaluates it on given tokens; \<open>ParserPrec\<close> and \<open>ParserProps\<close> say what it returns.
  \<^item> \<open>Format\<close>, \<open>FormatItem\<close>, \<open>FormatProps\<close> (\<open>src/format.rs\<close>): the printers, and what they keep and lose.
  \<^item> \<open>Ir\<close> (\<open>src/ir.rs\<close>), \<open>Ssa\<close> (data and builder of \<open>src/ssa.rs\<close>), \<open>SsaText\<close> (its printed form).
  \<^item> \<open>SsaLowerExpr\<close>, \<open>SsaLower\<close>: the lowering, every statement and expression. \<open>SsaInv\<close> to \<open>SsaFuncWf\<close>
    carry the invariant of the builder through it; \<open>SsaLowerProps\<close> states the results.
  \<^item> \<open>SsaSem\<close>: a reference semantics of SSA modules with calls, effects and traps. \<open>SsaPass\<close>: the locale
    \<open>ssa_pass\<close>, under which a pass that simulates block by block preserves the runs of a module.
  \<^item> \<open>SsaFold\<close>, \<open>SsaDce\<close>, \<open>SsaDceLoop\<close>, \<open>SsaElide\<close>, \<open>SsaAudit\<close> (\<open>src/ssa_pass.rs\<close>): constant folding, the
    three steps of dead-code elimination and their loop, bounds-check elision, the audits of parallel
    regions and drops over the stack matching of \<open>Brackets\<close>.
  \<^item> \<open>SsaGate\<close>, \<open>SsaGateLower\<close> (\<open>src/main.rs\<close>): the gate, the dispatch, and that what the gate admits lowers.
  \<^item> \<open>CheckEnv\<close> (scopes and registries of \<open>src/checker.rs\<close>), \<open>CheckConst\<close> (constants, assignability,
    coercions, promotions), \<open>CheckOp\<close> (operators and their folding), \<open>CheckExpr\<close> (\<open>check_expr\<close>: variables,
    literals, operators, casts, references, arrays, tuples, conditional expressions). \<open>Float64\<close> is the
    arithmetic of IEEE doubles these need. \<open>CheckProps\<close> carries the invariant of typed constants
    through the checker, \<open>CheckFold\<close> compares what is folded with what runs.
  \<^item> \<open>SmtEncode\<close> (encoder and script of \<open>src/smt.rs\<close>), \<open>SmtModel\<close> (its reader of answers, \<open>try_prove\<close>,
    \<open>try_satisfiable\<close>). \<open>SmtSem\<close> reads a script and gives its bit-vector terms the meaning SMT-LIB does;
    \<open>SmtSound\<close> shows that an encoded expression means what the expression does, \<open>SmtProve\<close> that proven
    claims hold, \<open>SmtProps\<close> what a literal becomes and how a model is read back.

  \<^bold>\<open>What is shown.\<close> Front end: no text makes the lexer panic and its tokens tile the text; every list of
  tokens that ends with the end of the file is parsed without a panic in bounded time; binary
  expressions get the tree that precedence and associativity prescribe; spans at character
  boundaries are rendered without a panic. Formatter: every comment survives, in order, and string
  literals of expressions read back (those of match patterns do not). Middle end: the lowering never panics and returns
  well-formed SSA for every typed function; a program the gate admits lowers whole, when its names are in scope, its reassignments
  drop what the lowering can drop and no element assignment has a field path; dead-code elimination
  terminates at a fixpoint, removes exactly the unreachable blocks and, when no removable instruction
  defines a value that only a reference, a drop or an element assignment reads, preserves the runs of a module; folding
  preserves them where folded constants stay in range, elision where constant indices fit 64 bits and the
  types of arrays agree along every block. The audit of parallel regions reports the effects inside them by the order of the blocks.
  Checker: the check of an expression built without conditionals and calls does not panic, and its constants
  keep to the ranges of their types up to the exceptions \<open>near\<close> allows; a folded operator gives what the
  program computes, but for the remainder of the least value by -1. Verifier: a claim it calls proven
  holds for every assignment that satisfies the facts, when each operator has operands of one type and each
  literal fits it; hexadecimal values of a model are shown as the values they stand for.
  Where the code does not do what it means to, the theorems marked as errors show it, for every input of
  a stated shape or, where the shape is fixed, on a concrete program.

  \<^bold>\<open>Bounds and fuel.\<close> The parser's recursive calls go through a record of parsers indexed by a nesting
  depth; \<open>parse\<close> starts with the number of tokens, and \<open>ParserTotal\<close> shows that each level consumes a token
  first, so the depth is never exhausted. Its loops are bounded by the tokens left, for the same
  reason. Runs of SSA modules take fuel; the refinement theorems say that the transformed module has the same
  result with the same fuel. All other functions terminate by their own measures.

  \<^bold>\<open>Parameters.\<close> The standard library's parser and printers of floating-point numbers, the \<open>Debug\<close> form of
  token kinds (used in messages only), the quoted form of strings in printed SSA, and in \<open>SsaSem\<close> the
  run-time library and the semantics of floating-point operations. For the checker, the check of the
  forms of expression \<open>check_expr\<close> hands on (calls, matches, closures, struct literals), \<open>other\<close>; the theorem
  on typed checks is about expressions without them. For the verifier, the solver, a function from scripts to answers of which \<open>solver_sound\<close> says that its
  \<open>unsat\<close> is right, and the environment variable that turns the cache off.

  \<^bold>\<open>Not modelled.\<close> The rest of the checker: statements, calls and built-ins, generics, borrow and effect
  analysis, and where it asks the verifier; the typed tree stands for their results. Starting the
  solver's process; the tree back ends and the SSA back ends, which print text of languages defined
  outside the repository; the language server and the command line, which are input and output
  around the parts above.
\<close>

end
